(* ===== verification/Prelude.thy ===== *)
theory Prelude
  imports Main "HOL-Library.Word" "HOL-Library.Char_ord" "HOL-Library.List_Lexorder"
    "HOL-Library.Multiset"
begin

section \<open>Prelude: results, in-place updates, machine integers\<close>

text \<open>
  Shared vocabulary of the development.

  \<^item> A Rust \<open>Result<T, E>\<close> is \<open>'e + 'a\<close> with \<open>Inl\<close> for \<open>Err\<close>; the \<open>?\<close> operator is
    \<open>bind_result\<close>, an early-return guard is \<open>ensure\<close>, a loop of fallible checks is \<open>try_all\<close>.
  \<^item> A Rust function that takes \<open>&mut S\<close> and returns \<open>Result<(), E>\<close> is an \<open>('s, 'e) upd\<close>:
    it returns the state as it is left behind together with the error, if any, so that the
    partial writes made before an error stay visible.
  \<^item> A Rust \<open>String\<close> is its list of UTF-8 bytes (\<open>string\<close>); \<open>len\<close> is \<open>length\<close> and the
    derived order is the lexicographic order of bytes.
  \<^item> Fixed-width integers are words; \<open>usize\<close> lengths of in-memory lists are naturals.
\<close>

named_theorems result_simps \<open>equations and characterisations of the result combinators\<close>
named_theorems upd_simps \<open>characterisations of in-place updates\<close>
named_theorems machine_simps \<open>readings of checked and saturating machine arithmetic\<close>

type_synonym u8 = "8 word"
type_synonym u16 = "16 word"
type_synonym u32 = "32 word"
type_synonym u64 = "64 word"

subsection \<open>Results\<close>

definition bind_result :: "'e + 'a \<Rightarrow> ('a \<Rightarrow> 'e + 'b) \<Rightarrow> 'e + 'b" where
  "bind_result r f = (case r of Inl e \<Rightarrow> Inl e | Inr a \<Rightarrow> f a)"

definition ensure :: "bool \<Rightarrow> 'e \<Rightarrow> 'e + unit" where
  "ensure b e = (if b then Inr () else Inl e)"

definition ok_or :: "'a option \<Rightarrow> 'e \<Rightarrow> 'e + 'a" where
  "ok_or v e = (case v of None \<Rightarrow> Inl e | Some a \<Rightarrow> Inr a)"

fun try_all :: "('a \<Rightarrow> 'e + unit) \<Rightarrow> 'a list \<Rightarrow> 'e + unit" where
  "try_all f [] = Inr ()"
| "try_all f (x # xs) = bind_result (f x) (\<lambda>_. try_all f xs)"

fun try_map :: "('a \<Rightarrow> 'e + 'b) \<Rightarrow> 'a list \<Rightarrow> 'e + 'b list" where
  "try_map f [] = Inr []"
| "try_map f (x # xs) = bind_result (f x) (\<lambda>y. bind_result (try_map f xs) (\<lambda>ys. Inr (y # ys)))"

definition try_option :: "('a \<Rightarrow> 'e + 'b) \<Rightarrow> 'a option \<Rightarrow> 'e + 'b option" where
  "try_option f v = (case v of None \<Rightarrow> Inr None | Some a \<Rightarrow> bind_result (f a) (\<lambda>b. Inr (Some b)))"

definition present :: "'a option list \<Rightarrow> 'a list" where
  "present vs = concat (map (\<lambda>v. case v of None \<Rightarrow> [] | Some a \<Rightarrow> [a]) vs)"

lemma bind_result_Inl [simp, result_simps]: "bind_result (Inl e) f = Inl e"
  by (simp add: bind_result_def)

lemma bind_result_Inr [simp, result_simps]: "bind_result (Inr a) f = f a"
  by (simp add: bind_result_def)

lemma bind_result_eq_Inr [result_simps]:
  "bind_result r f = Inr b \<longleftrightarrow> (\<exists>a. r = Inr a \<and> f a = Inr b)"
  by (cases r) auto

lemma bind_result_eq_Inl [result_simps]:
  "bind_result r f = Inl e \<longleftrightarrow> r = Inl e \<or> (\<exists>a. r = Inr a \<and> f a = Inl e)"
  by (cases r) auto

lemma ensure_eq_Inr [simp, result_simps]: "ensure b e = Inr u \<longleftrightarrow> b"
  by (simp add: ensure_def)

lemma ensure_eq_Inl [simp, result_simps]: "ensure b e = Inl e' \<longleftrightarrow> \<not> b \<and> e' = e"
  by (auto simp: ensure_def)

lemma ok_or_eq_Inr [simp, result_simps]: "ok_or v e = Inr a \<longleftrightarrow> v = Some a"
  by (auto simp: ok_or_def split: option.splits)

lemma ok_or_eq_Inl [simp, result_simps]: "ok_or v e = Inl e' \<longleftrightarrow> v = None \<and> e' = e"
  by (auto simp: ok_or_def split: option.splits)

lemma ok_or_simps [simp]: "ok_or None e = Inl e" "ok_or (Some a) e = Inr a"
  by (simp_all add: ok_or_def)

lemma try_all_eq_Inr [result_simps]: "try_all f xs = Inr u \<longleftrightarrow> (\<forall>x \<in> set xs. f x = Inr ())"
  by (induction xs) (auto simp: result_simps)

lemma try_all_append [result_simps]:
  "try_all f (xs @ ys) = bind_result (try_all f xs) (\<lambda>_. try_all f ys)"
  by (induction xs) (auto simp: bind_result_def split: sum.splits)

lemma try_all_error_in: "try_all f xs = Inl e \<Longrightarrow> \<exists>x \<in> set xs. f x = Inl e"
  by (induction xs) (auto simp: result_simps)

lemma try_map_eq_Inr [result_simps]:
  "try_map f xs = Inr ys \<longleftrightarrow> list_all2 (\<lambda>x y. f x = Inr y) xs ys"
  by (induction xs arbitrary: ys) (auto simp: result_simps list_all2_Cons1)

lemma try_map_error_in: "try_map f xs = Inl e \<Longrightarrow> \<exists>x \<in> set xs. f x = Inl e"
  by (induction xs) (auto simp: result_simps)

lemma try_option_eq_Inr [result_simps]:
  "try_option f v = Inr w \<longleftrightarrow>
     (v = None \<and> w = None) \<or> (\<exists>a b. v = Some a \<and> w = Some b \<and> f a = Inr b)"
  by (auto simp: try_option_def result_simps split: option.splits)

lemma try_option_eq_Inl [result_simps]:
  "try_option f v = Inl e \<longleftrightarrow> (\<exists>a. v = Some a \<and> f a = Inl e)"
  by (auto simp: try_option_def result_simps split: option.splits)

lemma try_option_simps [simp]:
  "try_option f None = Inr None"
  "try_option f (Some a) = bind_result (f a) (\<lambda>b. Inr (Some b))"
  by (simp_all add: try_option_def)

lemma set_present [simp]: "set (present vs) = {a. Some a \<in> set vs}"
  by (force simp: present_def split: option.splits)

subsection \<open>In-place updates\<close>

type_synonym ('s, 'e) upd = "'s \<Rightarrow> 's \<times> 'e option"

definition then_upd :: "('s, 'e) upd \<Rightarrow> ('s, 'e) upd \<Rightarrow> ('s, 'e) upd" where
  "then_upd f g s = (case f s of (s', Some e) \<Rightarrow> (s', Some e) | (s', None) \<Rightarrow> g s')"

definition upd_field ::
  "('s \<Rightarrow> 'a) \<Rightarrow> (('a \<Rightarrow> 'a) \<Rightarrow> 's \<Rightarrow> 's) \<Rightarrow> ('a \<Rightarrow> 'a \<times> 'e option) \<Rightarrow> ('s, 'e) upd" where
  "upd_field get put f s = (case f (get s) of (v, e) \<Rightarrow> (put (\<lambda>_. v) s, e))"

definition upd_assign :: "('a \<Rightarrow> 'e + 'a) \<Rightarrow> 'a \<Rightarrow> 'a \<times> 'e option" where
  "upd_assign f v = (case f v of Inl e \<Rightarrow> (v, Some e) | Inr w \<Rightarrow> (w, None))"

definition upd_check :: "('s \<Rightarrow> bool) \<Rightarrow> ('s \<Rightarrow> 'e) \<Rightarrow> ('s, 'e) upd" where
  "upd_check ok err s = (s, if ok s then None else Some (err s))"

definition upd_set :: "('s \<Rightarrow> 's) \<Rightarrow> ('s, 'e) upd" where
  "upd_set f s = (f s, None)"

lemma then_upd_ok [upd_simps]:
  "then_upd f g s = (t, None) \<longleftrightarrow> (\<exists>s'. f s = (s', None) \<and> g s' = (t, None))"
  by (auto simp: then_upd_def split: prod.splits option.splits)

lemma then_upd_err:
  "then_upd f g s = (t, Some e) \<longleftrightarrow>
     f s = (t, Some e) \<or> (\<exists>s'. f s = (s', None) \<and> g s' = (t, Some e))"
  by (auto simp: then_upd_def split: prod.splits option.splits)

lemma upd_field_ok [upd_simps]:
  "upd_field get put f s = (t, None) \<longleftrightarrow> (\<exists>v. f (get s) = (v, None) \<and> t = put (\<lambda>_. v) s)"
  by (auto simp: upd_field_def split: prod.splits)

lemma upd_assign_ok [upd_simps]: "upd_assign f v = (w, None) \<longleftrightarrow> f v = Inr w"
  by (auto simp: upd_assign_def split: sum.splits)

lemma upd_check_ok [upd_simps]: "upd_check ok err s = (t, None) \<longleftrightarrow> ok s \<and> t = s"
  by (auto simp: upd_check_def)

lemma upd_set_ok [upd_simps]: "upd_set f s = (t, None) \<longleftrightarrow> t = f s"
  by (auto simp: upd_set_def)

subsection \<open>Machine integers\<close>

definition checked_add :: "'a::len word \<Rightarrow> 'a word \<Rightarrow> 'a word option" where
  "checked_add a b = (if unat a + unat b < 2 ^ LENGTH('a) then Some (a + b) else None)"

definition saturating_add :: "'a::len word \<Rightarrow> 'a word \<Rightarrow> 'a word" where
  "saturating_add a b = (if unat a + unat b < 2 ^ LENGTH('a) then a + b else - 1)"

definition saturating_sub :: "'a::len word \<Rightarrow> 'a word \<Rightarrow> 'a word" where
  "saturating_sub a b = (if a < b then 0 else a - b)"

definition saturating_mul :: "'a::len word \<Rightarrow> 'a word \<Rightarrow> 'a word" where
  "saturating_mul a b = (if unat a * unat b < 2 ^ LENGTH('a) then a * b else - 1)"

lemma unat_minus_one_all: "unat (- 1 :: 'a::len word) = 2 ^ LENGTH('a) - 1"
  by (metis unsigned_minus_1_eq_mask mask_eq_exp_minus_1)

lemma checked_add_Some [machine_simps]:
  "checked_add a b = Some c \<longleftrightarrow>
     unat (a :: 'a::len word) + unat b < 2 ^ LENGTH('a) \<and> unat c = unat a + unat b"
  by (auto simp: checked_add_def unat_word_ariths intro: word_unat_eq_iff [THEN iffD2])

lemma checked_add_None [machine_simps]:
  "checked_add a b = None \<longleftrightarrow> 2 ^ LENGTH('a) \<le> unat (a :: 'a::len word) + unat b"
  by (auto simp: checked_add_def)

lemma unat_saturating_add [machine_simps]:
  "unat (saturating_add a b) = min (unat a + unat b) (2 ^ LENGTH('a) - 1)"
  for a b :: "'a::len word"
  by (auto simp: saturating_add_def unat_word_ariths unat_minus_one_all)

lemma unat_saturating_sub [machine_simps]:
  "unat (saturating_sub a b) = unat a - unat b" for a b :: "'a::len word"
  by (auto simp: saturating_sub_def word_less_nat_alt unat_sub word_le_nat_alt)

lemma unat_saturating_mul [machine_simps]:
  "unat (saturating_mul a b) = min (unat a * unat b) (2 ^ LENGTH('a) - 1)"
  for a b :: "'a::len word"
  by (auto simp: saturating_mul_def unat_word_ariths unat_minus_one_all)

lemma saturating_add_ge: "a \<le> saturating_add a b"
proof -
  have "unat a \<le> 2 ^ LENGTH('a) - 1"
    using unsigned_less [of a] by (simp add: less_eq_Suc_le [symmetric] le_diff_conv2)
  then show ?thesis by (simp add: word_le_nat_alt machine_simps)
qed

lemma saturating_sub_le: "saturating_sub a b \<le> a"
  by (simp add: word_le_nat_alt machine_simps)

subsection \<open>Decimal rendering\<close>

definition digit :: "nat \<Rightarrow> char" where
  "digit n = char_of (48 + n)"

fun decimal :: "nat \<Rightarrow> string" where
  "decimal n = (if n < 10 then [digit n] else decimal (n div 10) @ [digit (n mod 10)])"

declare decimal.simps [simp del]

lemma decimal_not_empty: "decimal n \<noteq> []"
  by (subst decimal.simps) simp

subsection \<open>Byte strings\<close>

definition byte_of :: "char \<Rightarrow> nat" where
  "byte_of c = of_char c"

definition ascii_lower :: "char \<Rightarrow> char" where
  "ascii_lower c =
     (if 65 \<le> byte_of c \<and> byte_of c \<le> 90 then char_of (byte_of c + 32) else c)"

definition to_ascii_lowercase :: "string \<Rightarrow> string" where
  "to_ascii_lowercase s = map ascii_lower s"

fun starts_with :: "string \<Rightarrow> string \<Rightarrow> bool" where
  "starts_with s [] = True"
| "starts_with [] (p # ps) = False"
| "starts_with (c # s) (p # ps) = (c = p \<and> starts_with s ps)"

fun contains :: "string \<Rightarrow> string \<Rightarrow> bool" where
  "contains [] p = (p = [])"
| "contains (c # s) p = (starts_with (c # s) p \<or> contains s p)"

lemma starts_with_append [simp]: "starts_with (p @ s) p"
  by (induction p) auto

lemma starts_with_iff: "starts_with s p \<longleftrightarrow> (\<exists>t. s = p @ t)"
  by (induction s p rule: starts_with.induct) auto

lemma contains_iff: "contains s p \<longleftrightarrow> (\<exists>l r. s = l @ p @ r)"
proof (induction s)
  case Nil
  then show ?case by simp
next
  case (Cons c s)
  then show ?case by (auto simp: starts_with_iff Cons_eq_append_conv)
qed

lemma length_to_ascii_lowercase [simp]: "length (to_ascii_lowercase s) = length s"
  by (simp add: to_ascii_lowercase_def)

end
