(* ===== verification/Ordered_Map.thy ===== *)
theory Ordered_Map
  imports Prelude
begin

section \<open>Ordered maps and sets\<close>

text \<open>
  \<^verbatim>\<open>std::collections::BTreeMap\<close> and \<^verbatim>\<open>BTreeSet\<close>, as the program uses them: a map is the
  association list of its entries in strictly increasing key order, so that iteration order is
  part of the value.  The locale \<open>ordered_map\<close> is the contract the clients rely on: lookup
  after insertion, the invariant, and that iteration is determined by the lookup function
  alone.  It is interpreted on the model below.
\<close>

type_synonym ('k, 'v) btree = "('k \<times> 'v) list"

fun bt_insert :: "'k::linorder \<Rightarrow> 'v \<Rightarrow> ('k, 'v) btree \<Rightarrow> ('k, 'v) btree" where
  "bt_insert k v [] = [(k, v)]"
| "bt_insert k v ((k', v') # t) =
     (if k < k' then (k, v) # (k', v') # t
      else if k = k' then (k, v) # t
      else (k', v') # bt_insert k v t)"

definition bt_get :: "('k, 'v) btree \<Rightarrow> 'k \<rightharpoonup> 'v" where
  "bt_get t = map_of t"

definition bt_keys :: "('k, 'v) btree \<Rightarrow> 'k list" where
  "bt_keys t = map fst t"

definition bt_values :: "('k, 'v) btree \<Rightarrow> 'v list" where
  "bt_values t = map snd t"

definition bt_sorted :: "('k::linorder, 'v) btree \<Rightarrow> bool" where
  "bt_sorted t \<longleftrightarrow> sorted_wrt (<) (map fst t)"

definition bt_remove :: "'k \<Rightarrow> ('k, 'v) btree \<Rightarrow> ('k, 'v) btree" where
  "bt_remove k t = filter (\<lambda>e. fst e \<noteq> k) t"

definition bt_collect :: "('k::linorder \<times> 'v) list \<Rightarrow> ('k, 'v) btree" where
  "bt_collect es = fold (\<lambda>(k, v). bt_insert k v) es []"

definition bset_collect :: "'k::linorder list \<Rightarrow> 'k list" where
  "bset_collect ks = fold insort_insert ks []"

subsection \<open>The contract\<close>

locale ordered_map =
  fixes emp :: 'm
    and get :: "'m \<Rightarrow> 'k::linorder \<Rightarrow> 'v option"
    and ins :: "'k \<Rightarrow> 'v \<Rightarrow> 'm \<Rightarrow> 'm"
    and entries :: "'m \<Rightarrow> ('k \<times> 'v) list"
    and inv :: "'m \<Rightarrow> bool"
  assumes get_emp: "get emp = Map.empty"
    and get_ins: "inv m \<Longrightarrow> get (ins k v m) = (get m)(k \<mapsto> v)"
    and inv_emp: "inv emp"
    and inv_ins: "inv m \<Longrightarrow> inv (ins k v m)"
    and entries_sorted: "inv m \<Longrightarrow> sorted_wrt (<) (map fst (entries m))"
    and entries_get: "inv m \<Longrightarrow> map_of (entries m) = get m"
begin

lemma entries_set: "inv m \<Longrightarrow> (k, v) \<in> set (entries m) \<longleftrightarrow> get m k = Some v"
  using entries_sorted [of m] entries_get [of m]
  by (metis map_of_eq_Some_iff strict_sorted_iff)

lemma finite_dom: "inv m \<Longrightarrow> finite (dom (get m))"
  by (metis entries_get finite_dom_map_of)

text \<open>Iteration depends on the contents only, never on the order of the insertions.\<close>

lemma entries_canonical:
  assumes "inv m" and "inv m'" and "get m = get m'"
  shows "entries m = entries m'"
proof -
  have same: "set (entries m) = set (entries m')"
    using assms by (auto simp: entries_set)
  have keys: "map fst (entries m) = map fst (entries m')"
    using entries_sorted [OF assms(1)] entries_sorted [OF assms(2)] same
    by (metis set_map strict_sorted_equal)
  have val: "\<And>e. e \<in> set (entries m) \<Longrightarrow> snd e = the (get m (fst e))"
    using entries_set [OF assms(1)] by (metis option.sel prod.collapse)
  have val': "\<And>e. e \<in> set (entries m') \<Longrightarrow> snd e = the (get m (fst e))"
    using val same by blast
  have "map snd (entries m) = map (\<lambda>k. the (get m k)) (map fst (entries m))"
    using val by simp
  moreover have "map snd (entries m') = map (\<lambda>k. the (get m k)) (map fst (entries m'))"
    using val' by simp
  ultimately have "map snd (entries m) = map snd (entries m')"
    using keys by simp
  with keys show ?thesis
    by (metis zip_map_fst_snd)
qed

lemma get_fold_ins:
  "inv m \<Longrightarrow> get (fold (\<lambda>(k, v). ins k v) es m) = get m ++ map_of (rev es)"
  by (induction es arbitrary: m) (auto simp: get_ins inv_ins map_add_def fun_eq_iff split: option.splits)

lemma inv_fold_ins: "inv m \<Longrightarrow> inv (fold (\<lambda>(k, v). ins k v) es m)"
  by (induction es arbitrary: m) (auto simp: inv_ins)

end

subsection \<open>The model keeps the contract\<close>

lemma set_fst_bt_insert: "fst ` set (bt_insert k v t) = insert k (fst ` set t)"
  by (induction k v t rule: bt_insert.induct) auto

lemma bt_sorted_insert: "bt_sorted t \<Longrightarrow> bt_sorted (bt_insert k v t)"
  unfolding bt_sorted_def
proof (induction k v t rule: bt_insert.induct)
  case (1 k v)
  then show ?case by simp
next
  case (2 k v k' v' t)
  then show ?case using set_fst_bt_insert [of k v t] by (auto simp: image_iff)
qed

lemma bt_get_insert: "bt_sorted t \<Longrightarrow> bt_get (bt_insert k v t) = (bt_get t)(k \<mapsto> v)"
  unfolding bt_sorted_def bt_get_def
  by (induction k v t rule: bt_insert.induct) (auto simp: fun_eq_iff)

interpretation bt: ordered_map "[]" bt_get bt_insert "\<lambda>t. t" bt_sorted
  by unfold_locales (auto simp: bt_get_insert bt_sorted_insert, auto simp: bt_get_def bt_sorted_def)

lemma bt_canonical: "bt_sorted a \<Longrightarrow> bt_sorted b \<Longrightarrow> bt_get a = bt_get b \<Longrightarrow> a = b"
  by (rule bt.entries_canonical)

lemma bt_sorted_collect: "bt_sorted (bt_collect es)"
  by (simp add: bt_collect_def bt.inv_fold_ins bt.inv_emp)

lemma bt_get_collect: "bt_get (bt_collect es) = map_of (rev es)"
  by (simp add: bt_collect_def bt.get_fold_ins bt.inv_emp bt.get_emp)

lemma bt_get_dom: "dom (bt_get t) = set (bt_keys t)"
  by (simp add: bt_get_def bt_keys_def dom_map_of_conv_image_fst)

lemma bt_sorted_keys: "bt_sorted t \<Longrightarrow> sorted_wrt (<) (bt_keys t)"
  by (simp add: bt_sorted_def bt_keys_def)

lemma set_bt_values: "bt_sorted t \<Longrightarrow> set (bt_values t) = ran (bt_get t)"
  by (simp add: bt_values_def bt_get_def bt_sorted_def strict_sorted_iff ran_distinct)

lemma fold_insort_insert_set: "set (fold insort_insert ks acc) = set ks \<union> set acc"
  by (induction ks arbitrary: acc) (auto simp: set_insort_insert)

lemma fold_insort_insert_sorted:
  "sorted acc \<and> distinct acc \<Longrightarrow>
     sorted (fold insort_insert ks acc) \<and> distinct (fold insort_insert ks acc)"
  by (induction ks arbitrary: acc) (auto simp: sorted_insort_insert distinct_insort_insert)

lemma bset_collect_eq: "bset_collect ks = sorted_list_of_set (set ks)"
  using fold_insort_insert_set [of ks "[]"] fold_insort_insert_sorted [of "[]" ks]
  by (metis bset_collect_def distinct.simps(1) empty_set sorted_list_of_set.idem_if_sorted_distinct
      sorted_simps(1) sup_bot_right)

lemma set_bset_collect [simp]: "set (bset_collect ks) = set ks"
  by (simp add: bset_collect_eq)

lemma sorted_bset_collect: "sorted_wrt (<) (bset_collect ks)"
  by (simp add: bset_collect_eq)

lemma bt_get_remove: "bt_get (bt_remove k t) = (bt_get t)(k := None)"
  by (induction t) (auto simp: bt_get_def bt_remove_def fun_eq_iff)

lemma bt_sorted_remove: "bt_sorted t \<Longrightarrow> bt_sorted (bt_remove k t)"
  by (induction t) (auto simp: bt_sorted_def bt_remove_def)

lemma bt_get_fold_remove: "bt_get (fold bt_remove ks t) k = (if k \<in> set ks then None else bt_get t k)"
  by (induction ks arbitrary: t) (auto simp: bt_get_remove)

lemma bt_sorted_fold_remove: "bt_sorted t \<Longrightarrow> bt_sorted (fold bt_remove ks t)"
  by (induction ks arbitrary: t) (auto simp: bt_sorted_remove)

lemma bt_values_eq: "bt_sorted t \<Longrightarrow> set (bt_values t) = {v. \<exists>k. bt_get t k = Some v}"
  by (auto simp: set_bt_values ran_def)

subsection \<open>Grouping\<close>

text \<open>A loop over \<open>map.entry(key).or_insert_with(init)\<close> that then updates the entry.\<close>

definition bt_group_step ::
  "('a \<Rightarrow> 'k::linorder) \<Rightarrow> ('a \<Rightarrow> 'g) \<Rightarrow> ('a \<Rightarrow> 'g \<Rightarrow> 'g) \<Rightarrow> 'a \<Rightarrow> ('k, 'g) btree \<Rightarrow> ('k, 'g) btree" where
  "bt_group_step key init step x m =
     bt_insert (key x) (step x (case bt_get m (key x) of None \<Rightarrow> init x | Some g \<Rightarrow> g)) m"

definition bt_group ::
  "('a \<Rightarrow> 'k::linorder) \<Rightarrow> ('a \<Rightarrow> 'g) \<Rightarrow> ('a \<Rightarrow> 'g \<Rightarrow> 'g) \<Rightarrow> 'a list \<Rightarrow> ('k, 'g) btree" where
  "bt_group key init step xs = fold (bt_group_step key init step) xs []"

definition group_of :: "('a \<Rightarrow> 'k) \<Rightarrow> ('a \<Rightarrow> 'g) \<Rightarrow> ('a \<Rightarrow> 'g \<Rightarrow> 'g) \<Rightarrow> 'a list \<Rightarrow> 'k \<Rightarrow> 'g option" where
  "group_of key init step xs k = (case filter (\<lambda>x. key x = k) xs of
       [] \<Rightarrow> None
     | y # ys \<Rightarrow> Some (fold step (y # ys) (init y)))"

lemma bt_group_snoc:
  "bt_group key init step (xs @ [x]) = bt_group_step key init step x (bt_group key init step xs)"
  by (simp add: bt_group_def)

lemma bt_sorted_group: "bt_sorted (bt_group key init step xs)"
  by (induction xs rule: rev_induct)
    (simp_all add: bt_group_snoc bt_group_step_def bt_sorted_insert, simp add: bt_group_def bt_sorted_def)

lemma bt_get_group: "bt_get (bt_group key init step xs) = group_of key init step xs"
proof (induction xs rule: rev_induct)
  case Nil
  then show ?case by (auto simp: bt_group_def group_of_def bt_get_def)
next
  case (snoc x xs)
  then show ?case
    by (auto simp: bt_group_snoc bt_group_step_def bt_get_insert bt_sorted_group group_of_def fun_eq_iff
      split: list.splits)
qed

lemma bt_keys_group: "set (bt_keys (bt_group key init step xs)) = key ` set xs"
proof -
  have "k \<in> dom (group_of key init step xs) \<longleftrightarrow> k \<in> key ` set xs" for k
  proof -
    have "k \<in> dom (group_of key init step xs) \<longleftrightarrow> filter (\<lambda>x. key x = k) xs \<noteq> []"
      by (simp add: group_of_def dom_def split: list.splits)
    then show ?thesis by (auto simp: filter_empty_conv)
  qed
  then show ?thesis by (auto simp flip: bt_get_dom simp: bt_get_group)
qed

lemma sum_list_filter_key:
  fixes h :: "'a \<Rightarrow> nat"
  assumes "finite K" and "key ` set xs \<subseteq> K"
  shows "(\<Sum>k\<in>K. sum_list (map h (filter (\<lambda>x. key x = k) xs))) = sum_list (map h xs)"
  using assms(2)
proof (induction xs)
  case (Cons x xs)
  have "(\<Sum>k\<in>K. sum_list (map h (filter (\<lambda>y. key y = k) (x # xs)))) =
      (\<Sum>k\<in>K. (if k = key x then h x else 0) + sum_list (map h (filter (\<lambda>y. key y = k) xs)))"
    by (intro sum.cong) auto
  also have "\<dots> = h x + sum_list (map h xs)"
    using Cons assms(1) by (simp add: sum.distrib)
  finally show ?case by simp
qed simp

text \<open>A measure that every group accumulates adds up to the measure of the whole list.\<close>

lemma bt_group_total:
  fixes h :: "'a \<Rightarrow> nat" and measure_of :: "'g \<Rightarrow> nat"
  assumes "\<And>k g. group_of key init step xs k = Some g \<Longrightarrow>
    measure_of g = sum_list (map h (filter (\<lambda>x. key x = k) xs))"
  shows "sum_list (map measure_of (bt_values (bt_group key init step xs))) = sum_list (map h xs)"
proof -
  let ?m = "bt_group key init step xs"
  have d: "distinct (map fst ?m)" using bt_sorted_group [of key init step xs]
    by (simp add: bt_sorted_def strict_sorted_iff)
  have "sum_list (map measure_of (bt_values ?m)) =
      sum_list (map (\<lambda>k. sum_list (map h (filter (\<lambda>x. key x = k) xs))) (map fst ?m))"
    unfolding bt_values_def map_map
  proof (intro arg_cong [of _ _ sum_list] map_cong refl)
    fix e assume "e \<in> set ?m"
    then have "bt_get ?m (fst e) = Some (snd e)" using d by (metis bt_get_def map_of_is_SomeI prod.collapse)
    then show "(measure_of \<circ> snd) e = ((\<lambda>k. sum_list (map h (filter (\<lambda>x. key x = k) xs))) \<circ> fst) e"
      using assms by (simp add: bt_get_group)
  qed
  also have "\<dots> = (\<Sum>k \<in> set (map fst ?m). sum_list (map h (filter (\<lambda>x. key x = k) xs)))"
    by (rule sum_list_distinct_conv_sum_set [OF d])
  also have "\<dots> = sum_list (map h xs)"
    using bt_keys_group [of key init step xs] by (intro sum_list_filter_key) (simp_all add: bt_keys_def)
  finally show ?thesis .
qed

end
