(* ===== verification/Partial_Join.thy ===== *)
theory Partial_Join
  imports Prelude
begin

section \<open>Partial joins: order-independent merging\<close>

text \<open>
  The lifecycle reducer merges observations field by field, and each merge either yields a
  value or is a conflict.  The locale \<open>partial_join\<close> states what such a merge has to promise
  (\<open>None\<close> is the conflict) for a fold of merges to be independent of the order of its inputs;
  pairs, optional values and bijective images of joins are joins again, so the join of a whole
  span is assembled from those of its fields.
\<close>

locale partial_join =
  fixes join :: "'a \<Rightarrow> 'a \<Rightarrow> 'a option"
  assumes idem: "join a a = Some a"
    and comm: "join a b = join b a"
    and assoc: "Option.bind (join a b) (\<lambda>x. join x c) = Option.bind (join b c) (\<lambda>x. join a x)"
begin

lemma absorb: "join a b = Some c \<Longrightarrow> join c b = Some c"
  using assoc [of a b b] by (simp add: idem)

lemma absorb_left: "join a b = Some c \<Longrightarrow> join c a = Some c"
  using absorb [of b a c] comm [of a b] by simp

lemma swap: "Option.bind (join a x) (\<lambda>b. join b y) = Option.bind (join a y) (\<lambda>b. join b x)"
proof -
  have "Option.bind (join a x) (\<lambda>b. join b y) = Option.bind (join x y) (join a)"
    using assoc [of a x y] by simp
  also have "\<dots> = Option.bind (join y x) (join a)"
    using comm by simp
  also have "\<dots> = Option.bind (join a y) (\<lambda>b. join b x)"
    using assoc [of a y x] by simp
  finally show ?thesis .
qed

text \<open>The information order of a join: \<open>a\<close> is below \<open>b\<close> when joining \<open>a\<close> to \<open>b\<close> adds nothing.\<close>

lemma below_trans: "join b a = Some b \<Longrightarrow> join c b = Some c \<Longrightarrow> join c a = Some c"
  using assoc [of c b a] by simp

lemma below_antisym: "join b a = Some b \<Longrightarrow> join a b = Some a \<Longrightarrow> a = b"
  using comm by (metis option.inject)

lemma least:
  assumes "join a b = Some c" and "join u a = Some u" and "join u b = Some u"
  shows "join u c = Some u"
  using assoc [of u a b] assms by simp

end

subsection \<open>Joins of optional values and of pairs\<close>

definition eq_join :: "'a \<Rightarrow> 'a \<Rightarrow> 'a option" where
  "eq_join a b = (if a = b then Some a else None)"

definition opt_join :: "'a option \<Rightarrow> 'a option \<Rightarrow> 'a option option" where
  "opt_join a b = (case (a, b) of
       (Some x, Some y) \<Rightarrow> if x = y then Some (Some x) else None
     | (None, y) \<Rightarrow> Some y
     | (x, None) \<Rightarrow> Some x)"

definition total_join :: "('a \<Rightarrow> 'a \<Rightarrow> 'a) \<Rightarrow> 'a \<Rightarrow> 'a \<Rightarrow> 'a option" where
  "total_join f a b = Some (f a b)"

definition pair_join ::
  "('a \<Rightarrow> 'a \<Rightarrow> 'a option) \<Rightarrow> ('b \<Rightarrow> 'b \<Rightarrow> 'b option) \<Rightarrow> 'a \<times> 'b \<Rightarrow> 'a \<times> 'b \<Rightarrow> ('a \<times> 'b) option" where
  "pair_join j k p q =
     Option.bind (j (fst p) (fst q)) (\<lambda>a. Option.bind (k (snd p) (snd q)) (\<lambda>b. Some (a, b)))"

definition image_join ::
  "('r \<Rightarrow> 'a) \<Rightarrow> ('a \<Rightarrow> 'r) \<Rightarrow> ('a \<Rightarrow> 'a \<Rightarrow> 'a option) \<Rightarrow> 'r \<Rightarrow> 'r \<Rightarrow> 'r option" where
  "image_join f g j a b = map_option g (j (f a) (f b))"

interpretation eq: partial_join eq_join
  by unfold_locales (auto simp: eq_join_def)

interpretation opt: partial_join opt_join
proof
  fix a b c :: "'a option"
  show "opt_join a a = Some a" by (cases a) (auto simp: opt_join_def)
  show "opt_join a b = opt_join b a" by (cases a; cases b) (auto simp: opt_join_def)
  show "Option.bind (opt_join a b) (\<lambda>x. opt_join x c) = Option.bind (opt_join b c) (opt_join a)"
    by (cases a; cases b; cases c) (auto simp: opt_join_def)
qed

lemma partial_join_total:
  assumes "\<And>a. f a a = a" and "\<And>a b. f a b = f b a" and "\<And>a b c. f (f a b) c = f a (f b c)"
  shows "partial_join (total_join f)"
  using assms by unfold_locales (auto simp: total_join_def)

lemma partial_join_pair:
  assumes "partial_join j" and "partial_join k"
  shows "partial_join (pair_join j k)"
proof -
  note j = partial_join.idem [OF assms(1)] partial_join.comm [OF assms(1)]
    partial_join.assoc [OF assms(1)]
  note k = partial_join.idem [OF assms(2)] partial_join.comm [OF assms(2)]
    partial_join.assoc [OF assms(2)]
  show ?thesis
  proof
    fix p q r :: "'a \<times> 'b"
    show "pair_join j k p p = Some p" by (simp add: pair_join_def j k)
    show "pair_join j k p q = pair_join j k q p"
      by (simp add: pair_join_def j(2) [of "fst p" "fst q"] k(2) [of "snd p" "snd q"])
    have "Option.bind (pair_join j k p q) (\<lambda>x. pair_join j k x r) =
        Option.bind (Option.bind (j (fst p) (fst q)) (\<lambda>x. j x (fst r))) (\<lambda>a.
          Option.bind (Option.bind (k (snd p) (snd q)) (\<lambda>x. k x (snd r))) (\<lambda>b. Some (a, b)))"
      by (cases "j (fst p) (fst q)"; cases "k (snd p) (snd q)")
        (auto simp: pair_join_def split: bind_splits)
    moreover have "Option.bind (pair_join j k q r) (pair_join j k p) =
        Option.bind (Option.bind (j (fst q) (fst r)) (\<lambda>x. j (fst p) x)) (\<lambda>a.
          Option.bind (Option.bind (k (snd q) (snd r)) (\<lambda>x. k (snd p) x)) (\<lambda>b. Some (a, b)))"
      by (cases "j (fst q) (fst r)"; cases "k (snd q) (snd r)")
        (auto simp: pair_join_def split: bind_splits)
    ultimately show "Option.bind (pair_join j k p q) (\<lambda>x. pair_join j k x r) =
        Option.bind (pair_join j k q r) (pair_join j k p)"
      by (simp only: j(3) k(3))
  qed
qed

lemma partial_join_image:
  assumes "partial_join j" and "\<And>r. g (f r) = r" and "\<And>a. f (g a) = a"
  shows "partial_join (image_join f g j)"
proof -
  note j = partial_join.idem [OF assms(1)] partial_join.comm [OF assms(1)]
    partial_join.assoc [OF assms(1)]
  show ?thesis
  proof
    fix a b c
    show "image_join f g j a a = Some a" by (simp add: image_join_def j assms)
    show "image_join f g j a b = image_join f g j b a"
      by (simp add: image_join_def j(2) [of "f a" "f b"])
    show "Option.bind (image_join f g j a b) (\<lambda>x. image_join f g j x c) =
        Option.bind (image_join f g j b c) (image_join f g j a)"
      using arg_cong [OF j(3) [of "f a" "f b" "f c"], of "map_option g"]
      by (cases "j (f a) (f b)"; cases "j (f b) (f c)") (auto simp: image_join_def assms)
  qed
qed

subsection \<open>Folding a keyed family of joins\<close>

definition keyed_step ::
  "('a \<Rightarrow> 'k) \<Rightarrow> ('a \<Rightarrow> 'a \<Rightarrow> 'a option) \<Rightarrow> 'a \<Rightarrow> ('k \<rightharpoonup> 'a) option \<Rightarrow> ('k \<rightharpoonup> 'a) option" where
  "keyed_step key j x acc = Option.bind acc (\<lambda>m. case m (key x) of
       None \<Rightarrow> Some (m(key x \<mapsto> x))
     | Some a \<Rightarrow> map_option (\<lambda>b. m(key x \<mapsto> b)) (j a x))"

lemma fold_keyed_step_None: "fold (keyed_step key j) xs None = None"
  by (induction xs) (auto simp: keyed_step_def)

locale keyed_join = partial_join join for join :: "'a \<Rightarrow> 'a \<Rightarrow> 'a option" +
  fixes key :: "'a \<Rightarrow> 'k"
begin

lemma step_commute: "keyed_step key join x (keyed_step key join y acc) =
    keyed_step key join y (keyed_step key join x acc)"
proof (cases acc)
  case None
  then show ?thesis by (simp add: keyed_step_def)
next
  case (Some m)
  show ?thesis
  proof (cases "key x = key y")
    case False
    then show ?thesis using Some
      by (auto simp: keyed_step_def fun_upd_twist option.map_comp bind_map_option
          split: option.splits bind_splits)
  next
    case True
    show ?thesis
    proof (cases "m (key y)")
      case None
      then show ?thesis using Some True comm [of x y]
        by (auto simp: keyed_step_def fun_upd_same option.map_comp split: option.splits)
    next
      case (Some a)
      have "Option.bind (join a y) (\<lambda>b. map_option (\<lambda>c. m(key y \<mapsto> c)) (join b x)) =
          Option.bind (join a x) (\<lambda>b. map_option (\<lambda>c. m(key y \<mapsto> c)) (join b y))"
        using arg_cong [OF swap [of a y x], of "map_option (\<lambda>c. m(key y \<mapsto> c))"]
        by (cases "join a x"; cases "join a y") auto
      then show ?thesis using Some \<open>acc = Some m\<close> True
        by (cases "join a x"; cases "join a y") (auto simp: keyed_step_def option.map_comp comp_def)
    qed
  qed
qed

text \<open>The result of the fold, success and conflict alike, depends on the multiset of inputs only.\<close>

lemma fold_permute:
  assumes "mset xs = mset ys"
  shows "fold (keyed_step key join) xs acc = fold (keyed_step key join) ys acc"
proof -
  have "fold (keyed_step key join) xs = fold (keyed_step key join) ys"
    by (rule fold_multiset_equiv [OF _ assms]) (simp add: fun_eq_iff step_commute)
  then show ?thesis by simp
qed

text \<open>One step only adds information, and what it adds is the observation.\<close>

lemma step_mono:
  assumes "keyed_step key join x (Some m) = Some m'" and "m k = Some a"
  shows "\<exists>b. m' k = Some b \<and> join b a = Some b"
  using assms idem absorb_left
  by (auto simp: keyed_step_def split: option.splits if_splits)

lemma step_absorbs:
  assumes "keyed_step key join x (Some m) = Some m'"
  shows "\<exists>b. m' (key x) = Some b \<and> join b x = Some b"
  using assms idem absorb
  by (auto simp: keyed_step_def split: option.splits)

lemma step_absorbed:
  assumes "m (key x) = Some a" and "join a x = Some a"
  shows "keyed_step key join x (Some m) = Some m"
  using assms by (simp add: keyed_step_def fun_upd_idem)

lemma fold_mono:
  "fold (keyed_step key join) xs (Some m) = Some m' \<Longrightarrow> m k = Some a \<Longrightarrow>
     \<exists>b. m' k = Some b \<and> join b a = Some b"
proof (induction xs arbitrary: m a)
  case Nil
  then show ?case using idem by simp
next
  case (Cons x xs)
  then obtain m1 where m1: "keyed_step key join x (Some m) = Some m1"
    and rest: "fold (keyed_step key join) xs (Some m1) = Some m'"
    by (cases "keyed_step key join x (Some m)") (auto simp: fold_keyed_step_None)
  from step_mono [OF m1 Cons.prems(2)] obtain b where b: "m1 k = Some b" "join b a = Some b" by blast
  from Cons.IH [OF rest b(1)] obtain c where "m' k = Some c" "join c b = Some c" by blast
  then show ?case using below_trans [OF b(2)] by blast
qed

lemma fold_absorbs:
  "fold (keyed_step key join) xs (Some m) = Some m' \<Longrightarrow> x \<in> set xs \<Longrightarrow>
     \<exists>b. m' (key x) = Some b \<and> join b x = Some b"
proof (induction xs arbitrary: m)
  case Nil
  then show ?case by simp
next
  case (Cons y xs)
  then obtain m1 where m1: "keyed_step key join y (Some m) = Some m1"
    and rest: "fold (keyed_step key join) xs (Some m1) = Some m'"
    by (cases "keyed_step key join y (Some m)") (auto simp: fold_keyed_step_None)
  show ?case
  proof (cases "x \<in> set xs")
    case True
    with Cons.IH [OF rest] show ?thesis by blast
  next
    case False
    with Cons.prems(2) have "x = y" by simp
    with step_absorbs [OF m1] obtain b where b: "m1 (key x) = Some b" "join b x = Some b" by blast
    from fold_mono [OF rest b(1)] obtain c where "m' (key x) = Some c" "join c b = Some c" by blast
    then show ?thesis using below_trans [OF b(2)] by blast
  qed
qed

text \<open>Replaying observations that were already folded in changes nothing.\<close>

lemma fold_replay:
  assumes "fold (keyed_step key join) xs acc = Some m" and "set ys \<subseteq> set xs"
    and "acc = Some m0"
  shows "fold (keyed_step key join) ys (Some m) = Some m"
proof -
  have "\<And>x. x \<in> set xs \<Longrightarrow> keyed_step key join x (Some m) = Some m"
    using fold_absorbs assms step_absorbed by blast
  then show ?thesis using assms(2) by (induction ys) auto
qed

text \<open>The result is the least state above all observations of its key.\<close>

lemma fold_least:
  "fold (keyed_step key join) xs (Some m) = Some m' \<Longrightarrow> m' k = Some s \<Longrightarrow>
     (\<And>x. x \<in> set xs \<Longrightarrow> key x = k \<Longrightarrow> join u x = Some u) \<Longrightarrow>
     (\<And>a. m k = Some a \<Longrightarrow> join u a = Some u) \<Longrightarrow> join u s = Some u"
proof (induction xs arbitrary: m)
  case Nil
  then show ?case by simp
next
  case (Cons x xs)
  then obtain m1 where m1: "keyed_step key join x (Some m) = Some m1"
    and rest: "fold (keyed_step key join) xs (Some m1) = Some m'"
    by (cases "keyed_step key join x (Some m)") (auto simp: fold_keyed_step_None)
  have above: "join u a = Some u" if a: "m1 k = Some a" for a
  proof (cases "key x = k")
    case False
    then have "m k = Some a" using a m1 by (auto simp: keyed_step_def split: option.splits)
    then show ?thesis by (rule Cons.prems(4))
  next
    case True
    have ux: "join u x = Some u" using Cons.prems(3) [of x] True by simp
    show ?thesis
    proof (cases "m k")
      case None
      then have "a = x" using a m1 True by (auto simp: keyed_step_def)
      then show ?thesis using ux by simp
    next
      case (Some b)
      then have "join b x = Some a" using a m1 True by (auto simp: keyed_step_def)
      then show ?thesis using least Cons.prems(4) [OF Some] ux by blast
    qed
  qed
  show ?case by (rule Cons.IH [OF rest Cons.prems(2)]) (auto simp: Cons.prems(3) above)
qed

lemma fold_dom:
  "fold (keyed_step key join) xs (Some m) = Some m' \<Longrightarrow> dom m' = dom m \<union> key ` set xs"
proof (induction xs arbitrary: m)
  case Nil
  then show ?case by simp
next
  case (Cons x xs)
  then obtain m1 where m1: "keyed_step key join x (Some m) = Some m1"
    and rest: "fold (keyed_step key join) xs (Some m1) = Some m'"
    by (cases "keyed_step key join x (Some m)") (auto simp: fold_keyed_step_None)
  from m1 have "dom m1 = insert (key x) (dom m)"
    by (auto simp: keyed_step_def split: option.splits)
  with Cons.IH [OF rest] show ?case by auto
qed

text \<open>States with distinct keys are their own reduction.\<close>

lemma fold_distinct:
  "distinct (map key xs) \<Longrightarrow> (\<And>x. x \<in> set xs \<Longrightarrow> m (key x) = None) \<Longrightarrow>
     fold (keyed_step key join) xs (Some m) = Some (m ++ map_of (map (\<lambda>x. (key x, x)) xs))"
proof (induction xs arbitrary: m)
  case Nil
  then show ?case by simp
next
  case (Cons x xs)
  have step: "keyed_step key join x (Some m) = Some (m(key x \<mapsto> x))"
    using Cons.prems(2) by (simp add: keyed_step_def)
  have fresh: "\<And>y. y \<in> set xs \<Longrightarrow> (m(key x \<mapsto> x)) (key y) = None"
    using Cons.prems by (auto simp: image_iff)
  have "map_of (map (\<lambda>x. (key x, x)) xs) (key x) = None"
    using Cons.prems(1) by (auto simp: map_of_eq_None_iff image_iff)
  then have "m(key x \<mapsto> x) ++ map_of (map (\<lambda>x. (key x, x)) xs) =
      m ++ map_of (map (\<lambda>x. (key x, x)) (x # xs))"
    by (auto simp: fun_eq_iff map_add_def split: option.splits)
  moreover have "fold (keyed_step key join) xs (Some (m(key x \<mapsto> x))) =
      Some (m(key x \<mapsto> x) ++ map_of (map (\<lambda>x. (key x, x)) xs))"
    using Cons.prems(1) fresh by (intro Cons.IH) simp_all
  ultimately have "fold (keyed_step key join) xs (Some (m(key x \<mapsto> x))) =
      Some (m ++ map_of (map (\<lambda>x. (key x, x)) (x # xs)))"
    by (simp only:)
  then show ?case using step by (simp only: fold_simps)
qed

end

end
