(* ===== verification/Domain.thy ===== *)
theory Domain
  imports Ordered_Map Partial_Join
begin

section \<open>Domain: spans and the lifecycle reducer\<close>

text \<open>
  \<^verbatim>\<open>crates/domain/src/lib.rs\<close>: bounded identifiers, span states, and the reducer that merges the
  lifecycle observations of a span.  Identifier newtypes are their strings.  The functions that
  write through \<^verbatim>\<open>&mut\<close> keep the writes made before an error.
\<close>

subsection \<open>Identifiers\<close>

datatype domain_error =
    EmptyIdentifier
  | IdentifierTooLong nat nat
  | TimingEndBeforeStart
  | LifecycleConflict string
  | FieldConflict string string
  | SelfParent string
  | CrossTraceParent string string
  | InvalidParentKind string string
  | Cycle string

definition MAX_IDENTIFIER_BYTES :: nat where
  "MAX_IDENTIFIER_BYTES = 512"

definition validate_identifier :: "string \<Rightarrow> domain_error + string" where
  "validate_identifier value =
     (if value = [] then Inl EmptyIdentifier
      else if length value > MAX_IDENTIFIER_BYTES
        then Inl (IdentifierTooLong (length value) MAX_IDENTIFIER_BYTES)
      else Inr value)"

definition parse_identifier :: "string \<Rightarrow> domain_error + string" where
  "parse_identifier value = validate_identifier value"

fun display_domain_error :: "domain_error \<Rightarrow> string" where
  "display_domain_error EmptyIdentifier = ''identifier must not be empty''"
| "display_domain_error (IdentifierTooLong actual maximum) =
     ''identifier length '' @ decimal actual @ '' exceeds '' @ decimal maximum @ '' bytes''"
| "display_domain_error TimingEndBeforeStart = ''end time must not precede start time''"
| "display_domain_error (LifecycleConflict sid) =
     ''conflicting terminal lifecycle for span '' @ sid"
| "display_domain_error (FieldConflict sid field) =
     ''conflicting '' @ field @ '' for span '' @ sid"
| "display_domain_error (SelfParent sid) = ''span '' @ sid @ '' cannot parent itself''"
| "display_domain_error (CrossTraceParent sid pid) =
     ''span '' @ sid @ '' references parent '' @ pid @ '' in another trace''"
| "display_domain_error (InvalidParentKind sid pid) =
     ''span '' @ sid @ '' has invalid parent '' @ pid @ '' kind relation''"
| "display_domain_error (Cycle sid) = ''topology cycle includes span '' @ sid"

subsection \<open>Span states\<close>

datatype span_kind =
  Workstream | AgentSession | Turn | LlmRequest | ToolExecution | Permission | Compaction

datatype status_code = StatusUnset | StatusOk | StatusError

datatype lifecycle_state = Observed | Running | Completed | Failed | Interrupted

record token_usage =
  tu_input :: "u64 option"
  tu_output :: "u64 option"
  tu_cached_input :: "u64 option"
  tu_cache_creation_input :: "u64 option"
  tu_reasoning_output :: "u64 option"
  tu_total :: "u64 option"
  tu_total_input :: "u64 option"
  tu_total_output :: "u64 option"
  tu_total_cached_input :: "u64 option"
  tu_total_reasoning_output :: "u64 option"
  tu_total_accumulated :: "u64 option"
  tu_context_window :: "u64 option"
  tu_input_before :: "u64 option"
  tu_input_after :: "u64 option"

definition token_usage_default :: token_usage where
  "token_usage_default = \<lparr>tu_input = None, tu_output = None, tu_cached_input = None,
     tu_cache_creation_input = None, tu_reasoning_output = None, tu_total = None,
     tu_total_input = None, tu_total_output = None, tu_total_cached_input = None,
     tu_total_reasoning_output = None, tu_total_accumulated = None, tu_context_window = None,
     tu_input_before = None, tu_input_after = None\<rparr>"

record correlation_ids =
  c_session_id :: "string option"
  c_turn_id :: "string option"
  c_request_id :: "string option"
  c_operation_id :: "string option"
  c_permission_id :: "string option"
  c_compaction_id :: "string option"

definition correlation_default :: correlation_ids where
  "correlation_default = \<lparr>c_session_id = None, c_turn_id = None, c_request_id = None,
     c_operation_id = None, c_permission_id = None, c_compaction_id = None\<rparr>"

record timing =
  start_unix_ms :: u64
  end_unix_ms :: "u64 option"

definition end_before_start :: "timing \<Rightarrow> bool" where
  "end_before_start t = (case end_unix_ms t of None \<Rightarrow> False | Some e \<Rightarrow> e < start_unix_ms t)"

definition timing_new :: "u64 \<Rightarrow> u64 option \<Rightarrow> domain_error + timing" where
  "timing_new start fin =
     (if (case fin of None \<Rightarrow> False | Some e \<Rightarrow> e < start) then Inl TimingEndBeforeStart
      else Inr \<lparr>start_unix_ms = start, end_unix_ms = fin\<rparr>)"

record span_state =
  s_trace_id :: string
  s_span_id :: string
  s_parent_span_id :: "string option"
  s_kind :: span_kind
  s_lifecycle :: lifecycle_state
  s_correlation :: correlation_ids
  s_timing :: timing
  s_token_usage :: token_usage

subsection \<open>Merging one observation into a state\<close>

definition merge_optional ::
  "'a option \<Rightarrow> string \<Rightarrow> string \<Rightarrow> 'a option \<Rightarrow> 'a option \<times> domain_error option" where
  "merge_optional right sid field left = (case (left, right) of
       (Some a, Some b) \<Rightarrow> if a \<noteq> b then (left, Some (FieldConflict sid field)) else (left, None)
     | (None, Some v) \<Rightarrow> (Some v, None)
     | _ \<Rightarrow> (left, None))"

definition merge_correlation ::
  "correlation_ids \<Rightarrow> string \<Rightarrow> (correlation_ids, domain_error) upd" where
  "merge_correlation right sid =
     then_upd (upd_field c_session_id c_session_id_update
       (merge_optional (c_session_id right) sid ''correlation.session_id''))
    (then_upd (upd_field c_turn_id c_turn_id_update
       (merge_optional (c_turn_id right) sid ''correlation.turn_id''))
    (then_upd (upd_field c_request_id c_request_id_update
       (merge_optional (c_request_id right) sid ''correlation.request_id''))
    (then_upd (upd_field c_operation_id c_operation_id_update
       (merge_optional (c_operation_id right) sid ''correlation.operation_id''))
    (then_upd (upd_field c_permission_id c_permission_id_update
       (merge_optional (c_permission_id right) sid ''correlation.permission_id''))
    (upd_field c_compaction_id c_compaction_id_update
       (merge_optional (c_compaction_id right) sid ''correlation.compaction_id''))))))"

definition merge_metrics :: "token_usage \<Rightarrow> string \<Rightarrow> (token_usage, domain_error) upd" where
  "merge_metrics right sid =
     then_upd (upd_field tu_input tu_input_update
       (merge_optional (tu_input right) sid ''token_usage.input''))
    (then_upd (upd_field tu_output tu_output_update
       (merge_optional (tu_output right) sid ''token_usage.output''))
    (then_upd (upd_field tu_cached_input tu_cached_input_update
       (merge_optional (tu_cached_input right) sid ''token_usage.cached_input''))
    (then_upd (upd_field tu_cache_creation_input tu_cache_creation_input_update
       (merge_optional (tu_cache_creation_input right) sid ''token_usage.cache_creation_input''))
    (then_upd (upd_field tu_reasoning_output tu_reasoning_output_update
       (merge_optional (tu_reasoning_output right) sid ''token_usage.reasoning_output''))
    (then_upd (upd_field tu_total tu_total_update
       (merge_optional (tu_total right) sid ''token_usage.total''))
    (then_upd (upd_field tu_total_input tu_total_input_update
       (merge_optional (tu_total_input right) sid ''token_usage.total_input''))
    (then_upd (upd_field tu_total_output tu_total_output_update
       (merge_optional (tu_total_output right) sid ''token_usage.total_output''))
    (then_upd (upd_field tu_total_cached_input tu_total_cached_input_update
       (merge_optional (tu_total_cached_input right) sid ''token_usage.total_cached_input''))
    (then_upd (upd_field tu_total_reasoning_output tu_total_reasoning_output_update
       (merge_optional (tu_total_reasoning_output right) sid ''token_usage.total_reasoning_output''))
    (then_upd (upd_field tu_total_accumulated tu_total_accumulated_update
       (merge_optional (tu_total_accumulated right) sid ''token_usage.total_accumulated''))
    (then_upd (upd_field tu_context_window tu_context_window_update
       (merge_optional (tu_context_window right) sid ''token_usage.context_window''))
    (then_upd (upd_field tu_input_before tu_input_before_update
       (merge_optional (tu_input_before right) sid ''token_usage.input_before''))
    (upd_field tu_input_after tu_input_after_update
       (merge_optional (tu_input_after right) sid ''token_usage.input_after''))))))))))))))"

fun merge_lifecycle ::
  "lifecycle_state \<Rightarrow> lifecycle_state \<Rightarrow> string \<Rightarrow> domain_error + lifecycle_state" where
  "merge_lifecycle left right sid =
     (if left = right then Inr left
      else case (left, right) of
        (Observed, Running) \<Rightarrow> Inr Running
      | (Running, Observed) \<Rightarrow> Inr Running
      | (Observed, terminal) \<Rightarrow> Inr terminal
      | (Running, terminal) \<Rightarrow> Inr terminal
      | (terminal, Observed) \<Rightarrow> Inr terminal
      | (terminal, Running) \<Rightarrow> Inr terminal
      | _ \<Rightarrow> Inl (LifecycleConflict sid))"

declare merge_lifecycle.simps [simp del]

definition max_end :: "u64 option \<Rightarrow> u64 option \<Rightarrow> u64 option" where
  "max_end left right = (case (left, right) of
       (Some l, Some r) \<Rightarrow> Some (max l r)
     | (None, r) \<Rightarrow> r
     | (l, None) \<Rightarrow> l)"

definition merge_timing :: "timing \<Rightarrow> timing \<Rightarrow> timing" where
  "merge_timing incoming existing =
     \<lparr>start_unix_ms = min (start_unix_ms existing) (start_unix_ms incoming),
      end_unix_ms = max_end (end_unix_ms existing) (end_unix_ms incoming)\<rparr>"

definition merge_state :: "span_state \<Rightarrow> (span_state, domain_error) upd" where
  "merge_state incoming =
     then_upd (upd_check (\<lambda>s. s_trace_id s = s_trace_id incoming)
       (\<lambda>s. FieldConflict (s_span_id s) ''trace_id''))
    (then_upd (upd_check (\<lambda>s. s_kind s = s_kind incoming)
       (\<lambda>s. FieldConflict (s_span_id s) ''kind''))
    (then_upd (upd_check (\<lambda>s. s_parent_span_id s = s_parent_span_id incoming)
       (\<lambda>s. FieldConflict (s_span_id s) ''parent_span_id''))
    (then_upd (\<lambda>s. upd_field s_correlation s_correlation_update
       (merge_correlation (s_correlation incoming) (s_span_id s)) s)
    (then_upd (\<lambda>s. upd_field s_lifecycle s_lifecycle_update
       (upd_assign (\<lambda>l. merge_lifecycle l (s_lifecycle incoming) (s_span_id s))) s)
    (then_upd (upd_set (\<lambda>s. s\<lparr>s_timing := merge_timing (s_timing incoming) (s_timing s)\<rparr>))
    (\<lambda>s. upd_field s_token_usage s_token_usage_update
       (merge_metrics (s_token_usage incoming) (s_span_id s)) s))))))"

subsection \<open>The reducer\<close>

type_synonym reducer = "(string, span_state) btree"

definition reducer_new :: reducer where
  "reducer_new = []"

definition observe :: "span_state \<Rightarrow> (reducer, domain_error) upd" where
  "observe observation m =
     (if end_before_start (s_timing observation) then (m, Some TimingEndBeforeStart)
      else case bt_get m (s_span_id observation) of
        Some existing \<Rightarrow>
          (case merge_state observation existing of
             (merged, err) \<Rightarrow> (bt_insert (s_span_id observation) merged m, err))
      | None \<Rightarrow> (bt_insert (s_span_id observation) observation m, None))"

definition finish_reducer :: "reducer \<Rightarrow> span_state list" where
  "finish_reducer m = bt_values m"

fun observe_all :: "span_state list \<Rightarrow> reducer \<Rightarrow> domain_error + reducer" where
  "observe_all [] m = Inr m"
| "observe_all (x # xs) m = (case observe x m of
       (m', Some e) \<Rightarrow> Inl e
     | (m', None) \<Rightarrow> observe_all xs m')"

definition reduce :: "span_state list \<Rightarrow> domain_error + span_state list" where
  "reduce observations =
     bind_result (observe_all observations reducer_new) (\<lambda>m. Inr (finish_reducer m))"

end
