(* ===== verification/Lifecycle.thy ===== *)
theory Lifecycle
  imports Domain
begin

section \<open>Lifecycle reduction does not depend on arrival order\<close>

text \<open>
  The specification of the reducer of \<open>Domain\<close>: every field merge is a partial join, so the
  merge of a span is the join of its fields, and reducing a batch is the fold of that join over
  the observations of each span.  The code's in-place, first-error merge is shown to refine it.
\<close>

subsection \<open>The information order of lifecycles\<close>

fun lifecycle_rank :: "lifecycle_state \<Rightarrow> nat" where
  "lifecycle_rank Observed = 0"
| "lifecycle_rank Running = 1"
| "lifecycle_rank Completed = 2"
| "lifecycle_rank Failed = 2"
| "lifecycle_rank Interrupted = 2"

instantiation lifecycle_state :: order
begin

definition less_eq_lifecycle_state :: "lifecycle_state \<Rightarrow> lifecycle_state \<Rightarrow> bool" where
  "less_eq_lifecycle_state a b \<longleftrightarrow> a = b \<or> lifecycle_rank a < lifecycle_rank b"

definition less_lifecycle_state :: "lifecycle_state \<Rightarrow> lifecycle_state \<Rightarrow> bool" where
  "less_lifecycle_state a b \<longleftrightarrow> lifecycle_rank a < lifecycle_rank b"

instance
  by standard (auto simp: less_eq_lifecycle_state_def less_lifecycle_state_def)

end

definition lifecycle_join :: "lifecycle_state \<Rightarrow> lifecycle_state \<Rightarrow> lifecycle_state option" where
  "lifecycle_join a b = (if a \<le> b then Some b else if b \<le> a then Some a else None)"

lemma merge_lifecycle_ok [upd_simps]:
  "merge_lifecycle a b sid = Inr c \<longleftrightarrow> lifecycle_join a b = Some c"
  by (cases a; cases b)
    (auto simp: merge_lifecycle.simps lifecycle_join_def less_eq_lifecycle_state_def)

lemma merge_lifecycle_err:
  "merge_lifecycle a b sid = Inl e \<longleftrightarrow> e = LifecycleConflict sid \<and> \<not> a \<le> b \<and> \<not> b \<le> a"
  by (cases a; cases b) (auto simp: merge_lifecycle.simps less_eq_lifecycle_state_def)

interpretation lc: partial_join lifecycle_join
proof
  fix a b c :: lifecycle_state
  show "lifecycle_join a a = Some a" by (simp add: lifecycle_join_def)
  show "lifecycle_join a b = lifecycle_join b a"
    by (cases a; cases b) (auto simp: lifecycle_join_def less_eq_lifecycle_state_def)
  show "Option.bind (lifecycle_join a b) (\<lambda>x. lifecycle_join x c) =
      Option.bind (lifecycle_join b c) (lifecycle_join a)"
    by (cases a; cases b; cases c) (simp_all add: lifecycle_join_def less_eq_lifecycle_state_def)
qed

subsection \<open>Joins of the records\<close>

definition timing_pair :: "timing \<Rightarrow> u64 \<times> u64 option" where
  "timing_pair t = (start_unix_ms t, end_unix_ms t)"

definition timing_of_pair :: "u64 \<times> u64 option \<Rightarrow> timing" where
  "timing_of_pair p = \<lparr>start_unix_ms = fst p, end_unix_ms = snd p\<rparr>"

definition timing_join :: "timing \<Rightarrow> timing \<Rightarrow> timing option" where
  "timing_join = image_join timing_pair timing_of_pair (pair_join (total_join min) (total_join max_end))"

definition correlation_tuple where
  "correlation_tuple c = (c_session_id c, c_turn_id c, c_request_id c, c_operation_id c,
     c_permission_id c, c_compaction_id c)"

definition correlation_of_tuple ::
  "string option \<times> string option \<times> string option \<times> string option \<times> string option \<times> string option
   \<Rightarrow> correlation_ids" where
  "correlation_of_tuple = (\<lambda>(a, b, c, d, e, f). \<lparr>c_session_id = a, c_turn_id = b, c_request_id = c,
     c_operation_id = d, c_permission_id = e, c_compaction_id = f\<rparr>)"

definition correlation_join :: "correlation_ids \<Rightarrow> correlation_ids \<Rightarrow> correlation_ids option" where
  "correlation_join = image_join correlation_tuple correlation_of_tuple
     (pair_join opt_join (pair_join opt_join (pair_join opt_join (pair_join opt_join
       (pair_join opt_join opt_join)))))"

definition usage_tuple where
  "usage_tuple u = (tu_input u, tu_output u, tu_cached_input u, tu_cache_creation_input u,
     tu_reasoning_output u, tu_total u, tu_total_input u, tu_total_output u,
     tu_total_cached_input u, tu_total_reasoning_output u, tu_total_accumulated u,
     tu_context_window u, tu_input_before u, tu_input_after u)"

definition usage_of_tuple ::
  "u64 option \<times> u64 option \<times> u64 option \<times> u64 option \<times> u64 option \<times> u64 option \<times> u64 option
   \<times> u64 option \<times> u64 option \<times> u64 option \<times> u64 option \<times> u64 option \<times> u64 option \<times> u64 option
   \<Rightarrow> token_usage" where
  "usage_of_tuple = (\<lambda>(a, b, c, d, e, f, g, h, i, j, k, l, m, n).
     \<lparr>tu_input = a, tu_output = b, tu_cached_input = c, tu_cache_creation_input = d,
      tu_reasoning_output = e, tu_total = f, tu_total_input = g, tu_total_output = h,
      tu_total_cached_input = i, tu_total_reasoning_output = j, tu_total_accumulated = k,
      tu_context_window = l, tu_input_before = m, tu_input_after = n\<rparr>)"

definition usage_join :: "token_usage \<Rightarrow> token_usage \<Rightarrow> token_usage option" where
  "usage_join = image_join usage_tuple usage_of_tuple
     (pair_join opt_join (pair_join opt_join (pair_join opt_join (pair_join opt_join
     (pair_join opt_join (pair_join opt_join (pair_join opt_join (pair_join opt_join
     (pair_join opt_join (pair_join opt_join (pair_join opt_join (pair_join opt_join
     (pair_join opt_join opt_join)))))))))))))"

definition state_tuple where
  "state_tuple s = ((s_trace_id s, s_span_id s, s_parent_span_id s, s_kind s),
     s_lifecycle s, s_correlation s, s_timing s, s_token_usage s)"

definition state_of_tuple ::
  "(string \<times> string \<times> string option \<times> span_kind) \<times> lifecycle_state \<times> correlation_ids \<times> timing
   \<times> token_usage \<Rightarrow> span_state" where
  "state_of_tuple = (\<lambda>((t, s, p, k), l, c, i, u).
     \<lparr>s_trace_id = t, s_span_id = s, s_parent_span_id = p, s_kind = k, s_lifecycle = l,
      s_correlation = c, s_timing = i, s_token_usage = u\<rparr>)"

definition state_join :: "span_state \<Rightarrow> span_state \<Rightarrow> span_state option" where
  "state_join = image_join state_tuple state_of_tuple
     (pair_join eq_join (pair_join lifecycle_join (pair_join correlation_join
       (pair_join timing_join usage_join))))"

lemma max_end_idem: "max_end a a = a"
  by (simp add: max_end_def split: option.splits)

lemma max_end_commute: "max_end a b = max_end b a"
  by (simp add: max_end_def max.commute split: option.splits)

lemma max_end_assoc: "max_end (max_end a b) c = max_end a (max_end b c)"
  by (simp add: max_end_def max.assoc split: option.splits)

lemma partial_join_timing: "partial_join timing_join"
  unfolding timing_join_def
  by (intro partial_join_image partial_join_pair partial_join_total)
    (simp_all add: timing_pair_def timing_of_pair_def max_end_idem max_end_assoc min.assoc,
     rule min.commute, rule max_end_commute)

lemma partial_join_correlation: "partial_join correlation_join"
  unfolding correlation_join_def
  by (intro partial_join_image partial_join_pair opt.partial_join_axioms)
    (auto simp: correlation_tuple_def correlation_of_tuple_def)

lemma partial_join_usage: "partial_join usage_join"
  unfolding usage_join_def
  by (intro partial_join_image partial_join_pair opt.partial_join_axioms)
    (auto simp: usage_tuple_def usage_of_tuple_def)

lemma partial_join_state: "partial_join state_join"
  unfolding state_join_def
  by (intro partial_join_image partial_join_pair eq.partial_join_axioms lc.partial_join_axioms
      partial_join_correlation partial_join_timing partial_join_usage)
    (auto simp: state_tuple_def state_of_tuple_def)

interpretation st: keyed_join state_join s_span_id
  by (simp add: keyed_join_def partial_join_state)

subsection \<open>The code's merges refine the joins\<close>

lemma merge_optional_ok [upd_simps]:
  "merge_optional right sid field left = (v, None) \<longleftrightarrow> opt_join left right = Some v"
  by (auto simp: merge_optional_def opt_join_def split: option.splits)

lemma timing_join_eq: "timing_join a b = Some (merge_timing b a)"
  by (simp add: timing_join_def image_join_def pair_join_def total_join_def timing_pair_def
      timing_of_pair_def merge_timing_def)

lemma merge_correlation_ok [upd_simps]:
  "merge_correlation right sid left = (c, None) \<longleftrightarrow> correlation_join left right = Some c"
  by (cases left; cases right; cases c)
    (auto simp: merge_correlation_def upd_simps correlation_join_def image_join_def pair_join_def
      correlation_tuple_def correlation_of_tuple_def bind_eq_Some_conv)

lemma merge_metrics_ok [upd_simps]:
  "merge_metrics right sid left = (u, None) \<longleftrightarrow> usage_join left right = Some u"
  by (cases left; cases right; cases u)
    (auto simp: merge_metrics_def upd_simps usage_join_def image_join_def pair_join_def
      usage_tuple_def usage_of_tuple_def bind_eq_Some_conv)

lemma merge_state_ok:
  assumes "s_span_id existing = s_span_id incoming"
  shows "merge_state incoming existing = (s, None) \<longleftrightarrow> state_join existing incoming = Some s"
  using assms
  by (cases existing; cases incoming; cases s)
    (auto simp: merge_state_def upd_simps state_join_def image_join_def pair_join_def eq_join_def
      state_tuple_def state_of_tuple_def bind_eq_Some_conv timing_join_eq)

lemma state_join_fields:
  assumes "state_join a b = Some c"
  shows "s_trace_id c = s_trace_id a" "s_span_id c = s_span_id a" "s_span_id a = s_span_id b"
    "s_parent_span_id c = s_parent_span_id a" "s_kind c = s_kind a"
    "lifecycle_join (s_lifecycle a) (s_lifecycle b) = Some (s_lifecycle c)"
    "s_timing c = merge_timing (s_timing b) (s_timing a)"
  using assms
  by (auto simp: state_join_def image_join_def pair_join_def eq_join_def state_tuple_def
      state_of_tuple_def bind_eq_Some_conv timing_join_eq split: if_splits)

subsection \<open>The reducer refines the keyed fold\<close>

definition reducer_inv :: "reducer \<Rightarrow> bool" where
  "reducer_inv m \<longleftrightarrow> bt_sorted m \<and>
     (\<forall>k s. bt_get m k = Some s \<longrightarrow> s_span_id s = k \<and> \<not> end_before_start (s_timing s))"

abbreviation join_step :: "span_state \<Rightarrow> (string \<rightharpoonup> span_state) option \<Rightarrow> (string \<rightharpoonup> span_state) option"
  where "join_step \<equiv> keyed_step s_span_id state_join"

lemma end_before_start_merge:
  assumes "\<not> end_before_start a" and "\<not> end_before_start b"
  shows "\<not> end_before_start (merge_timing b a)"
  using assms
  by (auto simp: end_before_start_def merge_timing_def max_end_def min_def max_def not_less
      split: option.splits if_splits)

lemma reducer_inv_new: "reducer_inv reducer_new"
  by (simp add: reducer_inv_def reducer_new_def bt.inv_emp bt.get_emp)

lemma observe_ok:
  assumes "reducer_inv m" and "observe x m = (m', None)"
  shows "\<not> end_before_start (s_timing x)" "join_step x (Some (bt_get m)) = Some (bt_get m')"
    "reducer_inv m'"
proof -
  have sorted: "bt_sorted m" using assms(1) by (simp add: reducer_inv_def)
  from assms(2) show x: "\<not> end_before_start (s_timing x)"
    by (auto simp: observe_def split: if_splits)
  show "join_step x (Some (bt_get m)) = Some (bt_get m')"
    using assms x
    by (auto simp: observe_def keyed_step_def reducer_inv_def bt.get_ins merge_state_ok
        split: option.splits prod.splits)
  show "reducer_inv m'"
    using assms x state_join_fields end_before_start_merge
    by (auto simp: observe_def reducer_inv_def bt.get_ins bt.inv_ins merge_state_ok
        split: option.splits prod.splits if_splits)
qed

lemma observe_err:
  assumes "reducer_inv m" and "observe x m = (m', Some e)"
  shows "end_before_start (s_timing x) \<or> join_step x (Some (bt_get m)) = None"
proof (cases "bt_get m (s_span_id x)")
  case None
  then show ?thesis using assms by (auto simp: observe_def split: if_splits)
next
  case (Some s)
  then have "s_span_id s = s_span_id x" using assms(1) by (simp add: reducer_inv_def)
  then have "state_join s x = Some t \<Longrightarrow> merge_state x s = (t, None)" for t
    by (simp add: merge_state_ok)
  then have "end_before_start (s_timing x) \<or> state_join s x = None"
    using assms(2) Some by (cases "state_join s x") (auto simp: observe_def split: if_splits prod.splits)
  then show ?thesis using Some by (auto simp: keyed_step_def)
qed

lemma observe_all_ok:
  "observe_all xs m = Inr m' \<Longrightarrow> reducer_inv m \<Longrightarrow>
     reducer_inv m' \<and> (\<forall>x \<in> set xs. \<not> end_before_start (s_timing x)) \<and>
     fold join_step xs (Some (bt_get m)) = Some (bt_get m')"
proof (induction xs arbitrary: m)
  case Nil
  then show ?case by simp
next
  case (Cons x xs)
  then obtain m1 where step: "observe x m = (m1, None)" and rest: "observe_all xs m1 = Inr m'"
    by (auto split: prod.splits option.splits)
  show ?case
    using Cons.IH [OF rest observe_ok(3) [OF Cons.prems(2) step]] observe_ok [OF Cons.prems(2) step]
    by simp
qed

lemma observe_all_err:
  "observe_all xs m = Inl e \<Longrightarrow> reducer_inv m \<Longrightarrow>
     (\<exists>x \<in> set xs. end_before_start (s_timing x)) \<or> fold join_step xs (Some (bt_get m)) = None"
proof (induction xs arbitrary: m)
  case Nil
  then show ?case by simp
next
  case (Cons x xs)
  obtain m1 err where step: "observe x m = (m1, err)" by force
  show ?case
  proof (cases err)
    case None
    with Cons.prems step have rest: "observe_all xs m1 = Inl e" by simp
    show ?thesis
      using Cons.IH [OF rest] observe_ok [OF Cons.prems(2)] step None by auto
  next
    case (Some e')
    then show ?thesis
      using observe_err [OF Cons.prems(2), of x m1 e'] step by (auto simp: fold_keyed_step_None)
  qed
qed

text \<open>What a successful reduction is: a fold of joins, listed in span order.\<close>

lemma reduce_spec:
  "reduce xs = Inr r \<longleftrightarrow>
     (\<forall>x \<in> set xs. \<not> end_before_start (s_timing x)) \<and>
     (\<exists>m. reducer_inv m \<and> fold join_step xs (Some Map.empty) = Some (bt_get m) \<and> r = bt_values m)"
proof (cases "observe_all xs reducer_new")
  case (Inl e)
  have "(\<exists>x \<in> set xs. end_before_start (s_timing x)) \<or> fold join_step xs (Some Map.empty) = None"
    using observe_all_err [OF Inl reducer_inv_new] by (simp add: reducer_new_def bt.get_emp)
  moreover have "reduce xs = Inl e" using Inl by (simp add: reduce_def)
  ultimately show ?thesis by auto
next
  case (Inr m)
  have inv: "reducer_inv m" and valid: "\<forall>x \<in> set xs. \<not> end_before_start (s_timing x)"
    and fld: "fold join_step xs (Some Map.empty) = Some (bt_get m)"
    using observe_all_ok [OF Inr reducer_inv_new] by (simp_all add: reducer_new_def bt.get_emp)
  have red: "reduce xs = Inr (bt_values m)" using Inr by (simp add: reduce_def finish_reducer_def)
  have canon: "bt_values m' = bt_values m" if "reducer_inv m'" "Some (bt_get m) = Some (bt_get m')" for m'
  proof -
    have "m' = m"
      using that inv by (intro bt_canonical) (simp_all add: reducer_inv_def)
    then show ?thesis by simp
  qed
  show ?thesis
  proof
    assume "reduce xs = Inr r"
    with red have "r = bt_values m" by simp
    with inv valid fld show "(\<forall>x \<in> set xs. \<not> end_before_start (s_timing x)) \<and>
        (\<exists>m. reducer_inv m \<and> fold join_step xs (Some Map.empty) = Some (bt_get m) \<and> r = bt_values m)"
      by blast
  next
    assume "(\<forall>x \<in> set xs. \<not> end_before_start (s_timing x)) \<and>
        (\<exists>m. reducer_inv m \<and> fold join_step xs (Some Map.empty) = Some (bt_get m) \<and> r = bt_values m)"
    then obtain m' where "reducer_inv m'" "fold join_step xs (Some Map.empty) = Some (bt_get m')"
      and r: "r = bt_values m'" by blast
    then have "bt_values m' = bt_values m" using fld by (intro canon) simp_all
    with red r show "reduce xs = Inr r" by simp
  qed
qed

lemma reducer_values_distinct:
  assumes "reducer_inv m"
  shows "map s_span_id (bt_values m) = bt_keys m"
proof -
  have "s_span_id (snd e) = fst e" if "e \<in> set m" for e
    using assms that bt.entries_set [of m "fst e" "snd e"] by (auto simp: reducer_inv_def)
  then show ?thesis by (simp add: bt_values_def bt_keys_def)
qed

lemma reducer_values_keys_sorted: "reducer_inv m \<Longrightarrow> sorted_wrt (<) (bt_keys m)"
  by (simp add: reducer_inv_def bt_sorted_keys)

lemma reducer_values_map:
  assumes "reducer_inv m"
  shows "map_of (map (\<lambda>s. (s_span_id s, s)) (bt_values m)) = bt_get m"
proof -
  have "map (\<lambda>s. (s_span_id s, s)) (bt_values m) = zip (map s_span_id (bt_values m)) (bt_values m)"
    by (simp add: zip_map1 zip_same_conv_map)
  also have "\<dots> = zip (bt_keys m) (bt_values m)"
    by (simp only: reducer_values_distinct [OF assms])
  also have "\<dots> = m"
    by (simp add: bt_keys_def bt_values_def zip_map_fst_snd)
  finally show ?thesis by (simp add: bt_get_def)
qed

lemma fold_reduced:
  assumes "reducer_inv m"
  shows "fold join_step (bt_values m) (Some Map.empty) = Some (bt_get m)"
proof -
  have "distinct (map s_span_id (bt_values m))"
    using reducer_values_distinct [OF assms] reducer_values_keys_sorted [OF assms]
    by (simp add: strict_sorted_iff)
  then show ?thesis using st.fold_distinct [of "bt_values m" Map.empty] reducer_values_map [OF assms] by simp
qed

subsection \<open>Properties\<close>

text \<open>Sample observations, on which the properties below are also evaluated.\<close>

definition sample_state :: "string \<Rightarrow> string option \<Rightarrow> span_kind \<Rightarrow> lifecycle_state \<Rightarrow> u64 \<Rightarrow> span_state" where
  "sample_state sid parent kind life start =
     \<lparr>s_trace_id = ''t'', s_span_id = sid, s_parent_span_id = parent, s_kind = kind,
      s_lifecycle = life, s_correlation = correlation_default,
      s_timing = \<lparr>start_unix_ms = start, end_unix_ms = None\<rparr>,
      s_token_usage = token_usage_default\<rparr>"

definition sample_batch :: "span_state list" where
  "sample_batch =
     [sample_state ''b'' (Some ''a'') Turn Running 7,
      sample_state ''a'' None AgentSession Observed 5,
      sample_state ''b'' (Some ''a'') Turn Completed 6]"

definition sample_reduced :: "span_state list" where
  "sample_reduced =
     [sample_state ''a'' None AgentSession Observed 5,
      sample_state ''b'' (Some ''a'') Turn Completed 6]"

lemma sample_reduce: "reduce sample_batch = Inr sample_reduced"
  by code_simp

text \<open>C1: reducing a batch of observations gives the same states for every order in which the
  observations arrive; in particular one order fails exactly when every other does.\<close>

theorem reduce_order_independent:
  assumes "mset xs = mset ys"
  shows "reduce xs = Inr r \<longleftrightarrow> reduce ys = Inr r"
proof -
  have "set xs = set ys" using assms by (rule mset_eq_setD)
  then show ?thesis by (simp add: reduce_spec st.fold_permute [OF assms])
qed

theorem reduce_order_independent_witness:
  "reduce (rev sample_batch) = Inr sample_reduced"
  using reduce_order_independent [of sample_batch "rev sample_batch" sample_reduced] sample_reduce
  by simp

text \<open>Delivery may repeat observations: replaying any observations of a batch that reduced
  successfully leaves the reduced states unchanged.\<close>

lemma reduce_replay:
  assumes "reduce xs = Inr r" and "set ys \<subseteq> set xs"
  shows "reduce (xs @ ys) = Inr r"
proof -
  from assms(1) obtain m where m: "reducer_inv m" "r = bt_values m"
    "fold join_step xs (Some Map.empty) = Some (bt_get m)"
    "\<forall>x \<in> set xs. \<not> end_before_start (s_timing x)"
    by (auto simp: reduce_spec)
  have "fold join_step ys (Some (bt_get m)) = Some (bt_get m)"
    using st.fold_replay [OF m(3) assms(2)] by simp
  then show ?thesis using m assms(2) by (auto simp: reduce_spec)
qed

text \<open>Incremental reduction is batch reduction: the reduced states of a batch stand for it
  when more observations are reduced, which is how the store keeps one state per span.\<close>

lemma reduce_incremental:
  assumes "reduce xs = Inr r"
  shows "reduce (r @ ys) = Inr t \<longleftrightarrow> reduce (xs @ ys) = Inr t"
proof -
  from assms obtain m where m: "reducer_inv m" "r = bt_values m"
    "fold join_step xs (Some Map.empty) = Some (bt_get m)"
    "\<forall>x \<in> set xs. \<not> end_before_start (s_timing x)"
    by (auto simp: reduce_spec)
  have "\<forall>s \<in> set r. \<not> end_before_start (s_timing s)"
    using m(1,2) by (auto simp: reducer_inv_def set_bt_values ran_def)
  then show ?thesis
    using m fold_reduced [OF m(1)] by (simp add: reduce_spec ball_Un)
qed

text \<open>The reduced states are strictly sorted by span identifier and are exactly the observed
  spans, one state each.\<close>

lemma reduce_spans:
  assumes "reduce xs = Inr r"
  shows "sorted_wrt (<) (map s_span_id r) \<and> set (map s_span_id r) = s_span_id ` set xs"
proof -
  from assms obtain m where m: "reducer_inv m" "r = bt_values m"
    "fold join_step xs (Some Map.empty) = Some (bt_get m)"
    by (auto simp: reduce_spec)
  have "set (bt_keys m) = s_span_id ` set xs"
    using st.fold_dom [OF m(3)] by (simp add: bt_get_dom)
  then show ?thesis
    using reducer_values_distinct [OF m(1)] reducer_values_keys_sorted [OF m(1)] m(2) by simp
qed

text \<open>C2: a reduced state carries everything its observations say and nothing else: it absorbs
  each observation of its span, and it is below every state that does.\<close>

theorem reduce_least_upper_bound:
  assumes "reduce xs = Inr r" and "s \<in> set r"
  shows "(\<forall>x \<in> set xs. s_span_id x = s_span_id s \<longrightarrow> state_join s x = Some s) \<and>
    (\<forall>u. (\<forall>x \<in> set xs. s_span_id x = s_span_id s \<longrightarrow> state_join u x = Some u) \<longrightarrow>
         state_join u s = Some u)"
proof -
  from assms obtain m where m: "reducer_inv m" "r = bt_values m"
    "fold join_step xs (Some Map.empty) = Some (bt_get m)"
    by (auto simp: reduce_spec)
  have s: "bt_get m (s_span_id s) = Some s"
    using m assms(2) by (force simp: reducer_inv_def set_bt_values ran_def)
  have "\<forall>x \<in> set xs. s_span_id x = s_span_id s \<longrightarrow> state_join s x = Some s"
    using st.fold_absorbs [OF m(3)] s by fastforce
  moreover have "(\<forall>x \<in> set xs. s_span_id x = s_span_id s \<longrightarrow> state_join u x = Some u) \<longrightarrow>
      state_join u s = Some u" for u
    using st.fold_least [OF m(3) s, of u] by auto
  ultimately show ?thesis by blast
qed

theorem reduce_least_upper_bound_witness:
  "state_join (sample_reduced ! 1) (sample_batch ! 0) = Some (sample_reduced ! 1)"
  using reduce_least_upper_bound [OF sample_reduce, of "sample_reduced ! 1"]
  by (simp add: sample_reduced_def sample_batch_def sample_state_def)

end
