(* ===== verification/Topology.thy ===== *)
theory Topology
  imports Lifecycle
begin

section \<open>Span topology\<close>

text \<open>
  \<^verbatim>\<open>validate_topology\<close>, \<^verbatim>\<open>detect_cycle\<close> and \<^verbatim>\<open>valid_parent_kind\<close> of \<^verbatim>\<open>crates/domain/src/lib.rs\<close>,
  and the two application entry points that reduce one observation into a set of states and
  validate it (\<^verbatim>\<open>crates/application/src/lib.rs\<close>).  The walk over the parents is a loop with a
  visited set; it terminates because every visited identifier but the last is a known span.
\<close>

subsection \<open>The code\<close>

record topology_validation =
  unresolved_parent_ids :: "string list"

fun valid_parent_kind :: "span_kind \<Rightarrow> span_kind \<Rightarrow> bool" where
  "valid_parent_kind AgentSession Workstream = True"
| "valid_parent_kind Turn AgentSession = True"
| "valid_parent_kind LlmRequest AgentSession = True"
| "valid_parent_kind ToolExecution AgentSession = True"
| "valid_parent_kind Permission AgentSession = True"
| "valid_parent_kind LlmRequest Turn = True"
| "valid_parent_kind ToolExecution Turn = True"
| "valid_parent_kind ToolExecution LlmRequest = True"
| "valid_parent_kind Permission Turn = True"
| "valid_parent_kind Permission LlmRequest = True"
| "valid_parent_kind Compaction AgentSession = True"
| "valid_parent_kind Compaction Turn = True"
| "valid_parent_kind _ _ = False"

definition index_states :: "span_state list \<Rightarrow> (string, span_state) btree" where
  "index_states states = bt_collect (map (\<lambda>s. (s_span_id s, s)) states)"

definition parent_of :: "(string, span_state) btree \<Rightarrow> string \<Rightarrow> string option" where
  "parent_of by_id i = Option.bind (bt_get by_id i) s_parent_span_id"

function cycle_loop ::
  "(string, span_state) btree \<Rightarrow> string list \<Rightarrow> string option \<Rightarrow> domain_error + unit" where
  "cycle_loop by_id seen None = Inr ()"
| "cycle_loop by_id seen (Some i) =
     (if i \<in> set seen then Inl (Cycle i)
      else cycle_loop by_id (insort_insert i seen) (parent_of by_id i))"
  by pat_completeness auto
termination
proof (relation "measures [\<lambda>(t, seen, c). card (set (bt_keys t) - set seen),
    \<lambda>(t, seen, c). case c of None \<Rightarrow> 0 | Some i \<Rightarrow> (if i \<in> set (bt_keys t) then 1 else 2)]",
    goal_cases)
  case 1
  show ?case by simp
next
  case (2 by_id seen i)
  show ?case
  proof (cases "i \<in> set (bt_keys by_id)")
    case True
    have "set (bt_keys by_id) - set (insort_insert i seen) \<subset> set (bt_keys by_id) - set seen"
      using True 2 by (auto simp: set_insort_insert)
    then show ?thesis by (simp add: psubset_card_mono)
  next
    case False
    then have "parent_of by_id i = None"
      by (simp add: parent_of_def bt_get_dom [symmetric] domIff)
    moreover have "set (bt_keys by_id) - set (insort_insert i seen) = set (bt_keys by_id) - set seen"
      using False by (auto simp: set_insort_insert)
    ultimately show ?thesis using False by simp
  qed
qed

definition detect_cycle :: "span_state \<Rightarrow> (string, span_state) btree \<Rightarrow> domain_error + unit" where
  "detect_cycle state by_id = cycle_loop by_id [] (Some (s_span_id state))"

fun validate_states ::
  "(string, span_state) btree \<Rightarrow> span_state list \<Rightarrow> string list \<Rightarrow> domain_error + string list" where
  "validate_states by_id [] unresolved = Inr unresolved"
| "validate_states by_id (state # rest) unresolved =
     (case s_parent_span_id state of
        None \<Rightarrow> validate_states by_id rest unresolved
      | Some parent_id \<Rightarrow>
          if parent_id = s_span_id state then Inl (SelfParent (s_span_id state))
          else case bt_get by_id parent_id of
            None \<Rightarrow> validate_states by_id rest (insort_insert parent_id unresolved)
          | Some parent \<Rightarrow>
              if s_trace_id parent \<noteq> s_trace_id state
                then Inl (CrossTraceParent (s_span_id state) parent_id)
              else bind_result (detect_cycle state by_id) (\<lambda>_.
                if \<not> valid_parent_kind (s_kind state) (s_kind parent)
                  then Inl (InvalidParentKind (s_span_id state) parent_id)
                else validate_states by_id rest unresolved))"

definition validate_topology :: "span_state list \<Rightarrow> domain_error + topology_validation" where
  "validate_topology states =
     bind_result (validate_states (index_states states) states [])
       (\<lambda>unresolved. Inr \<lparr>unresolved_parent_ids = unresolved\<rparr>)"

text \<open>\<^verbatim>\<open>reduce_span_state\<close>: the last of the reduced states, as \<^verbatim>\<open>pop\<close> gives it.\<close>

definition reduce_span_state :: "span_state option \<Rightarrow> span_state \<Rightarrow> domain_error + span_state" where
  "reduce_span_state existing incoming = (case existing of
       None \<Rightarrow> Inr incoming
     | Some e \<Rightarrow> bind_result (reduce [e, incoming]) (\<lambda>reduced.
         ok_or (if reduced = [] then None else Some (last reduced))
           (LifecycleConflict (s_span_id e))))"

fun position :: "('a \<Rightarrow> bool) \<Rightarrow> 'a list \<Rightarrow> nat option" where
  "position p [] = None"
| "position p (x # xs) = (if p x then Some 0 else map_option Suc (position p xs))"

definition reduce_observation_state ::
  "span_state \<Rightarrow> span_state list \<Rightarrow> span_state list \<times> (domain_error + span_state)" where
  "reduce_observation_state incoming states =
     (let existing_index = position (\<lambda>s. s_span_id s = s_span_id incoming) states
      in case reduce_span_state (map_option ((!) states) existing_index) incoming of
        Inl e \<Rightarrow> (states, Inl e)
      | Inr reduced \<Rightarrow>
          (let states' = (case existing_index of
               Some i \<Rightarrow> states[i := reduced]
             | None \<Rightarrow> states @ [reduced])
           in (states', bind_result (validate_topology states') (\<lambda>_. Inr reduced))))"

subsection \<open>The parent walk\<close>

fun ancestor :: "(string, span_state) btree \<Rightarrow> nat \<Rightarrow> string \<Rightarrow> string option" where
  "ancestor by_id 0 i = Some i"
| "ancestor by_id (Suc n) i = Option.bind (parent_of by_id i) (ancestor by_id n)"

lemma ancestor_Suc: "ancestor t (Suc n) i = Option.bind (ancestor t n i) (parent_of t)"
proof (induction n arbitrary: i)
  case 0
  then show ?case by (cases "parent_of t i") auto
next
  case (Suc n)
  show ?case using Suc.IH by (cases "parent_of t i") simp_all
qed

lemma ancestor_add: "ancestor t (m + n) i = Option.bind (ancestor t m i) (ancestor t n)"
proof (induction m arbitrary: i)
  case 0
  then show ?case by simp
next
  case (Suc m)
  then show ?case by (cases "parent_of t i") simp_all
qed

lemma cycle_loop_ok:
  "cycle_loop t seen c = Inr () \<Longrightarrow> c = Some i \<Longrightarrow>
     (\<forall>n. \<forall>j. ancestor t n i = Some j \<longrightarrow> j \<notin> set seen) \<and>
     (\<forall>m n j. m < n \<longrightarrow> ancestor t m i = Some j \<longrightarrow> ancestor t n i \<noteq> Some j)"
proof (induction t seen c arbitrary: i rule: cycle_loop.induct)
  case (1 t seen)
  then show ?case by simp
next
  case (2 t seen i0)
  then have i: "i0 = i" "i \<notin> set seen"
    and rest: "cycle_loop t (insort_insert i seen) (parent_of t i) = Inr ()"
    by (auto split: if_splits)
  show ?case
  proof (cases "parent_of t i")
    case None
    have zero: "n = 0 \<and> j = i" if "ancestor t n i = Some j" for n j
      using that None by (cases n) simp_all
    show ?thesis
    proof (intro conjI allI impI)
      show "j \<notin> set seen" if "ancestor t n i = Some j" for n j
        using zero [OF that] i(2) by simp
      show "ancestor t n i \<noteq> Some j" if "m < n" for m n j
        using zero [of n j] that by auto
    qed
  next
    case (Some p)
    have up: "ancestor t (Suc n) i = ancestor t n p" for n using Some by simp
    have IH: "(\<forall>n j. ancestor t n p = Some j \<longrightarrow> j \<notin> set (insort_insert i seen)) \<and>
        (\<forall>m n j. m < n \<longrightarrow> ancestor t m p = Some j \<longrightarrow> ancestor t n p \<noteq> Some j)"
      by (rule "2.IH" [unfolded i(1), OF i(2) rest Some])
    have fresh: "j \<noteq> i \<and> j \<notin> set seen" if "ancestor t (Suc n) i = Some j" for n j
      using IH that [unfolded up] by (simp add: set_insort_insert)
    have apart: "ancestor t n p \<noteq> Some j" if "m < n" "ancestor t m p = Some j" for m n j
      using IH that by blast
    have a: "j \<notin> set seen" if "ancestor t n i = Some j" for n j
    proof (cases n)
      case 0
      with that i(2) show ?thesis by simp
    next
      case (Suc k)
      with that fresh [of k j] show ?thesis by simp
    qed
    have b: "ancestor t n i \<noteq> Some j" if "m < n" "ancestor t m i = Some j" for m n j
    proof (cases n)
      case 0
      with that show ?thesis by simp
    next
      case (Suc n')
      show ?thesis
      proof (cases m)
        case 0
        with that(2) fresh [of n' j] Suc show ?thesis by auto
      next
        case (Suc m')
        with that \<open>n = Suc n'\<close> apart [of m' n' j] up show ?thesis by simp
      qed
    qed
    from a b show ?thesis by blast
  qed
qed

lemma cycle_loop_err:
  "cycle_loop t seen c = Inl e \<Longrightarrow> c = Some i \<Longrightarrow>
     \<exists>n j. e = Cycle j \<and> ancestor t n i = Some j \<and>
       (j \<in> set seen \<or> (\<exists>m < n. ancestor t m i = Some j))"
proof (induction t seen c arbitrary: i rule: cycle_loop.induct)
  case (1 t seen)
  then show ?case by simp
next
  case (2 t seen i0)
  have i: "i0 = i" using "2.prems" by simp
  show ?case
  proof (cases "i \<in> set seen")
    case True
    then have "e = Cycle i \<and> ancestor t 0 i = Some i" using "2.prems" i by simp
    then show ?thesis using True by blast
  next
    case False
    then have rest: "cycle_loop t (insort_insert i seen) (parent_of t i) = Inl e"
      using "2.prems" i by simp
    then obtain p where p: "parent_of t i = Some p" by (cases "parent_of t i") auto
    then obtain n j where e: "e = Cycle j" and up: "ancestor t (Suc n) i = Some j"
      and hit: "j = i \<or> j \<in> set seen \<or> (\<exists>m < n. ancestor t (Suc m) i = Some j)"
      using "2.IH" [unfolded i, OF False rest p] p by (auto simp: set_insort_insert)
    have "j \<in> set seen \<or> (\<exists>m < Suc n. ancestor t m i = Some j)"
      using hit by (auto intro: exI [of _ "0::nat"] dest: Suc_mono)
    then show ?thesis using e up by blast
  qed
qed

lemma detect_cycle_ok:
  "detect_cycle s t = Inr () \<Longrightarrow> m < n \<Longrightarrow> ancestor t m (s_span_id s) = Some j \<Longrightarrow>
     ancestor t n (s_span_id s) \<noteq> Some j"
  using cycle_loop_ok [of t "[]" "Some (s_span_id s)"] by (simp add: detect_cycle_def)

lemma detect_cycle_err:
  "detect_cycle s t = Inl e \<Longrightarrow> \<exists>m n j. e = Cycle j \<and> m < n \<and>
     ancestor t m (s_span_id s) = Some j \<and> ancestor t n (s_span_id s) = Some j"
  using cycle_loop_err [of t "[]" "Some (s_span_id s)" e] by (fastforce simp: detect_cycle_def)

subsection \<open>What a valid topology is\<close>

definition link_ok :: "(string, span_state) btree \<Rightarrow> span_state \<Rightarrow> string \<Rightarrow> bool" where
  "link_ok t s p \<longleftrightarrow> p \<noteq> s_span_id s \<and>
     (\<forall>q. bt_get t p = Some q \<longrightarrow>
        s_trace_id q = s_trace_id s \<and> valid_parent_kind (s_kind s) (s_kind q))"

definition links_ok :: "(string, span_state) btree \<Rightarrow> span_state list \<Rightarrow> bool" where
  "links_ok t xs \<longleftrightarrow> (\<forall>s \<in> set xs. \<forall>p. s_parent_span_id s = Some p \<longrightarrow> link_ok t s p)"

definition missing_parents :: "(string, span_state) btree \<Rightarrow> span_state list \<Rightarrow> string set" where
  "missing_parents t xs = {p. (\<exists>s \<in> set xs. s_parent_span_id s = Some p) \<and> bt_get t p = None}"

fun kind_rank :: "span_kind \<Rightarrow> nat" where
  "kind_rank Workstream = 0"
| "kind_rank AgentSession = 1"
| "kind_rank Turn = 2"
| "kind_rank LlmRequest = 3"
| "kind_rank ToolExecution = 4"
| "kind_rank Permission = 4"
| "kind_rank Compaction = 4"

lemma valid_parent_kind_rank: "valid_parent_kind c p \<Longrightarrow> kind_rank p < kind_rank c"
  by (cases c; cases p) auto

lemma kind_rank_le: "kind_rank k \<le> 4"
  by (cases k) auto

lemma index_states_get: "bt_get (index_states xs) i = Some s \<Longrightarrow> s \<in> set xs \<and> s_span_id s = i"
  by (auto simp: index_states_def bt_get_collect rev_map dest!: map_of_SomeD)

lemma index_states_dom: "bt_get (index_states xs) i = None \<longleftrightarrow> i \<notin> s_span_id ` set xs"
  by (auto simp: index_states_def bt_get_collect map_of_eq_None_iff image_iff)

text \<open>Well-formed links descend in rank, so a walk over known spans is short.\<close>

lemma ancestor_rank:
  assumes "links_ok t (bt_values t)" and "bt_sorted t"
    and "bt_get t i = Some s" and "ancestor t n i = Some j" and "bt_get t j = Some q"
  shows "kind_rank (s_kind q) + n \<le> kind_rank (s_kind s)"
  using assms(3-5)
proof (induction n arbitrary: i s)
  case 0
  then show ?case by simp
next
  case (Suc n)
  then obtain p where p: "s_parent_span_id s = Some p" and up: "ancestor t n p = Some j"
    by (auto simp: parent_of_def bind_eq_Some_conv)
  show ?case
  proof (cases "bt_get t p")
    case None
    then have "n = 0" using up by (cases n) (simp_all add: parent_of_def)
    then show ?thesis using up None Suc.prems(3) by simp
  next
    case (Some r)
    have "s \<in> set (bt_values t)" using Suc.prems(1) assms(2) by (simp add: set_bt_values ranI)
    then have "valid_parent_kind (s_kind s) (s_kind r)"
      using assms(1) p Some by (simp add: links_ok_def link_ok_def)
    then show ?thesis using Suc.IH [OF Some up Suc.prems(3)] valid_parent_kind_rank by fastforce
  qed
qed

lemma ancestor_known: "m < n \<Longrightarrow> ancestor t n i = Some j \<Longrightarrow> ancestor t m i = Some k \<Longrightarrow> \<exists>q. bt_get t k = Some q"
proof -
  assume mn: "m < n" and n: "ancestor t n i = Some j" and m: "ancestor t m i = Some k"
  obtain d where "n = m + Suc d" using mn by (metis add_Suc_right less_imp_Suc_add)
  then have "ancestor t (Suc d) k = Some j"
    using n m ancestor_add [of t m "Suc d" i] by (simp del: ancestor.simps)
  then show ?thesis by (auto simp: parent_of_def bind_eq_Some_conv)
qed

lemma links_ok_no_cycle:
  assumes "links_ok t (bt_values t)" and "bt_sorted t"
  shows "detect_cycle s t = Inr ()"
proof (cases "detect_cycle s t")
  case (Inl e)
  then obtain m n j where mn: "m < n" "ancestor t m (s_span_id s) = Some j"
    "ancestor t n (s_span_id s) = Some j"
    using detect_cycle_err by blast
  then obtain d where d: "n = m + Suc d" by (metis add_Suc_right less_imp_Suc_add)
  with mn have loop: "ancestor t (Suc d) j = Some j"
    using ancestor_add [of t m "Suc d" "s_span_id s"] by (simp del: ancestor.simps)
  obtain q where "bt_get t j = Some q" using ancestor_known [OF mn(1,3,2)] by blast
  with ancestor_rank [OF assms this loop this] show ?thesis by simp
qed simp

lemma validate_states_iff:
  assumes "sorted u" and "distinct u"
  shows "validate_states t xs u = Inr v \<longleftrightarrow>
     links_ok t xs \<and> (\<forall>s \<in> set xs. \<forall>p q. s_parent_span_id s = Some p \<longrightarrow> bt_get t p = Some q \<longrightarrow> detect_cycle s t = Inr ()) \<and>
     v = sorted_list_of_set (set u \<union> missing_parents t xs)"
  using assms
proof (induction xs arbitrary: u)
  case Nil
  then show ?case
    by (auto simp: links_ok_def missing_parents_def sorted_list_of_set.idem_if_sorted_distinct)
next
  case (Cons s xs)
  note IH = Cons.IH
  have links: "links_ok t (s # xs) \<longleftrightarrow>
      (\<forall>p. s_parent_span_id s = Some p \<longrightarrow> link_ok t s p) \<and> links_ok t xs"
    by (auto simp: links_ok_def)
  show ?case
  proof (cases "s_parent_span_id s")
    case None
    then have "missing_parents t (s # xs) = missing_parents t xs" by (auto simp: missing_parents_def)
    then show ?thesis using IH [OF Cons.prems] None links by auto
  next
    case (Some p)
    show ?thesis
    proof (cases "bt_get t p")
      case None
      have "missing_parents t (s # xs) = insert p (missing_parents t xs)"
        using Some None by (auto simp: missing_parents_def)
      then show ?thesis
        using IH [of "insort_insert p u"] Cons.prems Some None links
        by (auto simp: sorted_insort_insert distinct_insort_insert set_insort_insert link_ok_def)
    next
      case (Some q)
      have "missing_parents t (s # xs) = missing_parents t xs"
        using Some \<open>s_parent_span_id s = Some p\<close> by (auto simp: missing_parents_def)
      then show ?thesis
        using IH [OF Cons.prems] Some \<open>s_parent_span_id s = Some p\<close> links
        by (auto simp: result_simps link_ok_def)
    qed
  qed
qed

lemma index_states_sorted: "bt_sorted (index_states xs)"
  by (simp add: index_states_def bt_sorted_collect)

lemma links_ok_index:
  "links_ok (index_states xs) xs \<Longrightarrow> links_ok (index_states xs) (bt_values (index_states xs))"
  using index_states_get by (fastforce simp: links_ok_def set_bt_values index_states_sorted ran_def)

subsection \<open>Properties\<close>

lemma validate_topology_iff:
  "validate_topology xs = Inr v \<longleftrightarrow>
     links_ok (index_states xs) xs \<and>
     unresolved_parent_ids v = sorted_list_of_set (missing_parents (index_states xs) xs)"
proof -
  have no_cycle: "links_ok (index_states xs) xs \<Longrightarrow> detect_cycle s (index_states xs) = Inr ()" for s
    by (intro links_ok_no_cycle links_ok_index index_states_sorted)
  show ?thesis
    using validate_states_iff [of "[]" "index_states xs" xs] no_cycle
    by (cases v) (auto simp: validate_topology_def result_simps)
qed

text \<open>C3: topology validation accepts exactly the span sets in which every parent link is to
  another span, stays in its trace and follows the kind hierarchy, and it reports the absent
  parents sorted and without duplicates.  Cycles need no separate condition: a link that
  follows the hierarchy cannot close one.\<close>

theorem validate_topology_accepts:
  "validate_topology xs = Inr v \<longleftrightarrow>
     links_ok (index_states xs) xs \<and>
     unresolved_parent_ids v = sorted_list_of_set (missing_parents (index_states xs) xs)"
  by (rule validate_topology_iff)

text \<open>In a validated set of spans no chain of parents is longer than the kind hierarchy is
  high: five steps up from any known span leave the known spans.\<close>

lemma validated_depth:
  assumes "validate_topology xs = Inr v" and "i \<in> s_span_id ` set xs"
  shows "ancestor (index_states xs) n i = Some j \<longrightarrow> j \<in> s_span_id ` set xs \<longrightarrow> n \<le> 4"
proof (intro impI)
  assume n: "ancestor (index_states xs) n i = Some j" and j: "j \<in> s_span_id ` set xs"
  have links: "links_ok (index_states xs) (bt_values (index_states xs))"
    using assms(1) links_ok_index by (simp add: validate_topology_iff)
  obtain s where s: "bt_get (index_states xs) i = Some s"
    using assms(2) index_states_dom by (metis not_None_eq)
  obtain q where q: "bt_get (index_states xs) j = Some q"
    using j index_states_dom by (metis not_None_eq)
  show "n \<le> 4"
    using ancestor_rank [OF links index_states_sorted s n q] kind_rank_le [of "s_kind s"] by simp
qed

text \<open>C4: the walk that looks for cycles always stops, and it reports a cycle exactly when some
  span is its own ancestor on the way up.\<close>

theorem detect_cycle_exact:
  "(\<exists>i. detect_cycle s t = Inl (Cycle i)) \<longleftrightarrow>
     (\<exists>m n j. m < n \<and> ancestor t m (s_span_id s) = Some j \<and> ancestor t n (s_span_id s) = Some j)"
proof (cases "detect_cycle s t")
  case (Inl e)
  with detect_cycle_err [OF Inl] show ?thesis by blast
next
  case (Inr u)
  with detect_cycle_ok [of s t] show ?thesis by auto
qed

lemma position_Some: "position p xs = Some i \<Longrightarrow> i < length xs \<and> p (xs ! i)"
  by (induction xs arbitrary: i) (auto split: if_splits)

lemma position_None: "position p xs = None \<longleftrightarrow> (\<forall>x \<in> set xs. \<not> p x)"
  by (induction xs) auto

lemma reduce_pair:
  assumes "reduce [a, b] = Inr r" and "s_span_id a = s_span_id b"
  shows "\<exists>c. r = [c] \<and> state_join a b = Some c"
proof -
  from assms(1) obtain m where m: "reducer_inv m" "r = bt_values m"
    "fold join_step [a, b] (Some Map.empty) = Some (bt_get m)"
    by (auto simp: reduce_spec)
  then obtain c where c: "state_join a b = Some c" "bt_get m = [s_span_id b \<mapsto> c]"
    using assms(2) by (auto simp: keyed_step_def)
  have "m = [(s_span_id b, c)]"
  proof (rule bt_canonical)
    show "bt_sorted m" using m(1) by (simp add: reducer_inv_def)
    show "bt_sorted [(s_span_id b, c)]" by (simp add: bt_sorted_def)
    show "bt_get m = bt_get [(s_span_id b, c)]" unfolding c(2) by (simp add: bt_get_def)
  qed
  then show ?thesis using m(2) c(1) by (simp add: bt_values_def)
qed

text \<open>Storing one observation into the application state and reducing it agrees with the
  reducer: the stored span is the one the batch reduction of the old state and the observation
  yields.\<close>

lemma reduce_span_state_join:
  assumes "s_span_id e = s_span_id x"
  shows "reduce_span_state (Some e) x = Inr c \<longleftrightarrow>
     \<not> end_before_start (s_timing e) \<and> \<not> end_before_start (s_timing x) \<and> state_join e x = Some c"
proof
  assume "reduce_span_state (Some e) x = Inr c"
  then obtain r where r: "reduce [e, x] = Inr r" "r \<noteq> []" "last r = c"
    by (auto simp: reduce_span_state_def result_simps split: if_splits)
  from reduce_pair [OF r(1) assms] r(3) have "state_join e x = Some c" by auto
  with r(1) show "\<not> end_before_start (s_timing e) \<and>
      \<not> end_before_start (s_timing x) \<and> state_join e x = Some c"
    by (simp add: reduce_spec)
next
  assume a: "\<not> end_before_start (s_timing e) \<and> \<not> end_before_start (s_timing x) \<and> state_join e x = Some c"
  have sid: "s_span_id c = s_span_id x" using a state_join_fields assms by metis
  have "fold join_step [e, x] (Some Map.empty) = Some (bt_get [(s_span_id x, c)])"
    using a assms by (simp add: keyed_step_def bt_get_def)
  moreover have "reducer_inv [(s_span_id x, c)]"
    using a sid state_join_fields(7) [of e x c] end_before_start_merge
    by (auto simp: reducer_inv_def bt_sorted_def bt_get_def split: if_splits)
  ultimately have "reduce [e, x] = Inr [c]"
    using a by (auto simp: reduce_spec bt_values_def intro!: exI [of _ "[(s_span_id x, c)]"])
  then show "reduce_span_state (Some e) x = Inr c"
    by (simp add: reduce_span_state_def)
qed

subsection \<open>What stays after a rejection\<close>

definition observe_all :: "span_state list \<Rightarrow> span_state list \<Rightarrow> span_state list" where
  "observe_all xs states = fold (\<lambda>x s. fst (reduce_observation_state x s)) xs states"

definition skeleton :: "span_state \<Rightarrow> string \<times> string \<times> string option \<times> span_kind" where
  "skeleton s = (s_trace_id s, s_span_id s, s_parent_span_id s, s_kind s)"

lemma index_states_map_of: "bt_get (index_states xs) i = map_of (rev (map (\<lambda>s. (s_span_id s, s)) xs)) i"
  by (simp add: index_states_def bt_get_collect)

lemma index_states_skeleton:
  "map_option skeleton (bt_get (index_states xs) i) =
     map_of (rev (map (\<lambda>k. (fst (snd k), k)) (map skeleton xs))) i"
proof -
  have "map_of (map (\<lambda>s. (s_span_id s, skeleton s)) ys) i =
      map_option skeleton (map_of (map (\<lambda>s. (s_span_id s, s)) ys) i)" for ys
    by (induction ys) auto
  then show ?thesis
    by (simp add: index_states_map_of rev_map comp_def) (simp add: skeleton_def)
qed

text \<open>Whether the links are right depends on the identities alone, which no merge changes.\<close>

lemma links_ok_skeleton:
  "links_ok (index_states xs) xs \<longleftrightarrow>
     (\<forall>k \<in> skeleton ` set xs. \<forall>p. fst (snd (snd k)) = Some p \<longrightarrow> p \<noteq> fst (snd k) \<and>
        (\<forall>q. map_option skeleton (bt_get (index_states xs) p) = Some q \<longrightarrow>
           fst q = fst k \<and> valid_parent_kind (snd (snd (snd k))) (snd (snd (snd q)))))"
  by (auto simp: links_ok_def link_ok_def skeleton_def)

lemma links_ok_cong:
  assumes "map skeleton xs = map skeleton ys"
  shows "links_ok (index_states xs) xs \<longleftrightarrow> links_ok (index_states ys) ys"
proof -
  have "skeleton ` set xs = skeleton ` set ys" using assms by (metis set_map)
  then show ?thesis unfolding links_ok_skeleton index_states_skeleton assms by simp
qed

lemma links_ok_snoc:
  assumes "links_ok (index_states (xs @ [y])) (xs @ [y])" and "s_span_id y \<notin> s_span_id ` set xs"
  shows "links_ok (index_states xs) xs"
proof -
  have "bt_get (index_states (xs @ [y])) p = Some q" if "bt_get (index_states xs) p = Some q" for p q
  proof -
    have "p \<noteq> s_span_id y" using index_states_get [OF that] assms(2) by (metis imageI)
    then show ?thesis using that by (simp add: index_states_map_of)
  qed
  then have "link_ok (index_states (xs @ [y])) s p \<Longrightarrow> link_ok (index_states xs) s p" for s p
    unfolding link_ok_def by blast
  then show ?thesis using assms(1) by (simp add: links_ok_def)
qed

lemma bad_links_rejected:
  "\<not> links_ok (index_states xs) xs \<Longrightarrow> \<exists>e. validate_topology xs = Inl e"
  using validate_topology_iff [of xs] by (cases "validate_topology xs") auto

lemma reduce_observation_append:
  assumes "s_span_id x \<notin> s_span_id ` set states"
  shows "reduce_observation_state x states =
     (states @ [x], bind_result (validate_topology (states @ [x])) (\<lambda>_. Inr x))"
proof -
  have "position (\<lambda>s. s_span_id s = s_span_id x) states = None"
    using assms unfolding position_None by (metis imageI)
  then show ?thesis by (simp add: reduce_observation_state_def reduce_span_state_def Let_def)
qed

lemma bad_links_stay:
  assumes "\<not> links_ok (index_states states) states"
  shows "\<not> links_ok (index_states (fst (reduce_observation_state y states))) (fst (reduce_observation_state y states)) \<and>
     (\<exists>e. snd (reduce_observation_state y states) = Inl e)"
proof (cases "position (\<lambda>s. s_span_id s = s_span_id y) states")
  case None
  then have new: "s_span_id y \<notin> s_span_id ` set states" by (auto simp: position_None)
  then have bad: "\<not> links_ok (index_states (states @ [y])) (states @ [y])"
    using assms links_ok_snoc by blast
  then show ?thesis
    using bad_links_rejected [OF bad] reduce_observation_append [OF new] by (auto simp: result_simps)
next
  case (Some i)
  then have i: "i < length states" "s_span_id (states ! i) = s_span_id y"
    using position_Some by fastforce+
  show ?thesis
  proof (cases "reduce_span_state (Some (states ! i)) y")
    case (Inl e)
    then show ?thesis using Some assms by (simp add: reduce_observation_state_def)
  next
    case (Inr c)
    then have "state_join (states ! i) y = Some c" using reduce_span_state_join [OF i(2)] by simp
    then have "skeleton c = skeleton (states ! i)"
      using state_join_fields by (simp add: skeleton_def)
    then have "map skeleton (states[i := c]) = map skeleton states"
      using i(1) by (simp add: map_update list_update_same_conv)
    then have bad: "\<not> links_ok (index_states (states[i := c])) (states[i := c])"
      using assms links_ok_cong by blast
    have "reduce_observation_state y states = (states[i := c],
        bind_result (validate_topology (states[i := c])) (\<lambda>_. Inr c))"
      using Some Inr by (simp add: reduce_observation_state_def Let_def)
    then show ?thesis using bad bad_links_rejected [OF bad] by (auto simp: result_simps)
  qed
qed

lemma bad_links_observe_all:
  "\<not> links_ok (index_states states) states \<Longrightarrow>
     \<not> links_ok (index_states (observe_all ys states)) (observe_all ys states)"
  by (induction ys arbitrary: states) (simp_all add: observe_all_def bad_links_stay)

text \<open>C5: one observation of a new span whose parent link is wrong (to itself, into another
  trace, or against the kind hierarchy) spoils the application state for good.  It is rejected,
  but the rejected span has already been written at the end of the caller's list; and whatever
  observations follow, correct or not, every later one is rejected as well, since no operation
  removes the span or repairs its link.\<close>

theorem rejected_observation_stays:
  assumes "s_span_id x \<notin> s_span_id ` set states"
    and "\<not> links_ok (index_states (states @ [x])) (states @ [x])"
  shows "(\<exists>e. reduce_observation_state x states = (states @ [x], Inl e)) \<and>
     (\<forall>ys y. \<exists>e. snd (reduce_observation_state y (observe_all ys (states @ [x]))) = Inl e)"
  using bad_links_rejected [OF assms(2)] reduce_observation_append [OF assms(1)]
    bad_links_stay [OF bad_links_observe_all [OF assms(2)]]
  by (auto simp: result_simps)

theorem rejected_observation_stays_witness:
  "reduce_observation_state (sample_state ''a'' (Some ''a'') Turn Running 1) [] =
     ([sample_state ''a'' (Some ''a'') Turn Running 1], Inl (SelfParent ''a'')) \<and>
   (\<exists>e. snd (reduce_observation_state (sample_state ''c'' (Some ''b'') Turn Running 1)
     (observe_all [sample_state ''b'' None AgentSession Running 1]
       [sample_state ''a'' (Some ''a'') Turn Running 1])) = Inl e)"
proof -
  let ?x = "sample_state ''a'' (Some ''a'') Turn Running 1"
  have "\<not> links_ok (index_states ([] @ [?x])) ([] @ [?x])"
    by (simp add: links_ok_def link_ok_def sample_state_def)
  from rejected_observation_stays [of ?x "[]", OF _ this]
  have "\<exists>e. snd (reduce_observation_state y (observe_all ys [?x])) = Inl e" for y ys by simp
  moreover have "reduce_observation_state ?x [] = ([?x], Inl (SelfParent ''a''))" by code_simp
  ultimately show ?thesis by blast
qed

end
