(* ===== verification/F64.thy ===== *)
theory F64
  imports Complex_Main Prelude
begin

section \<open>Rust's f64\<close>

text \<open>
  IEEE 754 binary64 values and the operations the program uses.  A finite value is its sign
  and its magnitude, a rational; \<open>f64_wf\<close> says that the magnitude is representable.  NaN
  payloads are not distinguished.  Arithmetic computes exactly and rounds to nearest, ties to
  even, with gradual underflow and overflow to infinity, so the definitions evaluate and the
  rounding errors of the program's cost arithmetic are those of the machine.
\<close>

datatype f64 = NaN | Inf bool | Fin bool rat

subsection \<open>Rounding\<close>

definition pow2 :: "int \<Rightarrow> rat" where
  "pow2 e = (if 0 \<le> e then 2 ^ nat e else 1 / 2 ^ nat (- e))"

fun ilog2 :: "nat \<Rightarrow> nat" where
  "ilog2 n = (if n \<le> 1 then 0 else Suc (ilog2 (n div 2)))"

declare ilog2.simps [simp del]

definition floor_log2 :: "rat \<Rightarrow> int" where
  "floor_log2 x =
     (if 1 \<le> x then int (ilog2 (nat \<lfloor>x\<rfloor>)) else - int (ilog2 (nat (\<lceil>1 / x\<rceil> - 1)) + 1))"

definition round_half_even :: "rat \<Rightarrow> int" where
  "round_half_even x =
     (let f = \<lfloor>x\<rfloor>; d = x - of_int f
      in if d < 1 / 2 then f else if d > 1 / 2 then f + 1 else if even f then f else f + 1)"

definition ulp_exp :: "rat \<Rightarrow> int" where
  "ulp_exp x = max (floor_log2 x - 52) (- 1074)"

definition round_mag :: "rat \<Rightarrow> rat" where
  "round_mag x =
     (if x = 0 then 0 else of_int (round_half_even (x / pow2 (ulp_exp x))) * pow2 (ulp_exp x))"

definition f64_of_rat :: "bool \<Rightarrow> rat \<Rightarrow> f64" where
  "f64_of_rat zero_sign x =
     (let m = round_mag \<bar>x\<bar>
      in if 2 ^ 1024 \<le> m then Inf (x < 0) else Fin (if x = 0 then zero_sign else x < 0) m)"

definition representable :: "rat \<Rightarrow> bool" where
  "representable r \<longleftrightarrow> (\<exists>n e. r = of_nat n * pow2 e \<and> n < 2 ^ 53 \<and> - 1074 \<le> e \<and> e \<le> 971)"

fun f64_wf :: "f64 \<Rightarrow> bool" where
  "f64_wf (Fin s r) = representable r"
| "f64_wf _ = True"

subsection \<open>Operations\<close>

fun f64_val :: "f64 \<Rightarrow> rat" where
  "f64_val (Fin s r) = (if s then - r else r)"
| "f64_val _ = 0"

fun is_finite :: "f64 \<Rightarrow> bool" where
  "is_finite (Fin s r) = True"
| "is_finite _ = False"

definition f64_zero :: f64 where
  "f64_zero = Fin False 0"

fun f64_lt :: "f64 \<Rightarrow> f64 \<Rightarrow> bool" where
  "f64_lt NaN y = False"
| "f64_lt x NaN = False"
| "f64_lt (Inf s) (Inf t) = (s \<and> \<not> t)"
| "f64_lt (Inf s) (Fin t r) = s"
| "f64_lt (Fin s r) (Inf t) = (\<not> t)"
| "f64_lt (Fin s r) (Fin t q) = (f64_val (Fin s r) < f64_val (Fin t q))"

fun f64_eq :: "f64 \<Rightarrow> f64 \<Rightarrow> bool" where
  "f64_eq (Inf s) (Inf t) = (s = t)"
| "f64_eq (Fin s r) (Fin t q) = (f64_val (Fin s r) = f64_val (Fin t q))"
| "f64_eq _ _ = False"

definition f64_le :: "f64 \<Rightarrow> f64 \<Rightarrow> bool" where
  "f64_le x y \<longleftrightarrow> f64_lt x y \<or> f64_eq x y"

fun f64_add :: "f64 \<Rightarrow> f64 \<Rightarrow> f64" where
  "f64_add (Fin s r) (Fin t q) =
     f64_of_rat (s \<and> t) (f64_val (Fin s r) + f64_val (Fin t q))"
| "f64_add (Inf s) (Inf t) = (if s = t then Inf s else NaN)"
| "f64_add (Inf s) (Fin t q) = Inf s"
| "f64_add (Fin s r) (Inf t) = Inf t"
| "f64_add _ _ = NaN"

fun f64_neg :: "f64 \<Rightarrow> f64" where
  "f64_neg NaN = NaN"
| "f64_neg (Inf s) = Inf (\<not> s)"
| "f64_neg (Fin s r) = Fin (\<not> s) r"

definition f64_sub :: "f64 \<Rightarrow> f64 \<Rightarrow> f64" where
  "f64_sub x y = f64_add x (f64_neg y)"

fun f64_mul :: "f64 \<Rightarrow> f64 \<Rightarrow> f64" where
  "f64_mul (Fin s r) (Fin t q) =
     f64_of_rat (s \<noteq> t) (f64_val (Fin s r) * f64_val (Fin t q))"
| "f64_mul (Inf s) (Inf t) = Inf (s \<noteq> t)"
| "f64_mul (Inf s) (Fin t q) = (if q = 0 then NaN else Inf (s \<noteq> t))"
| "f64_mul (Fin s r) (Inf t) = (if r = 0 then NaN else Inf (s \<noteq> t))"
| "f64_mul _ _ = NaN"

fun f64_div :: "f64 \<Rightarrow> f64 \<Rightarrow> f64" where
  "f64_div (Fin s r) (Fin t q) =
     (if q = 0 then (if r = 0 then NaN else Inf (s \<noteq> t))
      else f64_of_rat (s \<noteq> t) (f64_val (Fin s r) / f64_val (Fin t q)))"
| "f64_div (Inf s) (Inf t) = NaN"
| "f64_div (Inf s) (Fin t q) = Inf (s \<noteq> t)"
| "f64_div (Fin s r) (Inf t) = Fin (s \<noteq> t) 0"
| "f64_div _ _ = NaN"

text \<open>\<^verbatim>\<open>f64::round\<close>: halves go away from zero.\<close>

fun f64_round :: "f64 \<Rightarrow> f64" where
  "f64_round (Fin s r) = Fin s (of_int \<lfloor>r + 1 / 2\<rfloor>)"
| "f64_round x = x"

text \<open>\<^verbatim>\<open>value.fract() != 0.0\<close>; infinities and NaN have a NaN fraction.\<close>

fun fract_nonzero :: "f64 \<Rightarrow> bool" where
  "fract_nonzero (Fin s r) = (of_int \<lfloor>r\<rfloor> \<noteq> r)"
| "fract_nonzero _ = True"

text \<open>\<^verbatim>\<open>as u64\<close>: truncating and saturating, NaN is zero.\<close>

fun f64_as_u64 :: "f64 \<Rightarrow> u64" where
  "f64_as_u64 NaN = 0"
| "f64_as_u64 (Inf s) = (if s then 0 else - 1)"
| "f64_as_u64 (Fin s r) =
     (if s then 0 else if 2 ^ 64 \<le> \<lfloor>r\<rfloor> then - 1 else word_of_int \<lfloor>r\<rfloor>)"

definition f64_of_u64 :: "u64 \<Rightarrow> f64" where
  "f64_of_u64 n = f64_of_rat False (of_nat (unat n))"

fun f64_max :: "f64 \<Rightarrow> f64 \<Rightarrow> f64" where
  "f64_max NaN y = y"
| "f64_max x NaN = x"
| "f64_max x y = (if f64_lt x y then y else x)"

fun f64_min :: "f64 \<Rightarrow> f64 \<Rightarrow> f64" where
  "f64_min NaN y = y"
| "f64_min x NaN = x"
| "f64_min x y = (if f64_lt y x then y else x)"

text \<open>\<^verbatim>\<open>total_cmp\<close>: the order of the bit patterns; negative zero is below zero.\<close>

fun f64_total_less :: "f64 \<Rightarrow> f64 \<Rightarrow> bool" where
  "f64_total_less NaN y = False"
| "f64_total_less x NaN = True"
| "f64_total_less (Fin s r) (Fin t q) =
     (f64_val (Fin s r) < f64_val (Fin t q) \<or>
      (f64_val (Fin s r) = f64_val (Fin t q) \<and> s \<and> \<not> t))"
| "f64_total_less x y = f64_lt x y"

subsection \<open>Powers of two and logarithms\<close>

lemma pow2_powi: "pow2 e = 2 powi e"
  by (simp add: pow2_def power_int_def field_simps power_inverse [symmetric])

lemma pow2_pos [simp]: "0 < pow2 e"
  by (simp add: pow2_powi)

lemma pow2_nonzero [simp]: "pow2 e \<noteq> 0"
  using pow2_pos [of e] by linarith

lemma pow2_add: "pow2 (a + b) = pow2 a * pow2 b"
  by (simp add: pow2_powi power_int_add)

lemma pow2_diff: "pow2 (a - b) = pow2 a / pow2 b"
  by (simp add: pow2_powi power_int_diff)

lemma pow2_nat: "pow2 (int n) = 2 ^ n"
  by (simp add: pow2_def)

lemma pow2_mono: "a \<le> b \<Longrightarrow> pow2 a \<le> pow2 b"
  by (simp add: pow2_powi power_int_increasing)

lemma pow2_less_iff: "pow2 a < pow2 b \<longleftrightarrow> a < b"
proof
  assume "pow2 a < pow2 b"
  then show "a < b" using pow2_mono [of b a] by (meson linorder_not_less)
next
  assume "a < b"
  then show "pow2 a < pow2 b" by (simp add: pow2_powi power_int_strict_increasing)
qed

lemma ilog2_bounds: "0 < n \<Longrightarrow> 2 ^ ilog2 n \<le> n \<and> n < 2 ^ (ilog2 n + 1)"
proof (induction n rule: ilog2.induct)
  case (1 n)
  show ?case
  proof (cases "n \<le> 1")
    case True
    then show ?thesis using 1 by (simp add: ilog2.simps [of n])
  next
    case False
    then have "2 ^ ilog2 (n div 2) \<le> n div 2 \<and> n div 2 < 2 ^ (ilog2 (n div 2) + 1)"
      using 1 by simp
    moreover have "ilog2 n = Suc (ilog2 (n div 2))" using False by (simp add: ilog2.simps [of n])
    ultimately show ?thesis by auto
  qed
qed

lemma ilog2_rat:
  assumes "0 < p"
  shows "2 ^ ilog2 (nat p) \<le> (of_int p :: rat)" "(of_int p :: rat) < 2 ^ (ilog2 (nat p) + 1)"
proof -
  have p: "(of_int p :: rat) = of_nat (nat p)" using assms by simp
  have b: "2 ^ ilog2 (nat p) \<le> nat p" "nat p < 2 ^ (ilog2 (nat p) + 1)"
    using ilog2_bounds [of "nat p"] assms by simp_all
  show "2 ^ ilog2 (nat p) \<le> (of_int p :: rat)"
    unfolding p using of_nat_mono [OF b(1), where 'a = rat] by (simp only: of_nat_power of_nat_numeral)
  show "(of_int p :: rat) < 2 ^ (ilog2 (nat p) + 1)"
    unfolding p using of_nat_less_iff [THEN iffD2, OF b(2), where 'a1 = rat]
    by (simp only: of_nat_power of_nat_numeral)
qed

lemma floor_log2_bounds:
  assumes "0 < x"
  shows "pow2 (floor_log2 x) \<le> x" "x < pow2 (floor_log2 x + 1)"
proof -
  have "pow2 (floor_log2 x) \<le> x \<and> x < pow2 (floor_log2 x + 1)"
  proof (cases "1 \<le> x")
    case True
    define k where "k = ilog2 (nat \<lfloor>x\<rfloor>)"
    have fl: "0 < \<lfloor>x\<rfloor>" using True by (simp add: le_floor_iff less_le_trans [OF zero_less_one])
    have k: "2 ^ k \<le> (of_int \<lfloor>x\<rfloor> :: rat)" "of_int \<lfloor>x\<rfloor> < (2 :: rat) ^ (k + 1)"
      using ilog2_rat [OF fl] by (simp_all only: k_def)
    have "\<lfloor>x\<rfloor> < 2 ^ (k + 1)"
      using k(2) by (metis of_int_less_iff of_int_numeral of_int_power)
    then have "x < 2 ^ (k + 1)" by (simp add: floor_less_iff)
    moreover have "2 ^ k \<le> x" using k(1) of_int_floor_le order_trans by blast
    moreover have "floor_log2 x = int k" using True by (simp add: floor_log2_def k_def)
    moreover have "pow2 (int k + 1) = 2 ^ (k + 1)" using pow2_nat [of "k + 1"] by (simp add: ac_simps)
    ultimately show ?thesis by (simp add: pow2_nat)
  next
    case False
    define c where "c = \<lceil>1 / x\<rceil>"
    define k where "k = ilog2 (nat (c - 1))"
    have y: "1 < 1 / x" using False assms by simp
    then have c: "0 < c - 1" unfolding c_def by (simp add: less_ceiling_iff)
    have k: "2 ^ k \<le> (of_int (c - 1) :: rat)" "of_int (c - 1) < (2 :: rat) ^ (k + 1)"
      using ilog2_rat [OF c] by (simp_all only: k_def)
    have "c - 1 < 2 ^ (k + 1)"
      using k(2) by (metis of_int_less_iff of_int_numeral of_int_power)
    then have "c \<le> 2 ^ (k + 1)" by simp
    then have up: "1 / x \<le> 2 ^ (k + 1)" unfolding c_def by (simp add: ceiling_le_iff)
    have "of_int (c - 1) < 1 / x" unfolding c_def using ceiling_correct [of "1 / x"] by simp
    then have low: "2 ^ k < 1 / x" using k(1) by linarith
    have e: "floor_log2 x = - int (k + 1)" using False by (simp add: floor_log2_def k_def c_def)
    have "pow2 (- int (k + 1)) = 1 / 2 ^ (k + 1)" by (simp add: pow2_def nat_add_distrib)
    moreover have "pow2 (- int (k + 1) + 1) = 1 / 2 ^ k" by (simp add: pow2_def)
    moreover have "1 / 2 ^ (k + 1) \<le> x" using up assms by (simp add: field_simps)
    moreover have "x < 1 / 2 ^ k" using low assms by (simp add: field_simps)
    ultimately show ?thesis unfolding e by simp
  qed
  then show "pow2 (floor_log2 x) \<le> x" "x < pow2 (floor_log2 x + 1)" by auto
qed

subsection \<open>Rounding is exact on representable values\<close>

lemma round_half_even_int [simp]: "round_half_even (of_int k) = k"
  by (simp add: round_half_even_def)

lemma round_half_even_error: "\<bar>of_int (round_half_even x) - x\<bar> \<le> 1 / 2"
proof -
  have "of_int \<lfloor>x\<rfloor> \<le> x" "x < of_int \<lfloor>x\<rfloor> + 1" by (simp, linarith)
  then show ?thesis unfolding round_half_even_def Let_def
    by (simp add: abs_le_iff)
qed

lemma round_half_even_bounds:
  "of_int a \<le> x \<Longrightarrow> a \<le> round_half_even x" "x \<le> of_int b \<Longrightarrow> round_half_even x \<le> b"
proof -
  assume "of_int a \<le> x"
  then have "a \<le> \<lfloor>x\<rfloor>" by (simp add: le_floor_iff)
  then show "a \<le> round_half_even x" by (simp add: round_half_even_def Let_def)
next
  assume b: "x \<le> of_int b"
  show "round_half_even x \<le> b"
  proof (cases "x = of_int b")
    case True
    then show ?thesis by simp
  next
    case False
    then have "\<lfloor>x\<rfloor> < b" using b by (simp add: floor_less_iff)
    then show ?thesis by (simp add: round_half_even_def Let_def)
  qed
qed

lemma round_mag_zero [simp]: "round_mag 0 = 0"
  by (simp add: round_mag_def)

lemma round_mag_nonneg: "0 \<le> x \<Longrightarrow> 0 \<le> round_mag x"
  using round_half_even_bounds(1) [of 0 "x / pow2 (ulp_exp x)"]
  by (simp add: round_mag_def order_less_imp_le)

lemma ulp_exp_le:
  assumes "0 < r" and "r = of_nat n * pow2 e" and "n < 2 ^ 53" and "- 1074 \<le> e"
  shows "ulp_exp r \<le> e"
proof -
  have "of_nat n < (2 ^ 53 :: rat)"
    using of_nat_less_iff [THEN iffD2, OF assms(3), where 'a1 = rat] by (simp only: of_nat_power of_nat_numeral)
  then have "r < pow2 53 * pow2 e"
    using assms(2) by (simp add: pow2_def [of 53])
  then have "pow2 (floor_log2 r) < pow2 (53 + e)"
    using floor_log2_bounds(1) [OF assms(1)] by (simp add: pow2_add)
  then have "floor_log2 r < 53 + e" by (simp only: pow2_less_iff)
  then show ?thesis using assms(4) by (simp add: ulp_exp_def)
qed

lemma round_mag_exact:
  assumes "representable r"
  shows "round_mag r = r"
proof (cases "r = 0")
  case False
  from assms obtain n e where r: "r = of_nat n * pow2 e" "n < 2 ^ 53" "- 1074 \<le> e"
    by (auto simp: representable_def)
  have pos: "0 < r" using False r(1) by (simp add: zero_less_mult_iff)
  then have le: "ulp_exp r \<le> e" using ulp_exp_le r by blast
  define d where "d = nat (e - ulp_exp r)"
  have e: "e = ulp_exp r + int d" using le by (simp add: d_def)
  have "r = of_nat n * (pow2 (ulp_exp r) * 2 ^ d)"
    using r(1) arg_cong [OF e, of pow2] by (simp add: pow2_add pow2_nat)
  then have "r / pow2 (ulp_exp r) = of_int (int n * 2 ^ d)"
    by (metis (no_types, lifting) mult.left_commute nonzero_mult_div_cancel_left of_int_mult
        of_int_numeral of_int_of_nat_eq of_int_power pow2_nonzero)
  then have "round_half_even (r / pow2 (ulp_exp r)) = int n * 2 ^ d"
    by (simp only: round_half_even_int)
  then have "round_mag r = (r / pow2 (ulp_exp r)) * pow2 (ulp_exp r)"
    using False \<open>r / pow2 (ulp_exp r) = of_int (int n * 2 ^ d)\<close> by (simp add: round_mag_def)
  then show ?thesis by simp
qed simp

lemma representable_nonneg: "representable r \<Longrightarrow> 0 \<le> r"
  by (auto simp: representable_def order_less_imp_le)

lemma representable_less: "representable r \<Longrightarrow> r < 2 ^ 1024"
proof -
  assume "representable r"
  then obtain n e where r: "r = of_nat n * pow2 e" "n < 2 ^ 53" "e \<le> 971"
    by (auto simp: representable_def)
  have "of_nat n < (2 ^ 53 :: rat)"
    using of_nat_less_iff [THEN iffD2, OF r(2), where 'a1 = rat] by (simp only: of_nat_power of_nat_numeral)
  then have "r < 2 ^ 53 * pow2 e" using r(1) by simp
  also have "\<dots> \<le> 2 ^ 53 * pow2 971" using pow2_mono [OF r(3)] by simp
  also have "\<dots> = 2 ^ 1024" by (simp add: pow2_def)
  finally show ?thesis .
qed

lemma f64_of_rat_exact:
  "representable \<bar>x\<bar> \<Longrightarrow> f64_of_rat z x = Fin (if x = 0 then z else x < 0) \<bar>x\<bar>"
  using representable_less [of "\<bar>x\<bar>"] by (simp add: f64_of_rat_def round_mag_exact Let_def)

text \<open>The result of rounding is representable again.\<close>

lemma ulp_scaled:
  assumes "0 < x"
  shows "x / pow2 (ulp_exp x) < 2 ^ 53"
proof -
  have "x < pow2 (floor_log2 x + 1)" by (rule floor_log2_bounds(2) [OF assms])
  also have "\<dots> \<le> pow2 (ulp_exp x + 53)" by (intro pow2_mono) (simp add: ulp_exp_def)
  finally show ?thesis by (simp add: pow2_add pow2_def [of 53] field_simps)
qed

lemma round_mag_representable:
  assumes "0 \<le> x" and "round_mag x < 2 ^ 1024"
  shows "representable (round_mag x)"
proof (cases "x = 0")
  case True
  then show ?thesis by (auto simp: representable_def intro!: exI [of _ 0])
next
  case False
  then have x: "0 < x" using assms(1) by simp
  define u where "u = ulp_exp x"
  define k where "k = round_half_even (x / pow2 u)"
  have k0: "0 \<le> k"
    unfolding k_def using x by (intro round_half_even_bounds) (simp add: order_less_imp_le)
  have k53: "k \<le> 2 ^ 53"
    unfolding k_def u_def using ulp_scaled [OF x] by (intro round_half_even_bounds) simp
  have r: "round_mag x = of_int k * pow2 u" using False by (simp add: round_mag_def k_def u_def)
  have u: "- 1074 \<le> u" by (simp add: u_def ulp_exp_def)
  have top: "of_int k * pow2 u < pow2 1024" using assms(2) r by (simp add: pow2_def [of 1024])
  show ?thesis
  proof (cases "k = 2 ^ 53")
    case True
    have "pow2 (53 + u) < pow2 1024" using top True by (simp add: pow2_add pow2_def [of 53])
    then have "u + 1 \<le> 971" by (simp only: pow2_less_iff)
    moreover have "round_mag x = of_nat (2 ^ 52) * pow2 (u + 1)"
      using True r by (simp add: pow2_add pow2_def [of 1])
    ultimately show ?thesis using u unfolding representable_def
      by (intro exI [of _ "2 ^ 52 :: nat"] exI [of _ "u + 1"]) simp
  next
    case False
    then have small: "nat k < 2 ^ 53" using k53 k0 by (simp add: nat_less_iff)
    show ?thesis
    proof (cases "u \<le> 971")
      case True
      then show ?thesis using u small r k0 unfolding representable_def
        by (intro exI [of _ "nat k"] exI [of _ u]) simp
    next
      case big: False
      have "pow2 52 * pow2 u \<le> x"
      proof -
        have "floor_log2 x = u + 52" using big by (simp add: u_def ulp_exp_def max_def split: if_splits)
        then show ?thesis using floor_log2_bounds(1) [OF x] by (simp add: pow2_add mult.commute)
      qed
      then have "of_int (2 ^ 52) \<le> x / pow2 u" by (simp add: pow2_def [of 52] field_simps)
      then have "2 ^ 52 \<le> k" unfolding k_def by (rule round_half_even_bounds)
      then have "(2 ^ 52 :: rat) \<le> of_int k" using of_int_le_iff [THEN iffD2, where 'a1 = rat] by fastforce
      then have "pow2 (52 + u) \<le> of_int k * pow2 u" by (simp add: pow2_add pow2_def [of 52])
      then have "pow2 (52 + u) < pow2 1024" using top by simp
      then show ?thesis using big by (simp only: pow2_less_iff)
    qed
  qed
qed

lemma f64_of_rat_wf: "f64_wf (f64_of_rat z x)"
  using round_mag_representable [of "\<bar>x\<bar>"] by (simp add: f64_of_rat_def Let_def not_le)

lemma representable_zero [simp]: "representable 0"
  by (auto simp: representable_def intro!: exI [of _ 0])

lemma f64_arith_wf:
  "f64_wf (f64_add x y)" "f64_wf (f64_mul x y)" "f64_wf (f64_div x y)"
  by (cases x; cases y; simp add: f64_of_rat_wf)+

text \<open>Relative error: rounding moves a value by at most half a unit in the last place.\<close>

lemma round_mag_error: "0 \<le> x \<Longrightarrow> \<bar>round_mag x - x\<bar> \<le> pow2 (ulp_exp x) / 2"
proof -
  assume "0 \<le> x"
  let ?u = "pow2 (ulp_exp x)"
  have "\<bar>of_int (round_half_even (x / ?u)) - x / ?u\<bar> * ?u \<le> 1 / 2 * ?u"
    by (intro mult_right_mono round_half_even_error) (simp add: order_less_imp_le)
  moreover have "\<bar>of_int (round_half_even (x / ?u)) - x / ?u\<bar> * ?u =
      \<bar>of_int (round_half_even (x / ?u)) * ?u - x\<bar>"
  proof -
    have "\<bar>of_int (round_half_even (x / ?u)) - x / ?u\<bar> * ?u =
        \<bar>(of_int (round_half_even (x / ?u)) - x / ?u) * ?u\<bar>"
      by (simp only: abs_mult abs_of_pos [OF pow2_pos])
    then show ?thesis by (simp add: left_diff_distrib)
  qed
  ultimately show ?thesis by (cases "x = 0") (simp_all add: round_mag_def order_less_imp_le)
qed

subsection \<open>Integers below 2^53\<close>

definition MAX_SAFE :: nat where
  "MAX_SAFE = 2 ^ 53 - 1"

definition f64_nat :: "nat \<Rightarrow> f64" where
  "f64_nat n = Fin False (of_nat n)"

lemma representable_nat: "n \<le> MAX_SAFE \<Longrightarrow> representable (of_nat n)"
  unfolding representable_def
  by (intro exI [of _ n] exI [of _ 0]) (simp add: MAX_SAFE_def pow2_def)

lemma f64_of_rat_nat: "n \<le> MAX_SAFE \<Longrightarrow> f64_of_rat False (of_nat n) = f64_nat n"
  using representable_nat [of n] by (simp add: f64_of_rat_exact f64_nat_def)

lemma f64_of_u64_exact: "unat v \<le> MAX_SAFE \<Longrightarrow> f64_of_u64 v = f64_nat (unat v)"
  unfolding f64_of_u64_def by (rule f64_of_rat_nat)

lemma f64_as_u64_nat: "n \<le> MAX_SAFE \<Longrightarrow> unat (f64_as_u64 (f64_nat n)) = n"
proof -
  assume n: "n \<le> MAX_SAFE"
  then have "f64_as_u64 (f64_nat n) = of_nat n"
    by (simp add: f64_nat_def MAX_SAFE_def)
  then show ?thesis using n by (simp add: MAX_SAFE_def unat_of_nat)
qed

lemma f64_add_nat: "m + n \<le> MAX_SAFE \<Longrightarrow> f64_add (f64_nat m) (f64_nat n) = f64_nat (m + n)"
  using f64_of_rat_nat [of "m + n"] by (simp add: f64_nat_def)

lemma f64_nat_order [simp]:
  "f64_lt (f64_nat m) (f64_nat n) \<longleftrightarrow> m < n" "f64_eq (f64_nat m) (f64_nat n) \<longleftrightarrow> m = n"
  "f64_le (f64_nat m) (f64_nat n) \<longleftrightarrow> m \<le> n" "is_finite (f64_nat n)" "\<not> fract_nonzero (f64_nat n)"
  by (auto simp: f64_nat_def f64_le_def)

lemma f64_zero_nat: "f64_zero = f64_nat 0"
  by (simp add: f64_zero_def f64_nat_def)

subsection \<open>Signs\<close>

text \<open>\<open>f64_nonneg\<close>: a finite value that is not below zero.\<close>

definition f64_nonneg :: "f64 \<Rightarrow> bool" where
  "f64_nonneg x \<longleftrightarrow> is_finite x \<and> \<not> f64_lt x f64_zero"

lemma f64_of_rat_sign: "0 \<le> x \<Longrightarrow> f64_of_rat z x = Inf False \<or> f64_nonneg (f64_of_rat z x)"
  using round_mag_nonneg [of x]
  by (auto simp: f64_of_rat_def Let_def f64_nonneg_def f64_zero_def)

lemma representable_le: "representable r \<Longrightarrow> r \<le> 2 ^ 1024 - pow2 971"
proof -
  assume "representable r"
  then obtain n e where r: "r = of_nat n * pow2 e" "n < 2 ^ 53" "e \<le> 971"
    by (auto simp: representable_def)
  have "of_nat n \<le> (of_nat (2 ^ 53 - 1) :: rat)"
    using r(2) by (intro of_nat_mono) simp
  then have "of_nat n \<le> (2 ^ 53 - 1 :: rat)" by simp
  then have "r \<le> (2 ^ 53 - 1) * pow2 971"
    unfolding r(1) by (intro mult_mono pow2_mono r(3) order_less_imp_le [OF pow2_pos]) simp_all
  then show ?thesis by (simp add: pow2_def)
qed

lemma f64_of_rat_finite:
  assumes "0 \<le> x" and "x \<le> r" and "representable r"
  shows "is_finite (f64_of_rat z x)"
proof (cases "x = 0")
  case False
  then have pos: "0 < x" using assms(1) by simp
  have "x < 2 ^ 1024" using representable_less [OF assms(3)] assms(2) by simp
  then have "pow2 (floor_log2 x) < pow2 1024"
    using floor_log2_bounds(1) [OF pos] by (simp add: pow2_def [of 1024])
  then have "ulp_exp x \<le> 971" by (simp add: pow2_less_iff ulp_exp_def)
  then have "pow2 (ulp_exp x) \<le> pow2 971" by (rule pow2_mono)
  then have "round_mag x < x + pow2 971"
    using abs_le_D1 [OF round_mag_error [OF assms(1)]] pow2_pos [of "ulp_exp x"] by linarith
  then have "round_mag x < 2 ^ 1024"
    using representable_le [OF assms(3)] assms(2) by simp
  then show ?thesis using assms(1) by (simp add: f64_of_rat_def Let_def)
qed (simp add: f64_of_rat_def)

lemma f64_of_rat_nonneg:
  assumes "0 \<le> x" and "x \<le> r" and "representable r"
  shows "f64_nonneg (f64_of_rat z x)"
  using f64_of_rat_sign [OF assms(1), of z] f64_of_rat_finite [OF assms, of z] by auto

lemma f64_nonneg_cases: "f64_nonneg x \<longleftrightarrow> (\<exists>s r. x = Fin s r \<and> 0 \<le> f64_val x)"
  by (cases x) (auto simp: f64_nonneg_def f64_zero_def)

lemma f64_nonneg_le: "f64_nonneg x \<longleftrightarrow> is_finite x \<and> f64_le f64_zero x"
  by (cases x) (auto simp: f64_nonneg_def f64_zero_def f64_le_def)

lemma f64_add_nonneg:
  assumes "f64_nonneg x" and "f64_nonneg y"
  shows "f64_add x y = Inf False \<or> f64_nonneg (f64_add x y)"
proof -
  obtain s r t q where "x = Fin s r" "y = Fin t q" "0 \<le> f64_val x" "0 \<le> f64_val y"
    using assms by (auto simp: f64_nonneg_cases simp del: f64_val.simps)
  then have "f64_add x y = f64_of_rat (s \<and> t) (f64_val x + f64_val y)" "0 \<le> f64_val x + f64_val y"
    by (simp_all del: f64_val.simps)
  then show ?thesis using f64_of_rat_sign by simp
qed

lemma f64_mul_nonneg:
  assumes "f64_nonneg x" and "f64_nonneg y"
  shows "f64_mul x y = Inf False \<or> f64_nonneg (f64_mul x y)"
proof -
  obtain s r t q where "x = Fin s r" "y = Fin t q" "0 \<le> f64_val x" "0 \<le> f64_val y"
    using assms by (auto simp: f64_nonneg_cases simp del: f64_val.simps)
  then have "f64_mul x y = f64_of_rat (s \<noteq> t) (f64_val x * f64_val y)" "0 \<le> f64_val x * f64_val y"
    by (simp_all del: f64_val.simps)
  then show ?thesis using f64_of_rat_sign by simp
qed

subsection \<open>Evaluation\<close>

named_theorems f64_eval \<open>equations that evaluate closed floating-point terms by rewriting\<close>

lemma floor_ratio [f64_eval]:
  "\<lfloor>(numeral a :: rat) / numeral b\<rfloor> = numeral a div numeral b"
  "\<lfloor>(1 :: rat) / numeral b\<rfloor> = 1 div numeral b"
  using floor_divide_of_int_eq [where 'a = rat, of "numeral a" "numeral b"]
    floor_divide_of_int_eq [where 'a = rat, of 1 "numeral b"] by simp_all

lemma ceiling_ratio [f64_eval]:
  "\<lceil>(numeral a :: rat) / numeral b\<rceil> = - ((- numeral a) div numeral b)"
  "\<lceil>(1 :: rat) / numeral b\<rceil> = - ((- 1) div numeral b)"
  using floor_divide_of_int_eq [where 'a = rat, of "- numeral a" "numeral b"]
    floor_divide_of_int_eq [where 'a = rat, of "- 1" "numeral b"] by (simp_all add: ceiling_def)

lemmas f64_eval_defs [f64_eval] =
  f64_of_rat_def round_mag_def ulp_exp_def floor_log2_def round_half_even_def pow2_def
  ilog2.simps Let_def

end
