(* ===== verification/Contract_Types.thy ===== *)
theory Contract_Types
  imports Domain F64
begin

section \<open>Contract data\<close>

text \<open>
  The wire types of \<^verbatim>\<open>crates/contracts/src/lib.rs\<close>: source observations, durable records, report
  documents of both versions, and the contract errors.  JSON objects with open keys are
  ordered maps; counters are 64-bit words; JSON numbers are \<open>f64\<close>.
\<close>

subsection \<open>Versions and errors\<close>

definition DURABLE_RECORD_VERSION :: string where
  "DURABLE_RECORD_VERSION = ''agent_observability.v1''"

definition REPORT_DTO_V1_VERSION :: string where
  "REPORT_DTO_V1_VERSION = ''agent_observability.report.v1''"

definition REPORT_DTO_VERSION :: string where
  "REPORT_DTO_VERSION = ''agent_observability.report.v2''"

datatype contract_error =
    ProjectionIdentityMismatch
  | IntegerPrecisionLoss
  | ContractEndBeforeStart
  | InvalidDurableHeader
  | MissingDurableIdentity
  | InvalidReportVersion
  | ContradictoryReportAvailability
  | EmptyOptionalString
  | InvalidCostStatus
  | NonFiniteNumber
  | NegativeMetric
  | InvalidCapabilityManifest
  | InvalidManifestLine nat
  | MissingManifestKey string
  | ManifestMismatch string string string

fun display_contract_error :: "contract_error \<Rightarrow> string" where
  "display_contract_error ProjectionIdentityMismatch =
     ''source observation and domain state do not match''"
| "display_contract_error IntegerPrecisionLoss =
     ''integer cannot be represented exactly by the JSON contract''"
| "display_contract_error ContractEndBeforeStart = ''end time must not precede start time''"
| "display_contract_error InvalidDurableHeader = ''invalid durable record header''"
| "display_contract_error MissingDurableIdentity = ''durable identity fields are required''"
| "display_contract_error InvalidReportVersion = ''invalid report DTO version''"
| "display_contract_error ContradictoryReportAvailability =
     ''report availability contradicts report metrics''"
| "display_contract_error EmptyOptionalString = ''optional contract strings must not be empty''"
| "display_contract_error InvalidCostStatus = ''invalid cost status''"
| "display_contract_error NonFiniteNumber = ''contract numbers must be finite''"
| "display_contract_error NegativeMetric = ''durable metrics must not be negative''"
| "display_contract_error InvalidCapabilityManifest = ''invalid adapter capability manifest''"
| "display_contract_error (InvalidManifestLine line) =
     ''invalid contract manifest line '' @ decimal line"
| "display_contract_error (MissingManifestKey key) = ''missing contract manifest key '' @ key"
| "display_contract_error (ManifestMismatch key expected actual) =
     ''contract manifest '' @ key @ '' expected '' @ expected @ '', received '' @ actual"

subsection \<open>Source observations\<close>

datatype agent_source = Codex | ClaudeCode | Cursor

fun agent_source_as_str :: "agent_source \<Rightarrow> string" where
  "agent_source_as_str Codex = ''codex''"
| "agent_source_as_str ClaudeCode = ''claude-code''"
| "agent_source_as_str Cursor = ''cursor''"

datatype adapter_disposition_kind = Diagnostic | Suppressed

fun adapter_disposition_kind_as_str :: "adapter_disposition_kind \<Rightarrow> string" where
  "adapter_disposition_kind_as_str Diagnostic = ''diagnostic''"
| "adapter_disposition_kind_as_str Suppressed = ''suppressed''"

datatype adapter_disposition_code =
    UnsupportedEvent | UnsupportedEventVariant | MissingCorrelation | InvalidFieldType
  | ContentEventIgnored | PrimarySuperseded | DuplicateObservation | ExpiredTrace

fun adapter_disposition_code_as_str :: "adapter_disposition_code \<Rightarrow> string" where
  "adapter_disposition_code_as_str UnsupportedEvent = ''unsupported_event''"
| "adapter_disposition_code_as_str UnsupportedEventVariant = ''unsupported_event_variant''"
| "adapter_disposition_code_as_str MissingCorrelation = ''missing_correlation''"
| "adapter_disposition_code_as_str InvalidFieldType = ''invalid_field_type''"
| "adapter_disposition_code_as_str ContentEventIgnored = ''content_event_ignored''"
| "adapter_disposition_code_as_str PrimarySuperseded = ''primary_superseded''"
| "adapter_disposition_code_as_str DuplicateObservation = ''duplicate_observation''"
| "adapter_disposition_code_as_str ExpiredTrace = ''expired_trace''"

record source_checkpoint =
  sc_source :: agent_source
  sc_source_generation :: string
  sc_previous_source_cursor :: "string option"
  sc_source_cursor :: string

datatype observation_event =
    SessionEvent "string option" "string option"  \<comment> \<open>model, project\<close>
  | TurnEvent
  | TurnWithProjectEvent string
  | ModelRequestEvent "string option"
  | ToolOperationEvent "string option" "string option"  \<comment> \<open>tool name, phase\<close>
  | PermissionEvent "string option"
  | CompactionEvent "string option"

record source_observation =
  so_source :: agent_source
  so_source_generation :: string
  so_previous_source_cursor :: "string option"
  so_source_cursor :: string
  so_observation_id :: string
  so_trace_id :: string
  so_span_id :: string
  so_parent_span_id :: "string option"
  so_correlation :: correlation_ids
  so_event :: observation_event
  so_lifecycle :: lifecycle_state
  so_timing :: timing
  so_token_usage :: token_usage

subsection \<open>Durable records\<close>

datatype json_value =
    JNull | JBoolean bool | JNumber f64 | JString string
  | JArray "json_value list" | JObject "(string \<times> json_value) list"

datatype scalar_value = SBoolean bool | SNumber f64 | SString string

record agent_v1 =
  ag_name :: "string option"
  ag_version :: "string option"
  ag_model :: "string option"

record project_v1 =
  pj_name :: "string option"
  pj_repo_path :: "string option"

record attributes_v1 =
  at_source :: "scalar_value option"
  at_event_type :: "scalar_value option"
  at_envelope_type :: "scalar_value option"
  at_session_id :: "scalar_value option"
  at_turn_id :: "scalar_value option"
  at_request_id :: "scalar_value option"
  at_call_id :: "scalar_value option"
  at_tool_name :: "scalar_value option"
  at_phase :: "scalar_value option"
  at_exit_code :: "scalar_value option"
  at_sandbox :: "scalar_value option"
  at_approval :: "scalar_value option"
  at_permission_id :: "scalar_value option"
  at_decision :: "scalar_value option"
  at_command_kind :: "scalar_value option"
  at_compaction_id :: "scalar_value option"
  at_trigger :: "scalar_value option"

definition attributes_default :: attributes_v1 where
  "attributes_default = \<lparr>at_source = None, at_event_type = None, at_envelope_type = None,
     at_session_id = None, at_turn_id = None, at_request_id = None, at_call_id = None,
     at_tool_name = None, at_phase = None, at_exit_code = None, at_sandbox = None,
     at_approval = None, at_permission_id = None, at_decision = None, at_command_kind = None,
     at_compaction_id = None, at_trigger = None\<rparr>"

record metrics_v1 =
  mt_input_tokens :: "f64 option"
  mt_output_tokens :: "f64 option"
  mt_cached_input_tokens :: "f64 option"
  mt_cache_creation_input_tokens :: "f64 option"
  mt_reasoning_output_tokens :: "f64 option"
  mt_total_tokens :: "f64 option"
  mt_total_input_tokens :: "f64 option"
  mt_total_output_tokens :: "f64 option"
  mt_total_cached_input_tokens :: "f64 option"
  mt_total_reasoning_output_tokens :: "f64 option"
  mt_total_accumulated_tokens :: "f64 option"
  mt_context_window_tokens :: "f64 option"
  mt_input_tokens_before :: "f64 option"
  mt_input_tokens_after :: "f64 option"
  mt_latency_ms :: "f64 option"
  mt_duration_ms :: "f64 option"

record content_v1 =
  ct_prompt :: "json_value option"
  ct_output :: "json_value option"
  ct_tool_input :: "json_value option"
  ct_tool_output :: "json_value option"

definition content_default :: content_v1 where
  "content_default = \<lparr>ct_prompt = None, ct_output = None, ct_tool_input = None, ct_tool_output = None\<rparr>"

record redaction_v1 =
  rd_applied :: bool
  rd_count :: u64
  rd_fields :: "string list"

record durable_record =
  dr_schema_version :: string
  dr_record_type :: string
  dr_trace_id :: string
  dr_span_id :: string
  dr_parent_span_id :: "string option"
  dr_span_kind :: span_kind
  dr_name :: string
  dr_start_time_unix_ms :: f64
  dr_end_time_unix_ms :: "f64 option"
  dr_status :: status_code
  dr_agent :: agent_v1
  dr_project :: project_v1
  dr_attributes :: attributes_v1
  dr_metrics :: metrics_v1
  dr_content :: content_v1
  dr_redaction :: redaction_v1

subsection \<open>Report documents\<close>

record report_summary =
  su_generated_spans :: u64
  su_sessions :: u64
  su_turns :: u64
  su_llm_requests :: u64
  su_tool_executions :: u64
  su_errors :: u64
  su_input_tokens :: u64
  su_output_tokens :: u64
  su_cached_input_tokens :: u64
  su_cache_creation_input_tokens :: u64
  su_reasoning_output_tokens :: u64
  su_latency_ms :: u64
  su_duration_ms :: u64
  su_estimated_cost :: f64

record report_filters =
  fl_repos :: "string list"
  fl_sessions :: "string list"
  fl_turns :: "string list"
  fl_agents :: "string list"
  fl_models :: "string list"

record cost_component =
  cc_tokens :: f64
  cc_rate_per_1m :: f64
  cc_estimated_cost :: f64

record cost_detail =
  cd_assumption :: string
  cd_incomplete_count :: "u64 option"
  cd_unknown_count :: "u64 option"
  cd_missing :: "string list"
  cd_semantic_errors :: "string list"
  cd_components :: "(string, cost_component) btree"

record rate_table_ref =
  rr_version :: "string option"
  rr_unit :: "string option"

record cost_estimate =
  ce_status :: string
  ce_reason :: "string option"
  ce_estimated_cost :: "f64 option"
  ce_currency :: "string option"
  ce_model :: "string option"
  ce_rate_table :: rate_table_ref
  ce_cost :: cost_detail

record report_metrics =
  rm_input_tokens :: "f64 option"
  rm_output_tokens :: "f64 option"
  rm_cached_input_tokens :: "f64 option"
  rm_cache_creation_input_tokens :: "f64 option"
  rm_reasoning_output_tokens :: "f64 option"
  rm_total_tokens :: "f64 option"
  rm_latency_ms :: "f64 option"
  rm_duration_ms :: "f64 option"
  rm_total_input_tokens :: "f64 option"
  rm_total_output_tokens :: "f64 option"
  rm_total_cached_input_tokens :: "f64 option"
  rm_total_reasoning_output_tokens :: "f64 option"
  rm_total_accumulated_tokens :: "f64 option"
  rm_context_window_tokens :: "f64 option"

record report_agent =
  ra_name :: "string option"
  ra_model :: "string option"
  ra_version :: "string option"

datatype availability_state =
  Available | SourceUnavailable | Withheld | NotApplicable | PrivateLookup

record field_availability =
  fa_state :: availability_state
  fa_reason :: string

record report_availability =
  av_repository :: field_availability
  av_turn :: field_availability
  av_model :: field_availability
  av_tokens :: field_availability
  av_latency :: field_availability
  av_source_location :: field_availability
  av_request_content :: field_availability
  av_response_content :: field_availability

record report_attributes =
  rt_source :: "scalar_value option"
  rt_event_type :: "scalar_value option"
  rt_envelope_type :: "scalar_value option"
  rt_session_id :: "scalar_value option"
  rt_turn_id :: "scalar_value option"
  rt_request_id :: "scalar_value option"
  rt_call_id :: "scalar_value option"
  rt_tool_name :: "scalar_value option"
  rt_phase :: "scalar_value option"
  rt_exit_code :: "scalar_value option"
  rt_sandbox :: "scalar_value option"
  rt_approval :: "scalar_value option"

record report_span_v2 =
  sp_schema_version :: string
  sp_trace_id :: string
  sp_span_id :: string
  sp_parent_span_id :: "string option"
  sp_kind :: span_kind
  sp_name :: string
  sp_status :: status_code
  sp_start_time_unix_ms :: f64
  sp_end_time_unix_ms :: "f64 option"
  sp_repo :: string
  sp_agent :: report_agent
  sp_availability :: report_availability
  sp_session_id :: "string option"
  sp_turn_id :: "string option"
  sp_tool_name :: "string option"
  sp_attributes :: report_attributes
  sp_metrics :: report_metrics
  sp_estimated_cost :: "f64 option"
  sp_cost :: cost_estimate

record report_span_v1 =
  sv_schema_version :: string
  sv_trace_id :: string
  sv_span_id :: string
  sv_parent_span_id :: "string option"
  sv_kind :: span_kind
  sv_name :: string
  sv_status :: status_code
  sv_start_time_unix_ms :: f64
  sv_end_time_unix_ms :: "f64 option"
  sv_repo :: string
  sv_agent :: report_agent
  sv_session_id :: "string option"
  sv_turn_id :: "string option"
  sv_tool_name :: "string option"
  sv_attributes :: report_attributes
  sv_metrics :: report_metrics
  sv_estimated_cost :: "f64 option"
  sv_cost :: cost_estimate

record trace_summary =
  ts_trace_id :: string
  ts_repo :: string
  ts_spans :: u64
  ts_errors :: u64
  ts_input_tokens :: u64
  ts_output_tokens :: u64
  ts_estimated_cost :: f64
  ts_start_time_unix_ms :: f64
  ts_end_time_unix_ms :: "f64 option"
  ts_sessions :: "string list"
  ts_turns :: "string list"

record report_dto_v1 =
  r1_schema_version :: string
  r1_generated_at :: string
  r1_title :: string
  r1_summary :: report_summary
  r1_cost :: cost_estimate
  r1_filters :: report_filters
  r1_traces :: "trace_summary list"
  r1_spans :: "report_span_v1 list"

record report_dto_v2 =
  r2_schema_version :: string
  r2_generated_at :: string
  r2_title :: string
  r2_summary :: report_summary
  r2_cost :: cost_estimate
  r2_filters :: report_filters
  r2_traces :: "trace_summary list"
  r2_spans :: "report_span_v2 list"

subsection \<open>Wire names of the enumerations\<close>

fun span_kind_to_wire :: "span_kind \<Rightarrow> string" where
  "span_kind_to_wire Workstream = ''workstream''"
| "span_kind_to_wire AgentSession = ''agent.session''"
| "span_kind_to_wire Turn = ''turn''"
| "span_kind_to_wire LlmRequest = ''llm.request''"
| "span_kind_to_wire ToolExecution = ''tool.execution''"
| "span_kind_to_wire Permission = ''permission''"
| "span_kind_to_wire Compaction = ''compaction''"

definition span_kind_from_wire :: "string \<Rightarrow> span_kind option" where
  "span_kind_from_wire s =
     (if s = ''workstream'' then Some Workstream
      else if s = ''agent.session'' then Some AgentSession
      else if s = ''turn'' then Some Turn
      else if s = ''llm.request'' then Some LlmRequest
      else if s = ''tool.execution'' then Some ToolExecution
      else if s = ''permission'' then Some Permission
      else if s = ''compaction'' then Some Compaction
      else None)"

fun status_code_to_wire :: "status_code \<Rightarrow> string" where
  "status_code_to_wire StatusUnset = ''unset''"
| "status_code_to_wire StatusOk = ''ok''"
| "status_code_to_wire StatusError = ''error''"

definition status_code_from_wire :: "string \<Rightarrow> status_code option" where
  "status_code_from_wire s =
     (if s = ''unset'' then Some StatusUnset
      else if s = ''ok'' then Some StatusOk
      else if s = ''error'' then Some StatusError
      else None)"

lemma span_kind_wire_roundtrip: "span_kind_from_wire w = Some k \<longleftrightarrow> w = span_kind_to_wire k"
  by (cases k) (auto simp: span_kind_from_wire_def)

lemma status_code_wire_roundtrip: "status_code_from_wire w = Some c \<longleftrightarrow> w = status_code_to_wire c"
  by (cases c) (auto simp: status_code_from_wire_def)

end
