(* ===== verification/Privacy.thy ===== *)
theory Privacy
  imports Contract_Types
begin

section \<open>The privacy boundary of durable records\<close>

text \<open>
  \<^verbatim>\<open>hash_opaque_identifier\<close>, \<^verbatim>\<open>redact_sensitive_text\<close> and \<^verbatim>\<open>sanitize_owned_durable_record\<close> of
  \<^verbatim>\<open>crates/contracts/src/lib.rs\<close>.  The digest of the sha2 crate is the parameter \<open>sha\<close>; its hexadecimal
  rendering is modelled.  Text is UTF-8 bytes, so control characters and white space beyond
  ASCII are recognised by their encodings.
\<close>

subsection \<open>Opaque identifiers\<close>

type_synonym digest = "string \<Rightarrow> u8 list"

definition hex_digit :: "nat \<Rightarrow> char" where
  "hex_digit n = (if n < 10 then char_of (48 + n) else char_of (87 + n))"

definition hex_byte :: "u8 \<Rightarrow> string" where
  "hex_byte b = [hex_digit (unat b div 16), hex_digit (unat b mod 16)]"

definition hex :: "u8 list \<Rightarrow> string" where
  "hex bs = concat (map hex_byte bs)"

definition ID_PREFIX :: string where
  "ID_PREFIX = ''id:sha256:''"

definition hash_opaque_identifier :: "digest \<Rightarrow> string \<Rightarrow> string" where
  "hash_opaque_identifier sha value =
     (if starts_with value ID_PREFIX then value else ID_PREFIX @ hex (sha value))"

subsection \<open>Redaction of free text\<close>

definition contains_any :: "string list \<Rightarrow> string \<Rightarrow> bool" where
  "contains_any patterns s = list_ex (contains s) patterns"

fun has_control :: "string \<Rightarrow> bool" where
  "has_control [] = False"
| "has_control (c # s) =
     (byte_of c < 32 \<or> byte_of c = 127 \<or>
      (byte_of c = 194 \<and> (case s of [] \<Rightarrow> False | d # _ \<Rightarrow> 128 \<le> byte_of d \<and> byte_of d \<le> 159)) \<or>
      has_control s)"

text \<open>The length in bytes of the Unicode white-space character a string starts with, or 0.\<close>

fun ws_bytes :: "nat list \<Rightarrow> nat" where
  "ws_bytes bs = (case bs of
       [] \<Rightarrow> 0
     | a # bs1 \<Rightarrow>
         if (9 \<le> a \<and> a \<le> 13) \<or> a = 32 then 1
         else case bs1 of
           [] \<Rightarrow> 0
         | b # bs2 \<Rightarrow>
             if a = 194 \<and> (b = 133 \<or> b = 160) then 2
             else case bs2 of
               [] \<Rightarrow> 0
             | c # _ \<Rightarrow>
                 if (a = 225 \<and> b = 154 \<and> c = 128) \<or>
                    (a = 226 \<and> b = 128 \<and> (128 \<le> c \<and> c \<le> 138 \<or> c = 168 \<or> c = 169 \<or> c = 175)) \<or>
                    (a = 226 \<and> b = 129 \<and> c = 159) \<or>
                    (a = 227 \<and> b = 128 \<and> c = 128)
                 then 3 else 0)"

declare ws_bytes.simps [simp del]

definition ws_len :: "string \<Rightarrow> nat" where
  "ws_len s = ws_bytes (map byte_of (take 3 s))"

definition flush_word :: "string \<Rightarrow> string list" where
  "flush_word cur = (if cur = [] then [] else [rev cur])"

function split_ws :: "string \<Rightarrow> string \<Rightarrow> string list" where
  "split_ws cur [] = flush_word cur"
| "split_ws cur (c # s) =
     (if ws_len (c # s) = 0 then split_ws (c # cur) s
      else flush_word cur @ split_ws [] (drop (ws_len (c # s) - 1) s))"
  by pat_completeness auto
termination
  by (relation "measure (\<lambda>(cur, s). length s)") auto

definition split_whitespace :: "string \<Rightarrow> string list" where
  "split_whitespace s = split_ws [] s"

fun join_words :: "string list \<Rightarrow> string" where
  "join_words [] = []"
| "join_words [w] = w"
| "join_words (w # v # ws) = w @ '' '' @ join_words (v # ws)"

text \<open>\<^verbatim>\<open>Path::extension\<close> on Unix paths.\<close>

fun split_at :: "char \<Rightarrow> string \<Rightarrow> string \<Rightarrow> string list" where
  "split_at d cur [] = [rev cur]"
| "split_at d cur (c # s) = (if c = d then rev cur # split_at d [] s else split_at d (c # cur) s)"

definition path_components :: "string \<Rightarrow> string list" where
  "path_components s = filter (\<lambda>c. c \<noteq> [] \<and> c \<noteq> ''.'') (split_at (CHR ''/'') [] s)"

definition file_name :: "string \<Rightarrow> string option" where
  "file_name s = (case rev (path_components s) of
       [] \<Rightarrow> None
     | c # _ \<Rightarrow> if c = ''..'' then None else Some c)"

definition extension :: "string \<Rightarrow> string option" where
  "extension s = Option.bind (file_name s) (\<lambda>n.
     let after = rev (takeWhile (\<lambda>c. c \<noteq> CHR ''.'') (rev n));
         rest = dropWhile (\<lambda>c. c \<noteq> CHR ''.'') (rev n)
     in if rest = [] \<or> tl rest = [] then None else Some after)"

definition SENSITIVE_KEYS :: "string list" where
  "SENSITIVE_KEYS = [''authorization'', ''cookie'', ''credential'', ''password'', ''passwd'',
     ''secret'', ''token'', ''api_key'', ''access_key'', ''private_key'', ''refresh_token'',
     ''session_key'']"

definition SECRET_WORDS :: "string list" where
  "SECRET_WORDS = [''authorization'', ''cookie'', ''password'', ''passwd'', ''secret'', ''token'',
     ''id_token'', ''api_key'', ''api-key'', ''access_token'', ''refresh_token'']"

definition SECRET_PATTERNS :: "string list" where
  "SECRET_PATTERNS = [''authorization:'', ''authorization='', ''cookie:'', ''cookie='',
     ''password='', ''password:'', ''passwd='', ''secret='', ''secret:'', ''api_key='',
     ''api-key='', ''access_token='', ''refresh_token='', ''private key'']"

definition secret_text :: "string \<Rightarrow> string \<Rightarrow> bool" where
  "secret_text value key =
     (let lower = to_ascii_lowercase value;
          normalized_whitespace = join_words (split_whitespace lower)
      in contains_any SENSITIVE_KEYS key \<or>
         (contains_any SECRET_WORDS lower \<and> (CHR ''='' \<in> set lower \<or> CHR '':'' \<in> set lower)) \<or>
         has_control value \<or>
         contains_any SECRET_PATTERNS lower \<or>
         contains normalized_whitespace ''bearer '')"

definition path_text :: "string \<Rightarrow> string \<Rightarrow> bool" where
  "path_text value key =
     (let lower = to_ascii_lowercase value;
          sensitive_extension = (case extension lower of
              None \<Rightarrow> False
            | Some e \<Rightarrow> e = ''pem'' \<or> e = ''key'')
      in lower = ''.env'' \<or> starts_with lower ''.env.'' \<or> contains lower ''/.env'' \<or>
         sensitive_extension \<or> contains lower ''.pem '' \<or> contains lower ''.key '' \<or>
         contains lower ''.tfstate'' \<or> contains lower ''.tfvars'' \<or>
         (contains key ''path'' \<and> (CHR ''/'' \<in> set value \<or> CHR 0x5C \<in> set value)))"

definition redact_sensitive_text :: "string \<Rightarrow> string \<Rightarrow> string" where
  "redact_sensitive_text value key =
     (let key' = to_ascii_lowercase key
      in if secret_text value key' then ''[redacted]''
         else if path_text value key' then ''[redacted path]''
         else value)"

subsection \<open>Sanitizing a record\<close>

text \<open>
  A sanitizing step rewrites one component of the record and appends the name of the field to
  the log when the value changed.
\<close>

definition edit ::
  "('r \<Rightarrow> 'a) \<Rightarrow> (('a \<Rightarrow> 'a) \<Rightarrow> 'r \<Rightarrow> 'r) \<Rightarrow> ('a \<times> string list \<Rightarrow> 'a \<times> string list)
   \<Rightarrow> 'r \<times> string list \<Rightarrow> 'r \<times> string list" where
  "edit get put f rf =
     (let vf = f (get (fst rf), snd rf) in (put (\<lambda>_. fst vf) (fst rf), snd vf))"

definition hash_record_id :: "digest \<Rightarrow> string \<Rightarrow> string \<times> string list \<Rightarrow> string \<times> string list" where
  "hash_record_id sha field vf =
     (let hashed = hash_opaque_identifier sha (fst vf)
      in if hashed \<noteq> fst vf then (hashed, snd vf @ [field]) else vf)"

definition hash_parent_id ::
  "digest \<Rightarrow> string \<Rightarrow> string option \<times> string list \<Rightarrow> string option \<times> string list" where
  "hash_parent_id sha field vf = (case fst vf of
       None \<Rightarrow> vf
     | Some parent \<Rightarrow>
         (let pf = hash_record_id sha field (parent, snd vf) in (Some (fst pf), snd pf)))"

definition sanitize_optional_text ::
  "string \<Rightarrow> string option \<times> string list \<Rightarrow> string option \<times> string list" where
  "sanitize_optional_text key vf = (case fst vf of
       None \<Rightarrow> vf
     | Some current \<Rightarrow>
         (let safe = redact_sensitive_text current key
          in if safe \<noteq> current then (Some safe, snd vf @ [key]) else vf))"

definition ID_KEYS :: "string list" where
  "ID_KEYS = [''session_id'', ''turn_id'', ''request_id'', ''call_id'', ''permission_id'',
     ''compaction_id'']"

definition sanitize_scalar ::
  "digest \<Rightarrow> string \<Rightarrow> scalar_value option \<times> string list \<Rightarrow> scalar_value option \<times> string list" where
  "sanitize_scalar sha key vf = (case fst vf of
       Some (SString current) \<Rightarrow>
         (let safe = (if key \<in> set ID_KEYS then hash_opaque_identifier sha current
                      else redact_sensitive_text current key)
          in if safe \<noteq> current then (Some (SString safe), snd vf @ [''attributes.'' @ key]) else vf)
     | _ \<Rightarrow> vf)"

definition sanitize_attributes ::
  "digest \<Rightarrow> attributes_v1 \<times> string list \<Rightarrow> attributes_v1 \<times> string list" where
  "sanitize_attributes sha =
     edit at_trigger at_trigger_update (sanitize_scalar sha ''trigger'') \<circ>
     edit at_compaction_id at_compaction_id_update (sanitize_scalar sha ''compaction_id'') \<circ>
     edit at_command_kind at_command_kind_update (sanitize_scalar sha ''command_kind'') \<circ>
     edit at_decision at_decision_update (sanitize_scalar sha ''decision'') \<circ>
     edit at_permission_id at_permission_id_update (sanitize_scalar sha ''permission_id'') \<circ>
     edit at_approval at_approval_update (sanitize_scalar sha ''approval'') \<circ>
     edit at_sandbox at_sandbox_update (sanitize_scalar sha ''sandbox'') \<circ>
     edit at_exit_code at_exit_code_update (sanitize_scalar sha ''exit_code'') \<circ>
     edit at_phase at_phase_update (sanitize_scalar sha ''phase'') \<circ>
     edit at_tool_name at_tool_name_update (sanitize_scalar sha ''tool_name'') \<circ>
     edit at_call_id at_call_id_update (sanitize_scalar sha ''call_id'') \<circ>
     edit at_request_id at_request_id_update (sanitize_scalar sha ''request_id'') \<circ>
     edit at_turn_id at_turn_id_update (sanitize_scalar sha ''turn_id'') \<circ>
     edit at_session_id at_session_id_update (sanitize_scalar sha ''session_id'') \<circ>
     edit at_envelope_type at_envelope_type_update (sanitize_scalar sha ''envelope_type'') \<circ>
     edit at_event_type at_event_type_update (sanitize_scalar sha ''event_type'') \<circ>
     edit at_source at_source_update (sanitize_scalar sha ''source'')"

definition sanitize_agent :: "agent_v1 \<times> string list \<Rightarrow> agent_v1 \<times> string list" where
  "sanitize_agent =
     edit ag_model ag_model_update (sanitize_optional_text ''agent.model'') \<circ>
     edit ag_version ag_version_update (sanitize_optional_text ''agent.version'') \<circ>
     edit ag_name ag_name_update (sanitize_optional_text ''agent.name'')"

definition sanitize_project :: "project_v1 \<times> string list \<Rightarrow> project_v1 \<times> string list" where
  "sanitize_project =
     edit pj_repo_path pj_repo_path_update (sanitize_optional_text ''project.repo_path'') \<circ>
     edit pj_name pj_name_update (sanitize_optional_text ''project.name'')"

definition sanitize_name :: "string \<times> string list \<Rightarrow> string \<times> string list" where
  "sanitize_name vf =
     (let safe_name = redact_sensitive_text (fst vf) ''name''
      in if safe_name \<noteq> fst vf then (safe_name, snd vf @ [''name'']) else vf)"

definition sanitize_content :: "content_v1 \<times> string list \<Rightarrow> content_v1 \<times> string list" where
  "sanitize_content cf =
     (let c = fst cf
      in (content_default,
          snd cf @ map snd (filter fst
            [(ct_prompt c \<noteq> None, ''content.prompt''), (ct_output c \<noteq> None, ''content.output''),
             (ct_tool_input c \<noteq> None, ''content.tool_input''),
             (ct_tool_output c \<noteq> None, ''content.tool_output'')])))"

definition sanitize_fields :: "digest \<Rightarrow> durable_record \<times> string list \<Rightarrow> durable_record \<times> string list" where
  "sanitize_fields sha =
     edit dr_content dr_content_update sanitize_content \<circ>
     edit dr_name dr_name_update sanitize_name \<circ>
     edit dr_attributes dr_attributes_update (sanitize_attributes sha) \<circ>
     edit dr_project dr_project_update sanitize_project \<circ>
     edit dr_agent dr_agent_update sanitize_agent \<circ>
     edit dr_parent_span_id dr_parent_span_id_update (hash_parent_id sha ''parent_span_id'') \<circ>
     edit dr_span_id dr_span_id_update (hash_record_id sha ''span_id'') \<circ>
     edit dr_trace_id dr_trace_id_update (hash_record_id sha ''trace_id'')"

definition note_redaction :: "string list \<Rightarrow> redaction_v1 \<Rightarrow> redaction_v1" where
  "note_redaction logged rd =
     \<lparr>rd_applied = (rd_applied rd \<or> logged \<noteq> []),
      rd_count = saturating_add (rd_count rd) (word_of_nat (length logged)),
      rd_fields = remdups_adj (sort (rd_fields rd @ logged))\<rparr>"

definition sanitize_unchecked :: "digest \<Rightarrow> durable_record \<Rightarrow> durable_record" where
  "sanitize_unchecked sha record =
     (let rf = sanitize_fields sha (record, [])
      in dr_redaction_update (note_redaction (snd rf)) (fst rf))"

end
