(* ===== verification/Durable_Contract.thy ===== *)
theory Durable_Contract
  imports Privacy
begin

section \<open>The durable record contract\<close>

text \<open>
  Validation and sanitization of durable records and the projection of source observations
  into them (\<^verbatim>\<open>crates/contracts/src/lib.rs\<close>): \<^verbatim>\<open>DurableRecordV1::validate\<close>,
  \<^verbatim>\<open>sanitize_durable_record\<close>, \<^verbatim>\<open>project_durable_record\<close> and their helpers.
\<close>

subsection \<open>Validation\<close>

definition validate_finite :: "f64 \<Rightarrow> contract_error + unit" where
  "validate_finite value = (if is_finite value then Inr () else Inl NonFiniteNumber)"

definition validate_nonnegative_finite :: "f64 \<Rightarrow> contract_error + unit" where
  "validate_nonnegative_finite value =
     bind_result (validate_finite value) (\<lambda>_.
       if f64_lt value f64_zero then Inl NegativeMetric else Inr ())"

definition validate_optional_nonempty :: "string option \<Rightarrow> contract_error + unit" where
  "validate_optional_nonempty value = (if value = Some [] then Inl EmptyOptionalString else Inr ())"

fun validate_scalar :: "scalar_value \<Rightarrow> contract_error + unit" where
  "validate_scalar (SNumber number) = validate_finite number"
| "validate_scalar _ = Inr ()"

function validate_json_value :: "json_value \<Rightarrow> contract_error + unit"
  and validate_json_values :: "json_value list \<Rightarrow> contract_error + unit"
  and validate_json_members :: "(string \<times> json_value) list \<Rightarrow> contract_error + unit" where
  "validate_json_value (JNumber number) = validate_finite number"
| "validate_json_value (JArray values) = validate_json_values values"
| "validate_json_value (JObject members) = validate_json_members members"
| "validate_json_value JNull = Inr ()"
| "validate_json_value (JBoolean b) = Inr ()"
| "validate_json_value (JString s) = Inr ()"
| "validate_json_values [] = Inr ()"
| "validate_json_values (v # vs) = bind_result (validate_json_value v) (\<lambda>_. validate_json_values vs)"
| "validate_json_members [] = Inr ()"
| "validate_json_members ((k, v) # ms) = bind_result (validate_json_value v) (\<lambda>_. validate_json_members ms)"
  by pat_completeness auto
termination
  by (relation "measure (\<lambda>x. case x of Inl v \<Rightarrow> size v
      | Inr (Inl vs) \<Rightarrow> size_list size vs
      | Inr (Inr ms) \<Rightarrow> size_list (size_prod (\<lambda>_. 0) size) ms)") auto

definition attribute_values :: "attributes_v1 \<Rightarrow> scalar_value option list" where
  "attribute_values a =
     [at_source a, at_event_type a, at_envelope_type a, at_session_id a, at_turn_id a,
      at_request_id a, at_call_id a, at_tool_name a, at_phase a, at_exit_code a, at_sandbox a,
      at_approval a, at_permission_id a, at_decision a, at_command_kind a, at_compaction_id a,
      at_trigger a]"

definition validate_attributes :: "attributes_v1 \<Rightarrow> contract_error + unit" where
  "validate_attributes a = try_all validate_scalar (present (attribute_values a))"

definition metric_values :: "metrics_v1 \<Rightarrow> f64 option list" where
  "metric_values m =
     [mt_input_tokens m, mt_output_tokens m, mt_cached_input_tokens m,
      mt_cache_creation_input_tokens m, mt_reasoning_output_tokens m, mt_total_tokens m,
      mt_total_input_tokens m, mt_total_output_tokens m, mt_total_cached_input_tokens m,
      mt_total_reasoning_output_tokens m, mt_total_accumulated_tokens m,
      mt_context_window_tokens m, mt_input_tokens_before m, mt_input_tokens_after m,
      mt_latency_ms m, mt_duration_ms m]"

definition validate_metrics :: "metrics_v1 \<Rightarrow> contract_error + unit" where
  "validate_metrics m = try_all validate_nonnegative_finite (present (metric_values m))"

definition validate_durable_record :: "durable_record \<Rightarrow> contract_error + unit" where
  "validate_durable_record r =
     (if dr_schema_version r \<noteq> DURABLE_RECORD_VERSION \<or> dr_record_type r \<noteq> ''span''
        then Inl InvalidDurableHeader
      else if dr_trace_id r = [] \<or> dr_span_id r = [] \<or> dr_name r = [] then Inl MissingDurableIdentity
      else
        bind_result (validate_finite (dr_start_time_unix_ms r)) (\<lambda>_.
        bind_result (try_all validate_finite (present [dr_end_time_unix_ms r])) (\<lambda>_.
        if (case dr_end_time_unix_ms r of None \<Rightarrow> False
            | Some end_ms \<Rightarrow> f64_lt end_ms (dr_start_time_unix_ms r)) then Inl ContractEndBeforeStart
        else
        bind_result (validate_optional_nonempty (dr_parent_span_id r)) (\<lambda>_.
        bind_result (try_all validate_optional_nonempty
          [ag_name (dr_agent r), ag_version (dr_agent r), ag_model (dr_agent r),
           pj_name (dr_project r), pj_repo_path (dr_project r)]) (\<lambda>_.
        bind_result (validate_attributes (dr_attributes r)) (\<lambda>_.
        bind_result (validate_metrics (dr_metrics r)) (\<lambda>_.
        try_all validate_json_value (present [ct_prompt (dr_content r), ct_output (dr_content r),
          ct_tool_input (dr_content r), ct_tool_output (dr_content r)]))))))))"

definition sanitize_owned_durable_record :: "digest \<Rightarrow> durable_record \<Rightarrow> contract_error + durable_record" where
  "sanitize_owned_durable_record sha record =
     (let record' = sanitize_unchecked sha record
      in bind_result (validate_durable_record record') (\<lambda>_. Inr record'))"

definition sanitize_durable_record :: "digest \<Rightarrow> durable_record \<Rightarrow> contract_error + durable_record" where
  "sanitize_durable_record sha input = sanitize_owned_durable_record sha input"

subsection \<open>Projection of an observation\<close>

fun source_name :: "agent_source \<Rightarrow> string" where
  "source_name Codex = ''codex''"
| "source_name ClaudeCode = ''claude-code''"
| "source_name Cursor = ''cursor''"

text \<open>Event type, span name, model, project.\<close>

fun event_projection ::
  "observation_event \<Rightarrow> string \<times> string \<times> string option \<times> string option" where
  "event_projection (SessionEvent model project) = (''session'', ''session'', model, project)"
| "event_projection TurnEvent = (''turn'', ''turn'', None, None)"
| "event_projection (TurnWithProjectEvent project) = (''turn'', ''turn'', None, Some project)"
| "event_projection (ModelRequestEvent model) = (''model_request'', ''llm.request'', model, None)"
| "event_projection (ToolOperationEvent _ _) = (''tool_operation'', ''tool.execution'', None, None)"
| "event_projection (PermissionEvent _) = (''permission'', ''permission'', None, None)"
| "event_projection (CompactionEvent _) = (''compaction'', ''compaction'', None, None)"

fun kind_for_event :: "observation_event \<Rightarrow> span_kind" where
  "kind_for_event (SessionEvent _ _) = AgentSession"
| "kind_for_event TurnEvent = Turn"
| "kind_for_event (TurnWithProjectEvent _) = Turn"
| "kind_for_event (ModelRequestEvent _) = LlmRequest"
| "kind_for_event (ToolOperationEvent _ _) = ToolExecution"
| "kind_for_event (PermissionEvent _) = Permission"
| "kind_for_event (CompactionEvent _) = Compaction"

fun status_for_lifecycle :: "lifecycle_state \<Rightarrow> status_code" where
  "status_for_lifecycle Observed = StatusUnset"
| "status_for_lifecycle Running = StatusUnset"
| "status_for_lifecycle Completed = StatusOk"
| "status_for_lifecycle Failed = StatusError"
| "status_for_lifecycle Interrupted = StatusError"

definition exact_json_integer :: "u64 \<Rightarrow> contract_error + f64" where
  "exact_json_integer value =
     (if value > push_bit 53 1 - 1 then Inl IntegerPrecisionLoss else Inr (f64_of_u64 value))"

definition metrics_from_usage :: "token_usage \<Rightarrow> contract_error + metrics_v1" where
  "metrics_from_usage u =
     bind_result (try_option exact_json_integer (tu_input u)) (\<lambda>input.
     bind_result (try_option exact_json_integer (tu_output u)) (\<lambda>output.
     bind_result (try_option exact_json_integer (tu_cached_input u)) (\<lambda>cached.
     bind_result (try_option exact_json_integer (tu_cache_creation_input u)) (\<lambda>creation.
     bind_result (try_option exact_json_integer (tu_reasoning_output u)) (\<lambda>reasoning.
     bind_result (try_option exact_json_integer (tu_total u)) (\<lambda>total.
     bind_result (try_option exact_json_integer (tu_total_input u)) (\<lambda>total_input.
     bind_result (try_option exact_json_integer (tu_total_output u)) (\<lambda>total_output.
     bind_result (try_option exact_json_integer (tu_total_cached_input u)) (\<lambda>total_cached.
     bind_result (try_option exact_json_integer (tu_total_reasoning_output u)) (\<lambda>total_reasoning.
     bind_result (try_option exact_json_integer (tu_total_accumulated u)) (\<lambda>accumulated.
     bind_result (try_option exact_json_integer (tu_context_window u)) (\<lambda>window.
     bind_result (try_option exact_json_integer (tu_input_before u)) (\<lambda>before.
     bind_result (try_option exact_json_integer (tu_input_after u)) (\<lambda>after.
     Inr \<lparr>mt_input_tokens = input, mt_output_tokens = output, mt_cached_input_tokens = cached,
       mt_cache_creation_input_tokens = creation, mt_reasoning_output_tokens = reasoning,
       mt_total_tokens = total, mt_total_input_tokens = total_input,
       mt_total_output_tokens = total_output, mt_total_cached_input_tokens = total_cached,
       mt_total_reasoning_output_tokens = total_reasoning,
       mt_total_accumulated_tokens = accumulated, mt_context_window_tokens = window,
       mt_input_tokens_before = before, mt_input_tokens_after = after,
       mt_latency_ms = None, mt_duration_ms = None\<rparr>))))))))))))))"

definition project_attributes :: "source_observation \<Rightarrow> span_state \<Rightarrow> attributes_v1" where
  "project_attributes observation state =
     (let c = s_correlation state;
          attributes = attributes_default\<lparr>
            at_source := Some (SString (source_name (so_source observation))),
            at_event_type := Some (SString (fst (event_projection (so_event observation)))),
            at_session_id := map_option SString (c_session_id c),
            at_turn_id := map_option SString (c_turn_id c),
            at_request_id := map_option SString (c_request_id c),
            at_call_id := map_option SString (c_operation_id c),
            at_permission_id := map_option SString (c_permission_id c),
            at_compaction_id := map_option SString (c_compaction_id c)\<rparr>
      in case so_event observation of
           ToolOperationEvent tool_name phase \<Rightarrow>
             attributes\<lparr>at_tool_name := map_option SString tool_name,
               at_phase := map_option SString phase\<rparr>
         | PermissionEvent decision \<Rightarrow> attributes\<lparr>at_decision := map_option SString decision\<rparr>
         | CompactionEvent trigger \<Rightarrow> attributes\<lparr>at_trigger := map_option SString trigger\<rparr>
         | _ \<Rightarrow> attributes)"

definition project_durable_record ::
  "source_observation \<Rightarrow> span_state \<Rightarrow> contract_error + durable_record" where
  "project_durable_record observation state =
     (if so_trace_id observation \<noteq> s_trace_id state \<or> so_span_id observation \<noteq> s_span_id state \<or>
         so_parent_span_id observation \<noteq> s_parent_span_id state \<or>
         s_kind state \<noteq> kind_for_event (so_event observation)
        then Inl ProjectionIdentityMismatch
      else
        (case event_projection (so_event observation) of (_, name, model, project) \<Rightarrow>
        bind_result (exact_json_integer (start_unix_ms (s_timing state))) (\<lambda>start_ms.
        bind_result (try_option exact_json_integer (end_unix_ms (s_timing state))) (\<lambda>end_ms.
        bind_result (metrics_from_usage (s_token_usage state)) (\<lambda>metrics.
        let record = \<lparr>
          dr_schema_version = DURABLE_RECORD_VERSION,
          dr_record_type = ''span'',
          dr_trace_id = so_trace_id observation,
          dr_span_id = so_span_id observation,
          dr_parent_span_id = so_parent_span_id observation,
          dr_span_kind = s_kind state,
          dr_name = name,
          dr_start_time_unix_ms = start_ms,
          dr_end_time_unix_ms = end_ms,
          dr_status = status_for_lifecycle (s_lifecycle state),
          dr_agent = \<lparr>ag_name = Some (source_name (so_source observation)), ag_version = None,
            ag_model = model\<rparr>,
          dr_project = \<lparr>pj_name = project, pj_repo_path = None\<rparr>,
          dr_attributes = project_attributes observation state,
          dr_metrics = metrics,
          dr_content = content_default,
          dr_redaction = \<lparr>rd_applied = True, rd_count = 4,
            rd_fields = [''prompt'', ''output'', ''tool_input'', ''tool_output'']\<rparr>\<rparr>
        in bind_result (validate_durable_record record) (\<lambda>_. Inr record))))))"

definition from_observation :: "source_observation \<Rightarrow> span_state \<Rightarrow> contract_error + durable_record" where
  "from_observation observation state = project_durable_record observation state"

text \<open>The state a lone observation is, as \<^verbatim>\<open>canonical_observation_payload_hash\<close> builds it.  The JSON
  encoder is the parameter \<open>encode\<close>.\<close>

definition observation_state :: "source_observation \<Rightarrow> span_state" where
  "observation_state o1 =
     \<lparr>s_trace_id = so_trace_id o1, s_span_id = so_span_id o1,
      s_parent_span_id = so_parent_span_id o1, s_kind = kind_for_event (so_event o1),
      s_lifecycle = so_lifecycle o1, s_correlation = so_correlation o1,
      s_timing = so_timing o1, s_token_usage = so_token_usage o1\<rparr>"

definition canonical_observation_payload_hash ::
  "digest \<Rightarrow> (durable_record \<Rightarrow> string option) \<Rightarrow> source_observation \<Rightarrow> contract_error + string" where
  "canonical_observation_payload_hash sha encode observation =
     bind_result (project_durable_record observation (observation_state observation)) (\<lambda>projected.
     bind_result (sanitize_durable_record sha projected) (\<lambda>record.
     bind_result (ok_or (encode record) InvalidDurableHeader) (\<lambda>encoded.
     Inr (''sha256:'' @ hex (sha encoded)))))"

end
