(* ===== verification/Privacy_Laws.thy ===== *)
theory Privacy_Laws
  imports Durable_Contract
begin

section \<open>Properties of the privacy boundary\<close>

text \<open>
  Every sanitizing step is a \<open>sanitizer\<close>: it applies an idempotent function to the value and
  logs a note exactly when the value changes.  The locale is interpreted on each step of
  \<^verbatim>\<open>sanitize_owned_durable_record\<close> (\<^verbatim>\<open>crates/contracts/src/lib.rs\<close>), and the properties of the
  whole boundary follow from the interpretation on the record.
\<close>

subsection \<open>Digests and redaction\<close>

lemma starts_with_prefix_iff: "starts_with (hash_opaque_identifier sha v) ID_PREFIX"
  by (simp add: hash_opaque_identifier_def)

lemma hash_idem [simp]:
  "hash_opaque_identifier sha (hash_opaque_identifier sha v) = hash_opaque_identifier sha v"
  by (simp add: hash_opaque_identifier_def)

lemma hash_not_empty: "hash_opaque_identifier sha v \<noteq> []"
  using starts_with_prefix_iff [of sha v] by (auto simp: starts_with_iff ID_PREFIX_def)

lemma hex_digit_inject:
  assumes "m < 16" and "n < 16" and "hex_digit m = hex_digit n"
  shows "m = n"
proof -
  have h: "of_char (hex_digit k) = (if k < 10 then 48 + k else 87 + k)" if "k < 16" for k :: nat
    using that by (simp add: hex_digit_def)
  have "(if m < 10 then 48 + m else 87 + m) = (if n < 10 then 48 + n else 87 + n)"
    using h [OF assms(1)] h [OF assms(2)] assms(3) by simp
  then show ?thesis by (simp split: if_splits)
qed

lemma hex_byte_inject: "hex_byte a = hex_byte b \<longleftrightarrow> a = b"
proof
  have bound: "unat c div 16 < 16 \<and> unat c mod 16 < 16" for c :: u8
  proof -
    have "unat c < 2 ^ LENGTH(8)" by (rule unsigned_less)
    then show ?thesis by (simp add: less_mult_imp_div_less)
  qed
  assume "hex_byte a = hex_byte b"
  then have "unat a div 16 = unat b div 16" "unat a mod 16 = unat b mod 16"
    using bound by (auto simp: hex_byte_def intro: hex_digit_inject)
  then have "unat a = unat b" by (metis mult_div_mod_eq)
  then show "a = b" by (rule word_unat_eq_iff [THEN iffD2])
qed simp

lemma hex_inject: "hex xs = hex ys \<longleftrightarrow> xs = ys"
proof
  show "hex xs = hex ys \<Longrightarrow> xs = ys"
  proof (induction xs arbitrary: ys)
    case Nil
    then show ?case by (cases ys) (auto simp: hex_def hex_byte_def)
  next
    case (Cons x xs)
    then obtain y ys' where ys: "ys = y # ys'"
      by (cases ys) (auto simp: hex_def hex_byte_def)
    with Cons.prems have "hex_byte x = hex_byte y \<and> hex xs = hex ys'"
      by (simp add: hex_def hex_byte_def)
    with Cons.IH ys show ?case by (simp add: hex_byte_inject)
  qed
qed simp

lemma redact_cases:
  obtains (kept) "redact_sensitive_text v k = v" "\<not> secret_text v (to_ascii_lowercase k)"
      "\<not> path_text v (to_ascii_lowercase k)"
    | (redacted) "redact_sensitive_text v k = ''[redacted]''"
    | (path) "redact_sensitive_text v k = ''[redacted path]''"
      "\<not> secret_text v (to_ascii_lowercase k)"
proof (cases "secret_text v (to_ascii_lowercase k)")
  case True
  then show ?thesis using redacted by (simp add: redact_sensitive_text_def Let_def)
next
  case False
  then show ?thesis using kept path
    by (cases "path_text v (to_ascii_lowercase k)") (simp_all add: redact_sensitive_text_def Let_def)
qed

lemma placeholder_text:
  "secret_text ''[redacted]'' k \<longleftrightarrow> contains_any SENSITIVE_KEYS k"
  "secret_text ''[redacted path]'' k \<longleftrightarrow> contains_any SENSITIVE_KEYS k"
  "\<not> path_text ''[redacted]'' k"
  "\<not> path_text ''[redacted path]'' k"
proof -
  have a: "\<not> contains_any SECRET_WORDS (to_ascii_lowercase ''[redacted]'')"
    "\<not> contains_any SECRET_WORDS (to_ascii_lowercase ''[redacted path]'')"
    "\<not> has_control ''[redacted]''" "\<not> has_control ''[redacted path]''"
    "\<not> contains_any SECRET_PATTERNS (to_ascii_lowercase ''[redacted]'')"
    "\<not> contains_any SECRET_PATTERNS (to_ascii_lowercase ''[redacted path]'')"
    "\<not> contains (join_words (split_whitespace (to_ascii_lowercase ''[redacted]''))) ''bearer ''"
    "\<not> contains (join_words (split_whitespace (to_ascii_lowercase ''[redacted path]''))) ''bearer ''"
    by code_simp+
  show "secret_text ''[redacted]'' k \<longleftrightarrow> contains_any SENSITIVE_KEYS k"
    "secret_text ''[redacted path]'' k \<longleftrightarrow> contains_any SENSITIVE_KEYS k"
    using a by (simp_all only: secret_text_def Let_def simp_thms)
  have p: "path_text ''[redacted]'' [] = False" "path_text ''[redacted path]'' [] = False" by code_simp+
  have s: "CHR ''/'' \<notin> set ''[redacted]''" "CHR ''/'' \<notin> set ''[redacted path]''"
    "CHR 0x5C \<notin> set ''[redacted]''" "CHR 0x5C \<notin> set ''[redacted path]''" by code_simp+
  show "\<not> path_text ''[redacted]'' k" "\<not> path_text ''[redacted path]'' k"
    using p s by (simp_all only: path_text_def Let_def simp_thms)
qed

lemma sensitive_key_secret: "contains_any SENSITIVE_KEYS k \<Longrightarrow> secret_text v k"
  by (simp add: secret_text_def Let_def)

lemma redact_idem [simp]:
  "redact_sensitive_text (redact_sensitive_text v k) k = redact_sensitive_text v k"
  by (auto simp: redact_sensitive_text_def Let_def placeholder_text sensitive_key_secret)

lemma redact_not_empty: "redact_sensitive_text v k = [] \<Longrightarrow> v = []"
  by (auto simp: redact_sensitive_text_def Let_def split: if_splits)

subsection \<open>Sanitizing steps\<close>

locale sanitizer =
  fixes step :: "'a \<times> string list \<Rightarrow> 'a \<times> string list"
    and clean :: "'a \<Rightarrow> 'a"
    and remarks :: "'a \<Rightarrow> string list"
  assumes step_eq: "step (v, logged) = (clean v, logged @ remarks v)"
    and remarks_empty: "remarks v = [] \<longleftrightarrow> clean v = v"
    and clean_idem: "clean (clean v) = clean v"
begin

lemma step_twice: "step (clean v, logged) = (clean v, logged)"
  using remarks_empty [of "clean v"] by (simp add: step_eq clean_idem)

lemma remarks_clean: "remarks (clean v) = []"
  by (simp add: remarks_empty clean_idem)

lemma step_silent: "snd (step (v, logged)) = logged \<longleftrightarrow> fst (step (v, logged)) = v"
  by (simp add: step_eq remarks_empty)

end

definition noted :: "('a \<Rightarrow> 'a) \<Rightarrow> string \<Rightarrow> 'a \<Rightarrow> string list" where
  "noted f field v = (if f v = v then [] else [field])"

lemma edit_step:
  assumes "sanitizer f p n"
  shows "edit get put f (r, logged) = (put (\<lambda>_. p (get r)) r, logged @ n (get r))"
  using sanitizer.step_eq [OF assms] by (simp add: edit_def Let_def)

interpretation record_id: sanitizer "hash_record_id sha field" "hash_opaque_identifier sha"
  "noted (hash_opaque_identifier sha) field" for sha field
  by unfold_locales (auto simp: hash_record_id_def noted_def Let_def)

interpretation parent_id: sanitizer "hash_parent_id sha field"
  "map_option (hash_opaque_identifier sha)" "noted (map_option (hash_opaque_identifier sha)) field"
  for sha field
  by unfold_locales
    (auto simp: hash_parent_id_def record_id.step_eq noted_def Let_def option.map_comp comp_def
      split: option.splits)

definition redact_option :: "string \<Rightarrow> string option \<Rightarrow> string option" where
  "redact_option key = map_option (\<lambda>t. redact_sensitive_text t key)"

interpretation optional_text: sanitizer "sanitize_optional_text key" "redact_option key"
  "noted (redact_option key) key" for key
  by unfold_locales
    (auto simp: sanitize_optional_text_def redact_option_def noted_def Let_def option.map_comp comp_def
      split: option.splits)

definition clean_scalar :: "digest \<Rightarrow> string \<Rightarrow> scalar_value option \<Rightarrow> scalar_value option" where
  "clean_scalar sha key v = (case v of
       Some (SString t) \<Rightarrow>
         Some (SString (if key \<in> set ID_KEYS then hash_opaque_identifier sha t
                        else redact_sensitive_text t key))
     | _ \<Rightarrow> v)"

interpretation scalar: sanitizer "sanitize_scalar sha key" "clean_scalar sha key"
  "noted (clean_scalar sha key) (''attributes.'' @ key)" for sha key
  by unfold_locales
    (auto simp: sanitize_scalar_def clean_scalar_def noted_def Let_def
      split: option.splits scalar_value.splits)

interpretation span_name: sanitizer sanitize_name "\<lambda>v. redact_sensitive_text v ''name''"
  "noted (\<lambda>v. redact_sensitive_text v ''name'') ''name''"
  by unfold_locales (auto simp: sanitize_name_def noted_def Let_def)

lemmas field_sanitizers =
  record_id.sanitizer_axioms parent_id.sanitizer_axioms optional_text.sanitizer_axioms
  scalar.sanitizer_axioms span_name.sanitizer_axioms

definition content_remarks :: "content_v1 \<Rightarrow> string list" where
  "content_remarks c = snd (sanitize_content (c, []))"

interpretation content: sanitizer sanitize_content "\<lambda>_. content_default" content_remarks
  by unfold_locales
    (auto simp: sanitize_content_def content_remarks_def content_default_def Let_def)

definition clean_agent :: "agent_v1 \<Rightarrow> agent_v1" where
  "clean_agent a = \<lparr>ag_name = redact_option ''agent.name'' (ag_name a),
     ag_version = redact_option ''agent.version'' (ag_version a),
     ag_model = redact_option ''agent.model'' (ag_model a)\<rparr>"

definition agent_remarks :: "agent_v1 \<Rightarrow> string list" where
  "agent_remarks a = noted (redact_option ''agent.name'') ''agent.name'' (ag_name a) @
     noted (redact_option ''agent.version'') ''agent.version'' (ag_version a) @
     noted (redact_option ''agent.model'') ''agent.model'' (ag_model a)"

lemma noted_nil [simp]: "noted f field v = [] \<longleftrightarrow> f v = v"
  by (simp add: noted_def)

interpretation agent: sanitizer sanitize_agent clean_agent agent_remarks
proof unfold_locales
  show "sanitize_agent (v, logged) = (clean_agent v, logged @ agent_remarks v)" for v logged
    by (cases v) (simp add: sanitize_agent_def edit_step [OF optional_text.sanitizer_axioms]
      clean_agent_def agent_remarks_def)
  show "agent_remarks v = [] \<longleftrightarrow> clean_agent v = v" for v
    by (cases v) (simp add: clean_agent_def agent_remarks_def)
qed (simp add: clean_agent_def optional_text.clean_idem)

definition clean_project :: "project_v1 \<Rightarrow> project_v1" where
  "clean_project p = \<lparr>pj_name = redact_option ''project.name'' (pj_name p),
     pj_repo_path = redact_option ''project.repo_path'' (pj_repo_path p)\<rparr>"

definition project_remarks :: "project_v1 \<Rightarrow> string list" where
  "project_remarks p = noted (redact_option ''project.name'') ''project.name'' (pj_name p) @
     noted (redact_option ''project.repo_path'') ''project.repo_path'' (pj_repo_path p)"

interpretation project: sanitizer sanitize_project clean_project project_remarks
proof unfold_locales
  show "sanitize_project (v, logged) = (clean_project v, logged @ project_remarks v)" for v logged
    by (cases v) (simp add: sanitize_project_def edit_step [OF optional_text.sanitizer_axioms]
      clean_project_def project_remarks_def)
  show "project_remarks v = [] \<longleftrightarrow> clean_project v = v" for v
    by (cases v) (simp add: clean_project_def project_remarks_def)
qed (simp add: clean_project_def optional_text.clean_idem)

definition attribute_remark :: "digest \<Rightarrow> string \<Rightarrow> scalar_value option \<Rightarrow> string list" where
  "attribute_remark sha key = noted (clean_scalar sha key) (''attributes.'' @ key)"

definition clean_attributes :: "digest \<Rightarrow> attributes_v1 \<Rightarrow> attributes_v1" where
  "clean_attributes sha a = \<lparr>at_source = clean_scalar sha ''source'' (at_source a),
     at_event_type = clean_scalar sha ''event_type'' (at_event_type a),
     at_envelope_type = clean_scalar sha ''envelope_type'' (at_envelope_type a),
     at_session_id = clean_scalar sha ''session_id'' (at_session_id a),
     at_turn_id = clean_scalar sha ''turn_id'' (at_turn_id a),
     at_request_id = clean_scalar sha ''request_id'' (at_request_id a),
     at_call_id = clean_scalar sha ''call_id'' (at_call_id a),
     at_tool_name = clean_scalar sha ''tool_name'' (at_tool_name a),
     at_phase = clean_scalar sha ''phase'' (at_phase a),
     at_exit_code = clean_scalar sha ''exit_code'' (at_exit_code a),
     at_sandbox = clean_scalar sha ''sandbox'' (at_sandbox a),
     at_approval = clean_scalar sha ''approval'' (at_approval a),
     at_permission_id = clean_scalar sha ''permission_id'' (at_permission_id a),
     at_decision = clean_scalar sha ''decision'' (at_decision a),
     at_command_kind = clean_scalar sha ''command_kind'' (at_command_kind a),
     at_compaction_id = clean_scalar sha ''compaction_id'' (at_compaction_id a),
     at_trigger = clean_scalar sha ''trigger'' (at_trigger a)\<rparr>"

definition attributes_remarks :: "digest \<Rightarrow> attributes_v1 \<Rightarrow> string list" where
  "attributes_remarks sha a =
     attribute_remark sha ''source'' (at_source a) @
     attribute_remark sha ''event_type'' (at_event_type a) @
     attribute_remark sha ''envelope_type'' (at_envelope_type a) @
     attribute_remark sha ''session_id'' (at_session_id a) @
     attribute_remark sha ''turn_id'' (at_turn_id a) @
     attribute_remark sha ''request_id'' (at_request_id a) @
     attribute_remark sha ''call_id'' (at_call_id a) @
     attribute_remark sha ''tool_name'' (at_tool_name a) @
     attribute_remark sha ''phase'' (at_phase a) @
     attribute_remark sha ''exit_code'' (at_exit_code a) @
     attribute_remark sha ''sandbox'' (at_sandbox a) @
     attribute_remark sha ''approval'' (at_approval a) @
     attribute_remark sha ''permission_id'' (at_permission_id a) @
     attribute_remark sha ''decision'' (at_decision a) @
     attribute_remark sha ''command_kind'' (at_command_kind a) @
     attribute_remark sha ''compaction_id'' (at_compaction_id a) @
     attribute_remark sha ''trigger'' (at_trigger a)"

lemmas scalar_edit = edit_step [OF scalar.sanitizer_axioms, folded attribute_remark_def]

interpretation attributes: sanitizer "sanitize_attributes sha" "clean_attributes sha"
  "attributes_remarks sha" for sha
proof unfold_locales
  show "sanitize_attributes sha (v, logged) = (clean_attributes sha v, logged @ attributes_remarks sha v)"
    for v logged
    by (cases v) (simp add: sanitize_attributes_def scalar_edit clean_attributes_def attributes_remarks_def)
  show "attributes_remarks sha v = [] \<longleftrightarrow> clean_attributes sha v = v" for v
    by (cases v) (simp add: clean_attributes_def attributes_remarks_def attribute_remark_def)
qed (simp add: clean_attributes_def scalar.clean_idem)

definition clean_record :: "digest \<Rightarrow> durable_record \<Rightarrow> durable_record" where
  "clean_record sha r = r\<lparr>
     dr_trace_id := hash_opaque_identifier sha (dr_trace_id r),
     dr_span_id := hash_opaque_identifier sha (dr_span_id r),
     dr_parent_span_id := map_option (hash_opaque_identifier sha) (dr_parent_span_id r),
     dr_agent := clean_agent (dr_agent r),
     dr_project := clean_project (dr_project r),
     dr_attributes := clean_attributes sha (dr_attributes r),
     dr_name := redact_sensitive_text (dr_name r) ''name'',
     dr_content := content_default\<rparr>"

definition record_remarks :: "digest \<Rightarrow> durable_record \<Rightarrow> string list" where
  "record_remarks sha r =
     noted (hash_opaque_identifier sha) ''trace_id'' (dr_trace_id r) @
     noted (hash_opaque_identifier sha) ''span_id'' (dr_span_id r) @
     noted (map_option (hash_opaque_identifier sha)) ''parent_span_id'' (dr_parent_span_id r) @
     agent_remarks (dr_agent r) @ project_remarks (dr_project r) @
     attributes_remarks sha (dr_attributes r) @
     noted (\<lambda>v. redact_sensitive_text v ''name'') ''name'' (dr_name r) @
     content_remarks (dr_content r)"

lemmas record_edits =
  edit_step [OF record_id.sanitizer_axioms] edit_step [OF parent_id.sanitizer_axioms]
  edit_step [OF agent.sanitizer_axioms] edit_step [OF project.sanitizer_axioms]
  edit_step [OF attributes.sanitizer_axioms] edit_step [OF span_name.sanitizer_axioms]
  edit_step [OF content.sanitizer_axioms]

interpretation durable: sanitizer "sanitize_fields sha" "clean_record sha" "record_remarks sha" for sha
proof unfold_locales
  show "sanitize_fields sha (v, logged) = (clean_record sha v, logged @ record_remarks sha v)" for v logged
    by (cases v) (simp add: sanitize_fields_def record_edits clean_record_def record_remarks_def)
  show "record_remarks sha v = [] \<longleftrightarrow> clean_record sha v = v" for v
    by (cases v) (simp add: clean_record_def record_remarks_def content.remarks_empty
      agent.remarks_empty project.remarks_empty attributes.remarks_empty conj_ac)
qed (simp add: clean_record_def agent.clean_idem project.clean_idem attributes.clean_idem
  option.map_comp comp_def)

lemma sanitize_unchecked_eq:
  "sanitize_unchecked sha r =
     clean_record sha r\<lparr>dr_redaction := note_redaction (record_remarks sha r) (dr_redaction r)\<rparr>"
  using durable.step_eq [of sha r "[]"]
  by (cases r) (simp add: sanitize_unchecked_def Let_def clean_record_def)

lemma clean_record_redaction:
  "clean_record sha (r\<lparr>dr_redaction := rd\<rparr>) = clean_record sha r\<lparr>dr_redaction := rd\<rparr>"
  "record_remarks sha (r\<lparr>dr_redaction := rd\<rparr>) = record_remarks sha r"
  by (cases r; simp add: clean_record_def record_remarks_def)+

lemma note_redaction_again: "note_redaction [] (note_redaction logged rd) = note_redaction logged rd"
proof -
  have "sort (remdups_adj (sort xs)) = remdups_adj (sort xs)" for xs :: "string list"
    by (intro sorted_sort_id) simp
  moreover have "saturating_add c 0 = c" for c :: u64
  proof -
    have "unat c < 2 ^ LENGTH(64)" by (rule unsigned_less)
    then show ?thesis by (simp add: saturating_add_def)
  qed
  moreover have "remdups_adj (remdups_adj xs) = remdups_adj xs" for xs :: "string list"
    using distinct_adj_remdups_adj distinct_adj_altdef by blast
  ultimately show ?thesis by (simp add: note_redaction_def)
qed

lemma sanitize_unchecked_idem:
  "sanitize_unchecked sha (sanitize_unchecked sha r) = sanitize_unchecked sha r"
  by (simp add: sanitize_unchecked_eq clean_record_redaction durable.clean_idem
    durable.remarks_clean note_redaction_again)

subsection \<open>Validity across the boundary\<close>

lemma clean_scalar_number: "clean_scalar sha key v = Some (SNumber x) \<longleftrightarrow> v = Some (SNumber x)"
  by (auto simp: clean_scalar_def split: option.splits scalar_value.splits)

lemma validate_attributes_iff:
  "validate_attributes a = Inr () \<longleftrightarrow> (\<forall>x. Some (SNumber x) \<in> set (attribute_values a) \<longrightarrow> is_finite x)"
proof -
  have "validate_scalar v = Inr () \<longleftrightarrow> (\<forall>x. v = SNumber x \<longrightarrow> is_finite x)" for v
    by (cases v) (simp_all add: validate_finite_def)
  then show ?thesis by (auto simp: validate_attributes_def result_simps)
qed

lemma clean_attributes_valid:
  "validate_attributes (clean_attributes sha a) = validate_attributes a"
proof -
  have "Some (SNumber x) \<in> set (attribute_values (clean_attributes sha a)) \<longleftrightarrow>
      Some (SNumber x) \<in> set (attribute_values a)" for x
    by (simp add: attribute_values_def clean_attributes_def clean_scalar_number eq_commute [of "Some (SNumber x)"])
  then have "validate_attributes (clean_attributes sha a) = Inr () \<longleftrightarrow> validate_attributes a = Inr ()"
    by (simp add: validate_attributes_iff)
  moreover have "validate_attributes b = Inl e \<Longrightarrow> e = NonFiniteNumber" for b e
  proof -
    assume "validate_attributes b = Inl e"
    then obtain v where "validate_scalar v = Inl e"
      unfolding validate_attributes_def by (blast dest: try_all_error_in)
    then show "e = NonFiniteNumber"
      by (cases v) (simp_all add: validate_finite_def split: if_splits)
  qed
  ultimately show ?thesis
    by (cases "validate_attributes a"; cases "validate_attributes (clean_attributes sha a)") auto
qed

lemma validate_durable_record_iff:
  "validate_durable_record r = Inr () \<longleftrightarrow>
     (dr_schema_version r = DURABLE_RECORD_VERSION \<and> dr_record_type r = ''span'') \<and>
     (dr_trace_id r \<noteq> [] \<and> dr_span_id r \<noteq> [] \<and> dr_name r \<noteq> []) \<and>
     is_finite (dr_start_time_unix_ms r) \<and>
     (\<forall>e. dr_end_time_unix_ms r = Some e \<longrightarrow> is_finite e \<and> \<not> f64_lt e (dr_start_time_unix_ms r)) \<and>
     dr_parent_span_id r \<noteq> Some [] \<and>
     (ag_name (dr_agent r) \<noteq> Some [] \<and> ag_version (dr_agent r) \<noteq> Some [] \<and>
      ag_model (dr_agent r) \<noteq> Some [] \<and> pj_name (dr_project r) \<noteq> Some [] \<and>
      pj_repo_path (dr_project r) \<noteq> Some []) \<and>
     validate_attributes (dr_attributes r) = Inr () \<and>
     validate_metrics (dr_metrics r) = Inr () \<and>
     (\<forall>v. Some v \<in> {ct_prompt (dr_content r), ct_output (dr_content r),
        ct_tool_input (dr_content r), ct_tool_output (dr_content r)} \<longrightarrow> validate_json_value v = Inr ())"
  unfolding validate_durable_record_def
  by (cases "dr_end_time_unix_ms r")
    (auto simp: result_simps validate_optional_nonempty_def validate_finite_def present_def [of "[x]" for x]
      split: if_splits)

lemma redact_empty:
  "redact_sensitive_text [] ''agent.name'' = []" "redact_sensitive_text [] ''agent.version'' = []"
  "redact_sensitive_text [] ''agent.model'' = []" "redact_sensitive_text [] ''project.name'' = []"
  "redact_sensitive_text [] ''project.repo_path'' = []" "redact_sensitive_text [] ''name'' = []"
  by code_simp+

lemma redact_option_empty:
  assumes "redact_sensitive_text [] key = []"
  shows "redact_option key v = Some [] \<longleftrightarrow> v = Some []"
  using assms by (auto simp: redact_option_def dest: redact_not_empty)

lemma clean_record_valid:
  "validate_durable_record (clean_record sha r\<lparr>dr_redaction := rd\<rparr>) = Inr () \<longleftrightarrow>
   validate_durable_record (r\<lparr>dr_trace_id := ID_PREFIX, dr_span_id := ID_PREFIX,
     dr_parent_span_id := None, dr_content := content_default\<rparr>) = Inr ()"
proof -
  have name: "redact_sensitive_text n ''name'' = [] \<longleftrightarrow> n = []" for n
    using redact_empty(6) redact_not_empty by blast
  show ?thesis
    by (simp add: validate_durable_record_iff clean_record_def clean_attributes_valid name
      hash_not_empty clean_agent_def clean_project_def redact_option_empty redact_empty
      content_default_def ID_PREFIX_def)
qed

subsection \<open>What leaves the boundary\<close>

text \<open>A text leaks when it would be redacted even under a key that says nothing.\<close>

definition leaks :: "string \<Rightarrow> bool" where
  "leaks t \<longleftrightarrow> secret_text t [] \<or> path_text t []"

lemma neutral_key: "secret_text v [] \<Longrightarrow> secret_text v k" "path_text v [] \<Longrightarrow> path_text v k"
proof -
  have "\<not> contains_any SENSITIVE_KEYS []" "\<not> contains [] ''path''" by code_simp+
  then show "secret_text v [] \<Longrightarrow> secret_text v k" "path_text v [] \<Longrightarrow> path_text v k"
    by (simp_all add: secret_text_def path_text_def Let_def) blast
qed

lemma redact_no_leak [simp]: "\<not> leaks (redact_sensitive_text v k)"
proof -
  have k: "\<not> contains_any SENSITIVE_KEYS []" by code_simp
  show ?thesis
    by (cases rule: redact_cases [of v k]) (auto simp: leaks_def placeholder_text k dest: neutral_key)
qed

definition scalar_texts :: "scalar_value option list \<Rightarrow> string list" where
  "scalar_texts vs = concat (map (\<lambda>v. case v of Some (SString t) \<Rightarrow> [t] | _ \<Rightarrow> []) vs)"

definition identifier_attributes :: "attributes_v1 \<Rightarrow> scalar_value option list" where
  "identifier_attributes a = [at_session_id a, at_turn_id a, at_request_id a, at_call_id a,
     at_permission_id a, at_compaction_id a]"

definition text_attributes :: "attributes_v1 \<Rightarrow> scalar_value option list" where
  "text_attributes a = [at_source a, at_event_type a, at_envelope_type a, at_tool_name a, at_phase a,
     at_exit_code a, at_sandbox a, at_approval a, at_decision a, at_command_kind a, at_trigger a]"

definition record_identifiers :: "durable_record \<Rightarrow> string list" where
  "record_identifiers r = [dr_trace_id r, dr_span_id r] @ present [dr_parent_span_id r] @
     scalar_texts (identifier_attributes (dr_attributes r))"

definition record_texts :: "durable_record \<Rightarrow> string list" where
  "record_texts r = dr_name r # present [ag_name (dr_agent r), ag_version (dr_agent r),
     ag_model (dr_agent r), pj_name (dr_project r), pj_repo_path (dr_project r)] @
     scalar_texts (text_attributes (dr_attributes r))"

lemma set_scalar_texts [simp]: "set (scalar_texts vs) = {t. Some (SString t) \<in> set vs}"
  by (force simp: scalar_texts_def split: option.splits scalar_value.splits)

lemma clean_scalar_text:
  "clean_scalar sha key v = Some (SString t) \<longleftrightarrow>
     (\<exists>u. v = Some (SString u) \<and>
       t = (if key \<in> set ID_KEYS then hash_opaque_identifier sha u else redact_sensitive_text u key))"
  by (auto simp: clean_scalar_def split: option.splits scalar_value.splits)

lemma scalar_texts_cons [simp]:
  "scalar_texts (v # vs) = (case v of Some (SString t) \<Rightarrow> [t] | _ \<Rightarrow> []) @ scalar_texts vs"
  by (simp add: scalar_texts_def)

lemma scalar_texts_nil [simp]: "scalar_texts [] = []"
  by (simp add: scalar_texts_def)

lemma scalar_texts_hashed:
  assumes "key \<in> set ID_KEYS"
  shows "(case clean_scalar sha key v of Some (SString t) \<Rightarrow> [t] | _ \<Rightarrow> []) =
     map (hash_opaque_identifier sha) (case v of Some (SString t) \<Rightarrow> [t] | _ \<Rightarrow> [])"
  using assms by (auto simp: clean_scalar_def split: option.splits scalar_value.splits)

lemma present_map [simp]: "present [map_option f v] = map f (present [v])"
  by (cases v) (simp_all add: present_def)

lemma clean_record_identifiers:
  "record_identifiers (clean_record sha r\<lparr>dr_redaction := rd\<rparr>) =
     map (hash_opaque_identifier sha) (record_identifiers r)"
  by (simp add: record_identifiers_def identifier_attributes_def clean_record_def
    clean_attributes_def scalar_texts_hashed ID_KEYS_def)

text \<open>The names the boundary itself writes into the redaction log.\<close>

definition RECORD_FIELDS :: "string list" where
  "RECORD_FIELDS = [''trace_id'', ''span_id'', ''parent_span_id'', ''name'', ''agent.name'',
     ''agent.version'', ''agent.model'', ''project.name'', ''project.repo_path'', ''content.prompt'',
     ''content.output'', ''content.tool_input'', ''content.tool_output''] @
     map ((@) ''attributes.'') [''source'', ''event_type'', ''envelope_type'', ''session_id'',
       ''turn_id'', ''request_id'', ''call_id'', ''tool_name'', ''phase'', ''exit_code'', ''sandbox'',
       ''approval'', ''permission_id'', ''decision'', ''command_kind'', ''compaction_id'', ''trigger'']"

lemma noted_subset: "field \<in> S \<Longrightarrow> set (noted f field v) \<subseteq> S"
  by (simp add: noted_def)

lemma record_remarks_fields: "set (record_remarks sha r) \<subseteq> set RECORD_FIELDS"
proof -
  note append = set_append Un_subset_iff
  have "set (content_remarks c) \<subseteq> set RECORD_FIELDS" for c
    by (auto simp: content_remarks_def sanitize_content_def Let_def RECORD_FIELDS_def)
  moreover have "set (attributes_remarks sha a) \<subseteq> set RECORD_FIELDS" for a
    unfolding attributes_remarks_def attribute_remark_def append
    by (intro conjI noted_subset) (simp_all add: RECORD_FIELDS_def)
  moreover have "set (agent_remarks g) \<subseteq> set RECORD_FIELDS" for g
    unfolding agent_remarks_def append by (intro conjI noted_subset) (simp_all add: RECORD_FIELDS_def)
  moreover have "set (project_remarks g) \<subseteq> set RECORD_FIELDS" for g
    unfolding project_remarks_def append by (intro conjI noted_subset) (simp_all add: RECORD_FIELDS_def)
  ultimately show ?thesis
    unfolding record_remarks_def append by (intro conjI noted_subset) (simp_all add: RECORD_FIELDS_def)
qed

lemma note_redaction_fields:
  "set (rd_fields (note_redaction logged rd)) = set (rd_fields rd) \<union> set logged"
  by (simp add: note_redaction_def)

lemma clean_record_texts:
  "t \<in> set (record_texts (clean_record sha r\<lparr>dr_redaction := rd\<rparr>)) \<Longrightarrow> \<not> leaks t"
  by (auto simp: record_texts_def text_attributes_def clean_record_def clean_agent_def
    clean_project_def redact_option_def clean_attributes_def clean_scalar_text ID_KEYS_def
    eq_commute [of "Some (SString t)"] eq_commute [of "Some t"])

lemma sanitize_eq:
  "sanitize_durable_record sha r = Inr s \<longleftrightarrow>
     s = clean_record sha r\<lparr>dr_redaction := note_redaction (record_remarks sha r) (dr_redaction r)\<rparr> \<and>
     validate_durable_record s = Inr ()"
  by (auto simp: sanitize_durable_record_def sanitize_owned_durable_record_def Let_def result_simps
    sanitize_unchecked_eq)

lemma hash_inject:
  assumes "\<not> starts_with u ID_PREFIX" and "\<not> starts_with v ID_PREFIX" and "sha u = sha v \<Longrightarrow> u = v"
  shows "hash_opaque_identifier sha u = hash_opaque_identifier sha v \<longleftrightarrow> u = v"
  using assms by (auto simp: hash_opaque_identifier_def hex_inject)

subsection \<open>Sample records\<close>

definition sample_digest :: digest where
  "sample_digest text = map (word_of_nat \<circ> byte_of) text"

definition sample_record :: "string \<Rightarrow> string \<Rightarrow> durable_record" where
  "sample_record sid name = \<lparr>dr_schema_version = DURABLE_RECORD_VERSION,
     dr_record_type = ''span'', dr_trace_id = ''t'', dr_span_id = sid,
     dr_parent_span_id = Some ''a'', dr_span_kind = Turn, dr_name = name,
     dr_start_time_unix_ms = f64_nat 6, dr_end_time_unix_ms = None, dr_status = StatusOk,
     dr_agent = \<lparr>ag_name = Some ''codex'', ag_version = None, ag_model = None\<rparr>,
     dr_project = \<lparr>pj_name = None, pj_repo_path = Some ''/home/u''\<rparr>,
     dr_attributes = attributes_default\<lparr>at_turn_id := Some (SString ''n'')\<rparr>,
     dr_metrics = \<lparr>mt_input_tokens = None, mt_output_tokens = None, mt_cached_input_tokens = None,
       mt_cache_creation_input_tokens = None, mt_reasoning_output_tokens = None,
       mt_total_tokens = None, mt_total_input_tokens = None, mt_total_output_tokens = None,
       mt_total_cached_input_tokens = None, mt_total_reasoning_output_tokens = None,
       mt_total_accumulated_tokens = None, mt_context_window_tokens = None,
       mt_input_tokens_before = None, mt_input_tokens_after = None, mt_latency_ms = None,
       mt_duration_ms = None\<rparr>,
     dr_content = content_default\<lparr>ct_prompt := Some (JString ''hello'')\<rparr>,
     dr_redaction = \<lparr>rd_applied = False, rd_count = 0, rd_fields = []\<rparr>\<rparr>"

definition sanitized :: "durable_record \<Rightarrow> durable_record" where
  "sanitized r = sanitize_unchecked sample_digest r"

lemma sample_sanitized:
  assumes "name \<noteq> []"
  shows "sanitize_durable_record sample_digest (sample_record sid name) =
    Inr (sanitized (sample_record sid name))"
proof -
  have "validate_durable_record (clean_record sample_digest (sample_record sid name)\<lparr>dr_redaction := rd\<rparr>) = Inr ()"
    for rd
    unfolding clean_record_valid
    using assms
    by (auto simp: validate_durable_record_iff sample_record_def ID_PREFIX_def content_default_def
      validate_attributes_iff attribute_values_def attributes_default_def validate_metrics_def
      metric_values_def result_simps)
  then show ?thesis by (simp add: sanitize_eq sanitized_def sanitize_unchecked_eq)
qed

lemma sample_fields:
  "dr_parent_span_id (sample_record sid name) = Some ''a''"
  "dr_span_id (sample_record sid name) = sid"
  by (simp_all add: sample_record_def)

subsection \<open>Properties\<close>

text \<open>Sanitizing is idempotent, the redaction log included: what passed the boundary passes it
  again unchanged, so records may be sanitized at every layer they cross.\<close>

lemma sanitize_idempotent:
  assumes "sanitize_durable_record sha r = Inr s"
  shows "sanitize_durable_record sha s = Inr s"
  using assms
  by (auto simp: sanitize_durable_record_def sanitize_owned_durable_record_def Let_def result_simps
    sanitize_unchecked_idem)

text \<open>C7: the boundary accepts a record exactly when the record would be valid with its
  identifiers and content replaced: it never rejects a valid record, and since identifiers are
  hashed before the check, an empty trace, span or parent identifier is accepted.\<close>

theorem sanitize_accepts:
  "(\<exists>s. sanitize_durable_record sha r = Inr s) \<longleftrightarrow>
   validate_durable_record (r\<lparr>dr_trace_id := ID_PREFIX, dr_span_id := ID_PREFIX,
     dr_parent_span_id := None, dr_content := content_default\<rparr>) = Inr ()"
  using clean_record_valid [where sha = sha and r = r]
  by (simp add: sanitize_durable_record_def sanitize_owned_durable_record_def Let_def result_simps
    sanitize_unchecked_eq)



text \<open>Parent links survive: when the digest does not collide on the two identifiers and neither
  is in hashed form already, a sanitized record names a sanitized record as its parent exactly when
  the originals were linked.\<close>

lemma sanitize_keeps_links:
  assumes "sanitize_durable_record sha r = Inr r'" and "sanitize_durable_record sha q = Inr q'"
    and "dr_parent_span_id r = Some p"
    and "\<not> starts_with p ID_PREFIX" and "\<not> starts_with (dr_span_id q) ID_PREFIX"
    and "sha p = sha (dr_span_id q) \<Longrightarrow> p = dr_span_id q"
  shows "dr_parent_span_id r' = Some (dr_span_id q') \<longleftrightarrow> dr_parent_span_id r = Some (dr_span_id q)"
proof -
  have "dr_parent_span_id r' = Some (hash_opaque_identifier sha p)"
    "dr_span_id q' = hash_opaque_identifier sha (dr_span_id q)"
    using assms(1-3) by (simp_all add: sanitize_eq clean_record_def)
  with hash_inject [OF assms(4-6)] assms(3) show ?thesis by simp
qed

text \<open>Sanitizing changes nothing that is measured: kind, times, status and metrics stay.\<close>

lemma sanitize_keeps_measurements:
  assumes "sanitize_durable_record sha r = Inr s"
  shows "dr_span_kind s = dr_span_kind r \<and> dr_start_time_unix_ms s = dr_start_time_unix_ms r \<and>
    dr_end_time_unix_ms s = dr_end_time_unix_ms r \<and> dr_status s = dr_status r \<and>
    dr_metrics s = dr_metrics r"
  using assms by (simp add: sanitize_eq clean_record_def)

end
