(* ===== verification/Projection_Laws.thy ===== *)
theory Projection_Laws
  imports Privacy_Laws Topology
begin

section \<open>Properties of the projection into durable records\<close>

text \<open>
  When \<^verbatim>\<open>project_durable_record\<close> (\<^verbatim>\<open>crates/contracts/src/lib.rs\<close>) accepts an observation, and what
  the record then says: every counter is exact, and a projected record passes the privacy boundary.
\<close>

subsection \<open>Exact integers\<close>

lemma push_bit_53: "unat (push_bit 53 1 - 1 :: u64) = MAX_SAFE"
  by (simp add: MAX_SAFE_def push_bit_eq_mult)

lemma exact_json_integer_iff:
  "exact_json_integer n = Inr x \<longleftrightarrow> unat n \<le> MAX_SAFE \<and> x = f64_nat (unat n)"
proof -
  have "n > push_bit 53 1 - 1 \<longleftrightarrow> MAX_SAFE < unat n"
    by (simp only: word_less_nat_alt push_bit_53)
  then show ?thesis by (auto simp: exact_json_integer_def f64_of_u64_exact)
qed

definition safe :: "u64 option \<Rightarrow> bool" where
  "safe v = (case v of None \<Rightarrow> True | Some n \<Rightarrow> unat n \<le> MAX_SAFE)"

definition exact :: "u64 option \<Rightarrow> f64 option" where
  "exact = map_option (\<lambda>n. f64_nat (unat n))"

lemma safe_simps [simp]: "safe None" "safe (Some n) \<longleftrightarrow> unat n \<le> MAX_SAFE"
  by (simp_all add: safe_def)

lemma exact_simps [simp]: "exact None = None" "exact (Some n) = Some (f64_nat (unat n))"
  by (simp_all add: exact_def)

lemma try_exact: "try_option exact_json_integer v = Inr w \<longleftrightarrow> safe v \<and> w = exact v"
  by (cases v) (auto simp: result_simps exact_json_integer_iff)

lemma exact_reads_back: "safe v \<Longrightarrow> map_option f64_as_u64 (exact v) = v"
  by (cases v) (auto intro: word_unat_eq_iff [THEN iffD2] simp: f64_as_u64_nat)

definition usage_counts :: "token_usage \<Rightarrow> u64 option list" where
  "usage_counts u = [tu_input u, tu_output u, tu_cached_input u, tu_cache_creation_input u,
     tu_reasoning_output u, tu_total u, tu_total_input u, tu_total_output u,
     tu_total_cached_input u, tu_total_reasoning_output u, tu_total_accumulated u,
     tu_context_window u, tu_input_before u, tu_input_after u]"

definition exact_metrics :: "token_usage \<Rightarrow> metrics_v1" where
  "exact_metrics u = \<lparr>mt_input_tokens = exact (tu_input u), mt_output_tokens = exact (tu_output u),
     mt_cached_input_tokens = exact (tu_cached_input u),
     mt_cache_creation_input_tokens = exact (tu_cache_creation_input u),
     mt_reasoning_output_tokens = exact (tu_reasoning_output u),
     mt_total_tokens = exact (tu_total u), mt_total_input_tokens = exact (tu_total_input u),
     mt_total_output_tokens = exact (tu_total_output u),
     mt_total_cached_input_tokens = exact (tu_total_cached_input u),
     mt_total_reasoning_output_tokens = exact (tu_total_reasoning_output u),
     mt_total_accumulated_tokens = exact (tu_total_accumulated u),
     mt_context_window_tokens = exact (tu_context_window u),
     mt_input_tokens_before = exact (tu_input_before u),
     mt_input_tokens_after = exact (tu_input_after u),
     mt_latency_ms = None, mt_duration_ms = None\<rparr>"

lemma metrics_from_usage_iff:
  "metrics_from_usage u = Inr m \<longleftrightarrow> list_all safe (usage_counts u) \<and> m = exact_metrics u"
  by (auto simp: metrics_from_usage_def result_simps(4) try_exact usage_counts_def exact_metrics_def
    bind_result_eq_Inr)

lemma exact_metric_values: "metric_values (exact_metrics u) = map exact (usage_counts u) @ [None, None]"
  by (simp add: metric_values_def exact_metrics_def usage_counts_def)

lemma exact_metrics_valid: "validate_metrics (exact_metrics u) = Inr ()"
proof -
  have "validate_nonnegative_finite x = Inr ()" if "Some x \<in> set (metric_values (exact_metrics u))" for x
  proof -
    from that obtain v where "exact v = Some x" by (force simp: exact_metric_values)
    then obtain n where "x = f64_nat n" by (cases v) auto
    then show ?thesis
      by (simp add: validate_nonnegative_finite_def validate_finite_def f64_zero_nat)
  qed
  then show ?thesis by (simp add: validate_metrics_def result_simps)
qed

subsection \<open>The projected record\<close>

definition projected :: "source_observation \<Rightarrow> span_state \<Rightarrow> durable_record" where
  "projected observation state = \<lparr>
     dr_schema_version = DURABLE_RECORD_VERSION,
     dr_record_type = ''span'',
     dr_trace_id = so_trace_id observation,
     dr_span_id = so_span_id observation,
     dr_parent_span_id = so_parent_span_id observation,
     dr_span_kind = s_kind state,
     dr_name = fst (snd (event_projection (so_event observation))),
     dr_start_time_unix_ms = f64_nat (unat (start_unix_ms (s_timing state))),
     dr_end_time_unix_ms = exact (end_unix_ms (s_timing state)),
     dr_status = status_for_lifecycle (s_lifecycle state),
     dr_agent = \<lparr>ag_name = Some (source_name (so_source observation)), ag_version = None,
       ag_model = fst (snd (snd (event_projection (so_event observation))))\<rparr>,
     dr_project = \<lparr>pj_name = snd (snd (snd (event_projection (so_event observation)))),
       pj_repo_path = None\<rparr>,
     dr_attributes = project_attributes observation state,
     dr_metrics = exact_metrics (s_token_usage state),
     dr_content = content_default,
     dr_redaction = \<lparr>rd_applied = True, rd_count = 4,
       rd_fields = [''prompt'', ''output'', ''tool_input'', ''tool_output'']\<rparr>\<rparr>"

definition same_span :: "source_observation \<Rightarrow> span_state \<Rightarrow> bool" where
  "same_span observation state \<longleftrightarrow>
     so_trace_id observation = s_trace_id state \<and> so_span_id observation = s_span_id state \<and>
     so_parent_span_id observation = s_parent_span_id state \<and>
     s_kind state = kind_for_event (so_event observation)"

definition all_safe :: "span_state \<Rightarrow> bool" where
  "all_safe state \<longleftrightarrow>
     unat (start_unix_ms (s_timing state)) \<le> MAX_SAFE \<and> safe (end_unix_ms (s_timing state)) \<and>
     list_all safe (usage_counts (s_token_usage state))"

definition nonempty_texts :: "source_observation \<Rightarrow> bool" where
  "nonempty_texts observation \<longleftrightarrow>
     so_trace_id observation \<noteq> [] \<and> so_span_id observation \<noteq> [] \<and>
     so_parent_span_id observation \<noteq> Some [] \<and>
     snd (snd (event_projection (so_event observation))) \<notin>
       {(m, p). m = Some [] \<or> p = Some []}"

lemma project_durable_record_eq:
  "project_durable_record observation state = Inr r \<longleftrightarrow>
     same_span observation state \<and> all_safe state \<and> r = projected observation state \<and>
     validate_durable_record r = Inr ()"
  unfolding project_durable_record_def same_span_def all_safe_def projected_def
  by (cases "event_projection (so_event observation)")
    (auto simp: bind_result_eq_Inr exact_json_integer_iff try_exact metrics_from_usage_iff Let_def)

lemma project_attributes_valid: "validate_attributes (project_attributes observation state) = Inr ()"
proof -
  have "map_option SString v \<noteq> Some (SNumber x)" for v x by (cases v) auto
  then show ?thesis
    by (cases "so_event observation")
      (auto simp: validate_attributes_iff attribute_values_def project_attributes_def
        attributes_default_def Let_def eq_commute [of "Some (SNumber x)" for x])
qed

lemma event_name_nonempty: "fst (snd (event_projection e)) \<noteq> []"
  by (cases e) auto

lemma source_name_nonempty: "source_name s \<noteq> []"
  by (cases s) auto

lemma end_order:
  "(\<forall>e. exact (end_unix_ms t) = Some e \<longrightarrow>
      is_finite e \<and> \<not> f64_lt e (f64_nat (unat (start_unix_ms t)))) \<longleftrightarrow> \<not> end_before_start t"
  by (cases "end_unix_ms t") (auto simp: end_before_start_def word_less_nat_alt)

lemma projected_valid:
  "validate_durable_record (projected observation state) = Inr () \<longleftrightarrow>
     nonempty_texts observation \<and> \<not> end_before_start (s_timing state)"
  using event_name_nonempty [of "so_event observation"]
  by (cases "event_projection (so_event observation)")
    (auto simp: validate_durable_record_iff projected_def source_name_nonempty
      project_attributes_valid exact_metrics_valid content_default_def nonempty_texts_def end_order)

subsection \<open>A sample observation\<close>

definition sample_observation :: source_observation where
  "sample_observation = \<lparr>so_source = Codex, so_source_generation = ''g'',
     so_previous_source_cursor = None, so_source_cursor = ''c'', so_observation_id = ''o'',
     so_trace_id = ''t'', so_span_id = ''b'', so_parent_span_id = Some ''a'',
     so_correlation = correlation_default, so_event = TurnEvent, so_lifecycle = Completed,
     so_timing = \<lparr>start_unix_ms = 6, end_unix_ms = Some 9\<rparr>,
     so_token_usage = token_usage_default\<lparr>tu_input := Some 40\<rparr>\<rparr>"

lemma sample_projected:
  "project_durable_record sample_observation (observation_state sample_observation) =
     Inr (projected sample_observation (observation_state sample_observation))"
proof -
  have "same_span sample_observation (observation_state sample_observation)"
    by (simp add: same_span_def sample_observation_def observation_state_def)
  moreover have "all_safe (observation_state sample_observation)"
    by (simp add: all_safe_def sample_observation_def observation_state_def usage_counts_def
      token_usage_default_def MAX_SAFE_def)
  moreover have "nonempty_texts sample_observation"
    by (simp add: nonempty_texts_def sample_observation_def)
  moreover have "\<not> end_before_start (s_timing (observation_state sample_observation))"
    by (simp add: sample_observation_def observation_state_def end_before_start_def)
  ultimately show ?thesis by (simp add: project_durable_record_eq projected_valid)
qed

subsection \<open>Properties\<close>

text \<open>An observation is projected exactly when it and the state describe the same span, every
  time and counter is an integer that JSON numbers carry exactly, the texts are not empty and the
  span does not end before it starts.\<close>

lemma project_accepts:
  "(\<exists>r. project_durable_record observation state = Inr r) \<longleftrightarrow>
     same_span observation state \<and> all_safe state \<and> nonempty_texts observation \<and>
     \<not> end_before_start (s_timing state)"
  by (auto simp: project_durable_record_eq projected_valid)

text \<open>C8: the projection loses no digit: reading the numbers of the record back as unsigned
  integers gives the times and every token counter of the state.\<close>

theorem project_exact:
  assumes "project_durable_record observation state = Inr r"
  shows "f64_as_u64 (dr_start_time_unix_ms r) = start_unix_ms (s_timing state) \<and>
    map_option f64_as_u64 (dr_end_time_unix_ms r) = end_unix_ms (s_timing state) \<and>
    map (map_option f64_as_u64) (metric_values (dr_metrics r)) =
      usage_counts (s_token_usage state) @ [None, None]"
proof -
  have r: "r = projected observation state" and safe: "all_safe state"
    using assms by (simp_all add: project_durable_record_eq)
  have counts: "map (map_option f64_as_u64) (map exact vs) = vs" if "list_all safe vs" for vs
    using that by (induction vs) (simp_all add: exact_reads_back)
  have "f64_as_u64 (f64_nat (unat n)) = n" if "unat n \<le> MAX_SAFE" for n
    using that by (intro word_unat_eq_iff [THEN iffD2] f64_as_u64_nat)
  then show ?thesis
    using safe counts [of "usage_counts (s_token_usage state)"]
    by (simp add: r projected_def all_safe_def exact_metric_values exact_reads_back)
qed

theorem project_exact_witness:
  "map (map_option f64_as_u64)
     (metric_values (dr_metrics (projected sample_observation (observation_state sample_observation)))) =
   usage_counts (s_token_usage (observation_state sample_observation)) @ [None, None]"
  using project_exact [OF sample_projected] by simp

text \<open>The canonical payload hash is defined for every observation that projects: the record
  passes the privacy boundary, so only the encoder could fail.\<close>

lemma canonical_hash_defined:
  assumes "project_durable_record observation (observation_state observation) = Inr r"
    and "\<forall>s. encode s \<noteq> None"
  shows "\<exists>s e. sanitize_durable_record sha r = Inr s \<and> encode s = Some e \<and>
    canonical_observation_payload_hash sha encode observation = Inr (''sha256:'' @ hex (sha e))"
proof -
  have "validate_durable_record r = Inr ()"
    using assms(1) by (auto simp: project_durable_record_eq)
  then have "validate_durable_record (clean_record sha r\<lparr>dr_redaction := rd\<rparr>) = Inr ()" for rd
    unfolding clean_record_valid
    by (simp add: validate_durable_record_iff ID_PREFIX_def content_default_def)
  then obtain s where s: "sanitize_durable_record sha r = Inr s" by (simp add: sanitize_eq)
  moreover obtain e where "encode s = Some e" using assms(2) not_None_eq [of "encode s"] by blast
  ultimately show ?thesis
    using assms(1) by (simp add: canonical_observation_payload_hash_def)
qed

end
