(* ===== verification/Report_Contract.thy ===== *)
theory Report_Contract
  imports Durable_Contract
begin

section \<open>The report wire contract\<close>

text \<open>
  Validation of report documents v1 and v2, the availability vocabulary of a span and the
  conversion of a v1 report (\<^verbatim>\<open>crates/contracts/src/lib.rs\<close>: \<^verbatim>\<open>ReportDtoV1::validate\<close>,
  \<^verbatim>\<open>ReportDtoV2::validate\<close>, \<^verbatim>\<open>ReportSpanV2::validate\<close>, \<^verbatim>\<open>TryFrom<ReportDtoV1>\<close>).
\<close>

subsection \<open>Costs, attributes, metrics\<close>

definition validate_cost :: "cost_estimate \<Rightarrow> contract_error + unit" where
  "validate_cost cost =
     (if ce_status cost \<notin> {''estimated'', ''incomplete'', ''unknown''} then Inl InvalidCostStatus
      else
        bind_result (try_all validate_finite (present [ce_estimated_cost cost])) (\<lambda>_.
        try_all (\<lambda>component.
            bind_result (validate_finite (cc_tokens component)) (\<lambda>_.
            bind_result (validate_finite (cc_rate_per_1m component)) (\<lambda>_.
            validate_finite (cc_estimated_cost component))))
          (bt_values (cd_components (ce_cost cost)))))"

definition report_attribute_values :: "report_attributes \<Rightarrow> scalar_value option list" where
  "report_attribute_values a =
     [rt_source a, rt_event_type a, rt_envelope_type a, rt_session_id a, rt_turn_id a,
      rt_request_id a, rt_call_id a, rt_tool_name a, rt_phase a, rt_exit_code a, rt_sandbox a,
      rt_approval a]"

definition validate_report_attributes :: "report_attributes \<Rightarrow> contract_error + unit" where
  "validate_report_attributes a = try_all validate_scalar (present (report_attribute_values a))"

definition report_metric_values :: "report_metrics \<Rightarrow> f64 option list" where
  "report_metric_values m =
     [rm_input_tokens m, rm_output_tokens m, rm_cached_input_tokens m,
      rm_cache_creation_input_tokens m, rm_reasoning_output_tokens m, rm_total_tokens m,
      rm_latency_ms m, rm_duration_ms m, rm_total_input_tokens m, rm_total_output_tokens m,
      rm_total_cached_input_tokens m, rm_total_reasoning_output_tokens m,
      rm_total_accumulated_tokens m, rm_context_window_tokens m]"

definition validate_report_metrics :: "report_metrics \<Rightarrow> contract_error + unit" where
  "validate_report_metrics m = try_all validate_finite (present (report_metric_values m))"

definition report_token_metrics_present :: "report_metrics \<Rightarrow> bool" where
  "report_token_metrics_present m \<longleftrightarrow>
     list_ex (\<lambda>v. v \<noteq> None)
       [rm_input_tokens m, rm_output_tokens m, rm_total_tokens m, rm_total_input_tokens m,
        rm_total_output_tokens m, rm_total_accumulated_tokens m]"

definition report_token_total_present :: "report_metrics \<Rightarrow> bool" where
  "report_token_total_present m \<longleftrightarrow>
     rm_total_tokens m \<noteq> None \<or> rm_total_accumulated_tokens m \<noteq> None \<or>
     (rm_input_tokens m \<noteq> None \<and> rm_output_tokens m \<noteq> None) \<or>
     (rm_total_input_tokens m \<noteq> None \<and> rm_total_output_tokens m \<noteq> None)"

subsection \<open>Availability\<close>

fun valid_availability :: "availability_state \<Rightarrow> string \<Rightarrow> bool" where
  "valid_availability Available reason \<longleftrightarrow> reason \<in> set
     [''reported_by_adapter'', ''derived_from_trace_context'', ''legacy_v1_report'']"
| "valid_availability SourceUnavailable reason \<longleftrightarrow> reason \<in> set
     [''source_not_provided'', ''not_evaluated'', ''partial_token_metrics'',
      ''historical_codex_source_not_lookup_eligible'',
      ''codex_notify_turn_correlation_unavailable'', ''ambiguous_trace_repository'',
      ''legacy_v1_report'']"
| "valid_availability NotApplicable reason \<longleftrightarrow> reason \<in> set
     [''span_kind_not_model_backed'', ''span_kind_has_no_latency'',
      ''span_kind_has_no_token_usage'', ''claude_private_lookup_not_supported'',
      ''cursor_private_lookup_not_supported'', ''codex_span_not_notify_derived'',
      ''agent_private_lookup_not_supported'']"
| "valid_availability PrivateLookup reason \<longleftrightarrow> reason = ''local_opt_in_lookup_required''"
| "valid_availability Withheld reason \<longleftrightarrow> reason = ''withheld_by_privacy_policy''"

definition valid_availability_reason :: "field_availability \<Rightarrow> bool" where
  "valid_availability_reason fa = valid_availability (fa_state fa) (fa_reason fa)"

definition availability_fields :: "report_availability \<Rightarrow> field_availability list" where
  "availability_fields a =
     [av_repository a, av_turn a, av_model a, av_tokens a, av_latency a, av_source_location a,
      av_request_content a, av_response_content a]"

definition token_availability_valid :: "report_metrics \<Rightarrow> field_availability \<Rightarrow> bool" where
  "token_availability_valid m tokens =
     (if report_token_total_present m then fa_state tokens = Available
      else if report_token_metrics_present m
        then fa_state tokens = SourceUnavailable \<and> fa_reason tokens = ''partial_token_metrics''
      else fa_state tokens \<noteq> Available)"

definition legacy_availability :: "report_metrics \<Rightarrow> report_availability" where
  "legacy_availability m =
     (let unavailable = \<lparr>fa_state = SourceUnavailable, fa_reason = ''legacy_v1_report''\<rparr>;
          tokens = \<lparr>
            fa_state = (if report_token_total_present m then Available else SourceUnavailable),
            fa_reason = (if report_token_metrics_present m \<and> \<not> report_token_total_present m
              then ''partial_token_metrics'' else ''legacy_v1_report'')\<rparr>
      in \<lparr>av_repository = unavailable, av_turn = unavailable, av_model = unavailable,
          av_tokens = tokens, av_latency = unavailable, av_source_location = unavailable,
          av_request_content = unavailable, av_response_content = unavailable\<rparr>)"

subsection \<open>Spans and documents\<close>

definition validate_report_span :: "report_span_v2 \<Rightarrow> contract_error + unit" where
  "validate_report_span s =
     bind_result (validate_finite (sp_start_time_unix_ms s)) (\<lambda>_.
     bind_result (try_all validate_finite (present [sp_end_time_unix_ms s])) (\<lambda>_.
     bind_result (validate_report_attributes (sp_attributes s)) (\<lambda>_.
     bind_result (validate_report_metrics (sp_metrics s)) (\<lambda>_.
     bind_result (ensure (token_availability_valid (sp_metrics s) (av_tokens (sp_availability s)))
       ContradictoryReportAvailability) (\<lambda>_.
     bind_result (try_all (\<lambda>fa. ensure (valid_availability_reason fa) ContradictoryReportAvailability)
       (availability_fields (sp_availability s))) (\<lambda>_.
     bind_result (try_all validate_finite (present [sp_estimated_cost s])) (\<lambda>_.
     validate_cost (sp_cost s))))))))"

definition validate_report_span_v1 :: "report_span_v1 \<Rightarrow> contract_error + unit" where
  "validate_report_span_v1 s =
     bind_result (validate_finite (sv_start_time_unix_ms s)) (\<lambda>_.
     bind_result (try_all validate_finite (present [sv_end_time_unix_ms s])) (\<lambda>_.
     bind_result (validate_report_attributes (sv_attributes s)) (\<lambda>_.
     bind_result (validate_report_metrics (sv_metrics s)) (\<lambda>_.
     bind_result (try_all validate_finite (present [sv_estimated_cost s])) (\<lambda>_.
     validate_cost (sv_cost s))))))"

definition validate_trace_summary :: "trace_summary \<Rightarrow> contract_error + unit" where
  "validate_trace_summary t =
     bind_result (validate_finite (ts_estimated_cost t)) (\<lambda>_.
     bind_result (validate_finite (ts_start_time_unix_ms t)) (\<lambda>_.
     try_all validate_finite (present [ts_end_time_unix_ms t])))"

definition validate_report_v1 :: "report_dto_v1 \<Rightarrow> contract_error + unit" where
  "validate_report_v1 r =
     (if r1_schema_version r \<noteq> REPORT_DTO_V1_VERSION then Inl InvalidReportVersion
      else
        bind_result (validate_finite (su_estimated_cost (r1_summary r))) (\<lambda>_.
        bind_result (validate_cost (r1_cost r)) (\<lambda>_.
        bind_result (try_all validate_trace_summary (r1_traces r)) (\<lambda>_.
        try_all validate_report_span_v1 (r1_spans r)))))"

definition validate_report_v2 :: "report_dto_v2 \<Rightarrow> contract_error + unit" where
  "validate_report_v2 r =
     (if r2_schema_version r \<noteq> REPORT_DTO_VERSION then Inl InvalidReportVersion
      else
        bind_result (validate_finite (su_estimated_cost (r2_summary r))) (\<lambda>_.
        bind_result (validate_cost (r2_cost r)) (\<lambda>_.
        bind_result (try_all validate_trace_summary (r2_traces r)) (\<lambda>_.
        try_all validate_report_span (r2_spans r)))))"

subsection \<open>Conversion of a v1 report\<close>

definition span_from_v1 :: "report_span_v1 \<Rightarrow> report_span_v2" where
  "span_from_v1 legacy = \<lparr>
     sp_schema_version = sv_schema_version legacy,
     sp_trace_id = sv_trace_id legacy,
     sp_span_id = sv_span_id legacy,
     sp_parent_span_id = sv_parent_span_id legacy,
     sp_kind = sv_kind legacy,
     sp_name = sv_name legacy,
     sp_status = sv_status legacy,
     sp_start_time_unix_ms = sv_start_time_unix_ms legacy,
     sp_end_time_unix_ms = sv_end_time_unix_ms legacy,
     sp_repo = sv_repo legacy,
     sp_agent = sv_agent legacy,
     sp_availability = legacy_availability (sv_metrics legacy),
     sp_session_id = sv_session_id legacy,
     sp_turn_id = sv_turn_id legacy,
     sp_tool_name = sv_tool_name legacy,
     sp_attributes = sv_attributes legacy,
     sp_metrics = sv_metrics legacy,
     sp_estimated_cost = sv_estimated_cost legacy,
     sp_cost = sv_cost legacy\<rparr>"

definition report_from_v1 :: "report_dto_v1 \<Rightarrow> report_dto_v2" where
  "report_from_v1 legacy = \<lparr>
     r2_schema_version = REPORT_DTO_VERSION,
     r2_generated_at = r1_generated_at legacy,
     r2_title = r1_title legacy,
     r2_summary = r1_summary legacy,
     r2_cost = r1_cost legacy,
     r2_filters = r1_filters legacy,
     r2_traces = r1_traces legacy,
     r2_spans = map span_from_v1 (r1_spans legacy)\<rparr>"

definition try_from_v1 :: "report_dto_v1 \<Rightarrow> contract_error + report_dto_v2" where
  "try_from_v1 legacy =
     bind_result (validate_report_v1 legacy) (\<lambda>_.
     bind_result (validate_report_v2 (report_from_v1 legacy)) (\<lambda>_.
     Inr (report_from_v1 legacy)))"

subsection \<open>Lemmas\<close>

lemma total_present_metrics: "report_token_total_present m \<Longrightarrow> report_token_metrics_present m"
  by (auto simp: report_token_total_present_def report_token_metrics_present_def)

lemma legacy_availability_valid:
  "token_availability_valid m (av_tokens (legacy_availability m))"
  "fa \<in> set (availability_fields (legacy_availability m)) \<Longrightarrow> valid_availability_reason fa"
  using total_present_metrics [of m]
  by (auto simp: token_availability_valid_def legacy_availability_def availability_fields_def
    valid_availability_reason_def Let_def)

lemma span_from_v1_valid:
  "validate_report_span (span_from_v1 s) = Inr () \<longleftrightarrow> validate_report_span_v1 s = Inr ()"
  using legacy_availability_valid [where m = "sv_metrics s"]
  by (simp add: validate_report_span_def validate_report_span_v1_def span_from_v1_def result_simps)

lemma report_from_v1_valid:
  "validate_report_v1 r = Inr () \<Longrightarrow> validate_report_v2 (report_from_v1 r) = Inr ()"
  by (simp add: validate_report_v1_def validate_report_v2_def report_from_v1_def result_simps
    span_from_v1_valid split: if_splits)

lemma availability_state_of_reason:
  "valid_availability a reason \<Longrightarrow> valid_availability b reason \<Longrightarrow>
   a = b \<or> reason = ''legacy_v1_report''"
  by (cases a; cases b) auto

subsection \<open>A sample span\<close>

definition sample_cost :: cost_estimate where
  "sample_cost = \<lparr>ce_status = ''unknown'', ce_reason = None, ce_estimated_cost = None,
     ce_currency = None, ce_model = None, ce_rate_table = \<lparr>rr_version = None, rr_unit = None\<rparr>,
     ce_cost = \<lparr>cd_assumption = [], cd_incomplete_count = None, cd_unknown_count = None,
       cd_missing = [], cd_semantic_errors = [], cd_components = []\<rparr>\<rparr>"

definition sample_span_v1 :: report_span_v1 where
  "sample_span_v1 = \<lparr>sv_schema_version = [], sv_trace_id = ''t'', sv_span_id = ''s'',
     sv_parent_span_id = None, sv_kind = Turn, sv_name = ''n'', sv_status = StatusOk,
     sv_start_time_unix_ms = f64_nat 1, sv_end_time_unix_ms = None, sv_repo = ''r'',
     sv_agent = \<lparr>ra_name = None, ra_model = None, ra_version = None\<rparr>, sv_session_id = None,
     sv_turn_id = None, sv_tool_name = None,
     sv_attributes = \<lparr>rt_source = None, rt_event_type = None, rt_envelope_type = None,
       rt_session_id = None, rt_turn_id = None, rt_request_id = None, rt_call_id = None,
       rt_tool_name = None, rt_phase = None, rt_exit_code = None, rt_sandbox = None,
       rt_approval = None\<rparr>,
     sv_metrics = \<lparr>rm_input_tokens = Some (f64_nat 4), rm_output_tokens = None,
       rm_cached_input_tokens = None, rm_cache_creation_input_tokens = None,
       rm_reasoning_output_tokens = None, rm_total_tokens = None, rm_latency_ms = None,
       rm_duration_ms = None, rm_total_input_tokens = None, rm_total_output_tokens = None,
       rm_total_cached_input_tokens = None, rm_total_reasoning_output_tokens = None,
       rm_total_accumulated_tokens = None, rm_context_window_tokens = None\<rparr>,
     sv_estimated_cost = None, sv_cost = sample_cost\<rparr>"

lemma sample_span_v1_valid: "validate_report_span_v1 sample_span_v1 = Inr ()"
  by (simp add: validate_report_span_v1_def sample_span_v1_def validate_finite_def present_def
    validate_report_attributes_def report_attribute_values_def validate_report_metrics_def
    report_metric_values_def validate_cost_def sample_cost_def bt_values_def)

subsection \<open>Properties\<close>

text \<open>Conversion of a v1 report succeeds exactly on the valid v1 reports: the availability it
  makes up for each span never contradicts the span's metrics, and nothing but the version and the
  availability is new.\<close>

lemma legacy_conversion:
  "try_from_v1 r = Inr q \<longleftrightarrow> validate_report_v1 r = Inr () \<and> q = report_from_v1 r"
  using report_from_v1_valid [of r] by (auto simp: try_from_v1_def result_simps)

text \<open>In a valid span the token availability says exactly what the metrics hold: tokens are
  available when a total can be formed, partial when only some counter is there, and absent
  otherwise.\<close>

lemma token_availability_exact:
  assumes "validate_report_span s = Inr ()"
  shows "(fa_state (av_tokens (sp_availability s)) = Available \<longleftrightarrow>
           report_token_total_present (sp_metrics s)) \<and>
    (fa_state (av_tokens (sp_availability s)) \<noteq> Available \<and> report_token_metrics_present (sp_metrics s) \<longrightarrow>
       fa_reason (av_tokens (sp_availability s)) = ''partial_token_metrics'')"
  using assms
  by (auto simp: validate_report_span_def result_simps token_availability_valid_def split: if_splits)

end
