(* ===== verification/Pricing.thy ===== *)
theory Pricing
  imports Report_Contract
begin

section \<open>Pricing\<close>

text \<open>
  Rate tables and cost estimates of \<^verbatim>\<open>crates/application/src/lib.rs\<close>: normalization of a rate
  table, the tokens of a span that are billed, the estimate of one span and the aggregate of many.
  JSON parsing of a rate table is left out; a parsed document is a \<open>rate_table_document\<close>.
\<close>

subsection \<open>Rate tables\<close>

definition TOKEN_KEYS :: "string list" where
  "TOKEN_KEYS = [''input_tokens'', ''output_tokens'', ''cached_input_tokens'',
     ''cache_creation_input_tokens'', ''reasoning_output_tokens'']"

definition OVERLAP_KEYS :: "string list" where
  "OVERLAP_KEYS = [''cached_input_tokens'', ''cache_creation_input_tokens'',
     ''reasoning_output_tokens'']"

definition DEFAULT_ASSUMPTION :: string where
  "DEFAULT_ASSUMPTION = ''Estimated from a local static rate table; not a billing statement.''"

definition NO_TABLE_ASSUMPTION :: string where
  "NO_TABLE_ASSUMPTION = ''No local rate table was supplied.''"

definition RATE_TABLE_VERSION :: string where
  "RATE_TABLE_VERSION = ''agent_observability.rate_table.v1''"

datatype token_semantics = Exclusive | IncludedInTotal

record model_rates =
  mr_input_tokens :: "f64 option"
  mr_output_tokens :: "f64 option"
  mr_cached_input_tokens :: "f64 option"
  mr_cache_creation_input_tokens :: "f64 option"
  mr_reasoning_output_tokens :: "f64 option"
  mr_token_semantics :: "(string, token_semantics) btree"

record rate_table =
  tb_version :: string
  tb_currency :: string
  tb_unit :: string
  tb_assumption :: string
  tb_models :: "(string, model_rates) btree"

definition rate_table_default :: rate_table where
  "rate_table_default = \<lparr>tb_version = ''unversioned'', tb_currency = ''USD'',
     tb_unit = ''per_1m_tokens'', tb_assumption = DEFAULT_ASSUMPTION, tb_models = []\<rparr>"

record model_rates_input =
  mi_input_tokens :: "f64 option"
  mi_output_tokens :: "f64 option"
  mi_cached_input_tokens :: "f64 option"
  mi_cache_creation_input_tokens :: "f64 option"
  mi_reasoning_output_tokens :: "f64 option"
  mi_token_semantics :: "(string, string) btree"

record rate_table_input =
  ti_version :: "string option"
  ti_currency :: "string option"
  ti_unit :: "string option"
  ti_assumption :: "string option"
  ti_models :: "(string, model_rates_input) btree"

record rate_table_document =
  td_schema_version :: string
  td_version :: "string option"
  td_currency :: "string option"
  td_unit :: "string option"
  td_assumption :: "string option"
  td_models :: "(string, model_rates_input) btree"

datatype pricing_error =
    InvalidDocument
  | UnsupportedVersion
  | UnsupportedUnit
  | InvalidRate string
  | UnsupportedSemantic string

fun display_pricing_error :: "pricing_error \<Rightarrow> string" where
  "display_pricing_error InvalidDocument = ''invalid rate table document''"
| "display_pricing_error UnsupportedVersion = ''unsupported rate table version''"
| "display_pricing_error UnsupportedUnit = ''rate table unit must be per_1m_tokens''"
| "display_pricing_error (InvalidRate label) =
     ''rate table '' @ label @ '' must be a non-negative finite number''"
| "display_pricing_error (UnsupportedSemantic key) =
     ''rate table token_semantics.'' @ key @ '' is not supported''"

definition normalize_rate :: "f64 option \<Rightarrow> string \<Rightarrow> pricing_error + f64 option" where
  "normalize_rate rate label = (case rate of
       None \<Rightarrow> Inr None
     | Some value \<Rightarrow> if is_finite value \<and> f64_le f64_zero value then Inr (Some value)
         else Inl (InvalidRate label))"

definition normalize_semantic :: "string \<times> string \<Rightarrow> pricing_error + string \<times> token_semantics" where
  "normalize_semantic = (\<lambda>(key, value).
     if key \<notin> set OVERLAP_KEYS then Inl (UnsupportedSemantic key)
     else if value = ''exclusive'' then Inr (key, Exclusive)
     else if value = ''included_in_total'' then Inr (key, IncludedInTotal)
     else Inl (UnsupportedSemantic key))"

definition normalize_semantics ::
  "(string, string) btree \<Rightarrow> pricing_error + (string, token_semantics) btree" where
  "normalize_semantics input =
     bind_result (try_map normalize_semantic input) (\<lambda>es. Inr (bt_collect es))"

definition nonempty_or :: "string option \<Rightarrow> string \<Rightarrow> string" where
  "nonempty_or value fallback = (case value of
       None \<Rightarrow> fallback
     | Some v \<Rightarrow> if v = [] then fallback else v)"

definition normalize_model ::
  "string \<times> model_rates_input \<Rightarrow> pricing_error + string \<times> model_rates" where
  "normalize_model = (\<lambda>(model, rates).
     bind_result (normalize_rate (mi_input_tokens rates) (model @ ''.input_tokens'')) (\<lambda>i.
     bind_result (normalize_rate (mi_output_tokens rates) (model @ ''.output_tokens'')) (\<lambda>out.
     bind_result (normalize_rate (mi_cached_input_tokens rates)
       (model @ ''.cached_input_tokens'')) (\<lambda>cached.
     bind_result (normalize_rate (mi_cache_creation_input_tokens rates)
       (model @ ''.cache_creation_input_tokens'')) (\<lambda>creation.
     bind_result (normalize_rate (mi_reasoning_output_tokens rates)
       (model @ ''.reasoning_output_tokens'')) (\<lambda>reasoning.
     bind_result (normalize_semantics (mi_token_semantics rates)) (\<lambda>semantics.
     Inr (model, \<lparr>mr_input_tokens = i, mr_output_tokens = out, mr_cached_input_tokens = cached,
       mr_cache_creation_input_tokens = creation, mr_reasoning_output_tokens = reasoning,
       mr_token_semantics = semantics\<rparr>))))))))"

definition normalize_rate_table :: "rate_table_input \<Rightarrow> pricing_error + rate_table" where
  "normalize_rate_table input =
     (if (case ti_unit input of None \<Rightarrow> False | Some unit \<Rightarrow> unit \<noteq> ''per_1m_tokens'')
        then Inl UnsupportedUnit
      else
        bind_result (try_map normalize_model (ti_models input)) (\<lambda>models.
        Inr \<lparr>tb_version = nonempty_or (ti_version input) ''unversioned'',
             tb_currency = nonempty_or (ti_currency input) ''USD'',
             tb_unit = ''per_1m_tokens'',
             tb_assumption = nonempty_or (ti_assumption input) DEFAULT_ASSUMPTION,
             tb_models = bt_collect models\<rparr>))"

text \<open>\<open>parse\<close> is the JSON parser of serde.\<close>

definition parse_rate_table_json ::
  "(string \<Rightarrow> rate_table_document option) \<Rightarrow> string \<Rightarrow> pricing_error + rate_table" where
  "parse_rate_table_json parse input =
     bind_result (ok_or (parse input) InvalidDocument) (\<lambda>document.
     if td_schema_version document \<noteq> RATE_TABLE_VERSION then Inl UnsupportedVersion
     else normalize_rate_table \<lparr>ti_version = td_version document,
       ti_currency = td_currency document, ti_unit = td_unit document,
       ti_assumption = td_assumption document, ti_models = td_models document\<rparr>)"

subsection \<open>Billable tokens\<close>

definition rate_for :: "model_rates \<Rightarrow> string \<Rightarrow> f64 option" where
  "rate_for rates key =
     (if key = ''input_tokens'' then mr_input_tokens rates
      else if key = ''output_tokens'' then mr_output_tokens rates
      else if key = ''cached_input_tokens'' then mr_cached_input_tokens rates
      else if key = ''cache_creation_input_tokens'' then mr_cache_creation_input_tokens rates
      else if key = ''reasoning_output_tokens'' then mr_reasoning_output_tokens rates
      else None)"

definition metric :: "f64 option \<Rightarrow> f64 option" where
  "metric value = Option.bind value (\<lambda>v. if is_finite v \<and> f64_le f64_zero v then Some v else None)"

definition metric_entries :: "metrics_v1 \<Rightarrow> (string, f64) btree" where
  "metric_entries m = bt_collect (present (map (\<lambda>(key, value). map_option (Pair key) value)
     (bt_collect [(''input_tokens'', metric (mt_input_tokens m)),
       (''output_tokens'', metric (mt_output_tokens m)),
       (''cached_input_tokens'', metric (mt_cached_input_tokens m)),
       (''cache_creation_input_tokens'', metric (mt_cache_creation_input_tokens m)),
       (''reasoning_output_tokens'', metric (mt_reasoning_output_tokens m))])))"

type_synonym bill = "(string, f64) btree \<times> string list"

text \<open>Breakdown keys that are present are looked up in the semantics of the model; a key without
  semantics is dropped with an error.\<close>

fun classify ::
  "model_rates \<Rightarrow> string list \<Rightarrow> bill \<Rightarrow> bill \<times> string list" where
  "classify rates [] b = (b, [])"
| "classify rates (key # keys) (vals, errors) =
     (case bt_get (mr_token_semantics rates) key of
        Some IncludedInTotal \<Rightarrow>
          (case classify rates keys (vals, errors) of (b, included) \<Rightarrow> (b, key # included))
      | Some Exclusive \<Rightarrow> classify rates keys (vals, errors)
      | None \<Rightarrow> classify rates keys (bt_remove key vals, errors @ [key @ '':missing_semantics'']))"

definition f64_sum :: "f64 list \<Rightarrow> f64" where
  "f64_sum xs = foldl f64_add (Fin True 0) xs"

definition bill_group :: "model_rates \<Rightarrow> string \<times> string list \<Rightarrow> bill \<Rightarrow> bill" where
  "bill_group rates = (\<lambda>(total, breakdowns) (vals, errors).
     let keys = filter (\<lambda>key. bt_get vals key \<noteq> None) breakdowns
     in case classify rates keys (vals, errors) of ((vals, errors), included) \<Rightarrow>
       if included = [] then (vals, errors)
       else
         let included_total = f64_sum (map (\<lambda>key. the (bt_get vals key)) included);
             invalid = (fold bt_remove included vals,
               errors @ [total @ '':invalid_included_breakdown''])
         in case bt_get vals total of
              None \<Rightarrow> invalid
            | Some total_value \<Rightarrow>
                if f64_lt total_value included_total then invalid
                else (bt_insert total (f64_sub total_value included_total) vals, errors))"

definition billable_metrics :: "metrics_v1 \<Rightarrow> model_rates \<Rightarrow> bill" where
  "billable_metrics m rates =
     fold (bill_group rates)
       [(''input_tokens'', [''cached_input_tokens'', ''cache_creation_input_tokens'']),
        (''output_tokens'', [''reasoning_output_tokens''])]
       (metric_entries m, [])"

subsection \<open>Estimates\<close>

definition round_currency :: "f64 \<Rightarrow> f64" where
  "round_currency value =
     f64_div (f64_round (f64_mul value (f64_nat 1000000000))) (f64_nat 1000000000)"

definition table_ref :: "rate_table \<Rightarrow> rate_table_ref" where
  "table_ref table = \<lparr>rr_version = Some (tb_version table), rr_unit = Some ''per_1m_tokens''\<rparr>"

definition cost_detail_default :: cost_detail where
  "cost_detail_default = \<lparr>cd_assumption = [], cd_incomplete_count = None, cd_unknown_count = None,
     cd_missing = [], cd_semantic_errors = [], cd_components = []\<rparr>"

definition unknown_cost :: "string \<Rightarrow> cost_estimate" where
  "unknown_cost reason = \<lparr>ce_status = ''unknown'', ce_reason = Some reason,
     ce_estimated_cost = None, ce_currency = None, ce_model = None,
     ce_rate_table = \<lparr>rr_version = None, rr_unit = None\<rparr>,
     ce_cost = cost_detail_default\<lparr>cd_assumption := NO_TABLE_ASSUMPTION\<rparr>\<rparr>"

definition cost_result ::
  "rate_table \<Rightarrow> string \<Rightarrow> string option \<Rightarrow> string option \<Rightarrow> f64 option \<Rightarrow>
   (string, cost_component) btree \<Rightarrow> string list \<Rightarrow> string list \<Rightarrow> cost_estimate" where
  "cost_result table status reason model amount components missing semantic_errors =
     \<lparr>ce_status = status, ce_reason = reason, ce_estimated_cost = amount,
      ce_currency = Some (tb_currency table), ce_model = model, ce_rate_table = table_ref table,
      ce_cost = cost_detail_default\<lparr>cd_assumption := tb_assumption table, cd_missing := missing,
        cd_semantic_errors := semantic_errors, cd_components := components\<rparr>\<rparr>"

record pricing =
  pc_tokens :: "(string, f64) btree"
  pc_missing :: "string list"
  pc_components :: "(string, cost_component) btree"
  pc_amount :: f64

definition price_key :: "model_rates \<Rightarrow> string \<Rightarrow> pricing \<Rightarrow> pricing" where
  "price_key rates key p = (case bt_get (pc_tokens p) key of
       None \<Rightarrow> p
     | Some token_count \<Rightarrow>
         let p = p\<lparr>pc_tokens := bt_remove key (pc_tokens p)\<rparr>
         in if f64_eq token_count f64_zero then p
            else case rate_for rates key of
              None \<Rightarrow> p\<lparr>pc_missing := pc_missing p @ [key]\<rparr>
            | Some rate \<Rightarrow>
                let component_cost = f64_mul (f64_div token_count (f64_nat 1000000)) rate
                in p\<lparr>pc_components := bt_insert key \<lparr>cc_tokens = token_count,
                       cc_rate_per_1m = rate, cc_estimated_cost = round_currency component_cost\<rparr>
                       (pc_components p),
                     pc_amount := f64_add (pc_amount p) component_cost\<rparr>)"

definition price_tokens :: "model_rates \<Rightarrow> (string, f64) btree \<Rightarrow> pricing" where
  "price_tokens rates tokens = fold (price_key rates) TOKEN_KEYS
     \<lparr>pc_tokens = tokens, pc_missing = [], pc_components = [], pc_amount = f64_zero\<rparr>"

definition estimate_span_cost :: "durable_record \<Rightarrow> rate_table option \<Rightarrow> cost_estimate" where
  "estimate_span_cost record table_opt = (case table_opt of
       None \<Rightarrow> unknown_cost ''missing_rate_table''
     | Some table \<Rightarrow>
         (let model = ag_model (dr_agent record) in case model of
            None \<Rightarrow> cost_result table ''unknown'' (Some ''missing_model'') model None [] [] []
          | Some model_name \<Rightarrow>
              (case bt_get (tb_models table) model_name of
                 None \<Rightarrow> cost_result table ''unknown'' (Some ''missing_model_rate'') model None [] [] []
               | Some rates \<Rightarrow>
                   (case billable_metrics (dr_metrics record) rates of (tokens, semantic_errors) \<Rightarrow>
                    let p = price_tokens rates tokens;
                        missing = pc_missing p;
                        components = pc_components p
                    in if components = [] \<and> missing = [] \<and> semantic_errors = []
                       then cost_result table ''unknown'' (Some ''missing_token_metrics'') model None
                         components missing semantic_errors
                       else cost_result table
                         (if missing = [] \<and> semantic_errors = [] then ''estimated'' else ''incomplete'')
                         (if semantic_errors \<noteq> [] then Some ''ambiguous_token_semantics''
                          else if missing \<noteq> [] then Some ''missing_token_rates''
                          else None)
                         model (Some (round_currency (pc_amount p))) components missing
                         semantic_errors))))"

subsection \<open>Aggregates\<close>

record aggregate_cost =
  gc_count :: u64
  gc_status :: string
  gc_amount :: f64
  gc_incomplete :: u64
  gc_unknown :: u64

record cost_counts =
  cn_count :: u64
  cn_incomplete :: u64
  cn_unknown :: u64
  cn_estimated :: u64
  cn_amount :: f64

definition count_if :: "bool \<Rightarrow> u64 \<Rightarrow> u64" where
  "count_if b n = saturating_add n (if b then 1 else 0)"

definition count_cost :: "cost_estimate \<Rightarrow> cost_counts \<Rightarrow> cost_counts" where
  "count_cost cost c = \<lparr>
     cn_count = saturating_add (cn_count c) 1,
     cn_incomplete = count_if (ce_status cost = ''incomplete'') (cn_incomplete c),
     cn_unknown = count_if (ce_status cost = ''unknown'') (cn_unknown c),
     cn_estimated = count_if (ce_status cost = ''estimated'') (cn_estimated c),
     cn_amount = f64_add (cn_amount c)
       (case ce_estimated_cost cost of None \<Rightarrow> f64_zero | Some a \<Rightarrow> a)\<rparr>"

definition aggregate_cost_refs :: "cost_estimate list \<Rightarrow> aggregate_cost" where
  "aggregate_cost_refs costs =
     (let c = fold count_cost costs \<lparr>cn_count = 0, cn_incomplete = 0, cn_unknown = 0,
            cn_estimated = 0, cn_amount = f64_zero\<rparr>
      in \<lparr>gc_count = cn_count c,
          gc_status = (if cn_estimated c = 0 \<and> cn_incomplete c = 0 then ''unknown''
            else if cn_incomplete c > 0 \<or> cn_unknown c > 0 then ''incomplete''
            else ''estimated''),
          gc_amount = cn_amount c, gc_incomplete = cn_incomplete c, gc_unknown = cn_unknown c\<rparr>)"

definition aggregate_costs :: "cost_estimate list \<Rightarrow> aggregate_cost" where
  "aggregate_costs costs = aggregate_cost_refs costs"

definition aggregate_report_costs :: "rate_table \<Rightarrow> aggregate_cost \<Rightarrow> cost_estimate" where
  "aggregate_report_costs table aggregate = \<lparr>
     ce_status = gc_status aggregate, ce_reason = None,
     ce_estimated_cost = Some (round_currency (gc_amount aggregate)),
     ce_currency = Some (tb_currency table), ce_model = None, ce_rate_table = table_ref table,
     ce_cost = cost_detail_default\<lparr>cd_assumption := tb_assumption table,
       cd_incomplete_count := Some (gc_incomplete aggregate),
       cd_unknown_count := Some (gc_unknown aggregate)\<rparr>\<rparr>"

definition has_token_metrics :: "metrics_v1 \<Rightarrow> bool" where
  "has_token_metrics m = list_ex (\<lambda>v. metric v \<noteq> None)
     [mt_input_tokens m, mt_output_tokens m, mt_cached_input_tokens m,
      mt_cache_creation_input_tokens m, mt_reasoning_output_tokens m]"

definition estimate_cost_for_records ::
  "durable_record list \<Rightarrow> rate_table option \<Rightarrow> cost_estimate" where
  "estimate_cost_for_records records table_opt = (case table_opt of
       None \<Rightarrow> unknown_cost ''missing_rate_table''
     | Some table \<Rightarrow>
         let billable = filter (\<lambda>r. has_token_metrics (dr_metrics r)) records
         in if billable = []
            then cost_result table ''unknown'' (Some ''missing_token_metrics'') None None [] [] []
            else aggregate_report_costs table
              (aggregate_costs (map (\<lambda>r. estimate_span_cost r (Some table)) billable)))"

definition has_report_token_metrics :: "report_metrics \<Rightarrow> bool" where
  "has_report_token_metrics m = list_ex (\<lambda>v. metric v \<noteq> None)
     [rm_input_tokens m, rm_output_tokens m, rm_cached_input_tokens m,
      rm_cache_creation_input_tokens m, rm_reasoning_output_tokens m]"

definition estimate_cost_for_spans :: "report_span_v2 list \<Rightarrow> rate_table option \<Rightarrow> cost_estimate" where
  "estimate_cost_for_spans spans table_opt = (case table_opt of
       None \<Rightarrow> unknown_cost ''missing_rate_table''
     | Some table \<Rightarrow>
         let costs = map sp_cost (filter (\<lambda>s. has_report_token_metrics (sp_metrics s)) spans);
             aggregate = aggregate_cost_refs costs
         in if gc_count aggregate = 0
            then cost_result table ''unknown'' (Some ''missing_token_metrics'') None None [] [] []
            else aggregate_report_costs table aggregate)"

end
