(* ===== verification/Report.thy ===== *)
theory Report
  imports Pricing
begin

section \<open>Report projection\<close>

text \<open>
  The report projector of \<^verbatim>\<open>crates/application/src/lib.rs\<close>: one durable record becomes one report
  span; \<^verbatim>\<open>finish\<close> sorts the spans, propagates repositories inside a trace, sums the metrics and
  builds filters and trace summaries.  Token counts of a trace are added with the wrap-around of
  \<^verbatim>\<open>u64\<close>; that they never wrap is a theorem of \<^verbatim>\<open>Report_Laws\<close>.
\<close>

datatype report_projection_error =
    InvalidRecord nat contract_error
  | InvalidReport contract_error
  | InvalidSummaryMetric string f64

subsection \<open>One span\<close>

definition scalar_string :: "scalar_value option \<Rightarrow> string option" where
  "scalar_string value = (case value of
       Some (SString s) \<Rightarrow> if s \<noteq> [] then Some s else None
     | _ \<Rightarrow> None)"

definition hash_scalar_identifier :: "digest \<Rightarrow> scalar_value option \<Rightarrow> scalar_value option" where
  "hash_scalar_identifier sha value = (case value of
       Some (SString s) \<Rightarrow> Some (SString (hash_opaque_identifier sha s))
     | Some v \<Rightarrow> Some v
     | None \<Rightarrow> None)"

definition report_attributes_of :: "digest \<Rightarrow> attributes_v1 \<Rightarrow> report_attributes" where
  "report_attributes_of sha a = \<lparr>
     rt_source = at_source a,
     rt_event_type = at_event_type a,
     rt_envelope_type = at_envelope_type a,
     rt_session_id = hash_scalar_identifier sha (at_session_id a),
     rt_turn_id = hash_scalar_identifier sha (at_turn_id a),
     rt_request_id = hash_scalar_identifier sha (at_request_id a),
     rt_call_id = hash_scalar_identifier sha (at_call_id a),
     rt_tool_name = at_tool_name a,
     rt_phase = at_phase a,
     rt_exit_code = at_exit_code a,
     rt_sandbox = at_sandbox a,
     rt_approval = at_approval a\<rparr>"

definition report_metrics_of :: "metrics_v1 \<Rightarrow> report_metrics" where
  "report_metrics_of m = \<lparr>
     rm_input_tokens = mt_input_tokens m,
     rm_output_tokens = mt_output_tokens m,
     rm_cached_input_tokens = mt_cached_input_tokens m,
     rm_cache_creation_input_tokens = mt_cache_creation_input_tokens m,
     rm_reasoning_output_tokens = mt_reasoning_output_tokens m,
     rm_total_tokens = mt_total_tokens m,
     rm_latency_ms = mt_latency_ms m,
     rm_duration_ms = mt_duration_ms m,
     rm_total_input_tokens = mt_total_input_tokens m,
     rm_total_output_tokens = mt_total_output_tokens m,
     rm_total_cached_input_tokens = mt_total_cached_input_tokens m,
     rm_total_reasoning_output_tokens = mt_total_reasoning_output_tokens m,
     rm_total_accumulated_tokens = mt_total_accumulated_tokens m,
     rm_context_window_tokens = mt_context_window_tokens m\<rparr>"

definition span_name :: "durable_record \<Rightarrow> report_attributes \<Rightarrow> string" where
  "span_name record attributes = (case dr_span_kind record of
       AgentSession \<Rightarrow>
         (case ag_name (dr_agent record) of None \<Rightarrow> ''Agent'' | Some n \<Rightarrow> n) @ '' session''
     | Turn \<Rightarrow> ''Turn''
     | LlmRequest \<Rightarrow>
         (case ag_model (dr_agent record) of None \<Rightarrow> ''LLM request'' | Some m \<Rightarrow> ''LLM '' @ m)
     | ToolExecution \<Rightarrow>
         (case scalar_string (rt_tool_name attributes) of None \<Rightarrow> ''Tool execution'' | Some n \<Rightarrow> n)
     | Permission \<Rightarrow> ''Permission''
     | Compaction \<Rightarrow> ''Compaction''
     | Workstream \<Rightarrow> ''Workstream'')"

definition UNKNOWN :: string where
  "UNKNOWN = ''unknown''"

definition repo_name :: "durable_record \<Rightarrow> string" where
  "repo_name record = (case pj_name (dr_project record) of
       Some name \<Rightarrow> if name \<noteq> [] then name else UNKNOWN
     | None \<Rightarrow> UNKNOWN)"

definition field_availability_of :: "availability_state \<Rightarrow> string \<Rightarrow> field_availability" where
  "field_availability_of state reason = \<lparr>fa_state = state, fa_reason = reason\<rparr>"

definition token_availability :: "report_metrics \<Rightarrow> span_kind \<Rightarrow> field_availability" where
  "token_availability metrics kind =
     (if report_token_total_present metrics then field_availability_of Available ''reported_by_adapter''
      else if report_token_metrics_present metrics
        then field_availability_of SourceUnavailable ''partial_token_metrics''
      else if kind = LlmRequest then field_availability_of SourceUnavailable ''source_not_provided''
      else field_availability_of NotApplicable ''span_kind_has_no_token_usage'')"

definition private_lookup_availability ::
  "string option \<Rightarrow> report_attributes \<Rightarrow> string option \<Rightarrow> span_kind \<Rightarrow> field_availability" where
  "private_lookup_availability agent_name attributes turn_id kind =
     (let source = scalar_string (rt_source attributes);
          event_type = scalar_string (rt_event_type attributes)
      in if source = Some ''codex.notify_or_session_jsonl''
           then field_availability_of SourceUnavailable ''historical_codex_source_not_lookup_eligible''
         else if agent_name = Some ''claude-code''
           then field_availability_of NotApplicable ''claude_private_lookup_not_supported''
         else if agent_name = Some ''cursor''
           then field_availability_of NotApplicable ''cursor_private_lookup_not_supported''
         else if agent_name = Some ''codex''
           then if source = Some ''codex'' \<and> event_type = Some ''turn'' \<and> kind = Turn
             then if turn_id \<noteq> None
               then field_availability_of PrivateLookup ''local_opt_in_lookup_required''
               else field_availability_of SourceUnavailable ''codex_notify_turn_correlation_unavailable''
             else field_availability_of NotApplicable ''codex_span_not_notify_derived''
         else field_availability_of NotApplicable ''agent_private_lookup_not_supported'')"

definition report_availability_of ::
  "string \<Rightarrow> string option \<Rightarrow> string option \<Rightarrow> field_availability \<Rightarrow> bool \<Rightarrow> span_kind
   \<Rightarrow> field_availability \<Rightarrow> report_availability" where
  "report_availability_of repo turn_id model tokens latency_present kind private_detail = \<lparr>
     av_repository = (if repo = UNKNOWN
       then field_availability_of SourceUnavailable ''source_not_provided''
       else field_availability_of Available ''reported_by_adapter''),
     av_turn = (if turn_id \<noteq> None then field_availability_of Available ''reported_by_adapter''
       else field_availability_of SourceUnavailable ''source_not_provided''),
     av_model = (if model \<noteq> None then field_availability_of Available ''reported_by_adapter''
       else if kind = LlmRequest \<or> kind = AgentSession
         then field_availability_of SourceUnavailable ''source_not_provided''
       else field_availability_of NotApplicable ''span_kind_not_model_backed''),
     av_tokens = tokens,
     av_latency = (if latency_present then field_availability_of Available ''reported_by_adapter''
       else if kind = LlmRequest \<or> kind = ToolExecution
         then field_availability_of SourceUnavailable ''source_not_provided''
       else field_availability_of NotApplicable ''span_kind_has_no_latency''),
     av_source_location = private_detail,
     av_request_content = private_detail,
     av_response_content = private_detail\<rparr>"

definition report_span :: "digest \<Rightarrow> durable_record \<Rightarrow> rate_table option \<Rightarrow> report_span_v2" where
  "report_span sha record table =
     (let attributes = report_attributes_of sha (dr_attributes record);
          metrics = report_metrics_of (dr_metrics record);
          cost = estimate_span_cost record table;
          repo = repo_name record;
          session_id = scalar_string (rt_session_id attributes);
          turn_id = scalar_string (rt_turn_id attributes);
          model = ag_model (dr_agent record);
          latency_present = (rm_latency_ms metrics \<noteq> None \<or> rm_duration_ms metrics \<noteq> None);
          tokens = token_availability metrics (dr_span_kind record);
          private_detail = private_lookup_availability (ag_name (dr_agent record)) attributes turn_id
            (dr_span_kind record)
      in \<lparr>sp_schema_version = dr_schema_version record,
          sp_trace_id = hash_opaque_identifier sha (dr_trace_id record),
          sp_span_id = hash_opaque_identifier sha (dr_span_id record),
          sp_parent_span_id = map_option (hash_opaque_identifier sha) (dr_parent_span_id record),
          sp_kind = dr_span_kind record,
          sp_name = span_name record attributes,
          sp_status = dr_status record,
          sp_start_time_unix_ms = dr_start_time_unix_ms record,
          sp_end_time_unix_ms = dr_end_time_unix_ms record,
          sp_repo = repo,
          sp_agent = \<lparr>ra_name = ag_name (dr_agent record), ra_model = model,
            ra_version = ag_version (dr_agent record)\<rparr>,
          sp_availability = report_availability_of repo turn_id model tokens latency_present
            (dr_span_kind record) private_detail,
          sp_session_id = session_id,
          sp_turn_id = turn_id,
          sp_tool_name = scalar_string (rt_tool_name attributes),
          sp_attributes = attributes,
          sp_metrics = metrics,
          sp_estimated_cost = ce_estimated_cost cost,
          sp_cost = cost\<rparr>)"

definition map_error :: "('e \<Rightarrow> 'f) \<Rightarrow> 'e + 'a \<Rightarrow> 'f + 'a" where
  "map_error f r = (case r of Inl e \<Rightarrow> Inl (f e) | Inr a \<Rightarrow> Inr a)"

definition project_report_span ::
  "digest \<Rightarrow> nat \<Rightarrow> durable_record \<Rightarrow> rate_table option \<Rightarrow> report_projection_error + report_span_v2" where
  "project_report_span sha index record table =
     bind_result (map_error (InvalidRecord index) (sanitize_durable_record sha record)) (\<lambda>record.
     let span = report_span sha record table
     in bind_result (map_error InvalidReport (validate_report_span span)) (\<lambda>_. Inr span))"

definition project_owned_report_span ::
  "digest \<Rightarrow> nat \<Rightarrow> durable_record \<Rightarrow> rate_table option \<Rightarrow> report_projection_error + report_span_v2" where
  "project_owned_report_span sha index record table =
     bind_result (map_error (InvalidRecord index) (sanitize_owned_durable_record sha record)) (\<lambda>record.
     let span = report_span sha record table
     in bind_result (map_error InvalidReport (validate_report_span span)) (\<lambda>_. Inr span))"

subsection \<open>Repositories of a trace\<close>

definition resolve_report_repository :: "string list \<Rightarrow> report_span_v2 \<Rightarrow> report_span_v2" where
  "resolve_report_repository known_repositories sp =
     (if sp_repo sp \<noteq> UNKNOWN then sp
      else case filter (\<lambda>r. r \<noteq> UNKNOWN) known_repositories of
        [] \<Rightarrow> sp
      | first # rest \<Rightarrow>
          if list_ex (\<lambda>r. r \<noteq> first) rest
          then sp\<lparr>sp_availability := (sp_availability sp)\<lparr>av_repository :=
            field_availability_of SourceUnavailable ''ambiguous_trace_repository''\<rparr>\<rparr>
          else sp\<lparr>sp_repo := first, sp_availability := (sp_availability sp)\<lparr>av_repository :=
            field_availability_of Available ''derived_from_trace_context''\<rparr>\<rparr>)"

definition known_repositories :: "report_span_v2 list \<Rightarrow> (string, string list) btree" where
  "known_repositories spans =
     bt_group sp_trace_id (\<lambda>_. []) (\<lambda>s. insort_insert (sp_repo s))
       (filter (\<lambda>s. sp_repo s \<noteq> UNKNOWN) spans)"

definition repositories_of :: "(string, string list) btree \<Rightarrow> string \<Rightarrow> string list" where
  "repositories_of known trace = (case bt_get known trace of None \<Rightarrow> [] | Some rs \<Rightarrow> rs)"

definition propagate_trace_repositories :: "report_span_v2 list \<Rightarrow> report_span_v2 list" where
  "propagate_trace_repositories spans =
     (let known = known_repositories spans
      in map (\<lambda>s. resolve_report_repository (repositories_of known (sp_trace_id s)) s) spans)"

subsection \<open>Summaries\<close>

definition MAX_EXACT_U64 :: f64 where
  "MAX_EXACT_U64 = f64_nat 9007199254740991"

definition exact_u64 :: "f64 \<Rightarrow> u64" where
  "exact_u64 value = f64_as_u64 value"

definition invalid_summary_value :: "f64 \<Rightarrow> bool" where
  "invalid_summary_value value \<longleftrightarrow>
     \<not> is_finite value \<or> f64_lt value f64_zero \<or> fract_nonzero value \<or> f64_lt MAX_EXACT_U64 value"

fun sum_values :: "string \<Rightarrow> f64 list \<Rightarrow> u64 \<Rightarrow> report_projection_error + u64" where
  "sum_values field [] acc = Inr acc"
| "sum_values field (value # vals) acc =
     (if invalid_summary_value value then Inl (InvalidSummaryMetric field value)
      else bind_result (ok_or (checked_add acc (exact_u64 value))
             (InvalidSummaryMetric field (Inf False)))
           (\<lambda>acc. sum_values field vals acc))"

definition sum_integer_metric ::
  "report_span_v2 list \<Rightarrow> (report_metrics \<Rightarrow> f64 option) \<Rightarrow> string \<Rightarrow> report_projection_error + u64" where
  "sum_integer_metric spans get field =
     sum_values field (present (map (\<lambda>s. get (sp_metrics s)) spans)) 0"

definition count_where :: "('a \<Rightarrow> bool) \<Rightarrow> 'a list \<Rightarrow> u64" where
  "count_where p xs = word_of_nat (length (filter p xs))"

definition count_kind :: "report_span_v2 list \<Rightarrow> span_kind \<Rightarrow> u64" where
  "count_kind spans kind = count_where (\<lambda>s. sp_kind s = kind) spans"

definition cost_or_zero :: "f64 option \<Rightarrow> f64" where
  "cost_or_zero v = (case v of None \<Rightarrow> f64_zero | Some a \<Rightarrow> a)"

definition summarize_report :: "report_span_v2 list \<Rightarrow> report_projection_error + report_summary" where
  "summarize_report spans =
     bind_result (sum_integer_metric spans rm_input_tokens ''inputTokens'') (\<lambda>inp.
     bind_result (sum_integer_metric spans rm_output_tokens ''outputTokens'') (\<lambda>out.
     bind_result (sum_integer_metric spans rm_cached_input_tokens ''cachedInputTokens'') (\<lambda>cached.
     bind_result (sum_integer_metric spans rm_cache_creation_input_tokens
       ''cacheCreationInputTokens'') (\<lambda>creation.
     bind_result (sum_integer_metric spans rm_reasoning_output_tokens
       ''reasoningOutputTokens'') (\<lambda>reasoning.
     bind_result (sum_integer_metric spans rm_latency_ms ''latencyMs'') (\<lambda>latency.
     bind_result (sum_integer_metric spans rm_duration_ms ''durationMs'') (\<lambda>duration.
     Inr \<lparr>su_generated_spans = word_of_nat (length spans),
       su_sessions = count_kind spans AgentSession,
       su_turns = count_kind spans Turn,
       su_llm_requests = count_kind spans LlmRequest,
       su_tool_executions = count_kind spans ToolExecution,
       su_errors = count_where (\<lambda>s. sp_status s = StatusError) spans,
       su_input_tokens = inp, su_output_tokens = out, su_cached_input_tokens = cached,
       su_cache_creation_input_tokens = creation, su_reasoning_output_tokens = reasoning,
       su_latency_ms = latency, su_duration_ms = duration,
       su_estimated_cost = f64_sum (map (\<lambda>s. cost_or_zero (sp_estimated_cost s)) spans)\<rparr>)))))))"

definition unique_sorted :: "string list \<Rightarrow> string list" where
  "unique_sorted vals = bset_collect vals"

definition or_unknown :: "string option \<Rightarrow> string" where
  "or_unknown v = (case v of None \<Rightarrow> UNKNOWN | Some s \<Rightarrow> s)"

definition report_filters_of :: "report_span_v2 list \<Rightarrow> report_filters" where
  "report_filters_of spans = \<lparr>
     fl_repos = unique_sorted (map sp_repo spans),
     fl_sessions = unique_sorted (present (map sp_session_id spans)),
     fl_turns = unique_sorted (present (map sp_turn_id spans)),
     fl_agents = unique_sorted (map (\<lambda>s. or_unknown (ra_name (sp_agent s))) spans),
     fl_models = unique_sorted (map (\<lambda>s. or_unknown (ra_model (sp_agent s))) spans)\<rparr>"

definition max_nullable :: "f64 option \<Rightarrow> f64 option \<Rightarrow> f64 option" where
  "max_nullable left right = (case (left, right) of
       (None, v) \<Rightarrow> v
     | (v, None) \<Rightarrow> v
     | (Some l, Some r) \<Rightarrow> Some (f64_max l r))"

definition new_trace :: "report_span_v2 \<Rightarrow> trace_summary" where
  "new_trace sp = \<lparr>ts_trace_id = sp_trace_id sp, ts_repo = UNKNOWN, ts_spans = 0, ts_errors = 0,
     ts_input_tokens = 0, ts_output_tokens = 0, ts_estimated_cost = f64_zero,
     ts_start_time_unix_ms = sp_start_time_unix_ms sp,
     ts_end_time_unix_ms = sp_end_time_unix_ms sp, ts_sessions = [], ts_turns = []\<rparr>"

definition metric_or_zero :: "f64 option \<Rightarrow> u64" where
  "metric_or_zero v = exact_u64 (case v of None \<Rightarrow> f64_zero | Some x \<Rightarrow> x)"

definition add_to_trace :: "report_span_v2 \<Rightarrow> trace_summary \<Rightarrow> trace_summary" where
  "add_to_trace sp g = g\<lparr>
     ts_spans := ts_spans g + 1,
     ts_errors := ts_errors g + (if sp_status sp = StatusError then 1 else 0),
     ts_input_tokens := ts_input_tokens g + metric_or_zero (rm_input_tokens (sp_metrics sp)),
     ts_output_tokens := ts_output_tokens g + metric_or_zero (rm_output_tokens (sp_metrics sp)),
     ts_estimated_cost := f64_add (ts_estimated_cost g) (cost_or_zero (sp_estimated_cost sp)),
     ts_start_time_unix_ms := f64_min (ts_start_time_unix_ms g) (sp_start_time_unix_ms sp),
     ts_end_time_unix_ms := max_nullable (ts_end_time_unix_ms g) (sp_end_time_unix_ms sp),
     ts_sessions := ts_sessions g @ (case sp_session_id sp of None \<Rightarrow> [] | Some v \<Rightarrow> [v]),
     ts_turns := ts_turns g @ (case sp_turn_id sp of None \<Rightarrow> [] | Some v \<Rightarrow> [v])\<rparr>"

definition close_trace :: "(string, string list) btree \<Rightarrow> trace_summary \<Rightarrow> trace_summary" where
  "close_trace repositories t = t\<lparr>
     ts_repo := (case bt_get repositories (ts_trace_id t) of
         Some [repo] \<Rightarrow> repo
       | _ \<Rightarrow> ts_repo t),
     ts_sessions := remdups_adj (sort (ts_sessions t)),
     ts_turns := remdups_adj (sort (ts_turns t))\<rparr>"

text \<open>The stable \<open>sort_by\<close> of slices, for the order \<open>le\<close>.\<close>

fun insert_by :: "('a \<Rightarrow> 'a \<Rightarrow> bool) \<Rightarrow> 'a \<Rightarrow> 'a list \<Rightarrow> 'a list" where
  "insert_by le x [] = [x]"
| "insert_by le x (y # ys) = (if le x y then x # y # ys else y # insert_by le x ys)"

definition sort_by :: "('a \<Rightarrow> 'a \<Rightarrow> bool) \<Rightarrow> 'a list \<Rightarrow> 'a list" where
  "sort_by le xs = foldr (insert_by le) xs []"

definition trace_le :: "trace_summary \<Rightarrow> trace_summary \<Rightarrow> bool" where
  "trace_le l r \<longleftrightarrow>
     f64_total_less (ts_start_time_unix_ms l) (ts_start_time_unix_ms r) \<or>
     (\<not> f64_total_less (ts_start_time_unix_ms r) (ts_start_time_unix_ms l) \<and>
      ts_trace_id l \<le> ts_trace_id r)"

definition trace_summaries :: "report_span_v2 list \<Rightarrow> trace_summary list" where
  "trace_summaries spans =
     sort_by trace_le
       (map (close_trace (known_repositories spans))
         (bt_values (bt_group sp_trace_id new_trace add_to_trace spans)))"

subsection \<open>The projector\<close>

record report_projector =
  rp_spans :: "report_span_v2 list"
  rp_table :: "rate_table option"

definition projector_new :: "rate_table option \<Rightarrow> report_projector" where
  "projector_new table = \<lparr>rp_spans = [], rp_table = table\<rparr>"

definition projector_push ::
  "digest \<Rightarrow> nat \<Rightarrow> durable_record \<Rightarrow> (report_projector, report_projection_error) upd" where
  "projector_push sha index record p = (case project_report_span sha index record (rp_table p) of
       Inl e \<Rightarrow> (p, Some e)
     | Inr sp \<Rightarrow> (p\<lparr>rp_spans := rp_spans p @ [sp]\<rparr>, None))"

definition projector_push_owned ::
  "digest \<Rightarrow> nat \<Rightarrow> durable_record \<Rightarrow> (report_projector, report_projection_error) upd" where
  "projector_push_owned sha index record p =
     (case project_owned_report_span sha index record (rp_table p) of
        Inl e \<Rightarrow> (p, Some e)
      | Inr sp \<Rightarrow> (p\<lparr>rp_spans := rp_spans p @ [sp]\<rparr>, None))"

definition span_le :: "report_span_v2 \<Rightarrow> report_span_v2 \<Rightarrow> bool" where
  "span_le l r \<longleftrightarrow>
     f64_total_less (sp_start_time_unix_ms l) (sp_start_time_unix_ms r) \<or>
     (\<not> f64_total_less (sp_start_time_unix_ms r) (sp_start_time_unix_ms l) \<and>
      (sp_trace_id l < sp_trace_id r \<or>
       (sp_trace_id l = sp_trace_id r \<and> sp_span_id l \<le> sp_span_id r)))"

definition projector_finish ::
  "report_projector \<Rightarrow> string \<Rightarrow> string \<Rightarrow> report_projection_error + report_dto_v2" where
  "projector_finish p generated_at title =
     (let spans = propagate_trace_repositories (sort_by span_le (rp_spans p))
      in bind_result (summarize_report spans) (\<lambda>summary.
         let report = \<lparr>r2_schema_version = REPORT_DTO_VERSION,
               r2_generated_at = generated_at,
               r2_title = redact_sensitive_text title ''title'',
               r2_summary = summary,
               r2_cost = estimate_cost_for_spans spans (rp_table p),
               r2_filters = report_filters_of spans,
               r2_traces = trace_summaries spans,
               r2_spans = spans\<rparr>
         in bind_result (map_error InvalidReport (validate_report_v2 report)) (\<lambda>_. Inr report)))"

fun push_all ::
  "digest \<Rightarrow> nat \<Rightarrow> durable_record list \<Rightarrow> report_projector \<Rightarrow> report_projection_error + report_projector" where
  "push_all sha index [] p = Inr p"
| "push_all sha index (r # rs) p = (case projector_push sha index r p of
       (p', Some e) \<Rightarrow> Inl e
     | (p', None) \<Rightarrow> push_all sha (Suc index) rs p')"

definition project_report ::
  "digest \<Rightarrow> durable_record list \<Rightarrow> string \<Rightarrow> string \<Rightarrow> rate_table option
   \<Rightarrow> report_projection_error + report_dto_v2" where
  "project_report sha records generated_at title table =
     bind_result (push_all sha 0 records (projector_new table)) (\<lambda>p.
     projector_finish p generated_at title)"

end
