(* ===== verification/Pricing_Laws.thy ===== *)
theory Pricing_Laws
  imports Pricing Privacy_Laws
begin

section \<open>Properties of pricing\<close>

text \<open>
  What a normalized rate table holds, what is billed, the sign of an estimate and the meaning of
  the three cost statuses (\<^verbatim>\<open>crates/application/src/lib.rs\<close>).
\<close>

subsection \<open>Normalized rate tables\<close>

definition rate_ok :: "f64 option \<Rightarrow> bool" where
  "rate_ok v = (case v of None \<Rightarrow> True | Some x \<Rightarrow> f64_nonneg x)"

lemma rate_ok_simps [simp]: "rate_ok None" "rate_ok (Some x) \<longleftrightarrow> f64_nonneg x"
  by (simp_all add: rate_ok_def)

definition input_rates :: "model_rates_input \<Rightarrow> f64 option list" where
  "input_rates r = [mi_input_tokens r, mi_output_tokens r, mi_cached_input_tokens r,
     mi_cache_creation_input_tokens r, mi_reasoning_output_tokens r]"

definition semantic_ok :: "string \<times> string \<Rightarrow> bool" where
  "semantic_ok e \<longleftrightarrow> fst e \<in> set OVERLAP_KEYS \<and> snd e \<in> {''exclusive'', ''included_in_total''}"

definition model_ok :: "string \<times> model_rates_input \<Rightarrow> bool" where
  "model_ok e \<longleftrightarrow> list_all rate_ok (input_rates (snd e)) \<and>
     list_all semantic_ok (mi_token_semantics (snd e))"

lemma normalize_rate_iff: "normalize_rate rate label = Inr w \<longleftrightarrow> rate_ok rate \<and> w = rate"
  by (auto simp: normalize_rate_def f64_nonneg_le split: option.splits)

lemma normalize_semantic_ok: "(\<exists>w. normalize_semantic e = Inr w) \<longleftrightarrow> semantic_ok e"
  by (cases e) (auto simp: normalize_semantic_def semantic_ok_def)

lemma try_map_ok: "(\<exists>ys. try_map f xs = Inr ys) \<longleftrightarrow> (\<forall>x \<in> set xs. \<exists>y. f x = Inr y)"
  by (induction xs) (auto simp: result_simps)

lemma normalize_semantics_ok:
  "(\<exists>w. normalize_semantics es = Inr w) \<longleftrightarrow> list_all semantic_ok es"
proof -
  have "(\<exists>ys. try_map normalize_semantic es = Inr ys) \<longleftrightarrow> list_all semantic_ok es"
    unfolding try_map_ok normalize_semantic_ok list_all_iff ..
  then show ?thesis by (simp add: normalize_semantics_def bind_result_eq_Inr)
qed

lemma normalize_model_iff:
  "normalize_model (k, r) = Inr e \<longleftrightarrow>
     list_all rate_ok (input_rates r) \<and>
     (\<exists>w. normalize_semantics (mi_token_semantics r) = Inr w \<and>
       e = (k, \<lparr>mr_input_tokens = mi_input_tokens r, mr_output_tokens = mi_output_tokens r,
         mr_cached_input_tokens = mi_cached_input_tokens r,
         mr_cache_creation_input_tokens = mi_cache_creation_input_tokens r,
         mr_reasoning_output_tokens = mi_reasoning_output_tokens r, mr_token_semantics = w\<rparr>))"
  by (auto simp: normalize_model_def bind_result_eq_Inr normalize_rate_iff input_rates_def)

lemma normalize_model_ok: "(\<exists>w. normalize_model e = Inr w) \<longleftrightarrow> model_ok e"
  using normalize_semantics_ok [of "mi_token_semantics (snd e)"]
  by (cases e) (auto simp: normalize_model_iff model_ok_def)

definition rates_ok :: "model_rates \<Rightarrow> bool" where
  "rates_ok r \<longleftrightarrow> (\<forall>key. rate_ok (rate_for r key))"

definition table_ok :: "rate_table \<Rightarrow> bool" where
  "table_ok t \<longleftrightarrow> (\<forall>m r. bt_get (tb_models t) m = Some r \<longrightarrow> rates_ok r)"

lemma normalize_rate_table_ok:
  "(\<exists>t. normalize_rate_table inp = Inr t) \<longleftrightarrow>
     (ti_unit inp = None \<or> ti_unit inp = Some ''per_1m_tokens'') \<and> list_all model_ok (ti_models inp)"
proof -
  have "(\<exists>ms. try_map normalize_model (ti_models inp) = Inr ms) \<longleftrightarrow> list_all model_ok (ti_models inp)"
    unfolding try_map_ok normalize_model_ok list_all_iff ..
  then show ?thesis
    by (auto simp: normalize_rate_table_def bind_result_eq_Inr split: option.splits)
qed

lemma normalize_model_rates: "normalize_model e = Inr (k, r) \<Longrightarrow> rates_ok r"
  by (cases e) (clarsimp simp: normalize_model_iff rates_ok_def rate_for_def input_rates_def)

lemma normalized_table_ok:
  assumes "normalize_rate_table inp = Inr t"
  shows "table_ok t"
proof -
  obtain ms where ms: "try_map normalize_model (ti_models inp) = Inr ms"
    and t: "tb_models t = bt_collect ms"
    using assms by (auto simp: normalize_rate_table_def bind_result_eq_Inr split: option.splits if_splits)
  have "rates_ok r" if "(m, r) \<in> set ms" for m r
    using ms that by (auto simp: try_map_eq_Inr list_all2_conv_all_nth in_set_conv_nth)
      (metis normalize_model_rates)
  then show ?thesis
    unfolding table_ok_def t bt_get_collect by (metis map_of_SomeD set_rev)
qed

subsection \<open>What is billed is never negative\<close>

definition bill_ok :: "(string, f64) btree \<Rightarrow> bool" where
  "bill_ok vals \<longleftrightarrow> bt_sorted vals \<and> (\<forall>k v. bt_get vals k = Some v \<longrightarrow> f64_nonneg v \<and> f64_wf v)"

lemma bill_ok_remove: "bill_ok vals \<Longrightarrow> bill_ok (bt_remove k vals)"
  by (auto simp: bill_ok_def bt_sorted_remove bt_get_remove)

lemma bill_ok_fold_remove: "bill_ok vals \<Longrightarrow> bill_ok (fold bt_remove ks vals)"
  by (induction ks arbitrary: vals) (auto simp: bill_ok_remove)

lemma metric_nonneg: "metric v = Some x \<longleftrightarrow> v = Some x \<and> f64_nonneg x"
  by (cases v) (auto simp: metric_def f64_nonneg_le)

definition metric_of :: "metrics_v1 \<Rightarrow> string \<Rightarrow> f64 option" where
  "metric_of m key =
     (if key = ''input_tokens'' then metric (mt_input_tokens m)
      else if key = ''output_tokens'' then metric (mt_output_tokens m)
      else if key = ''cached_input_tokens'' then metric (mt_cached_input_tokens m)
      else if key = ''cache_creation_input_tokens'' then metric (mt_cache_creation_input_tokens m)
      else if key = ''reasoning_output_tokens'' then metric (mt_reasoning_output_tokens m)
      else None)"

lemma metric_entries_get: "bt_get (metric_entries m) = metric_of m"
proof -
  have c: "bt_collect [(''input_tokens'', a), (''output_tokens'', b), (''cached_input_tokens'', c),
      (''cache_creation_input_tokens'', d), (''reasoning_output_tokens'', e)] =
    [(''cache_creation_input_tokens'', d), (''cached_input_tokens'', c), (''input_tokens'', a),
     (''output_tokens'', b), (''reasoning_output_tokens'', e)]" for a b c d e :: "f64 option"
    by (simp add: bt_collect_def less_char_def)
  have p: "present ((case v of None \<Rightarrow> None | Some x \<Rightarrow> Some (k, x)) # vs) =
      (case v of None \<Rightarrow> [] | Some x \<Rightarrow> [(k, x)]) @ present vs" for v :: "f64 option" and k :: string and vs
    by (simp add: present_def split: option.splits)
  show ?thesis
    by (rule ext)
      (simp add: metric_entries_def bt_get_collect c p map_option_case present_def [of "[]"]
        metric_of_def map_add_def split: option.splits)
qed

text \<open>A metric holds a float of the machine format.\<close>

definition metrics_wf :: "metrics_v1 \<Rightarrow> bool" where
  "metrics_wf m \<longleftrightarrow> (\<forall>v. Some v \<in> set (metric_values m) \<longrightarrow> f64_wf v)"

lemma metric_of_nonneg: "metrics_wf m \<Longrightarrow> metric_of m k = Some v \<Longrightarrow> f64_nonneg v \<and> f64_wf v"
  by (simp add: metric_of_def metric_nonneg metrics_wf_def metric_values_def split: if_splits)

lemma metric_entries_ok: "metrics_wf m \<Longrightarrow> bill_ok (metric_entries m)"
proof -
  assume "metrics_wf m"
  moreover
  have "bt_sorted (metric_entries m)" by (simp add: metric_entries_def bt_sorted_collect)
  ultimately show ?thesis by (simp add: bill_ok_def metric_entries_get metric_of_nonneg)
qed

lemma classify_ok:
  "bill_ok vals \<Longrightarrow> classify rates keys (vals, errors) = ((vals', errors'), included) \<Longrightarrow>
   bill_ok vals'"
  by (induction keys arbitrary: vals errors included)
    (auto split: option.splits token_semantics.splits prod.splits, blast intro: bill_ok_remove)

lemma f64_sub_nonneg:
  assumes "f64_nonneg x" and "f64_wf x" and "f64_nonneg y" and "\<not> f64_lt x y"
  shows "f64_nonneg (f64_sub x y) \<and> f64_wf (f64_sub x y)"
proof -
  obtain s r t q where xy: "x = Fin s r" "y = Fin t q" "0 \<le> f64_val x" "0 \<le> f64_val y"
    using assms(1,3) by (auto simp: f64_nonneg_cases simp del: f64_val.simps)
  have rep: "representable r" "0 \<le> r" using assms(2) representable_nonneg by (simp_all add: xy(1))
  have "f64_val (Fin (\<not> t) q) = - f64_val (Fin t q)" by simp
  then have eq: "f64_sub x y = f64_of_rat (s \<and> \<not> t) (f64_val x - f64_val y)"
    by (simp add: xy f64_sub_def del: f64_val.simps)
  have "f64_val x \<le> r" using rep(2) by (simp add: xy(1))
  moreover have "f64_val y \<le> f64_val x"
    using assms(4) by (simp add: xy(1,2) del: f64_val.simps)
  ultimately have d: "0 \<le> f64_val x - f64_val y" "f64_val x - f64_val y \<le> r"
    using xy(4) by simp_all
  show ?thesis
    unfolding eq using f64_of_rat_nonneg [OF d rep(1)] f64_of_rat_wf by blast
qed

text \<open>A value that is not negative and not NaN.\<close>

definition f64_cost :: "f64 \<Rightarrow> bool" where
  "f64_cost x \<longleftrightarrow> x = Inf False \<or> f64_nonneg x"

lemma f64_cost_add: "f64_cost x \<Longrightarrow> f64_cost y \<Longrightarrow> f64_cost (f64_add x y)"
  using f64_add_nonneg [of x y]
  by (cases x; cases y) (auto simp: f64_cost_def f64_nonneg_def)

lemma f64_nonneg_cost: "f64_nonneg x \<Longrightarrow> f64_cost x"
  by (simp add: f64_cost_def)

lemma f64_sum_cost: "list_all f64_nonneg xs \<Longrightarrow> f64_cost (f64_sum xs)"
proof -
  have "f64_cost z \<Longrightarrow> list_all f64_nonneg xs \<Longrightarrow> f64_cost (foldl f64_add z xs)" for z
    by (induction xs arbitrary: z) (simp_all add: f64_cost_add f64_nonneg_cost)
  moreover have "f64_cost (Fin True 0)" by (simp add: f64_cost_def f64_nonneg_def f64_zero_def)
  ultimately show "list_all f64_nonneg xs \<Longrightarrow> f64_cost (f64_sum xs)" by (simp add: f64_sum_def)
qed

lemma f64_finite_below_inf: "f64_nonneg x \<Longrightarrow> f64_lt x (Inf False)"
  by (cases x) (auto simp: f64_nonneg_def)

text \<open>A classified key is still in the bill.\<close>

lemma classify_included:
  "classify rates keys (vals, errors) = ((vals', errors'), included) \<Longrightarrow>
   k \<in> set included \<Longrightarrow> distinct keys \<Longrightarrow> k \<in> set keys \<and> bt_get vals' k = bt_get vals k"
proof (induction keys arbitrary: vals errors included)
  case (Cons key keys)
  have kept: "classify rates ks (v, e) = ((v', e'), i) \<Longrightarrow> j \<notin> set ks \<Longrightarrow> bt_get v' j = bt_get v j"
    for ks v e v' e' i j
    by (induction ks arbitrary: v e i)
      (auto simp: bt_get_remove split: option.splits token_semantics.splits prod.splits)
  from Cons show ?case
    by (auto simp: bt_get_remove split: option.splits token_semantics.splits prod.splits
      dest: kept Cons.IH)
qed simp

lemma bill_group_ok:
  assumes "bill_ok vals" and "distinct keys"
    and "bill_group rates (key, keys) (vals, errors) = (vals', errors')"
  shows "bill_ok vals'"
proof -
  let ?keys = "filter (\<lambda>key. bt_get vals key \<noteq> None) keys"
  obtain w e included where c: "classify rates ?keys (vals, errors) = ((w, e), included)"
    by (metis surj_pair)
  have w: "bill_ok w" using classify_ok [OF assms(1) c] .
  let ?sum = "f64_sum (map (\<lambda>key. the (bt_get w key)) included)"
  have "f64_nonneg (the (bt_get w k))" if "k \<in> set included" for k
    using classify_included [OF c that] assms(1,2) by (auto simp: bill_ok_def)
  then have sum: "f64_cost ?sum" by (intro f64_sum_cost) (simp add: list_all_iff)
  have sub: "f64_nonneg (f64_sub t ?sum) \<and> f64_wf (f64_sub t ?sum)"
    if "bt_get w key = Some t" "\<not> f64_lt t ?sum" for t
  proof -
    have t: "f64_nonneg t" "f64_wf t" using w that(1) by (simp_all add: bill_ok_def)
    then have s: "f64_nonneg ?sum"
      using sum that(2) f64_finite_below_inf by (auto simp: f64_cost_def)
    show ?thesis using f64_sub_nonneg [OF t s that(2)] .
  qed
  have ins: "bill_ok (bt_insert key v w)" if "f64_nonneg v \<and> f64_wf v" for v
    using w that by (simp add: bill_ok_def bt_get_insert bt_sorted_insert)
  show ?thesis
    using assms(3) [unfolded bill_group_def Let_def prod.case c] w sub ins
    by (auto simp: bill_ok_fold_remove split: if_splits option.splits)
qed

lemma billable_metrics_ok:
  assumes "metrics_wf m" and "billable_metrics m rates = (vals, errors)"
  shows "bill_ok vals"
proof -
  obtain v e where 1: "bill_group rates (''input_tokens'', [''cached_input_tokens'', ''cache_creation_input_tokens''])
      (metric_entries m, []) = (v, e)" by (metis surj_pair)
  have v: "bill_ok v" by (rule bill_group_ok [OF metric_entries_ok [OF assms(1)] _ 1]) simp
  show ?thesis
    using assms(2) by (intro bill_group_ok [OF v, where errors = e]) (simp_all add: billable_metrics_def 1)
qed

subsection \<open>Estimates\<close>

lemma f64_div_nat_cost:
  assumes "f64_nonneg x" and "f64_wf x" and "0 < n"
  shows "f64_nonneg (f64_div x (f64_nat n))"
proof -
  obtain s r where x: "x = Fin s r" "0 \<le> f64_val x"
    using assms(1) by (auto simp: f64_nonneg_cases simp del: f64_val.simps)
  have rep: "representable r" "0 \<le> r" using assms(2) representable_nonneg by (simp_all add: x(1))
  let ?q = "f64_val x / of_nat n"
  have "?q \<le> f64_val x"
    using x(2) assms(3) by (simp add: divide_le_eq mult_le_cancel_left1 Suc_le_eq del: f64_val.simps)
  moreover have "f64_val x \<le> r" using rep(2) by (simp add: x(1))
  ultimately have q: "0 \<le> ?q" "?q \<le> r" using x(2) by (simp_all del: f64_val.simps)
  have "f64_div x (f64_nat n) = f64_of_rat s ?q" using assms(3) by (simp add: x(1) f64_nat_def)
  then show ?thesis
    using f64_of_rat_nonneg [OF q rep(1)] by simp
qed

lemma f64_cost_mul: "f64_nonneg x \<Longrightarrow> f64_nonneg y \<Longrightarrow> f64_cost (f64_mul x y)"
  using f64_mul_nonneg by (simp add: f64_cost_def)

lemma round_currency_cost: "f64_cost x \<Longrightarrow> f64_cost (round_currency x)"
proof -
  assume x: "f64_cost x"
  let ?g = "f64_nat 1000000000"
  have g: "f64_nonneg ?g" by (simp add: f64_nonneg_def f64_zero_nat)
  have 1: "f64_cost (f64_mul x ?g)"
    using x f64_cost_mul [OF _ g] by (auto simp: f64_cost_def f64_nat_def)
  have 2: "f64_cost (f64_round y)" if "f64_cost y" for y
    using that by (cases y) (auto simp: f64_cost_def f64_nonneg_def f64_zero_def)
  have 3: "f64_cost (f64_div y ?g)" if "f64_cost y" for y
  proof (cases y)
    case (Fin s r)
    then have "0 \<le> f64_val y" using that by (auto simp: f64_cost_def f64_nonneg_cases)
    then show ?thesis
      using f64_of_rat_sign [of "f64_val y / 1000000000" s] by (simp add: Fin f64_cost_def f64_nat_def)
  qed (use that in \<open>auto simp: f64_cost_def f64_nonneg_def f64_nat_def\<close>)
  show ?thesis unfolding round_currency_def by (rule 3 [OF 2 [OF 1]])
qed

definition pricing_ok :: "pricing \<Rightarrow> bool" where
  "pricing_ok p \<longleftrightarrow> bill_ok (pc_tokens p) \<and> f64_cost (pc_amount p) \<and> bt_sorted (pc_components p) \<and>
     (\<forall>c \<in> set (bt_values (pc_components p)). f64_nonneg (cc_tokens c) \<and>
        f64_nonneg (cc_rate_per_1m c) \<and> f64_cost (cc_estimated_cost c))"

lemma price_key_ok:
  assumes "rates_ok rates" and "pricing_ok p"
  shows "pricing_ok (price_key rates key p)"
proof (cases "bt_get (pc_tokens p) key")
  case (Some n)
  then have n: "f64_nonneg n" "f64_wf n" using assms(2) by (auto simp: pricing_ok_def bill_ok_def)
  have cost: "f64_cost (f64_mul (f64_div n (f64_nat 1000000)) r)" if "rate_for rates key = Some r" for r
    using assms(1) that f64_div_nat_cost [OF n] by (intro f64_cost_mul) (auto simp: rates_ok_def dest: spec [of _ key])
  have rate: "f64_nonneg r" if "rate_for rates key = Some r" for r
    using assms(1) that by (auto simp: rates_ok_def dest: spec [of _ key])
  show ?thesis
    using assms(2) n cost rate
    by (auto simp: price_key_def Some Let_def pricing_ok_def bill_ok_remove bt_sorted_insert
      bt_values_eq bt_get_insert f64_cost_add round_currency_cost split: option.splits if_splits)
qed (use assms in \<open>simp add: price_key_def\<close>)

lemma price_tokens_ok: "rates_ok rates \<Longrightarrow> bill_ok tokens \<Longrightarrow> pricing_ok (price_tokens rates tokens)"
proof -
  assume r: "rates_ok rates" and t: "bill_ok tokens"
  have fold: "pricing_ok p \<Longrightarrow> pricing_ok (fold (price_key rates) ks p)" for ks p
    by (induction ks arbitrary: p) (simp_all add: price_key_ok [OF r])
  show ?thesis unfolding price_tokens_def
    by (rule fold) (simp add: pricing_ok_def t bt_sorted_def bt_values_def f64_cost_def f64_nonneg_def f64_zero_def)
qed

lemma estimate_cases:
  obtains (unpriced) reason where "estimate_span_cost r (Some t) = cost_result t ''unknown'' (Some reason)
      (ag_model (dr_agent r)) None [] [] []"
  | (priced) m rates tokens errors p where "ag_model (dr_agent r) = Some m"
      "bt_get (tb_models t) m = Some rates" "billable_metrics (dr_metrics r) rates = (tokens, errors)"
      "p = price_tokens rates tokens" "pc_components p \<noteq> [] \<or> pc_missing p \<noteq> [] \<or> errors \<noteq> []"
      "estimate_span_cost r (Some t) = cost_result t
         (if pc_missing p = [] \<and> errors = [] then ''estimated'' else ''incomplete'')
         (if errors \<noteq> [] then Some ''ambiguous_token_semantics''
          else if pc_missing p \<noteq> [] then Some ''missing_token_rates'' else None)
         (Some m) (Some (round_currency (pc_amount p))) (pc_components p) (pc_missing p) errors"
proof (cases "Option.bind (ag_model (dr_agent r)) (bt_get (tb_models t))")
  case None
  then show ?thesis using unpriced
    by (cases "ag_model (dr_agent r)") (auto simp: estimate_span_cost_def Let_def)
next
  case (Some rates)
  then obtain m where m: "ag_model (dr_agent r) = Some m" "bt_get (tb_models t) m = Some rates"
    by (cases "ag_model (dr_agent r)") auto
  obtain tokens errors where b: "billable_metrics (dr_metrics r) rates = (tokens, errors)"
    by (metis surj_pair)
  define p where "p = price_tokens rates tokens"
  show ?thesis
  proof (cases "pc_components p = [] \<and> pc_missing p = [] \<and> errors = []")
    case True
    then show ?thesis using unpriced by (simp add: estimate_span_cost_def Let_def m b p_def)
  next
    case False
    have "estimate_span_cost r (Some t) = cost_result t
         (if pc_missing p = [] \<and> errors = [] then ''estimated'' else ''incomplete'')
         (if errors \<noteq> [] then Some ''ambiguous_token_semantics''
          else if pc_missing p \<noteq> [] then Some ''missing_token_rates'' else None)
         (Some m) (Some (round_currency (pc_amount p))) (pc_components p) (pc_missing p) errors"
      using False
      by (simp only: estimate_span_cost_def Let_def m b p_def [symmetric] option.case prod.case if_False)
    with priced [OF m b p_def] False show ?thesis by blast
  qed
qed

lemma estimate_cost_ok:
  assumes "table_ok t" and "metrics_wf (dr_metrics r)"
  shows "(\<forall>a. ce_estimated_cost (estimate_span_cost r (Some t)) = Some a \<longrightarrow> f64_cost a) \<and>
    (\<forall>c \<in> set (bt_values (cd_components (ce_cost (estimate_span_cost r (Some t))))).
      f64_nonneg (cc_tokens c) \<and> f64_nonneg (cc_rate_per_1m c) \<and> f64_cost (cc_estimated_cost c))"
proof (cases rule: estimate_cases [of r t])
  case (unpriced reason)
  then show ?thesis by (simp add: cost_result_def cost_detail_default_def bt_values_def)
next
  case (priced m rates tokens errors p)
  have "pricing_ok p"
    unfolding priced(4)
    using assms(1) priced(2) billable_metrics_ok [OF assms(2) priced(3)]
    by (intro price_tokens_ok) (auto simp: table_ok_def)
  then show ?thesis
    by (simp add: priced(6) cost_result_def cost_detail_default_def pricing_ok_def round_currency_cost)
qed

subsection \<open>Aggregates\<close>

definition status_count :: "string \<Rightarrow> cost_estimate list \<Rightarrow> nat" where
  "status_count status costs = length (filter (\<lambda>c. ce_status c = status) costs)"

lemma status_count_simps [simp]:
  "status_count status [] = 0"
  "status_count status (c # cs) = (if ce_status c = status then 1 else 0) + status_count status cs"
  by (simp_all add: status_count_def)

lemma count_if_exact: "unat n + 1 < 2 ^ 64 \<Longrightarrow> unat (count_if b n) = unat n + (if b then 1 else 0)"
  by (simp add: count_if_def machine_simps)

lemma fold_count_cost:
  assumes "unat (cn_count c) + length costs < 2 ^ 64"
    and "unat (cn_incomplete c) \<le> unat (cn_count c)" and "unat (cn_unknown c) \<le> unat (cn_count c)"
    and "unat (cn_estimated c) \<le> unat (cn_count c)"
  shows "unat (cn_count (fold count_cost costs c)) = unat (cn_count c) + length costs \<and>
    unat (cn_incomplete (fold count_cost costs c)) = unat (cn_incomplete c) + status_count ''incomplete'' costs \<and>
    unat (cn_unknown (fold count_cost costs c)) = unat (cn_unknown c) + status_count ''unknown'' costs \<and>
    unat (cn_estimated (fold count_cost costs c)) = unat (cn_estimated c) + status_count ''estimated'' costs"
  using assms
proof (induction costs arbitrary: c)
  case (Cons x costs)
  let ?c = "count_cost x c"
  have n: "unat (cn_count c) + 1 < 2 ^ 64" "unat (cn_incomplete c) + 1 < 2 ^ 64"
    "unat (cn_unknown c) + 1 < 2 ^ 64" "unat (cn_estimated c) + 1 < 2 ^ 64"
    using Cons.prems by simp_all
  have one: "unat (saturating_add k 1) = unat k + 1" if "unat k + 1 < 2 ^ 64" for k :: u64
    using that by (simp add: machine_simps)
  have c: "unat (cn_count ?c) = unat (cn_count c) + 1"
    "unat (cn_incomplete ?c) = unat (cn_incomplete c) + (if ce_status x = ''incomplete'' then 1 else 0)"
    "unat (cn_unknown ?c) = unat (cn_unknown c) + (if ce_status x = ''unknown'' then 1 else 0)"
    "unat (cn_estimated ?c) = unat (cn_estimated c) + (if ce_status x = ''estimated'' then 1 else 0)"
    by (simp_all add: count_cost_def count_if_exact [OF n(2)] count_if_exact [OF n(3)]
      count_if_exact [OF n(4)] one [OF n(1)])
  show ?case
    using Cons.IH [of ?c] Cons.prems by (simp add: c split: if_splits)
qed simp

subsection \<open>No token is billed twice\<close>

lemma f64_sum_nat: "ns \<noteq> [] \<Longrightarrow> sum_list ns \<le> MAX_SAFE \<Longrightarrow> f64_sum (map f64_nat ns) = f64_nat (sum_list ns)"
proof -
  have fold: "n + sum_list ns \<le> MAX_SAFE \<Longrightarrow>
      foldl f64_add (f64_nat n) (map f64_nat ns) = f64_nat (n + sum_list ns)" for n ns
    by (induction ns arbitrary: n) (simp_all add: f64_add_nat add.assoc)
  have first: "n \<le> MAX_SAFE \<Longrightarrow> f64_add (Fin True 0) (f64_nat n) = f64_nat n" for n
    using f64_of_rat_nat [of n] by (simp add: f64_nat_def)
  show "ns \<noteq> [] \<Longrightarrow> sum_list ns \<le> MAX_SAFE \<Longrightarrow> f64_sum (map f64_nat ns) = f64_nat (sum_list ns)"
    using fold [of "hd ns" "tl ns"] first [of "hd ns"] by (cases ns) (simp_all add: f64_sum_def)
qed

lemma f64_sub_nat: "s \<le> t \<Longrightarrow> t \<le> MAX_SAFE \<Longrightarrow> f64_sub (f64_nat t) (f64_nat s) = f64_nat (t - s)"
  using f64_of_rat_nat [of "t - s"] by (simp add: f64_sub_def f64_nat_def of_nat_diff)

text \<open>The reference: what one group is billed, over natural numbers.  \<open>sem\<close> tells the declared
  semantics of a breakdown and \<open>g\<close> the reported counts.\<close>

definition included_keys ::
  "(string \<Rightarrow> token_semantics option) \<Rightarrow> (string \<Rightarrow> nat option) \<Rightarrow> string list \<Rightarrow> string list" where
  "included_keys sem g ks = filter (\<lambda>k. g k \<noteq> None \<and> sem k = Some IncludedInTotal) ks"

definition included_part ::
  "(string \<Rightarrow> token_semantics option) \<Rightarrow> (string \<Rightarrow> nat option) \<Rightarrow> string list \<Rightarrow> nat" where
  "included_part sem g ks = sum_list (map (\<lambda>k. the (g k)) (included_keys sem g ks))"

definition group_fits ::
  "(string \<Rightarrow> token_semantics option) \<Rightarrow> (string \<Rightarrow> nat option) \<Rightarrow> string \<Rightarrow> string list \<Rightarrow> bool" where
  "group_fits sem g tot ks \<longleftrightarrow> included_keys sem g ks = [] \<or>
     (case g tot of None \<Rightarrow> False | Some n \<Rightarrow> included_part sem g ks \<le> n)"

definition billed_total ::
  "(string \<Rightarrow> token_semantics option) \<Rightarrow> (string \<Rightarrow> nat option) \<Rightarrow> string \<Rightarrow> string list \<Rightarrow> nat option" where
  "billed_total sem g tot ks =
     (if group_fits sem g tot ks then map_option (\<lambda>n. n - included_part sem g ks) (g tot) else g tot)"

definition billed_breakdown ::
  "(string \<Rightarrow> token_semantics option) \<Rightarrow> (string \<Rightarrow> nat option) \<Rightarrow> string \<Rightarrow> string list \<Rightarrow> string \<Rightarrow> nat option" where
  "billed_breakdown sem g tot ks k = (case sem k of
       None \<Rightarrow> None
     | Some Exclusive \<Rightarrow> g k
     | Some IncludedInTotal \<Rightarrow> if group_fits sem g tot ks then g k else None)"

definition group_errors ::
  "(string \<Rightarrow> token_semantics option) \<Rightarrow> (string \<Rightarrow> nat option) \<Rightarrow> string \<Rightarrow> string list \<Rightarrow> string list" where
  "group_errors sem g tot ks =
     map (\<lambda>k. k @ '':missing_semantics'') (filter (\<lambda>k. g k \<noteq> None \<and> sem k = None) ks) @
     (if group_fits sem g tot ks then [] else [tot @ '':invalid_included_breakdown''])"

lemma metric_nat [simp]: "metric (map_option f64_nat v) = map_option f64_nat v"
  by (cases v) (simp_all add: metric_nonneg f64_nonneg_def f64_zero_nat metric_def f64_nonneg_le [symmetric])

lemma classify_exact:
  "classify rates keys (vals, errors) =
     ((fold bt_remove (filter (\<lambda>k. bt_get (mr_token_semantics rates) k = None) keys) vals,
       errors @ map (\<lambda>k. k @ '':missing_semantics'')
         (filter (\<lambda>k. bt_get (mr_token_semantics rates) k = None) keys)),
      filter (\<lambda>k. bt_get (mr_token_semantics rates) k = Some IncludedInTotal) keys)"
  by (induction keys arbitrary: vals errors) (auto split: option.splits token_semantics.splits)

text \<open>One group is billed as the reference says, in every case of presence and semantics.\<close>

lemma bill_group_exact:
  fixes rates tot ks
  defines "sem \<equiv> bt_get (mr_token_semantics rates)"
  assumes sorted: "bt_sorted vals" and get: "\<forall>k \<in> insert tot (set ks). bt_get vals k = map_option f64_nat (g k)"
    and new: "tot \<notin> set ks" and safe: "\<forall>n. g tot = Some n \<longrightarrow> n \<le> MAX_SAFE"
      "included_part sem g ks \<le> MAX_SAFE"
  shows "\<exists>w. bill_group rates (tot, ks) (vals, errors) = (w, errors @ group_errors sem g tot ks) \<and>
    bt_sorted w \<and>
    bt_get w tot = map_option f64_nat (billed_total sem g tot ks) \<and>
    (\<forall>k \<in> set ks. bt_get w k = map_option f64_nat (billed_breakdown sem g tot ks k)) \<and>
    (\<forall>k. k \<noteq> tot \<longrightarrow> k \<notin> set ks \<longrightarrow> bt_get w k = bt_get vals k)"
proof -
  let ?keys = "filter (\<lambda>k. bt_get vals k \<noteq> None) ks"
  define v where "v = fold bt_remove (filter (\<lambda>k. g k \<noteq> None \<and> sem k = None) ks) vals"
  have keys: "filter (\<lambda>k. sem k = Some IncludedInTotal) ?keys = included_keys sem g ks"
    "filter (\<lambda>k. sem k = None) ?keys = filter (\<lambda>k. g k \<noteq> None \<and> sem k = None) ks"
    using get by (auto simp: included_keys_def intro!: filter_cong)
  have group: "bill_group rates (tot, ks) (vals, errors) =
     (let errors = errors @ map (\<lambda>k. k @ '':missing_semantics'') (filter (\<lambda>k. g k \<noteq> None \<and> sem k = None) ks);
          included_total = f64_sum (map (\<lambda>k. the (bt_get v k)) (included_keys sem g ks));
          invalid = (fold bt_remove (included_keys sem g ks) v, errors @ [tot @ '':invalid_included_breakdown''])
      in if included_keys sem g ks = [] then (v, errors)
         else case bt_get v tot of None \<Rightarrow> invalid
           | Some n \<Rightarrow> if f64_lt n included_total then invalid
               else (bt_insert tot (f64_sub n included_total) v, errors))"
    unfolding bill_group_def prod.case classify_exact [where rates = rates, folded sem_def] Let_def keys v_def [symmetric] ..
  have vals: "bt_get v k = (if sem k = None \<and> k \<in> set ks \<and> g k \<noteq> None then None else bt_get vals k)" for k
    by (auto simp: v_def bt_get_fold_remove)
  have v_tot: "bt_get v tot = map_option f64_nat (g tot)"
    using new get by (simp add: vals)
  have v_key: "bt_get v k = (if sem k = None then None else map_option f64_nat (g k))" if "k \<in> set ks" for k
    using that get by (auto simp: vals)
  have v_sorted: "bt_sorted v" unfolding v_def using sorted by (rule bt_sorted_fold_remove)
  have sum: "f64_sum (map (\<lambda>k. the (bt_get v k)) (included_keys sem g ks)) = f64_nat (included_part sem g ks)"
    if "included_keys sem g ks \<noteq> []"
  proof -
    have "map (\<lambda>k. the (bt_get v k)) (included_keys sem g ks) =
        map f64_nat (map (\<lambda>k. the (g k)) (included_keys sem g ks))"
      using v_key by (auto simp: included_keys_def)
    moreover have "f64_sum (map f64_nat (map (\<lambda>k. the (g k)) (included_keys sem g ks))) =
        f64_nat (included_part sem g ks)"
      unfolding included_part_def
      by (rule f64_sum_nat) (use that safe(2) in \<open>simp_all add: included_part_def\<close>)
    ultimately show ?thesis by (simp only:)
  qed
  consider (none) "included_keys sem g ks = []"
    | (fits) n where "included_keys sem g ks \<noteq> []" "g tot = Some n" "included_part sem g ks \<le> n"
    | (bad) "included_keys sem g ks \<noteq> []" "\<not> group_fits sem g tot ks"
    by (cases "included_keys sem g ks = []"; cases "group_fits sem g tot ks")
      (auto simp: group_fits_def split: option.splits)
  then show ?thesis
  proof cases
    case none
    then have "group_fits sem g tot ks" "included_part sem g ks = 0"
      by (simp_all add: group_fits_def included_part_def)
    then show ?thesis
      using none v_tot v_key v_sorted
      by (intro exI [of _ v])
        (auto simp: group Let_def group_errors_def billed_total_def billed_breakdown_def vals
          option.map_comp comp_def option.map_id split: option.splits token_semantics.splits)
  next
    case fits
    let ?w = "bt_insert tot (f64_nat (n - included_part sem g ks)) v"
    have ok: "group_fits sem g tot ks" using fits by (simp add: group_fits_def)
    have "\<not> f64_lt (f64_nat n) (f64_nat (included_part sem g ks))"
      "f64_sub (f64_nat n) (f64_nat (included_part sem g ks)) = f64_nat (n - included_part sem g ks)"
      using fits safe by (simp_all add: f64_sub_nat)
    then have "bill_group rates (tot, ks) (vals, errors) = (?w, errors @ group_errors sem g tot ks)"
      using fits ok sum [OF fits(1)] v_tot by (simp add: group Let_def group_errors_def)
    moreover have "bt_get ?w k = map_option f64_nat (billed_breakdown sem g tot ks k)" if "k \<in> set ks" for k
      using that new v_key ok v_sorted
      by (auto simp: bt_get_insert billed_breakdown_def split: option.splits token_semantics.splits)
    ultimately show ?thesis
      using fits ok v_sorted by (auto simp: bt_get_insert bt_sorted_insert billed_total_def vals)
  next
    case bad
    let ?w = "fold bt_remove (included_keys sem g ks) v"
    have inc_set: "k \<in> set (included_keys sem g ks) \<longleftrightarrow> k \<in> set ks \<and> g k \<noteq> None \<and> sem k = Some IncludedInTotal" for k
      by (auto simp: included_keys_def)
    have "bill_group rates (tot, ks) (vals, errors) = (?w, errors @ group_errors sem g tot ks)"
      using bad sum [OF bad(1)] v_tot
      by (auto simp: group Let_def group_errors_def group_fits_def split: option.splits)
    moreover have "bt_get ?w k = map_option f64_nat (billed_breakdown sem g tot ks k)" if "k \<in> set ks" for k
      using that v_key bad inc_set
      by (auto simp: bt_get_fold_remove billed_breakdown_def split: option.splits token_semantics.splits)
    moreover have "bt_get ?w k = bt_get v k" if "k \<notin> set ks" for k
      using that inc_set by (simp add: bt_get_fold_remove)
    ultimately show ?thesis
      using bad v_sorted v_tot new by (auto simp: bt_sorted_fold_remove billed_total_def vals)
  qed
qed

definition INPUT_PARTS :: "string list" where
  "INPUT_PARTS = [''cached_input_tokens'', ''cache_creation_input_tokens'']"

definition OUTPUT_PARTS :: "string list" where
  "OUTPUT_PARTS = [''reasoning_output_tokens'']"

abbreviation declared :: "model_rates \<Rightarrow> string \<Rightarrow> token_semantics option" where
  "declared rates \<equiv> bt_get (mr_token_semantics rates)"

lemma included_part_single: "included_part sem g [k] \<le> (case g k of None \<Rightarrow> 0 | Some n \<Rightarrow> n)"
  by (simp add: included_part_def included_keys_def split: option.splits)

lemma billable_metrics_exact:
  assumes reported: "\<forall>k \<in> set (''input_tokens'' # ''output_tokens'' # INPUT_PARTS @ OUTPUT_PARTS).
      metric_of m k = map_option f64_nat (g k)"
    and safe: "\<forall>k n. g k = Some n \<longrightarrow> n \<le> MAX_SAFE"
    and sum: "included_part (declared rates) g INPUT_PARTS \<le> MAX_SAFE"
  shows "\<exists>v. billable_metrics m rates =
      (v, group_errors (declared rates) g ''input_tokens'' INPUT_PARTS @
          group_errors (declared rates) g ''output_tokens'' OUTPUT_PARTS) \<and>
    (\<forall>(tot, ks) \<in> {(''input_tokens'', INPUT_PARTS), (''output_tokens'', OUTPUT_PARTS)}.
      bt_get v tot = map_option f64_nat (billed_total (declared rates) g tot ks) \<and>
      (\<forall>k \<in> set ks. bt_get v k = map_option f64_nat (billed_breakdown (declared rates) g tot ks k)))"
proof -
  let ?sem = "declared rates"
  have sorted: "bt_sorted (metric_entries m)" by (simp add: metric_entries_def bt_sorted_collect)
  have get: "\<forall>k \<in> insert ''input_tokens'' (set INPUT_PARTS). bt_get (metric_entries m) k = map_option f64_nat (g k)"
    "\<forall>k \<in> insert ''output_tokens'' (set OUTPUT_PARTS). bt_get (metric_entries m) k = map_option f64_nat (g k)"
    using reported by (simp_all add: metric_entries_get)
  have fresh: "''input_tokens'' \<notin> set INPUT_PARTS" "''output_tokens'' \<notin> set OUTPUT_PARTS"
    by (simp_all add: INPUT_PARTS_def OUTPUT_PARTS_def)
  obtain w where w: "bill_group rates (''input_tokens'', INPUT_PARTS) (metric_entries m, []) =
      (w, [] @ group_errors ?sem g ''input_tokens'' INPUT_PARTS)" "bt_sorted w"
    "bt_get w ''input_tokens'' = map_option f64_nat (billed_total ?sem g ''input_tokens'' INPUT_PARTS)"
    "\<forall>k \<in> set INPUT_PARTS. bt_get w k = map_option f64_nat (billed_breakdown ?sem g ''input_tokens'' INPUT_PARTS k)"
    "\<forall>k. k \<noteq> ''input_tokens'' \<longrightarrow> k \<notin> set INPUT_PARTS \<longrightarrow> bt_get w k = bt_get (metric_entries m) k"
    using bill_group_exact [OF sorted get(1) fresh(1) _ sum, of "[]"] safe by blast
  have "included_part ?sem g OUTPUT_PARTS \<le> MAX_SAFE"
    using included_part_single [of ?sem g "''reasoning_output_tokens''"] safe
    by (auto simp: OUTPUT_PARTS_def split: option.splits intro: order_trans)
  moreover have "\<forall>k \<in> insert ''output_tokens'' (set OUTPUT_PARTS). bt_get w k = map_option f64_nat (g k)"
    using get(2) w(5) by (simp add: INPUT_PARTS_def OUTPUT_PARTS_def)
  ultimately obtain v where v: "bill_group rates (''output_tokens'', OUTPUT_PARTS)
      (w, group_errors ?sem g ''input_tokens'' INPUT_PARTS) =
      (v, group_errors ?sem g ''input_tokens'' INPUT_PARTS @ group_errors ?sem g ''output_tokens'' OUTPUT_PARTS)"
    "bt_get v ''output_tokens'' = map_option f64_nat (billed_total ?sem g ''output_tokens'' OUTPUT_PARTS)"
    "\<forall>k \<in> set OUTPUT_PARTS. bt_get v k = map_option f64_nat (billed_breakdown ?sem g ''output_tokens'' OUTPUT_PARTS k)"
    "\<forall>k. k \<noteq> ''output_tokens'' \<longrightarrow> k \<notin> set OUTPUT_PARTS \<longrightarrow> bt_get v k = bt_get w k"
    using bill_group_exact [OF w(2), where tot = "''output_tokens''" and ks = OUTPUT_PARTS and g = g
      and rates = rates and errors = "group_errors ?sem g ''input_tokens'' INPUT_PARTS", OF _ fresh(2)] safe
    by blast
  have "billable_metrics m rates = (v, group_errors ?sem g ''input_tokens'' INPUT_PARTS @
      group_errors ?sem g ''output_tokens'' OUTPUT_PARTS)"
    using w(1) v(1) by (simp add: billable_metrics_def INPUT_PARTS_def OUTPUT_PARTS_def)
  moreover
  have "\<forall>k \<in> insert ''input_tokens'' (set INPUT_PARTS). k \<noteq> ''output_tokens'' \<and> k \<notin> set OUTPUT_PARTS"
    by (simp add: INPUT_PARTS_def OUTPUT_PARTS_def)
  then have "\<forall>k \<in> insert ''input_tokens'' (set INPUT_PARTS). bt_get v k = bt_get w k"
    using v(4) by blast
  then have "bt_get v ''input_tokens'' = map_option f64_nat (billed_total ?sem g ''input_tokens'' INPUT_PARTS)"
    "\<forall>k \<in> set INPUT_PARTS. bt_get v k = map_option f64_nat (billed_breakdown ?sem g ''input_tokens'' INPUT_PARTS k)"
    using w(3,4) by simp_all
  ultimately show ?thesis using v(2,3) by blast
qed

subsection \<open>A sample table and record\<close>

definition sample_rates :: rate_table_input where
  "sample_rates = \<lparr>ti_version = None, ti_currency = None, ti_unit = None, ti_assumption = None,
     ti_models = [(''m'', \<lparr>mi_input_tokens = Some (f64_nat 3), mi_output_tokens = None,
       mi_cached_input_tokens = None, mi_cache_creation_input_tokens = None,
       mi_reasoning_output_tokens = None,
       mi_token_semantics = [(''cache_creation_input_tokens'', ''exclusive''),
         (''cached_input_tokens'', ''included_in_total'')]\<rparr>)]\<rparr>"

definition sample_model_rates :: model_rates where
  "sample_model_rates = \<lparr>mr_input_tokens = Some (f64_nat 3), mr_output_tokens = None,
     mr_cached_input_tokens = None, mr_cache_creation_input_tokens = None,
     mr_reasoning_output_tokens = None,
     mr_token_semantics = [(''cache_creation_input_tokens'', Exclusive),
       (''cached_input_tokens'', IncludedInTotal)]\<rparr>"

definition sample_table :: rate_table where
  "sample_table = rate_table_default\<lparr>tb_models := [(''m'', sample_model_rates)]\<rparr>"

definition sample_metrics :: metrics_v1 where
  "sample_metrics = dr_metrics (sample_record ''b'' ''turn'')\<lparr>
     mt_input_tokens := Some (f64_nat 100), mt_cached_input_tokens := Some (f64_nat 30),
     mt_cache_creation_input_tokens := Some (f64_nat 20)\<rparr>"

definition sample_priced :: durable_record where
  "sample_priced = sample_record ''b'' ''turn''\<lparr>dr_agent := \<lparr>ag_name = None, ag_version = None,
     ag_model = Some ''m''\<rparr>, dr_metrics := sample_metrics\<rparr>"

lemma sample_normalized: "normalize_rate_table sample_rates = Inr sample_table"
proof -
  have z: "f64_le f64_zero (f64_nat 3)" by (simp add: f64_zero_nat)
  have sem: "normalize_semantics [(''cache_creation_input_tokens'', ''exclusive''),
      (''cached_input_tokens'', ''included_in_total'')] =
    Inr [(''cache_creation_input_tokens'', Exclusive), (''cached_input_tokens'', IncludedInTotal)]"
    by code_simp
  show ?thesis
    by (simp add: normalize_rate_table_def sample_rates_def normalize_model_def normalize_rate_def z
      sem sample_table_def sample_model_rates_def rate_table_default_def nonempty_or_def bt_collect_def)
qed

lemma sample_metrics_wf: "metrics_wf sample_metrics"
  using representable_nat [of 100] representable_nat [of 30] representable_nat [of 20]
  by (auto simp: metrics_wf_def metric_values_def sample_metrics_def sample_record_def f64_nat_def
    MAX_SAFE_def)

subsection \<open>Properties\<close>

text \<open>A rate table is accepted exactly when its unit is the supported one, every rate is a
  finite number that is not negative, and every token semantic is a known word for a known key.\<close>

lemma rate_table_accepts:
  "(\<exists>t. normalize_rate_table inp = Inr t) \<longleftrightarrow>
     (ti_unit inp = None \<or> ti_unit inp = Some ''per_1m_tokens'') \<and> list_all model_ok (ti_models inp)"
  by (rule normalize_rate_table_ok)

text \<open>An estimate under a normalized rate table is never negative and never NaN, and neither
  is any of its components.\<close>

lemma estimate_never_negative:
  assumes "normalize_rate_table inp = Inr t" and "metrics_wf (dr_metrics r)"
  shows "(\<forall>a. ce_estimated_cost (estimate_span_cost r (Some t)) = Some a \<longrightarrow> f64_cost a) \<and>
    (\<forall>c \<in> set (bt_values (cd_components (ce_cost (estimate_span_cost r (Some t))))).
      f64_nonneg (cc_tokens c) \<and> f64_nonneg (cc_rate_per_1m c) \<and> f64_cost (cc_estimated_cost c))"
  using estimate_cost_ok [OF normalized_table_ok [OF assms(1)] assms(2)] .

text \<open>The status of an estimate says what is known: it is unknown exactly when there is no
  amount, complete exactly when no reason is given, and incomplete exactly when some rate or some
  token semantic is missing.\<close>

lemma estimate_status:
  "(ce_status (estimate_span_cost r t) = ''unknown'' \<longleftrightarrow> ce_estimated_cost (estimate_span_cost r t) = None) \<and>
   (ce_status (estimate_span_cost r t) = ''estimated'' \<longleftrightarrow> ce_reason (estimate_span_cost r t) = None) \<and>
   (ce_status (estimate_span_cost r t) = ''incomplete'' \<longleftrightarrow>
      0 < length (cd_missing (ce_cost (estimate_span_cost r t))) +
          length (cd_semantic_errors (ce_cost (estimate_span_cost r t)))) \<and>
   ce_status (estimate_span_cost r t) \<in> {''unknown'', ''estimated'', ''incomplete''}"
proof (cases t)
  case None
  then show ?thesis by (simp add: estimate_span_cost_def unknown_cost_def cost_detail_default_def)
next
  case (Some table)
  show ?thesis
    unfolding Some
    by (cases rule: estimate_cases [of r table]) (simp_all add: cost_result_def cost_detail_default_def)
qed

text \<open>The aggregate counts every estimate once and its status is the weakest of them: unknown
  when nothing was priced, estimated when everything was, incomplete otherwise.\<close>

lemma aggregate_exact:
  assumes "length costs < 2 ^ 64"
    and "\<forall>c \<in> set costs. ce_status c \<in> {''unknown'', ''estimated'', ''incomplete''}"
  shows "unat (gc_count (aggregate_cost_refs costs)) = length costs \<and>
    unat (gc_incomplete (aggregate_cost_refs costs)) = status_count ''incomplete'' costs \<and>
    unat (gc_unknown (aggregate_cost_refs costs)) = status_count ''unknown'' costs \<and>
    gc_status (aggregate_cost_refs costs) =
      (if \<forall>c \<in> set costs. ce_status c = ''unknown'' then ''unknown''
       else if \<forall>c \<in> set costs. ce_status c = ''estimated'' then ''estimated'' else ''incomplete'')"
proof -
  define f where "f = fold count_cost costs
    \<lparr>cn_count = 0, cn_incomplete = 0, cn_unknown = 0, cn_estimated = 0, cn_amount = f64_zero\<rparr>"
  have f: "unat (cn_count f) = length costs" "unat (cn_incomplete f) = status_count ''incomplete'' costs"
    "unat (cn_unknown f) = status_count ''unknown'' costs"
    "unat (cn_estimated f) = status_count ''estimated'' costs"
    using fold_count_cost [of "\<lparr>cn_count = 0, cn_incomplete = 0, cn_unknown = 0, cn_estimated = 0,
      cn_amount = f64_zero\<rparr>" costs] assms(1) by (simp_all add: f_def)
  have zero: "n = 0 \<longleftrightarrow> unat n = 0" "n > 0 \<longleftrightarrow> unat n > 0" for n :: u64
    by (simp_all add: unat_eq_zero word_less_nat_alt)
  have none: "status_count status costs = 0 \<longleftrightarrow> (\<forall>c \<in> set costs. ce_status c \<noteq> status)" for status
    by (auto simp: status_count_def filter_empty_conv)
  have "gc_status (aggregate_cost_refs costs) =
      (if status_count ''estimated'' costs = 0 \<and> status_count ''incomplete'' costs = 0 then ''unknown''
       else if status_count ''incomplete'' costs > 0 \<or> status_count ''unknown'' costs > 0 then ''incomplete''
       else ''estimated'')"
    by (simp add: aggregate_cost_refs_def f_def [symmetric] Let_def zero f)
  also have "\<dots> = (if \<forall>c \<in> set costs. ce_status c = ''unknown'' then ''unknown''
       else if \<forall>c \<in> set costs. ce_status c = ''estimated'' then ''estimated'' else ''incomplete'')"
    unfolding neq0_conv [symmetric] none using assms(2) by (cases costs) auto
  finally show ?thesis by (simp add: aggregate_cost_refs_def f_def [symmetric] Let_def f)
qed

text \<open>C9: what a span is billed is exact, whichever counts are reported and whichever semantics
  the rate table declares.  For the input total and its two breakdowns as for the output total
  and its one: the included breakdowns are subtracted from the total (then the billed total and
  they add up to what was reported), exclusive ones are billed as reported, a breakdown without
  declared semantics is left out with an error that names it, and when the included ones exceed
  the total, or there is none, they are left out, the total stays and an error names it.  The
  errors are exactly those, in this order.  Counts are natural numbers up to 2^53-1, the
  included input breakdowns together as well.\<close>

theorem billed_input_conserved:
  assumes "mt_input_tokens m = map_option f64_nat (g ''input_tokens'')"
    and "mt_output_tokens m = map_option f64_nat (g ''output_tokens'')"
    and "mt_cached_input_tokens m = map_option f64_nat (g ''cached_input_tokens'')"
    and "mt_cache_creation_input_tokens m = map_option f64_nat (g ''cache_creation_input_tokens'')"
    and "mt_reasoning_output_tokens m = map_option f64_nat (g ''reasoning_output_tokens'')"
    and "\<forall>k n. g k = Some n \<longrightarrow> n \<le> MAX_SAFE"
    and "included_part (declared rates) g INPUT_PARTS \<le> MAX_SAFE"
  shows "snd (billable_metrics m rates) =
      group_errors (declared rates) g ''input_tokens'' INPUT_PARTS @
      group_errors (declared rates) g ''output_tokens'' OUTPUT_PARTS \<and>
    (\<forall>(tot, ks) \<in> {(''input_tokens'', INPUT_PARTS), (''output_tokens'', OUTPUT_PARTS)}.
      bt_get (fst (billable_metrics m rates)) tot =
        map_option f64_nat (billed_total (declared rates) g tot ks) \<and>
      (\<forall>k \<in> set ks. bt_get (fst (billable_metrics m rates)) k =
        map_option f64_nat (billed_breakdown (declared rates) g tot ks k)) \<and>
      (\<forall>n. g tot = Some n \<longrightarrow> group_fits (declared rates) g tot ks \<longrightarrow>
        (\<exists>b. bt_get (fst (billable_metrics m rates)) tot = Some (f64_nat b) \<and>
          b + included_part (declared rates) g ks = n)))"
proof -
  have "\<forall>k \<in> set (''input_tokens'' # ''output_tokens'' # INPUT_PARTS @ OUTPUT_PARTS).
      metric_of m k = map_option f64_nat (g k)"
    using assms(1-5) by (simp add: metric_of_def INPUT_PARTS_def OUTPUT_PARTS_def)
  from billable_metrics_exact [OF this assms(6,7)] obtain v where
    v: "billable_metrics m rates = (v, group_errors (declared rates) g ''input_tokens'' INPUT_PARTS @
        group_errors (declared rates) g ''output_tokens'' OUTPUT_PARTS)"
      "\<forall>(tot, ks) \<in> {(''input_tokens'', INPUT_PARTS), (''output_tokens'', OUTPUT_PARTS)}.
        bt_get v tot = map_option f64_nat (billed_total (declared rates) g tot ks) \<and>
        (\<forall>k \<in> set ks. bt_get v k = map_option f64_nat (billed_breakdown (declared rates) g tot ks k))"
    by blast
  have "\<exists>b. map_option f64_nat (billed_total (declared rates) g tot ks) = Some (f64_nat b) \<and>
      b + included_part (declared rates) g ks = n"
    if "g tot = Some n" "group_fits (declared rates) g tot ks" for tot ks n
    using that by (auto simp: billed_total_def group_fits_def included_part_def)
  with v show ?thesis by simp
qed

definition sample_counts :: "string \<Rightarrow> nat option" where
  "sample_counts = [''input_tokens'' \<mapsto> 100, ''cached_input_tokens'' \<mapsto> 30,
     ''reasoning_output_tokens'' \<mapsto> 5]"

theorem billed_input_conserved_witness:
  "bt_get (fst (billable_metrics (sample_metrics\<lparr>mt_cache_creation_input_tokens := None,
       mt_reasoning_output_tokens := Some (f64_nat 5)\<rparr>) sample_model_rates)) ''input_tokens'' =
     Some (f64_nat 70) \<and>
   snd (billable_metrics (sample_metrics\<lparr>mt_cache_creation_input_tokens := None,
       mt_reasoning_output_tokens := Some (f64_nat 5)\<rparr>) sample_model_rates) =
     [''reasoning_output_tokens:missing_semantics'']"
proof -
  let ?m = "sample_metrics\<lparr>mt_cache_creation_input_tokens := None, mt_reasoning_output_tokens := Some (f64_nat 5)\<rparr>"
  have g: "sample_counts k = Some n \<Longrightarrow> n \<le> MAX_SAFE" for k n
    by (simp add: sample_counts_def MAX_SAFE_def split: if_splits)
  have keys: "included_keys (declared sample_model_rates) sample_counts INPUT_PARTS = [''cached_input_tokens'']"
    "filter (\<lambda>k. sample_counts k \<noteq> None \<and> declared sample_model_rates k = None) INPUT_PARTS = []"
    "included_keys (declared sample_model_rates) sample_counts OUTPUT_PARTS = []"
    "filter (\<lambda>k. sample_counts k \<noteq> None \<and> declared sample_model_rates k = None) OUTPUT_PARTS =
      [''reasoning_output_tokens'']"
    by (simp_all add: included_keys_def INPUT_PARTS_def OUTPUT_PARTS_def sample_counts_def
      sample_model_rates_def bt_get_def)
  have part: "included_part (declared sample_model_rates) sample_counts INPUT_PARTS = 30"
    unfolding included_part_def keys by (simp add: sample_counts_def)
  have fits: "group_fits (declared sample_model_rates) sample_counts ''input_tokens'' INPUT_PARTS"
    "group_fits (declared sample_model_rates) sample_counts ''output_tokens'' OUTPUT_PARTS"
    unfolding group_fits_def part keys by (simp_all add: sample_counts_def)
  have total: "billed_total (declared sample_model_rates) sample_counts ''input_tokens'' INPUT_PARTS = Some 70"
    using fits(1) by (simp add: billed_total_def part) (simp add: sample_counts_def)
  have errors: "group_errors (declared sample_model_rates) sample_counts ''input_tokens'' INPUT_PARTS @
      group_errors (declared sample_model_rates) sample_counts ''output_tokens'' OUTPUT_PARTS =
      [''reasoning_output_tokens:missing_semantics'']"
    using fits unfolding group_errors_def keys by simp
  show ?thesis
    using billed_input_conserved [of ?m sample_counts sample_model_rates] g errors total part
    by (simp add: sample_counts_def sample_metrics_def sample_record_def MAX_SAFE_def)
qed

end
