(* ===== verification/Report_Laws.thy ===== *)
theory Report_Laws
  imports Report Pricing_Laws "HOL-Library.Product_Lexorder"
begin

section \<open>Properties of report projection\<close>

text \<open>
  Sorting, repository propagation, exact totals and the validity of the reports that the
  projector of \<^verbatim>\<open>crates/application/src/lib.rs\<close> builds.
\<close>

subsection \<open>Stable sorting\<close>

lemma mset_insert_by [simp]: "mset (insert_by le x xs) = add_mset x (mset xs)"
  by (induction xs) auto

lemma mset_sort_by [simp]: "mset (sort_by le xs) = mset xs"
  by (induction xs) (auto simp: sort_by_def)

lemma set_sort_by [simp]: "set (sort_by le xs) = set xs"
  by (metis mset_sort_by set_mset_mset)

lemma set_insert_by [simp]: "set (insert_by le x xs) = insert x (set xs)"
  by (induction xs) auto

text \<open>A comparison that is the order of a key.\<close>

locale key_order =
  fixes le :: "'a \<Rightarrow> 'a \<Rightarrow> bool" and key :: "'a \<Rightarrow> 'k::linorder"
  assumes le_key: "le x y \<longleftrightarrow> key x \<le> key y"
begin

lemma sorted_insert_by: "sorted_wrt le xs \<Longrightarrow> sorted_wrt le (insert_by le x xs)"
  by (induction xs) (auto simp: le_key)

lemma sorted_sort_by: "sorted_wrt le (sort_by le xs)"
  by (induction xs) (auto simp: sort_by_def sorted_insert_by)

lemma sort_by_key: "sort_by le xs = sort_key key xs"
proof -
  have "insert_by le x ys = insort_key key x ys" for x ys by (induction ys) (auto simp: le_key)
  then have "insert_by le = insort_key key" by (intro ext)
  then show ?thesis by (simp add: sort_by_def sort_key_def)
qed

end

fun f64_key :: "f64 \<Rightarrow> nat \<times> rat \<times> bool" where
  "f64_key NaN = (3, 0, False)"
| "f64_key (Inf s) = (if s then 0 else 2, 0, False)"
| "f64_key (Fin s r) = (1, f64_val (Fin s r), \<not> s)"

lemma f64_total_less_key: "f64_total_less x y \<longleftrightarrow> f64_key x < f64_key y"
  by (cases x; cases y) (auto simp: less_prod_def simp del: f64_val.simps)

lemma lex_le_key:
  "f64_total_less x y \<or> (\<not> f64_total_less y x \<and> a \<le> b) \<longleftrightarrow> (f64_key x, a) \<le> (f64_key y, b)"
  for a b :: "'a::linorder"
  by (auto simp: f64_total_less_key less_eq_prod_def not_less)

interpretation trace_order: key_order trace_le
  "\<lambda>t. (f64_key (ts_start_time_unix_ms t), ts_trace_id t)"
  by unfold_locales (simp only: trace_le_def lex_le_key)

interpretation span_order: key_order span_le
  "\<lambda>s. (f64_key (sp_start_time_unix_ms s), sp_trace_id s, sp_span_id s)"
  by unfold_locales
    (auto simp: span_le_def f64_total_less_key less_eq_prod_def less_prod_def not_less)

subsection \<open>Repositories\<close>

abbreviation named :: "string list \<Rightarrow> string set" where
  "named ks \<equiv> set ks - {UNKNOWN}"

definition mark_repository :: "field_availability \<Rightarrow> report_span_v2 \<Rightarrow> report_span_v2" where
  "mark_repository fa s = s\<lparr>sp_availability := (sp_availability s)\<lparr>av_repository := fa\<rparr>\<rparr>"

definition resolve_set :: "string set \<Rightarrow> report_span_v2 \<Rightarrow> report_span_v2" where
  "resolve_set R s =
     (if sp_repo s \<noteq> UNKNOWN \<or> R = {} then s
      else if is_singleton R
        then mark_repository (field_availability_of Available ''derived_from_trace_context'')
          s\<lparr>sp_repo := the_elem R\<rparr>
      else mark_repository (field_availability_of SourceUnavailable ''ambiguous_trace_repository'') s)"

lemma resolve_eq: "resolve_report_repository ks s = resolve_set (named ks) s"
proof -
  let ?f = "filter (\<lambda>r. r \<noteq> UNKNOWN) ks"
  have f: "named ks = set ?f" by auto
  show ?thesis
  proof (cases ?f)
    case Nil
    then show ?thesis by (simp add: resolve_report_repository_def resolve_set_def f)
  next
    case (Cons first rest)
    show ?thesis
    proof (cases "list_ex (\<lambda>r. r \<noteq> first) rest")
      case True
      then have "\<not> is_singleton (set ?f)" "set ?f \<noteq> {}"
        by (auto simp: Cons list_ex_iff is_singleton_def)
      then have "resolve_set (named ks) s = (if sp_repo s \<noteq> UNKNOWN then s else
          mark_repository (field_availability_of SourceUnavailable ''ambiguous_trace_repository'') s)"
        unfolding f resolve_set_def by auto
      with True show ?thesis
        by (simp only: resolve_report_repository_def Cons list.case mark_repository_def if_True)
    next
      case False
      then have "set ?f = {first}" by (auto simp: Cons list_ex_iff)
      then have "resolve_set (named ks) s = (if sp_repo s \<noteq> UNKNOWN then s else
          mark_repository (field_availability_of Available ''derived_from_trace_context'') s\<lparr>sp_repo := first\<rparr>)"
        unfolding f resolve_set_def by simp
      with False show ?thesis
        by (simp add: resolve_report_repository_def Cons mark_repository_def)
    qed
  qed
qed

definition trace_repositories :: "report_span_v2 list \<Rightarrow> string \<Rightarrow> string set" where
  "trace_repositories spans t = {sp_repo s | s. s \<in> set spans \<and> sp_trace_id s = t} - {UNKNOWN}"

lemma fold_insort_insert: "set (fold (\<lambda>s. insort_insert (f s)) xs acc) = f ` set xs \<union> set acc"
  by (induction xs arbitrary: acc) (auto simp: set_insort_insert)

lemma group_of_const:
  "group_of key (\<lambda>_. z) step xs k =
     (if filter (\<lambda>x. key x = k) xs = [] then None else Some (fold step (filter (\<lambda>x. key x = k) xs) z))"
  by (simp add: group_of_def split: list.splits)

lemma named_repositories:
  "named (repositories_of (known_repositories spans) t) = trace_repositories spans t"
proof -
  have "set (repositories_of (known_repositories spans) t) =
      sp_repo ` set (filter (\<lambda>s. sp_trace_id s = t) (filter (\<lambda>s. sp_repo s \<noteq> UNKNOWN) spans))"
    by (auto simp: repositories_of_def known_repositories_def bt_get_group group_of_const
      fold_insort_insert filter_empty_conv)
  then show ?thesis by (auto simp: trace_repositories_def)
qed

lemma propagate_eq:
  "propagate_trace_repositories spans =
     map (\<lambda>s. resolve_set (trace_repositories spans (sp_trace_id s)) s) spans"
  by (simp add: propagate_trace_repositories_def Let_def resolve_eq named_repositories)

lemma resolve_set_fields [simp]:
  "sp_trace_id (resolve_set R s) = sp_trace_id s" "sp_span_id (resolve_set R s) = sp_span_id s"
  "sp_start_time_unix_ms (resolve_set R s) = sp_start_time_unix_ms s"
  "sp_end_time_unix_ms (resolve_set R s) = sp_end_time_unix_ms s"
  "sp_metrics (resolve_set R s) = sp_metrics s" "sp_cost (resolve_set R s) = sp_cost s"
  "sp_attributes (resolve_set R s) = sp_attributes s"
  "sp_estimated_cost (resolve_set R s) = sp_estimated_cost s"
  "av_tokens (sp_availability (resolve_set R s)) = av_tokens (sp_availability s)"
  by (simp_all add: resolve_set_def mark_repository_def)

lemma resolve_set_repo:
  "sp_repo (resolve_set R s) =
     (if sp_repo s = UNKNOWN \<and> is_singleton R then the_elem R else sp_repo s)"
  by (auto simp: resolve_set_def mark_repository_def is_singleton_def)

lemma propagated:
  "trace_repositories (propagate_trace_repositories spans) t =
     {sp_repo (resolve_set (trace_repositories spans t) s) | s. s \<in> set spans \<and> sp_trace_id s = t} - {UNKNOWN}"
proof -
  have "trace_repositories (map f spans) t =
      {sp_repo (f s) | s. s \<in> set spans \<and> sp_trace_id (f s) = t} - {UNKNOWN}" for f
    by (auto simp: trace_repositories_def)
  then show ?thesis by (auto simp: propagate_eq)
qed

lemma propagate_repositories:
  "trace_repositories (propagate_trace_repositories spans) t = trace_repositories spans t"
proof
  show "trace_repositories (propagate_trace_repositories spans) t \<subseteq> trace_repositories spans t"
  proof
    fix r assume "r \<in> trace_repositories (propagate_trace_repositories spans) t"
    then obtain s where s: "s \<in> set spans" "sp_trace_id s = t" "r \<noteq> UNKNOWN"
      "r = sp_repo (resolve_set (trace_repositories spans t) s)"
      by (auto simp: propagated)
    show "r \<in> trace_repositories spans t"
    proof (cases "sp_repo s = UNKNOWN \<and> is_singleton (trace_repositories spans t)")
      case True
      then have "trace_repositories spans t = {r}"
        using s(4) by (simp add: resolve_set_repo is_singleton_the_elem)
      then show ?thesis by simp
    next
      case False
      then show ?thesis using s by (auto simp: resolve_set_repo trace_repositories_def)
    qed
  qed
  show "trace_repositories spans t \<subseteq> trace_repositories (propagate_trace_repositories spans) t"
  proof
    fix r assume "r \<in> trace_repositories spans t"
    then obtain s where "s \<in> set spans" "sp_trace_id s = t" "sp_repo s = r" "r \<noteq> UNKNOWN"
      by (auto simp: trace_repositories_def)
    then show "r \<in> trace_repositories (propagate_trace_repositories spans) t"
      by (auto simp: propagated resolve_set_repo intro!: exI [of _ s])
  qed
qed

lemma resolve_set_idem: "UNKNOWN \<notin> R \<Longrightarrow> resolve_set R (resolve_set R s) = resolve_set R s"
  by (auto simp: resolve_set_def [of R s] resolve_set_def [of R s for s] mark_repository_def is_singleton_def)

subsection \<open>Totals\<close>

definition valid_count :: "f64 \<Rightarrow> bool" where
  "valid_count v \<longleftrightarrow> \<not> invalid_summary_value v"

definition count_of :: "f64 \<Rightarrow> nat" where
  "count_of v = unat (exact_u64 v)"

lemma sum_values_iff:
  "sum_values field vs acc = Inr t \<longleftrightarrow>
     list_all valid_count vs \<and> unat acc + sum_list (map count_of vs) < 2 ^ 64 \<and>
     unat t = unat acc + sum_list (map count_of vs)"
proof (induction vs arbitrary: acc)
  case Nil
  have "unat acc < 2 ^ LENGTH(64)" by (rule unsigned_less)
  then show ?case by (auto simp: word_unat_eq_iff)
next
  case (Cons v vs)
  have "sum_values field (v # vs) acc = Inr t \<longleftrightarrow>
      valid_count v \<and> (\<exists>a. unat a = unat acc + count_of v \<and> unat acc + count_of v < 2 ^ 64 \<and>
        sum_values field vs a = Inr t)"
    by (auto simp: valid_count_def bind_result_eq_Inr machine_simps count_of_def)
  also have "\<dots> \<longleftrightarrow> valid_count v \<and> list_all valid_count vs \<and>
      unat acc + (count_of v + sum_list (map count_of vs)) < 2 ^ 64 \<and>
      unat t = unat acc + (count_of v + sum_list (map count_of vs))"
    (is "?l \<longleftrightarrow> ?r")
  proof
    assume ?l
    then show ?r by (auto simp: Cons.IH)
  next
    assume r: ?r
    then have "unat acc + count_of v < 2 ^ LENGTH(64)" by simp
    then have "unat (acc + exact_u64 v) = unat acc + count_of v"
      by (simp add: count_of_def unat_word_ariths)
    with r show ?l by (auto simp: Cons.IH intro!: exI [of _ "acc + exact_u64 v"])
  qed
  finally show ?case by simp
qed

definition metric_list :: "(report_metrics \<Rightarrow> f64 option) \<Rightarrow> report_span_v2 list \<Rightarrow> f64 list" where
  "metric_list get spans = present (map (\<lambda>s. get (sp_metrics s)) spans)"

definition metric_total :: "(report_metrics \<Rightarrow> f64 option) \<Rightarrow> report_span_v2 list \<Rightarrow> nat" where
  "metric_total get spans = sum_list (map (\<lambda>s. unat (metric_or_zero (get (sp_metrics s)))) spans)"

lemma metric_total_list: "sum_list (map count_of (metric_list get spans)) = metric_total get spans"
  by (induction spans)
    (auto simp: metric_list_def metric_total_def present_def count_of_def metric_or_zero_def exact_u64_def
      f64_zero_def split: option.splits)

lemma sum_integer_metric_iff:
  "sum_integer_metric spans get field = Inr t \<longleftrightarrow>
     list_all valid_count (metric_list get spans) \<and> metric_total get spans < 2 ^ 64 \<and>
     unat t = metric_total get spans"
  by (simp add: sum_integer_metric_def sum_values_iff metric_total_list flip: metric_list_def)

lemma metric_total_filter: "metric_total get (filter p spans) \<le> metric_total get spans"
  by (induction spans) (auto simp: metric_total_def)

subsection \<open>Traces\<close>

lemma fold_add_to_trace:
  "ts_input_tokens (fold add_to_trace ss g) =
     ts_input_tokens g + sum_list (map (\<lambda>s. metric_or_zero (rm_input_tokens (sp_metrics s))) ss)"
  "ts_output_tokens (fold add_to_trace ss g) =
     ts_output_tokens g + sum_list (map (\<lambda>s. metric_or_zero (rm_output_tokens (sp_metrics s))) ss)"
  "ts_spans (fold add_to_trace ss g) = ts_spans g + of_nat (length ss)"
  "ts_trace_id (fold add_to_trace ss g) = ts_trace_id g"
  by (induction ss arbitrary: g) (simp_all add: add_to_trace_def add.assoc)

lemma unat_sum_list:
  fixes ws :: "'a::len word list"
  shows "sum_list (map unat ws) < 2 ^ LENGTH('a) \<Longrightarrow> unat (sum_list ws) = sum_list (map unat ws)"
  by (induction ws) (simp_all add: unat_word_ariths)

definition trace_group :: "report_span_v2 list \<Rightarrow> (string, trace_summary) btree" where
  "trace_group spans = bt_group sp_trace_id new_trace add_to_trace spans"

lemma trace_group_tokens:
  assumes "group_of sp_trace_id new_trace add_to_trace spans t = Some g"
    and "metric_total rm_input_tokens spans < 2 ^ 64" and "metric_total rm_output_tokens spans < 2 ^ 64"
  shows "ts_trace_id g = t \<and>
    unat (ts_input_tokens g) = metric_total rm_input_tokens (filter (\<lambda>s. sp_trace_id s = t) spans) \<and>
    unat (ts_output_tokens g) = metric_total rm_output_tokens (filter (\<lambda>s. sp_trace_id s = t) spans)"
proof -
  let ?ss = "filter (\<lambda>s. sp_trace_id s = t) spans"
  obtain y ys where ss: "?ss = y # ys" and g: "g = fold add_to_trace ?ss (new_trace y)"
    using assms(1) by (auto simp: group_of_def split: list.splits)
  have "y \<in> set ?ss" by (simp add: ss)
  then have y: "sp_trace_id y = t" by simp
  have bound: "sum_list (map unat (map (\<lambda>s. metric_or_zero (get (sp_metrics s))) ?ss)) < 2 ^ LENGTH(64)"
    if "metric_total get spans < 2 ^ 64" for get
    using that metric_total_filter [of get "\<lambda>s. sp_trace_id s = t" spans]
    by (simp add: metric_total_def comp_def)
  show ?thesis
    using unat_sum_list [OF bound [OF assms(2)]] unat_sum_list [OF bound [OF assms(3)]]
    by (simp add: g fold_add_to_trace new_trace_def y metric_total_def comp_def)
qed

subsection \<open>Validity of a projected span\<close>

lemma estimate_status_word:
  "ce_status (estimate_span_cost r t) \<in> {''estimated'', ''incomplete'', ''unknown''}"
proof (cases t)
  case None
  then show ?thesis by (simp add: estimate_span_cost_def unknown_cost_def)
next
  case (Some table)
  show ?thesis
    unfolding Some by (cases rule: estimate_cases [of r table]) (simp_all add: cost_result_def)
qed

lemma validate_cost_error: "ce_status c \<in> {''estimated'', ''incomplete'', ''unknown''} \<Longrightarrow>
    validate_cost c = Inl e \<Longrightarrow> e = NonFiniteNumber"
  by (auto simp: validate_cost_def bind_result_eq_Inl validate_finite_def
    split: if_splits dest!: try_all_error_in)

lemma finite_error: "try_all validate_finite vs = Inl e \<Longrightarrow> e = NonFiniteNumber"
  by (auto simp: validate_finite_def split: if_splits dest!: try_all_error_in)

lemma report_attributes_valid:
  assumes "validate_attributes a = Inr ()"
  shows "validate_report_attributes (report_attributes_of sha a) = Inr ()"
proof -
  have h: "hash_scalar_identifier sha v = Some w \<Longrightarrow> v = Some w \<or> (\<exists>t. w = SString t)" for v w
    by (auto simp: hash_scalar_identifier_def split: option.splits scalar_value.splits)
  have "validate_scalar w = Inr ()"
    if "Some w \<in> set (report_attribute_values (report_attributes_of sha a))" for w
  proof -
    have "Some w \<in> set (attribute_values a) \<or> (\<exists>t. w = SString t)"
      using that h by (auto simp: report_attribute_values_def report_attributes_of_def attribute_values_def
        eq_commute [of "Some w"])
    then show ?thesis using assms by (auto simp: validate_attributes_def result_simps)
  qed
  then show ?thesis by (simp add: validate_report_attributes_def result_simps)
qed

lemma report_metrics_valid:
  assumes "validate_metrics m = Inr ()"
  shows "validate_report_metrics (report_metrics_of m) = Inr ()"
proof -
  have "set (report_metric_values (report_metrics_of m)) \<subseteq> set (metric_values m)"
    by (auto simp: report_metric_values_def report_metrics_of_def metric_values_def)
  then show ?thesis
    using assms
    by (auto simp: validate_report_metrics_def validate_metrics_def result_simps
      validate_nonnegative_finite_def)
qed

lemma valid_reasons:
  "valid_availability_reason (token_availability m k)"
  "valid_availability_reason (private_lookup_availability n a t k)"
  by (simp_all add: valid_availability_reason_def token_availability_def field_availability_of_def
    private_lookup_availability_def Let_def)

lemma report_availability_valid:
  "valid_availability_reason tokens \<Longrightarrow> valid_availability_reason private_detail \<Longrightarrow>
   list_all valid_availability_reason (availability_fields
     (report_availability_of repo turn model tokens latency kind private_detail))"
  by (simp add: availability_fields_def report_availability_of_def valid_availability_reason_def
    field_availability_of_def)

lemma token_availability_matches: "token_availability_valid m (token_availability m k)"
  by (simp add: token_availability_valid_def token_availability_def field_availability_of_def)

lemma report_span_validate:
  assumes "validate_durable_record q = Inr ()"
  shows "validate_report_span (report_span sha q t) =
    bind_result (try_all validate_finite (present [ce_estimated_cost (estimate_span_cost q t)]))
      (\<lambda>_. validate_cost (estimate_span_cost q t))"
proof -
  let ?s = "report_span sha q t"
  have times: "validate_finite (sp_start_time_unix_ms ?s) = Inr ()"
    "try_all validate_finite (present [sp_end_time_unix_ms ?s]) = Inr ()"
    using assms by (auto simp: validate_durable_record_iff report_span_def Let_def validate_finite_def result_simps)
  have parts: "validate_report_attributes (sp_attributes ?s) = Inr ()"
    "validate_report_metrics (sp_metrics ?s) = Inr ()"
    using assms report_attributes_valid report_metrics_valid
    by (simp_all add: validate_durable_record_iff report_span_def Let_def)
  have tokens: "ensure (token_availability_valid (sp_metrics ?s) (av_tokens (sp_availability ?s)))
      ContradictoryReportAvailability = Inr ()"
    by (simp add: report_span_def Let_def report_availability_of_def token_availability_matches)
  have "list_all valid_availability_reason (availability_fields (sp_availability ?s))"
    by (simp add: report_span_def Let_def report_availability_valid valid_reasons)
  then have fields: "try_all (\<lambda>fa. ensure (valid_availability_reason fa) ContradictoryReportAvailability)
      (availability_fields (sp_availability ?s)) = Inr ()"
    by (simp add: result_simps list_all_iff)
  have costs: "sp_estimated_cost ?s = ce_estimated_cost (estimate_span_cost q t)"
    "sp_cost ?s = estimate_span_cost q t"
    by (simp_all add: report_span_def Let_def)
  show ?thesis
    unfolding validate_report_span_def
    by (simp only: times parts tokens fields costs bind_result_Inr)
qed

lemma map_error_eq_Inr: "map_error f r = Inr a \<longleftrightarrow> r = Inr a"
  by (simp add: map_error_def split: sum.splits)

lemma map_error_eq_Inl: "map_error f r = Inl e \<longleftrightarrow> (\<exists>e'. r = Inl e' \<and> e = f e')"
  by (auto simp: map_error_def split: sum.splits)

lemma project_report_span_iff:
  "project_report_span sha i r t = Inr s \<longleftrightarrow>
     (\<exists>q. sanitize_durable_record sha r = Inr q \<and> s = report_span sha q t \<and> validate_report_span s = Inr ())"
  by (auto simp: project_report_span_def map_error_eq_Inr Let_def bind_result_eq_Inr)

lemma validate_unknown_cost [simp]: "validate_cost (unknown_cost reason) = Inr ()"
  by (simp add: validate_cost_def unknown_cost_def cost_detail_default_def bt_values_def present_def)

lemma report_span_no_table:
  "validate_durable_record q = Inr () \<Longrightarrow> validate_report_span (report_span sha q None) = Inr ()"
  by (simp add: report_span_validate estimate_span_cost_def)
    (simp add: unknown_cost_def present_def)

lemma resolve_set_valid:
  assumes "validate_report_span s = Inr ()"
  shows "validate_report_span (resolve_set R s) = Inr ()"
proof -
  have "valid_availability_reason (av_repository (sp_availability (resolve_set R s))) \<or>
      av_repository (sp_availability (resolve_set R s)) = av_repository (sp_availability s)"
    by (auto simp: resolve_set_def mark_repository_def valid_availability_reason_def field_availability_of_def)
  moreover have "availability_fields (sp_availability (resolve_set R s)) =
      av_repository (sp_availability (resolve_set R s)) # tl (availability_fields (sp_availability s))"
    by (simp add: availability_fields_def resolve_set_def mark_repository_def)
  ultimately show ?thesis
    using assms by (auto simp: validate_report_span_def result_simps availability_fields_def)
qed

subsection \<open>Reports\<close>

definition summary_getters :: "(report_metrics \<Rightarrow> f64 option) list" where
  "summary_getters = [rm_input_tokens, rm_output_tokens, rm_cached_input_tokens,
     rm_cache_creation_input_tokens, rm_reasoning_output_tokens, rm_latency_ms, rm_duration_ms]"

definition summary_ok :: "report_metrics list \<Rightarrow> bool" where
  "summary_ok ms \<longleftrightarrow> (\<forall>get \<in> set summary_getters.
     (\<forall>v. Some v \<in> get ` set ms \<longrightarrow> valid_count v) \<and>
     sum_list (map (\<lambda>m. unat (metric_or_zero (get m))) ms) < 2 ^ 64)"

lemma summary_ok_mset: "mset ms = mset ms' \<Longrightarrow> summary_ok ms \<longleftrightarrow> summary_ok ms'"
proof -
  assume m: "mset ms = mset ms'"
  have "sum_list (map f ms) = sum_list (map f ms')" for f :: "report_metrics \<Rightarrow> nat"
    using m by (metis mset_map sum_mset_sum_list)
  then show ?thesis using mset_eq_setD [OF m] by (simp add: summary_ok_def)
qed

lemma metric_list_valid:
  "list_all valid_count (metric_list get spans) \<longleftrightarrow>
     (\<forall>v. Some v \<in> get ` set (map sp_metrics spans) \<longrightarrow> valid_count v)"
  by (auto simp: list_all_iff metric_list_def image_image)

lemma sum_metric_ok:
  "(\<exists>t. sum_integer_metric spans get field = Inr t) \<longleftrightarrow>
     (\<forall>v. Some v \<in> get ` set (map sp_metrics spans) \<longrightarrow> valid_count v) \<and> metric_total get spans < 2 ^ 64"
proof -
  have "unat (word_of_nat n :: u64) = n" if "n < 2 ^ 64" for n
    using that by (simp add: unat_of_nat)
  then show ?thesis by (auto simp: sum_integer_metric_iff metric_list_valid)
qed

lemma bind_result_ok: "(\<exists>b. bind_result r f = Inr b) \<longleftrightarrow> (\<exists>a. r = Inr a \<and> (\<exists>b. f a = Inr b))"
  by (auto simp: bind_result_eq_Inr)

lemma summarize_ok:
  "(\<exists>su. summarize_report spans = Inr su) \<longleftrightarrow> summary_ok (map sp_metrics spans)"
  by (simp add: summarize_report_def bind_result_ok sum_metric_ok summary_ok_def
    summary_getters_def metric_total_def comp_def)

lemma summarize_tokens:
  assumes "summarize_report spans = Inr su"
  shows "unat (su_input_tokens su) = metric_total rm_input_tokens spans \<and>
    unat (su_output_tokens su) = metric_total rm_output_tokens spans \<and>
    metric_total rm_input_tokens spans < 2 ^ 64 \<and> metric_total rm_output_tokens spans < 2 ^ 64"
  using assms by (auto simp: summarize_report_def bind_result_eq_Inr sum_integer_metric_iff)

lemma trace_summaries_set:
  "set (trace_summaries spans) = close_trace (known_repositories spans) ` {g. \<exists>t.
     group_of sp_trace_id new_trace add_to_trace spans t = Some g}"
  by (simp add: trace_summaries_def bt_values_eq bt_sorted_group bt_get_group)

lemma close_trace_fields [simp]:
  "ts_trace_id (close_trace known t) = ts_trace_id t" "ts_input_tokens (close_trace known t) = ts_input_tokens t"
  "ts_output_tokens (close_trace known t) = ts_output_tokens t" "ts_spans (close_trace known t) = ts_spans t"
  "ts_estimated_cost (close_trace known t) = ts_estimated_cost t"
  "ts_start_time_unix_ms (close_trace known t) = ts_start_time_unix_ms t"
  "ts_end_time_unix_ms (close_trace known t) = ts_end_time_unix_ms t"
  by (simp_all add: close_trace_def)

lemma trace_summaries_total:
  fixes f :: "trace_summary \<Rightarrow> nat"
  assumes "\<And>known t. f (close_trace known t) = f t"
    and "\<And>t g. group_of sp_trace_id new_trace add_to_trace spans t = Some g \<Longrightarrow>
      f g = sum_list (map h (filter (\<lambda>s. sp_trace_id s = t) spans))"
  shows "sum_list (map f (trace_summaries spans)) = sum_list (map h spans)"
proof -
  have "sum_list (map f (trace_summaries spans)) =
      sum_list (map f (map (close_trace (known_repositories spans))
        (bt_values (bt_group sp_trace_id new_trace add_to_trace spans))))"
    unfolding trace_summaries_def by (metis mset_map mset_sort_by sum_mset_sum_list)
  also have "\<dots> = sum_list (map f (bt_values (bt_group sp_trace_id new_trace add_to_trace spans)))"
    by (simp add: comp_def assms(1))
  also have "\<dots> = sum_list (map h spans)" by (rule bt_group_total [OF assms(2)])
  finally show ?thesis .
qed

lemma finish_iff:
  "projector_finish p generated title = Inr rep \<longleftrightarrow>
     (let spans = propagate_trace_repositories (sort_by span_le (rp_spans p)) in \<exists>su.
        summarize_report spans = Inr su \<and>
        rep = \<lparr>r2_schema_version = REPORT_DTO_VERSION, r2_generated_at = generated,
          r2_title = redact_sensitive_text title ''title'', r2_summary = su,
          r2_cost = estimate_cost_for_spans spans (rp_table p), r2_filters = report_filters_of spans,
          r2_traces = trace_summaries spans, r2_spans = spans\<rparr> \<and> validate_report_v2 rep = Inr ())"
  by (simp add: projector_finish_def Let_def bind_result_eq_Inr) (auto simp: map_error_eq_Inr)

subsection \<open>Reports without a rate table\<close>

definition trace_finite :: "trace_summary \<Rightarrow> bool" where
  "trace_finite g \<longleftrightarrow> ts_estimated_cost g = f64_zero \<and> is_finite (ts_start_time_unix_ms g) \<and>
     (\<forall>e. ts_end_time_unix_ms g = Some e \<longrightarrow> is_finite e)"

definition plain_span :: "report_span_v2 \<Rightarrow> bool" where
  "plain_span s \<longleftrightarrow> validate_report_span s = Inr () \<and> sp_estimated_cost s = None"

lemma plain_span_finite:
  "plain_span s \<Longrightarrow> is_finite (sp_start_time_unix_ms s) \<and>
     (\<forall>e. sp_end_time_unix_ms s = Some e \<longrightarrow> is_finite e) \<and> cost_or_zero (sp_estimated_cost s) = f64_zero"
  by (auto simp: plain_span_def validate_report_span_def result_simps validate_finite_def
    cost_or_zero_def split: if_splits)

lemma f64_zero_add [simp]:
  "f64_add f64_zero f64_zero = f64_zero" "f64_add (Fin True 0) f64_zero = f64_zero" "is_finite f64_zero"
  by (simp_all add: f64_zero_def f64_of_rat_def)

lemma finite_min_max:
  "is_finite x \<Longrightarrow> is_finite y \<Longrightarrow> is_finite (f64_min x y)"
  "is_finite x \<Longrightarrow> is_finite y \<Longrightarrow> is_finite (f64_max x y)"
  by (cases x; cases y; simp)+

lemma trace_finite_add: "plain_span s \<Longrightarrow> trace_finite g \<Longrightarrow> trace_finite (add_to_trace s g)"
  using plain_span_finite [of s]
  by (auto simp: trace_finite_def add_to_trace_def max_nullable_def finite_min_max split: option.splits)

lemma trace_finite_fold:
  "\<forall>s \<in> set ss. plain_span s \<Longrightarrow> trace_finite g \<Longrightarrow> trace_finite (fold add_to_trace ss g)"
  by (induction ss arbitrary: g) (auto simp: trace_finite_add)

lemma trace_summaries_finite:
  assumes "\<forall>s \<in> set spans. plain_span s" and "t \<in> set (trace_summaries spans)"
  shows "validate_trace_summary t = Inr ()"
proof -
  obtain k g where g: "t = close_trace (known_repositories spans) g"
    "group_of sp_trace_id new_trace add_to_trace spans k = Some g"
    using assms(2) by (auto simp: trace_summaries_set)
  obtain y ys where ys: "filter (\<lambda>s. sp_trace_id s = k) spans = y # ys"
    and g': "g = fold add_to_trace (y # ys) (new_trace y)"
    using g(2) by (auto simp: group_of_def split: list.splits)
  have "set (y # ys) \<subseteq> set spans" unfolding ys [symmetric] by auto
  then have plain: "\<forall>s \<in> set (y # ys). plain_span s" using assms(1) by blast
  then have "trace_finite (new_trace y)"
    using plain_span_finite [of y] by (auto simp: trace_finite_def new_trace_def)
  then have "trace_finite g" unfolding g' by (rule trace_finite_fold [OF plain])
  then show ?thesis
    by (auto simp: g(1) trace_finite_def validate_trace_summary_def validate_finite_def result_simps f64_zero_def)
qed

lemma sum_zeros_finite: "\<forall>x \<in> set xs. x = f64_zero \<Longrightarrow> is_finite (f64_sum xs)"
proof -
  have "\<forall>x \<in> set xs. x = f64_zero \<Longrightarrow> z = Fin True 0 \<or> z = f64_zero \<Longrightarrow> is_finite (foldl f64_add z xs)" for z
  proof (induction xs arbitrary: z)
    case (Cons x xs)
    then have "f64_add z x = f64_zero" by auto
    then show ?case using Cons.IH [of f64_zero] Cons.prems(1) by simp
  qed auto
  then show "\<forall>x \<in> set xs. x = f64_zero \<Longrightarrow> is_finite (f64_sum xs)" by (simp add: f64_sum_def)
qed

lemma summarize_cost: "summarize_report spans = Inr su \<Longrightarrow>
    su_estimated_cost su = f64_sum (map (\<lambda>s. cost_or_zero (sp_estimated_cost s)) spans)"
  by (auto simp: summarize_report_def bind_result_eq_Inr)

lemma finish_no_table:
  assumes "rp_table p = None" and "\<forall>s \<in> set (rp_spans p). plain_span s"
  shows "(\<exists>rep. projector_finish p generated title = Inr rep) \<longleftrightarrow> summary_ok (map sp_metrics (rp_spans p))"
proof -
  let ?spans = "propagate_trace_repositories (sort_by span_le (rp_spans p))"
  have plain: "\<forall>s \<in> set ?spans. plain_span s"
    using assms(2) resolve_set_valid by (auto simp: propagate_eq plain_span_def)
  have "mset (map sp_metrics ?spans) = mset (map sp_metrics (rp_spans p))"
    by (simp add: propagate_eq comp_def)
  then have su: "(\<exists>su. summarize_report ?spans = Inr su) \<longleftrightarrow> summary_ok (map sp_metrics (rp_spans p))"
    unfolding summarize_ok by (rule summary_ok_mset)
  have cost: "estimate_cost_for_spans ?spans (rp_table p) = unknown_cost ''missing_rate_table''"
    by (simp add: estimate_cost_for_spans_def assms(1))
  have "is_finite (su_estimated_cost su)" if "summarize_report ?spans = Inr su" for su
    using plain_span_finite plain by (simp add: summarize_cost [OF that] sum_zeros_finite)
  then have "validate_report_v2 \<lparr>r2_schema_version = REPORT_DTO_VERSION, r2_generated_at = generated,
      r2_title = redact_sensitive_text title ''title'', r2_summary = su,
      r2_cost = estimate_cost_for_spans ?spans (rp_table p), r2_filters = report_filters_of ?spans,
      r2_traces = trace_summaries ?spans, r2_spans = ?spans\<rparr> = Inr ()"
    if "summarize_report ?spans = Inr su" for su
    using that plain trace_summaries_finite [OF plain]
    by (simp add: validate_report_v2_def cost validate_finite_def result_simps plain_span_def)
  then show ?thesis unfolding su [symmetric] by (auto simp: finish_iff Let_def)
qed

lemma push_all_iff:
  "push_all sha i rs p = Inr p' \<longleftrightarrow>
     (\<exists>ss. list_all2 (\<lambda>r s. project_report_span sha 0 r (rp_table p) = Inr s) rs ss \<and>
       p' = p\<lparr>rp_spans := rp_spans p @ ss\<rparr>)"
proof (induction rs arbitrary: i p)
  case (Cons r rs)
  have index: "project_report_span sha i r t = Inr s \<longleftrightarrow> project_report_span sha 0 r t = Inr s" for t s
    by (simp add: project_report_span_iff)
  show ?case
  proof (cases "project_report_span sha i r (rp_table p)")
    case (Inl e)
    then have "project_report_span sha 0 r (rp_table p) \<noteq> Inr s" for s
      using index [of "rp_table p" s] by auto
    with Inl show ?thesis by (simp add: projector_push_def list_all2_Cons1)
  next
    case (Inr s)
    then have "project_report_span sha 0 r (rp_table p) = Inr s" using index by blast
    with Inr show ?thesis by (auto simp: projector_push_def Cons.IH list_all2_Cons1)
  qed
qed auto

lemma no_table_span:
  "project_report_span sha i r None = Inr s \<longleftrightarrow>
     (\<exists>q. sanitize_durable_record sha r = Inr q \<and> s = report_span sha q None)"
  using report_span_no_table by (auto simp: project_report_span_iff sanitize_eq)

lemma no_table_span_plain:
  assumes "project_report_span sha i r None = Inr s"
  shows "plain_span s \<and> sp_metrics s = report_metrics_of (dr_metrics r)"
proof -
  obtain q where q: "sanitize_durable_record sha r = Inr q" "s = report_span sha q None"
    using assms by (auto simp: no_table_span)
  have "validate_report_span s = Inr ()" using assms by (auto simp: project_report_span_iff)
  moreover have "dr_metrics q = dr_metrics r" using q(1) by (simp add: sanitize_eq clean_record_def)
  ultimately show ?thesis
    by (simp add: plain_span_def q(2) report_span_def Let_def estimate_span_cost_def unknown_cost_def)
qed

definition cost_finite :: "cost_estimate \<Rightarrow> bool" where
  "cost_finite c \<longleftrightarrow> list_all is_finite (present [ce_estimated_cost c] @
     concat (map (\<lambda>k. [cc_tokens k, cc_rate_per_1m k, cc_estimated_cost k])
       (bt_values (cd_components (ce_cost c)))))"

lemma validate_span_cost:
  assumes "ce_status c \<in> {''estimated'', ''incomplete'', ''unknown''}"
  shows "bind_result (try_all validate_finite (present [ce_estimated_cost c])) (\<lambda>_. validate_cost c) =
    (if cost_finite c then Inr () else Inl NonFiniteNumber)" (is "?l = ?r")
proof -
  have ok: "?l = Inr () \<longleftrightarrow> cost_finite c"
    using assms
    by (auto simp: result_simps cost_finite_def validate_cost_def list_all_iff validate_finite_def)
  show ?thesis
  proof (cases ?l)
    case (Inl e)
    then have "e = NonFiniteNumber"
      using finite_error validate_cost_error [OF assms] by (auto simp: bind_result_eq_Inl)
    then show ?thesis using Inl ok by simp
  qed (use ok in simp)
qed

subsection \<open>A sample report\<close>

definition sample_span :: report_span_v2 where
  "sample_span = report_span sample_digest (sanitized (sample_record ''b'' ''turn'')) None"

definition sample_projector :: report_projector where
  "sample_projector = \<lparr>rp_spans = [sample_span], rp_table = None\<rparr>"

lemma sample_span_plain: "plain_span sample_span \<and> sp_metrics sample_span = report_metrics_of (dr_metrics (sample_record ''b'' ''turn''))"
  using no_table_span_plain [of sample_digest 0 "sample_record ''b'' ''turn''" sample_span]
    sample_sanitized [of "''turn''" "''b''"]
  by (simp add: no_table_span sample_span_def)

lemma sample_report: "\<exists>rep. projector_finish sample_projector ''now'' ''title'' = Inr rep"
proof -
  have "summary_ok (map sp_metrics (rp_spans sample_projector))"
    using sample_span_plain
    by (simp add: sample_projector_def summary_ok_def summary_getters_def sample_record_def report_metrics_of_def
      metric_or_zero_def exact_u64_def f64_zero_def)
  then show ?thesis
    using finish_no_table [of sample_projector "''now''" "''title''"] sample_span_plain
    by (simp add: sample_projector_def)
qed

subsection \<open>Properties\<close>

text \<open>Two distinct known repositories of a trace are enough to resolve a span: any selection of
  the known repositories that keeps at least two of them, or all, gives the same span.\<close>

lemma repository_two_suffice:
  assumes "set ms \<subseteq> set ks" and "min 2 (card (set ks - {UNKNOWN})) \<le> card (set ms - {UNKNOWN})"
  shows "resolve_report_repository ms s = resolve_report_repository ks s"
proof -
  have sub: "named ms \<subseteq> named ks" using assms(1) by blast
  show ?thesis
  proof (cases "named ms = named ks")
    case False
    then have "card (named ms) < card (named ks)" using sub by (intro psubset_card_mono) auto
    then have "2 \<le> card (named ms)" "2 \<le> card (named ks)" using assms(2) by simp_all
    moreover have "A \<noteq> {} \<and> \<not> is_singleton A" if "2 \<le> card A" for A :: "string set"
      using that by (auto simp: is_singleton_altdef)
    ultimately show ?thesis unfolding resolve_eq resolve_set_def by auto
  qed (simp add: resolve_eq)
qed

text \<open>Propagating repositories inside traces never changes a known repository, gives an unknown
  span the repository of its trace exactly when the trace has a single one, and is idempotent.\<close>

lemma propagate_exact:
  "propagate_trace_repositories (propagate_trace_repositories spans) = propagate_trace_repositories spans \<and>
   map sp_repo (propagate_trace_repositories spans) =
     map (\<lambda>s. if sp_repo s = UNKNOWN \<and> is_singleton (trace_repositories spans (sp_trace_id s))
        then the_elem (trace_repositories spans (sp_trace_id s)) else sp_repo s) spans"
proof -
  have "UNKNOWN \<notin> trace_repositories spans t" for t by (simp add: trace_repositories_def)
  then have idem: "resolve_set (trace_repositories spans t) (resolve_set (trace_repositories spans t) s) =
      resolve_set (trace_repositories spans t) s" for t s
    by (rule resolve_set_idem)
  have "propagate_trace_repositories (propagate_trace_repositories spans) =
      map (\<lambda>s. resolve_set (trace_repositories spans (sp_trace_id s)) s) (propagate_trace_repositories spans)"
    by (subst propagate_eq) (simp only: propagate_repositories)
  also have "\<dots> = propagate_trace_repositories spans" by (simp add: propagate_eq idem)
  finally show ?thesis by (simp add: propagate_eq resolve_set_repo)
qed

text \<open>C10: the token totals of a finished report are exact: the summary is the sum over the spans,
  every trace total is the sum over the spans of the trace with no wrap-around, and the traces add
  up to the summary.\<close>

theorem report_totals_exact:
  assumes "projector_finish p generated title = Inr rep"
  shows "unat (su_input_tokens (r2_summary rep)) = metric_total rm_input_tokens (r2_spans rep) \<and>
    unat (su_output_tokens (r2_summary rep)) = metric_total rm_output_tokens (r2_spans rep) \<and>
    sum_list (map (unat \<circ> ts_input_tokens) (r2_traces rep)) = unat (su_input_tokens (r2_summary rep)) \<and>
    sum_list (map (unat \<circ> ts_output_tokens) (r2_traces rep)) = unat (su_output_tokens (r2_summary rep)) \<and>
    (\<forall>t \<in> set (r2_traces rep).
      unat (ts_input_tokens t) =
        metric_total rm_input_tokens (filter (\<lambda>s. sp_trace_id s = ts_trace_id t) (r2_spans rep)) \<and>
      unat (ts_output_tokens t) =
        metric_total rm_output_tokens (filter (\<lambda>s. sp_trace_id s = ts_trace_id t) (r2_spans rep)))"
proof -
  have su: "summarize_report (r2_spans rep) = Inr (r2_summary rep)"
    and tr: "r2_traces rep = trace_summaries (r2_spans rep)"
    using assms by (auto simp: finish_iff Let_def)
  note tot = summarize_tokens [OF su]
  note tok = trace_group_tokens [of "r2_spans rep", OF _ tot [THEN conjunct2, THEN conjunct2, THEN conjunct1]
    tot [THEN conjunct2, THEN conjunct2, THEN conjunct2]]
  have i: "sum_list (map (unat \<circ> ts_input_tokens) (trace_summaries (r2_spans rep))) =
      metric_total rm_input_tokens (r2_spans rep)"
    unfolding metric_total_def using tok
    by (intro trace_summaries_total) (simp_all add: metric_total_def)
  have o: "sum_list (map (unat \<circ> ts_output_tokens) (trace_summaries (r2_spans rep))) =
      metric_total rm_output_tokens (r2_spans rep)"
    unfolding metric_total_def using tok
    by (intro trace_summaries_total) (simp_all add: metric_total_def)
  show ?thesis using tot i o tok by (auto simp: tr trace_summaries_set)
qed

theorem report_totals_exact_witness:
  "\<exists>rep. projector_finish sample_projector ''now'' ''title'' = Inr rep \<and>
     unat (su_input_tokens (r2_summary rep)) = metric_total rm_input_tokens (r2_spans rep)"
  using sample_report report_totals_exact [of sample_projector "''now''" "''title''"] by blast

text \<open>Projection of a record never contradicts itself: once the record passes the privacy
  boundary its span is valid, unless the estimated cost overflows, and that is the only error
  reported for a span.\<close>

lemma project_report_span_exact:
  "project_report_span sha i r t = (case sanitize_durable_record sha r of
       Inl e \<Rightarrow> Inl (InvalidRecord i e)
     | Inr q \<Rightarrow> if cost_finite (estimate_span_cost q t) then Inr (report_span sha q t)
         else Inl (InvalidReport NonFiniteNumber))"
proof (cases "sanitize_durable_record sha r")
  case (Inr q)
  then have "validate_durable_record q = Inr ()" by (auto simp: sanitize_eq)
  then show ?thesis
    by (simp add: project_report_span_def Inr map_error_def Let_def report_span_validate
      validate_span_cost [OF estimate_status_word])
qed (simp add: project_report_span_def map_error_def)

text \<open>Without a rate table a report is built exactly when every record passes the privacy
  boundary and every summed metric is an integer whose total fits into 64 bits.\<close>

lemma project_report_accepts:
  "(\<exists>rep. project_report sha rs generated title None = Inr rep) \<longleftrightarrow>
     list_all (\<lambda>r. \<exists>q. sanitize_durable_record sha r = Inr q) rs \<and>
     summary_ok (map (\<lambda>r. report_metrics_of (dr_metrics r)) rs)"
proof -
  let ?proj = "\<lambda>r s. project_report_span sha 0 r None = Inr s"
  have ms: "list_all2 ?proj rs ss \<Longrightarrow> map sp_metrics ss = map (\<lambda>r. report_metrics_of (dr_metrics r)) rs \<and>
      (\<forall>s \<in> set ss. plain_span s)" for ss
    by (induction rule: list_all2_induct) (auto dest: no_table_span_plain)
  have "list_all2 ?proj rs ss \<Longrightarrow>
      (\<exists>rep. projector_finish \<lparr>rp_spans = ss, rp_table = None\<rparr> generated title = Inr rep) \<longleftrightarrow>
      summary_ok (map (\<lambda>r. report_metrics_of (dr_metrics r)) rs)" for ss
    using finish_no_table [of "\<lparr>rp_spans = ss, rp_table = None\<rparr>" generated title] ms [of ss] by simp
  then have "(\<exists>rep. project_report sha rs generated title None = Inr rep) \<longleftrightarrow>
      (\<exists>ss. list_all2 ?proj rs ss) \<and> summary_ok (map (\<lambda>r. report_metrics_of (dr_metrics r)) rs)"
    by (auto simp: project_report_def bind_result_ok projector_new_def push_all_iff)
  moreover have "(\<exists>ss. list_all2 ?proj rs ss) \<longleftrightarrow> (\<forall>r \<in> set rs. \<exists>s. ?proj r s)"
    by (induction rs) (auto simp: list_all2_Cons1)
  ultimately show ?thesis by (auto simp: no_table_span list_all_iff)
qed

text \<open>The spans of a report are the projected spans in the order of start time, trace and span
  identifier, and its traces are sorted by start time and are exactly the traces of the spans.\<close>

lemma report_order:
  assumes "projector_finish p generated title = Inr rep"
  shows "sorted_wrt span_le (r2_spans rep) \<and>
    mset (map sp_span_id (r2_spans rep)) = mset (map sp_span_id (rp_spans p)) \<and>
    sorted_wrt trace_le (r2_traces rep) \<and> distinct (map ts_trace_id (r2_traces rep)) \<and>
    set (map ts_trace_id (r2_traces rep)) = sp_trace_id ` set (rp_spans p)"
proof -
  let ?sorted = "sort_by span_le (rp_spans p)"
  let ?spans = "propagate_trace_repositories ?sorted"
  let ?group = "bt_group sp_trace_id new_trace add_to_trace ?spans"
  have rep: "r2_spans rep = ?spans" "r2_traces rep = trace_summaries ?spans"
    using assms by (auto simp: finish_iff Let_def)
  have le: "span_le (resolve_set R s) (resolve_set R' s') \<longleftrightarrow> span_le s s'" for R R' s s'
    by (simp add: span_le_def)
  have "sorted_wrt span_le ?spans"
    using span_order.sorted_sort_by [of "rp_spans p"]
    by (simp add: propagate_eq sorted_wrt_map le)
  moreover have "mset (map sp_span_id ?spans) = mset (map sp_span_id (rp_spans p))"
    by (simp add: propagate_eq comp_def)
  moreover have ids: "mset (map ts_trace_id (trace_summaries ?spans)) = mset (bt_keys ?group)"
  proof -
    have "map ts_trace_id (bt_values ?group) = bt_keys ?group"
      unfolding bt_values_def bt_keys_def map_map
    proof (intro map_cong refl)
      fix e assume "e \<in> set ?group"
      then have "bt_get ?group (fst e) = Some (snd e)"
        using bt_sorted_group [of sp_trace_id new_trace add_to_trace ?spans]
        by (metis bt_get_def bt_sorted_def map_of_is_SomeI prod.collapse strict_sorted_iff)
      then obtain y ys where "filter (\<lambda>s. sp_trace_id s = fst e) ?spans = y # ys"
        "snd e = fold add_to_trace (y # ys) (new_trace y)"
        by (auto simp: bt_get_group group_of_def split: list.splits)
      then show "(ts_trace_id \<circ> snd) e = fst e"
        by (metis (mono_tags, lifting) comp_apply filter_eq_ConsD fold_add_to_trace(4) new_trace_def
          trace_summary.select_convs(1))
    qed
    then have "mset (map ts_trace_id (bt_values ?group)) = mset (bt_keys ?group)" by simp
    then show ?thesis by (simp add: trace_summaries_def multiset.map_comp comp_def)
  qed
  moreover have "distinct (bt_keys ?group)"
    using bt_sorted_group [of sp_trace_id new_trace add_to_trace ?spans]
    by (simp add: bt_sorted_def bt_keys_def strict_sorted_iff)
  moreover have "set (bt_keys ?group) = sp_trace_id ` set (rp_spans p)"
    by (simp add: bt_keys_group propagate_eq image_image)
  ultimately show ?thesis
    unfolding rep
    using mset_eq_setD [OF ids] mset_eq_imp_distinct_iff [OF ids]
    by (simp add: trace_summaries_def trace_order.sorted_sort_by)
qed

end
