(* ===== verification/Invariant.thy ===== *)
theory Invariant
  imports Prelude
begin

section \<open>Invariants of runs\<close>

text \<open>
  The interface shared by the stateful components: a step function on a state, driven by inputs,
  with an invariant that holds at the start and that every step keeps.  \<open>timed_machine\<close> adds
  inputs that carry a clock that does not run backwards.
\<close>

definition run :: "('s \<Rightarrow> 'i \<Rightarrow> 's) \<Rightarrow> 's \<Rightarrow> 'i list \<Rightarrow> 's" where
  "run step s is = foldl step s is"

lemma run_simps [simp]:
  "run step s [] = s" "run step s (i # is) = run step (step s i) is"
  "run step s (is @ js) = run step (run step s is) js"
  by (simp_all add: run_def)

locale machine =
  fixes step :: "'s \<Rightarrow> 'i \<Rightarrow> 's" and start :: 's and inv :: "'s \<Rightarrow> bool"
  assumes inv_start: "inv start" and inv_step: "inv s \<Longrightarrow> inv (step s i)"
begin

lemma inv_run: "inv s \<Longrightarrow> inv (run step s is)"
  by (induction "is" arbitrary: s) (simp_all add: inv_step)

lemma inv_reachable: "inv (run step start is)"
  by (rule inv_run [OF inv_start])

end

fun clock_ok :: "nat \<Rightarrow> nat list \<Rightarrow> bool" where
  "clock_ok t [] = True"
| "clock_ok t (u # us) = (t \<le> u \<and> clock_ok u us)"

locale timed_machine =
  fixes step :: "'s \<Rightarrow> 'i \<Rightarrow> 's" and start :: 's and time :: "'i \<Rightarrow> nat"
    and inv :: "nat \<Rightarrow> 's \<Rightarrow> bool"
  assumes timed_start: "inv 0 start"
    and timed_step: "inv t s \<Longrightarrow> t \<le> time i \<Longrightarrow> inv (time i) (step s i)"
begin

lemma timed_run:
  "inv t s \<Longrightarrow> clock_ok t (map time is) \<Longrightarrow> inv (last (t # map time is)) (run step s is)"
proof (induction "is" arbitrary: t s)
  case (Cons i "is")
  then have "inv (time i) (step s i)" "clock_ok (time i) (map time is)" by (simp_all add: timed_step)
  from Cons.IH [OF this] show ?case by (simp split: if_splits)
qed simp

lemma timed_reachable: "clock_ok 0 (map time is) \<Longrightarrow> inv (last (0 # map time is)) (run step start is)"
  by (rule timed_run [OF timed_start])

end

end
