(* ===== verification/Scheduler.thy ===== *)
theory Scheduler
  imports Invariant
begin

section \<open>The adaptive scheduler\<close>

text \<open>
  \<^verbatim>\<open>crates/local-runtime/src/scheduler.rs\<close>: the pressure state machine of the collector.  A call of
  \<^verbatim>\<open>evaluate\<close> gets the clock, a pressure sample and the base interval, updates the state and returns
  the schedule.  The methods that write through \<^verbatim>\<open>&mut self\<close> return the updated scheduler.
\<close>

subsection \<open>State\<close>

definition PRESSURE_WINDOW_MS :: u64 where
  "PRESSURE_WINDOW_MS = 10000"

definition SUSTAINED_PRESSURE_MS :: u64 where
  "SUSTAINED_PRESSURE_MS = 60000"

definition INITIAL_PROBE_BACKOFF_MS :: u64 where
  "INITIAL_PROBE_BACKOFF_MS = 5000"

definition MAX_PROBE_BACKOFF_MS :: u64 where
  "MAX_PROBE_BACKOFF_MS = 60000"

lemmas scheduler_constants = PRESSURE_WINDOW_MS_def SUSTAINED_PRESSURE_MS_def
  INITIAL_PROBE_BACKOFF_MS_def MAX_PROBE_BACKOFF_MS_def

datatype state = Normal | Pressured | Protected | Probe

record pressure_sample =
  resource_percent :: u8
  disk_percent :: u8
  queue_percent :: u8

record schedule =
  sl_state :: state
  sl_reconcile_interval_ms :: u32
  sl_flush_paused :: bool
  sl_report_refresh_allowed :: bool
  sl_fairness_slot :: u64
  sl_next_probe_at_ms :: u64

record scheduler =
  sd_state :: state
  sd_pressure_windows :: u8
  sd_recovery_windows :: u8
  sd_pressured_since :: "u64 option"
  sd_last_window_at_ms :: "u64 option"
  sd_next_probe_at_ms :: u64
  sd_probe_backoff_ms :: u64
  sd_fairness_slot :: u64

definition scheduler_new :: scheduler where
  "scheduler_new = \<lparr>sd_state = Normal, sd_pressure_windows = 0, sd_recovery_windows = 0,
     sd_pressured_since = None, sd_last_window_at_ms = None, sd_next_probe_at_ms = 0,
     sd_probe_backoff_ms = INITIAL_PROBE_BACKOFF_MS, sd_fairness_slot = 0\<rparr>"

subsection \<open>Operations\<close>

definition window_due :: "u64 \<Rightarrow> scheduler \<Rightarrow> scheduler \<times> bool" where
  "window_due now s =
     (if (case sd_last_window_at_ms s of None \<Rightarrow> True
          | Some last_at \<Rightarrow> saturating_sub now last_at \<ge> PRESSURE_WINDOW_MS)
      then (s\<lparr>sd_last_window_at_ms := Some now\<rparr>, True)
      else (s, False))"

definition enter_protected :: "u64 \<Rightarrow> scheduler \<Rightarrow> scheduler" where
  "enter_protected now s = s\<lparr>sd_state := Protected, sd_recovery_windows := 0,
     sd_last_window_at_ms := None, sd_probe_backoff_ms := INITIAL_PROBE_BACKOFF_MS,
     sd_next_probe_at_ms := saturating_add now INITIAL_PROBE_BACKOFF_MS\<rparr>"

definition reset_pressure_tracking :: "scheduler \<Rightarrow> scheduler" where
  "reset_pressure_tracking s = s\<lparr>sd_pressure_windows := 0, sd_recovery_windows := 0,
     sd_pressured_since := None, sd_last_window_at_ms := None, sd_next_probe_at_ms := 0,
     sd_probe_backoff_ms := INITIAL_PROBE_BACKOFF_MS\<rparr>"

definition over_budget :: "pressure_sample \<Rightarrow> bool" where
  "over_budget p \<longleftrightarrow> resource_percent p > 100"

definition critical :: "pressure_sample \<Rightarrow> bool" where
  "critical p \<longleftrightarrow> disk_percent p \<ge> 90 \<or> queue_percent p \<ge> 90"

definition recovering :: "pressure_sample \<Rightarrow> bool" where
  "recovering p \<longleftrightarrow> resource_percent p < 70 \<and> disk_percent p < 70 \<and> queue_percent p < 70"

definition eval_normal :: "u64 \<Rightarrow> pressure_sample \<Rightarrow> scheduler \<Rightarrow> scheduler" where
  "eval_normal now p s =
     (if critical p then enter_protected now s
      else case window_due now s of
        (s, False) \<Rightarrow> s
      | (s, True) \<Rightarrow>
          let s = s\<lparr>sd_pressure_windows :=
                if over_budget p then saturating_add (sd_pressure_windows s) 1 else 0\<rparr>
          in if sd_pressure_windows s \<ge> 2
             then s\<lparr>sd_state := Pressured, sd_pressured_since := Some now, sd_recovery_windows := 0\<rparr>
             else s)"

definition eval_pressured :: "u64 \<Rightarrow> pressure_sample \<Rightarrow> scheduler \<Rightarrow> scheduler" where
  "eval_pressured now p s =
     (if critical p \<or> (over_budget p \<and> (case sd_pressured_since s of None \<Rightarrow> False
          | Some at \<Rightarrow> saturating_sub now at \<ge> SUSTAINED_PRESSURE_MS))
      then enter_protected now s
      else case window_due now s of
        (s, False) \<Rightarrow> s
      | (s, True) \<Rightarrow>
          let s = s\<lparr>sd_recovery_windows :=
                if recovering p then saturating_add (sd_recovery_windows s) 1 else 0\<rparr>
          in if sd_recovery_windows s \<ge> 3
             then reset_pressure_tracking (s\<lparr>sd_state := Normal\<rparr>)
             else s)"

definition eval_protected :: "u64 \<Rightarrow> pressure_sample \<Rightarrow> scheduler \<Rightarrow> scheduler" where
  "eval_protected now p s =
     (if now \<ge> sd_next_probe_at_ms s \<and> recovering p
      then s\<lparr>sd_state := Probe, sd_recovery_windows := 0, sd_last_window_at_ms := None,
        sd_next_probe_at_ms := saturating_add now INITIAL_PROBE_BACKOFF_MS\<rparr>
      else s)"

definition eval_probe :: "u64 \<Rightarrow> pressure_sample \<Rightarrow> scheduler \<Rightarrow> scheduler" where
  "eval_probe now p s =
     (if now \<ge> sd_next_probe_at_ms s
      then if recovering p
        then
          let (s, due) = window_due now s;
              s = (if due then s\<lparr>sd_recovery_windows := saturating_add (sd_recovery_windows s) 1\<rparr> else s);
              s = s\<lparr>sd_probe_backoff_ms := INITIAL_PROBE_BACKOFF_MS,
                sd_next_probe_at_ms := saturating_add now INITIAL_PROBE_BACKOFF_MS\<rparr>
          in if sd_recovery_windows s \<ge> 3
             then s\<lparr>sd_state := Pressured, sd_pressured_since := Some now, sd_recovery_windows := 0,
               sd_last_window_at_ms := None\<rparr>
             else s
        else
          let backoff = min (saturating_mul (sd_probe_backoff_ms s) 2) MAX_PROBE_BACKOFF_MS
          in s\<lparr>sd_state := Protected, sd_recovery_windows := 0, sd_last_window_at_ms := None,
               sd_probe_backoff_ms := backoff, sd_next_probe_at_ms := saturating_add now backoff\<rparr>
      else s)"

definition advance :: "u64 \<Rightarrow> pressure_sample \<Rightarrow> scheduler \<Rightarrow> scheduler" where
  "advance now p s = (case sd_state s of
       Normal \<Rightarrow> eval_normal now p s
     | Pressured \<Rightarrow> eval_pressured now p s
     | Protected \<Rightarrow> eval_protected now p s
     | Probe \<Rightarrow> eval_probe now p s)"

definition schedule_of :: "u32 \<Rightarrow> scheduler \<Rightarrow> schedule" where
  "schedule_of base s = \<lparr>
     sl_state = sd_state s,
     sl_reconcile_interval_ms =
       min (saturating_mul base (if sd_state s = Pressured then 2 else 1)) 60000,
     sl_flush_paused = (sd_state s = Protected),
     sl_report_refresh_allowed = (sd_state s = Normal \<or> sd_state s = Probe),
     sl_fairness_slot = sd_fairness_slot s,
     sl_next_probe_at_ms = sd_next_probe_at_ms s\<rparr>"

definition evaluate :: "u64 \<Rightarrow> pressure_sample \<Rightarrow> u32 \<Rightarrow> scheduler \<Rightarrow> scheduler \<times> schedule" where
  "evaluate now p base s =
     (let s = advance now p s
      in (s\<lparr>sd_fairness_slot := sd_fairness_slot s + 1\<rparr>, schedule_of base s))"

subsection \<open>The state machine\<close>

text \<open>What a call may do to the state, with the readings that allow it.\<close>

inductive transition :: "pressure_sample \<Rightarrow> state \<Rightarrow> state \<Rightarrow> bool" where
  stay: "transition p q q"
| pressed: "over_budget p \<Longrightarrow> \<not> critical p \<Longrightarrow> transition p Normal Pressured"
| protect: "critical p \<Longrightarrow> q \<in> {Normal, Pressured} \<Longrightarrow> transition p q Protected"
| sustained: "over_budget p \<Longrightarrow> transition p Pressured Protected"
| relieved: "recovering p \<Longrightarrow> transition p Pressured Normal"
| probe: "recovering p \<Longrightarrow> transition p Protected Probe"
| probed: "recovering p \<Longrightarrow> transition p Probe Pressured"
| failed: "\<not> recovering p \<Longrightarrow> transition p Probe Protected"

inductive_simps transition_from:
  "transition p Normal q" "transition p Pressured q" "transition p Protected q" "transition p Probe q"

lemma recovering_not_pressed: "recovering p \<Longrightarrow> \<not> over_budget p \<and> \<not> critical p"
  by (auto simp: recovering_def over_budget_def critical_def word_less_nat_alt word_le_nat_alt)

lemmas sched_arith = machine_simps word_le_nat_alt word_less_nat_alt scheduler_constants

lemma window_due_cases:
  obtains (due) "window_due now s = (s\<lparr>sd_last_window_at_ms := Some now\<rparr>, True)"
      "\<forall>w. sd_last_window_at_ms s = Some w \<longrightarrow> unat w + 10000 \<le> unat now"
    | (early) w where "window_due now s = (s, False)" "sd_last_window_at_ms s = Some w"
      "unat now < unat w + 10000"
proof (cases "sd_last_window_at_ms s")
  case None
  then show ?thesis using due by (simp add: window_due_def)
next
  case (Some w)
  show ?thesis
  proof (cases "unat w + 10000 \<le> unat now")
    case True
    then show ?thesis using due Some by (simp add: window_due_def sched_arith)
  next
    case False
    then show ?thesis using early [OF _ Some] Some by (simp add: window_due_def sched_arith)
  qed
qed

lemma advance_transition: "transition p (sd_state s) (sd_state (advance now p s))"
proof (cases "sd_state s")
  case Normal
  then show ?thesis
    by (cases rule: window_due_cases [of now s])
      (auto simp: advance_def eval_normal_def enter_protected_def transition_from Let_def)
next
  case Pressured
  then show ?thesis
    by (cases rule: window_due_cases [of now s])
      (auto simp: advance_def eval_pressured_def enter_protected_def reset_pressure_tracking_def
        transition_from Let_def split: option.splits)
next
  case Protected
  then show ?thesis by (simp add: advance_def eval_protected_def transition_from)
next
  case Probe
  then show ?thesis
    by (cases rule: window_due_cases [of now s])
      (auto simp: advance_def eval_probe_def transition_from Let_def)
qed

subsection \<open>The invariant\<close>

text \<open>
  The clock bounds every stored time, the back-off stays in its range, the counters of windows
  stay below their thresholds, and while the machine is pressured the counted recovery windows
  are ten seconds apart and after the time the pressure was noticed.
\<close>

definition recovery_spaced :: "scheduler \<Rightarrow> bool" where
  "recovery_spaced s \<longleftrightarrow> (\<exists>t0. sd_pressured_since s = Some t0 \<and>
     (sd_recovery_windows s = 0 \<or> (\<exists>w. sd_last_window_at_ms s = Some w \<and>
        unat t0 + 10000 * (unat (sd_recovery_windows s) - 1) \<le> unat w)))"

definition sched_inv :: "nat \<Rightarrow> scheduler \<Rightarrow> bool" where
  "sched_inv t s \<longleftrightarrow>
     5000 \<le> unat (sd_probe_backoff_ms s) \<and> unat (sd_probe_backoff_ms s) \<le> 60000 \<and>
     unat (sd_next_probe_at_ms s) \<le> t + 60000 \<and>
     unat (sd_recovery_windows s) \<le> 2 \<and> (sd_state s = Normal \<longrightarrow> unat (sd_pressure_windows s) \<le> 1) \<and>
     (\<forall>w. sd_last_window_at_ms s = Some w \<longrightarrow> unat w \<le> t) \<and>
     (\<forall>t0. sd_pressured_since s = Some t0 \<longrightarrow> unat t0 \<le> t) \<and>
     (sd_state s = Pressured \<longrightarrow> recovery_spaced s)"

lemma sched_inv_new: "sched_inv 0 scheduler_new"
  by (simp add: sched_inv_def scheduler_new_def scheduler_constants)

lemma sched_inv_mono: "sched_inv t s \<Longrightarrow> t \<le> u \<Longrightarrow> sched_inv u s"
  by (fastforce simp: sched_inv_def)

lemma sched_inv_protected: "sched_inv (unat now) s \<Longrightarrow> sched_inv (unat now) (enter_protected now s)"
  by (simp add: sched_inv_def enter_protected_def sched_arith)

lemma sched_inv_normal:
  assumes "sched_inv (unat now) s" and "sd_state s = Normal"
  shows "sched_inv (unat now) (eval_normal now p s)"
proof (cases "critical p")
  case False
  show ?thesis
    using assms False
    by (cases rule: window_due_cases [of now s])
      (auto simp: eval_normal_def sched_inv_def recovery_spaced_def Let_def sched_arith)
qed (use assms sched_inv_protected in \<open>simp add: eval_normal_def\<close>)

lemma eval_pressured_cases:
  obtains (protect) "eval_pressured now p s = enter_protected now s"
    | (early) "eval_pressured now p s = s"
    | (window) "eval_pressured now p s = s\<lparr>sd_last_window_at_ms := Some now, sd_recovery_windows :=
          if recovering p then saturating_add (sd_recovery_windows s) 1 else 0\<rparr>"
        "recovering p \<Longrightarrow> unat (sd_recovery_windows s) < 2"
        "\<forall>w. sd_last_window_at_ms s = Some w \<longrightarrow> unat w + 10000 \<le> unat now"
    | (relieved) "eval_pressured now p s = reset_pressure_tracking (s\<lparr>sd_last_window_at_ms := Some now,
          sd_recovery_windows := saturating_add (sd_recovery_windows s) 1, sd_state := Normal\<rparr>)"
        "recovering p" "2 \<le> unat (sd_recovery_windows s)"
        "\<forall>w. sd_last_window_at_ms s = Some w \<longrightarrow> unat w + 10000 \<le> unat now"
proof (cases "eval_pressured now p s = enter_protected now s")
  case False
  show ?thesis
  proof (cases rule: window_due_cases [of now s])
    case (early w)
    then show ?thesis using False that(2) by (auto simp: eval_pressured_def split: if_splits)
  next
    case due
    let ?rw = "if recovering p then saturating_add (sd_recovery_windows s) 1 else 0"
    have eq: "eval_pressured now p s =
        (let q = s\<lparr>sd_last_window_at_ms := Some now, sd_recovery_windows := ?rw\<rparr>
         in if ?rw \<ge> 3 then reset_pressure_tracking (q\<lparr>sd_state := Normal\<rparr>) else q)"
      using False due(1) by (auto simp: eval_pressured_def Let_def split: if_splits)
    have rw: "?rw \<ge> 3 \<longleftrightarrow> recovering p \<and> 2 \<le> unat (sd_recovery_windows s)"
      by (auto simp: sched_arith)
    show ?thesis
    proof (cases "?rw \<ge> 3")
      case True
      then have r: "recovering p" "2 \<le> unat (sd_recovery_windows s)" using rw by blast+
      have "eval_pressured now p s = reset_pressure_tracking (s\<lparr>sd_last_window_at_ms := Some now,
          sd_recovery_windows := saturating_add (sd_recovery_windows s) 1, sd_state := Normal\<rparr>)"
        using True r(1) unfolding eq Let_def by simp
      then show ?thesis using relieved r due(2) by blast
    next
      case not_yet: False
      then have "eval_pressured now p s = s\<lparr>sd_last_window_at_ms := Some now, sd_recovery_windows := ?rw\<rparr>"
        unfolding eq Let_def by simp
      moreover have "recovering p \<Longrightarrow> unat (sd_recovery_windows s) < 2"
        using not_yet rw by (metis not_less)
      ultimately show ?thesis using window due(2) by blast
    qed
  qed
qed

lemma sched_inv_pressured:
  assumes "sched_inv (unat now) s" and "sd_state s = Pressured"
  shows "sched_inv (unat now) (eval_pressured now p s)"
proof (cases rule: eval_pressured_cases [of now p s])
  case protect
  then show ?thesis using assms(1) by (simp add: sched_inv_protected)
next
  case early
  then show ?thesis using assms(1) by simp
next
  case window
  obtain t0 where t0: "sd_pressured_since s = Some t0" "unat t0 \<le> unat now"
    using assms by (auto simp: sched_inv_def recovery_spaced_def)
  have "unat t0 + 10000 * unat (sd_recovery_windows s) \<le> unat now"
  proof (cases "sd_recovery_windows s = 0")
    case False
    then obtain w where w: "sd_last_window_at_ms s = Some w"
      "unat t0 + 10000 * (unat (sd_recovery_windows s) - 1) \<le> unat w"
      using assms t0(1) by (auto simp: sched_inv_def recovery_spaced_def)
    have "unat w + 10000 \<le> unat now" using window(3) w(1) by blast
    moreover have "0 < unat (sd_recovery_windows s)" using False by (simp add: unat_gt_0)
    ultimately show ?thesis using w(2) by (simp add: diff_mult_distrib2)
  qed (use t0 in simp)
  then show ?thesis
    using assms window(2) t0
    by (auto simp: window(1) sched_inv_def recovery_spaced_def sched_arith)
next
  case relieved
  then show ?thesis
    using assms(1) by (simp add: sched_inv_def reset_pressure_tracking_def scheduler_constants)
qed

lemma sched_inv_protected_state:
  assumes "sched_inv (unat now) s" and "sd_state s = Protected"
  shows "sched_inv (unat now) (eval_protected now p s)"
  using assms by (auto simp: sched_inv_def eval_protected_def sched_arith)

lemma eval_probe_cases:
  obtains (waiting) "eval_probe now p s = s" "now < sd_next_probe_at_ms s"
    | (failed) b where "eval_probe now p s = s\<lparr>sd_state := Protected, sd_recovery_windows := 0,
          sd_last_window_at_ms := None, sd_probe_backoff_ms := b, sd_next_probe_at_ms := saturating_add now b\<rparr>"
        "unat b = min (2 * unat (sd_probe_backoff_ms s)) 60000" "\<not> recovering p"
    | (counted) last_at rw where "eval_probe now p s = s\<lparr>sd_last_window_at_ms := last_at, sd_recovery_windows := rw,
          sd_probe_backoff_ms := 5000, sd_next_probe_at_ms := saturating_add now 5000\<rparr>"
        "recovering p" "unat rw < 3" "last_at = Some now \<or> last_at = sd_last_window_at_ms s"
        "unat rw = (if \<forall>w. sd_last_window_at_ms s = Some w \<longrightarrow> unat w + 10000 \<le> unat now
           then unat (sd_recovery_windows s) + 1 else unat (sd_recovery_windows s))"
    | (passed) "eval_probe now p s = s\<lparr>sd_state := Pressured, sd_pressured_since := Some now,
          sd_recovery_windows := 0, sd_last_window_at_ms := None,
          sd_probe_backoff_ms := 5000, sd_next_probe_at_ms := saturating_add now 5000\<rparr>" "recovering p"
proof (cases "now < sd_next_probe_at_ms s")
  case True
  then show ?thesis using waiting by (simp add: eval_probe_def)
next
  case ready: False
  show ?thesis
  proof (cases "recovering p")
    case False
    let ?b = "min (saturating_mul (sd_probe_backoff_ms s) 2) MAX_PROBE_BACKOFF_MS"
    have "unat ?b = min (2 * unat (sd_probe_backoff_ms s)) 60000"
      by (simp add: min_def sched_arith mult.commute)
    then show ?thesis using failed [of ?b] False ready by (simp add: eval_probe_def Let_def not_less)
  next
    case True
    define q where "q = (case window_due now s of (s, due) \<Rightarrow>
        if due then s\<lparr>sd_recovery_windows := saturating_add (sd_recovery_windows s) 1\<rparr> else s)"
    define r where "r = q\<lparr>sd_probe_backoff_ms := INITIAL_PROBE_BACKOFF_MS,
        sd_next_probe_at_ms := saturating_add now INITIAL_PROBE_BACKOFF_MS\<rparr>"
    have eq: "eval_probe now p s = (if sd_recovery_windows r \<ge> 3
        then r\<lparr>sd_state := Pressured, sd_pressured_since := Some now, sd_recovery_windows := 0,
          sd_last_window_at_ms := None\<rparr> else r)"
      using True ready by (simp add: eval_probe_def q_def r_def Let_def not_less split: prod.splits)
    have q: "\<exists>last_at rw. q = s\<lparr>sd_last_window_at_ms := last_at, sd_recovery_windows := rw\<rparr> \<and>
        (last_at = Some now \<or> last_at = sd_last_window_at_ms s) \<and>
        (unat rw < 3 \<longrightarrow> unat rw = (if \<forall>w. sd_last_window_at_ms s = Some w \<longrightarrow> unat w + 10000 \<le> unat now
           then unat (sd_recovery_windows s) + 1 else unat (sd_recovery_windows s)))"
    proof (cases rule: window_due_cases [of now s])
      case due
      then show ?thesis
        by (auto simp: q_def sched_arith intro!: exI [of _ "Some now"]
          exI [of _ "saturating_add (sd_recovery_windows s) 1"])
    next
      case (early w)
      then show ?thesis
        by (auto simp: q_def intro!: exI [of _ "sd_last_window_at_ms s"] exI [of _ "sd_recovery_windows s"])
    qed
    then obtain last_at rw where lw: "q = s\<lparr>sd_last_window_at_ms := last_at, sd_recovery_windows := rw\<rparr>"
        "last_at = Some now \<or> last_at = sd_last_window_at_ms s"
        "unat rw < 3 \<longrightarrow> unat rw = (if \<forall>w. sd_last_window_at_ms s = Some w \<longrightarrow> unat w + 10000 \<le> unat now
           then unat (sd_recovery_windows s) + 1 else unat (sd_recovery_windows s))" by blast
    show ?thesis
    proof (cases "unat rw < 3")
      case small: True
      then have "eval_probe now p s = s\<lparr>sd_last_window_at_ms := last_at, sd_recovery_windows := rw,
          sd_probe_backoff_ms := 5000, sd_next_probe_at_ms := saturating_add now 5000\<rparr>"
        unfolding eq r_def lw(1) by (simp add: word_le_nat_alt scheduler_constants)
      then show ?thesis using counted True small lw by blast
    next
      case False
      then have "eval_probe now p s = s\<lparr>sd_state := Pressured, sd_pressured_since := Some now,
          sd_recovery_windows := 0, sd_last_window_at_ms := None,
          sd_probe_backoff_ms := 5000, sd_next_probe_at_ms := saturating_add now 5000\<rparr>"
        unfolding eq r_def lw(1) by (simp add: word_le_nat_alt scheduler_constants)
      then show ?thesis using passed True by blast
    qed
  qed
qed

lemma sched_inv_probe:
  assumes "sched_inv (unat now) s" and "sd_state s = Probe"
  shows "sched_inv (unat now) (eval_probe now p s)"
proof (cases rule: eval_probe_cases [of now p s])
  case waiting
  then show ?thesis using assms(1) by simp
next
  case (failed b)
  then show ?thesis using assms by (auto simp: sched_inv_def machine_simps)
next
  case (counted last_at rw)
  then show ?thesis using assms by (auto simp: sched_inv_def machine_simps)
next
  case passed
  then show ?thesis using assms by (auto simp: sched_inv_def recovery_spaced_def machine_simps)
qed

lemma sched_inv_advance: "sched_inv t s \<Longrightarrow> t \<le> unat now \<Longrightarrow> sched_inv (unat now) (advance now p s)"
  using sched_inv_normal sched_inv_pressured sched_inv_protected_state sched_inv_probe
  by (cases "sd_state s") (auto simp: advance_def dest: sched_inv_mono)

type_synonym tick = "u64 \<times> pressure_sample \<times> u32"

definition tick_step :: "scheduler \<Rightarrow> tick \<Rightarrow> scheduler" where
  "tick_step s = (\<lambda>(now, p, base). fst (evaluate now p base s))"

lemma tick_step_advance:
  "tick_step s (now, p, base) =
     advance now p s\<lparr>sd_fairness_slot := sd_fairness_slot (advance now p s) + 1\<rparr>"
  by (simp add: tick_step_def evaluate_def Let_def)

interpretation sched: timed_machine tick_step scheduler_new "\<lambda>i. unat (fst i)" sched_inv
proof
  show "sched_inv (unat (fst i)) (tick_step s i)" if "sched_inv t s" "t \<le> unat (fst i)" for t s i
    using sched_inv_advance [OF that(1), of "fst i" "fst (snd i)"] that(2)
    by (cases i) (simp add: tick_step_advance sched_inv_def recovery_spaced_def)
qed (rule sched_inv_new)

subsection \<open>Progress\<close>

definition rank :: "scheduler \<Rightarrow> nat" where
  "rank s = (case sd_state s of
       Normal \<Rightarrow> 0
     | Pressured \<Rightarrow> 3 - unat (sd_recovery_windows s)
     | Probe \<Rightarrow> 6 - unat (sd_recovery_windows s)
     | Protected \<Rightarrow> 7)"

lemma rank_le: "rank s \<le> 7"
  by (auto simp: rank_def split: state.splits)

definition due :: "u64 \<Rightarrow> scheduler \<Rightarrow> bool" where
  "due now s \<longleftrightarrow> sd_next_probe_at_ms s \<le> now \<and>
     (\<forall>w. sd_last_window_at_ms s = Some w \<longrightarrow> unat w + 10000 \<le> unat now)"

lemma due_later: "sched_inv t s \<Longrightarrow> t + 60000 \<le> unat now \<Longrightarrow> due now s"
  by (fastforce simp: sched_inv_def due_def word_le_nat_alt)

lemma rank_pressured:
  assumes "sched_inv t s" and "recovering p" and "due now s" and "sd_state s = Pressured"
  shows "rank (eval_pressured now p s) < rank s"
proof -
  have rw: "unat (sd_recovery_windows s) \<le> 2" using assms(1) by (simp add: sched_inv_def)
  show ?thesis
  proof (cases rule: window_due_cases [of now s])
    case due
    have "eval_pressured now p s =
        (let q = s\<lparr>sd_last_window_at_ms := Some now, sd_recovery_windows := saturating_add (sd_recovery_windows s) 1\<rparr>
         in if sd_recovery_windows q \<ge> 3 then reset_pressure_tracking (q\<lparr>sd_state := Normal\<rparr>) else q)"
      using recovering_not_pressed [OF assms(2)] assms(2) due(1) by (simp add: eval_pressured_def Let_def)
    then show ?thesis
      using rw assms(4) by (auto simp: rank_def reset_pressure_tracking_def Let_def sched_arith)
  next
    case (early w)
    then show ?thesis using assms(3) by (auto simp: due_def)
  qed
qed

lemma rank_probe:
  assumes "sched_inv t s" and "recovering p" and "due now s" and "sd_state s = Probe"
  shows "rank (eval_probe now p s) < rank s"
proof -
  have rw: "unat (sd_recovery_windows s) \<le> 2" using assms(1) by (simp add: sched_inv_def)
  show ?thesis
    using rw assms(2-4)
    by (cases rule: eval_probe_cases [of now p s]) (auto simp: rank_def due_def split: if_splits)
qed

lemma rank_decreases:
  assumes "sched_inv t s" and "recovering p" and "due now s"
  shows "rank (advance now p s) < rank s \<or> (rank s = 0 \<and> rank (advance now p s) = 0)"
proof (cases "sd_state s")
  case Normal
  then show ?thesis
    using recovering_not_pressed [OF assms(2)]
    by (cases rule: window_due_cases [of now s])
      (auto simp: advance_def eval_normal_def rank_def Let_def sched_arith)
next
  case Pressured
  then show ?thesis using rank_pressured [OF assms Pressured] by (simp add: advance_def)
next
  case Protected
  then show ?thesis using assms(2,3) by (simp add: advance_def eval_protected_def rank_def due_def)
next
  case Probe
  then show ?thesis using rank_probe [OF assms Probe] by (simp add: advance_def)
qed

fun spaced :: "nat \<Rightarrow> tick list \<Rightarrow> bool" where
  "spaced t [] = True"
| "spaced t ((now, p, base) # js) =
     (t + 60000 \<le> unat now \<and> recovering p \<and> spaced (unat now) js)"

lemma run_rank: "sched_inv t s \<Longrightarrow> spaced t js \<Longrightarrow> rank (run tick_step s js) \<le> rank s - length js"
proof (induction js arbitrary: t s)
  case (Cons j js)
  obtain now p base where j: "j = (now, p, base)" by (cases j)
  have d: "due now s" using due_later [OF Cons.prems(1), of now] Cons.prems(2) by (simp add: j)
  have "rank (tick_step s j) = rank (advance now p s)"
    by (cases "sd_state (advance now p s)") (simp_all add: j tick_step_advance rank_def)
  then have "rank (tick_step s j) \<le> rank s - 1"
    using rank_decreases [OF Cons.prems(1) _ d, of p] Cons.prems(2) by (auto simp: j)
  moreover have "sched_inv (unat now) (tick_step s j)"
    using sched.timed_step [OF Cons.prems(1), of j] Cons.prems(2) by (simp add: j)
  ultimately show ?case using Cons.IH [of "unat now" "tick_step s j"] Cons.prems(2) by (simp add: j)
qed simp

lemma tick_step_state: "transition p (sd_state s) (sd_state (tick_step s (now, p, base)))"
  using advance_transition [of p s now] by (simp add: tick_step_advance)

abbreviation state_after :: "scheduler \<Rightarrow> tick list \<Rightarrow> nat \<Rightarrow> state" where
  "state_after s ts k \<equiv> sd_state (run tick_step s (take k ts))"

lemma state_after_step:
  "k < length ts \<Longrightarrow> transition (fst (snd (ts ! k))) (state_after s ts k) (state_after s ts (Suc k))"
  using tick_step_state [of "fst (snd (ts ! k))" "run tick_step s (take k ts)" "fst (ts ! k)" "snd (snd (ts ! k))"]
  by (simp add: take_Suc_conv_app_nth)

lemma guarded_until_pressured:
  assumes "sd_state s = Protected" and "k \<le> length ts" and "\<forall>m \<le> k. state_after s ts m \<noteq> Pressured"
  shows "state_after s ts k \<in> {Protected, Probe}"
  using assms(2,3)
proof (induction k)
  case (Suc k)
  then have "state_after s ts k \<in> {Protected, Probe}" by simp
  moreover have "state_after s ts (Suc k) \<noteq> Pressured" using Suc.prems(2) by blast
  ultimately show ?case
    using state_after_step [of k ts s] Suc.prems(1) by (auto simp: transition_from)
qed (simp add: assms(1))

lemma run_recovers:
  assumes "sched_inv t s" and "spaced t js" and "7 \<le> length js"
  shows "sd_state (run tick_step s js) = Normal"
proof -
  have "rank (run tick_step s js) = 0"
    using run_rank [OF assms(1,2)] rank_le [of s] assms(3) by simp
  moreover have "unat (sd_recovery_windows (run tick_step s js)) \<le> 2"
  proof -
    have "sched_inv t s \<Longrightarrow> spaced t js \<Longrightarrow> \<exists>u. sched_inv u (run tick_step s js)" for t s js
    proof (induction js arbitrary: t s)
      case (Cons j js)
      then show ?case
        using sched.timed_step [OF Cons.prems(1), of j] by (cases j) fastforce
    qed auto
    then show ?thesis
      using assms(1,2) by (fastforce simp: sched_inv_def)
  qed
  ultimately show ?thesis by (simp add: rank_def split: state.splits)
qed

lemmas sched_eval = tick_step_def evaluate_def advance_def eval_normal_def eval_pressured_def
  eval_protected_def eval_probe_def window_due_def enter_protected_def reset_pressure_tracking_def
  scheduler_new_def over_budget_def critical_def recovering_def scheduler_constants
  saturating_add_def saturating_sub_def saturating_mul_def Let_def

subsection \<open>Sample runs\<close>

definition calm :: pressure_sample where
  "calm = \<lparr>resource_percent = 10, disk_percent = 10, queue_percent = 10\<rparr>"

definition busy :: pressure_sample where
  "busy = \<lparr>resource_percent = 120, disk_percent = 10, queue_percent = 10\<rparr>"

definition full_disk :: pressure_sample where
  "full_disk = \<lparr>resource_percent = 10, disk_percent = 95, queue_percent = 10\<rparr>"

definition minutes :: "nat list \<Rightarrow> pressure_sample \<Rightarrow> tick list" where
  "minutes ms p = map (\<lambda>m. (word_of_nat (60000 * m), p, 5000)) ms"

definition protected_sample :: scheduler where
  "protected_sample = \<lparr>sd_state = Protected, sd_pressure_windows = 0, sd_recovery_windows = 0,
     sd_pressured_since = None, sd_last_window_at_ms = None, sd_next_probe_at_ms = 65000,
     sd_probe_backoff_ms = 5000, sd_fairness_slot = 1\<rparr>"

definition pressured_sample :: scheduler where
  "pressured_sample = \<lparr>sd_state = Pressured, sd_pressure_windows = 2, sd_recovery_windows = 2,
     sd_pressured_since = Some 120000, sd_last_window_at_ms = Some 240000, sd_next_probe_at_ms = 0,
     sd_probe_backoff_ms = 5000, sd_fairness_slot = 4\<rparr>"

lemma protected_sample_reached: "run tick_step scheduler_new (minutes [1] full_disk) = protected_sample"
  by (simp add: minutes_def full_disk_def protected_sample_def sched_eval)

lemma pressured_sample_reached:
  "run tick_step scheduler_new (minutes [1, 2] busy @ minutes [3, 4] calm) = pressured_sample"
proof -
  have 2: "run tick_step scheduler_new (minutes [1, 2] busy) = pressured_sample\<lparr>sd_recovery_windows := 0,
      sd_last_window_at_ms := Some 120000, sd_fairness_slot := 2\<rparr>"
    by (simp add: minutes_def busy_def pressured_sample_def sched_eval word_le_nat_alt)
  have 3: "run tick_step (pressured_sample\<lparr>sd_recovery_windows := 0,
      sd_last_window_at_ms := Some 120000, sd_fairness_slot := 2\<rparr>) (minutes [3, 4] calm) = pressured_sample"
    by (simp add: minutes_def calm_def pressured_sample_def sched_eval word_le_nat_alt)
  show ?thesis by (simp only: run_simps 2 3)
qed

subsection \<open>Properties\<close>

text \<open>C11: a protected scheduler never returns to normal on its own: on the way it is probed and then
  still treated as pressured.\<close>

theorem protected_recovers_through_probe:
  assumes "sd_state s = Protected" and "sd_state (run tick_step s ts) = Normal"
  shows "\<exists>k < length ts. state_after s ts k = Probe \<and> state_after s ts (Suc k) = Pressured \<and>
    recovering (fst (snd (ts ! k)))"
proof -
  have "state_after s ts (length ts) \<notin> {Protected, Probe}" using assms(2) by simp
  then have "\<exists>m \<le> length ts. state_after s ts m = Pressured"
    using guarded_until_pressured [OF assms(1) order_refl, of ts] by blast
  then obtain i where i: "i \<le> length ts" "state_after s ts i = Pressured" by blast
  define m where "m = (LEAST m. state_after s ts m = Pressured)"
  have m: "m \<le> length ts" "state_after s ts m = Pressured" "\<forall>j < m. state_after s ts j \<noteq> Pressured"
    using Least_le [of "\<lambda>m. state_after s ts m = Pressured", OF i(2)] i(1)
      LeastI [of "\<lambda>m. state_after s ts m = Pressured", OF i(2)] not_less_Least
    unfolding m_def by (simp, simp, blast)
  then obtain k where k: "m = Suc k" using assms(1) by (cases m) auto
  have "state_after s ts k \<in> {Protected, Probe}"
    using m k by (intro guarded_until_pressured [OF assms(1)]) auto
  moreover have "transition (fst (snd (ts ! k))) (state_after s ts k) Pressured"
    using state_after_step [of k ts s] m k by simp
  ultimately have "state_after s ts k = Probe \<and> recovering (fst (snd (ts ! k)))"
    by (auto simp: transition_from)
  then show ?thesis using m(1,2) unfolding k by (intro exI [of _ k]) simp
qed

theorem protected_recovers_through_probe_witness:
  "\<exists>k < 7. state_after protected_sample (minutes [2, 3, 4, 5, 6, 7, 8] calm) k = Probe"
proof -
  have "sd_state (run tick_step protected_sample (minutes [2, 3, 4, 5, 6, 7, 8] calm)) = Normal"
    by (rule run_recovers [where t = 60000])
      (simp_all add: protected_sample_def minutes_def calm_def recovering_def sched_inv_def)
  moreover have "sd_state protected_sample = Protected" by (simp add: protected_sample_def)
  moreover have "length (minutes [2, 3, 4, 5, 6, 7, 8] calm) = 7" by (simp add: minutes_def)
  ultimately show ?thesis
    using protected_recovers_through_probe [of protected_sample "minutes [2, 3, 4, 5, 6, 7, 8] calm"] by metis
qed

text \<open>Pressure is never declared over too early: with a clock that does not run backwards, the
  scheduler leaves the pressured state for the normal one only twenty seconds or more after it
  noticed the pressure, and only on a recovering sample.\<close>

lemma relief_takes_time:
  assumes "clock_ok 0 (map (\<lambda>i. unat (fst i)) ts)" and "last (0 # map (\<lambda>i. unat (fst i)) ts) \<le> unat now"
    and "sd_state (run tick_step scheduler_new ts) = Pressured"
    and "sd_state (tick_step (run tick_step scheduler_new ts) (now, p, base)) = Normal"
  shows "\<exists>t0. sd_pressured_since (run tick_step scheduler_new ts) = Some t0 \<and>
    unat t0 + 20000 \<le> unat now \<and> recovering p"
proof -
  let ?s = "run tick_step scheduler_new ts"
  have inv: "sched_inv (unat now) ?s"
    using sched.timed_reachable [OF assms(1)] assms(2) by (rule sched_inv_mono)
  have "sd_state (eval_pressured now p ?s) = Normal"
    using assms(3,4) by (simp add: tick_step_advance advance_def)
  then show ?thesis
  proof (cases rule: eval_pressured_cases [of now p ?s])
    case relieved
    obtain t0 w where "sd_pressured_since ?s = Some t0" "sd_last_window_at_ms ?s = Some w"
      "unat t0 + 10000 * (unat (sd_recovery_windows ?s) - 1) \<le> unat w"
      using inv assms(3) relieved(3) by (auto simp: sched_inv_def recovery_spaced_def)
    moreover have "unat w + 10000 \<le> unat now" using relieved(4) \<open>sd_last_window_at_ms ?s = Some w\<close> by blast
    ultimately show ?thesis using relieved(2,3) by auto
  qed (use assms(3) in \<open>simp_all add: enter_protected_def\<close>)
qed

text \<open>C12: the scheduler always recovers: from whatever state a run has reached, seven evaluations a
  minute apart with recovering samples bring it back to normal.\<close>

theorem scheduler_recovers:
  assumes "clock_ok 0 (map (\<lambda>i. unat (fst i)) ts)"
    and "spaced (last (0 # map (\<lambda>i. unat (fst i)) ts)) js" and "7 \<le> length js"
  shows "sd_state (run tick_step scheduler_new (ts @ js)) = Normal"
  using run_recovers [OF sched.timed_reachable [OF assms(1)] assms(2,3)] by simp

theorem scheduler_recovers_witness:
  "sd_state (run tick_step scheduler_new (minutes [1] full_disk @ minutes [2, 3, 4, 5, 6, 7, 8] calm)) = Normal"
proof -
  have "recovering calm" by (simp add: recovering_def calm_def)
  then show ?thesis
    using scheduler_recovers [of "minutes [1] full_disk" "minutes [2, 3, 4, 5, 6, 7, 8] calm"]
    by (simp add: minutes_def)
qed

end
