(* ===== verification/Ingress.thy ===== *)
theory Ingress
  imports Invariant
begin

section \<open>Bounded ingress\<close>

text \<open>
  \<^verbatim>\<open>crates/local-runtime/src/ingress.rs\<close> with the limits of \<^verbatim>\<open>crates/local-runtime/src/lib.rs\<close>: the
  non-blocking entry of the collector.  The standard library's bounded channel is a queue with a
  capacity and a flag that says whether its receiver is alive; \<^verbatim>\<open>try_send\<close> reports a dropped receiver
  before a full queue.  The relaxed atomic counters are 64-bit words that wrap.
\<close>

definition MAX_INPUT_BYTES :: nat where
  "MAX_INPUT_BYTES = 1024 * 1024"

definition MAX_MESSAGE_BYTES :: nat where
  "MAX_MESSAGE_BYTES = 64 * 1024"

definition CHANNEL_CAPACITY :: nat where
  "CHANNEL_CAPACITY = 64"

lemmas ingress_constants = MAX_INPUT_BYTES_def MAX_MESSAGE_BYTES_def CHANNEL_CAPACITY_def

datatype ingress_message = IngressMessage string

datatype ingress_error = TooLarge

definition ingress_message_new :: "string \<Rightarrow> ingress_error + ingress_message" where
  "ingress_message_new bytes =
     (if length bytes > MAX_MESSAGE_BYTES then Inl TooLarge else Inr (IngressMessage bytes))"

datatype ingress_outcome = Accepted | Full | Unavailable | Oversized

record ingress_counters =
  ic_accepted :: u64
  ic_full :: u64
  ic_unavailable :: u64
  ic_oversized :: u64

definition counters_default :: ingress_counters where
  "counters_default = \<lparr>ic_accepted = 0, ic_full = 0, ic_unavailable = 0, ic_oversized = 0\<rparr>"

definition snapshot :: "ingress_counters \<Rightarrow> u64 \<times> u64 \<times> u64 \<times> u64" where
  "snapshot c = (ic_accepted c, ic_full c, ic_unavailable c, ic_oversized c)"

subsection \<open>The channel\<close>

record channel =
  ch_queue :: "ingress_message list"
  ch_receiver :: bool

datatype send_result = Sent | SendFull | SendDisconnected

definition channel_try_send :: "ingress_message \<Rightarrow> channel \<Rightarrow> channel \<times> send_result" where
  "channel_try_send m c =
     (if \<not> ch_receiver c then (c, SendDisconnected)
      else if length (ch_queue c) \<ge> CHANNEL_CAPACITY then (c, SendFull)
      else (c\<lparr>ch_queue := ch_queue c @ [m]\<rparr>, Sent))"

definition channel_try_recv :: "channel \<Rightarrow> channel \<times> ingress_message option" where
  "channel_try_recv c = (case ch_queue c of [] \<Rightarrow> (c, None) | m # ms \<Rightarrow> (c\<lparr>ch_queue := ms\<rparr>, Some m))"

definition channel_drop_receiver :: "channel \<Rightarrow> channel" where
  "channel_drop_receiver c = c\<lparr>ch_queue := [], ch_receiver := False\<rparr>"

subsection \<open>Ingress\<close>

record ingress =
  ig_sender :: "channel option"
  ig_counters :: ingress_counters

definition ingress_new :: ingress where
  "ingress_new = \<lparr>ig_sender = Some \<lparr>ch_queue = [], ch_receiver = True\<rparr>, ig_counters = counters_default\<rparr>"

definition ingress_unavailable :: ingress where
  "ingress_unavailable = \<lparr>ig_sender = None, ig_counters = counters_default\<rparr>"

definition try_send_projected :: "nat \<Rightarrow> string \<Rightarrow> ingress \<Rightarrow> ingress \<times> ingress_outcome" where
  "try_send_projected raw_input_bytes projected i =
     (if raw_input_bytes > MAX_INPUT_BYTES \<or> length projected > MAX_MESSAGE_BYTES
      then (i\<lparr>ig_counters := (ig_counters i)\<lparr>ic_oversized := ic_oversized (ig_counters i) + 1\<rparr>\<rparr>, Oversized)
      else case ig_sender i of
        None \<Rightarrow>
          (i\<lparr>ig_counters := (ig_counters i)\<lparr>ic_unavailable := ic_unavailable (ig_counters i) + 1\<rparr>\<rparr>, Unavailable)
      | Some sender \<Rightarrow>
          (case channel_try_send (IngressMessage projected) sender of
             (sender, Sent) \<Rightarrow>
               (i\<lparr>ig_sender := Some sender,
                  ig_counters := (ig_counters i)\<lparr>ic_accepted := ic_accepted (ig_counters i) + 1\<rparr>\<rparr>, Accepted)
           | (sender, SendFull) \<Rightarrow>
               (i\<lparr>ig_sender := Some sender,
                  ig_counters := (ig_counters i)\<lparr>ic_full := ic_full (ig_counters i) + 1\<rparr>\<rparr>, Full)
           | (sender, SendDisconnected) \<Rightarrow>
               (i\<lparr>ig_sender := Some sender,
                  ig_counters := (ig_counters i)\<lparr>ic_unavailable := ic_unavailable (ig_counters i) + 1\<rparr>\<rparr>,
                Unavailable)))"

definition try_send :: "string \<Rightarrow> ingress \<Rightarrow> ingress \<times> ingress_outcome" where
  "try_send input i = try_send_projected (length input) input i"

subsection \<open>Runs\<close>

text \<open>
  A session: senders and the receiver interleave their calls.  The session remembers the messages
  that were reported as accepted, those the receiver got, and the number of calls of each outcome.
\<close>

datatype ingress_event = Send nat string | Receive | DropReceiver

record session =
  ss_ingress :: ingress
  ss_accepted :: "ingress_message list"
  ss_received :: "ingress_message list"
  ss_outcomes :: "ingress_outcome list"

definition session_step :: "session \<Rightarrow> ingress_event \<Rightarrow> session" where
  "session_step s e = (case e of
       Send n bytes \<Rightarrow>
         (case try_send_projected n bytes (ss_ingress s) of (i, r) \<Rightarrow>
            s\<lparr>ss_ingress := i, ss_outcomes := ss_outcomes s @ [r],
              ss_accepted := ss_accepted s @ (if r = Accepted then [IngressMessage bytes] else [])\<rparr>)
     | Receive \<Rightarrow>
         (case ig_sender (ss_ingress s) of None \<Rightarrow> s
          | Some c \<Rightarrow>
              (case channel_try_recv c of
                 (c, None) \<Rightarrow> s
               | (c, Some m) \<Rightarrow>
                   s\<lparr>ss_ingress := (ss_ingress s)\<lparr>ig_sender := Some c\<rparr>, ss_received := ss_received s @ [m]\<rparr>))
     | DropReceiver \<Rightarrow>
         s\<lparr>ss_ingress := (ss_ingress s)\<lparr>ig_sender := map_option channel_drop_receiver (ig_sender (ss_ingress s))\<rparr>\<rparr>)"

definition session_of :: "ingress \<Rightarrow> session" where
  "session_of i = \<lparr>ss_ingress = i, ss_accepted = [], ss_received = [], ss_outcomes = []\<rparr>"

definition fits_message :: "ingress_message \<Rightarrow> bool" where
  "fits_message m = (case m of IngressMessage bytes \<Rightarrow> length bytes \<le> MAX_MESSAGE_BYTES)"

definition counted :: "ingress_counters \<Rightarrow> ingress_outcome list \<Rightarrow> bool" where
  "counted c rs \<longleftrightarrow>
     ic_accepted c = word_of_nat (count_list rs Accepted) \<and> ic_full c = word_of_nat (count_list rs Full) \<and>
     ic_unavailable c = word_of_nat (count_list rs Unavailable) \<and>
     ic_oversized c = word_of_nat (count_list rs Oversized)"

definition channel_inv :: "session \<Rightarrow> bool" where
  "channel_inv s \<longleftrightarrow> (case ig_sender (ss_ingress s) of
       None \<Rightarrow> ss_accepted s = [] \<and> ss_received s = []
     | Some c \<Rightarrow> length (ch_queue c) \<le> CHANNEL_CAPACITY \<and>
         (if ch_receiver c then ss_accepted s = ss_received s @ ch_queue c
          else ch_queue c = [] \<and> (\<exists>lost. ss_accepted s = ss_received s @ lost)))"

definition session_inv :: "session \<Rightarrow> bool" where
  "session_inv s \<longleftrightarrow> channel_inv s \<and> (\<forall>m \<in> set (ss_accepted s). fits_message m) \<and>
     length (ss_accepted s) = count_list (ss_outcomes s) Accepted \<and>
     counted (ig_counters (ss_ingress s)) (ss_outcomes s)"

lemma count_list_append [simp]: "count_list (xs @ ys) x = count_list xs x + count_list ys x"
  by (induction xs) auto

lemma session_inv_start:
  "session_inv (session_of ingress_new)" "session_inv (session_of ingress_unavailable)"
  by (simp_all add: session_inv_def channel_inv_def session_of_def ingress_new_def ingress_unavailable_def
    counted_def counters_default_def)

lemma session_inv_send:
  assumes "session_inv s"
  shows "session_inv (session_step s (Send n bytes))"
  using assms unfolding session_inv_def
  by (auto simp: session_step_def try_send_projected_def channel_try_send_def channel_inv_def counted_def
    fits_message_def not_less not_le split: option.splits if_splits)

lemma session_inv_receive:
  assumes "session_inv s"
  shows "session_inv (session_step s Receive)"
  using assms unfolding session_inv_def
  by (auto simp: session_step_def channel_try_recv_def channel_inv_def split: option.splits list.splits if_splits)

lemma session_inv_drop:
  assumes "session_inv s"
  shows "session_inv (session_step s DropReceiver)"
  using assms unfolding session_inv_def
  by (auto simp: session_step_def channel_drop_receiver_def channel_inv_def split: option.splits if_splits)

lemma session_inv_step: "session_inv s \<Longrightarrow> session_inv (session_step s e)"
  by (cases e) (simp_all add: session_inv_send session_inv_receive session_inv_drop)

interpretation open_ingress: machine session_step "session_of ingress_new" session_inv
  by unfold_locales (rule session_inv_start session_inv_step, assumption?)+

interpretation closed_ingress: machine session_step "session_of ingress_unavailable" session_inv
  by unfold_locales (rule session_inv_start session_inv_step, assumption?)+

subsection \<open>Properties\<close>

text \<open>C13: no message is lost, duplicated, reordered or oversized in the ingress, and the counters tell the
  truth: in every interleaving of sends and receives the accepted messages are the received ones
  followed by the at most 64 queued ones (after the receiver was dropped the rest is lost and the
  queue stays empty), every accepted message fits its bound, and each counter is the number of
  calls with that outcome modulo the width of a 64-bit word.\<close>

theorem ingress_conserves: "session_inv (run session_step (session_of ingress_new) es)"
  by (rule open_ingress.inv_reachable)

end
