(* ===== verification/Storage_Budget.thy ===== *)
theory Storage_Budget
  imports Prelude
begin

section \<open>The storage budget\<close>

text \<open>
  \<^verbatim>\<open>crates/local-runtime/src/storage.rs\<close>: the partition of the local storage budget, the admission of a
  write, and the accounting of the bytes a directory tree has allocated.  The operating system is a
  parameter: \<open>lstat i path\<close> and \<open>readdir i path\<close> are what the \<open>i\<close>-th round of the walk observes, so
  that the tree may change while it is walked.  The observer of \<^verbatim>\<open>allocated_tree_bytes_observing\<close> is
  the empty closure of its two callers, and sizes are those of a Unix build.
\<close>

subsection \<open>Partitions\<close>

definition MIB :: u64 where
  "MIB = 1024 * 1024"

definition BLOCK :: u64 where
  "BLOCK = 4096"

definition MAX_ACCOUNTING_ENTRIES :: nat where
  "MAX_ACCOUNTING_ENTRIES = 4096"

record partition =
  pt_bytes :: u64

record storage_budget =
  sb_total :: u64
  sb_headroom :: partition
  sb_state :: partition
  sb_team :: partition
  sb_projection :: partition
  sb_diagnostic :: partition

datatype storage_error = BudgetOutOfBounds | MinimumPartition

definition calculate :: "u64 \<Rightarrow> bool \<Rightarrow> storage_error + storage_budget" where
  "calculate budget team_enabled =
     (if \<not> (256 * MIB \<le> budget \<and> budget \<le> 20 * 1024 * MIB) then Inl BudgetOutOfBounds
      else
        let head = max (32 * MIB) (budget div 8);
            remainder = budget - head;
            state = saturating_mul remainder 40 div 100;
            team = saturating_mul remainder 50 div 100;
            projection = saturating_mul remainder 8 div 100;
            diagnostic = saturating_mul remainder 2 div 100;
            state = state div MIB * MIB;
            team = team div MIB * MIB;
            projection = projection div MIB * MIB;
            diagnostic = diagnostic div MIB * MIB
        in if state < 80 * MIB \<or> team < 96 * MIB \<or> projection < 16 * MIB \<or> diagnostic < 4 * MIB
           then Inl MinimumPartition
           else
             let used = head + state + team + projection + diagnostic;
                 extra = budget - used;
                 team_allocation = (if team_enabled then team else 0)
             in Inr \<lparr>sb_total = budget,
                  sb_headroom = \<lparr>pt_bytes = head + extra\<rparr>,
                  sb_state = \<lparr>pt_bytes = state + (if \<not> team_enabled then team else 0)\<rparr>,
                  sb_team = \<lparr>pt_bytes = team_allocation\<rparr>,
                  sb_projection = \<lparr>pt_bytes = projection\<rparr>,
                  sb_diagnostic = \<lparr>pt_bytes = diagnostic\<rparr>\<rparr>)"

definition writable_limit :: "storage_budget \<Rightarrow> u64" where
  "writable_limit b = saturating_sub (sb_total b) (pt_bytes (sb_headroom b))"

datatype admission = Allowed u64 | Denied

definition admit :: "storage_budget \<Rightarrow> u64 \<Rightarrow> u64 \<Rightarrow> admission" where
  "admit b current worst_case =
     (if saturating_add current worst_case > writable_limit b then Denied else Allowed worst_case)"

subsection \<open>Tree accounting\<close>

datatype file_type = Regular | Directory | SymbolicLink | Special

record metadata =
  md_type :: file_type
  md_blocks :: u64

datatype io_error = NotFound | OtherIo

type_synonym path = "string list"

datatype accounting_error = Io io_error | EntryLimit | Symlink | UnsupportedFileType | AccountingOverflow

definition div_ceil :: "u64 \<Rightarrow> u64 \<Rightarrow> u64" where
  "div_ceil a b = (if a mod b = 0 then a div b else a div b + 1)"

definition allocated_metadata_bytes :: "metadata \<Rightarrow> u64" where
  "allocated_metadata_bytes m = div_ceil (saturating_mul (md_blocks m) 512) BLOCK * BLOCK"

definition allocated_blocks :: "(path \<Rightarrow> io_error + metadata) \<Rightarrow> path \<Rightarrow> io_error + u64" where
  "allocated_blocks stat p =
     bind_result (stat p) (\<lambda>m. Inr (div_ceil (saturating_mul (md_blocks m) 512) BLOCK))"

definition allocated_bytes :: "(path \<Rightarrow> io_error + metadata) \<Rightarrow> path \<Rightarrow> io_error + u64" where
  "allocated_bytes stat p = bind_result (allocated_blocks stat p) (\<lambda>blocks. Inr (blocks * BLOCK))"

fun push_entries ::
  "bool \<Rightarrow> (io_error + path) list \<Rightarrow> (path \<times> bool) list \<Rightarrow> nat \<Rightarrow>
     accounting_error + (path \<times> bool) list \<times> nat" where
  "push_entries allow [] pending entries = Inr (pending, entries)"
| "push_entries allow (entry # directory) pending entries =
     (if entries + 1 > MAX_ACCOUNTING_ENTRIES then Inl EntryLimit
      else case entry of
        Inr p \<Rightarrow> push_entries allow directory ((p, False) # pending) (entries + 1)
      | Inl e \<Rightarrow> if allow \<and> e = NotFound then push_entries allow directory pending (entries + 1)
          else Inl (Io e))"

lemma push_entries_measure:
  "push_entries allow directory pending entries = Inr (pending', entries') \<Longrightarrow>
     length pending' + (MAX_ACCOUNTING_ENTRIES - entries') \<le>
       length pending + (MAX_ACCOUNTING_ENTRIES - entries)"
  by (induction allow directory pending entries rule: push_entries.induct)
    (fastforce split: if_splits sum.splits)+

function tree_loop ::
  "(nat \<Rightarrow> path \<Rightarrow> io_error + metadata) \<Rightarrow> (nat \<Rightarrow> path \<Rightarrow> io_error + (io_error + path) list) \<Rightarrow> bool \<Rightarrow>
     nat \<Rightarrow> (path \<times> bool) list \<Rightarrow> nat \<Rightarrow> u64 \<Rightarrow> accounting_error + u64" where
  "tree_loop lstat readdir allow i [] entries bytes = Inr bytes"
| "tree_loop lstat readdir allow i ((current, is_root) # pending) entries bytes =
     (case lstat i current of
        Inl e \<Rightarrow>
          if allow \<and> \<not> is_root \<and> e = NotFound
          then tree_loop lstat readdir allow (i + 1) pending entries bytes
          else Inl (Io e)
      | Inr m \<Rightarrow>
          if md_type m = SymbolicLink then Inl Symlink
          else case checked_add bytes (allocated_metadata_bytes m) of
            None \<Rightarrow> Inl AccountingOverflow
          | Some bytes \<Rightarrow>
              if md_type m = Directory
              then case readdir i current of
                Inl e \<Rightarrow>
                  if allow \<and> \<not> is_root \<and> e = NotFound
                  then tree_loop lstat readdir allow (i + 1) pending entries bytes
                  else Inl (Io e)
              | Inr directory \<Rightarrow>
                  (case push_entries allow directory pending entries of
                     Inl e \<Rightarrow> Inl e
                   | Inr (pending, entries) \<Rightarrow>
                       tree_loop lstat readdir allow (i + 1) pending entries bytes)
              else if md_type m \<noteq> Regular then Inl UnsupportedFileType
              else tree_loop lstat readdir allow (i + 1) pending entries bytes)"
  by pat_completeness auto
termination
  by (relation "measure (\<lambda>(_, _, _, _, pending, entries, _). length pending + (MAX_ACCOUNTING_ENTRIES - entries))")
    (auto dest!: push_entries_measure)

definition allocated_tree_bytes_observing where
  "allocated_tree_bytes_observing lstat readdir path allow =
     tree_loop lstat readdir allow 0 [(path, True)] 1 0"

definition allocated_tree_bytes where
  "allocated_tree_bytes lstat readdir path = allocated_tree_bytes_observing lstat readdir path True"

definition allocated_tree_bytes_strict where
  "allocated_tree_bytes_strict lstat readdir path = allocated_tree_bytes_observing lstat readdir path False"

subsection \<open>Lemmas on partitions\<close>

lemmas budget_constants = MIB_def BLOCK_def MAX_ACCOUNTING_ENTRIES_def

text \<open>A share of the remainder in whole mebibytes, over the naturals.\<close>

definition share :: "nat \<Rightarrow> nat \<Rightarrow> nat" where
  "share n percent = n * percent div 100 div 1048576 * 1048576"

lemma share_le: "share n percent \<le> n * percent"
  unfolding share_def by (metis div_le_dividend div_times_less_eq_dividend order_trans)

lemma share_le_percent: "100 * share n percent \<le> n * percent"
proof -
  have "share n percent \<le> n * percent div 100" unfolding share_def by (rule div_times_less_eq_dividend)
  then show ?thesis by linarith
qed

lemma share_mono: "m \<le> n \<Longrightarrow> share m percent \<le> share n percent"
  unfolding share_def by (intro mult_le_mono div_le_mono order_refl) simp_all

lemma share_least:
  "share 234881024 40 = 93323264" "share 234881024 50 = 117440512"
  "share 234881024 8 = 17825792" "share 234881024 2 = 4194304"
  by (simp_all add: share_def)

lemma unat_share:
  fixes w k :: u64
  assumes "unat w \<le> 21474836480" and "unat k \<le> 100"
  shows "unat (saturating_mul w k div 100 div MIB * MIB) = share (unat w) (unat k)"
proof -
  have "unat w * unat k \<le> 21474836480 * 100" using assms by (intro mult_le_mono)
  then have less: "unat w * unat k < 2 ^ 64" by simp
  then have "unat (saturating_mul w k) = unat w * unat k" by (simp add: machine_simps)
  then have "unat (saturating_mul w k div 100 div MIB) * unat MIB = share (unat w) (unat k)"
    by (simp add: unat_div share_def MIB_def)
  moreover from this have "unat (saturating_mul w k div 100 div MIB) * unat MIB < 2 ^ LENGTH(64)"
    using share_le [of "unat w" "unat k"] less by simp
  ultimately show ?thesis by (simp only: unat_mult_lem [THEN iffD1])
qed

lemma unat_head: "unat (max (32 * MIB) (w div 8)) = max 33554432 (unat w div 8)"
  by (auto simp: max_def MIB_def word_le_nat_alt unat_div)

lemma calculate_cases:
  fixes w :: u64
  defines "n \<equiv> unat w" and "h \<equiv> max 33554432 (unat w div 8)"
  assumes "268435456 \<le> unat w" "unat w \<le> 21474836480"
  obtains b s t p d where "calculate w team = Inr b" "sb_total b = w"
    "unat (pt_bytes (sb_headroom b)) = n - (s + t + p + d)"
    "unat (pt_bytes (sb_state b)) = (if team then s else s + t)"
    "unat (pt_bytes (sb_team b)) = (if team then t else 0)"
    "unat (pt_bytes (sb_projection b)) = p" "unat (pt_bytes (sb_diagnostic b)) = d"
    "h + s + t + p + d \<le> n" "83886080 \<le> s" "100663296 \<le> t" "16777216 \<le> p" "4194304 \<le> d"
proof -
  define head where "head = max (32 * MIB) (w div 8)"
  define part where "part = (\<lambda>k. saturating_mul (w - head) k div 100 div MIB * MIB)"
  have h: "h \<le> n" "33554432 \<le> h" "h \<le> 33554432 \<or> h = n div 8"
    using assms(3) unfolding n_def h_def by linarith+
  have head: "unat head = h" by (simp add: head_def h_def unat_head)
  then have "unat (w - head) = n - h"
    using h(1) unfolding n_def by (subst unat_sub) (simp_all add: word_le_nat_alt)
  then have part: "unat (part k) = share (n - h) (unat k)" if "unat k \<le> 100" for k
    using unat_share [of "w - head" k] that assms(4) by (simp add: n_def part_def)
  then have parts: "unat (part 40) = share (n - h) 40" "unat (part 50) = share (n - h) 50"
    "unat (part 8) = share (n - h) 8" "unat (part 2) = share (n - h) 2" by simp_all
  have "234881024 \<le> n - h" using assms(3) h(3) unfolding n_def by linarith
  then have ge: "share 234881024 k \<le> share (n - h) k" for k by (rule share_mono)
  have minimum: "83886080 \<le> share (n - h) 40" "100663296 \<le> share (n - h) 50"
    "16777216 \<le> share (n - h) 8" "4194304 \<le> share (n - h) 2"
    using ge [of 40] ge [of 50] ge [of 8] ge [of 2] unfolding share_least by linarith+
  have sum: "h + share (n - h) 40 + share (n - h) 50 + share (n - h) 8 + share (n - h) 2 \<le> n"
    using share_le_percent [of "n - h" 40] share_le_percent [of "n - h" 50] share_le_percent [of "n - h" 8]
      share_le_percent [of "n - h" 2] h(1) by linarith
  have n64: "n < 2 ^ 64" using assms(4) by (simp add: n_def)
  have used: "unat (head + part 40 + part 50 + part 8 + part 2) =
      h + share (n - h) 40 + share (n - h) 50 + share (n - h) 8 + share (n - h) 2"
    using sum n64 by (simp add: unat_word_ariths head parts)
  define b where "b = \<lparr>sb_total = w,
      sb_headroom = \<lparr>pt_bytes = head + (w - (head + part 40 + part 50 + part 8 + part 2))\<rparr>,
      sb_state = \<lparr>pt_bytes = part 40 + (if \<not> team then part 50 else 0)\<rparr>,
      sb_team = \<lparr>pt_bytes = if team then part 50 else 0\<rparr>,
      sb_projection = \<lparr>pt_bytes = part 8\<rparr>, sb_diagnostic = \<lparr>pt_bytes = part 2\<rparr>\<rparr>"
  have "256 * MIB \<le> w \<and> w \<le> 20 * 1024 * MIB" using assms(3,4) by (simp add: word_le_nat_alt MIB_def)
  moreover have "\<not> (part 40 < 80 * MIB \<or> part 50 < 96 * MIB \<or> part 8 < 16 * MIB \<or> part 2 < 4 * MIB)"
    using minimum by (simp add: word_less_nat_alt parts MIB_def)
  ultimately have "calculate w team = Inr b"
    unfolding calculate_def Let_def b_def head_def [symmetric] part_def by (simp only: simp_thms if_False if_True)
  moreover define extra where "extra = w - (head + part 40 + part 50 + part 8 + part 2)"
  have "unat extra = n - (h + share (n - h) 40 + share (n - h) 50 + share (n - h) 8 + share (n - h) 2)"
    using sum unfolding n_def extra_def by (subst unat_sub) (simp_all add: word_le_nat_alt used n_def)
  then have e: "unat head + unat extra = n - (share (n - h) 40 + share (n - h) 50 + share (n - h) 8 + share (n - h) 2)"
    using sum unfolding head by linarith
  then have "unat head + unat extra < 2 ^ LENGTH(64)" using n64 by (simp add: less_imp_diff_less)
  then have "unat (head + extra) =
      n - (share (n - h) 40 + share (n - h) 50 + share (n - h) 8 + share (n - h) 2)"
    using e by (simp only: unat_add_lem [THEN iffD1])
  moreover have "unat (part 40 + part 50) = share (n - h) 40 + share (n - h) 50"
    using sum n64 by (simp add: unat_word_ariths parts)
  ultimately show thesis
    using sum minimum by (intro that [of b "share (n - h) 40" "share (n - h) 50" "share (n - h) 8" "share (n - h) 2"])
      (simp_all add: b_def parts extra_def)
qed

subsection \<open>Properties of the budget\<close>

text \<open>C15: every budget in bounds can be partitioned: the calculation never reports a missed minimum, the five
  partitions add up to the total exactly, every partition has its minimum and the headroom is at
  least an eighth.  Outside the bounds the budget is refused.\<close>

theorem calculate_exact:
  "if 268435456 \<le> unat w \<and> unat w \<le> 21474836480 then
     \<exists>b. calculate w team = Inr b \<and> sb_total b = w \<and>
       unat (pt_bytes (sb_headroom b)) + unat (pt_bytes (sb_state b)) + unat (pt_bytes (sb_team b)) +
         unat (pt_bytes (sb_projection b)) + unat (pt_bytes (sb_diagnostic b)) = unat w \<and>
       max 33554432 (unat w div 8) \<le> unat (pt_bytes (sb_headroom b)) \<and>
       (if team then 83886080 else 184549376) \<le> unat (pt_bytes (sb_state b)) \<and>
       (if team then 100663296 \<le> unat (pt_bytes (sb_team b)) else pt_bytes (sb_team b) = 0) \<and>
       16777216 \<le> unat (pt_bytes (sb_projection b)) \<and> 4194304 \<le> unat (pt_bytes (sb_diagnostic b))
   else calculate w team = Inl BudgetOutOfBounds"
proof (cases "268435456 \<le> unat w \<and> unat w \<le> 21474836480")
  case True
  then have w: "268435456 \<le> unat w" "unat w \<le> 21474836480" by simp_all
  obtain b s t p d where b: "calculate w team = Inr b" "sb_total b = w"
    "unat (pt_bytes (sb_headroom b)) = unat w - (s + t + p + d)"
    "unat (pt_bytes (sb_state b)) = (if team then s else s + t)"
    "unat (pt_bytes (sb_team b)) = (if team then t else 0)"
    "unat (pt_bytes (sb_projection b)) = p" "unat (pt_bytes (sb_diagnostic b)) = d"
    and le: "max 33554432 (unat w div 8) + s + t + p + d \<le> unat w"
    and mins: "83886080 \<le> s" "100663296 \<le> t" "16777216 \<le> p" "4194304 \<le> d"
    by (rule calculate_cases [OF w, of team])
  have "unat w - (s + t + p + d) + (s + t + p + d) = unat w" "max 33554432 (unat w div 8) \<le> unat w - (s + t + p + d)"
    using le by linarith+
  then show ?thesis using w b mins by (cases team) (simp_all add: unat_eq_zero)
next
  case False
  then show ?thesis by (auto simp: calculate_def word_le_nat_alt MIB_def)
qed

text \<open>A write is admitted exactly when what is allocated and the write fit, over the naturals, in the
  partitions other than the headroom; a sum that would wrap is refused.\<close>

lemma admit_exact:
  assumes "calculate w team = Inr b"
  shows "admit b current write = Allowed r \<longleftrightarrow> r = write \<and>
    unat current + unat write \<le> unat (pt_bytes (sb_state b)) + unat (pt_bytes (sb_team b)) +
      unat (pt_bytes (sb_projection b)) + unat (pt_bytes (sb_diagnostic b))"
proof -
  have w: "268435456 \<le> unat w" "unat w \<le> 21474836480"
    using assms by (auto simp: calculate_def word_le_nat_alt MIB_def split: if_splits)
  obtain b' s t p d where b: "calculate w team = Inr b'" "sb_total b' = w"
    "unat (pt_bytes (sb_headroom b')) = unat w - (s + t + p + d)"
    "unat (pt_bytes (sb_state b')) = (if team then s else s + t)"
    "unat (pt_bytes (sb_team b')) = (if team then t else 0)"
    "unat (pt_bytes (sb_projection b')) = p" "unat (pt_bytes (sb_diagnostic b')) = d"
    and le: "max 33554432 (unat w div 8) + s + t + p + d \<le> unat w"
    by (rule calculate_cases [OF w, of team])
  have "b' = b" using b(1) assms by simp
  then have limit: "unat (writable_limit b) = s + t + p + d"
    using b le by (simp add: writable_limit_def machine_simps)
  have "s + t + p + d < 2 ^ 64 - 1" using le w(2) by simp
  then have "admit b current write = Allowed r \<longleftrightarrow> r = write \<and> unat current + unat write \<le> s + t + p + d"
    by (auto simp: admit_def word_less_nat_alt machine_simps limit)
  then show ?thesis using b \<open>b' = b\<close> by (cases team) (simp_all add: add_ac)
qed

subsection \<open>Accounting of a tree that does not change\<close>

text \<open>
  A file tree as a value: what \<^verbatim>\<open>symlink_metadata\<close> and \<^verbatim>\<open>read_dir\<close> report of it while nobody changes
  it, its number of entries and the sum of its allocations.
\<close>

datatype node = Node metadata "(string \<times> node) list"

fun lookup_node :: "node \<Rightarrow> path \<Rightarrow> node option" where
  "lookup_node t [] = Some t"
| "lookup_node (Node m children) (name # p) =
     (case map_of children name of None \<Rightarrow> None | Some t \<Rightarrow> lookup_node t p)"

fun node_metadata :: "node \<Rightarrow> metadata" where
  "node_metadata (Node m children) = m"

fun node_children :: "node \<Rightarrow> (string \<times> node) list" where
  "node_children (Node m children) = children"

definition static_lstat :: "node \<Rightarrow> nat \<Rightarrow> path \<Rightarrow> io_error + metadata" where
  "static_lstat t i p = (case lookup_node t p of None \<Rightarrow> Inl NotFound | Some u \<Rightarrow> Inr (node_metadata u))"

definition static_readdir :: "node \<Rightarrow> nat \<Rightarrow> path \<Rightarrow> io_error + (io_error + path) list" where
  "static_readdir t i p = (case lookup_node t p of None \<Rightarrow> Inl NotFound
     | Some u \<Rightarrow> Inr (map (\<lambda>(name, _). Inr (p @ [name])) (node_children u)))"

fun plain_tree :: "node \<Rightarrow> bool" where
  "plain_tree (Node m children) =
     (distinct (map fst children) \<and> list_all (\<lambda>(_, t). plain_tree t) children \<and>
      (md_type m = Directory \<or> md_type m = Regular \<and> children = []))"

fun entry_count :: "node \<Rightarrow> nat" where
  "entry_count (Node m children) = 1 + sum_list (map (\<lambda>(_, t). entry_count t) children)"

fun tree_allocation :: "node \<Rightarrow> nat" where
  "tree_allocation (Node m children) =
     unat (allocated_metadata_bytes m) + sum_list (map (\<lambda>(_, t). tree_allocation t) children)"

lemma tree_sums [simp]:
  "entry_count (Node m children) = 1 + sum_list (map entry_count (map snd children))"
  "tree_allocation (Node m children) =
     unat (allocated_metadata_bytes m) + sum_list (map tree_allocation (map snd children))"
  by (simp_all add: case_prod_unfold comp_def)

declare entry_count.simps [simp del] tree_allocation.simps [simp del]

lemma lookup_node_child:
  assumes "lookup_node t p = Some u" and "plain_tree u" and "(name, c) \<in> set (node_children u)"
  shows "lookup_node t (p @ [name]) = Some c"
  using assms
proof (induction t p rule: lookup_node.induct)
  case (1 t)
  then show ?case by (cases u) (auto simp: map_of_eq_Some_iff)
qed (auto split: option.splits)

lemma plain_children:
  assumes "plain_tree u" "(name, c) \<in> set (node_children u)"
  shows "plain_tree c"
  using assms by (cases u) (auto simp: list_all_iff)

lemma push_entries_static:
  assumes "entries \<le> MAX_ACCOUNTING_ENTRIES"
  shows "push_entries allow (map Inr ps) pending entries =
     (if entries + length ps \<le> MAX_ACCOUNTING_ENTRIES
      then Inr (map (\<lambda>p. (p, False)) (rev ps) @ pending, entries + length ps) else Inl EntryLimit)"
  using assms by (induction ps arbitrary: pending entries) auto

lemma entry_count_pos: "0 < entry_count u"
  by (cases u) simp

lemma sum_entry_count: "sum_list (map (\<lambda>u. entry_count u - 1) us) + length us = sum_list (map entry_count us)"
  by (induction us) (use entry_count_pos in \<open>auto simp: Suc_leI add.assoc\<close>)

lemma tree_loop_static:
  assumes "list_all2 (\<lambda>(p, _) u. lookup_node t p = Some u) pending us" and "list_all plain_tree us"
    and "entries \<le> MAX_ACCOUNTING_ENTRIES"
  shows "tree_loop (static_lstat t) (static_readdir t) allow i pending entries bytes = Inr w \<longleftrightarrow>
     entries + sum_list (map (\<lambda>u. entry_count u - 1) us) \<le> MAX_ACCOUNTING_ENTRIES \<and>
     unat bytes + sum_list (map tree_allocation us) < 2 ^ 64 \<and>
     unat w = unat bytes + sum_list (map tree_allocation us)"
  using assms
proof (induction "sum_list (map entry_count us)" arbitrary: us pending entries bytes i rule: less_induct)
  case less
  show ?case
  proof (cases us)
    case Nil
    then show ?thesis using less.prems unsigned_less [of bytes, where 'a = nat] by (auto simp: word_unat_eq_iff)
  next
    case (Cons u us')
    obtain m children where u: "u = Node m children" by (cases u)
    obtain p r pending' where pending: "pending = (p, r) # pending'" "lookup_node t p = Some u"
      "list_all2 (\<lambda>(p, _) u. lookup_node t p = Some u) pending' us'"
      using less.prems(1) unfolding Cons by (auto simp: list_all2_Cons2)
    let ?cs = "map snd children"
    have plain: "plain_tree u" "list_all plain_tree us'" using less.prems(2) Cons by simp_all
    have cs: "list_all2 (\<lambda>(q, _) u. lookup_node t q = Some u)
        (map (\<lambda>q. (q, False)) (rev (map (\<lambda>(name, _). p @ [name]) children))) (rev ?cs)"
      using lookup_node_child [OF pending(2) plain(1)]
      by (auto simp: list_all2_map1 list_all2_map2 list_all2_rev u rev_map [symmetric] intro!: list.rel_refl_strong)
    have stat: "static_lstat t i p = Inr m"
      "static_readdir t i p = Inr (map Inr (map (\<lambda>(name, _). p @ [name]) children))"
      by (auto simp: static_lstat_def static_readdir_def pending(2) u)
    show ?thesis
    proof (cases "unat bytes + unat (allocated_metadata_bytes m) < 2 ^ 64")
      case False
      then have "checked_add bytes (allocated_metadata_bytes m) = None" by (simp add: machine_simps)
      then show ?thesis using False plain(1) by (auto simp: pending(1) stat Cons u)
    next
      case True
      then obtain bytes' where b: "checked_add bytes (allocated_metadata_bytes m) = Some bytes'"
        "unat bytes' = unat bytes + unat (allocated_metadata_bytes m)"
        by (auto simp: checked_add_def unat_word_ariths)
      show ?thesis
      proof (cases "md_type m = Directory")
        case regular: False
        then have "md_type m = Regular" "children = []" using plain(1) by (auto simp: u)
        then show ?thesis
          using less.hyps [of us' pending' entries "i + 1" bytes'] pending(3) plain(2) less.prems(3)
          by (simp add: pending(1) stat b Cons u add.assoc)
      next
        case directory: True
        show ?thesis
        proof (cases "entries + length children \<le> MAX_ACCOUNTING_ENTRIES")
          case False
          then have "tree_loop (static_lstat t) (static_readdir t) allow i pending entries bytes = Inl EntryLimit"
            using directory less.prems(3) by (simp add: pending(1) stat b push_entries_static del: map_map)
          then show ?thesis
            using False sum_entry_count [of ?cs] by (simp add: Cons u)
        next
          case fits: True
          have "list_all plain_tree (rev ?cs @ us')"
            using plain_children [OF plain(1)] plain(2) by (auto simp: list_all_iff u)
          then have "tree_loop (static_lstat t) (static_readdir t) allow (i + 1)
              (map (\<lambda>q. (q, False)) (rev (map (\<lambda>(name, _). p @ [name]) children)) @ pending')
              (entries + length children) bytes' = Inr w \<longleftrightarrow>
            entries + length children + sum_list (map (\<lambda>u. entry_count u - 1) (rev ?cs @ us')) \<le> MAX_ACCOUNTING_ENTRIES \<and>
            unat bytes' + sum_list (map tree_allocation (rev ?cs @ us')) < 2 ^ 64 \<and>
            unat w = unat bytes' + sum_list (map tree_allocation (rev ?cs @ us'))"
            using cs pending(3) fits
            by (intro less.hyps list_all2_appendI) (simp_all add: Cons u rev_map [symmetric] sum_list_rev)
          then show ?thesis
            using directory less.prems(3) fits
            by (simp add: pending(1) stat b push_entries_static Cons u rev_map [symmetric] sum_list_rev
              sum_entry_count [of ?cs, symmetric] ac_simps del: map_map)
        qed
      qed
    qed
  qed
qed

subsection \<open>Strict and lenient accounting\<close>

lemma push_entries_strict:
  "push_entries False directory pending entries = Inr r \<Longrightarrow> push_entries True directory pending entries = Inr r"
  by (induction False directory pending entries rule: push_entries.induct) (auto split: if_splits sum.splits)

lemma tree_loop_strict:
  "tree_loop lstat readdir False i pending entries bytes = Inr w \<Longrightarrow>
     tree_loop lstat readdir True i pending entries bytes = Inr w"
proof (induction lstat readdir False i pending entries bytes rule: tree_loop.induct)
  case (2 lstat readdir i current is_root pending entries bytes)
  then show ?case
    using push_entries_strict [of _ pending entries]
    by (fastforce split: sum.splits option.splits if_splits prod.splits)
qed simp

text \<open>C16: the walk always ends, and on a tree that nobody changes it returns exactly the sum of the
  allocations of all its entries, in both modes; it fails exactly when the tree has more than 4096
  entries or the sum does not fit 64 bits.\<close>

theorem tree_bytes_exact:
  assumes "plain_tree t"
  shows "allocated_tree_bytes_observing (static_lstat t) (static_readdir t) [] allow = Inr w \<longleftrightarrow>
    entry_count t \<le> 4096 \<and> tree_allocation t < 2 ^ 64 \<and> unat w = tree_allocation t"
  using tree_loop_static [of t "[([], True)]" "[t]" 1 allow 0 0 w] assms entry_count_pos [of t]
  by (auto simp: allocated_tree_bytes_observing_def MAX_ACCOUNTING_ENTRIES_def)

definition sample_tree :: node where
  "sample_tree = Node \<lparr>md_type = Directory, md_blocks = 8\<rparr>
     [(''a'', Node \<lparr>md_type = Regular, md_blocks = 1\<rparr> []), (''b'', Node \<lparr>md_type = Regular, md_blocks = 17\<rparr> [])]"

theorem tree_bytes_exact_witness:
  "allocated_tree_bytes_observing (static_lstat sample_tree) (static_readdir sample_tree) [] True = Inr 20480"
  using tree_bytes_exact [of sample_tree True 20480]
  by (simp add: sample_tree_def allocated_metadata_bytes_def div_ceil_def BLOCK_def saturating_mul_def)

text \<open>Whatever happens to the tree during the walk, an answer of the strict walk is the answer of the lenient
  one.\<close>

lemma strict_is_lenient:
  "allocated_tree_bytes_strict lstat readdir path = Inr w \<Longrightarrow> allocated_tree_bytes lstat readdir path = Inr w"
  unfolding allocated_tree_bytes_strict_def allocated_tree_bytes_def allocated_tree_bytes_observing_def
  by (rule tree_loop_strict)

end
