(* ===== verification/Policy.thy ===== *)
theory Policy
  imports Prelude
begin

section \<open>Runtime policies\<close>

text \<open>
  The versioned policies of \<^verbatim>\<open>crates/local-runtime/src/policy.rs\<close> with their defaults and bounds.
  A policy is decoded by serde before \<^verbatim>\<open>from_json\<close> validates it; the decoder is the parameter
  \<open>decode\<close>, and its error text is not modelled.
\<close>

datatype policy_error =
    Json
  | OutOfBounds string u64 u64 u64
  | InvalidLifecycleOrder u16 u16 u16

definition validate_bounds :: "string \<Rightarrow> u64 \<Rightarrow> u64 \<Rightarrow> u64 \<Rightarrow> policy_error + unit" where
  "validate_bounds field value minimum maximum =
     (if value < minimum \<or> value > maximum then Inl (OutOfBounds field value minimum maximum)
      else Inr ())"

subsection \<open>Storage budgets\<close>

datatype storage_budget_mode = Legacy | Separated

record storage_budget_policy =
  bp_mode :: storage_budget_mode
  bp_retained_target_bytes :: u64
  bp_workspace_budget_bytes :: u64
  bp_minimum_free_bytes :: u64

definition default_budget :: u64 where
  "default_budget = 1073741824"

definition storage_budget_default :: storage_budget_policy where
  "storage_budget_default = \<lparr>bp_mode = Legacy, bp_retained_target_bytes = default_budget,
     bp_workspace_budget_bytes = default_budget, bp_minimum_free_bytes = default_budget\<rparr>"

definition validate_budget_policy :: "storage_budget_policy \<Rightarrow> policy_error + unit" where
  "validate_budget_policy p =
     try_all (\<lambda>(field, value). validate_bounds field value 268435456 21474836480)
       [(''retained_target_bytes'', bp_retained_target_bytes p),
        (''workspace_budget_bytes'', bp_workspace_budget_bytes p),
        (''minimum_free_bytes'', bp_minimum_free_bytes p)]"

subsection \<open>Storage lifecycle\<close>

record storage_lifecycle_policy =
  lp_enabled :: bool
  lp_hot_days :: u16
  lp_warm_days :: u16
  lp_delete_after_days :: u16
  lp_private_raw_days :: u16
  lp_maintenance_interval_seconds :: u32
  lp_max_traces_per_pass :: u16

definition storage_lifecycle_default :: storage_lifecycle_policy where
  "storage_lifecycle_default = \<lparr>lp_enabled = False, lp_hot_days = 7, lp_warm_days = 30,
     lp_delete_after_days = 90, lp_private_raw_days = 7, lp_maintenance_interval_seconds = 300,
     lp_max_traces_per_pass = 32\<rparr>"

definition validate_lifecycle_policy :: "storage_lifecycle_policy \<Rightarrow> policy_error + unit" where
  "validate_lifecycle_policy p =
     bind_result (validate_bounds ''hot_days'' (ucast (lp_hot_days p)) 1 3650) (\<lambda>_.
     bind_result (validate_bounds ''warm_days'' (ucast (lp_warm_days p)) 1 3650) (\<lambda>_.
     bind_result (validate_bounds ''delete_after_days'' (ucast (lp_delete_after_days p)) 1 3650) (\<lambda>_.
     bind_result (validate_bounds ''private_raw_days'' (ucast (lp_private_raw_days p)) 1 3650) (\<lambda>_.
     bind_result (validate_bounds ''maintenance_interval_seconds''
       (ucast (lp_maintenance_interval_seconds p)) 60 86400) (\<lambda>_.
     bind_result (validate_bounds ''max_traces_per_pass''
       (ucast (lp_max_traces_per_pass p)) 1 128) (\<lambda>_.
     if lp_hot_days p \<le> lp_warm_days p \<and> lp_warm_days p < lp_delete_after_days p then Inr ()
     else Inl (InvalidLifecycleOrder (lp_hot_days p) (lp_warm_days p) (lp_delete_after_days p))))))))"

subsection \<open>Retention\<close>

record retention_policy =
  rp_max_record_age_days :: u16
  rp_max_archive_records :: u32
  rp_max_archive_bytes :: u64

definition retention_default :: retention_policy where
  "retention_default = \<lparr>rp_max_record_age_days = 30, rp_max_archive_records = 10000,
     rp_max_archive_bytes = 16777216\<rparr>"

definition validate_retention_policy :: "retention_policy \<Rightarrow> policy_error + unit" where
  "validate_retention_policy p =
     bind_result (validate_bounds ''max_record_age_days'' (ucast (rp_max_record_age_days p)) 1 3650) (\<lambda>_.
     bind_result (validate_bounds ''max_archive_records'' (ucast (rp_max_archive_records p)) 1 100000) (\<lambda>_.
     validate_bounds ''max_archive_bytes'' (rp_max_archive_bytes p) 65536 268435456))"

subsection \<open>Collection\<close>

record collection_policy =
  cp_file_reconcile_interval_ms :: u32
  cp_flush_interval_ms :: u32
  cp_max_batch_records :: u16
  cp_max_batch_bytes :: u32
  cp_active_heartbeat_interval_ms :: u32
  cp_idle_heartbeat_interval_ms :: u32
  cp_local_storage_budget_bytes :: u64

definition collection_default :: collection_policy where
  "collection_default = \<lparr>cp_file_reconcile_interval_ms = 5000, cp_flush_interval_ms = 5000,
     cp_max_batch_records = 100, cp_max_batch_bytes = 524288,
     cp_active_heartbeat_interval_ms = 60000, cp_idle_heartbeat_interval_ms = 300000,
     cp_local_storage_budget_bytes = default_budget\<rparr>"

definition collection_checks :: "collection_policy \<Rightarrow> (string \<times> u64 \<times> u64 \<times> u64) list" where
  "collection_checks p =
     [(''file_reconcile_interval_ms'', ucast (cp_file_reconcile_interval_ms p), 1000, 60000),
      (''flush_interval_ms'', ucast (cp_flush_interval_ms p), 1000, 60000),
      (''max_batch_records'', ucast (cp_max_batch_records p), 1, 500),
      (''max_batch_bytes'', ucast (cp_max_batch_bytes p), 16384, 2097152),
      (''active_heartbeat_interval_ms'', ucast (cp_active_heartbeat_interval_ms p), 30000, 300000),
      (''idle_heartbeat_interval_ms'', ucast (cp_idle_heartbeat_interval_ms p), 120000, 900000),
      (''local_storage_budget_bytes'', cp_local_storage_budget_bytes p, 268435456, 21474836480)]"

definition validate_collection_policy :: "collection_policy \<Rightarrow> policy_error + unit" where
  "validate_collection_policy p =
     (case find (\<lambda>(_, value, minimum, maximum). value < minimum \<or> value > maximum) (collection_checks p) of
        None \<Rightarrow> Inr ()
      | Some (field, value, minimum, maximum) \<Rightarrow> Inl (OutOfBounds field value minimum maximum))"

definition collection_from_json ::
  "(string \<Rightarrow> collection_policy option) \<Rightarrow> string \<Rightarrow> policy_error + collection_policy" where
  "collection_from_json decode input =
     bind_result (ok_or (decode input) Json) (\<lambda>policy.
     bind_result (validate_collection_policy policy) (\<lambda>_. Inr policy))"

subsection \<open>Lemmas\<close>

lemma validate_bounds_iff [simp]:
  "validate_bounds field value minimum maximum = Inr () \<longleftrightarrow> minimum \<le> value \<and> value \<le> maximum"
  by (auto simp: validate_bounds_def)

text \<open>The search for the first violated check is the sequence of the checks.\<close>

lemma collection_checks_sequential:
  "validate_collection_policy p =
     try_all (\<lambda>(field, value, minimum, maximum). validate_bounds field value minimum maximum)
       (collection_checks p)"
proof -
  have "(case find (\<lambda>(_, v, a, b). v < a \<or> v > b) cs of None \<Rightarrow> Inr ()
      | Some (f, v, a, b) \<Rightarrow> Inl (OutOfBounds f v a b)) =
    try_all (\<lambda>(f, v, a, b). validate_bounds f v a b) cs" for cs
  proof (induction cs)
    case (Cons c cs)
    obtain f v a b where c: "c = (f, v, a, b)" by (cases c)
    show ?case using Cons by (cases "v < a \<or> v > b") (auto simp: c validate_bounds_def)
  qed simp
  then show ?thesis by (simp add: validate_collection_policy_def)
qed

lemma policy_defaults_valid:
  "validate_budget_policy storage_budget_default = Inr ()"
  "validate_lifecycle_policy storage_lifecycle_default = Inr ()"
  "validate_retention_policy retention_default = Inr ()"
  "validate_collection_policy collection_default = Inr ()"
  by code_simp+

lemma budget_policy_valid:
  "validate_budget_policy p = Inr () \<longleftrightarrow>
     (\<forall>b \<in> {bp_retained_target_bytes p, bp_workspace_budget_bytes p, bp_minimum_free_bytes p}.
        268435456 \<le> b \<and> b \<le> 21474836480)"
  by (auto simp: validate_budget_policy_def result_simps)

lemma unat_widen: "LENGTH('a) \<le> LENGTH('b) \<Longrightarrow> unat (ucast (w :: 'a::len word) :: 'b::len word) = unat w"
  by (metis unsigned_ucast_eq take_bit_nat_eq_self_iff unsigned_less power_increasing_iff
    one_less_numeral_iff semiring_norm(76) order_less_le_trans)

lemma lifecycle_order:
  "validate_lifecycle_policy p = Inr () \<Longrightarrow>
     1 \<le> lp_hot_days p \<and> lp_hot_days p \<le> lp_warm_days p \<and> lp_warm_days p < lp_delete_after_days p"
  by (simp add: validate_lifecycle_policy_def result_simps word_le_nat_alt unat_widen split: if_splits)

end
