(* ===== verification/Storage_Admission.thy ===== *)
theory Storage_Admission
  imports Policy
begin

section \<open>Storage admission\<close>

text \<open>
  \<^verbatim>\<open>crates/local-runtime/src/storage_policy.rs\<close>: the arithmetic that decides whether an operation may
  allocate.  Every sum is checked at 64 bits and the first failing condition names the rejection.
\<close>

subsection \<open>Inputs and rejections\<close>

record allocation_snapshot =
  as_retained_bytes :: u64
  as_workspace_bytes :: u64
  as_unknown_bytes :: u64
  as_unknown_entry_count :: u64

record reservation_snapshot =
  rs_active_bytes :: u64
  rs_stale_bytes :: u64

datatype storage_operation = Ingest | Import | PrivateCapture | Report | Cleanup | Recovery | Migration

fun requires_retention_headroom :: "storage_operation \<Rightarrow> bool" where
  "requires_retention_headroom Ingest = True"
| "requires_retention_headroom Import = True"
| "requires_retention_headroom PrivateCapture = True"
| "requires_retention_headroom _ = False"

datatype admission_arithmetic = TotalAllocated | Reservations | WorkspaceRequired | FilesystemRequired

datatype admission_rejection =
    InvalidPolicy
  | LegacyMode
  | EstimateUnavailable
  | UnknownStorage u64 u64
  | ArithmeticOverflow admission_arithmetic
  | WorkspaceOverrun u64 u64
  | WorkspaceInsufficient u64 u64
  | FilesystemInsufficient u64 u64
  | RetentionTargetReached u64 u64

subsection \<open>Evaluation\<close>

definition sum3 :: "u64 \<Rightarrow> u64 \<Rightarrow> u64 \<Rightarrow> u64 option" where
  "sum3 a b c = Option.bind (checked_add a b) (\<lambda>total. checked_add total c)"

definition evaluate_storage_admission_inner ::
  "storage_budget_policy \<Rightarrow> allocation_snapshot \<Rightarrow> admission_rejection + u64 \<Rightarrow> u64 option \<Rightarrow> u64 \<Rightarrow>
     storage_operation \<Rightarrow> admission_rejection + u64" where
  "evaluate_storage_admission_inner policy allocation reserved_total estimated free operation =
     bind_result (case validate_budget_policy policy of Inl _ \<Rightarrow> Inl InvalidPolicy | Inr u \<Rightarrow> Inr u) (\<lambda>_.
     if bp_mode policy = Legacy then Inl LegacyMode else
     bind_result (ok_or estimated EstimateUnavailable) (\<lambda>allowance.
     bind_result (ok_or (sum3 (as_retained_bytes allocation) (as_workspace_bytes allocation)
       (as_unknown_bytes allocation)) (ArithmeticOverflow TotalAllocated)) (\<lambda>_.
     bind_result reserved_total (\<lambda>reservation_bytes.
     bind_result (ok_or (sum3 (as_workspace_bytes allocation) reservation_bytes allowance)
       (ArithmeticOverflow WorkspaceRequired)) (\<lambda>workspace_required.
     bind_result (ok_or (sum3 (bp_minimum_free_bytes policy) reservation_bytes allowance)
       (ArithmeticOverflow FilesystemRequired)) (\<lambda>filesystem_required.
     if as_unknown_bytes allocation > 0 \<or> as_unknown_entry_count allocation > 0
     then Inl (UnknownStorage (as_unknown_bytes allocation) (as_unknown_entry_count allocation))
     else if as_workspace_bytes allocation > bp_workspace_budget_bytes policy
     then Inl (WorkspaceOverrun (as_workspace_bytes allocation) (bp_workspace_budget_bytes policy))
     else if workspace_required > bp_workspace_budget_bytes policy
     then Inl (WorkspaceInsufficient workspace_required (bp_workspace_budget_bytes policy))
     else if filesystem_required > free
     then Inl (FilesystemInsufficient filesystem_required free)
     else if requires_retention_headroom operation \<and>
       as_retained_bytes allocation \<ge> bp_retained_target_bytes policy
     then Inl (RetentionTargetReached (as_retained_bytes allocation) (bp_retained_target_bytes policy))
     else Inr allowance))))))"

definition evaluate_storage_admission ::
  "storage_budget_policy \<Rightarrow> allocation_snapshot \<Rightarrow> reservation_snapshot \<Rightarrow> u64 option \<Rightarrow> u64 \<Rightarrow>
     storage_operation \<Rightarrow> admission_rejection + u64" where
  "evaluate_storage_admission policy allocation reservations estimated free operation =
     evaluate_storage_admission_inner policy allocation
       (ok_or (checked_add (rs_active_bytes reservations) (rs_stale_bytes reservations))
          (ArithmeticOverflow Reservations))
       estimated free operation"

definition evaluate_storage_admission_with_reserved_total ::
  "storage_budget_policy \<Rightarrow> allocation_snapshot \<Rightarrow> u64 \<Rightarrow> u64 option \<Rightarrow> u64 \<Rightarrow>
     storage_operation \<Rightarrow> admission_rejection + u64" where
  "evaluate_storage_admission_with_reserved_total policy allocation reserved_total estimated free operation =
     evaluate_storage_admission_inner policy allocation (Inr reserved_total) estimated free operation"

subsection \<open>Lemmas\<close>

lemma sum3_eq: "sum3 a b c = (if unat a + unat b + unat c < 2 ^ 64 then Some (a + b + c) else None)"
  by (auto simp: sum3_def checked_add_def unat_word_ariths)

lemma unat_sum3:
  "unat a + unat b + unat c < 2 ^ 64 \<Longrightarrow> unat (a + b + c) = unat a + unat b + unat c" for a b c :: u64
  by (simp add: unat_word_ariths)

text \<open>An allowance that fits: what the checks add up to, over the naturals.\<close>

definition fits :: "storage_budget_policy \<Rightarrow> allocation_snapshot \<Rightarrow> nat \<Rightarrow> nat \<Rightarrow> nat \<Rightarrow> storage_operation \<Rightarrow> bool"
  where
  "fits p a reserved allowance free operation \<longleftrightarrow>
     as_unknown_bytes a = 0 \<and> as_unknown_entry_count a = 0 \<and>
     unat (as_workspace_bytes a) + reserved + allowance \<le> unat (bp_workspace_budget_bytes p) \<and>
     unat (bp_minimum_free_bytes p) + reserved + allowance \<le> free \<and>
     (requires_retention_headroom operation \<longrightarrow> as_retained_bytes a < bp_retained_target_bytes p)"

lemma inner_accepts:
  "evaluate_storage_admission_inner p a r estimated free operation = Inr n \<longleftrightarrow>
     validate_budget_policy p = Inr () \<and> bp_mode p = Separated \<and> estimated = Some n \<and>
     unat (as_retained_bytes a) + unat (as_workspace_bytes a) < 2 ^ 64 \<and>
     (\<exists>reserved. r = Inr reserved \<and> fits p a (unat reserved) (unat n) (unat free) operation)"
proof (cases "validate_budget_policy p = Inr () \<and> bp_mode p = Separated \<and> estimated = Some n \<and> (\<exists>reserved. r = Inr reserved)")
  case False
  have "bp_mode p = Legacy \<longleftrightarrow> bp_mode p \<noteq> Separated" by (cases "bp_mode p") auto
  then show ?thesis
    using False unfolding evaluate_storage_admission_inner_def
    by (cases "validate_budget_policy p"; cases r; cases estimated) (auto simp: result_simps split: if_splits)
next
  case True
  then obtain reserved where r: "r = Inr reserved" by blast
  let ?a = "unat (as_retained_bytes a) + unat (as_workspace_bytes a) + unat (as_unknown_bytes a)"
  let ?w = "unat (as_workspace_bytes a) + unat reserved + unat n"
  let ?f = "unat (bp_minimum_free_bytes p) + unat reserved + unat n"
  have bounds: "unat free < 2 ^ 64" "unat (bp_workspace_budget_bytes p) < 2 ^ 64"
    using unsigned_less [of free] unsigned_less [of "bp_workspace_budget_bytes p"] by simp_all
  have z: "0 < x \<longleftrightarrow> x \<noteq> 0" for x :: u64 by (simp add: word_neq_0_conv)
  show ?thesis
  proof (cases "?a < 2 ^ 64 \<and> ?w < 2 ^ 64 \<and> ?f < 2 ^ 64")
    case sums: True
    have u: "unat (as_workspace_bytes a + reserved + n) = ?w" "unat (bp_minimum_free_bytes p + reserved + n) = ?f"
      using sums by (simp_all only: unat_sum3)
    have "evaluate_storage_admission_inner p a r estimated free operation = Inr n \<longleftrightarrow>
        fits p a (unat reserved) (unat n) (unat free) operation"
      using True sums unfolding evaluate_storage_admission_inner_def fits_def r
      by (simp add: sum3_eq z word_less_nat_alt word_le_nat_alt not_less not_le u) (auto simp: unat_eq_zero)
    then show ?thesis using True sums r by (auto simp: fits_def)
  next
    case sums: False
    then have "evaluate_storage_admission_inner p a r estimated free operation \<noteq> Inr n"
      using True unfolding evaluate_storage_admission_inner_def r by (auto simp: sum3_eq result_simps)
    then show ?thesis using True bounds sums by (auto simp: fits_def r)
  qed
qed

subsection \<open>Properties\<close>

text \<open>C14: admission is exact: an allowance is granted, and then unchanged, exactly when the policy is a
  valid separated one, an estimate is present, nothing is unaccounted for, and the sums over the
  naturals stay inside the workspace budget and the free space, with a retained total below its
  target for the operations that add to it.  No wrap-around can make a too large request pass.\<close>

theorem admission_exact:
  "evaluate_storage_admission p a rs estimated free operation = Inr n \<longleftrightarrow>
     validate_budget_policy p = Inr () \<and> bp_mode p = Separated \<and> estimated = Some n \<and>
     unat (as_retained_bytes a) + unat (as_workspace_bytes a) < 2 ^ 64 \<and>
     fits p a (unat (rs_active_bytes rs) + unat (rs_stale_bytes rs)) (unat n) (unat free) operation"
proof -
  have "unat free < 2 ^ 64" using unsigned_less [of free] by simp
  then show ?thesis
    unfolding evaluate_storage_admission_def inner_accepts
    by (auto simp: checked_add_def fits_def unat_word_ariths ok_or_def split: if_splits)
qed

text \<open>Promises add up: two requests granted one after the other, the second against the first one's
  promise, are exactly one granted request for their sum, so admission cannot be talked into more
  than the budget by splitting a request.\<close>

lemma admission_accumulates:
  assumes "unat m + unat n < 2 ^ 64"
  shows "evaluate_storage_admission_with_reserved_total p a r (Some m) free operation = Inr m \<and>
      evaluate_storage_admission_with_reserved_total p a (r + m) (Some n) free operation = Inr n \<longleftrightarrow>
    evaluate_storage_admission_with_reserved_total p a r (Some (m + n)) free operation = Inr (m + n)"
proof -
  have mn: "unat (m + n) = unat m + unat n" using assms by (simp add: unat_word_ariths)
  have "unat free < 2 ^ 64" using unsigned_less [of free] by simp
  then have rm: "unat (r + m) = unat r + unat m" if "unat r + unat m \<le> unat free"
    using that by (simp add: unat_word_ariths)
  show ?thesis
    unfolding evaluate_storage_admission_with_reserved_total_def inner_accepts fits_def
    using rm by (auto simp: mn)
qed

end
