(* ===== verification/Dashboard_Contract.thy ===== *)
theory Dashboard_Contract
  imports Report_Contract
begin

section \<open>The dashboard query contract\<close>

text \<open>
  \<^verbatim>\<open>crates/contracts/src/dashboard.rs\<close>: the requests and responses of the local dashboard and their
  validation.  The \<open>kind\<close> markers are types with one value and have no field here.  The JSON printer
  is the parameter \<open>wire\<close>: the number of bytes it prints, or nothing when it fails.
\<close>

subsection \<open>Limits\<close>

definition DASHBOARD_QUERY_VERSION :: string where
  "DASHBOARD_QUERY_VERSION = ''agent_observability.dashboard_query.v1''"

definition REQUEST_MAX_BYTES :: nat where
  "REQUEST_MAX_BYTES = 8 * 1024"

definition RESPONSE_MAX_BYTES :: nat where
  "RESPONSE_MAX_BYTES = 1024 * 1024"

definition TRACE_PAGE_MAX_ROWS :: nat where
  "TRACE_PAGE_MAX_ROWS = 100"

definition SPAN_PAGE_MAX_ROWS :: nat where
  "SPAN_PAGE_MAX_ROWS = 200"

definition TIMELINE_MAX_ROWS :: nat where
  "TIMELINE_MAX_ROWS = 120"

definition FACET_MAX_VALUES :: nat where
  "FACET_MAX_VALUES = 500"

definition FILTER_MAX_VALUES :: nat where
  "FILTER_MAX_VALUES = 16"

definition FILTER_VALUE_MAX_CHARS :: nat where
  "FILTER_VALUE_MAX_CHARS = 256"

definition TEXT_FILTER_MAX_CHARS :: nat where
  "TEXT_FILTER_MAX_CHARS = 512"

definition CURSOR_MAX_CHARS :: nat where
  "CURSOR_MAX_CHARS = 2048"

definition GENERATED_AT_MAX_CHARS :: nat where
  "GENERATED_AT_MAX_CHARS = 64"

definition SAFE_INTEGER_MAX :: u64 where
  "SAFE_INTEGER_MAX = 9007199254740991"

definition ESTIMATED_COST_MAX :: f64 where
  "ESTIMATED_COST_MAX = f64_nat 1000000000000"

lemmas dashboard_limits = REQUEST_MAX_BYTES_def RESPONSE_MAX_BYTES_def TRACE_PAGE_MAX_ROWS_def
  SPAN_PAGE_MAX_ROWS_def TIMELINE_MAX_ROWS_def FACET_MAX_VALUES_def FILTER_MAX_VALUES_def
  FILTER_VALUE_MAX_CHARS_def TEXT_FILTER_MAX_CHARS_def CURSOR_MAX_CHARS_def GENERATED_AT_MAX_CHARS_def

subsection \<open>Requests\<close>

datatype request_kind =
  KindBootstrap | KindTraces | KindSpans | KindSummary | KindSpan | KindFacets

datatype status_reason =
  Building | RefreshPending | SnapshotExpired | Busy | Capacity | InvalidQuery

datatype snapshot_state = Current | Stale

datatype token_status = TokensComplete | TokensIncomplete | TokensUnavailable

datatype cost_status = CostEstimated | CostIncomplete | CostUnknown

datatype facet_dimension = FacetRepo | FacetSession | FacetAgent | FacetModel

datatype availability_field =
    FieldRepository | FieldSession | FieldTurn | FieldModel | FieldTokens | FieldLatency
  | FieldSourceLocation | FieldRequestContent | FieldResponseContent

record dashboard_filters =
  df_repo :: "string list"
  df_session :: "string list"
  df_agent :: "string list"
  df_model :: "string list"
  df_text :: "string option"

record bootstrap_request =
  qb_schema_version :: string
  qb_filters :: "dashboard_filters option"

record traces_request =
  qt_schema_version :: string
  qt_filters :: "dashboard_filters option"
  qt_snapshot_id :: string
  qt_cursor :: "string option"

record spans_request =
  qs_schema_version :: string
  qs_filters :: "dashboard_filters option"
  qs_snapshot_id :: string
  qs_trace_id :: string
  qs_cursor :: "string option"

record summary_request =
  qm_schema_version :: string
  qm_filters :: "dashboard_filters option"
  qm_snapshot_id :: string
  qm_cursor :: "string option"

record span_request =
  qd_schema_version :: string
  qd_filters :: "dashboard_filters option"
  qd_snapshot_id :: string
  qd_trace_id :: string
  qd_span_id :: string

record facets_request =
  qf_schema_version :: string
  qf_filters :: "dashboard_filters option"
  qf_snapshot_id :: string
  qf_cursor :: "string option"

datatype dashboard_request =
    QBootstrap bootstrap_request
  | QTraces traces_request
  | QSpans spans_request
  | QSummary summary_request
  | QSpan span_request
  | QFacets facets_request

datatype dashboard_error =
    InvalidDashboardVersion | RequestTooLarge | ResponseTooLarge | TooManyFilterValues
  | DuplicateFilterValue | EmptyString | StringTooLong | InvalidProjectedId | InvalidCursor
  | InvalidDecimalU64 | InvalidSnapshotId | InvalidNumber | InvalidScope | InvalidKpis
  | InvalidPagination | InvalidLimits | InvalidSpanDetail | InvalidAvailabilityReason
  | DuplicateAvailabilityField | TooManyRows

fun display_dashboard_error :: "dashboard_error \<Rightarrow> string" where
  "display_dashboard_error InvalidDashboardVersion = ''invalid dashboard query schema version''"
| "display_dashboard_error RequestTooLarge = ''dashboard query request exceeds the UTF-8 wire limit''"
| "display_dashboard_error ResponseTooLarge = ''dashboard query response exceeds the UTF-8 wire limit''"
| "display_dashboard_error TooManyFilterValues = ''dashboard filter contains too many values''"
| "display_dashboard_error DuplicateFilterValue = ''dashboard filter contains duplicate values''"
| "display_dashboard_error EmptyString = ''dashboard contract string is empty''"
| "display_dashboard_error StringTooLong = ''dashboard contract string exceeds its bound''"
| "display_dashboard_error InvalidProjectedId = ''dashboard projected ID is invalid''"
| "display_dashboard_error InvalidCursor = ''dashboard cursor is invalid''"
| "display_dashboard_error InvalidDecimalU64 = ''dashboard decimal counter is invalid''"
| "display_dashboard_error InvalidSnapshotId = ''dashboard snapshot ID is invalid''"
| "display_dashboard_error InvalidNumber = ''dashboard numeric value is invalid''"
| "display_dashboard_error InvalidScope = ''dashboard query scope is invalid''"
| "display_dashboard_error InvalidKpis = ''dashboard KPI state is inconsistent''"
| "display_dashboard_error InvalidPagination = ''dashboard pagination state is invalid''"
| "display_dashboard_error InvalidLimits = ''dashboard advertised limits drifted''"
| "display_dashboard_error InvalidSpanDetail = ''dashboard span detail is invalid''"
| "display_dashboard_error InvalidAvailabilityReason =
     ''dashboard availability reason is not a canonical unavailable state''"
| "display_dashboard_error DuplicateAvailabilityField =
     ''dashboard availability reasons contain a duplicate field''"
| "display_dashboard_error TooManyRows = ''dashboard response contains too many rows''"

subsection \<open>Checks of values\<close>

text \<open>The number of characters of a UTF-8 string: its bytes that do not continue a character.\<close>

definition chars_count :: "string \<Rightarrow> nat" where
  "chars_count s = length (filter (\<lambda>c. \<not> (128 \<le> byte_of c \<and> byte_of c < 192)) s)"

definition is_ascii_digit :: "char \<Rightarrow> bool" where
  "is_ascii_digit c \<longleftrightarrow> 48 \<le> byte_of c \<and> byte_of c \<le> 57"

definition is_lower_hex :: "char \<Rightarrow> bool" where
  "is_lower_hex c \<longleftrightarrow> is_ascii_digit c \<or> 97 \<le> byte_of c \<and> byte_of c \<le> 102"

definition strip_prefix :: "string \<Rightarrow> string \<Rightarrow> string option" where
  "strip_prefix p s = (if starts_with s p then Some (drop (length p) s) else None)"

definition digits_value :: "string \<Rightarrow> nat" where
  "digits_value s = foldl (\<lambda>n c. n * 10 + (byte_of c - 48)) 0 s"

definition parse_u64 :: "string \<Rightarrow> u64 option" where
  "parse_u64 s = (if s \<noteq> [] \<and> list_all is_ascii_digit s \<and> digits_value s < 2 ^ 64
     then Some (word_of_nat (digits_value s)) else None)"

definition validate_version :: "string \<Rightarrow> dashboard_error + unit" where
  "validate_version v = (if v = DASHBOARD_QUERY_VERSION then Inr () else Inl InvalidDashboardVersion)"

definition validate_nonempty_bounded :: "string \<Rightarrow> nat \<Rightarrow> dashboard_error + unit" where
  "validate_nonempty_bounded value max_chars =
     (let chars = chars_count value
      in if chars = 0 then Inl EmptyString
         else if chars > max_chars then Inl StringTooLong
         else Inr ())"

definition validate_optional_cursor :: "string option \<Rightarrow> dashboard_error + unit" where
  "validate_optional_cursor cursor = (case cursor of
       None \<Rightarrow> Inr ()
     | Some cursor \<Rightarrow>
         let chars = chars_count cursor
         in if chars = 0 \<or> chars > CURSOR_MAX_CHARS then Inl InvalidCursor else Inr ())"

definition validate_snapshot_id :: "string \<Rightarrow> dashboard_error + unit" where
  "validate_snapshot_id value =
     (if length value = 64 \<and> list_all is_lower_hex value then Inr () else Inl InvalidSnapshotId)"

definition validate_projected_id :: "string \<Rightarrow> dashboard_error + unit" where
  "validate_projected_id value = (case strip_prefix ''id:sha256:'' value of
       None \<Rightarrow> Inl InvalidProjectedId
     | Some digest \<Rightarrow>
         if length digest = 64 \<and> list_all is_lower_hex digest then Inr () else Inl InvalidProjectedId)"

definition validate_decimal_u64 :: "string \<Rightarrow> dashboard_error + u64" where
  "validate_decimal_u64 value =
     (if value = ''0'' then Inr 0
      else if starts_with value ''0'' \<or> length value > 20 \<or> \<not> list_all is_ascii_digit value
      then Inl InvalidDecimalU64
      else ok_or (parse_u64 value) InvalidDecimalU64)"

definition validate_safe_count :: "u64 \<Rightarrow> dashboard_error + unit" where
  "validate_safe_count value = (if value \<le> SAFE_INTEGER_MAX then Inr () else Inl InvalidNumber)"

definition validate_time :: "f64 \<Rightarrow> dashboard_error + unit" where
  "validate_time value = (if is_finite value \<and> f64_le f64_zero value then Inr () else Inl InvalidNumber)"

definition validate_wire_bytes :: "nat option \<Rightarrow> nat \<Rightarrow> bool \<Rightarrow> dashboard_error + unit" where
  "validate_wire_bytes printed limit request =
     bind_result (ok_or printed InvalidNumber) (\<lambda>bytes.
     if bytes \<le> limit then Inr () else Inl (if request then RequestTooLarge else ResponseTooLarge))"

subsection \<open>Validation of requests\<close>

fun validate_filter_values :: "string list \<Rightarrow> string list \<Rightarrow> dashboard_error + unit" where
  "validate_filter_values seen [] = Inr ()"
| "validate_filter_values seen (value # values) =
     bind_result (validate_nonempty_bounded value FILTER_VALUE_MAX_CHARS) (\<lambda>_.
     if value \<in> set seen then Inl DuplicateFilterValue
     else validate_filter_values (seen @ [value]) values)"

definition validate_filters :: "dashboard_filters \<Rightarrow> dashboard_error + unit" where
  "validate_filters f =
     bind_result (try_all (\<lambda>values.
         if length values > FILTER_MAX_VALUES then Inl TooManyFilterValues
         else validate_filter_values [] values)
       [df_repo f, df_session f, df_agent f, df_model f]) (\<lambda>_.
     case df_text f of None \<Rightarrow> Inr () | Some text \<Rightarrow> validate_nonempty_bounded text TEXT_FILTER_MAX_CHARS)"

definition validate_request_common :: "string \<Rightarrow> dashboard_filters option \<Rightarrow> dashboard_error + unit" where
  "validate_request_common version filters =
     bind_result (validate_version version) (\<lambda>_.
     case filters of None \<Rightarrow> Inr () | Some f \<Rightarrow> validate_filters f)"

definition validate_request ::
  "(dashboard_request \<Rightarrow> nat option) \<Rightarrow> dashboard_request \<Rightarrow> dashboard_error + unit" where
  "validate_request wire request =
     bind_result (case request of
         QBootstrap q \<Rightarrow> validate_request_common (qb_schema_version q) (qb_filters q)
       | QTraces q \<Rightarrow>
           bind_result (validate_request_common (qt_schema_version q) (qt_filters q)) (\<lambda>_.
           bind_result (validate_snapshot_id (qt_snapshot_id q)) (\<lambda>_.
           validate_optional_cursor (qt_cursor q)))
       | QSpans q \<Rightarrow>
           bind_result (validate_request_common (qs_schema_version q) (qs_filters q)) (\<lambda>_.
           bind_result (validate_snapshot_id (qs_snapshot_id q)) (\<lambda>_.
           bind_result (validate_projected_id (qs_trace_id q)) (\<lambda>_.
           validate_optional_cursor (qs_cursor q))))
       | QSummary q \<Rightarrow>
           bind_result (validate_request_common (qm_schema_version q) (qm_filters q)) (\<lambda>_.
           bind_result (validate_snapshot_id (qm_snapshot_id q)) (\<lambda>_.
           validate_optional_cursor (qm_cursor q)))
       | QSpan q \<Rightarrow>
           bind_result (validate_request_common (qd_schema_version q) (qd_filters q)) (\<lambda>_.
           bind_result (validate_snapshot_id (qd_snapshot_id q)) (\<lambda>_.
           bind_result (validate_projected_id (qd_trace_id q)) (\<lambda>_.
           validate_projected_id (qd_span_id q))))
       | QFacets q \<Rightarrow>
           bind_result (validate_request_common (qf_schema_version q) (qf_filters q)) (\<lambda>_.
           bind_result (validate_snapshot_id (qf_snapshot_id q)) (\<lambda>_.
           validate_optional_cursor (qf_cursor q)))) (\<lambda>_.
     validate_wire_bytes (wire request) REQUEST_MAX_BYTES True)"

subsection \<open>Responses\<close>

record dashboard_snapshot =
  sn_id :: string
  sn_generation :: string
  sn_visibility_epoch :: string
  sn_generated_at :: string
  sn_state :: snapshot_state

record query_scope =
  sc_filters :: dashboard_filters
  sc_selected_trace_id :: "string option"
  sc_cold_excluded :: bool

record dashboard_kpis =
  kp_sessions :: u64
  kp_turns :: u64
  kp_llm :: u64
  kp_tools :: u64
  kp_errors :: u64
  kp_input_tokens :: "u64 option"
  kp_output_tokens :: "u64 option"
  kp_total_tokens :: "u64 option"
  kp_token_status :: token_status
  kp_estimated_cost :: "f64 option"
  kp_cost_status :: cost_status
  kp_currency :: "string option"

datatype dashboard_work = WorkPending | WorkComplete dashboard_kpis

record pagination =
  pg_next_cursor :: "string option"
  pg_total :: "u64 option"

record availability_reason =
  ar_field :: availability_field
  ar_availability :: field_availability

record trace_row =
  tr_trace_id :: string
  tr_repo :: string
  tr_span_count :: u64
  tr_error_count :: u64
  tr_start_time_unix_ms :: f64
  tr_end_time_unix_ms :: "f64 option"
  tr_availability_reasons :: "availability_reason list"

record span_row =
  sr_trace_id :: string
  sr_span_id :: string
  sr_parent_span_id :: "string option"
  sr_kind :: string
  sr_name :: string
  sr_status :: string
  sr_start_time_unix_ms :: f64
  sr_end_time_unix_ms :: "f64 option"
  sr_repo :: string
  sr_agent :: "string option"
  sr_model :: "string option"
  sr_session_id :: "string option"
  sr_turn_id :: "string option"
  sr_tool_name :: "string option"
  sr_availability_reasons :: "availability_reason list"

record facet_row =
  fr_dimension :: facet_dimension
  fr_value :: string

record query_limits =
  ql_trace_rows :: u16
  ql_span_rows :: u16
  ql_timeline_rows :: u16
  ql_facet_values :: u16
  ql_request_bytes :: u32
  ql_response_bytes :: u32

definition query_limits_default :: query_limits where
  "query_limits_default = \<lparr>
     ql_trace_rows = word_of_nat TRACE_PAGE_MAX_ROWS, ql_span_rows = word_of_nat SPAN_PAGE_MAX_ROWS,
     ql_timeline_rows = word_of_nat TIMELINE_MAX_ROWS, ql_facet_values = word_of_nat FACET_MAX_VALUES,
     ql_request_bytes = word_of_nat REQUEST_MAX_BYTES, ql_response_bytes = word_of_nat RESPONSE_MAX_BYTES\<rparr>"

text \<open>Every response but the status one starts with the same four fields.\<close>

record response_common =
  rc_schema_version :: string
  rc_snapshot :: dashboard_snapshot
  rc_scope :: query_scope
  rc_work :: dashboard_work

record bootstrap_response = response_common +
  rb_limits :: query_limits

record traces_response = response_common +
  rt_rows :: "trace_row list"
  rt_pagination :: pagination

record spans_response = response_common +
  rs_rows :: "span_row list"
  rs_pagination :: pagination

record summary_response = response_common +
  rm_pagination :: pagination

record span_response = response_common +
  rd_detail :: report_span_v2

record facets_response = response_common +
  rf_rows :: "facet_row list"
  rf_pagination :: pagination

record status_response =
  rx_schema_version :: string
  rx_request_kind :: request_kind
  rx_reason :: status_reason
  rx_snapshot :: "dashboard_snapshot option"

datatype dashboard_response =
    RBootstrap bootstrap_response
  | RTraces traces_response
  | RSpans spans_response
  | RSummary summary_response
  | RSpan span_response
  | RFacets facets_response
  | RStatus status_response

subsection \<open>Validation of responses\<close>

definition validate_snapshot :: "dashboard_snapshot \<Rightarrow> dashboard_error + unit" where
  "validate_snapshot s =
     bind_result (validate_snapshot_id (sn_id s)) (\<lambda>_.
     bind_result (validate_decimal_u64 (sn_generation s)) (\<lambda>_.
     bind_result (validate_decimal_u64 (sn_visibility_epoch s)) (\<lambda>_.
     validate_nonempty_bounded (sn_generated_at s) GENERATED_AT_MAX_CHARS)))"

definition validate_scope :: "query_scope \<Rightarrow> dashboard_error + unit" where
  "validate_scope s =
     bind_result (validate_filters (sc_filters s)) (\<lambda>_.
     bind_result (case sc_selected_trace_id s of None \<Rightarrow> Inr () | Some i \<Rightarrow> validate_projected_id i) (\<lambda>_.
     if \<not> sc_cold_excluded s then Inl InvalidScope else Inr ()))"

definition validate_estimated_cost :: "f64 option \<Rightarrow> dashboard_error + unit" where
  "validate_estimated_cost value = (case value of
       None \<Rightarrow> Inl InvalidKpis
     | Some value \<Rightarrow>
         if \<not> is_finite value \<or> \<not> (f64_le f64_zero value \<and> f64_le value ESTIMATED_COST_MAX)
         then Inl InvalidNumber else Inr ())"

definition validate_optional_required_string :: "string option \<Rightarrow> nat \<Rightarrow> dashboard_error + unit" where
  "validate_optional_required_string value max_chars = (case value of
       None \<Rightarrow> Inl InvalidKpis
     | Some value \<Rightarrow> validate_nonempty_bounded value max_chars)"

definition validate_kpis :: "dashboard_kpis \<Rightarrow> dashboard_error + unit" where
  "validate_kpis k =
     bind_result (try_all validate_safe_count
       [kp_sessions k, kp_turns k, kp_llm k, kp_tools k, kp_errors k]) (\<lambda>_.
     bind_result (try_all validate_safe_count
       (present [kp_input_tokens k, kp_output_tokens k, kp_total_tokens k])) (\<lambda>_.
     bind_result (case kp_token_status k of
         TokensComplete \<Rightarrow> if kp_total_tokens k = None then Inl InvalidKpis else Inr ()
       | TokensIncomplete \<Rightarrow> if kp_total_tokens k \<noteq> None then Inl InvalidKpis else Inr ()
       | TokensUnavailable \<Rightarrow>
           if kp_input_tokens k \<noteq> None \<or> kp_output_tokens k \<noteq> None \<or> kp_total_tokens k \<noteq> None
           then Inl InvalidKpis else Inr ()) (\<lambda>_.
     case kp_cost_status k of
         CostEstimated \<Rightarrow>
           bind_result (validate_estimated_cost (kp_estimated_cost k)) (\<lambda>_.
           validate_optional_required_string (kp_currency k) 16)
       | CostIncomplete \<Rightarrow>
           bind_result (if kp_estimated_cost k \<noteq> None then validate_estimated_cost (kp_estimated_cost k)
             else Inr ()) (\<lambda>_.
           case kp_currency k of None \<Rightarrow> Inr () | Some currency \<Rightarrow> validate_nonempty_bounded currency 16)
       | CostUnknown \<Rightarrow>
           if kp_estimated_cost k \<noteq> None \<or> kp_currency k \<noteq> None then Inl InvalidKpis else Inr ())))"

definition validate_work :: "dashboard_work \<Rightarrow> dashboard_error + unit" where
  "validate_work w = (case w of WorkPending \<Rightarrow> Inr () | WorkComplete k \<Rightarrow> validate_kpis k)"

definition validate_response_common :: "'a response_common_scheme \<Rightarrow> dashboard_error + unit" where
  "validate_response_common r =
     bind_result (validate_version (rc_schema_version r)) (\<lambda>_.
     bind_result (validate_snapshot (rc_snapshot r)) (\<lambda>_.
     bind_result (validate_scope (rc_scope r)) (\<lambda>_.
     validate_work (rc_work r))))"

definition validate_pagination :: "pagination \<Rightarrow> dashboard_error + unit" where
  "validate_pagination p =
     bind_result (validate_optional_cursor (pg_next_cursor p)) (\<lambda>_.
     case pg_total p of None \<Rightarrow> Inr ()
     | Some total_rows \<Rightarrow>
         (case validate_safe_count total_rows of Inl _ \<Rightarrow> Inl InvalidPagination | Inr u \<Rightarrow> Inr u))"

fun validate_reason_loop ::
  "availability_reason list \<Rightarrow> availability_reason list \<Rightarrow> dashboard_error + unit" where
  "validate_reason_loop prior [] = Inr ()"
| "validate_reason_loop prior (reason # reasons) =
     (if fa_state (ar_availability reason) = Available \<or> \<not> valid_availability_reason (ar_availability reason)
      then Inl InvalidAvailabilityReason
      else if list_ex (\<lambda>p. ar_field p = ar_field reason) prior then Inl DuplicateAvailabilityField
      else validate_reason_loop (prior @ [reason]) reasons)"

definition validate_availability_reasons :: "availability_reason list \<Rightarrow> dashboard_error + unit" where
  "validate_availability_reasons reasons =
     (if length reasons > 9 then Inl TooManyRows else validate_reason_loop [] reasons)"

definition validate_trace_row :: "trace_row \<Rightarrow> dashboard_error + unit" where
  "validate_trace_row row =
     bind_result (validate_projected_id (tr_trace_id row)) (\<lambda>_.
     bind_result (validate_nonempty_bounded (tr_repo row) FILTER_VALUE_MAX_CHARS) (\<lambda>_.
     bind_result (validate_safe_count (tr_span_count row)) (\<lambda>_.
     bind_result (validate_safe_count (tr_error_count row)) (\<lambda>_.
     bind_result (validate_time (tr_start_time_unix_ms row)) (\<lambda>_.
     bind_result (try_all validate_time (present [tr_end_time_unix_ms row])) (\<lambda>_.
     validate_availability_reasons (tr_availability_reasons row)))))))"

definition validate_span_row :: "span_row \<Rightarrow> dashboard_error + unit" where
  "validate_span_row row =
     bind_result (validate_projected_id (sr_trace_id row)) (\<lambda>_.
     bind_result (validate_projected_id (sr_span_id row)) (\<lambda>_.
     bind_result (try_all validate_projected_id (present [sr_parent_span_id row])) (\<lambda>_.
     bind_result (validate_nonempty_bounded (sr_kind row) 64) (\<lambda>_.
     bind_result (validate_nonempty_bounded (sr_name row) FILTER_VALUE_MAX_CHARS) (\<lambda>_.
     bind_result (validate_nonempty_bounded (sr_status row) 64) (\<lambda>_.
     bind_result (validate_time (sr_start_time_unix_ms row)) (\<lambda>_.
     bind_result (try_all validate_time (present [sr_end_time_unix_ms row])) (\<lambda>_.
     bind_result (validate_nonempty_bounded (sr_repo row) FILTER_VALUE_MAX_CHARS) (\<lambda>_.
     bind_result (try_all (\<lambda>(value, max_chars). case value of None \<Rightarrow> Inr ()
         | Some value \<Rightarrow> validate_nonempty_bounded value max_chars)
       [(sr_agent row, 128), (sr_model row, FILTER_VALUE_MAX_CHARS), (sr_tool_name row, 128)]) (\<lambda>_.
     bind_result (try_all validate_projected_id (present [sr_session_id row, sr_turn_id row])) (\<lambda>_.
     validate_availability_reasons (sr_availability_reasons row))))))))))))"

definition validate_response ::
  "(dashboard_response \<Rightarrow> nat option) \<Rightarrow> dashboard_response \<Rightarrow> dashboard_error + unit" where
  "validate_response wire response =
     bind_result (case response of
         RBootstrap r \<Rightarrow>
           bind_result (validate_response_common r) (\<lambda>_.
           if rb_limits r \<noteq> query_limits_default then Inl InvalidLimits else Inr ())
       | RTraces r \<Rightarrow>
           bind_result (validate_response_common r) (\<lambda>_.
           bind_result (validate_pagination (rt_pagination r)) (\<lambda>_.
           if length (rt_rows r) > TRACE_PAGE_MAX_ROWS then Inl TooManyRows
           else try_all validate_trace_row (rt_rows r)))
       | RSpans r \<Rightarrow>
           bind_result (validate_response_common r) (\<lambda>_.
           bind_result (validate_pagination (rs_pagination r)) (\<lambda>_.
           if length (rs_rows r) > SPAN_PAGE_MAX_ROWS then Inl TooManyRows
           else try_all validate_span_row (rs_rows r)))
       | RSummary r \<Rightarrow>
           bind_result (validate_response_common r) (\<lambda>_.
           bind_result (validate_pagination (rm_pagination r)) (\<lambda>_.
           case (rc_work r, pg_next_cursor (rm_pagination r)) of
             (WorkPending, Some _) \<Rightarrow> Inr ()
           | (WorkComplete _, None) \<Rightarrow> Inr ()
           | _ \<Rightarrow> Inl InvalidPagination))
       | RSpan r \<Rightarrow>
           bind_result (validate_response_common r) (\<lambda>_.
           bind_result (validate_projected_id (sp_trace_id (rd_detail r))) (\<lambda>_.
           bind_result (validate_projected_id (sp_span_id (rd_detail r))) (\<lambda>_.
           bind_result (try_all validate_projected_id (present [sp_parent_span_id (rd_detail r)])) (\<lambda>_.
           case validate_report_span (rd_detail r) of Inl _ \<Rightarrow> Inl InvalidSpanDetail | Inr u \<Rightarrow> Inr u))))
       | RFacets r \<Rightarrow>
           bind_result (validate_response_common r) (\<lambda>_.
           bind_result (validate_pagination (rf_pagination r)) (\<lambda>_.
           if length (rf_rows r) > FACET_MAX_VALUES then Inl TooManyRows
           else try_all (\<lambda>row. validate_nonempty_bounded (fr_value row) FILTER_VALUE_MAX_CHARS) (rf_rows r)))
       | RStatus r \<Rightarrow>
           bind_result (validate_version (rx_schema_version r)) (\<lambda>_.
           try_all validate_snapshot (present [rx_snapshot r]))) (\<lambda>_.
     validate_wire_bytes (wire response) RESPONSE_MAX_BYTES False)"

subsection \<open>Lemmas\<close>

lemma validate_nonempty_bounded_iff [simp]:
  "validate_nonempty_bounded v n = Inr () \<longleftrightarrow> chars_count v \<in> {1..n}"
  by (auto simp: validate_nonempty_bounded_def Let_def)

lemma validate_safe_count_iff [simp]:
  "validate_safe_count v = Inr () \<longleftrightarrow> unat v \<le> 9007199254740991"
  by (simp add: validate_safe_count_def SAFE_INTEGER_MAX_def word_le_nat_alt)

lemma validate_filter_values_iff:
  "validate_filter_values seen vs = Inr () \<longleftrightarrow>
     (\<forall>v \<in> set vs. chars_count v \<in> {1..256}) \<and> distinct vs \<and> set vs \<inter> set seen = {}"
  by (induction seen vs rule: validate_filter_values.induct)
    (auto simp: result_simps FILTER_VALUE_MAX_CHARS_def)

definition filters_ok :: "dashboard_filters \<Rightarrow> bool" where
  "filters_ok f \<longleftrightarrow>
     (\<forall>vs \<in> {df_repo f, df_session f, df_agent f, df_model f}.
        length vs \<le> 16 \<and> distinct vs \<and> (\<forall>v \<in> set vs. chars_count v \<in> {1..256})) \<and>
     (\<forall>t. df_text f = Some t \<longrightarrow> chars_count t \<in> {1..512})"

lemma validate_filters_iff: "validate_filters f = Inr () \<longleftrightarrow> filters_ok f"
  by (auto simp: validate_filters_def filters_ok_def result_simps validate_filter_values_iff dashboard_limits
    split: option.splits if_splits)

definition lower_hex64 :: "string \<Rightarrow> bool" where
  "lower_hex64 s \<longleftrightarrow> length s = 64 \<and> list_all is_lower_hex s"

definition projected_id :: "string \<Rightarrow> bool" where
  "projected_id s \<longleftrightarrow> (\<exists>d. s = ''id:sha256:'' @ d \<and> lower_hex64 d)"

lemma validate_snapshot_id_iff [simp]: "validate_snapshot_id s = Inr () \<longleftrightarrow> lower_hex64 s"
  by (simp add: validate_snapshot_id_def lower_hex64_def)

lemma validate_projected_id_iff [simp]: "validate_projected_id s = Inr () \<longleftrightarrow> projected_id s"
  by (auto simp: validate_projected_id_def strip_prefix_def projected_id_def lower_hex64_def starts_with_iff)

lemma validate_optional_cursor_iff [simp]:
  "validate_optional_cursor c = Inr () \<longleftrightarrow> (\<forall>s. c = Some s \<longrightarrow> chars_count s \<in> {1..2048})"
  by (auto simp: validate_optional_cursor_def Let_def CURSOR_MAX_CHARS_def split: option.splits)

lemma validate_wire_bytes_iff [simp]:
  "validate_wire_bytes w limit q = Inr () \<longleftrightarrow> (\<exists>n. w = Some n \<and> n \<le> limit)"
  by (auto simp: validate_wire_bytes_def result_simps)

lemma validate_version_iff [simp]: "validate_version v = Inr () \<longleftrightarrow> v = DASHBOARD_QUERY_VERSION"
  by (simp add: validate_version_def)

lemma validate_request_common_iff [simp]:
  "validate_request_common v fs = Inr () \<longleftrightarrow>
     v = DASHBOARD_QUERY_VERSION \<and> (\<forall>f. fs = Some f \<longrightarrow> filters_ok f)"
  by (auto simp: validate_request_common_def result_simps validate_filters_iff split: option.splits)

subsection \<open>Decimal counters\<close>

lemma byte_of_digit [simp]: "n < 10 \<Longrightarrow> byte_of (digit n) = 48 + n"
  by (simp add: digit_def byte_of_def)

lemma digit_byte: "is_ascii_digit c \<Longrightarrow> digit (byte_of c - 48) = c"
  by (simp add: digit_def byte_of_def is_ascii_digit_def)

lemma byte_of_zero [simp]: "byte_of CHR ''0'' = 48"
  by code_simp

lemma digit_zero [simp]: "digit n = CHR ''0'' \<longleftrightarrow> n = 0" if "n < 10"
proof
  assume "digit n = CHR ''0''"
  then have "byte_of (digit n) = byte_of CHR ''0''" by simp
  then show "n = 0" using that by simp
next
  assume "n = 0"
  then show "digit n = CHR ''0''" using digit_byte [of "CHR ''0''"] by (simp add: is_ascii_digit_def)
qed

lemma decimal_zero [simp]: "decimal 0 = ''0''"
  by (simp add: decimal.simps [of 0])

lemma digits_value_snoc [simp]: "digits_value (s @ [c]) = digits_value s * 10 + (byte_of c - 48)"
  by (simp add: digits_value_def)

lemma digits_value_Nil [simp]: "digits_value [] = 0"
  by (simp add: digits_value_def)

lemma decimal_digits: "list_all is_ascii_digit (decimal n) \<and> digits_value (decimal n) = n"
proof (induction n rule: decimal.induct)
  case (1 n)
  show ?case
  proof (cases "n < 10")
    case True
    then show ?thesis
      using digits_value_snoc [of "[]" "digit n"] by (simp add: decimal.simps [of n] is_ascii_digit_def)
  next
    case False
    have "is_ascii_digit (digit (n mod 10))" by (simp add: is_ascii_digit_def less_Suc_eq_le [symmetric])
    then show ?thesis using 1 False by (subst (1 2) decimal.simps) simp
  qed
qed

lemma decimal_length: "n < 10 ^ k \<Longrightarrow> 0 < k \<Longrightarrow> length (decimal n) \<le> k"
proof (induction k arbitrary: n)
  case (Suc k)
  show ?case
  proof (cases "n < 10")
    case True
    then show ?thesis by (simp add: decimal.simps [of n])
  next
    case False
    then have "0 < k" using Suc.prems by (cases k) auto
    moreover have "n div 10 < 10 ^ k" using Suc.prems by simp
    ultimately show ?thesis using Suc.IH [of "n div 10"] False by (simp add: decimal.simps [of n])
  qed
qed simp

lemma digits_value_pos: "list_all is_ascii_digit s \<Longrightarrow> s \<noteq> [] \<Longrightarrow> hd s \<noteq> CHR ''0'' \<Longrightarrow> 0 < digits_value s"
proof (induction s rule: rev_induct)
  case (snoc c s)
  show ?case
  proof (cases "s = []")
    case True
    have "byte_of c \<noteq> 48"
      using snoc.prems True digit_byte [of c] digit_zero [of 0] by auto
    then show ?thesis using snoc.prems True by (auto simp: is_ascii_digit_def digits_value_def)
  qed (use snoc in auto)
qed simp

lemma decimal_of_digits:
  "list_all is_ascii_digit s \<Longrightarrow> s \<noteq> [] \<Longrightarrow> hd s \<noteq> CHR ''0'' \<Longrightarrow> decimal (digits_value s) = s"
proof (induction s rule: rev_induct)
  case (snoc c s)
  have c: "is_ascii_digit c" "byte_of c - 48 < 10" using snoc.prems by (auto simp: is_ascii_digit_def)
  show ?case
  proof (cases "s = []")
    case True
    then show ?thesis using c digit_byte [of c] by (simp add: decimal.simps [of "byte_of c - 48"] digits_value_def)
  next
    case False
    have pos: "0 < digits_value s" using snoc.prems False by (intro digits_value_pos) auto
    have "\<not> digits_value s * 10 + (byte_of c - 48) < 10" using pos by simp
    moreover have "(digits_value s * 10 + (byte_of c - 48)) div 10 = digits_value s"
      "(digits_value s * 10 + (byte_of c - 48)) mod 10 = byte_of c - 48"
      using c(2) by simp_all
    moreover have "decimal (digits_value s) = s" using snoc False by auto
    ultimately show ?thesis
      using digit_byte [OF c(1)] by (subst digits_value_snoc, subst decimal.simps) simp
  qed
qed simp

lemma decimal_hd: "0 < n \<Longrightarrow> hd (decimal n) \<noteq> CHR ''0''"
proof (induction n rule: decimal.induct)
  case (1 n)
  show ?case
  proof (cases "n < 10")
    case True
    then show ?thesis using 1 by (simp add: decimal.simps [of n])
  next
    case False
    then show ?thesis using 1 decimal_not_empty by (simp add: decimal.simps [of n])
  qed
qed

text \<open>Generations and epochs have one spelling: a counter is accepted exactly when it is the decimal
  numeral of a 64-bit number, and it is read back as that number.\<close>

lemma decimal_u64_roundtrip: "validate_decimal_u64 s = Inr n \<longleftrightarrow> s = decimal (unat n)"
proof
  assume v: "validate_decimal_u64 s = Inr n"
  show "s = decimal (unat n)"
  proof (cases "s = ''0''")
    case True
    then show ?thesis
      using v by (simp add: validate_decimal_u64_def)
  next
    case False
    then have "\<not> starts_with s ''0''" "list_all is_ascii_digit s" "s \<noteq> []" "digits_value s < 2 ^ 64"
      "n = word_of_nat (digits_value s)"
      using v by (auto simp: validate_decimal_u64_def parse_u64_def split: if_splits)
    moreover from this have "hd s \<noteq> CHR ''0''" by (cases s) auto
    ultimately show ?thesis by (simp add: decimal_of_digits unat_of_nat)
  qed
next
  assume s: "s = decimal (unat n)"
  show "validate_decimal_u64 s = Inr n"
  proof (cases "unat n = 0")
    case True
    then show ?thesis using s by (simp add: validate_decimal_u64_def unat_eq_zero)
  next
    case False
    have "unat n < 2 ^ 64" using unsigned_less [of n, where 'a = nat] by simp
    moreover from this have "length s \<le> 20" unfolding s by (intro decimal_length) simp_all
    moreover have "\<not> starts_with s ''0''"
      using decimal_hd [of "unat n"] False decimal_not_empty by (cases s) (auto simp: s)
    ultimately show ?thesis
      using decimal_digits [of "unat n"] decimal_not_empty [of "unat n"]
      by (auto simp: validate_decimal_u64_def parse_u64_def s)
  qed
qed

subsection \<open>Acceptance of requests\<close>

text \<open>What a request carries, whatever its kind.\<close>

fun request_version :: "dashboard_request \<Rightarrow> string" where
  "request_version (QBootstrap q) = qb_schema_version q"
| "request_version (QTraces q) = qt_schema_version q"
| "request_version (QSpans q) = qs_schema_version q"
| "request_version (QSummary q) = qm_schema_version q"
| "request_version (QSpan q) = qd_schema_version q"
| "request_version (QFacets q) = qf_schema_version q"

fun request_filters :: "dashboard_request \<Rightarrow> dashboard_filters list" where
  "request_filters (QBootstrap q) = present [qb_filters q]"
| "request_filters (QTraces q) = present [qt_filters q]"
| "request_filters (QSpans q) = present [qs_filters q]"
| "request_filters (QSummary q) = present [qm_filters q]"
| "request_filters (QSpan q) = present [qd_filters q]"
| "request_filters (QFacets q) = present [qf_filters q]"

fun request_snapshots :: "dashboard_request \<Rightarrow> string list" where
  "request_snapshots (QBootstrap q) = []"
| "request_snapshots (QTraces q) = [qt_snapshot_id q]"
| "request_snapshots (QSpans q) = [qs_snapshot_id q]"
| "request_snapshots (QSummary q) = [qm_snapshot_id q]"
| "request_snapshots (QSpan q) = [qd_snapshot_id q]"
| "request_snapshots (QFacets q) = [qf_snapshot_id q]"

fun request_ids :: "dashboard_request \<Rightarrow> string list" where
  "request_ids (QSpans q) = [qs_trace_id q]"
| "request_ids (QSpan q) = [qd_trace_id q, qd_span_id q]"
| "request_ids _ = []"

fun request_cursors :: "dashboard_request \<Rightarrow> string list" where
  "request_cursors (QTraces q) = present [qt_cursor q]"
| "request_cursors (QSpans q) = present [qs_cursor q]"
| "request_cursors (QSummary q) = present [qm_cursor q]"
| "request_cursors (QFacets q) = present [qf_cursor q]"
| "request_cursors _ = []"

lemma list_all_present: "list_all P (present [v]) \<longleftrightarrow> (\<forall>a. v = Some a \<longrightarrow> P a)"
  by (auto simp: list_all_iff)

text \<open>C17: a dashboard request is accepted exactly when it has the contract's version, every filter list has
  at most sixteen distinct values of bounded length, its snapshot is 64 lower-case hexadecimal
  digits, its identifiers are hashed ones, its cursor is bounded and it prints to at most 8 KiB.\<close>

theorem dashboard_request_accepts:
  "validate_request wire q = Inr () \<longleftrightarrow>
     request_version q = DASHBOARD_QUERY_VERSION \<and> list_all filters_ok (request_filters q) \<and>
     list_all lower_hex64 (request_snapshots q) \<and> list_all projected_id (request_ids q) \<and>
     list_all (\<lambda>c. chars_count c \<in> {1..2048}) (request_cursors q) \<and>
     (\<exists>n. wire q = Some n \<and> n \<le> 8192)"
  by (cases q) (auto simp: validate_request_def result_simps list_all_present REQUEST_MAX_BYTES_def)

end
