(* ===== verification/Dashboard_Summary.thy ===== *)
theory Dashboard_Summary
  imports Dashboard_Contract Report_Laws
begin

section \<open>The dashboard summary\<close>

text \<open>
  \<^verbatim>\<open>crates/application/src/dashboard_summary.rs\<close>: the constant-space accumulator of the dashboard's key
  figures.  \<^verbatim>\<open>push\<close> updates a clone and drops it on an error, so a rejected span leaves the
  accumulator as it was; here the checked update returns the clone or the error.
\<close>

datatype summary_capacity_exceeded = SummaryCapacityExceeded

record accumulator =
  da_llm :: u64
  da_tools :: u64
  da_errors :: u64
  da_input :: u64
  da_output :: u64
  da_incomplete_input :: bool
  da_incomplete_output :: bool
  da_tokens :: u64
  da_complete_tokens :: bool
  da_incomplete_tokens :: bool
  da_estimated :: bool
  da_incomplete_cost :: bool
  da_unknown_cost :: bool
  da_cost :: f64
  da_currency :: "string option"
  da_mixed_currency :: bool

definition accumulator_default :: accumulator where
  "accumulator_default = \<lparr>da_llm = 0, da_tools = 0, da_errors = 0, da_input = 0, da_output = 0,
     da_incomplete_input = False, da_incomplete_output = False, da_tokens = 0,
     da_complete_tokens = False, da_incomplete_tokens = False, da_estimated = False,
     da_incomplete_cost = False, da_unknown_cost = False, da_cost = f64_zero, da_currency = None,
     da_mixed_currency = False\<rparr>"

definition option_or :: "'a option \<Rightarrow> 'a option \<Rightarrow> 'a option" where
  "option_or a b = (case a of None \<Rightarrow> b | Some _ \<Rightarrow> a)"

definition zip_sum :: "f64 option \<Rightarrow> f64 option \<Rightarrow> f64 option" where
  "zip_sum a b = (case (a, b) of (Some x, Some y) \<Rightarrow> Some (f64_add x y) | _ \<Rightarrow> None)"

definition dashboard_token_total :: "report_metrics \<Rightarrow> f64 option" where
  "dashboard_token_total m =
     option_or (option_or (option_or (zip_sum (rm_input_tokens m) (rm_output_tokens m)) (rm_total_tokens m))
       (zip_sum (rm_total_input_tokens m) (rm_total_output_tokens m))) (rm_total_accumulated_tokens m)"

definition increment :: "u64 \<Rightarrow> u64 \<Rightarrow> summary_capacity_exceeded + u64" where
  "increment value amount = (case checked_add value amount of
       Some total_value \<Rightarrow> if total_value \<le> SAFE_INTEGER_MAX then Inr total_value else Inl SummaryCapacityExceeded
     | None \<Rightarrow> Inl SummaryCapacityExceeded)"

definition token_integer :: "f64 \<Rightarrow> summary_capacity_exceeded + u64" where
  "token_integer value =
     (if \<not> is_finite value \<or> \<not> (f64_le f64_zero value \<and> f64_le value (f64_nat 9007199254740991)) \<or>
         fract_nonzero value
      then Inl SummaryCapacityExceeded
      else Inr (f64_as_u64 value))"

definition accumulate_component ::
  "u64 \<times> bool \<Rightarrow> f64 option \<Rightarrow> summary_capacity_exceeded + u64 \<times> bool" where
  "accumulate_component p value = (case p of (acc, incomplete) \<Rightarrow>
     (case value of
        Some value \<Rightarrow>
          bind_result (token_integer value) (\<lambda>n.
          bind_result (increment acc n) (\<lambda>acc. Inr (acc, incomplete)))
      | None \<Rightarrow> Inr (acc, True)))"

definition token_state :: "report_span_v2 \<Rightarrow> availability_state" where
  "token_state s = fa_state (av_tokens (sp_availability s))"

definition push_counts :: "report_span_v2 \<Rightarrow> accumulator \<Rightarrow> summary_capacity_exceeded + accumulator" where
  "push_counts sp a =
     bind_result (if sp_kind sp = LlmRequest then increment (da_llm a) 1 else Inr (da_llm a)) (\<lambda>llm.
     bind_result (if sp_kind sp = ToolExecution then increment (da_tools a) 1 else Inr (da_tools a)) (\<lambda>tools.
     bind_result (if sp_status sp = StatusError then increment (da_errors a) 1 else Inr (da_errors a)) (\<lambda>errors.
     Inr (a\<lparr>da_llm := llm, da_tools := tools, da_errors := errors\<rparr>))))"

definition push_components :: "report_span_v2 \<Rightarrow> accumulator \<Rightarrow> summary_capacity_exceeded + accumulator" where
  "push_components sp a =
     (if token_state sp \<noteq> NotApplicable then
        bind_result (accumulate_component (da_input a, da_incomplete_input a)
          (rm_input_tokens (sp_metrics sp))) (\<lambda>(inp, incomplete_input).
        bind_result (accumulate_component (da_output a, da_incomplete_output a)
          (rm_output_tokens (sp_metrics sp))) (\<lambda>(out, incomplete_output).
        Inr (a\<lparr>da_input := inp, da_incomplete_input := incomplete_input,
          da_output := out, da_incomplete_output := incomplete_output\<rparr>)))
      else Inr a)"

definition push_tokens :: "report_span_v2 \<Rightarrow> accumulator \<Rightarrow> summary_capacity_exceeded + accumulator" where
  "push_tokens sp a =
     (case (dashboard_token_total (sp_metrics sp), token_state sp = Available) of
        (Some total_tokens, True) \<Rightarrow>
          bind_result (token_integer total_tokens) (\<lambda>n.
          bind_result (increment (da_tokens a) n) (\<lambda>tokens.
          Inr (a\<lparr>da_tokens := tokens, da_complete_tokens := True\<rparr>)))
      | _ \<Rightarrow> Inr (if token_state sp \<noteq> NotApplicable then a\<lparr>da_incomplete_tokens := True\<rparr> else a))"

definition billable :: "report_span_v2 \<Rightarrow> bool" where
  "billable sp \<longleftrightarrow> dashboard_token_total (sp_metrics sp) \<noteq> None \<or>
     rm_cached_input_tokens (sp_metrics sp) \<noteq> None \<or>
     rm_cache_creation_input_tokens (sp_metrics sp) \<noteq> None \<or>
     rm_reasoning_output_tokens (sp_metrics sp) \<noteq> None"

definition push_status :: "report_span_v2 \<Rightarrow> accumulator \<Rightarrow> accumulator" where
  "push_status sp a =
     (if billable sp then
        if ce_status (sp_cost sp) = ''estimated'' then a\<lparr>da_estimated := True\<rparr>
        else if ce_status (sp_cost sp) = ''incomplete'' then a\<lparr>da_incomplete_cost := True\<rparr>
        else a\<lparr>da_unknown_cost := True\<rparr>
      else a)"

definition iso_currency :: "string \<Rightarrow> bool" where
  "iso_currency c \<longleftrightarrow> length c = 3 \<and> list_all (\<lambda>b. 65 \<le> byte_of b \<and> byte_of b \<le> 90) c"

definition push_cost :: "report_span_v2 \<Rightarrow> accumulator \<Rightarrow> summary_capacity_exceeded + accumulator" where
  "push_cost sp a = (case sp_estimated_cost sp of
       None \<Rightarrow> Inr a
     | Some cost \<Rightarrow>
         if \<not> is_finite cost \<or> f64_lt cost f64_zero then Inl SummaryCapacityExceeded
         else
           let a = a\<lparr>da_cost := f64_add (da_cost a) cost\<rparr>
           in if \<not> is_finite (da_cost a) \<or> f64_lt ESTIMATED_COST_MAX (da_cost a)
              then Inl SummaryCapacityExceeded
              else case ce_currency (sp_cost sp) of
                Some currency \<Rightarrow>
                  if \<not> iso_currency currency then Inl SummaryCapacityExceeded
                  else Inr (case da_currency a of
                      Some previous \<Rightarrow> if previous \<noteq> currency then a\<lparr>da_mixed_currency := True\<rparr> else a
                    | None \<Rightarrow> a\<lparr>da_currency := Some currency\<rparr>)
              | None \<Rightarrow> Inr (a\<lparr>da_mixed_currency := True\<rparr>))"

definition push_checked :: "report_span_v2 \<Rightarrow> accumulator \<Rightarrow> summary_capacity_exceeded + accumulator" where
  "push_checked sp a =
     bind_result (push_counts sp a) (\<lambda>a.
     bind_result (push_components sp a) (\<lambda>a.
     bind_result (push_tokens sp a) (\<lambda>a.
     push_cost sp (push_status sp a))))"

definition push :: "report_span_v2 \<Rightarrow> accumulator \<Rightarrow> accumulator \<times> summary_capacity_exceeded option" where
  "push sp a = (case push_checked sp a of Inl e \<Rightarrow> (a, Some e) | Inr next_a \<Rightarrow> (next_a, None))"

definition finish :: "accumulator \<Rightarrow> u64 \<Rightarrow> u64 \<Rightarrow> summary_capacity_exceeded + dashboard_kpis" where
  "finish a sessions turns =
     (if sessions > SAFE_INTEGER_MAX \<or> turns > SAFE_INTEGER_MAX then Inl SummaryCapacityExceeded
      else
        let token_status = (if da_incomplete_tokens a then TokensIncomplete
              else if da_complete_tokens a then TokensComplete else TokensUnavailable);
            cost_status = (if \<not> da_estimated a \<and> \<not> da_incomplete_cost a then CostUnknown
              else if da_incomplete_cost a \<or> da_unknown_cost a \<or> da_mixed_currency a then CostIncomplete
              else CostEstimated);
            known_cost = (cost_status \<noteq> CostUnknown \<and> \<not> da_mixed_currency a)
        in Inr \<lparr>kp_sessions = sessions, kp_turns = turns, kp_llm = da_llm a, kp_tools = da_tools a,
          kp_errors = da_errors a,
          kp_input_tokens = (if token_status \<noteq> TokensUnavailable \<and> \<not> da_incomplete_input a
            then Some (da_input a) else None),
          kp_output_tokens = (if token_status \<noteq> TokensUnavailable \<and> \<not> da_incomplete_output a
            then Some (da_output a) else None),
          kp_total_tokens = (if token_status = TokensComplete then Some (da_tokens a) else None),
          kp_token_status = token_status,
          kp_estimated_cost = (if known_cost then Some (da_cost a) else None),
          kp_cost_status = cost_status,
          kp_currency = (if known_cost then da_currency a else None)\<rparr>)"

fun push_spans :: "report_span_v2 list \<Rightarrow> accumulator \<Rightarrow> summary_capacity_exceeded + accumulator" where
  "push_spans [] a = Inr a"
| "push_spans (s # ss) a = bind_result (push_checked s a) (push_spans ss)"

subsection \<open>What the accumulator has seen\<close>

definition applicable :: "report_span_v2 \<Rightarrow> bool" where
  "applicable s \<longleftrightarrow> token_state s \<noteq> NotApplicable"

definition counted_total :: "report_span_v2 \<Rightarrow> f64 option" where
  "counted_total s = (if token_state s = Available then dashboard_token_total (sp_metrics s) else None)"

definition component_total :: "(report_metrics \<Rightarrow> f64 option) \<Rightarrow> report_span_v2 list \<Rightarrow> nat" where
  "component_total get ss = metric_total get (filter applicable ss)"

definition token_total :: "report_span_v2 list \<Rightarrow> nat" where
  "token_total ss = sum_list (map (\<lambda>s. unat (metric_or_zero (counted_total s))) ss)"

definition cost_known :: "report_span_v2 \<Rightarrow> bool" where
  "cost_known s \<longleftrightarrow> sp_estimated_cost s \<noteq> None"

definition counts_seen :: "report_span_v2 list \<Rightarrow> accumulator \<Rightarrow> bool" where
  "counts_seen ss a \<longleftrightarrow>
     unat (da_llm a) = length (filter (\<lambda>s. sp_kind s = LlmRequest) ss) \<and> unat (da_llm a) \<le> MAX_SAFE \<and>
     unat (da_tools a) = length (filter (\<lambda>s. sp_kind s = ToolExecution) ss) \<and> unat (da_tools a) \<le> MAX_SAFE \<and>
     unat (da_errors a) = length (filter (\<lambda>s. sp_status s = StatusError) ss) \<and> unat (da_errors a) \<le> MAX_SAFE"

definition components_seen :: "report_span_v2 list \<Rightarrow> accumulator \<Rightarrow> bool" where
  "components_seen ss a \<longleftrightarrow>
     unat (da_input a) = component_total rm_input_tokens ss \<and> unat (da_input a) \<le> MAX_SAFE \<and>
     (da_incomplete_input a \<longleftrightarrow> (\<exists>s \<in> set ss. applicable s \<and> rm_input_tokens (sp_metrics s) = None)) \<and>
     unat (da_output a) = component_total rm_output_tokens ss \<and> unat (da_output a) \<le> MAX_SAFE \<and>
     (da_incomplete_output a \<longleftrightarrow> (\<exists>s \<in> set ss. applicable s \<and> rm_output_tokens (sp_metrics s) = None))"

definition tokens_seen :: "report_span_v2 list \<Rightarrow> accumulator \<Rightarrow> bool" where
  "tokens_seen ss a \<longleftrightarrow>
     unat (da_tokens a) = token_total ss \<and> unat (da_tokens a) \<le> MAX_SAFE \<and>
     (da_complete_tokens a \<longleftrightarrow> (\<exists>s \<in> set ss. counted_total s \<noteq> None)) \<and>
     (da_incomplete_tokens a \<longleftrightarrow> (\<exists>s \<in> set ss. applicable s \<and> counted_total s = None))"

definition status_seen :: "report_span_v2 list \<Rightarrow> accumulator \<Rightarrow> bool" where
  "status_seen ss a \<longleftrightarrow>
     (da_estimated a \<longleftrightarrow> (\<exists>s \<in> set ss. billable s \<and> ce_status (sp_cost s) = ''estimated'')) \<and>
     (da_incomplete_cost a \<longleftrightarrow> (\<exists>s \<in> set ss. billable s \<and> ce_status (sp_cost s) = ''incomplete'')) \<and>
     (da_unknown_cost a \<longleftrightarrow>
        (\<exists>s \<in> set ss. billable s \<and> ce_status (sp_cost s) \<noteq> ''estimated'' \<and> ce_status (sp_cost s) \<noteq> ''incomplete''))"

definition cost_seen :: "report_span_v2 list \<Rightarrow> accumulator \<Rightarrow> bool" where
  "cost_seen ss a \<longleftrightarrow>
     f64_nonneg (da_cost a) \<and> \<not> f64_lt ESTIMATED_COST_MAX (da_cost a) \<and>
     da_cost a = foldl f64_add f64_zero (present (map sp_estimated_cost ss)) \<and>
     (\<forall>c. da_currency a = Some c \<longrightarrow> iso_currency c) \<and>
     (if da_mixed_currency a
      then \<forall>c. \<exists>s \<in> set ss. cost_known s \<and> ce_currency (sp_cost s) \<noteq> Some c
      else \<forall>s \<in> set ss. cost_known s \<longrightarrow> ce_currency (sp_cost s) = da_currency a \<and> da_currency a \<noteq> None) \<and>
     (da_currency a \<noteq> None \<longrightarrow> (\<exists>s \<in> set ss. cost_known s \<and> ce_currency (sp_cost s) = da_currency a))"

definition seen :: "report_span_v2 list \<Rightarrow> accumulator \<Rightarrow> bool" where
  "seen ss a \<longleftrightarrow> counts_seen ss a \<and> components_seen ss a \<and> tokens_seen ss a \<and> status_seen ss a \<and> cost_seen ss a"

lemma seen_default: "seen [] accumulator_default"
  by (simp add: seen_def counts_seen_def components_seen_def tokens_seen_def status_seen_def cost_seen_def
    component_total_def metric_total_def token_total_def accumulator_default_def f64_nonneg_def f64_zero_def
    ESTIMATED_COST_MAX_def f64_nat_def present_def)

lemma increment_iff [simp]:
  "increment v n = Inr w \<longleftrightarrow> unat v + unat n \<le> MAX_SAFE \<and> unat w = unat v + unat n"
proof -
  have "MAX_SAFE < 2 ^ 64" by (simp add: MAX_SAFE_def)
  moreover have "c \<le> SAFE_INTEGER_MAX \<longleftrightarrow> unat c \<le> MAX_SAFE" for c
    by (simp add: SAFE_INTEGER_MAX_def MAX_SAFE_def word_le_nat_alt)
  ultimately show ?thesis
    by (auto simp: increment_def checked_add_def unat_word_ariths word_unat_eq_iff split: option.splits if_splits)
qed

lemma token_integer_iff [simp]: "token_integer v = Inr n \<longleftrightarrow> valid_count v \<and> n = exact_u64 v"
  by (cases v) (auto simp: token_integer_def valid_count_def invalid_summary_value_def exact_u64_def
    MAX_EXACT_U64_def f64_le_def f64_zero_def f64_nat_def not_less)

subsection \<open>Each part of a push\<close>

lemma component_total_snoc [simp]:
  "component_total get (ss @ [s]) =
     component_total get ss + (if applicable s then unat (metric_or_zero (get (sp_metrics s))) else 0)"
  by (simp add: component_total_def metric_total_def)

lemma token_total_snoc [simp]: "token_total (ss @ [s]) = token_total ss + unat (metric_or_zero (counted_total s))"
  by (simp add: token_total_def)

lemma metric_or_zero_simps [simp]: "metric_or_zero None = 0" "metric_or_zero (Some v) = exact_u64 v"
  by (simp_all add: metric_or_zero_def exact_u64_def f64_zero_def)

lemma push_counts_seen:
  "counts_seen ss a \<Longrightarrow> push_counts s a = Inr b \<Longrightarrow> counts_seen (ss @ [s]) b"
  by (auto simp: counts_seen_def push_counts_def result_simps split: if_splits)

lemma push_counts_frame:
  "push_counts s a = Inr b \<Longrightarrow> b = a\<lparr>da_llm := da_llm b, da_tools := da_tools b, da_errors := da_errors b\<rparr>"
  by (auto simp: push_counts_def result_simps)

lemma accumulate_component_iff:
  "accumulate_component (v, i) x = Inr (w, j) \<longleftrightarrow>
     (case x of None \<Rightarrow> w = v \<and> j
      | Some y \<Rightarrow> valid_count y \<and> unat v + unat (exact_u64 y) \<le> MAX_SAFE \<and>
          unat w = unat v + unat (exact_u64 y) \<and> j = i)"
  by (auto simp: accumulate_component_def result_simps split: option.splits)

definition component_seen :: "(report_metrics \<Rightarrow> f64 option) \<Rightarrow> report_span_v2 list \<Rightarrow> u64 \<Rightarrow> bool \<Rightarrow> bool" where
  "component_seen get ss v i \<longleftrightarrow> unat v = component_total get ss \<and> unat v \<le> MAX_SAFE \<and>
     (i \<longleftrightarrow> (\<exists>s \<in> set ss. applicable s \<and> get (sp_metrics s) = None))"

lemma components_seen_alt:
  "components_seen ss a \<longleftrightarrow> component_seen rm_input_tokens ss (da_input a) (da_incomplete_input a) \<and>
     component_seen rm_output_tokens ss (da_output a) (da_incomplete_output a)"
  by (auto simp: components_seen_def component_seen_def)

lemma component_seen_step:
  assumes "component_seen get ss v i" and "applicable s"
    and "accumulate_component (v, i) (get (sp_metrics s)) = Inr (w, j)"
  shows "component_seen get (ss @ [s]) w j"
  using assms by (cases "get (sp_metrics s)") (auto simp: component_seen_def accumulate_component_iff)

lemma component_seen_skip: "component_seen get ss v i \<Longrightarrow> \<not> applicable s \<Longrightarrow> component_seen get (ss @ [s]) v i"
  by (auto simp: component_seen_def)

lemma push_components_seen:
  assumes "components_seen ss a" and "push_components s a = Inr b"
  shows "components_seen (ss @ [s]) b"
proof (cases "applicable s")
  case True
  then obtain inp ii out io where
    "accumulate_component (da_input a, da_incomplete_input a) (rm_input_tokens (sp_metrics s)) = Inr (inp, ii)"
    "accumulate_component (da_output a, da_incomplete_output a) (rm_output_tokens (sp_metrics s)) = Inr (out, io)"
    "b = a\<lparr>da_input := inp, da_incomplete_input := ii, da_output := out, da_incomplete_output := io\<rparr>"
    using assms(2) by (auto simp: push_components_def applicable_def result_simps)
  then show ?thesis using assms(1) True by (auto simp: components_seen_alt intro: component_seen_step)
next
  case False
  then have "b = a" using assms(2) by (simp add: push_components_def applicable_def)
  then show ?thesis using assms(1) False by (simp add: components_seen_alt component_seen_skip)
qed

lemma push_components_frame:
  "push_components s a = Inr b \<Longrightarrow> b = a\<lparr>da_input := da_input b, da_incomplete_input := da_incomplete_input b,
     da_output := da_output b, da_incomplete_output := da_incomplete_output b\<rparr>"
  by (auto simp: push_components_def result_simps split: if_splits)

lemma push_tokens_seen:
  "tokens_seen ss a \<Longrightarrow> push_tokens s a = Inr b \<Longrightarrow> tokens_seen (ss @ [s]) b"
  by (auto simp: tokens_seen_def push_tokens_def applicable_def counted_total_def result_simps
    split: if_splits option.splits bool.splits)

lemma push_tokens_frame:
  "push_tokens s a = Inr b \<Longrightarrow> b = a\<lparr>da_tokens := da_tokens b, da_complete_tokens := da_complete_tokens b,
     da_incomplete_tokens := da_incomplete_tokens b\<rparr>"
  by (auto simp: push_tokens_def result_simps split: if_splits option.splits bool.splits)

lemma push_status_seen: "status_seen ss a \<Longrightarrow> status_seen (ss @ [s]) (push_status s a)"
  by (auto simp: status_seen_def push_status_def)

lemma push_status_frame:
  "push_status s a = a\<lparr>da_estimated := da_estimated (push_status s a),
     da_incomplete_cost := da_incomplete_cost (push_status s a), da_unknown_cost := da_unknown_cost (push_status s a)\<rparr>"
  by (simp add: push_status_def)

lemma present_snoc [simp]: "present (vs @ [v]) = present vs @ present [v]"
  by (simp add: present_def)

lemma present_single [simp]: "present [None] = []" "present [Some a] = [a]"
  by (simp_all add: present_def)

lemma cost_added:
  assumes "f64_nonneg x" and "is_finite y" and "\<not> f64_lt y f64_zero" and "is_finite (f64_add x y)"
  shows "f64_nonneg (f64_add x y)"
proof -
  have "f64_nonneg y" using assms(2,3) by (cases y) (auto simp: f64_nonneg_le f64_le_def f64_zero_def not_less)
  from f64_add_nonneg [OF assms(1) this] show ?thesis using assms(4) by auto
qed

lemma push_cost_frame:
  "push_cost s a = Inr b \<Longrightarrow> b = a\<lparr>da_cost := da_cost b, da_currency := da_currency b,
     da_mixed_currency := da_mixed_currency b\<rparr>"
  by (auto simp: push_cost_def Let_def split: option.splits if_splits)

lemma push_cost_seen:
  assumes "cost_seen ss a" and "push_cost s a = Inr b"
  shows "cost_seen (ss @ [s]) b"
proof (cases "sp_estimated_cost s")
  case None
  then have "b = a" using assms(2) by (simp add: push_cost_def)
  then show ?thesis using assms(1) None unfolding cost_seen_def cost_known_def by auto
next
  case (Some cost)
  have ok: "is_finite cost" "\<not> f64_lt cost f64_zero" "is_finite (f64_add (da_cost a) cost)"
    "\<not> f64_lt ESTIMATED_COST_MAX (f64_add (da_cost a) cost)" "da_cost b = f64_add (da_cost a) cost"
    using assms(2) Some by (auto simp: push_cost_def Let_def split: option.splits if_splits)
  have nonneg: "f64_nonneg (da_cost b)"
    using cost_added [of "da_cost a" cost] assms(1) ok(1-3) unfolding ok(5) cost_seen_def by blast
  have known: "cost_known s" by (simp add: cost_known_def Some)
  show ?thesis
  proof (cases "ce_currency (sp_cost s)")
    case none: None
    then have "da_mixed_currency b" "da_currency b = da_currency a"
      using assms(2) Some by (auto simp: push_cost_def Let_def split: if_splits)
    then show ?thesis
      using assms(1) nonneg ok Some none known unfolding cost_seen_def by (auto split: if_splits)
  next
    case some: (Some c)
    have c: "iso_currency c" "(case da_currency a of None \<Rightarrow> da_currency b = Some c \<and> da_mixed_currency b = da_mixed_currency a
        | Some p \<Rightarrow> da_currency b = Some p \<and> da_mixed_currency b = (da_mixed_currency a \<or> p \<noteq> c))"
      using assms(2) Some some by (auto simp: push_cost_def Let_def split: if_splits option.splits)
    show ?thesis
    proof (cases "da_currency a")
      case None
      then show ?thesis
        using assms(1) nonneg ok Some some known c unfolding cost_seen_def by (auto split: if_splits)
    next
      case prev: (Some p)
      then show ?thesis
        using assms(1) nonneg ok Some some known c unfolding cost_seen_def by (auto split: if_splits)
    qed
  qed
qed

lemma push_seen:
  assumes "seen ss a" and "push_checked s a = Inr b"
  shows "seen (ss @ [s]) b"
proof -
  obtain a1 a2 a3 where p: "push_counts s a = Inr a1" "push_components s a1 = Inr a2" "push_tokens s a2 = Inr a3"
    "push_cost s (push_status s a3) = Inr b"
    using assms(2) by (auto simp: push_checked_def result_simps)
  note fr = push_counts_frame [OF p(1)] push_components_frame [OF p(2)] push_tokens_frame [OF p(3)]
    push_status_frame [of s a3] push_cost_frame [OF p(4)]
  let ?a4 = "push_status s a3"
  have 1: "counts_seen (ss @ [s]) a1" using push_counts_seen p(1) assms(1) by (auto simp: seen_def)
  have "components_seen ss a1" using assms(1) by (subst fr(1)) (simp add: seen_def components_seen_def)
  then have 2: "components_seen (ss @ [s]) a2" using push_components_seen p(2) by blast
  have "tokens_seen ss a2" using assms(1) by (subst fr(2), subst fr(1)) (simp add: seen_def tokens_seen_def)
  then have 3: "tokens_seen (ss @ [s]) a3" using push_tokens_seen p(3) by blast
  have "status_seen ss a3"
    using assms(1) by (subst fr(3), subst fr(2), subst fr(1)) (simp add: seen_def status_seen_def)
  then have 4: "status_seen (ss @ [s]) ?a4" by (rule push_status_seen)
  have "cost_seen ss ?a4"
    using assms(1) by (subst fr(4), subst fr(3), subst fr(2), subst fr(1)) (simp add: seen_def cost_seen_def)
  then have 5: "cost_seen (ss @ [s]) b" using push_cost_seen p(4) by blast
  have "status_seen (ss @ [s]) b" using 4 by (subst fr(5)) (simp add: status_seen_def)
  moreover have "tokens_seen (ss @ [s]) b" using 3 by (subst fr(5), subst fr(4)) (simp add: tokens_seen_def)
  moreover have "components_seen (ss @ [s]) b"
    using 2 by (subst fr(5), subst fr(4), subst fr(3)) (simp add: components_seen_def)
  moreover have "counts_seen (ss @ [s]) b"
    using 1 by (subst fr(5), subst fr(4), subst fr(3), subst fr(2)) (simp add: counts_seen_def)
  ultimately show ?thesis using 5 by (simp add: seen_def)
qed

lemma push_spans_seen: "seen rs a \<Longrightarrow> push_spans ss a = Inr b \<Longrightarrow> seen (rs @ ss) b"
proof (induction ss arbitrary: rs a)
  case (Cons s ss)
  then obtain c where "push_checked s a = Inr c" "push_spans ss c = Inr b" by (auto simp: result_simps)
  then show ?case using Cons.IH [of "rs @ [s]" c] push_seen [OF Cons.prems(1)] by simp
qed simp

subsection \<open>Key figures\<close>

lemma finish_sessions:
  "finish a sessions turns = Inr k \<Longrightarrow> unat sessions \<le> MAX_SAFE \<and> unat turns \<le> MAX_SAFE"
  by (auto simp: finish_def SAFE_INTEGER_MAX_def MAX_SAFE_def word_less_nat_alt not_less split: if_splits)

lemma iso_currency_chars: "iso_currency c \<Longrightarrow> chars_count c = 3"
proof -
  assume c: "iso_currency c"
  then have "filter (\<lambda>x. \<not> (128 \<le> byte_of x \<and> byte_of x < 192)) c = c"
    by (auto simp: iso_currency_def list_all_iff intro!: filter_True)
  then show ?thesis using c by (simp add: chars_count_def iso_currency_def)
qed

lemma validate_cost_seen:
  assumes "f64_nonneg x" and "\<not> f64_lt ESTIMATED_COST_MAX x"
  shows "validate_estimated_cost (Some x) = Inr ()"
  using assms by (cases x) (auto simp: validate_estimated_cost_def f64_nonneg_le f64_le_def ESTIMATED_COST_MAX_def
    f64_nat_def not_less)

lemma finish_valid:
  assumes "seen ss a" and "finish a sessions turns = Inr k"
    and "\<forall>s \<in> set ss. ce_status (sp_cost s) = ''estimated'' \<longrightarrow> cost_known s"
  shows "validate_kpis k = Inr ()"
proof -
  have counts: "\<forall>v \<in> {da_llm a, da_tools a, da_errors a, da_input a, da_output a, da_tokens a, sessions, turns}.
      unat v \<le> 9007199254740991"
    using assms(1) finish_sessions [OF assms(2)]
    by (auto simp: seen_def counts_seen_def components_seen_def tokens_seen_def MAX_SAFE_def)
  have cost: "validate_estimated_cost (Some (da_cost a)) = Inr ()"
    using assms(1) by (intro validate_cost_seen) (auto simp: seen_def cost_seen_def)
  have cur: "validate_nonempty_bounded c 16 = Inr ()" if "da_currency a = Some c" for c
    using that assms(1) iso_currency_chars by (auto simp: seen_def cost_seen_def)
  have known: "da_currency a \<noteq> None" if "da_estimated a" "\<not> da_mixed_currency a"
    using that assms(1,3) by (auto simp: seen_def cost_seen_def status_seen_def)
  have k: "kp_sessions k = sessions" "kp_turns k = turns" "kp_llm k = da_llm a" "kp_tools k = da_tools a"
    "kp_errors k = da_errors a" "kp_input_tokens k \<in> {None, Some (da_input a)}"
    "kp_output_tokens k \<in> {None, Some (da_output a)}" "kp_total_tokens k \<in> {None, Some (da_tokens a)}"
    "kp_currency k \<in> {None, da_currency a}" "kp_estimated_cost k \<in> {None, Some (da_cost a)}"
    using assms(2) by (auto simp: finish_def Let_def split: if_splits)
  have tokens: "kp_token_status k = TokensComplete \<longleftrightarrow> kp_total_tokens k \<noteq> None"
    "kp_token_status k = TokensUnavailable \<longrightarrow> kp_input_tokens k = None \<and> kp_output_tokens k = None"
    using assms(2) by (auto simp: finish_def Let_def split: if_splits)
  have costs: "kp_cost_status k = CostEstimated \<longrightarrow> kp_estimated_cost k \<noteq> None \<and> kp_currency k \<noteq> None"
    "kp_cost_status k = CostUnknown \<longrightarrow> kp_estimated_cost k = None \<and> kp_currency k = None"
    using assms(2) known by (auto simp: finish_def Let_def split: if_splits)
  have 1: "try_all validate_safe_count [kp_sessions k, kp_turns k, kp_llm k, kp_tools k, kp_errors k] = Inr ()"
    using counts unfolding try_all_eq_Inr by (simp add: k)
  have 2: "try_all validate_safe_count (present [kp_input_tokens k, kp_output_tokens k, kp_total_tokens k]) = Inr ()"
    using counts k(6-8) unfolding try_all_eq_Inr set_present by auto
  show ?thesis
    using 1 2 tokens costs k(9,10) cost cur unfolding validate_kpis_def
    by (cases "kp_token_status k"; cases "kp_cost_status k")
      (auto simp: result_simps validate_optional_required_string_def simp del: try_all.simps
        validate_nonempty_bounded_iff split: option.splits)
qed

lemma projected_cost:
  assumes "project_report_span sha i r t = Inr s"
  shows "validate_report_span s = Inr () \<and> (ce_status (sp_cost s) = ''estimated'' \<longrightarrow> cost_known s)"
proof -
  obtain q where q: "s = report_span sha q t" "validate_report_span s = Inr ()"
    using assms by (auto simp: project_report_span_iff)
  have "cost_known s" if "ce_status (sp_cost s) = ''estimated''"
  proof (cases t)
    case None
    then show ?thesis using that q(1) by (simp add: report_span_def Let_def estimate_span_cost_def unknown_cost_def)
  next
    case (Some table)
    show ?thesis
      using that q(1) unfolding Some
      by (cases rule: estimate_cases [of q table]) (auto simp: report_span_def Let_def cost_result_def cost_known_def)
  qed
  then show ?thesis using q(2) by blast
qed

lemma component_total_valid:
  assumes "\<forall>s \<in> set ss. validate_report_span s = Inr ()"
    and "\<And>m. \<not> report_token_metrics_present m \<Longrightarrow> get m = None"
  shows "component_total get ss = metric_total get ss"
proof -
  have "get (sp_metrics s) = None" if "s \<in> set ss" "\<not> applicable s" for s
    using that assms
    by (auto simp: validate_report_span_def result_simps token_availability_valid_def applicable_def token_state_def
      report_token_total_present_def report_token_metrics_present_def split: if_splits)
  then show ?thesis
    unfolding component_total_def metric_total_def by (induction ss) auto
qed

subsection \<open>Hashed identifiers\<close>

lemma hex_digit_lower: "n < 16 \<Longrightarrow> is_lower_hex (hex_digit n)"
  by (auto simp: hex_digit_def is_lower_hex_def is_ascii_digit_def byte_of_def)

lemma hex_lower: "list_all is_lower_hex (hex bs) \<and> length (hex bs) = 2 * length bs"
proof (induction bs)
  case (Cons b bs)
  have "unat b div 16 < 16" using unsigned_less [of b, where 'a = nat] by simp
  then show ?case using Cons hex_digit_lower by (simp add: hex_def hex_byte_def)
qed (simp add: hex_def)

lemma hashed_projected:
  assumes "length (sha v) = 32"
  shows "projected_id (hash_opaque_identifier sha v) \<longleftrightarrow> \<not> starts_with v ID_PREFIX \<or> projected_id v"
  using assms hex_lower [of "sha v"]
  by (auto simp: hash_opaque_identifier_def projected_id_def lower_hex64_def ID_PREFIX_def)

subsection \<open>A sample run\<close>

definition priced_span :: report_span_v2 where
  "priced_span = sample_span\<lparr>sp_kind := LlmRequest, sp_status := StatusOk,
     sp_metrics := (sp_metrics sample_span)\<lparr>rm_input_tokens := Some (f64_nat 100), rm_output_tokens := Some (f64_nat 20)\<rparr>,
     sp_availability := (sp_availability sample_span)\<lparr>av_tokens :=
       \<lparr>fa_state = Available, fa_reason = ''reported_by_adapter''\<rparr>\<rparr>,
     sp_estimated_cost := Some (f64_nat 2),
     sp_cost := (sp_cost sample_span)\<lparr>ce_status := ''estimated'', ce_estimated_cost := Some (f64_nat 2),
       ce_currency := Some ''USD''\<rparr>\<rparr>"

lemma priced_span_fields [simp]:
  "sp_kind priced_span = LlmRequest" "sp_status priced_span = StatusOk" "token_state priced_span = Available"
  "rm_input_tokens (sp_metrics priced_span) = Some (f64_nat 100)"
  "rm_output_tokens (sp_metrics priced_span) = Some (f64_nat 20)"
  "dashboard_token_total (sp_metrics priced_span) = Some (f64_nat 120)" "billable priced_span"
  "sp_estimated_cost priced_span = Some (f64_nat 2)" "ce_status (sp_cost priced_span) = ''estimated''"
  "ce_currency (sp_cost priced_span) = Some ''USD''"
  using f64_add_nat [of 100 20]
  by (simp_all add: priced_span_def token_state_def dashboard_token_total_def option_or_def zip_sum_def MAX_SAFE_def
    billable_def)

lemma token_integer_nat: "token_integer (f64_nat n) = Inr (word_of_nat n)" if "n \<le> MAX_SAFE"
proof -
  have "unat (f64_as_u64 (f64_nat n)) = n" using that by (rule f64_as_u64_nat)
  then have "f64_as_u64 (f64_nat n) = word_of_nat n" by (metis of_nat_unat ucast_id)
  then show ?thesis using that by (auto simp: token_integer_def f64_nat_def f64_le_def f64_zero_def MAX_SAFE_def)
qed

definition priced_kpis :: dashboard_kpis where
  "priced_kpis = \<lparr>kp_sessions = 1, kp_turns = 1, kp_llm = 1, kp_tools = 0, kp_errors = 0,
     kp_input_tokens = Some 100, kp_output_tokens = Some 20, kp_total_tokens = Some 120,
     kp_token_status = TokensComplete, kp_estimated_cost = Some (f64_nat 2), kp_cost_status = CostEstimated,
     kp_currency = Some ''USD''\<rparr>"

definition priced_accumulator :: accumulator where
  "priced_accumulator = accumulator_default\<lparr>da_llm := 1, da_input := 100, da_output := 20, da_tokens := 120,
     da_complete_tokens := True, da_estimated := True, da_cost := f64_nat 2, da_currency := Some ''USD''\<rparr>"

lemma priced_span_pushed: "push_spans [priced_span] accumulator_default = Inr priced_accumulator"
proof -
  have t: "token_integer (f64_nat 100) = Inr 100" "token_integer (f64_nat 20) = Inr 20"
    "token_integer (f64_nat 120) = Inr 120"
    using token_integer_nat [of 100] token_integer_nat [of 20] token_integer_nat [of 120] by (simp_all add: MAX_SAFE_def)
  have i: "increment 0 n = Inr n" if "unat n \<le> MAX_SAFE" for n using that by simp
  have c: "f64_add f64_zero (f64_nat 2) = f64_nat 2" unfolding f64_zero_nat by (rule f64_add_nat [of 0 2, unfolded add_0]) (simp add: MAX_SAFE_def)
  have u: "iso_currency ''USD''" by code_simp
  have 1: "push_counts priced_span accumulator_default = Inr (accumulator_default\<lparr>da_llm := 1\<rparr>)"
    using i [of 1] by (simp add: push_counts_def accumulator_default_def MAX_SAFE_def del: increment_iff)
  have 2: "push_components priced_span (accumulator_default\<lparr>da_llm := 1\<rparr>) =
      Inr (accumulator_default\<lparr>da_llm := 1, da_input := 100, da_output := 20\<rparr>)"
    using t i [of 100] i [of 20]
    by (simp add: push_components_def accumulate_component_def accumulator_default_def MAX_SAFE_def
      del: increment_iff token_integer_iff)
  have 3: "push_tokens priced_span (accumulator_default\<lparr>da_llm := 1, da_input := 100, da_output := 20\<rparr>) =
      Inr (accumulator_default\<lparr>da_llm := 1, da_input := 100, da_output := 20, da_tokens := 120, da_complete_tokens := True\<rparr>)"
    using t i [of 120] by (simp add: push_tokens_def accumulator_default_def MAX_SAFE_def del: increment_iff token_integer_iff)
  have 4: "push_cost priced_span (push_status priced_span (accumulator_default\<lparr>da_llm := 1, da_input := 100,
      da_output := 20, da_tokens := 120, da_complete_tokens := True\<rparr>)) = Inr priced_accumulator"
    using c u by (simp add: push_cost_def push_status_def priced_accumulator_def accumulator_default_def Let_def
      ESTIMATED_COST_MAX_def f64_nat_def f64_zero_def)
  show ?thesis by (simp add: push_checked_def 1 2 3 4)
qed

lemma priced_accumulator_finish: "finish priced_accumulator 1 1 = Inr priced_kpis"
  by (simp add: finish_def priced_accumulator_def priced_kpis_def accumulator_default_def SAFE_INTEGER_MAX_def
    word_less_nat_alt)

lemma priced_span_valid: "validate_report_span priced_span = Inr ()"
proof -
  let ?m = "sp_metrics priced_span" and ?a = "sp_availability priced_span" and ?c = "sp_cost priced_span"
  have v: "validate_report_span sample_span = Inr ()" using sample_span_plain by (simp add: plain_span_def)
  have "validate_report_metrics (sp_metrics sample_span) = Inr ()" using v by (simp add: validate_report_span_def result_simps)
  then have m: "validate_report_metrics ?m = Inr ()"
    by (auto simp: validate_report_metrics_def report_metric_values_def result_simps priced_span_def validate_finite_def
      f64_nat_def)
  have t: "token_availability_valid ?m (av_tokens ?a)"
    by (simp add: token_availability_valid_def report_token_total_present_def priced_span_def)
  have "\<forall>fa \<in> set (availability_fields (sp_availability sample_span)). valid_availability_reason fa"
    using v by (simp add: validate_report_span_def result_simps)
  then have a: "\<forall>fa \<in> set (availability_fields ?a). valid_availability_reason fa"
    by (simp add: availability_fields_def priced_span_def valid_availability_reason_def)
  have "cd_components (ce_cost (sp_cost sample_span)) = []"
    by (simp add: sample_span_def report_span_def Let_def estimate_span_cost_def unknown_cost_def cost_detail_default_def)
  then have c: "validate_cost ?c = Inr ()"
    by (simp add: validate_cost_def priced_span_def validate_finite_def f64_nat_def bt_values_def)
  have e: "validate_finite (f64_nat 2) = Inr ()" by (simp add: validate_finite_def f64_nat_def)
  show ?thesis
    using v m t a c e unfolding validate_report_span_def by (simp add: result_simps priced_span_def)
qed

subsection \<open>Properties\<close>

text \<open>C18: the accumulator keeps the dashboard's contract: the key figures of any run of projected spans that
  it finishes pass the response validation, with no further condition on the spans.\<close>

theorem kpis_valid:
  assumes "list_all (\<lambda>s. \<exists>i r. project_report_span sha i r t = Inr s) ss"
    and "push_spans ss accumulator_default = Inr a" and "finish a sessions turns = Inr k"
  shows "validate_kpis k = Inr ()"
proof (rule finish_valid [OF _ assms(3)])
  show "seen ss a" using push_spans_seen [OF seen_default assms(2)] by simp
  show "\<forall>s \<in> set ss. ce_status (sp_cost s) = ''estimated'' \<longrightarrow> cost_known s"
    using assms(1) projected_cost by (auto simp: list_all_iff)
qed

theorem kpis_valid_witness:
  "\<exists>a k. push_spans [sample_span] accumulator_default = Inr a \<and> finish a 1 1 = Inr k \<and> validate_kpis k = Inr ()"
proof -
  have p: "project_report_span sample_digest 0 (sample_record ''b'' ''turn'') None = Inr sample_span"
    using sample_sanitized [of "''turn''" "''b''"] by (simp add: no_table_span sample_span_def)
  have c: "sp_estimated_cost sample_span = None"
    using sample_span_plain by (simp add: plain_span_def)
  have t: "dashboard_token_total (sp_metrics sample_span) = None" "rm_input_tokens (sp_metrics sample_span) = None"
    "rm_output_tokens (sp_metrics sample_span) = None"
    using sample_span_plain
    by (simp_all add: sample_record_def report_metrics_of_def dashboard_token_total_def option_or_def zip_sum_def)
  have i: "increment 0 1 = Inr 1" by (simp add: MAX_SAFE_def)
  have "\<exists>a1. push_counts sample_span accumulator_default = Inr a1"
    by (cases "sp_kind sample_span"; cases "sp_status sample_span")
      (simp_all add: push_counts_def accumulator_default_def i del: increment_iff)
  then obtain a1 where 1: "push_counts sample_span accumulator_default = Inr a1" by blast
  have "\<exists>a2. push_components sample_span a1 = Inr a2"
    by (cases "token_state sample_span = NotApplicable") (simp_all add: push_components_def accumulate_component_def t)
  then obtain a2 where 2: "push_components sample_span a1 = Inr a2" by blast
  have "\<exists>a3. push_tokens sample_span a2 = Inr a3" by (simp add: push_tokens_def t)
  then obtain a3 where 3: "push_tokens sample_span a2 = Inr a3" by blast
  have "\<exists>a. push_cost sample_span (push_status sample_span a3) = Inr a" by (simp add: push_cost_def c)
  then obtain a where "push_cost sample_span (push_status sample_span a3) = Inr a" by blast
  then have a: "push_spans [sample_span] accumulator_default = Inr a" by (simp add: push_checked_def 1 2 3)
  have "\<exists>k. finish a 1 1 = Inr k" by (simp add: finish_def SAFE_INTEGER_MAX_def Let_def word_less_nat_alt)
  then obtain k where k: "finish a 1 1 = Inr k" by blast
  have "list_all (\<lambda>s. \<exists>i r. project_report_span sample_digest i r None = Inr s) [sample_span]" using p by auto
  from kpis_valid [OF this a k] show ?thesis using a k by blast
qed

text \<open>The key figures in terms of the spans alone.\<close>

definition fully_reported :: "(report_metrics \<Rightarrow> f64 option) \<Rightarrow> report_span_v2 list \<Rightarrow> bool" where
  "fully_reported get ss \<longleftrightarrow> (\<forall>s \<in> set ss. applicable s \<longrightarrow> get (sp_metrics s) \<noteq> None)"

definition token_status_of :: "report_span_v2 list \<Rightarrow> token_status" where
  "token_status_of ss =
     (if \<exists>s \<in> set ss. applicable s \<and> counted_total s = None then TokensIncomplete
      else if \<exists>s \<in> set ss. counted_total s \<noteq> None then TokensComplete else TokensUnavailable)"

definition one_currency :: "report_span_v2 list \<Rightarrow> bool" where
  "one_currency ss \<longleftrightarrow> (\<exists>c. \<forall>s \<in> set ss. cost_known s \<longrightarrow> ce_currency (sp_cost s) = Some c)"

definition cost_status_of :: "report_span_v2 list \<Rightarrow> cost_status" where
  "cost_status_of ss =
     (let statuses = (\<lambda>s. ce_status (sp_cost s)) ` {s \<in> set ss. billable s}
      in if statuses \<inter> {''estimated'', ''incomplete''} = {} then CostUnknown
         else if statuses \<subseteq> {''estimated''} \<and> one_currency ss then CostEstimated else CostIncomplete)"

lemma mixed_currency_exact: "cost_seen ss a \<Longrightarrow> da_mixed_currency a \<longleftrightarrow> \<not> one_currency ss"
  by (cases "da_mixed_currency a"; cases "da_currency a") (auto simp: cost_seen_def one_currency_def)

lemma cost_status_exact:
  assumes "seen ss a"
  shows "(if \<not> da_estimated a \<and> \<not> da_incomplete_cost a then CostUnknown
     else if da_incomplete_cost a \<or> da_unknown_cost a \<or> da_mixed_currency a then CostIncomplete
     else CostEstimated) = cost_status_of ss"
proof -
  let ?statuses = "(\<lambda>s. ce_status (sp_cost s)) ` {s \<in> set ss. billable s}"
  have "da_estimated a \<longleftrightarrow> ''estimated'' \<in> ?statuses" "da_incomplete_cost a \<longleftrightarrow> ''incomplete'' \<in> ?statuses"
    "da_incomplete_cost a \<or> da_unknown_cost a \<longleftrightarrow> \<not> ?statuses \<subseteq> {''estimated''}"
    using assms by (auto simp: seen_def status_seen_def image_iff)
  moreover have "da_mixed_currency a \<longleftrightarrow> \<not> one_currency ss"
    using assms mixed_currency_exact by (simp add: seen_def)
  ultimately show ?thesis unfolding cost_status_of_def Let_def by auto
qed

lemma finish_fields:
  assumes "finish a sessions turns = Inr k" and "seen ss a"
  shows "kp_sessions k = sessions \<and> kp_turns k = turns" and "kp_llm k = da_llm a"
    "kp_tools k = da_tools a" "kp_errors k = da_errors a"
    and "kp_token_status k = token_status_of ss" and "kp_cost_status k = cost_status_of ss"
    and "kp_input_tokens k = (if token_status_of ss \<noteq> TokensUnavailable \<and> fully_reported rm_input_tokens ss
      then Some (da_input a) else None)"
    and "kp_output_tokens k = (if token_status_of ss \<noteq> TokensUnavailable \<and> fully_reported rm_output_tokens ss
      then Some (da_output a) else None)"
    and "kp_total_tokens k = (if token_status_of ss = TokensComplete then Some (da_tokens a) else None)"
    and "kp_estimated_cost k = (if cost_status_of ss \<noteq> CostUnknown \<and> one_currency ss then Some (da_cost a) else None)"
    and "kp_currency k = (if cost_status_of ss \<noteq> CostUnknown \<and> one_currency ss then da_currency a else None)"
proof -
  have "(if da_incomplete_tokens a then TokensIncomplete
      else if da_complete_tokens a then TokensComplete else TokensUnavailable) = token_status_of ss"
    using assms(2) by (simp add: seen_def tokens_seen_def token_status_of_def)
  moreover have "da_incomplete_input a \<longleftrightarrow> \<not> fully_reported rm_input_tokens ss"
    "da_incomplete_output a \<longleftrightarrow> \<not> fully_reported rm_output_tokens ss"
    using assms(2) by (auto simp: seen_def components_seen_def fully_reported_def)
  moreover have "da_mixed_currency a \<longleftrightarrow> \<not> one_currency ss"
    using assms(2) mixed_currency_exact by (simp add: seen_def)
  moreover note cost_status_exact [OF assms(2)]
  ultimately have "k = \<lparr>kp_sessions = sessions, kp_turns = turns, kp_llm = da_llm a, kp_tools = da_tools a,
      kp_errors = da_errors a,
      kp_input_tokens = (if token_status_of ss \<noteq> TokensUnavailable \<and> fully_reported rm_input_tokens ss
        then Some (da_input a) else None),
      kp_output_tokens = (if token_status_of ss \<noteq> TokensUnavailable \<and> fully_reported rm_output_tokens ss
        then Some (da_output a) else None),
      kp_total_tokens = (if token_status_of ss = TokensComplete then Some (da_tokens a) else None),
      kp_token_status = token_status_of ss,
      kp_estimated_cost = (if cost_status_of ss \<noteq> CostUnknown \<and> one_currency ss then Some (da_cost a) else None),
      kp_cost_status = cost_status_of ss,
      kp_currency = (if cost_status_of ss \<noteq> CostUnknown \<and> one_currency ss then da_currency a else None)\<rparr>"
    using assms(1) unfolding finish_def Let_def by (simp split: if_split_asm)
  then show "kp_sessions k = sessions \<and> kp_turns k = turns" "kp_llm k = da_llm a" "kp_tools k = da_tools a"
    "kp_errors k = da_errors a" "kp_token_status k = token_status_of ss" "kp_cost_status k = cost_status_of ss"
    "kp_input_tokens k = (if token_status_of ss \<noteq> TokensUnavailable \<and> fully_reported rm_input_tokens ss
      then Some (da_input a) else None)"
    "kp_output_tokens k = (if token_status_of ss \<noteq> TokensUnavailable \<and> fully_reported rm_output_tokens ss
      then Some (da_output a) else None)"
    "kp_total_tokens k = (if token_status_of ss = TokensComplete then Some (da_tokens a) else None)"
    "kp_estimated_cost k = (if cost_status_of ss \<noteq> CostUnknown \<and> one_currency ss then Some (da_cost a) else None)"
    "kp_currency k = (if cost_status_of ss \<noteq> CostUnknown \<and> one_currency ss then da_currency a else None)"
    by simp_all
qed

lemma seen_words:
  assumes "seen ss a"
  shows "da_input a = of_nat (component_total rm_input_tokens ss)"
    "da_output a = of_nat (component_total rm_output_tokens ss)" "da_tokens a = of_nat (token_total ss)"
    "component_total rm_input_tokens ss \<le> MAX_SAFE" "component_total rm_output_tokens ss \<le> MAX_SAFE"
    "token_total ss \<le> MAX_SAFE"
proof -
  have "x = of_nat n \<and> n \<le> MAX_SAFE" if "unat x = n" "unat x \<le> MAX_SAFE" for x :: u64 and n
    using that by auto
  then show "da_input a = of_nat (component_total rm_input_tokens ss)"
    "da_output a = of_nat (component_total rm_output_tokens ss)" "da_tokens a = of_nat (token_total ss)"
    "component_total rm_input_tokens ss \<le> MAX_SAFE" "component_total rm_output_tokens ss \<le> MAX_SAFE"
    "token_total ss \<le> MAX_SAFE"
    using assms unfolding seen_def components_seen_def tokens_seen_def by blast+
qed

text \<open>C19: every key figure is determined by the spans that went in.  Sessions and turns are the
  given ones; requests, tool executions and errors are the numbers of such spans; the token
  status says whether every span that can have tokens has a countable total; input, output and
  total are the sums over the natural numbers (at most 2^53-1, so no word wraps) and each is shown
  exactly when it is complete; the cost status follows the statuses of the billable spans, and
  the amount and the currency are shown exactly when the cost is known and the priced spans
  share one currency.\<close>

theorem kpis_exact:
  assumes "push_spans ss accumulator_default = Inr a" and "finish a sessions turns = Inr k"
  shows "kp_sessions k = sessions \<and> kp_turns k = turns \<and>
    unat (kp_llm k) = length (filter (\<lambda>s. sp_kind s = LlmRequest) ss) \<and>
    unat (kp_tools k) = length (filter (\<lambda>s. sp_kind s = ToolExecution) ss) \<and>
    unat (kp_errors k) = length (filter (\<lambda>s. sp_status s = StatusError) ss) \<and>
    kp_token_status k = token_status_of ss \<and> kp_cost_status k = cost_status_of ss \<and>
    kp_input_tokens k = (if token_status_of ss \<noteq> TokensUnavailable \<and> fully_reported rm_input_tokens ss
      then Some (of_nat (component_total rm_input_tokens ss)) else None) \<and>
    kp_output_tokens k = (if token_status_of ss \<noteq> TokensUnavailable \<and> fully_reported rm_output_tokens ss
      then Some (of_nat (component_total rm_output_tokens ss)) else None) \<and>
    kp_total_tokens k = (if token_status_of ss = TokensComplete then Some (of_nat (token_total ss)) else None) \<and>
    max (token_total ss) (max (component_total rm_input_tokens ss) (component_total rm_output_tokens ss)) \<le> MAX_SAFE \<and>
    kp_estimated_cost k = (if cost_status_of ss \<noteq> CostUnknown \<and> one_currency ss
      then Some (foldl f64_add f64_zero (present (map sp_estimated_cost ss))) else None) \<and>
    (\<forall>c. kp_currency k = Some c \<longleftrightarrow> cost_status_of ss \<noteq> CostUnknown \<and> one_currency ss \<and>
      (\<exists>s \<in> set ss. cost_known s \<and> ce_currency (sp_cost s) = Some c))"
proof -
  have s: "seen ss a" using push_spans_seen [OF seen_default assms(1)] by simp
  note k = finish_fields [OF assms(2) s] and words = seen_words [OF s]
  have counts: "unat (kp_llm k) = length (filter (\<lambda>s. sp_kind s = LlmRequest) ss)"
    "unat (kp_tools k) = length (filter (\<lambda>s. sp_kind s = ToolExecution) ss)"
    "unat (kp_errors k) = length (filter (\<lambda>s. sp_status s = StatusError) ss)"
    using s by (simp_all add: k(2-4) seen_def counts_seen_def)
  have cost: "da_cost a = foldl f64_add f64_zero (present (map sp_estimated_cost ss))"
    using s by (simp add: seen_def cost_seen_def)
  have "da_currency a = Some c \<longleftrightarrow> (\<exists>s \<in> set ss. cost_known s \<and> ce_currency (sp_cost s) = Some c)"
    if "one_currency ss" for c
  proof -
    have c: "cost_seen ss a" using s by (simp add: seen_def)
    then have "\<not> da_mixed_currency a" using that mixed_currency_exact by blast
    then show ?thesis using c unfolding cost_seen_def by (metis option.discI)
  qed
  then have "\<forall>c. kp_currency k = Some c \<longleftrightarrow> cost_status_of ss \<noteq> CostUnknown \<and> one_currency ss \<and>
      (\<exists>s \<in> set ss. cost_known s \<and> ce_currency (sp_cost s) = Some c)"
    unfolding k(11) by simp
  then show ?thesis using k(1) counts k(5-10) unfolding words(1-3) cost using words(4-6) by simp
qed

theorem kpis_exact_witness:
  "unat (kp_llm priced_kpis) = 1 \<and> token_total [priced_span] = 120 \<and>
   component_total rm_input_tokens [priced_span] = 100 \<and> component_total rm_output_tokens [priced_span] = 20 \<and>
   token_status_of [priced_span] = TokensComplete \<and> cost_status_of [priced_span] = CostEstimated \<and>
   ce_currency (sp_cost priced_span) = Some ''USD''"
proof -
  note k = kpis_exact [OF priced_span_pushed priced_accumulator_finish]
  have t: "token_total [priced_span] \<le> MAX_SAFE" "component_total rm_input_tokens [priced_span] \<le> MAX_SAFE"
    "component_total rm_output_tokens [priced_span] \<le> MAX_SAFE" using k by simp_all
  have "n = m" if "(of_nat n :: u64) = of_nat m" "n \<le> MAX_SAFE" "m \<le> MAX_SAFE" for n m
    using that by (simp add: MAX_SAFE_def word_unat_eq_iff unat_of_nat)
  note eq = this [of _ 120, OF _ t(1)] this [of _ 100, OF _ t(2)] this [of _ 20, OF _ t(3)]
  show ?thesis
    using k eq by (auto simp: priced_kpis_def MAX_SAFE_def split: if_splits)
qed

text \<open>C20: the dashboard and the report agree: over the same valid spans the key figures count the same
  requests, tool executions and errors as the report's summary, and every token total the dashboard
  shows is the report's.\<close>

theorem dashboard_report_agree:
  assumes "\<forall>s \<in> set ss. validate_report_span s = Inr ()" and "summarize_report ss = Inr su"
    and "push_spans ss accumulator_default = Inr a" and "finish a sessions turns = Inr k"
  shows "kp_llm k = su_llm_requests su \<and> kp_tools k = su_tool_executions su \<and> kp_errors k = su_errors su \<and>
    kp_input_tokens k \<in> {None, Some (su_input_tokens su)} \<and> kp_output_tokens k \<in> {None, Some (su_output_tokens su)}"
proof -
  have s: "seen ss a" using push_spans_seen [OF seen_default assms(3)] by simp
  have k: "kp_llm k = da_llm a" "kp_tools k = da_tools a" "kp_errors k = da_errors a"
    "kp_input_tokens k \<in> {None, Some (da_input a)}" "kp_output_tokens k \<in> {None, Some (da_output a)}"
    using assms(4) by (auto simp: finish_def Let_def split: if_splits)
  have "component_total rm_input_tokens ss = metric_total rm_input_tokens ss"
    "component_total rm_output_tokens ss = metric_total rm_output_tokens ss"
    using assms(1) by (intro component_total_valid; simp add: report_token_metrics_present_def)+
  then have t: "da_input a = su_input_tokens su" "da_output a = su_output_tokens su"
    using s summarize_tokens [OF assms(2)] by (simp_all add: seen_def components_seen_def word_unat_eq_iff)
  have "su_llm_requests su = count_kind ss LlmRequest" "su_tool_executions su = count_kind ss ToolExecution"
    "su_errors su = count_where (\<lambda>s. sp_status s = StatusError) ss"
    using assms(2) by (auto simp: summarize_report_def result_simps)
  moreover have w: "x = word_of_nat n" if "unat x = n" for x :: u64 and n using that by auto
  have "da_llm a = count_kind ss LlmRequest" "da_tools a = count_kind ss ToolExecution"
    "da_errors a = count_where (\<lambda>s. sp_status s = StatusError) ss"
    using s unfolding count_kind_def count_where_def by (auto simp: seen_def counts_seen_def intro!: w)
  ultimately show ?thesis using k t by simp
qed

theorem dashboard_report_agree_witness:
  "\<exists>su. summarize_report [priced_span] = Inr su \<and> su_input_tokens su = 100 \<and> su_llm_requests su = 1"
proof -
  have v: "\<forall>s \<in> set [priced_span]. validate_report_span s = Inr ()" using priced_span_valid by simp
  have "valid_count (f64_nat n)" if "n \<le> MAX_SAFE" for n
    using token_integer_nat [OF that] by simp
  then have "summary_ok (map sp_metrics [priced_span])"
    using sample_span_plain
    by (auto simp: summary_ok_def summary_getters_def priced_span_def sample_record_def report_metrics_of_def
      MAX_SAFE_def exact_u64_def f64_as_u64_nat)
  then have "\<exists>su. summarize_report [priced_span] = Inr su" by (simp only: summarize_ok)
  then obtain su where su: "summarize_report [priced_span] = Inr su" by blast
  from dashboard_report_agree [OF v su priced_span_pushed priced_accumulator_finish]
  show ?thesis using su by (auto simp: priced_kpis_def)
qed

text \<open>C21: a rejected span leaves no trace, and an amount in a currency that is not three capital letters is
  always rejected, although the rate tables and the report accept it: one such span makes every
  dashboard summary over it fail.\<close>

theorem foreign_currency_rejected:
  assumes "cost_known s" and "ce_currency (sp_cost s) = Some c" and "\<not> iso_currency c"
  shows "push s a = (a, Some SummaryCapacityExceeded) \<and>
    push_spans (rs @ s # ss) a = Inl SummaryCapacityExceeded"
proof -
  have e: "e = SummaryCapacityExceeded" for e by (cases e)
  have fails: "push_checked s b = Inl SummaryCapacityExceeded" for b
  proof (cases "push_checked s b")
    case (Inr d)
    then obtain b' where "push_cost s b' = Inr d" by (auto simp: push_checked_def result_simps)
    then show ?thesis using assms by (auto simp: push_cost_def cost_known_def Let_def split: if_splits)
  qed (simp add: e)
  have "push_spans (rs @ s # ss) b = Inl SummaryCapacityExceeded" for b
  proof (induction rs arbitrary: b)
    case (Cons r rs)
    then show ?case by (cases "push_checked r b") (simp_all add: e)
  qed (simp add: fails)
  then show ?thesis by (simp add: push_def fails)
qed

theorem foreign_currency_rejected_witness:
  "push (priced_span\<lparr>sp_cost := (sp_cost priced_span)\<lparr>ce_currency := Some ''usd''\<rparr>\<rparr>) accumulator_default =
     (accumulator_default, Some SummaryCapacityExceeded) \<and>
   normalize_rate_table (sample_rates\<lparr>ti_currency := Some ''usd''\<rparr>) = Inr (sample_table\<lparr>tb_currency := ''usd''\<rparr>)"
proof -
  have "\<not> iso_currency ''usd''" by code_simp
  then have "push (priced_span\<lparr>sp_cost := (sp_cost priced_span)\<lparr>ce_currency := Some ''usd''\<rparr>\<rparr>) accumulator_default =
     (accumulator_default, Some SummaryCapacityExceeded)"
    using foreign_currency_rejected [of "priced_span\<lparr>sp_cost := (sp_cost priced_span)\<lparr>ce_currency := Some ''usd''\<rparr>\<rparr>" "''usd''"]
    by (simp add: cost_known_def)
  moreover have "normalize_rate_table (sample_rates\<lparr>ti_currency := Some ''usd''\<rparr>) = Inr (sample_table\<lparr>tb_currency := ''usd''\<rparr>)"
    using sample_normalized
    by (auto simp: normalize_rate_table_def result_simps nonempty_or_def sample_rates_def sample_table_def
      rate_table_default_def split: if_splits option.splits)
  ultimately show ?thesis by blast
qed

end
