(* ===== verification/Handoff.thy ===== *)
theory Handoff
  imports Projection_Laws "HOL-Library.Product_Lexorder"
begin

section \<open>Adapter hand-offs\<close>

text \<open>
  What the adapters for hook and telemetry hand-offs share
  (\<^verbatim>\<open>crates/adapter-claude-code/src/lib.rs\<close>, \<^verbatim>\<open>crates/adapter-cursor/src/lib.rs\<close>): the decoded
  records and their JSON attributes, the items of a batch, the lines of a file, stable identifiers.
  The two crates declare these types separately and alike; here they are declared once.  The two
  locales state what the adapters promise, each adapter interprets both on its own functions.
\<close>

subsection \<open>Records and batches\<close>

datatype json_number = PosInt u64 | NegInt int | FloatNumber f64

datatype attribute_value =
    VNull | VBool bool | VNumber json_number | VString string
  | VArray "attribute_value list" | VObject "(string \<times> attribute_value) list"

type_synonym attributes = "(string, attribute_value) btree"

fun as_u64 :: "json_number \<Rightarrow> u64 option" where
  "as_u64 (PosInt n) = Some n"
| "as_u64 _ = None"

record 'surface handoff_record =
  hr_schema_version :: string
  hr_source_generation :: string
  hr_previous_cursor :: "string option"
  hr_cursor :: string
  hr_surface :: 'surface
  hr_received_at_unix_ms :: u64
  hr_event_name :: string
  hr_attributes :: attributes

record adapter_diagnostic =
  ad_record_index :: nat
  ad_code :: adapter_disposition_code
  ad_checkpoint :: source_checkpoint
  ad_disposition :: adapter_disposition_kind
  ad_payload_hash :: "string option"

datatype adapter_item = Observation source_observation | Disposition adapter_diagnostic

type_synonym adapter_batch = "adapter_item list"

definition observations :: "adapter_batch \<Rightarrow> source_observation list" where
  "observations items = present (map (\<lambda>item. case item of Observation v \<Rightarrow> Some v | Disposition _ \<Rightarrow> None) items)"

definition diagnostics :: "adapter_batch \<Rightarrow> adapter_diagnostic list" where
  "diagnostics items = present (map (\<lambda>item. case item of Observation _ \<Rightarrow> None | Disposition v \<Rightarrow> Some v) items)"

datatype adapter_error =
    Io | HandoffTooLarge | TooManyRecords | RecordTooLarge | InvalidJson | InvalidSchema
  | InvalidCursorSequence | UnsupportedPlatform | InsecurePermissions | SymbolicLink | InvalidFileType
  | InvalidIdentifier | InvalidField | InvalidTiming

datatype mapping = MappedObservation source_observation | MappedDiagnostic adapter_disposition_code

definition MAX_HANDOFF_BYTES :: nat where
  "MAX_HANDOFF_BYTES = 1024 * 1024"

definition MAX_HANDOFF_LINES :: nat where
  "MAX_HANDOFF_LINES = 4096"

definition MAX_HANDOFF_LINE_BYTES :: nat where
  "MAX_HANDOFF_LINE_BYTES = 64 * 1024"

text \<open>\<^verbatim>\<open>str::lines\<close>: a line ends with a line feed, which is dropped with a carriage return before it.\<close>

fun split_inclusive :: "string \<Rightarrow> string \<Rightarrow> string list" where
  "split_inclusive cur [] = (if cur = [] then [] else [rev cur])"
| "split_inclusive cur (c # s) =
     (if c = CHR 0x0A then rev (c # cur) # split_inclusive [] s else split_inclusive (c # cur) s)"

definition strip_suffix :: "char \<Rightarrow> string \<Rightarrow> string option" where
  "strip_suffix c s = (if s \<noteq> [] \<and> last s = c then Some (butlast s) else None)"

definition strip_line :: "string \<Rightarrow> string" where
  "strip_line l = (case strip_suffix (CHR 0x0A) l of
       None \<Rightarrow> l
     | Some m \<Rightarrow> (case strip_suffix (CHR 0x0D) m of None \<Rightarrow> m | Some n \<Rightarrow> n))"

definition lines_of :: "string \<Rightarrow> string list" where
  "lines_of s = map strip_line (split_inclusive [] s)"

definition blank_line :: "string \<Rightarrow> bool" where
  "blank_line l \<longleftrightarrow> split_whitespace l = []"

definition checked_sub :: "'a::len word \<Rightarrow> 'a word \<Rightarrow> 'a word option" where
  "checked_sub a b = (if b \<le> a then Some (a - b) else None)"

text \<open>What \<^verbatim>\<open>std::fs\<close> tells of a file, on Unix.\<close>

datatype file_type = RegularFile | SymlinkFile | OtherFile

record file_metadata =
  fm_type :: file_type
  fm_dev :: u64
  fm_ino :: u64
  fm_len :: u64
  fm_mode :: u32

subsection \<open>Stable identifiers\<close>

definition be_bytes :: "nat \<Rightarrow> string" where
  "be_bytes n = map (\<lambda>i. char_of (n div 256 ^ i)) [7, 6, 5, 4, 3, 2, 1, 0]"

definition frame :: "string list \<Rightarrow> string" where
  "frame components = concat (map (\<lambda>c. be_bytes (length c) @ c) components)"

definition stable_id :: "digest \<Rightarrow> string \<Rightarrow> string list \<Rightarrow> string" where
  "stable_id sha prefix components = prefix @ '':'' @ hex (sha (frame components))"

lemma length_hex: "length (hex bs) = 2 * length bs"
  by (induction bs) (simp_all add: hex_def hex_byte_def)

lemma digits_determine:
  fixes m n :: nat
  shows "(\<forall>i < k. m div 256 ^ i mod 256 = n div 256 ^ i mod 256) \<Longrightarrow> m mod 256 ^ k = n mod 256 ^ k"
proof (induction k)
  case (Suc k)
  have "x mod 256 ^ Suc k = 256 ^ k * (x div 256 ^ k mod 256) + x mod 256 ^ k" for x :: nat
    using mod_mult2_eq [of x "256 ^ k" 256] by (simp add: mult.commute)
  then show ?case using Suc by simp
qed simp

lemma be_bytes_inject:
  assumes "be_bytes m = be_bytes n" and "m < 2 ^ 64" and "n < 2 ^ 64"
  shows "m = n"
proof -
  have "map (\<lambda>i. m div 256 ^ i mod 256) [7, 6, 5, 4, 3, 2, 1, 0] = map (\<lambda>i. n div 256 ^ i mod 256) [7, 6, 5, 4, 3, 2, 1, 0]"
    using arg_cong [OF assms(1), of "map (of_char :: char \<Rightarrow> nat)"] by (simp add: be_bytes_def)
  then have e: "\<forall>i \<in> {0, 1, 2, 3, 4, 5, 6, 7}. m div 256 ^ i mod 256 = n div 256 ^ i mod 256" by simp
  have "i \<in> {0, 1, 2, 3, 4, 5, 6, 7}" if "i < 8" for i :: nat using that by (simp; linarith)
  then have "\<forall>i < 8. m div 256 ^ i mod 256 = n div 256 ^ i mod 256" using e by blast
  from digits_determine [OF this] show ?thesis using assms(2,3) by simp
qed

lemma length_be_bytes [simp]: "length (be_bytes n) = 8"
  by (simp add: be_bytes_def)

lemma frame_inject:
  assumes "frame xs = frame ys" and "\<forall>x \<in> set xs \<union> set ys. length x < 2 ^ 64"
  shows "xs = ys"
  using assms
proof (induction xs arbitrary: ys)
  case Nil
  then show ?case by (cases ys) (auto simp: frame_def be_bytes_def)
next
  case (Cons x xs)
  show ?case
  proof (cases ys)
    case Nil
    then show ?thesis using Cons.prems(1) by (simp add: frame_def be_bytes_def)
  next
    case (Cons y ys')
    have eq: "be_bytes (length x) @ x @ frame xs = be_bytes (length y) @ y @ frame ys'"
      using Cons.prems(1) by (simp add: Cons frame_def)
    then have "be_bytes (length x) = be_bytes (length y)" "x @ frame xs = y @ frame ys'" by simp_all
    moreover from this(1) have "length x = length y" using Cons.prems(2) Cons by (intro be_bytes_inject) simp_all
    ultimately have "x = y" "frame xs = frame ys'" by simp_all
    then show ?thesis using Cons.IH [of ys'] Cons.prems(2) Cons by simp
  qed
qed

subsection \<open>Linked observations\<close>

text \<open>
  The identifiers an adapter gives a span: sessions, turns and what happens inside a turn or, when the
  turn is not known, inside a session have identifiers made from the session, the turn and the
  operation, and each names its parent.
\<close>

definition turn_child :: "span_kind \<Rightarrow> bool" where
  "turn_child k \<longleftrightarrow> k \<in> {LlmRequest, ToolExecution, Permission, Compaction}"

definition bounded_id :: "string \<Rightarrow> bool" where
  "bounded_id s \<longleftrightarrow> s \<noteq> [] \<and> length s \<le> MAX_IDENTIFIER_BYTES"

definition handoff_shape :: "digest \<Rightarrow> string \<Rightarrow> source_observation \<Rightarrow> bool" where
  "handoff_shape sha prefix obs \<longleftrightarrow> (\<exists>s. c_session_id (so_correlation obs) = Some s \<and> bounded_id s \<and>
     so_trace_id obs = stable_id sha (prefix @ ''-trace'') [s] \<and>
     (kind_for_event (so_event obs) = AgentSession \<and>
        so_span_id obs = stable_id sha (prefix @ ''-session'') [s] \<and> so_parent_span_id obs = None \<or>
      (\<exists>leaf. turn_child (kind_for_event (so_event obs)) \<and>
        so_span_id obs = stable_id sha (prefix @ ''-span'') [s, leaf] \<and>
        so_parent_span_id obs = Some (stable_id sha (prefix @ ''-session'') [s])) \<or>
      (\<exists>t. c_turn_id (so_correlation obs) = Some t \<and> bounded_id t \<and>
        (kind_for_event (so_event obs) = Turn \<and> so_span_id obs = stable_id sha (prefix @ ''-turn'') [s, t] \<and>
           so_parent_span_id obs = Some (stable_id sha (prefix @ ''-session'') [s]) \<or>
         (\<exists>leaf. turn_child (kind_for_event (so_event obs)) \<and>
           so_span_id obs = stable_id sha (prefix @ ''-span'') [s, t, leaf] \<and>
           so_parent_span_id obs = Some (stable_id sha (prefix @ ''-turn'') [s, t]))))))"

definition identities :: "source_observation \<Rightarrow> string list set" where
  "identities obs = {cs. \<exists>s. c_session_id (so_correlation obs) = Some s \<and>
     (cs = [s] \<or> (\<exists>t. c_turn_id (so_correlation obs) = Some t \<and> cs = [s, t]))}"

definition no_collision :: "digest \<Rightarrow> source_observation list \<Rightarrow> bool" where
  "no_collision sha os \<longleftrightarrow> inj_on sha (frame ` \<Union> (identities ` set os))"

lemma bounded_id_less: "bounded_id s \<Longrightarrow> length s < 2 ^ 64"
  by (simp add: bounded_id_def MAX_IDENTIFIER_BYTES_def)

lemma stable_id_same_prefix: "stable_id sha p xs = stable_id sha p ys \<longleftrightarrow> sha (frame xs) = sha (frame ys)"
  by (simp add: stable_id_def hex_inject)

lemma stable_id_kinds:
  "stable_id sha (p @ ''-session'') xs \<noteq> stable_id sha (p @ ''-turn'') ys"
  "stable_id sha (p @ ''-session'') xs \<noteq> stable_id sha (p @ ''-span'') ys"
  "stable_id sha (p @ ''-turn'') xs \<noteq> stable_id sha (p @ ''-span'') ys"
  by (simp_all add: stable_id_def)

text \<open>A parent that is in the batch has the right kind and the right trace.\<close>

lemma shape_parent:
  assumes "handoff_shape sha p a" and "handoff_shape sha p b" and "so_parent_span_id a = Some (so_span_id b)"
    and inj: "inj_on sha (frame ` (identities a \<union> identities b))"
  shows "so_trace_id a = so_trace_id b \<and>
    valid_parent_kind (kind_for_event (so_event a)) (kind_for_event (so_event b))"
proof -
  obtain s where s: "c_session_id (so_correlation a) = Some s" "bounded_id s"
    "so_trace_id a = stable_id sha (p @ ''-trace'') [s]"
    using assms(1) by (auto simp: handoff_shape_def)
  obtain s' where s': "c_session_id (so_correlation b) = Some s'" "bounded_id s'"
    "so_trace_id b = stable_id sha (p @ ''-trace'') [s']"
    using assms(2) by (auto simp: handoff_shape_def)
  have same: "xs = ys" if "sha (frame xs) = sha (frame ys)" "xs \<in> identities a" "ys \<in> identities b"
    "\<forall>x \<in> set xs \<union> set ys. bounded_id x" for xs ys
  proof -
    have "frame xs = frame ys" using inj that(1-3) by (auto dest!: inj_onD)
    then show ?thesis using that(4) bounded_id_less by (intro frame_inject) blast+
  qed
  have sess: "[s] \<in> identities a" "[s'] \<in> identities b" using s s' by (auto simp: identities_def)
  consider (turn) "kind_for_event (so_event a) = Turn \<or> turn_child (kind_for_event (so_event a))"
      "so_parent_span_id a = Some (stable_id sha (p @ ''-session'') [s])"
    | (leaf) t where "turn_child (kind_for_event (so_event a))" "c_turn_id (so_correlation a) = Some t" "bounded_id t"
        "so_parent_span_id a = Some (stable_id sha (p @ ''-turn'') [s, t])"
    using assms(1,3) s by (auto simp: handoff_shape_def)
  then show ?thesis
  proof cases
    case turn
    then have id: "so_span_id b = stable_id sha (p @ ''-session'') [s]" using assms(3) by simp
    then have "kind_for_event (so_event b) = AgentSession" "sha (frame [s']) = sha (frame [s])"
      using assms(2) s'
      by (auto simp: handoff_shape_def stable_id_kinds stable_id_kinds [symmetric] stable_id_same_prefix)
    moreover from same [OF this(2) [symmetric] sess] have "s = s'" using s s' by simp
    ultimately show ?thesis using turn(1) s(3) s'(3) by (auto simp: turn_child_def)
  next
    case leaf
    then have id: "so_span_id b = stable_id sha (p @ ''-turn'') [s, t]" using assms(3) by simp
    then obtain t' where "kind_for_event (so_event b) = Turn" "c_turn_id (so_correlation b) = Some t'" "bounded_id t'"
      "sha (frame [s', t']) = sha (frame [s, t])"
      using assms(2) s'
      by (auto simp: handoff_shape_def stable_id_kinds stable_id_kinds [symmetric] stable_id_same_prefix)
    moreover from this have "[s, t] = [s', t']"
      using s s' leaf by (intro same) (auto simp: identities_def)
    ultimately show ?thesis using leaf(1) s(3) s'(3) by (auto simp: turn_child_def)
  qed
qed

lemma shape_not_own_parent: "handoff_shape sha p a \<Longrightarrow> so_parent_span_id a \<noteq> Some (so_span_id a)"
  by (auto simp: handoff_shape_def stable_id_kinds)

locale handoff_links =
  fixes sha :: digest and prefix :: string and emitted :: "source_observation \<Rightarrow> bool"
  assumes emitted_shape: "emitted obs \<Longrightarrow> handoff_shape sha prefix obs"
begin

lemma emitted_validate:
  assumes "list_all emitted os" and "no_collision sha os"
  shows "\<exists>v. validate_topology (map observation_state os) = Inr v"
proof -
  let ?xs = "map observation_state os"
  have "link_ok (index_states ?xs) (observation_state a) q"
    if a: "a \<in> set os" "so_parent_span_id a = Some q" for a q
  proof -
    have shape: "handoff_shape sha prefix o'" if "o' \<in> set os" for o'
      using that assms(1) emitted_shape by (auto simp: list_all_iff)
    have "q \<noteq> so_span_id a" using shape_not_own_parent [OF shape [OF a(1)]] a(2) by auto
    moreover have "s_trace_id r = so_trace_id a \<and> valid_parent_kind (kind_for_event (so_event a)) (s_kind r)"
      if r: "bt_get (index_states ?xs) q = Some r" for r
    proof -
      obtain b where b: "b \<in> set os" "r = observation_state b" "so_span_id b = q"
        using index_states_get [OF r] by (auto simp: observation_state_def)
      have "inj_on sha (frame ` (identities a \<union> identities b))"
        by (rule inj_on_subset [OF assms(2) [unfolded no_collision_def]]) (use a(1) b(1) in blast)
      then show ?thesis
        using shape_parent [OF shape [OF a(1)] shape [OF b(1)]] a(2) b by (simp add: observation_state_def)
    qed
    ultimately show ?thesis by (simp add: link_ok_def observation_state_def)
  qed
  then have "links_ok (index_states ?xs) ?xs" by (auto simp: links_ok_def observation_state_def)
  then show ?thesis
    unfolding validate_topology_iff
    by (intro exI [of _ "\<lparr>unresolved_parent_ids = sorted_list_of_set (missing_parents (index_states ?xs) ?xs)\<rparr>"]) simp
qed

end

subsection \<open>The loop over the records\<close>

text \<open>
  What a pass over the records carries: the items so far, the last cursor of each source generation,
  and the keys of the observations (generation, span, payload hash).  One adapter keeps the keys in a
  map to positions, the other in a set, that is, a map to the unit.
\<close>

type_synonym observation_key = "string \<times> string \<times> string"

record 'p loop_state =
  ls_items :: adapter_batch
  ls_cursors :: "(string, string) btree"
  ls_seen :: "(observation_key, 'p) btree"

definition loop_start :: "'p loop_state" where
  "loop_start = \<lparr>ls_items = [], ls_cursors = [], ls_seen = []\<rparr>"

fun try_fold :: "('s \<Rightarrow> 'a \<Rightarrow> 'e + 's) \<Rightarrow> 's \<Rightarrow> 'a list \<Rightarrow> 'e + 's" where
  "try_fold f s [] = Inr s"
| "try_fold f s (x # xs) = bind_result (f s x) (\<lambda>s'. try_fold f s' xs)"

lemma try_fold_append: "try_fold f s (xs @ ys) = bind_result (try_fold f s xs) (\<lambda>t. try_fold f t ys)"
  by (induction xs arbitrary: s) (auto simp: bind_result_def split: sum.splits)

lemma try_fold_snoc:
  "try_fold f s (xs @ [x]) = Inr t \<longleftrightarrow> (\<exists>u. try_fold f s xs = Inr u \<and> f u x = Inr t)"
  by (auto simp: try_fold_append result_simps)

text \<open>The checkpoint an item stands for, and the key of an observation.\<close>

fun item_checkpoint :: "adapter_item \<Rightarrow> source_checkpoint" where
  "item_checkpoint (Observation o1) =
     \<lparr>sc_source = so_source o1, sc_source_generation = so_source_generation o1,
      sc_previous_source_cursor = so_previous_source_cursor o1, sc_source_cursor = so_source_cursor o1\<rparr>"
| "item_checkpoint (Disposition d) = ad_checkpoint d"

definition record_checkpoint :: "agent_source \<Rightarrow> 'surface handoff_record \<Rightarrow> source_checkpoint" where
  "record_checkpoint source r =
     \<lparr>sc_source = source, sc_source_generation = hr_source_generation r,
      sc_previous_source_cursor = hr_previous_cursor r, sc_source_cursor = hr_cursor r\<rparr>"

lemma record_checkpoint_sel [simp]:
  "sc_source (record_checkpoint source r) = source"
  "sc_source_generation (record_checkpoint source r) = hr_source_generation r"
  "sc_source_cursor (record_checkpoint source r) = hr_cursor r"
  "sc_previous_source_cursor (record_checkpoint source r) = hr_previous_cursor r"
  by (simp_all add: record_checkpoint_def)

lemma payload_hash_defined:
  assumes "\<forall>s. encode s \<noteq> None"
  shows "(\<exists>h. canonical_observation_payload_hash sha encode o1 = Inr h) \<longleftrightarrow>
    all_safe (observation_state o1) \<and> nonempty_texts o1 \<and> \<not> end_before_start (so_timing o1)"
proof -
  have same: "same_span o1 (observation_state o1)" "s_timing (observation_state o1) = so_timing o1"
    by (simp_all add: same_span_def observation_state_def)
  have "(\<exists>h. canonical_observation_payload_hash sha encode o1 = Inr h) \<longleftrightarrow>
      (\<exists>r. project_durable_record o1 (observation_state o1) = Inr r)"
    using canonical_hash_defined [OF _ assms]
    by (auto simp: canonical_observation_payload_hash_def bind_result_eq_Inr) blast
  then show ?thesis using same by (auto simp: project_durable_record_eq projected_valid)
qed

definition observation_key ::
  "digest \<Rightarrow> (durable_record \<Rightarrow> string option) \<Rightarrow> source_observation \<Rightarrow> contract_error + observation_key" where
  "observation_key sha encode o1 = bind_result (canonical_observation_payload_hash sha encode o1)
     (\<lambda>hash. Inr (so_source_generation o1, so_span_id o1, hash))"

text \<open>Within a source generation every checkpoint names the cursor of the one before it.\<close>

definition chained :: "source_checkpoint list \<Rightarrow> bool" where
  "chained cps \<longleftrightarrow> (\<forall>g. successively (\<lambda>a b. sc_previous_source_cursor b = Some (sc_source_cursor a))
     (filter (\<lambda>c. sc_source_generation c = g) cps))"

definition last_cursor :: "source_checkpoint list \<Rightarrow> string \<Rightarrow> string option" where
  "last_cursor cps g = (let same = filter (\<lambda>c. sc_source_generation c = g) cps in
     if same = [] then None else Some (sc_source_cursor (last same)))"

lemma chained_Nil [simp]: "chained []"
  by (simp add: chained_def)

lemma last_cursor_Nil [simp]: "last_cursor [] = Map.empty"
  by (simp add: last_cursor_def fun_eq_iff)

lemma last_cursor_snoc:
  "last_cursor (cps @ [c]) = (last_cursor cps)(sc_source_generation c \<mapsto> sc_source_cursor c)"
  by (auto simp: last_cursor_def fun_eq_iff Let_def)

lemma chained_snoc:
  "chained (cps @ [c]) \<longleftrightarrow> chained cps \<and>
     (case last_cursor cps (sc_source_generation c) of
        None \<Rightarrow> True | Some p \<Rightarrow> sc_previous_source_cursor c = Some p)"
  by (auto simp: chained_def last_cursor_def successively_append_iff Let_def)

lemma observations_snoc [simp]:
  "observations (items @ [Observation o1]) = observations items @ [o1]"
  "observations (items @ [Disposition d]) = observations items"
  "observations [] = []"
  by (simp_all add: observations_def present_def)

lemma in_observations: "o1 \<in> set (observations items) \<longleftrightarrow> Observation o1 \<in> set items"
  by (force simp: observations_def split: adapter_item.splits)

locale handoff_loop =
  fixes step :: "'p loop_state \<Rightarrow> nat \<times> 'surface handoff_record \<Rightarrow> adapter_error + 'p loop_state"
    and source :: agent_source
    and key :: "source_observation \<Rightarrow> contract_error + observation_key"
    and emitted :: "source_observation \<Rightarrow> bool"
    and record_ok :: "'surface handoff_record \<Rightarrow> bool"
  assumes step_item: "step s (i, r) = Inr t \<Longrightarrow> \<exists>item. ls_items t = ls_items s @ [item] \<and>
        item_checkpoint item = record_checkpoint source r \<and>
        (case item of
           Observation o1 \<Rightarrow> emitted o1 \<and> (\<exists>k p. key o1 = Inr k \<and> bt_get (ls_seen s) k = None \<and>
             ls_seen t = bt_insert k p (ls_seen s))
         | Disposition d \<Rightarrow> ad_record_index d = i \<and> ls_seen t = ls_seen s)"
    and step_cursor: "step s (i, r) = Inr t \<Longrightarrow>
        ls_cursors t = bt_insert (hr_source_generation r) (hr_cursor r) (ls_cursors s) \<and>
        (case bt_get (ls_cursors s) (hr_source_generation r) of
           None \<Rightarrow> True | Some c \<Rightarrow> hr_previous_cursor r = Some c)"
    and step_accepts: "record_ok r \<and> (case bt_get (ls_cursors s) (hr_source_generation r) of
           None \<Rightarrow> True | Some c \<Rightarrow> hr_previous_cursor r = Some c) \<longleftrightarrow> (\<exists>t. step s (i, r) = Inr t)"
begin

definition loop_inv :: "(nat \<times> 'surface handoff_record) list \<Rightarrow> 'p loop_state \<Rightarrow> bool" where
  "loop_inv rs s \<longleftrightarrow>
     map item_checkpoint (ls_items s) = map (\<lambda>x. record_checkpoint source (snd x)) rs \<and>
     chained (map item_checkpoint (ls_items s)) \<and>
     list_all emitted (observations (ls_items s)) \<and>
     distinct (map key (observations (ls_items s))) \<and>
     bt_sorted (ls_cursors s) \<and> bt_get (ls_cursors s) = last_cursor (map item_checkpoint (ls_items s)) \<and>
     bt_sorted (ls_seen s) \<and> Inr ` dom (bt_get (ls_seen s)) = key ` set (observations (ls_items s))"

lemma loop_inv_step:
  assumes inv: "loop_inv rs s" and step: "step s (i, r) = Inr t"
  shows "loop_inv (rs @ [(i, r)]) t"
proof -
  obtain item where item: "ls_items t = ls_items s @ [item]" "item_checkpoint item = record_checkpoint source r"
    and seen: "case item of
        Observation o1 \<Rightarrow> emitted o1 \<and> (\<exists>k p. key o1 = Inr k \<and> bt_get (ls_seen s) k = None \<and>
          ls_seen t = bt_insert k p (ls_seen s))
      | Disposition d \<Rightarrow> ad_record_index d = i \<and> ls_seen t = ls_seen s"
    using step_item [OF step] by blast
  have cursors: "ls_cursors t = bt_insert (hr_source_generation r) (hr_cursor r) (ls_cursors s)"
    "case last_cursor (map item_checkpoint (ls_items s)) (hr_source_generation r) of
       None \<Rightarrow> True | Some c \<Rightarrow> hr_previous_cursor r = Some c"
    using step_cursor [OF step] inv by (simp_all add: loop_inv_def)
  have keys: "list_all emitted (observations (ls_items t)) \<and> distinct (map key (observations (ls_items t))) \<and>
      bt_sorted (ls_seen t) \<and> Inr ` dom (bt_get (ls_seen t)) = key ` set (observations (ls_items t))"
  proof (cases item)
    case (Observation o1)
    then obtain k p where k: "emitted o1" "key o1 = Inr k" "bt_get (ls_seen s) k = None"
      "ls_seen t = bt_insert k p (ls_seen s)"
      using seen by auto
    have "key o1 \<notin> key ` set (observations (ls_items s))"
      using inv k unfolding loop_inv_def by (metis (no_types, lifting) Inr_inject domIff imageE)
    then show ?thesis
      using inv k item Observation by (auto simp: loop_inv_def bt_sorted_insert bt_get_insert)
  next
    case (Disposition d)
    then show ?thesis using inv item seen by (auto simp: loop_inv_def)
  qed
  moreover have "chained (map item_checkpoint (ls_items t))"
    using inv cursors(2) unfolding loop_inv_def item map_append list.map chained_snoc record_checkpoint_sel by blast
  moreover have "bt_get (ls_cursors t) = last_cursor (map item_checkpoint (ls_items t))"
    using inv item cursors(1) by (simp add: loop_inv_def last_cursor_snoc bt_get_insert)
  ultimately show ?thesis
    using inv item cursors(1) unfolding loop_inv_def by (simp add: bt_sorted_insert)
qed

lemma loop_invariant: "try_fold step loop_start rs = Inr s \<Longrightarrow> loop_inv rs s"
proof (induction rs arbitrary: s rule: rev_induct)
  case Nil
  then show ?case by (auto simp: loop_inv_def loop_start_def bt.inv_emp bt.get_emp)
next
  case (snoc x rs)
  then show ?case by (cases x) (auto simp: try_fold_snoc intro: loop_inv_step)
qed

text \<open>The loop accepts exactly the acceptable records whose cursors form chains.\<close>

lemma loop_accepts:
  "(\<exists>s. try_fold step loop_start rs = Inr s) \<longleftrightarrow>
     list_all (\<lambda>x. record_ok (snd x)) rs \<and> chained (map (\<lambda>x. record_checkpoint source (snd x)) rs)"
proof (induction rs rule: rev_induct)
  case Nil
  then show ?case by simp
next
  case (snoc x rs)
  obtain i r where x: "x = (i, r)" by (cases x)
  have last: "bt_get (ls_cursors s) = last_cursor (map (\<lambda>x. record_checkpoint source (snd x)) rs)"
    if "try_fold step loop_start rs = Inr s" for s
    using loop_invariant [OF that] by (simp add: loop_inv_def)
  have "(\<exists>t. try_fold step loop_start (rs @ [x]) = Inr t) \<longleftrightarrow>
      (\<exists>s. try_fold step loop_start rs = Inr s \<and> (\<exists>t. step s (i, r) = Inr t))"
    by (auto simp: try_fold_snoc x)
  also have "\<dots> \<longleftrightarrow> (\<exists>s. try_fold step loop_start rs = Inr s) \<and> record_ok r \<and>
      (case last_cursor (map (\<lambda>x. record_checkpoint source (snd x)) rs) (hr_source_generation r) of
         None \<Rightarrow> True | Some c \<Rightarrow> hr_previous_cursor r = Some c)"
    using last by (auto simp: step_accepts [symmetric])
  also have "\<dots> \<longleftrightarrow> list_all (\<lambda>x. record_ok (snd x)) (rs @ [x]) \<and>
      chained (map (\<lambda>x. record_checkpoint source (snd x)) (rs @ [x]))"
    using snoc.IH by (auto simp: x chained_snoc split: option.splits)
  finally show ?case .
qed

end

text \<open>The records of the lines that are not blank, with the number of their line, from one.\<close>

fun numbered_records ::
  "(string \<Rightarrow> 'surface handoff_record option) \<Rightarrow> nat \<Rightarrow> string list \<Rightarrow> (nat \<times> 'surface handoff_record) list" where
  "numbered_records decode i [] = []"
| "numbered_records decode i (l # ls) = (if blank_line l then numbered_records decode (i + 1) ls
     else (case decode l of
         None \<Rightarrow> numbered_records decode (i + 1) ls
       | Some r \<Rightarrow> (i + 1, r) # numbered_records decode (i + 1) ls))"

subsection \<open>Shared parts of the adapters' properties\<close>

lemma timing_ok [simp]:
  "(case timing_new a b of Inl _ \<Rightarrow> Inl e | Inr t \<Rightarrow> Inr t) = Inr t \<longleftrightarrow> timing_new a b = Inr t"
  by (cases "timing_new a b") auto

lemma timing_new_ordered: "timing_new a b = Inr t \<Longrightarrow> \<not> end_before_start t"
  by (auto simp: timing_new_def end_before_start_def split: if_splits option.splits)

definition mapped_ok :: "(source_observation \<Rightarrow> bool) \<Rightarrow> adapter_error + mapping \<Rightarrow> bool" where
  "mapped_ok ok m = (case m of Inr (MappedObservation o1) \<Rightarrow> ok o1 | _ \<Rightarrow> True)"

definition hashes :: "digest \<Rightarrow> (durable_record \<Rightarrow> string option) \<Rightarrow> source_observation \<Rightarrow> bool" where
  "hashes sha encode o1 \<longleftrightarrow> (\<exists>h. canonical_observation_payload_hash sha encode o1 = Inr h)"

definition agree_on :: "string list \<Rightarrow> attributes \<Rightarrow> attributes \<Rightarrow> bool" where
  "agree_on ks a b \<longleftrightarrow> list_all (\<lambda>k. bt_get a k = bt_get b k) ks"

definition lines_ok :: "(string \<Rightarrow> 'surface handoff_record option) \<Rightarrow> string list \<Rightarrow> bool" where
  "lines_ok decode ls \<longleftrightarrow> list_all (\<lambda>l. length l \<le> MAX_HANDOFF_LINE_BYTES) ls \<and>
     list_all (\<lambda>l. decode l \<noteq> None) (filter (\<lambda>l. \<not> blank_line l) ls)"

lemma numbered_records_length:
  "lines_ok decode ls \<Longrightarrow>
     length (numbered_records decode i ls) = length (filter (\<lambda>l. \<not> blank_line l) ls)"
  by (induction ls arbitrary: i) (auto simp: lines_ok_def)

definition header_ok :: "string \<Rightarrow> 'surface handoff_record \<Rightarrow> bool" where
  "header_ok schema record \<longleftrightarrow> hr_schema_version record = schema \<and>
     bounded_id (hr_source_generation record) \<and> bounded_id (hr_cursor record) \<and>
     list_all bounded_id (present [hr_previous_cursor record]) \<and> hr_previous_cursor record \<noteq> Some (hr_cursor record)"

subsection \<open>A sample digest\<close>

definition sample_digest :: digest where
  "sample_digest x = map (\<lambda>c. word_of_nat (of_char c)) x"

lemma sample_no_collision: "no_collision sample_digest os"
proof -
  have "char_of (unat (word_of_nat (of_char c) :: u8)) = c" for c :: char
    by (simp add: unsigned_of_nat char_of_take_bit_eq)
  then have "inj (\<lambda>c. word_of_nat (of_char c) :: u8)" by (rule inj_on_inverseI)
  then have "inj sample_digest" by (simp add: sample_digest_def [abs_def] inj_on_def)
  then show ?thesis by (auto simp: no_collision_def intro: inj_on_subset)
qed

lemma sample_bounded: "length p \<le> 100 \<Longrightarrow> length (frame xs) \<le> 200 \<Longrightarrow> bounded_id (stable_id sample_digest p xs)"
  by (simp add: bounded_id_def stable_id_def MAX_IDENTIFIER_BYTES_def sample_digest_def length_hex)

lemma short_bounded: "x \<noteq> [] \<Longrightarrow> length x \<le> 100 \<Longrightarrow> bounded_id x"
  by (simp add: bounded_id_def MAX_IDENTIFIER_BYTES_def)

end
