(* ===== verification/Jsonl_Adapter.thy ===== *)
theory Jsonl_Adapter
  imports Handoff
begin

section \<open>Adapters for lines of JSON\<close>

text \<open>
  What the Claude Code and the Codex adapter have in common, declared once: the attribute getters,
  the checks of a record, the loop over the lines (\<^verbatim>\<open>crates/adapter-claude-code/src/lib.rs\<close>, with a copy
  in \<^verbatim>\<open>crates/adapter-codex/src/lib.rs\<close>).  An adapter supplies its schema, its source and the mapping of
  a record.  The record part of the loop also serves the Cursor adapter, which keeps a set where the
  others keep a map to positions; \<open>slot\<close> says what is kept with a key.  The locale
  \<open>jsonl_adapter\<close> is the contract of a mapping; the batch's invariant follows from it.
\<close>

subsection \<open>Attributes\<close>

definition optional_string :: "attributes \<Rightarrow> string \<Rightarrow> adapter_error + string option" where
  "optional_string attributes key = (case bt_get attributes key of
       None \<Rightarrow> Inr None
     | Some (VString value) \<Rightarrow> if value \<noteq> [] then Inr (Some value) else Inl InvalidIdentifier
     | Some _ \<Rightarrow> Inl InvalidIdentifier)"

definition required_string :: "attributes \<Rightarrow> string \<Rightarrow> adapter_error + string" where
  "required_string attributes key =
     bind_result (optional_string attributes key) (\<lambda>v. ok_or v InvalidIdentifier)"

definition optional_u64 :: "attributes \<Rightarrow> string \<Rightarrow> adapter_error + u64 option" where
  "optional_u64 attributes key = (case bt_get attributes key of
       None \<Rightarrow> Inr None
     | Some (VNumber value) \<Rightarrow> bind_result (ok_or (as_u64 value) InvalidTiming) (\<lambda>n. Inr (Some n))
     | Some _ \<Rightarrow> Inl InvalidTiming)"

definition optional_bool :: "attributes \<Rightarrow> string \<Rightarrow> adapter_error + bool option" where
  "optional_bool attributes key = (case bt_get attributes key of
       None \<Rightarrow> Inr None
     | Some (VBool value) \<Rightarrow> Inr (Some value)
     | Some _ \<Rightarrow> Inl InvalidTiming)"

fun lifecycle_from_success :: "bool option \<Rightarrow> lifecycle_state" where
  "lifecycle_from_success (Some False) = Failed"
| "lifecycle_from_success (Some True) = Completed"
| "lifecycle_from_success None = Observed"

definition parse_identifier :: "string \<Rightarrow> adapter_error + string" where
  "parse_identifier value = (case Domain.parse_identifier value of
       Inl _ \<Rightarrow> Inl InvalidIdentifier | Inr v \<Rightarrow> Inr v)"

subsection \<open>A record\<close>

definition validate_raw_cursor ::
  "'surface handoff_record \<Rightarrow> (string, string) btree \<Rightarrow> adapter_error + unit" where
  "validate_raw_cursor record cursors =
     (let expected = bt_get cursors (hr_source_generation record);
          previous = hr_previous_cursor record
      in if hr_cursor record = [] \<or> previous = Some (hr_cursor record) \<or>
            (case expected of None \<Rightarrow> False | Some e \<Rightarrow> previous \<noteq> Some e)
         then Inl InvalidCursorSequence else Inr ())"

definition checkpoint_from_record ::
  "agent_source \<Rightarrow> 'surface handoff_record \<Rightarrow> adapter_error + source_checkpoint" where
  "checkpoint_from_record source record =
     bind_result (parse_identifier (hr_source_generation record)) (\<lambda>generation.
     bind_result (try_option parse_identifier (hr_previous_cursor record)) (\<lambda>previous.
     bind_result (parse_identifier (hr_cursor record)) (\<lambda>cursor.
     Inr \<lparr>sc_source = source, sc_source_generation = generation,
          sc_previous_source_cursor = previous, sc_source_cursor = cursor\<rparr>)))"

text \<open>An error of the mapping becomes a diagnostic.\<close>

definition diagnosed :: "adapter_error + mapping \<Rightarrow> adapter_error + mapping" where
  "diagnosed result = (case result of
       Inr mapping \<Rightarrow> Inr mapping
     | Inl InvalidIdentifier \<Rightarrow> Inr (MappedDiagnostic MissingCorrelation)
     | Inl InvalidTiming \<Rightarrow> Inr (MappedDiagnostic InvalidFieldType)
     | Inl InvalidField \<Rightarrow> Inr (MappedDiagnostic InvalidFieldType)
     | Inl error \<Rightarrow> Inl error)"

text \<open>What a mapping adds to the batch.\<close>

definition record_mapping ::
  "(nat \<Rightarrow> 'p) \<Rightarrow> digest \<Rightarrow> (durable_record \<Rightarrow> string option) \<Rightarrow> nat \<Rightarrow> source_checkpoint \<Rightarrow> mapping \<Rightarrow>
   'p loop_state \<Rightarrow> adapter_error + 'p loop_state" where
  "record_mapping slot sha encode record_index checkpoint mapping s = (case mapping of
       MappedObservation observation \<Rightarrow>
         (case canonical_observation_payload_hash sha encode observation of
            Inl _ \<Rightarrow> Inl InvalidField
          | Inr payload_hash \<Rightarrow>
              let key = (so_source_generation observation, so_span_id observation, payload_hash)
              in (case bt_get (ls_seen s) key of
                    Some _ \<Rightarrow> Inr (s\<lparr>ls_items := ls_items s @ [Disposition
                      \<lparr>ad_record_index = record_index, ad_code = DuplicateObservation,
                       ad_checkpoint = checkpoint, ad_disposition = Suppressed,
                       ad_payload_hash = Some payload_hash\<rparr>]\<rparr>)
                  | None \<Rightarrow> Inr (s\<lparr>ls_seen := bt_insert key (slot (length (ls_items s))) (ls_seen s),
                      ls_items := ls_items s @ [Observation observation]\<rparr>)))
     | MappedDiagnostic code \<Rightarrow> Inr (s\<lparr>ls_items := ls_items s @ [Disposition
         \<lparr>ad_record_index = record_index, ad_code = code, ad_checkpoint = checkpoint,
          ad_disposition = Diagnostic, ad_payload_hash = None\<rparr>]\<rparr>))"

definition parse_record ::
  "string \<Rightarrow> agent_source \<Rightarrow> ('surface handoff_record \<Rightarrow> nat \<Rightarrow> adapter_error + mapping) \<Rightarrow> (nat \<Rightarrow> 'p) \<Rightarrow>
   digest \<Rightarrow> (durable_record \<Rightarrow> string option) \<Rightarrow> 'p loop_state \<Rightarrow> nat \<times> 'surface handoff_record \<Rightarrow>
   adapter_error + 'p loop_state" where
  "parse_record schema source from_record slot sha encode s indexed = (case indexed of (record_index, record) \<Rightarrow>
     if hr_schema_version record \<noteq> schema then Inl InvalidSchema
     else bind_result (validate_raw_cursor record (ls_cursors s)) (\<lambda>_.
     let cursors = bt_insert (hr_source_generation record) (hr_cursor record) (ls_cursors s)
     in bind_result (checkpoint_from_record source record) (\<lambda>checkpoint.
     bind_result (diagnosed (from_record record record_index)) (\<lambda>mapping.
     record_mapping slot sha encode record_index checkpoint mapping (s\<lparr>ls_cursors := cursors\<rparr>)))))"

subsection \<open>The lines\<close>

definition parse_line ::
  "('p loop_state \<Rightarrow> nat \<times> 'surface handoff_record \<Rightarrow> adapter_error + 'p loop_state) \<Rightarrow>
   (string \<Rightarrow> 'surface handoff_record option) \<Rightarrow> 'p loop_state \<Rightarrow> nat \<times> string \<Rightarrow> adapter_error + 'p loop_state" where
  "parse_line record_step decode s indexed = (case indexed of (index, line) \<Rightarrow>
     if index \<ge> MAX_HANDOFF_LINES then Inl TooManyRecords
     else if length line > MAX_HANDOFF_LINE_BYTES then Inl RecordTooLarge
     else if blank_line line then Inr s
     else bind_result (ok_or (decode line) InvalidJson) (\<lambda>record. record_step s (index + 1, record)))"

definition parse_jsonl ::
  "string \<Rightarrow> agent_source \<Rightarrow> ('surface handoff_record \<Rightarrow> nat \<Rightarrow> adapter_error + mapping) \<Rightarrow> digest \<Rightarrow>
   (durable_record \<Rightarrow> string option) \<Rightarrow> (string \<Rightarrow> 'surface handoff_record option) \<Rightarrow> string \<Rightarrow>
   adapter_error + adapter_batch" where
  "parse_jsonl schema source from_record sha encode decode input =
     (if length input > MAX_HANDOFF_BYTES then Inl HandoffTooLarge
      else bind_result (try_fold (parse_line (parse_record schema source from_record (\<lambda>i. i) sha encode) decode)
          loop_start (List.enumerate 0 (lines_of input)))
        (\<lambda>s. Inr (ls_items s)))"

subsection \<open>Laws of the parts\<close>

lemma parse_identifier_eq [simp]: "parse_identifier value = Inr v \<longleftrightarrow> v = value \<and> bounded_id value"
  by (auto simp: parse_identifier_def Domain.parse_identifier_def validate_identifier_def bounded_id_def)

lemma parse_option_eq [simp]:
  "try_option parse_identifier v = Inr w \<longleftrightarrow> w = v \<and> (case v of None \<Rightarrow> True | Some x \<Rightarrow> bounded_id x)"
  by (auto simp: try_option_eq_Inr split: option.splits)

lemma parse_bounded: "bounded_id v \<Longrightarrow> parse_identifier v = Inr v"
  by simp

definition attribute_error :: "adapter_error \<Rightarrow> bool" where
  "attribute_error e \<longleftrightarrow> e \<in> {InvalidIdentifier, InvalidTiming, InvalidField}"

lemma attribute_error_bind:
  "bind_result m f = Inl e \<Longrightarrow> (m = Inl e \<Longrightarrow> attribute_error e) \<Longrightarrow>
     (\<And>a. m = Inr a \<Longrightarrow> f a = Inl e \<Longrightarrow> attribute_error e) \<Longrightarrow> attribute_error e"
  by (auto simp: bind_result_eq_Inl)

lemma parse_error: "parse_identifier v = Inl e \<Longrightarrow> attribute_error e"
  by (cases "Domain.parse_identifier v") (simp_all add: parse_identifier_def attribute_error_def)

lemma attribute_errors [simp]:
  "attribute_error InvalidIdentifier" "attribute_error InvalidTiming" "attribute_error InvalidField"
  by (simp_all add: attribute_error_def)

lemma getter_errors:
  "optional_string a k = Inl e \<Longrightarrow> attribute_error e"
  "required_string a k = Inl e \<Longrightarrow> attribute_error e"
  "optional_u64 a k = Inl e \<Longrightarrow> attribute_error e"
  "optional_bool a k = Inl e \<Longrightarrow> attribute_error e"
  "try_option parse_identifier w = Inl e \<Longrightarrow> attribute_error e"
  by (auto simp: optional_string_def required_string_def optional_u64_def optional_bool_def
    bind_result_eq_Inl try_option_eq_Inl dest: parse_error split: option.splits attribute_value.splits if_splits)

lemma timing_error: "(case timing_new a b of Inl _ \<Rightarrow> Inl InvalidTiming | Inr t \<Rightarrow> Inr t) = Inl e \<Longrightarrow> attribute_error e"
  by (cases "timing_new a b") auto

lemma key_getters:
  assumes "agree_on ks a b" and "k \<in> set ks"
  shows "required_string a k = required_string b k" "optional_u64 a k = optional_u64 b k"
    "optional_bool a k = optional_bool b k" "optional_string a k = optional_string b k"
proof -
  have "bt_get a k = bt_get b k" using assms by (simp add: agree_on_def list_all_iff)
  then show "required_string a k = required_string b k" "optional_u64 a k = optional_u64 b k"
    "optional_bool a k = optional_bool b k" "optional_string a k = optional_string b k"
    by (simp_all add: required_string_def optional_string_def optional_u64_def optional_bool_def)
qed

lemma diagnosed_observation [simp]:
  "diagnosed r = Inr (MappedObservation o1) \<longleftrightarrow> r = Inr (MappedObservation o1)"
  by (auto simp: diagnosed_def split: sum.splits adapter_error.splits)

lemma validate_raw_cursor_iff:
  "validate_raw_cursor record cursors = Inr u \<longleftrightarrow> hr_cursor record \<noteq> [] \<and>
     hr_previous_cursor record \<noteq> Some (hr_cursor record) \<and>
     (case bt_get cursors (hr_source_generation record) of
        None \<Rightarrow> True | Some c \<Rightarrow> hr_previous_cursor record = Some c)"
  by (auto simp: validate_raw_cursor_def Let_def split: option.splits)

lemma checkpoint_eq:
  "checkpoint_from_record source record = Inr c \<Longrightarrow> c = record_checkpoint source record"
  by (auto simp: checkpoint_from_record_def record_checkpoint_def result_simps)

lemma checkpoint_accepts: "(\<exists>c. checkpoint_from_record source record = Inr c) \<longleftrightarrow>
    bounded_id (hr_source_generation record) \<and> bounded_id (hr_cursor record) \<and>
    list_all bounded_id (present [hr_previous_cursor record])"
  by (auto simp: checkpoint_from_record_def bind_result_eq_Inr present_def split: option.splits)

lemma record_mapping_item:
  assumes "record_mapping slot sha encode i checkpoint m s = Inr t"
  shows "ls_cursors t = ls_cursors s \<and> (\<exists>item. ls_items t = ls_items s @ [item] \<and>
    (case item of
       Observation o1 \<Rightarrow> m = MappedObservation o1 \<and> (\<exists>k p. observation_key sha encode o1 = Inr k \<and>
         bt_get (ls_seen s) k = None \<and> ls_seen t = bt_insert k p (ls_seen s))
     | Disposition d \<Rightarrow> ad_checkpoint d = checkpoint \<and> ad_record_index d = i \<and> ls_seen t = ls_seen s))"
  using assms
  by (cases m) (auto simp: record_mapping_def Let_def result_simps observation_key_def
    split: sum.splits option.splits)

lemma record_mapping_accepts:
  "(\<exists>t. record_mapping slot sha encode i checkpoint m s = Inr t) \<longleftrightarrow> mapped_ok (hashes sha encode) (Inr m)"
  by (cases m) (auto simp: record_mapping_def mapped_ok_def hashes_def Let_def split: sum.splits option.splits)

lemma parse_record_steps:
  assumes "parse_record schema source from_record slot sha encode s (i, r) = Inr t"
  obtains m where "diagnosed (from_record r i) = Inr m" "validate_raw_cursor r (ls_cursors s) = Inr ()"
    "record_mapping slot sha encode i (record_checkpoint source r) m
      (s\<lparr>ls_cursors := bt_insert (hr_source_generation r) (hr_cursor r) (ls_cursors s)\<rparr>) = Inr t"
  using assms checkpoint_eq by (auto simp: parse_record_def Let_def bind_result_eq_Inr split: if_splits)

lemma parse_lines_eq:
  "lines_ok decode ls \<Longrightarrow> i + length ls \<le> MAX_HANDOFF_LINES \<Longrightarrow>
     try_fold (parse_line step decode) s (List.enumerate i ls) = try_fold step s (numbered_records decode i ls)"
  by (induction ls arbitrary: i s) (auto simp: parse_line_def lines_ok_def bind_result_def split: sum.splits)

lemma parse_lines_ok:
  "try_fold (parse_line step decode) s (List.enumerate i ls) = Inr t \<Longrightarrow>
     lines_ok decode ls \<and> (ls = [] \<or> i + length ls \<le> MAX_HANDOFF_LINES)"
proof (induction ls arbitrary: i s)
  case (Cons l ls)
  then obtain u where u: "parse_line step decode s (i, l) = Inr u"
    "try_fold (parse_line step decode) u (List.enumerate (Suc i) ls) = Inr t"
    by (auto simp: bind_result_eq_Inr)
  have "i < MAX_HANDOFF_LINES \<and> lines_ok decode [l]"
    using u(1) by (auto simp: parse_line_def lines_ok_def bind_result_eq_Inr split: if_splits)
  then show ?case using Cons.IH [OF u(2)] by (auto simp: lines_ok_def)
qed (simp add: lines_ok_def)

lemma parse_jsonl_eq:
  "parse_jsonl schema source from_record sha encode decode input = Inr items \<longleftrightarrow>
     length input \<le> MAX_HANDOFF_BYTES \<and> length (lines_of input) \<le> MAX_HANDOFF_LINES \<and>
     lines_ok decode (lines_of input) \<and>
     (\<exists>s. try_fold (parse_record schema source from_record (\<lambda>i. i) sha encode) loop_start
         (numbered_records decode 0 (lines_of input)) = Inr s \<and> ls_items s = items)"
proof -
  let ?step = "parse_record schema source from_record (\<lambda>i. i) sha encode"
  have "try_fold (parse_line ?step decode) loop_start (List.enumerate 0 (lines_of input)) = Inr s \<longleftrightarrow>
      length (lines_of input) \<le> MAX_HANDOFF_LINES \<and> lines_ok decode (lines_of input) \<and>
      try_fold ?step loop_start (numbered_records decode 0 (lines_of input)) = Inr s" for s
    using parse_lines_ok [of ?step decode loop_start 0 "lines_of input" s]
      parse_lines_eq [of decode "lines_of input" 0 ?step loop_start] by auto
  then show ?thesis by (auto simp: parse_jsonl_def bind_result_eq_Inr)
qed

subsection \<open>The contract of a mapping\<close>

locale jsonl_adapter = handoff_links sha prefix emitted
  for sha :: digest and prefix :: string and emitted :: "source_observation \<Rightarrow> bool" +
  fixes schema :: string and source :: agent_source
    and from_record :: "'surface handoff_record \<Rightarrow> nat \<Rightarrow> adapter_error + mapping"
    and slot :: "nat \<Rightarrow> 'p" and encode :: "durable_record \<Rightarrow> string option"
  assumes maps: "from_record r i = Inr (MappedObservation o1) \<Longrightarrow>
        emitted o1 \<and> item_checkpoint (Observation o1) = record_checkpoint source r"
    and fails: "from_record r i = Inl e \<Longrightarrow> attribute_error e"
    and index_irrelevant: "from_record r i = from_record r j"
    and texts: "emitted o1 \<Longrightarrow> nonempty_texts o1 \<and> \<not> end_before_start (so_timing o1)"
begin

definition record_ok :: "'surface handoff_record \<Rightarrow> bool" where
  "record_ok r \<longleftrightarrow> header_ok schema r \<and> mapped_ok (hashes sha encode) (from_record r 0)"

lemma record_item:
  assumes "parse_record schema source from_record slot sha encode s (i, r) = Inr t"
  shows "\<exists>item. ls_items t = ls_items s @ [item] \<and> item_checkpoint item = record_checkpoint source r \<and>
    (case item of
       Observation o1 \<Rightarrow> emitted o1 \<and> (\<exists>k p. observation_key sha encode o1 = Inr k \<and>
         bt_get (ls_seen s) k = None \<and> ls_seen t = bt_insert k p (ls_seen s))
     | Disposition d \<Rightarrow> ad_record_index d = i \<and> ls_seen t = ls_seen s)"
proof -
  obtain m where m: "diagnosed (from_record r i) = Inr m" and t: "record_mapping slot sha encode i
      (record_checkpoint source r) m (s\<lparr>ls_cursors := bt_insert (hr_source_generation r) (hr_cursor r) (ls_cursors s)\<rparr>) = Inr t"
    by (rule parse_record_steps [OF assms])
  have "emitted o1 \<and> item_checkpoint (Observation o1) = record_checkpoint source r" if "m = MappedObservation o1" for o1
    using that m maps [of r i o1] by simp
  then show ?thesis
    using record_mapping_item [OF t] by (auto split: adapter_item.splits)
qed

lemma record_cursor:
  assumes "parse_record schema source from_record slot sha encode s (i, r) = Inr t"
  shows "ls_cursors t = bt_insert (hr_source_generation r) (hr_cursor r) (ls_cursors s) \<and>
    (case bt_get (ls_cursors s) (hr_source_generation r) of
       None \<Rightarrow> True | Some c \<Rightarrow> hr_previous_cursor r = Some c)"
  using assms by (rule parse_record_steps) (auto dest!: record_mapping_item simp: validate_raw_cursor_iff)

lemma diagnosed_total: "\<exists>m. diagnosed (from_record r i) = Inr m \<and>
    mapped_ok P (Inr m) = mapped_ok P (from_record r 0)"
proof (cases "from_record r i")
  case (Inl e)
  then have "\<exists>c. diagnosed (from_record r i) = Inr (MappedDiagnostic c)"
    using fails [OF Inl] by (auto simp: diagnosed_def attribute_error_def)
  then show ?thesis using Inl index_irrelevant [of r 0 i] by (auto simp: mapped_ok_def)
qed (use index_irrelevant [of r 0 i] in \<open>simp add: diagnosed_def\<close>)

lemma record_accepts:
  "record_ok r \<and> (case bt_get (ls_cursors s) (hr_source_generation r) of
      None \<Rightarrow> True | Some c \<Rightarrow> hr_previous_cursor r = Some c) \<longleftrightarrow>
   (\<exists>t. parse_record schema source from_record slot sha encode s (i, r) = Inr t)"
proof -
  obtain m where m: "diagnosed (from_record r i) = Inr m"
    "mapped_ok (hashes sha encode) (Inr m) = mapped_ok (hashes sha encode) (from_record r 0)"
    using diagnosed_total [of r i "hashes sha encode"] by blast
  have "(\<exists>t. parse_record schema source from_record slot sha encode s (i, r) = Inr t) \<longleftrightarrow>
      hr_schema_version r = schema \<and>
      (\<exists>u. validate_raw_cursor r (ls_cursors s) = Inr u) \<and> (\<exists>c. checkpoint_from_record source r = Inr c) \<and>
      mapped_ok (hashes sha encode) (Inr m)"
    unfolding parse_record_def prod.case Let_def m(1) bind_result_eq_Inr
    by (auto simp: bind_result_eq_Inr dest: record_mapping_accepts [THEN iffD1, OF exI]
      intro: record_mapping_accepts [THEN iffD2])
  then show ?thesis
    by (auto simp: m(2) record_ok_def header_ok_def checkpoint_accepts validate_raw_cursor_iff bounded_id_def)
qed

end

sublocale jsonl_adapter \<subseteq> loop: handoff_loop "parse_record schema source from_record slot sha encode"
    source "observation_key sha encode" emitted record_ok
  by unfold_locales (use record_item record_cursor record_accepts in blast)+

context jsonl_adapter
begin

lemma record_hash:
  assumes "\<forall>r. encode r \<noteq> None"
  shows "mapped_ok (hashes sha encode) (from_record r i) \<longleftrightarrow>
    mapped_ok (\<lambda>o1. all_safe (observation_state o1)) (from_record r i)"
  using maps [of r i] texts payload_hash_defined [OF assms]
  by (auto simp: mapped_ok_def hashes_def split: sum.splits mapping.splits)

lemma records_accepts:
  assumes "\<forall>r. encode r \<noteq> None"
  shows "(\<exists>s. try_fold (parse_record schema source from_record slot sha encode) loop_start rs = Inr s) \<longleftrightarrow>
    list_all (\<lambda>(i, r). header_ok schema r \<and> mapped_ok (\<lambda>o1. all_safe (observation_state o1)) (from_record r i)) rs \<and>
    chained (map (\<lambda>x. record_checkpoint source (snd x)) rs)"
proof -
  have ok: "record_ok (snd x) \<longleftrightarrow> (case x of (i, r) \<Rightarrow> header_ok schema r \<and>
      mapped_ok (\<lambda>o1. all_safe (observation_state o1)) (from_record r i))" for x
    using record_hash [OF assms, of "snd x" 0] index_irrelevant [of "snd x" 0 "fst x"]
    by (simp add: record_ok_def case_prod_unfold)
  show ?thesis unfolding loop.loop_accepts by (simp only: ok)
qed

lemma records_batch:
  assumes "try_fold (parse_record schema source from_record slot sha encode) loop_start rs = Inr s"
  shows "map item_checkpoint (ls_items s) = map (\<lambda>x. record_checkpoint source (snd x)) rs"
    "chained (map item_checkpoint (ls_items s))"
    "distinct (map (observation_key sha encode) (observations (ls_items s)))"
    "list_all emitted (observations (ls_items s))"
  using loop.loop_invariant [OF assms] unfolding loop.loop_inv_def by blast+

lemma records_linked:
  assumes "try_fold (parse_record schema source from_record slot sha encode) loop_start rs = Inr s"
    and "no_collision sha (observations (ls_items s))"
  shows "\<exists>v. validate_topology (map observation_state (observations (ls_items s))) = Inr v"
  using records_batch(4) [OF assms(1)] assms(2) by (rule emitted_validate)

end

end
