(* ===== verification/Claude_Adapter.thy ===== *)
theory Claude_Adapter
  imports Jsonl_Adapter
begin

section \<open>The Claude Code adapter\<close>

text \<open>
  \<^verbatim>\<open>crates/adapter-claude-code/src/lib.rs\<close>: a hand-off file of hook and telemetry events becomes a
  batch of observations without content, with a diagnostic for every event that is not one.  The
  JSON decoder, the durable JSON printer and SHA-256 are parameters.
\<close>

subsection \<open>Errors and limits\<close>

definition HANDOFF_SCHEMA_VERSION :: string where
  "HANDOFF_SCHEMA_VERSION = ''claude_handoff.v1''"

definition KNOWN_CLAUDE_MODELS :: "string list" where
  "KNOWN_CLAUDE_MODELS = [''claude-test'', ''claude-haiku-4-5'', ''claude-opus-4-6'',
     ''claude-sonnet-4-6'', ''claude-opus-5'', ''claude-sonnet-5'']"

datatype source_surface = OtelLog | Hook

fun display_adapter_error :: "adapter_error \<Rightarrow> string" where
  "display_adapter_error Io = ''Claude Code handoff I/O failure''"
| "display_adapter_error HandoffTooLarge = ''Claude Code handoff exceeds the byte limit''"
| "display_adapter_error TooManyRecords = ''Claude Code handoff exceeds the record limit''"
| "display_adapter_error RecordTooLarge = ''Claude Code handoff record exceeds the byte limit''"
| "display_adapter_error InvalidJson = ''Claude Code handoff contains invalid JSON''"
| "display_adapter_error InvalidSchema = ''Claude Code handoff schema is unsupported''"
| "display_adapter_error InvalidCursorSequence = ''Claude Code handoff cursor sequence is invalid''"
| "display_adapter_error UnsupportedPlatform = ''Claude Code file handoff requires a Unix platform''"
| "display_adapter_error InsecurePermissions = ''Claude Code handoff permissions are too broad''"
| "display_adapter_error SymbolicLink = ''Claude Code handoff must not be a symbolic link''"
| "display_adapter_error InvalidFileType = ''Claude Code handoff must be a regular file''"
| "display_adapter_error InvalidIdentifier = ''Claude Code handoff contains an invalid identifier''"
| "display_adapter_error InvalidField = ''Claude Code handoff contains an invalid field value''"
| "display_adapter_error InvalidTiming = ''Claude Code handoff contains invalid timing''"

subsection \<open>Attributes\<close>

definition canonical_model :: "attributes \<Rightarrow> adapter_error + string option" where
  "canonical_model attributes = bind_result (optional_string attributes ''model'') (\<lambda>v. case v of
       None \<Rightarrow> Inr None
     | Some model \<Rightarrow> if model \<in> set KNOWN_CLAUDE_MODELS then Inr (Some model) else Inl InvalidField)"

definition tool_category :: "string \<Rightarrow> string" where
  "tool_category tool =
     (if tool \<in> {''Bash'', ''PowerShell''} then ''shell''
      else if tool \<in> {''Edit'', ''Write'', ''NotebookEdit''} then ''edit''
      else if tool \<in> {''Read'', ''Glob'', ''Grep''} then ''read''
      else if tool \<in> {''WebFetch'', ''WebSearch''} then ''web''
      else if tool \<in> {''Agent'', ''Task''} then ''agent''
      else if tool = ''mcp_tool'' then ''mcp''
      else ''other'')"

definition canonical_tool_name :: "attributes \<Rightarrow> adapter_error + string option" where
  "canonical_tool_name attributes =
     bind_result (optional_string attributes ''tool_name'') (\<lambda>v. Inr (map_option tool_category v))"

definition canonical_decision :: "attributes \<Rightarrow> adapter_error + string" where
  "canonical_decision attributes = bind_result (optional_string attributes ''decision'') (\<lambda>v.
     if v = Some ''accept'' then Inr ''approved''
     else if v = Some ''reject'' then Inr ''denied''
     else Inl InvalidField)"

definition canonical_trigger :: "attributes \<Rightarrow> adapter_error + string" where
  "canonical_trigger attributes = bind_result (optional_string attributes ''trigger'') (\<lambda>v.
     if v = Some ''auto'' then Inr ''auto''
     else if v = Some ''manual'' then Inr ''manual''
     else Inl InvalidField)"

subsection \<open>Observations\<close>

fun surface_name :: "source_surface \<Rightarrow> string" where
  "surface_name OtelLog = ''otel_log''"
| "surface_name Hook = ''hook''"

definition build_observation ::
  "digest \<Rightarrow> source_surface handoff_record \<Rightarrow> string option \<Rightarrow> string \<Rightarrow> string option \<Rightarrow> string \<Rightarrow>
   correlation_ids \<Rightarrow> observation_event \<Rightarrow> lifecycle_state \<Rightarrow> token_usage \<Rightarrow> u64 option \<Rightarrow>
   adapter_error + mapping" where
  "build_observation sha record previous session turn leaf correlation event lifecycle usage duration =
     bind_result (parse_identifier (stable_id sha ''claude-code-trace'' [session])) (\<lambda>trace_id.
     let session_span = stable_id sha ''claude-code-session'' [session];
         (span_id, parent_span_id) = (case turn of
             None \<Rightarrow> (session_span, None)
           | Some turn_id \<Rightarrow>
               if leaf = ''turn''
                 then (stable_id sha ''claude-code-turn'' [session, turn_id], Some session_span)
               else (stable_id sha ''claude-code-span'' [session, turn_id, leaf],
                     Some (stable_id sha ''claude-code-turn'' [session, turn_id])));
         fin = hr_received_at_unix_ms record
     in bind_result (ok_or (checked_sub fin (case duration of None \<Rightarrow> 0 | Some d \<Rightarrow> d)) InvalidTiming) (\<lambda>start.
     bind_result (case timing_new start (Some fin) of Inl _ \<Rightarrow> Inl InvalidTiming | Inr t \<Rightarrow> Inr t) (\<lambda>timing.
     let observation_id = stable_id sha ''claude-code-observation''
           [hr_source_generation record, hr_cursor record, surface_name (hr_surface record), hr_event_name record]
     in bind_result (parse_identifier (hr_source_generation record)) (\<lambda>generation.
     bind_result (try_option parse_identifier previous) (\<lambda>previous_cursor.
     bind_result (parse_identifier (hr_cursor record)) (\<lambda>cursor.
     bind_result (parse_identifier observation_id) (\<lambda>oid.
     bind_result (parse_identifier span_id) (\<lambda>sid.
     bind_result (try_option parse_identifier parent_span_id) (\<lambda>parent.
     Inr (MappedObservation
       \<lparr>so_source = ClaudeCode, so_source_generation = generation,
        so_previous_source_cursor = previous_cursor, so_source_cursor = cursor,
        so_observation_id = oid, so_trace_id = trace_id, so_span_id = sid, so_parent_span_id = parent,
        so_correlation = correlation, so_event = event, so_lifecycle = lifecycle,
        so_timing = timing, so_token_usage = usage\<rparr>))))))))))"

definition session_observation ::
  "digest \<Rightarrow> source_surface handoff_record \<Rightarrow> string option \<Rightarrow> adapter_error + mapping" where
  "session_observation sha record previous =
     bind_result (required_string (hr_attributes record) ''session_id'') (\<lambda>session.
     bind_result (parse_identifier session) (\<lambda>session_id.
     let correlation = correlation_default\<lparr>c_session_id := Some session_id\<rparr>
     in bind_result (canonical_model (hr_attributes record)) (\<lambda>model.
     build_observation sha record previous session None ''session'' correlation
       (SessionEvent model None) Running token_usage_default None)))"

definition turn_observation ::
  "digest \<Rightarrow> source_surface handoff_record \<Rightarrow> string option \<Rightarrow> lifecycle_state \<Rightarrow> adapter_error + mapping" where
  "turn_observation sha record previous lifecycle =
     bind_result (required_string (hr_attributes record) ''session_id'') (\<lambda>session.
     bind_result (required_string (hr_attributes record) ''prompt_id'') (\<lambda>turn.
     bind_result (parse_identifier session) (\<lambda>session_id.
     bind_result (parse_identifier turn) (\<lambda>turn_id.
     let correlation = correlation_default\<lparr>c_session_id := Some session_id, c_turn_id := Some turn_id\<rparr>
     in build_observation sha record previous session (Some turn) ''turn'' correlation
       TurnEvent lifecycle token_usage_default None))))"

definition request_observation ::
  "digest \<Rightarrow> source_surface handoff_record \<Rightarrow> string option \<Rightarrow> adapter_error + mapping" where
  "request_observation sha record previous =
     (let attributes = hr_attributes record in
     bind_result (required_string attributes ''session_id'') (\<lambda>session.
     bind_result (required_string attributes ''prompt_id'') (\<lambda>turn.
     bind_result (required_string attributes ''request_id'') (\<lambda>request.
     bind_result (parse_identifier session) (\<lambda>session_id.
     bind_result (parse_identifier turn) (\<lambda>turn_id.
     bind_result (parse_identifier request) (\<lambda>request_id.
     let correlation = correlation_default\<lparr>c_session_id := Some session_id,
           c_turn_id := Some turn_id, c_request_id := Some request_id\<rparr>
     in bind_result (optional_u64 attributes ''input_tokens'') (\<lambda>input.
     bind_result (optional_u64 attributes ''output_tokens'') (\<lambda>output.
     bind_result (optional_u64 attributes ''cache_read_tokens'') (\<lambda>cached.
     bind_result (optional_u64 attributes ''cache_creation_tokens'') (\<lambda>creation.
     let usage = token_usage_default\<lparr>tu_input := input, tu_output := output,
           tu_cached_input := cached, tu_cache_creation_input := creation\<rparr>
     in bind_result (optional_bool attributes ''success'') (\<lambda>success.
     bind_result (canonical_model attributes) (\<lambda>model.
     bind_result (optional_u64 attributes ''duration_ms'') (\<lambda>duration.
     build_observation sha record previous session (Some turn) (''request:'' @ request) correlation
       (ModelRequestEvent model) (lifecycle_from_success success) usage duration))))))))))))))"

definition tool_observation ::
  "digest \<Rightarrow> source_surface handoff_record \<Rightarrow> string option \<Rightarrow> adapter_error + mapping" where
  "tool_observation sha record previous =
     (let attributes = hr_attributes record in
     bind_result (required_string attributes ''session_id'') (\<lambda>session.
     bind_result (required_string attributes ''prompt_id'') (\<lambda>turn.
     bind_result (required_string attributes ''tool_use_id'') (\<lambda>operation.
     bind_result (parse_identifier session) (\<lambda>session_id.
     bind_result (parse_identifier turn) (\<lambda>turn_id.
     bind_result (parse_identifier operation) (\<lambda>operation_id.
     let correlation = correlation_default\<lparr>c_session_id := Some session_id,
           c_turn_id := Some turn_id, c_operation_id := Some operation_id\<rparr>
     in bind_result (canonical_tool_name attributes) (\<lambda>tool_name.
     bind_result (optional_bool attributes ''success'') (\<lambda>success.
     bind_result (optional_u64 attributes ''duration_ms'') (\<lambda>duration.
     build_observation sha record previous session (Some turn) (''tool:'' @ operation) correlation
       (ToolOperationEvent tool_name (Some ''result'')) (lifecycle_from_success success)
       token_usage_default duration))))))))))"

definition permission_observation ::
  "digest \<Rightarrow> source_surface handoff_record \<Rightarrow> string option \<Rightarrow> adapter_error + mapping" where
  "permission_observation sha record previous =
     (let attributes = hr_attributes record in
     bind_result (required_string attributes ''session_id'') (\<lambda>session.
     bind_result (required_string attributes ''prompt_id'') (\<lambda>turn.
     bind_result (required_string attributes ''tool_use_id'') (\<lambda>permission.
     bind_result (canonical_decision attributes) (\<lambda>decision.
     bind_result (parse_identifier session) (\<lambda>session_id.
     bind_result (parse_identifier turn) (\<lambda>turn_id.
     bind_result (parse_identifier permission) (\<lambda>permission_id.
     let correlation = correlation_default\<lparr>c_session_id := Some session_id,
           c_turn_id := Some turn_id, c_permission_id := Some permission_id\<rparr>
     in build_observation sha record previous session (Some turn) (''permission:'' @ permission) correlation
       (PermissionEvent (Some decision)) (if decision = ''denied'' then Failed else Completed)
       token_usage_default None))))))))"

definition compaction_observation ::
  "digest \<Rightarrow> source_surface handoff_record \<Rightarrow> string option \<Rightarrow> adapter_error + mapping" where
  "compaction_observation sha record previous =
     (let attributes = hr_attributes record in
     bind_result (required_string attributes ''session_id'') (\<lambda>session.
     bind_result (required_string attributes ''prompt_id'') (\<lambda>turn.
     bind_result (required_string attributes ''compaction_id'') (\<lambda>compaction.
     bind_result (parse_identifier session) (\<lambda>session_id.
     bind_result (parse_identifier turn) (\<lambda>turn_id.
     bind_result (parse_identifier compaction) (\<lambda>compaction_id.
     let correlation = correlation_default\<lparr>c_session_id := Some session_id,
           c_turn_id := Some turn_id, c_compaction_id := Some compaction_id\<rparr>
     in bind_result (canonical_trigger attributes) (\<lambda>trigger.
     bind_result (optional_bool attributes ''success'') (\<lambda>success.
     bind_result (optional_u64 attributes ''pre_tokens'') (\<lambda>before.
     bind_result (optional_u64 attributes ''post_tokens'') (\<lambda>after.
     let usage = token_usage_default\<lparr>tu_input_before := before, tu_input_after := after\<rparr>
     in bind_result (optional_u64 attributes ''duration_ms'') (\<lambda>duration.
     build_observation sha record previous session (Some turn) (''compaction:'' @ compaction) correlation
       (CompactionEvent (Some trigger)) (lifecycle_from_success success) usage duration))))))))))))"

definition CONTENT_EVENTS :: "string list" where
  "CONTENT_EVENTS = [''claude_code.assistant_response'', ''claude_code.api_request_body'',
     ''claude_code.api_response_body'']"

definition observation_from_record ::
  "digest \<Rightarrow> source_surface handoff_record \<Rightarrow> string option \<Rightarrow> nat \<Rightarrow> adapter_error + mapping" where
  "observation_from_record sha record previous record_index = (let event = hr_event_name record in
     (case hr_surface record of
        Hook \<Rightarrow>
          if event = ''SessionStart'' then session_observation sha record previous
          else if event = ''Stop'' then turn_observation sha record previous Completed
          else if event = ''StopFailure'' then turn_observation sha record previous Failed
          else Inr (MappedDiagnostic UnsupportedEvent)
      | OtelLog \<Rightarrow>
          if event = ''claude_code.user_prompt'' then turn_observation sha record previous Running
          else if event = ''claude_code.api_request'' then request_observation sha record previous
          else if event = ''claude_code.tool_decision'' then permission_observation sha record previous
          else if event = ''claude_code.tool_result'' then tool_observation sha record previous
          else if event = ''claude_code.compaction'' then compaction_observation sha record previous
          else if event \<in> set CONTENT_EVENTS then Inr (MappedDiagnostic ContentEventIgnored)
          else Inr (MappedDiagnostic UnsupportedEvent)))"

subsection \<open>The batch\<close>

definition map_record :: "digest \<Rightarrow> source_surface handoff_record \<Rightarrow> nat \<Rightarrow> adapter_error + mapping" where
  "map_record sha record record_index = observation_from_record sha record (hr_previous_cursor record) record_index"

definition parse_handoff_jsonl ::
  "digest \<Rightarrow> (durable_record \<Rightarrow> string option) \<Rightarrow> (string \<Rightarrow> source_surface handoff_record option) \<Rightarrow>
   string \<Rightarrow> adapter_error + adapter_batch" where
  "parse_handoff_jsonl sha encode decode input =
     parse_jsonl HANDOFF_SCHEMA_VERSION ClaudeCode (map_record sha) sha encode decode input"

subsection \<open>The file\<close>

definition same_file_identity :: "file_metadata \<Rightarrow> file_metadata \<Rightarrow> bool" where
  "same_file_identity left right \<longleftrightarrow> fm_dev left = fm_dev right \<and> fm_ino left = fm_ino right"

definition private_file_permissions :: "file_metadata \<Rightarrow> adapter_error + unit" where
  "private_file_permissions m = ensure (and (fm_mode m) 0x3F = 0) InsecurePermissions"

text \<open>The system calls are parameters: the metadata of a path, opening it, the metadata of the open
  file, and reading at most so many bytes of it as text.\<close>

definition read_handoff_file ::
  "('path \<Rightarrow> file_metadata option) \<Rightarrow> ('path \<Rightarrow> 'file option) \<Rightarrow> ('file \<Rightarrow> file_metadata option) \<Rightarrow>
   (nat \<Rightarrow> 'file \<Rightarrow> string option) \<Rightarrow> (string \<Rightarrow> adapter_error + adapter_batch) \<Rightarrow> 'path \<Rightarrow>
   adapter_error + adapter_batch" where
  "read_handoff_file symlink_metadata open_file metadata_of read_to_string parse path =
     bind_result (ok_or (symlink_metadata path) Io) (\<lambda>path_metadata.
     bind_result (ensure (fm_type path_metadata \<noteq> SymlinkFile) SymbolicLink) (\<lambda>_.
     bind_result (ensure (fm_type path_metadata = RegularFile) InvalidFileType) (\<lambda>_.
     bind_result (ok_or (open_file path) Io) (\<lambda>file.
     bind_result (ok_or (metadata_of file) Io) (\<lambda>metadata.
     bind_result (ensure (fm_type metadata = RegularFile \<and> same_file_identity path_metadata metadata)
       InvalidFileType) (\<lambda>_.
     bind_result (ensure (unat (fm_len metadata) \<le> MAX_HANDOFF_BYTES) HandoffTooLarge) (\<lambda>_.
     bind_result (private_file_permissions metadata) (\<lambda>_.
     bind_result (ok_or (read_to_string (MAX_HANDOFF_BYTES + 1) file) Io) (\<lambda>input.
     bind_result (ensure (length input \<le> MAX_HANDOFF_BYTES) HandoffTooLarge) (\<lambda>_.
     parse input))))))))))"

end
