(* ===== verification/Claude_Laws.thy ===== *)
theory Claude_Laws
  imports Claude_Adapter
begin

section \<open>Properties of the Claude Code adapter\<close>

text \<open>
  Both hand-off interfaces are interpreted on the adapter: its observations are linked
  (\<open>handoff_links\<close>) and its loop keeps the invariant of the batch (\<open>handoff_loop\<close>).  On top of them:
  when a hand-off is accepted, that the batch is in order and without duplicates, that its states
  form a valid topology, and that no text of an event gets into an observation.
\<close>

subsection \<open>What an observation is made of\<close>

lemma build_observation_Inr:
  assumes "build_observation sha record previous session turn leaf correlation event lifecycle usage duration
      = Inr (MappedObservation o1)"
  shows "so_source o1 = ClaudeCode \<and> so_source_generation o1 = hr_source_generation record \<and>
    so_previous_source_cursor o1 = previous \<and> so_source_cursor o1 = hr_cursor record \<and>
    so_correlation o1 = correlation \<and> so_event o1 = event \<and> so_lifecycle o1 = lifecycle \<and>
    so_token_usage o1 = usage \<and> \<not> end_before_start (so_timing o1) \<and> so_trace_id o1 = stable_id sha ''claude-code-trace'' [session] \<and>
    so_observation_id o1 = stable_id sha ''claude-code-observation''
       [hr_source_generation record, hr_cursor record, surface_name (hr_surface record), hr_event_name record] \<and>
    (so_span_id o1, so_parent_span_id o1) = (case turn of
         None \<Rightarrow> (stable_id sha ''claude-code-session'' [session], None)
       | Some t \<Rightarrow> if leaf = ''turn''
           then (stable_id sha ''claude-code-turn'' [session, t], Some (stable_id sha ''claude-code-session'' [session]))
           else (stable_id sha ''claude-code-span'' [session, t, leaf], Some (stable_id sha ''claude-code-turn'' [session, t])))"
  using assms unfolding build_observation_def Let_def
  by (auto simp: bind_result_eq_Inr dest: timing_new_ordered split: prod.splits option.splits if_splits)

lemmas observation_defs = session_observation_def turn_observation_def request_observation_def
  tool_observation_def permission_observation_def compaction_observation_def Let_def

lemma session_shape:
  "session_observation sha record previous = Inr (MappedObservation o1) \<Longrightarrow> handoff_shape sha ''claude-code'' o1"
  unfolding observation_defs
  by (auto simp: result_simps handoff_shape_def correlation_default_def dest!: build_observation_Inr)

lemma turn_shape:
  "turn_observation sha record previous l = Inr (MappedObservation o1) \<Longrightarrow> handoff_shape sha ''claude-code'' o1"
  unfolding observation_defs
  by (auto simp: result_simps handoff_shape_def correlation_default_def dest!: build_observation_Inr)

lemma request_shape:
  "request_observation sha record previous = Inr (MappedObservation o1) \<Longrightarrow> handoff_shape sha ''claude-code'' o1"
  unfolding observation_defs
  by (auto simp: result_simps handoff_shape_def correlation_default_def turn_child_def dest!: build_observation_Inr)

lemma tool_shape:
  "tool_observation sha record previous = Inr (MappedObservation o1) \<Longrightarrow> handoff_shape sha ''claude-code'' o1"
  unfolding observation_defs
  by (auto simp: result_simps handoff_shape_def correlation_default_def turn_child_def dest!: build_observation_Inr)

lemma permission_shape:
  "permission_observation sha record previous = Inr (MappedObservation o1) \<Longrightarrow> handoff_shape sha ''claude-code'' o1"
  unfolding observation_defs
  by (auto simp: result_simps handoff_shape_def correlation_default_def turn_child_def dest!: build_observation_Inr)

lemma compaction_shape:
  "compaction_observation sha record previous = Inr (MappedObservation o1) \<Longrightarrow> handoff_shape sha ''claude-code'' o1"
  unfolding observation_defs
  by (auto simp: result_simps handoff_shape_def correlation_default_def turn_child_def dest!: build_observation_Inr)

lemma record_shape:
  assumes "observation_from_record sha record previous i = Inr (MappedObservation o1)"
  shows "handoff_shape sha ''claude-code'' o1"
  using assms unfolding observation_from_record_def Let_def
  by (auto split: source_surface.splits if_splits
    dest: session_shape turn_shape request_shape tool_shape permission_shape compaction_shape)

text \<open>The text an observation can carry beside identifiers comes from a fixed vocabulary.\<close>

fun fixed_vocabulary :: "observation_event \<Rightarrow> bool" where
  "fixed_vocabulary (SessionEvent model project) \<longleftrightarrow>
     model \<in> insert None (Some ` set KNOWN_CLAUDE_MODELS) \<and> project = None"
| "fixed_vocabulary TurnEvent \<longleftrightarrow> True"
| "fixed_vocabulary (TurnWithProjectEvent _) \<longleftrightarrow> False"
| "fixed_vocabulary (ModelRequestEvent model) \<longleftrightarrow> model \<in> insert None (Some ` set KNOWN_CLAUDE_MODELS)"
| "fixed_vocabulary (ToolOperationEvent tool phase) \<longleftrightarrow>
     tool \<in> insert None (Some ` {''shell'', ''edit'', ''read'', ''web'', ''agent'', ''mcp'', ''other''}) \<and>
     phase = Some ''result''"
| "fixed_vocabulary (PermissionEvent decision) \<longleftrightarrow> decision \<in> {Some ''approved'', Some ''denied''}"
| "fixed_vocabulary (CompactionEvent trigger) \<longleftrightarrow> trigger \<in> {Some ''auto'', Some ''manual''}"

lemma claude_canonical_vocabulary:
  "canonical_model a = Inr m \<Longrightarrow> m \<in> insert None (Some ` set KNOWN_CLAUDE_MODELS)"
  "canonical_tool_name a = Inr t \<Longrightarrow>
     t \<in> insert None (Some ` {''shell'', ''edit'', ''read'', ''web'', ''agent'', ''mcp'', ''other''})"
  "canonical_decision a = Inr d \<Longrightarrow> d \<in> {''approved'', ''denied''}"
  "canonical_trigger a = Inr g \<Longrightarrow> g \<in> {''auto'', ''manual''}"
  by (auto simp: canonical_model_def canonical_tool_name_def canonical_decision_def canonical_trigger_def
    tool_category_def result_simps split: option.splits if_splits)

definition record_event :: "source_observation \<Rightarrow> string option \<Rightarrow> source_surface handoff_record \<Rightarrow> bool" where
  "record_event o1 previous record \<longleftrightarrow> so_source o1 = ClaudeCode \<and>
     so_source_generation o1 = hr_source_generation record \<and> so_previous_source_cursor o1 = previous \<and>
     so_source_cursor o1 = hr_cursor record \<and> fixed_vocabulary (so_event o1) \<and>
     \<not> end_before_start (so_timing o1)"

lemma built_event:
  "build_observation sha record previous session turn leaf correlation event lifecycle usage duration
     = Inr (MappedObservation o1) \<Longrightarrow> fixed_vocabulary event \<Longrightarrow> record_event o1 previous record"
  by (drule build_observation_Inr) (simp add: record_event_def)

lemma mapped_event:
  "session_observation sha record previous = Inr (MappedObservation o1) \<Longrightarrow> record_event o1 previous record"
  "turn_observation sha record previous l = Inr (MappedObservation o1) \<Longrightarrow> record_event o1 previous record"
  "request_observation sha record previous = Inr (MappedObservation o1) \<Longrightarrow> record_event o1 previous record"
  "tool_observation sha record previous = Inr (MappedObservation o1) \<Longrightarrow> record_event o1 previous record"
  "permission_observation sha record previous = Inr (MappedObservation o1) \<Longrightarrow> record_event o1 previous record"
  "compaction_observation sha record previous = Inr (MappedObservation o1) \<Longrightarrow> record_event o1 previous record"
  unfolding observation_defs bind_result_eq_Inr
  by (auto elim!: built_event dest: claude_canonical_vocabulary)

lemma observation_event:
  assumes "observation_from_record sha record previous i = Inr (MappedObservation o1)"
  shows "record_event o1 previous record"
  using assms mapped_event unfolding observation_from_record_def Let_def
  by (auto split: source_surface.splits if_splits)

subsection \<open>The interfaces\<close>

text \<open>The attributes of a record never fail a batch: every error of an event is a diagnostic.\<close>

lemma canonical_errors:
  "canonical_model a = Inl e \<Longrightarrow> attribute_error e"
  "canonical_tool_name a = Inl e \<Longrightarrow> attribute_error e"
  "canonical_decision a = Inl e \<Longrightarrow> attribute_error e"
  "canonical_trigger a = Inl e \<Longrightarrow> attribute_error e"
  unfolding canonical_model_def canonical_tool_name_def canonical_decision_def canonical_trigger_def
  by (auto elim!: attribute_error_bind dest: getter_errors split: option.splits if_splits)

lemma build_error: "build_observation sha record previous session turn leaf correlation event lifecycle usage duration = Inl e
    \<Longrightarrow> attribute_error e"
  unfolding build_observation_def Let_def
  by (auto elim!: attribute_error_bind split: prod.splits dest: getter_errors parse_error timing_error)

lemmas observation_errors = getter_errors parse_error canonical_errors build_error

lemma mapped_errors:
  "session_observation sha record previous = Inl e \<Longrightarrow> attribute_error e"
  "turn_observation sha record previous l = Inl e \<Longrightarrow> attribute_error e"
  "request_observation sha record previous = Inl e \<Longrightarrow> attribute_error e"
  "tool_observation sha record previous = Inl e \<Longrightarrow> attribute_error e"
  "permission_observation sha record previous = Inl e \<Longrightarrow> attribute_error e"
  "compaction_observation sha record previous = Inl e \<Longrightarrow> attribute_error e"
  unfolding observation_defs by (auto elim!: attribute_error_bind dest: observation_errors)

lemma observation_error: "observation_from_record sha record previous i = Inl e \<Longrightarrow> attribute_error e"
  unfolding observation_from_record_def Let_def
  by (auto split: source_surface.splits if_splits dest: mapped_errors)

definition claude_emitted :: "digest \<Rightarrow> source_observation \<Rightarrow> bool" where
  "claude_emitted sha o1 \<longleftrightarrow> handoff_shape sha ''claude-code'' o1 \<and> fixed_vocabulary (so_event o1) \<and>
     \<not> end_before_start (so_timing o1)"

lemma map_record_emitted:
  assumes "map_record sha r i = Inr (MappedObservation o1)"
  shows "claude_emitted sha o1 \<and> item_checkpoint (Observation o1) = record_checkpoint ClaudeCode r"
  using observation_event record_shape assms
  unfolding map_record_def claude_emitted_def record_event_def record_checkpoint_def by fastforce

lemma claude_texts: "claude_emitted sha o1 \<Longrightarrow> nonempty_texts o1 \<and> \<not> end_before_start (so_timing o1)"
  by (cases "so_event o1")
    (auto simp: claude_emitted_def nonempty_texts_def handoff_shape_def stable_id_def KNOWN_CLAUDE_MODELS_def)

interpretation claude: jsonl_adapter sha "''claude-code''" "claude_emitted sha" HANDOFF_SCHEMA_VERSION ClaudeCode
    "map_record sha" "\<lambda>i. i" encode for sha encode
proof unfold_locales
  show "handoff_shape sha ''claude-code'' o1" if "claude_emitted sha o1" for o1
    using that by (simp add: claude_emitted_def)
  show "map_record sha r i = map_record sha r j" for r i j
    by (simp add: map_record_def observation_from_record_def)
  show "attribute_error e" if "map_record sha r i = Inl e" for r i e
    using that by (simp add: map_record_def observation_error)
qed (rule map_record_emitted claude_texts, assumption)+

subsection \<open>A sample hand-off\<close>

text \<open>A session and a turn in it; every line that starts with \<^verbatim>\<open>t\<close> decodes to the turn.\<close>

definition sample_session :: "source_surface handoff_record" where
  "sample_session = \<lparr>hr_schema_version = ''claude_handoff.v1'', hr_source_generation = ''g'',
     hr_previous_cursor = None, hr_cursor = ''1'', hr_surface = Hook, hr_received_at_unix_ms = 7,
     hr_event_name = ''SessionStart'', hr_attributes = [(''session_id'', VString ''s'')]\<rparr>"

definition sample_turn :: "source_surface handoff_record" where
  "sample_turn = \<lparr>hr_schema_version = ''claude_handoff.v1'', hr_source_generation = ''g'',
     hr_previous_cursor = Some ''1'', hr_cursor = ''2'', hr_surface = Hook, hr_received_at_unix_ms = 8,
     hr_event_name = ''Stop'',
     hr_attributes = [(''prompt_id'', VString ''p''), (''session_id'', VString ''s'')]\<rparr>"

definition sample_input :: string where
  "sample_input = ''s'' @ [CHR 0x0A] @ ''t''"

definition sample_decode :: "string \<Rightarrow> source_surface handoff_record option" where
  "sample_decode l = Some (if l = ''t'' then sample_turn else sample_session)"

lemma claude_sample_lines: "lines_of sample_input = [''s'', ''t'']"
  by code_simp

lemma claude_sample_blank: "\<not> blank_line ''s''" "\<not> blank_line ''t''"
  by code_simp+

lemma claude_sample_records: "numbered_records sample_decode 0 (lines_of sample_input) = [(1, sample_session), (2, sample_turn)]"
  by (simp add: claude_sample_lines claude_sample_blank sample_decode_def)

lemmas claude_sample_simps = map_record_def observation_from_record_def session_observation_def
  turn_observation_def required_string_def optional_string_def canonical_model_def bt_get_def
  build_observation_def parse_bounded frame_def sample_bounded short_bounded checked_sub_def timing_new_def

lemma claude_sample_mapped:
  "mapped_ok (\<lambda>o1. all_safe (observation_state o1)) (map_record sample_digest sample_session i)"
  by (simp add: claude_sample_simps sample_session_def mapped_ok_def all_safe_def observation_state_def
    usage_counts_def token_usage_default_def MAX_SAFE_def)

lemma claude_sample_mapped2:
  "mapped_ok (\<lambda>o1. all_safe (observation_state o1)) (map_record sample_digest sample_turn i)"
  by (simp add: claude_sample_simps sample_turn_def mapped_ok_def all_safe_def observation_state_def
    usage_counts_def token_usage_default_def MAX_SAFE_def)

lemma claude_sample_headers: "header_ok HANDOFF_SCHEMA_VERSION sample_session" "header_ok HANDOFF_SCHEMA_VERSION sample_turn"
  by (simp_all add: header_ok_def sample_session_def sample_turn_def HANDOFF_SCHEMA_VERSION_def
    short_bounded present_def)

lemma claude_sample_chained:
  "chained [record_checkpoint ClaudeCode sample_session, record_checkpoint ClaudeCode sample_turn]"
  by (simp add: chained_def sample_session_def sample_turn_def)

lemma claude_sample_within:
  "length sample_input \<le> MAX_HANDOFF_BYTES \<and> length (lines_of sample_input) \<le> MAX_HANDOFF_LINES \<and>
   lines_ok sample_decode (lines_of sample_input) \<and>
   list_all (\<lambda>(i, r). header_ok HANDOFF_SCHEMA_VERSION r \<and> mapped_ok (\<lambda>o1. all_safe (observation_state o1)) (map_record sample_digest r i))
     (numbered_records sample_decode 0 (lines_of sample_input)) \<and>
   chained (map (\<lambda>x. record_checkpoint ClaudeCode (snd x)) (numbered_records sample_decode 0 (lines_of sample_input)))"
  unfolding claude_sample_records unfolding claude_sample_lines
  by (simp add: claude_sample_mapped claude_sample_mapped2 lines_ok_def sample_decode_def claude_sample_headers
    claude_sample_chained MAX_HANDOFF_BYTES_def MAX_HANDOFF_LINES_def MAX_HANDOFF_LINE_BYTES_def sample_input_def)

lemma claude_sample_accepted:
  assumes "\<forall>r. encode r \<noteq> None"
  shows "\<exists>items. parse_handoff_jsonl sample_digest encode sample_decode sample_input = Inr items"
  using claude_sample_within claude.records_accepts [OF assms] by (auto simp: parse_handoff_jsonl_def parse_jsonl_eq)

text \<open>The attributes that are read at all; a prompt, a response or a tool argument is none of them.\<close>

definition READ_ATTRIBUTES :: "string list" where
  "READ_ATTRIBUTES = [''session_id'', ''prompt_id'', ''request_id'', ''tool_use_id'', ''compaction_id'',
     ''model'', ''tool_name'', ''decision'', ''trigger'', ''success'', ''input_tokens'', ''output_tokens'',
     ''cache_read_tokens'', ''cache_creation_tokens'', ''pre_tokens'', ''post_tokens'', ''duration_ms'']"

lemma agree_canonical:
  assumes "agree_on READ_ATTRIBUTES a b"
  shows "canonical_model a = canonical_model b" "canonical_tool_name a = canonical_tool_name b"
    "canonical_decision a = canonical_decision b" "canonical_trigger a = canonical_trigger b"
    "required_string a ''session_id'' = required_string b ''session_id''"
    "required_string a ''prompt_id'' = required_string b ''prompt_id''"
    "required_string a ''request_id'' = required_string b ''request_id''"
    "required_string a ''tool_use_id'' = required_string b ''tool_use_id''"
    "required_string a ''compaction_id'' = required_string b ''compaction_id''"
    "optional_bool a ''success'' = optional_bool b ''success''"
    "optional_u64 a ''input_tokens'' = optional_u64 b ''input_tokens''"
    "optional_u64 a ''output_tokens'' = optional_u64 b ''output_tokens''"
    "optional_u64 a ''cache_read_tokens'' = optional_u64 b ''cache_read_tokens''"
    "optional_u64 a ''cache_creation_tokens'' = optional_u64 b ''cache_creation_tokens''"
    "optional_u64 a ''pre_tokens'' = optional_u64 b ''pre_tokens''"
    "optional_u64 a ''post_tokens'' = optional_u64 b ''post_tokens''"
    "optional_u64 a ''duration_ms'' = optional_u64 b ''duration_ms''"
proof -
  have key: "bt_get a k = bt_get b k" if "k \<in> set READ_ATTRIBUTES" for k
    using assms that by (simp add: agree_on_def list_all_iff)
  note get = key [unfolded READ_ATTRIBUTES_def, simplified]
  show "canonical_model a = canonical_model b" "canonical_tool_name a = canonical_tool_name b"
    "canonical_decision a = canonical_decision b" "canonical_trigger a = canonical_trigger b"
    unfolding canonical_model_def canonical_tool_name_def canonical_decision_def canonical_trigger_def
      optional_string_def by (simp_all add: get)
qed (use key_getters [OF assms] in \<open>simp_all add: READ_ATTRIBUTES_def\<close>)

lemma build_ignores_attributes:
  "build_observation sha (r\<lparr>hr_attributes := b\<rparr>) = build_observation sha r"
  by (simp add: build_observation_def fun_eq_iff)

lemma claude_mapping_ignores:
  assumes "agree_on READ_ATTRIBUTES (hr_attributes r) b"
  shows "map_record sha (r\<lparr>hr_attributes := b\<rparr>) i = map_record sha r i"
proof -
  let ?r = "r\<lparr>hr_attributes := b\<rparr>"
  have "session_observation sha ?r previous = session_observation sha r previous" for previous
    unfolding session_observation_def build_ignores_attributes by (simp add: agree_canonical [OF assms])
  moreover have "turn_observation sha ?r previous l = turn_observation sha r previous l" for previous l
    unfolding turn_observation_def build_ignores_attributes by (simp add: agree_canonical [OF assms])
  moreover have "request_observation sha ?r previous = request_observation sha r previous" for previous
    unfolding request_observation_def build_ignores_attributes by (simp add: agree_canonical [OF assms])
  moreover have "tool_observation sha ?r previous = tool_observation sha r previous" for previous
    unfolding tool_observation_def build_ignores_attributes by (simp add: agree_canonical [OF assms])
  moreover have "permission_observation sha ?r previous = permission_observation sha r previous" for previous
    unfolding permission_observation_def build_ignores_attributes by (simp add: agree_canonical [OF assms])
  moreover have "compaction_observation sha ?r previous = compaction_observation sha r previous" for previous
    unfolding compaction_observation_def build_ignores_attributes by (simp add: agree_canonical [OF assms])
  ultimately have "observation_from_record sha ?r previous i = observation_from_record sha r previous i" for previous
    by (cases "hr_surface r") (simp_all add: observation_from_record_def Let_def)
  then show ?thesis by (simp add: map_record_def)
qed

subsection \<open>Properties\<close>

text \<open>C23: a hand-off is accepted exactly when it is within its size limits, every line that is not blank
  decodes, every record has the schema and bounded identifiers, the cursors of each source generation
  form a chain, and every time and counter of a mapped observation is exact in JSON.  A missing or
  malformed attribute never fails a batch, a number above 9007199254740991 always does.\<close>

theorem claude_accepts:
  assumes "\<forall>r. encode r \<noteq> None"
  shows "(\<exists>items. parse_handoff_jsonl sha encode decode input = Inr items) \<longleftrightarrow>
    length input \<le> MAX_HANDOFF_BYTES \<and> length (lines_of input) \<le> MAX_HANDOFF_LINES \<and>
    lines_ok decode (lines_of input) \<and>
    list_all (\<lambda>(i, r). header_ok HANDOFF_SCHEMA_VERSION r \<and> mapped_ok (\<lambda>o1. all_safe (observation_state o1)) (map_record sha r i))
      (numbered_records decode 0 (lines_of input)) \<and>
    chained (map (\<lambda>x. record_checkpoint ClaudeCode (snd x)) (numbered_records decode 0 (lines_of input)))"
  unfolding claude.records_accepts [OF assms, symmetric] parse_handoff_jsonl_def parse_jsonl_eq by blast

theorem claude_accepts_witness:
  "\<exists>items. parse_handoff_jsonl sample_digest (\<lambda>_. Some []) sample_decode sample_input = Inr items"
proof -
  have "\<forall>r. (\<lambda>_. Some []) (r :: durable_record) \<noteq> (None :: string option)" by simp
  from claude_accepts [OF this] show ?thesis using claude_sample_within by blast
qed

text \<open>A batch has one item per line that is not blank, in order, each with the checkpoint of its record;
  within a source generation every checkpoint names the cursor of the one before; and no two
  observations share generation, span and payload.\<close>

lemma claude_batch_ordered:
  assumes "parse_handoff_jsonl sha encode decode input = Inr items"
  shows "map item_checkpoint items =
      map (\<lambda>x. record_checkpoint ClaudeCode (snd x)) (numbered_records decode 0 (lines_of input)) \<and>
    length items = length (filter (\<lambda>l. \<not> blank_line l) (lines_of input)) \<and>
    chained (map item_checkpoint items) \<and>
    distinct (map (observation_key sha encode) (observations items))"
proof -
  obtain s where s: "ls_items s = items" "lines_ok decode (lines_of input)" and
    run: "try_fold (parse_record HANDOFF_SCHEMA_VERSION ClaudeCode (map_record sha) (\<lambda>i. i) sha encode) loop_start
      (numbered_records decode 0 (lines_of input)) = Inr s"
    using assms unfolding parse_handoff_jsonl_def parse_jsonl_eq by blast
  note inv = claude.records_batch(1-3) [OF run, unfolded s(1)] and ok = s(2)
  from map_eq_imp_length_eq [OF inv(1)] show ?thesis
    using inv numbered_records_length [OF ok, of 0] by simp
qed

text \<open>The states of the observations of a batch pass the topology validation of the domain crate, as
  long as the digest does not collide on the identities of the batch: every parent that is in the
  batch has the same trace and a kind that may have the child.\<close>

lemma claude_batch_linked:
  assumes "parse_handoff_jsonl sha encode decode input = Inr items" and "no_collision sha (observations items)"
  shows "\<exists>v. validate_topology (map observation_state (observations items)) = Inr v"
proof -
  obtain s where s: "ls_items s = items" and
    run: "try_fold (parse_record HANDOFF_SCHEMA_VERSION ClaudeCode (map_record sha) (\<lambda>i. i) sha encode) loop_start
      (numbered_records decode 0 (lines_of input)) = Inr s"
    using assms(1) unfolding parse_handoff_jsonl_def parse_jsonl_eq by blast
  from claude.records_linked [OF run, unfolded s, OF assms(2)] show ?thesis .
qed

text \<open>C24: the adapter carries no content.  Whatever the attributes outside the fixed list are, a record maps
  to the same observation or diagnostic; and the texts of its event come from a fixed vocabulary.\<close>

theorem claude_content_free:
  assumes "agree_on READ_ATTRIBUTES (hr_attributes r) b"
  shows "map_record sha (r\<lparr>hr_attributes := b\<rparr>) i = map_record sha r i \<and>
    mapped_ok (\<lambda>o1. fixed_vocabulary (so_event o1)) (map_record sha r i)"
proof -
  have "fixed_vocabulary (so_event o1)" if "map_record sha r i = Inr (MappedObservation o1)" for o1
    using map_record_emitted [OF that] by (simp add: claude_emitted_def)
  then show ?thesis using claude_mapping_ignores [OF assms]
    by (auto simp: mapped_ok_def split: sum.splits mapping.splits)
qed

theorem claude_content_free_witness:
  "map_record sample_digest
     (sample_turn\<lparr>hr_attributes := [(''prompt'', VString ''secret''), (''prompt_id'', VString ''p''), (''session_id'', VString ''s'')]\<rparr>) 2 =
   map_record sample_digest sample_turn 2"
  by (rule claude_content_free [THEN conjunct1])
    (simp add: agree_on_def READ_ATTRIBUTES_def sample_turn_def bt_get_def)

end
