(* ===== verification/Cursor_Adapter.thy ===== *)
theory Cursor_Adapter
  imports Jsonl_Adapter
begin

section \<open>The Cursor adapter\<close>

text \<open>
  \<^verbatim>\<open>crates/adapter-cursor/src/lib.rs\<close>: a hand-off file of Cursor hooks.  Unlike its Claude Code sibling
  it measures and decodes every line before it looks at the first record, and its mapping cannot
  fail: everything that is wrong with an event is a diagnostic.
\<close>

subsection \<open>Errors and limits\<close>

definition HANDOFF_SCHEMA_VERSION :: string where
  "HANDOFF_SCHEMA_VERSION = ''cursor_handoff.v1''"

definition KNOWN_MODELS :: "string list" where
  "KNOWN_MODELS = [''cursor-test'', ''gpt-4o'', ''claude-3.5-sonnet'', ''sonnet-4'']"

datatype source_surface = Hook

fun display_adapter_error :: "adapter_error \<Rightarrow> string" where
  "display_adapter_error Io = ''Cursor handoff I/O failure''"
| "display_adapter_error HandoffTooLarge = ''Cursor handoff exceeds the byte limit''"
| "display_adapter_error TooManyRecords = ''Cursor handoff exceeds the record limit''"
| "display_adapter_error RecordTooLarge = ''Cursor handoff record exceeds the byte limit''"
| "display_adapter_error InvalidJson = ''Cursor handoff contains invalid JSON''"
| "display_adapter_error InvalidSchema = ''Cursor handoff schema is unsupported''"
| "display_adapter_error InvalidCursorSequence = ''Cursor handoff cursor sequence is invalid''"
| "display_adapter_error UnsupportedPlatform = ''Cursor handoff requires Unix''"
| "display_adapter_error InsecurePermissions = ''Cursor handoff permissions are too broad''"
| "display_adapter_error SymbolicLink = ''Cursor handoff must not be a symbolic link''"
| "display_adapter_error InvalidFileType = ''Cursor handoff must be a regular file''"
| "display_adapter_error InvalidIdentifier = ''Cursor handoff contains an invalid identifier''"
| "display_adapter_error InvalidField = ''Cursor handoff contains an invalid field value''"
| "display_adapter_error InvalidTiming = ''Cursor handoff contains invalid timing''"

subsection \<open>Attributes\<close>

definition required_string :: "attributes \<Rightarrow> string \<Rightarrow> adapter_error + string" where
  "required_string a k = (case bt_get a k of
       Some (VString v) \<Rightarrow> if v \<noteq> [] then Inr v else Inl InvalidIdentifier
     | _ \<Rightarrow> Inl InvalidIdentifier)"

definition optional_string :: "attributes \<Rightarrow> string \<Rightarrow> string option" where
  "optional_string a k = (case bt_get a k of
       Some (VString v) \<Rightarrow> if v \<noteq> [] then Some v else None
     | _ \<Rightarrow> None)"

definition canonical_model :: "attributes \<Rightarrow> adapter_disposition_code + string option" where
  "canonical_model a = (case bt_get a ''model'' of
       None \<Rightarrow> Inr None
     | Some (VString v) \<Rightarrow>
         if v = [] then Inl InvalidFieldType
         else if v \<in> set KNOWN_MODELS then Inr (Some v)
         else Inr None
     | Some _ \<Rightarrow> Inl InvalidFieldType)"

definition required_u64 :: "attributes \<Rightarrow> string \<Rightarrow> adapter_error + u64" where
  "required_u64 a k = (case bt_get a k of
       Some (VNumber n) \<Rightarrow> ok_or (as_u64 n) InvalidTiming
     | _ \<Rightarrow> Inl InvalidTiming)"

definition required_bool :: "attributes \<Rightarrow> string \<Rightarrow> adapter_error + bool" where
  "required_bool a k = (case bt_get a k of
       Some (VBool v) \<Rightarrow> Inr v
     | _ \<Rightarrow> Inl InvalidField)"

text \<open>\<^verbatim>\<open>let Ok(x) = e else { return diagnostic }\<close>, and the same for an option.\<close>

definition let_ok :: "'e + 'a \<Rightarrow> adapter_disposition_code \<Rightarrow> ('a \<Rightarrow> mapping) \<Rightarrow> mapping" where
  "let_ok e code f = (case e of Inl _ \<Rightarrow> MappedDiagnostic code | Inr x \<Rightarrow> f x)"

definition let_some :: "'a option \<Rightarrow> adapter_disposition_code \<Rightarrow> ('a \<Rightarrow> mapping) \<Rightarrow> mapping" where
  "let_some e code f = (case e of None \<Rightarrow> MappedDiagnostic code | Some x \<Rightarrow> f x)"

definition let_check :: "bool \<Rightarrow> adapter_disposition_code \<Rightarrow> mapping \<Rightarrow> mapping" where
  "let_check b code m = (if b then m else MappedDiagnostic code)"

subsection \<open>Observations\<close>

definition build_observation ::
  "digest \<Rightarrow> source_surface handoff_record \<Rightarrow> string \<Rightarrow> string option \<Rightarrow> string \<Rightarrow> correlation_ids \<Rightarrow>
   observation_event \<Rightarrow> lifecycle_state \<Rightarrow> u64 \<Rightarrow> mapping" where
  "build_observation sha r c turn leaf correlation event lifecycle duration =
     (let fin = hr_received_at_unix_ms r in
     let_some (checked_sub fin duration) InvalidFieldType (\<lambda>start.
     let_ok (timing_new start (Some fin)) InvalidFieldType (\<lambda>timing.
     let session_span = stable_id sha ''cursor-session'' [c];
         (span_id, parent) = (case turn of
             None \<Rightarrow> (session_span, None)
           | Some g \<Rightarrow>
               if leaf = ''turn'' then (stable_id sha ''cursor-turn'' [c, g], Some session_span)
               else (stable_id sha ''cursor-span'' [c, g, leaf], Some (stable_id sha ''cursor-turn'' [c, g])))
     in let_ok (parse_identifier (hr_source_generation r)) MissingCorrelation (\<lambda>generation.
     let_ok (try_option parse_identifier (hr_previous_cursor r)) MissingCorrelation (\<lambda>previous.
     let_ok (parse_identifier (hr_cursor r)) MissingCorrelation (\<lambda>cursor.
     let_ok (parse_identifier (stable_id sha ''cursor-observation''
       [hr_source_generation r, hr_cursor r, hr_event_name r])) MissingCorrelation (\<lambda>observation_id.
     let_ok (parse_identifier (stable_id sha ''cursor-trace'' [c])) MissingCorrelation (\<lambda>trace_id.
     let_ok (parse_identifier span_id) MissingCorrelation (\<lambda>sid.
     let_ok (try_option parse_identifier parent) MissingCorrelation (\<lambda>parent_span_id.
     MappedObservation
       \<lparr>so_source = Cursor, so_source_generation = generation, so_previous_source_cursor = previous,
        so_source_cursor = cursor, so_observation_id = observation_id, so_trace_id = trace_id,
        so_span_id = sid, so_parent_span_id = parent_span_id, so_correlation = correlation,
        so_event = event, so_lifecycle = lifecycle, so_timing = timing,
        so_token_usage = token_usage_default\<rparr>))))))))))"

definition SESSION_END_REASONS :: "string list" where
  "SESSION_END_REASONS = [''completed'', ''aborted'', ''error'', ''window_close'', ''user_close'']"

text \<open>The lifecycle of a session end; the other reasons were refused before.\<close>

definition session_end_lifecycle :: "string option \<Rightarrow> lifecycle_state option" where
  "session_end_lifecycle reason =
     (if reason = Some ''completed'' then Some Completed
      else if reason = Some ''error'' then Some Failed
      else if reason \<in> {Some ''aborted'', Some ''window_close'', Some ''user_close''} then Some Interrupted
      else None)"

definition session_end_reason :: "source_surface handoff_record \<Rightarrow> string option option" where
  "session_end_reason r =
     (if hr_event_name r = ''sessionEnd'' then
        (case optional_string (hr_attributes r) ''reason'' of
           None \<Rightarrow> None
         | Some reason \<Rightarrow>
             if reason \<notin> set SESSION_END_REASONS then None
             else (case required_string (hr_attributes r) ''final_status'' of
                 Inl _ \<Rightarrow> None | Inr _ \<Rightarrow> Some (Some reason)))
      else Some None)"

definition session_mapping :: "digest \<Rightarrow> source_surface handoff_record \<Rightarrow> mapping" where
  "session_mapping sha r = (let a = hr_attributes r in
     let_ok (required_string a ''conversation_id'') MissingCorrelation (\<lambda>conversation.
     let_ok (required_string a ''generation_id'') MissingCorrelation (\<lambda>_.
     let_ok (required_string a ''session_id'') MissingCorrelation (\<lambda>session_id.
     let_check (session_id = conversation) MissingCorrelation (
     let_ok (parse_identifier session_id) MissingCorrelation (\<lambda>session_id.
     (case canonical_model a of
        Inl code \<Rightarrow> MappedDiagnostic code
      | Inr model \<Rightarrow>
          let_some (session_end_reason r) InvalidFieldType (\<lambda>reason.
          let finish = build_observation sha r conversation None ''session''
                (correlation_default\<lparr>c_session_id := Some session_id\<rparr>) (SessionEvent model None)
          in if hr_event_name r = ''sessionStart'' then finish Running 0
             else let_some (session_end_lifecycle reason) InvalidFieldType (\<lambda>lifecycle.
               let_ok (required_u64 a ''duration_ms'') InvalidFieldType (\<lambda>duration.
               finish lifecycle duration))))))))))"

definition turn_mapping :: "digest \<Rightarrow> source_surface handoff_record \<Rightarrow> mapping" where
  "turn_mapping sha r = (let a = hr_attributes r in
     let_ok (required_string a ''conversation_id'') MissingCorrelation (\<lambda>c.
     let_ok (required_string a ''generation_id'') MissingCorrelation (\<lambda>g.
     let_ok (parse_identifier c) MissingCorrelation (\<lambda>s.
     let_ok (parse_identifier g) MissingCorrelation (\<lambda>t.
     let_some (if hr_event_name r = ''beforeSubmitPrompt'' then Some Running
       else let status = optional_string a ''status'' in
         if status = Some ''completed'' then Some Completed
         else if status = Some ''aborted'' then Some Interrupted
         else if status = Some ''error'' then Some Failed
         else None) InvalidFieldType (\<lambda>lifecycle.
     build_observation sha r c (Some g) ''turn''
       (correlation_default\<lparr>c_session_id := Some s, c_turn_id := Some t\<rparr>) TurnEvent lifecycle 0))))))"

definition tool_category :: "source_surface handoff_record \<Rightarrow> string option \<Rightarrow> string" where
  "tool_category r tool_name =
     (if contains (hr_event_name r) ''Shell'' then ''shell''
      else if contains (hr_event_name r) ''MCP'' then ''mcp''
      else if contains (hr_event_name r) ''ReadFile'' \<or> contains (hr_event_name r) ''FileEdit'' then ''file''
      else (case map_option to_ascii_lowercase tool_name of
          None \<Rightarrow> ''other''
        | Some v \<Rightarrow>
            if v \<in> {''shell'', ''exec'', ''terminal''} then ''shell''
            else if v = ''mcp'' \<or> starts_with v ''mcp:'' then ''mcp''
            else if v \<in> {''read'', ''write'', ''edit'', ''delete'', ''grep'', ''glob'', ''search'', ''file''} then ''file''
            else if v \<in> {''task'', ''agent''} then ''agent''
            else ''other''))"

definition correlation_key :: "source_surface handoff_record \<Rightarrow> adapter_error + string \<times> string \<times> string" where
  "correlation_key r = (let a = hr_attributes r in
     bind_result (required_string a ''conversation_id'') (\<lambda>c.
     bind_result (required_string a ''generation_id'') (\<lambda>g.
     bind_result (required_string a ''tool_use_id'') (\<lambda>u. Inr (c, g, u)))))"

definition tool_phase :: "string \<Rightarrow> string" where
  "tool_phase event =
     (if starts_with event ''pre'' \<or> starts_with event ''before'' then ''start''
      else if event = ''postToolUseFailure'' then ''failure''
      else ''result'')"

definition tool_lifecycle :: "attributes \<Rightarrow> string \<Rightarrow> lifecycle_state option" where
  "tool_lifecycle a phase =
     (if phase = ''failure'' then
        (case optional_string a ''failure_type'' of
           None \<Rightarrow> None
         | Some failure_type \<Rightarrow>
             if failure_type \<notin> {''error'', ''timeout'', ''permission_denied''} then None
             else (case required_bool a ''is_interrupt'' of
                 Inr True \<Rightarrow> Some Interrupted
               | Inr False \<Rightarrow> Some Failed
               | Inl _ \<Rightarrow> None))
      else if phase = ''start'' then Some Running
      else Some Completed)"

definition tool_mapping :: "digest \<Rightarrow> source_surface handoff_record \<Rightarrow> mapping" where
  "tool_mapping sha r = (let a = hr_attributes r in
     let_ok (correlation_key r) MissingCorrelation (\<lambda>(c, g, u).
     let_ok (parse_identifier c) MissingCorrelation (\<lambda>s.
     let_ok (parse_identifier g) MissingCorrelation (\<lambda>t.
     let_ok (parse_identifier u) MissingCorrelation (\<lambda>i.
     let_some (optional_string a ''tool_name'') InvalidFieldType (\<lambda>tool_name.
     let category = tool_category r (Some tool_name);
         phase = tool_phase (hr_event_name r)
     in let_some (tool_lifecycle a phase) InvalidFieldType (\<lambda>lifecycle.
     let_ok (if hr_event_name r = ''preToolUse'' then Inr 0 else required_u64 a ''duration'') InvalidFieldType
       (\<lambda>duration.
     build_observation sha r c (Some g) (''tool:'' @ u)
       (correlation_default\<lparr>c_session_id := Some s, c_turn_id := Some t, c_operation_id := Some i\<rparr>)
       (ToolOperationEvent (Some category) (Some phase)) lifecycle duration))))))))"

definition is_generic_tool :: "string \<Rightarrow> bool" where
  "is_generic_tool e \<longleftrightarrow> e \<in> {''preToolUse'', ''postToolUse'', ''postToolUseFailure''}"

definition is_specific_tool :: "string \<Rightarrow> bool" where
  "is_specific_tool e \<longleftrightarrow> e \<in> {''beforeShellExecution'', ''afterShellExecution'', ''beforeMCPExecution'',
     ''afterMCPExecution'', ''beforeReadFile'', ''afterFileEdit''}"

definition is_content_event :: "string \<Rightarrow> bool" where
  "is_content_event e \<longleftrightarrow> e \<in> {''prompt'', ''response'', ''assistantResponse'', ''userPrompt'', ''message''}"

definition map_record :: "digest \<Rightarrow> source_surface handoff_record \<Rightarrow> mapping" where
  "map_record sha r = (let e = hr_event_name r in
     if e = ''sessionStart'' \<or> e = ''sessionEnd'' then session_mapping sha r
     else if e = ''beforeSubmitPrompt'' \<or> e = ''stop'' then turn_mapping sha r
     else if is_generic_tool e then tool_mapping sha r
     else if is_specific_tool e then MappedDiagnostic UnsupportedEventVariant
     else MappedDiagnostic (if is_content_event e then ContentEventIgnored else UnsupportedEvent))"

subsection \<open>The batch\<close>

definition decode_records ::
  "(string \<Rightarrow> source_surface handoff_record option) \<Rightarrow> string list \<Rightarrow>
   adapter_error + (nat \<times> source_surface handoff_record) list" where
  "decode_records decode ls =
     try_map (\<lambda>(i, l). bind_result (ok_or (decode l) InvalidJson) (\<lambda>r. Inr (i + 1, r)))
       (filter (\<lambda>(i, l). \<not> blank_line l) (List.enumerate 0 ls))"

definition parse_handoff_jsonl ::
  "digest \<Rightarrow> (durable_record \<Rightarrow> string option) \<Rightarrow> (string \<Rightarrow> source_surface handoff_record option) \<Rightarrow>
   string \<Rightarrow> adapter_error + adapter_batch" where
  "parse_handoff_jsonl sha encode decode input =
     (let ls = lines_of input in
      if length input > MAX_HANDOFF_BYTES then Inl HandoffTooLarge
      else if length ls > MAX_HANDOFF_LINES then Inl TooManyRecords
      else bind_result (try_all (\<lambda>l. ensure (length l \<le> MAX_HANDOFF_LINE_BYTES) RecordTooLarge) ls) (\<lambda>_.
      bind_result (decode_records decode ls) (\<lambda>records.
      bind_result (try_fold (parse_record HANDOFF_SCHEMA_VERSION Cursor (\<lambda>r _. Inr (map_record sha r)) (\<lambda>_. ()) sha encode)
        loop_start records) (\<lambda>s.
      Inr (ls_items s)))))"

subsection \<open>The file\<close>

definition same_identity :: "file_metadata \<Rightarrow> file_metadata \<Rightarrow> bool" where
  "same_identity a b \<longleftrightarrow> fm_dev a = fm_dev b \<and> fm_ino a = fm_ino b"

definition private_permissions :: "file_metadata \<Rightarrow> adapter_error + unit" where
  "private_permissions m = ensure (and (fm_mode m) 0x3F = 0) InsecurePermissions"

definition read_handoff_file ::
  "('path \<Rightarrow> file_metadata option) \<Rightarrow> ('path \<Rightarrow> 'file option) \<Rightarrow> ('file \<Rightarrow> file_metadata option) \<Rightarrow>
   (nat \<Rightarrow> 'file \<Rightarrow> string option) \<Rightarrow> (string \<Rightarrow> adapter_error + adapter_batch) \<Rightarrow> 'path \<Rightarrow>
   adapter_error + adapter_batch" where
  "read_handoff_file symlink_metadata open_file metadata_of read_to_string parse path =
     bind_result (ok_or (symlink_metadata path) Io) (\<lambda>before.
     bind_result (ensure (fm_type before \<noteq> SymlinkFile) SymbolicLink) (\<lambda>_.
     bind_result (ensure (fm_type before = RegularFile) InvalidFileType) (\<lambda>_.
     bind_result (private_permissions before) (\<lambda>_.
     bind_result (ok_or (open_file path) Io) (\<lambda>file.
     bind_result (ok_or (metadata_of file) Io) (\<lambda>after.
     bind_result (ensure (fm_type after = RegularFile \<and> same_identity before after) InvalidFileType) (\<lambda>_.
     bind_result (private_permissions after) (\<lambda>_.
     bind_result (ensure (unat (fm_len after) \<le> MAX_HANDOFF_BYTES) HandoffTooLarge) (\<lambda>_.
     bind_result (ok_or (read_to_string (MAX_HANDOFF_BYTES + 1) file) Io) (\<lambda>input.
     bind_result (ensure (length input \<le> MAX_HANDOFF_BYTES) HandoffTooLarge) (\<lambda>_.
     parse input)))))))))))"

end
