(* ===== verification/Cursor_Laws.thy ===== *)
theory Cursor_Laws
  imports Cursor_Adapter
begin

section \<open>Properties of the Cursor adapter\<close>

text \<open>
  Both hand-off interfaces are interpreted on the Cursor adapter as well.  Its loop accepts what its
  sibling's accepts, its batches are in order, without duplicates and linked, and its observations
  carry no content.
\<close>

subsection \<open>What an observation is made of\<close>

lemma let_mapped [simp]:
  "let_ok e c f = MappedObservation o1 \<longleftrightarrow> (\<exists>x. e = Inr x \<and> f x = MappedObservation o1)"
  "let_some v c g = MappedObservation o1 \<longleftrightarrow> (\<exists>x. v = Some x \<and> g x = MappedObservation o1)"
  "let_check b c m = MappedObservation o1 \<longleftrightarrow> b \<and> m = MappedObservation o1"
  "(case d of Inl code \<Rightarrow> MappedDiagnostic code | Inr y \<Rightarrow> h y) = MappedObservation o1 \<longleftrightarrow>
     (\<exists>y. d = Inr y \<and> h y = MappedObservation o1)"
  by (auto simp: let_ok_def let_some_def let_check_def split: sum.splits option.splits)

lemma build_observation_mapped:
  assumes "build_observation sha r c turn leaf correlation event lifecycle duration = MappedObservation o1"
  shows "so_source o1 = Cursor \<and> so_source_generation o1 = hr_source_generation r \<and>
    so_previous_source_cursor o1 = hr_previous_cursor r \<and> so_source_cursor o1 = hr_cursor r \<and>
    so_correlation o1 = correlation \<and> so_event o1 = event \<and> \<not> end_before_start (so_timing o1) \<and>
    so_trace_id o1 = stable_id sha ''cursor-trace'' [c] \<and>
    (so_span_id o1, so_parent_span_id o1) = (case turn of
         None \<Rightarrow> (stable_id sha ''cursor-session'' [c], None)
       | Some t \<Rightarrow> if leaf = ''turn''
           then (stable_id sha ''cursor-turn'' [c, t], Some (stable_id sha ''cursor-session'' [c]))
           else (stable_id sha ''cursor-span'' [c, t, leaf], Some (stable_id sha ''cursor-turn'' [c, t])))"
  using assms unfolding build_observation_def Let_def
  by (cases turn; cases "leaf = ''turn''") (auto simp: bind_result_eq_Inr dest: timing_new_ordered)

text \<open>The text an observation can carry beside identifiers comes from a fixed vocabulary.\<close>

fun fixed_vocabulary :: "observation_event \<Rightarrow> bool" where
  "fixed_vocabulary (SessionEvent model project) \<longleftrightarrow>
     model \<in> insert None (Some ` set KNOWN_MODELS) \<and> project = None"
| "fixed_vocabulary TurnEvent \<longleftrightarrow> True"
| "fixed_vocabulary (ToolOperationEvent tool phase) \<longleftrightarrow>
     tool \<in> Some ` {''shell'', ''mcp'', ''file'', ''agent'', ''other''} \<and>
     phase \<in> Some ` {''start'', ''failure'', ''result''}"
| "fixed_vocabulary _ \<longleftrightarrow> False"

lemma cursor_canonical_vocabulary:
  "canonical_model a = Inr m \<Longrightarrow> m \<in> insert None (Some ` set KNOWN_MODELS)"
  "tool_category r t \<in> {''shell'', ''mcp'', ''file'', ''agent'', ''other''}"
  "tool_phase e \<in> {''start'', ''failure'', ''result''}"
  by (auto simp: canonical_model_def tool_category_def tool_phase_def
    split: option.splits attribute_value.splits if_splits)

definition cursor_emitted :: "digest \<Rightarrow> source_observation \<Rightarrow> bool" where
  "cursor_emitted sha o1 \<longleftrightarrow> handoff_shape sha ''cursor'' o1 \<and> fixed_vocabulary (so_event o1) \<and>
     \<not> end_before_start (so_timing o1)"

definition record_event :: "digest \<Rightarrow> source_observation \<Rightarrow> source_surface handoff_record \<Rightarrow> bool" where
  "record_event sha o1 r \<longleftrightarrow> cursor_emitted sha o1 \<and> item_checkpoint (Observation o1) = record_checkpoint Cursor r"

lemmas record_event_defs = record_event_def cursor_emitted_def handoff_shape_def record_checkpoint_def
  correlation_default_def turn_child_def

lemma session_event: "session_mapping sha r = MappedObservation o1 \<Longrightarrow> record_event sha o1 r"
  unfolding session_mapping_def Let_def
  by (auto simp: record_event_defs dest!: build_observation_mapped dest: cursor_canonical_vocabulary(1)
    split: sum.splits if_splits)

lemma turn_event: "turn_mapping sha r = MappedObservation o1 \<Longrightarrow> record_event sha o1 r"
  unfolding turn_mapping_def Let_def
  by (auto simp: record_event_defs dest!: build_observation_mapped)

lemma tool_event: "tool_mapping sha r = MappedObservation o1 \<Longrightarrow> record_event sha o1 r"
  using cursor_canonical_vocabulary(2) [of r] cursor_canonical_vocabulary(3) [of "hr_event_name r"]
  unfolding tool_mapping_def Let_def
  by (auto simp: record_event_defs dest!: build_observation_mapped split: prod.splits)

lemma map_record_event: "map_record sha r = MappedObservation o1 \<Longrightarrow> record_event sha o1 r"
  unfolding map_record_def Let_def
  by (auto split: if_splits dest: session_event turn_event tool_event)

lemma cursor_texts: "cursor_emitted sha o1 \<Longrightarrow> nonempty_texts o1 \<and> \<not> end_before_start (so_timing o1)"
  by (cases "so_event o1")
    (auto simp: cursor_emitted_def nonempty_texts_def handoff_shape_def stable_id_def KNOWN_MODELS_def)

interpretation cursor: jsonl_adapter sha "''cursor''" "cursor_emitted sha" HANDOFF_SCHEMA_VERSION Cursor
    "\<lambda>r _. Inr (map_record sha r)" "\<lambda>_. ()" encode for sha encode
proof unfold_locales
  show "handoff_shape sha ''cursor'' o1" if "cursor_emitted sha o1" for o1
    using that by (simp add: cursor_emitted_def)
  show "cursor_emitted sha o1 \<and> item_checkpoint (Observation o1) = record_checkpoint Cursor r"
    if "Inr (map_record sha r) = Inr (MappedObservation o1)" for r o1
    using map_record_event [of sha r o1] that by (simp only: record_event_def sum.inject)
qed (simp_all add: cursor_texts)

subsection \<open>The lines\<close>

lemma decode_from:
  "try_map (\<lambda>(i, l). bind_result (ok_or (decode l) InvalidJson) (\<lambda>r. Inr (i + 1, r)))
     (filter (\<lambda>(i, l). \<not> blank_line l) (List.enumerate k ls)) = Inr rs \<longleftrightarrow>
   list_all (\<lambda>l. decode l \<noteq> None) (filter (\<lambda>l. \<not> blank_line l) ls) \<and> rs = numbered_records decode k ls"
  by (induction ls arbitrary: k rs) (auto simp: bind_result_eq_Inr)

lemma decode_records_eq: "decode_records decode ls = Inr rs \<longleftrightarrow>
    list_all (\<lambda>l. decode l \<noteq> None) (filter (\<lambda>l. \<not> blank_line l) ls) \<and> rs = numbered_records decode 0 ls"
  unfolding decode_records_def by (rule decode_from)

lemma cursor_parse_handoff_eq:
  "parse_handoff_jsonl sha encode decode input = Inr items \<longleftrightarrow>
     length input \<le> MAX_HANDOFF_BYTES \<and> length (lines_of input) \<le> MAX_HANDOFF_LINES \<and>
     lines_ok decode (lines_of input) \<and>
     (\<exists>s. try_fold (parse_record HANDOFF_SCHEMA_VERSION Cursor (\<lambda>r _. Inr (map_record sha r)) (\<lambda>_. ()) sha encode)
       loop_start (numbered_records decode 0 (lines_of input)) = Inr s \<and> ls_items s = items)"
  unfolding parse_handoff_jsonl_def Let_def
  by (auto simp: bind_result_eq_Inr try_all_eq_Inr decode_records_eq lines_ok_def list_all_iff)

text \<open>The attributes that are read at all.\<close>

definition READ_ATTRIBUTES :: "string list" where
  "READ_ATTRIBUTES = [''conversation_id'', ''generation_id'', ''session_id'', ''tool_use_id'', ''model'',
     ''reason'', ''final_status'', ''duration_ms'', ''status'', ''tool_name'', ''failure_type'',
     ''is_interrupt'', ''duration'']"

lemma cursor_mapping_ignores:
  assumes "agree_on READ_ATTRIBUTES (hr_attributes r) b"
  shows "map_record sha (r\<lparr>hr_attributes := b\<rparr>) = map_record sha r"
proof -
  let ?r = "r\<lparr>hr_attributes := b\<rparr>"
  have key: "bt_get b k = bt_get (hr_attributes r) k" if "k \<in> set READ_ATTRIBUTES" for k
    using assms that by (simp add: agree_on_def list_all_iff)
  have "required_string b k = required_string (hr_attributes r) k \<and> optional_string b k = optional_string (hr_attributes r) k \<and>
      required_u64 b k = required_u64 (hr_attributes r) k \<and> required_bool b k = required_bool (hr_attributes r) k"
    if "k \<in> set READ_ATTRIBUTES" for k
    using key [OF that]
    by (simp add: required_string_def optional_string_def required_u64_def required_bool_def)
  note get = this [unfolded READ_ATTRIBUTES_def, simplified] key [unfolded READ_ATTRIBUTES_def, simplified]
  have build: "build_observation sha ?r = build_observation sha r"
    by (simp add: build_observation_def fun_eq_iff)
  have parts: "canonical_model b = canonical_model (hr_attributes r)" "session_end_reason ?r = session_end_reason r"
    "correlation_key ?r = correlation_key r" "tool_category ?r = tool_category r"
    "tool_lifecycle b = tool_lifecycle (hr_attributes r)"
    by (simp_all add: canonical_model_def session_end_reason_def correlation_key_def tool_category_def
      tool_lifecycle_def fun_eq_iff Let_def get split: option.split)
  have "session_mapping sha ?r = session_mapping sha r" "turn_mapping sha ?r = turn_mapping sha r"
    "tool_mapping sha ?r = tool_mapping sha r"
    unfolding session_mapping_def turn_mapping_def tool_mapping_def build Let_def
    by (simp_all add: get parts cong: sum.case_cong if_cong)
  then show ?thesis by (simp add: map_record_def Let_def)
qed

subsection \<open>A sample hand-off\<close>

definition sample_session :: "source_surface handoff_record" where
  "sample_session = \<lparr>hr_schema_version = ''cursor_handoff.v1'', hr_source_generation = ''g'',
     hr_previous_cursor = None, hr_cursor = ''1'', hr_surface = Hook, hr_received_at_unix_ms = 7,
     hr_event_name = ''sessionStart'', hr_attributes =
       [(''conversation_id'', VString ''s''), (''generation_id'', VString ''p''), (''session_id'', VString ''s'')]\<rparr>"

definition sample_turn :: "source_surface handoff_record" where
  "sample_turn = \<lparr>hr_schema_version = ''cursor_handoff.v1'', hr_source_generation = ''g'',
     hr_previous_cursor = Some ''1'', hr_cursor = ''2'', hr_surface = Hook, hr_received_at_unix_ms = 8,
     hr_event_name = ''beforeSubmitPrompt'', hr_attributes =
       [(''conversation_id'', VString ''s''), (''generation_id'', VString ''p'')]\<rparr>"

definition sample_input :: string where
  "sample_input = ''s'' @ [CHR 0x0A] @ ''t''"

definition sample_decode :: "string \<Rightarrow> source_surface handoff_record option" where
  "sample_decode l = Some (if l = ''t'' then sample_turn else sample_session)"

lemma cursor_sample_lines: "lines_of sample_input = [''s'', ''t'']"
  by code_simp

lemma cursor_sample_blank: "\<not> blank_line ''s''" "\<not> blank_line ''t''"
  by code_simp+

lemma cursor_sample_records: "numbered_records sample_decode 0 (lines_of sample_input) = [(1, sample_session), (2, sample_turn)]"
  by (simp add: cursor_sample_lines cursor_sample_blank sample_decode_def)

lemmas cursor_sample_simps = map_record_def session_mapping_def turn_mapping_def required_string_def optional_string_def
  canonical_model_def bt_get_def session_end_reason_def build_observation_def parse_bounded frame_def
  sample_bounded short_bounded checked_sub_def timing_new_def let_ok_def let_some_def let_check_def

lemma cursor_sample_mapped:
  "mapped_ok (\<lambda>o1. all_safe (observation_state o1)) (Inr (map_record sample_digest sample_session))"
  "mapped_ok (\<lambda>o1. all_safe (observation_state o1)) (Inr (map_record sample_digest sample_turn))"
  by (simp_all add: cursor_sample_simps sample_session_def sample_turn_def mapped_ok_def all_safe_def observation_state_def
    usage_counts_def token_usage_default_def MAX_SAFE_def)

lemma cursor_sample_headers: "header_ok HANDOFF_SCHEMA_VERSION sample_session" "header_ok HANDOFF_SCHEMA_VERSION sample_turn"
  by (simp_all add: header_ok_def sample_session_def sample_turn_def HANDOFF_SCHEMA_VERSION_def
    short_bounded present_def)

lemma cursor_sample_chained: "chained [record_checkpoint Cursor sample_session, record_checkpoint Cursor sample_turn]"
  by (simp add: chained_def sample_session_def sample_turn_def)

lemma cursor_sample_accepted:
  assumes "\<forall>r. encode r \<noteq> None"
  shows "\<exists>items. parse_handoff_jsonl sample_digest encode sample_decode sample_input = Inr items"
proof -
  have "\<exists>s. try_fold (parse_record HANDOFF_SCHEMA_VERSION Cursor (\<lambda>r _. Inr (map_record sample_digest r)) (\<lambda>_. ()) sample_digest encode)
      loop_start (numbered_records sample_decode 0 (lines_of sample_input)) = Inr s"
    unfolding cursor.records_accepts [OF assms] cursor_sample_records
    by (simp add: cursor_sample_headers cursor_sample_chained cursor_sample_mapped)
  moreover have "lines_ok sample_decode (lines_of sample_input)" "length (lines_of sample_input) \<le> MAX_HANDOFF_LINES"
    "length sample_input \<le> MAX_HANDOFF_BYTES"
    unfolding cursor_sample_lines
    by (simp_all add: lines_ok_def sample_decode_def MAX_HANDOFF_LINES_def MAX_HANDOFF_LINE_BYTES_def
      sample_input_def MAX_HANDOFF_BYTES_def)
  ultimately show ?thesis by (auto simp: cursor_parse_handoff_eq)
qed

subsection \<open>Properties\<close>

text \<open>C25: the Cursor adapter keeps the invariant of a batch too: one item per line that is not blank, in order,
  with the checkpoint of its record; chained cursors; no observation twice; and the states of a batch
  without digest collisions are a valid topology.\<close>

theorem cursor_batch:
  assumes "parse_handoff_jsonl sha encode decode input = Inr items" and "no_collision sha (observations items)"
  shows "length items = length (filter (\<lambda>l. \<not> blank_line l) (lines_of input)) \<and>
    chained (map item_checkpoint items) \<and>
    distinct (map (observation_key sha encode) (observations items)) \<and>
    (\<exists>v. validate_topology (map observation_state (observations items)) = Inr v)"
proof -
  obtain s where s: "ls_items s = items" "lines_ok decode (lines_of input)" and
    run: "try_fold (parse_record HANDOFF_SCHEMA_VERSION Cursor (\<lambda>r _. Inr (map_record sha r)) (\<lambda>_. ()) sha encode)
      loop_start (numbered_records decode 0 (lines_of input)) = Inr s"
    using assms(1) unfolding cursor_parse_handoff_eq by blast
  note inv = cursor.records_batch(1-3) [OF run, unfolded s(1)] and ok = s(2)
  from map_eq_imp_length_eq [OF inv(1)] show ?thesis
    using inv(2,3) numbered_records_length [OF ok, of 0] cursor.records_linked [OF run, unfolded s(1), OF assms(2)] by simp
qed

theorem cursor_batch_witness:
  "\<exists>items. parse_handoff_jsonl sample_digest (\<lambda>_. Some []) sample_decode sample_input = Inr items \<and>
     length items = 2 \<and> chained (map item_checkpoint items) \<and>
     (\<exists>v. validate_topology (map observation_state (observations items)) = Inr v)"
proof -
  obtain items where items: "parse_handoff_jsonl sample_digest (\<lambda>_. Some []) sample_decode sample_input = Inr items"
    using cursor_sample_accepted [of "\<lambda>_. Some []"] by auto
  with cursor_batch [OF items sample_no_collision] show ?thesis by (auto simp: cursor_sample_lines cursor_sample_blank)
qed

text \<open>The Cursor adapter carries no content: attributes outside the fixed list do not matter, and the
  texts of an event come from a fixed vocabulary.\<close>

lemma cursor_content_free:
  assumes "agree_on READ_ATTRIBUTES (hr_attributes r) b"
  shows "map_record sha (r\<lparr>hr_attributes := b\<rparr>) = map_record sha r \<and>
    mapped_ok (\<lambda>o1. fixed_vocabulary (so_event o1)) (Inr (map_record sha r))"
  using cursor_mapping_ignores [OF assms] map_record_event [of sha r]
  by (auto simp: mapped_ok_def record_event_def cursor_emitted_def split: mapping.splits)

end
