(* ===== verification/Codex_Correlation.thy ===== *)
theory Codex_Correlation
  imports Jsonl_Adapter
begin

section \<open>Correlation of Codex requests\<close>

text \<open>
  \<^verbatim>\<open>OtlpRequestCorrelationState\<close> of \<^verbatim>\<open>crates/adapter-codex/src/lib.rs\<close>: a request and its completion may
  arrive in different exports and without a common identifier.  The state queues the open requests of
  a (generation, conversation, model) key, first in first out, remembers completed official retries,
  forgets both after five minutes and never holds more than 1024 entries.  The JSON decoder and
  printer of a snapshot are parameters.
\<close>

definition MAX_PENDING_OTLP_REQUESTS :: nat where
  "MAX_PENDING_OTLP_REQUESTS = 1024"

definition MAX_RECENTLY_COMPLETED_OTLP_REQUESTS :: nat where
  "MAX_RECENTLY_COMPLETED_OTLP_REQUESTS = 1024"

definition MAX_PERSISTED_OTLP_CORRELATION_BYTES :: nat where
  "MAX_PERSISTED_OTLP_CORRELATION_BYTES = 512 * 1024"

definition OTLP_REQUEST_CORRELATION_TTL_MS :: u64 where
  "OTLP_REQUEST_CORRELATION_TTL_MS = 5 * 60 * 1000"

subsection \<open>The state\<close>

type_synonym pair_key = "string \<times> string \<times> string"

record pending_request =
  pr_correlation_id :: string
  pr_official_retry_identity :: "string option"
  pr_inserted_at_unix_ms :: u64
  pr_sequence :: u64
  pr_current_record_index :: "nat option"

record completed_retry =
  cr_key :: pair_key
  cr_official_retry_identity :: string
  cr_completed_at_unix_ms :: u64
  cr_sequence :: u64

record correlation_state =
  cs_pending :: "(pair_key, pending_request list) btree"
  cs_recently_completed :: "completed_retry list"
  cs_next_sequence :: u64

definition correlation_state_default :: correlation_state where
  "correlation_state_default = \<lparr>cs_pending = [], cs_recently_completed = [], cs_next_sequence = 0\<rparr>"

definition pending_len :: "correlation_state \<Rightarrow> nat" where
  "pending_len s = sum_list (map length (bt_values (cs_pending s)))"

text \<open>The smallest element, as \<^verbatim>\<open>Iterator::min\<close>.\<close>

fun min_opt :: "'a::linorder list \<Rightarrow> 'a option" where
  "min_opt [] = None"
| "min_opt (x # xs) = (case min_opt xs of None \<Rightarrow> Some x | Some y \<Rightarrow> Some (if y < x then y else x))"

definition oldest_pending :: "correlation_state \<Rightarrow> (u64 \<times> pair_key) option" where
  "oldest_pending s = min_opt (present (map (\<lambda>(key, queue). case queue of
       [] \<Rightarrow> None | pending # _ \<Rightarrow> Some (pr_sequence pending, key)) (cs_pending s)))"

definition oldest_completed :: "correlation_state \<Rightarrow> (u64 \<times> nat) option" where
  "oldest_completed s = min_opt (map (\<lambda>(index, completed). (cr_sequence completed, index))
     (List.enumerate 0 (cs_recently_completed s)))"

text \<open>Drops the front of the queue of a key, and the key with its last request.\<close>

definition pop_front :: "pair_key \<Rightarrow> (pair_key, pending_request list) btree \<Rightarrow> (pair_key, pending_request list) btree" where
  "pop_front key pending = filter (\<lambda>(k, queue). k \<noteq> key \<or> queue \<noteq> [])
     (map (\<lambda>(k, queue). (k, if k = key then tl queue else queue)) pending)"

definition evict_oldest :: "correlation_state \<Rightarrow> correlation_state" where
  "evict_oldest s = (case oldest_completed s of
       Some (sequence, index) \<Rightarrow>
         (case oldest_pending s of
            Some (pending_sequence, key) \<Rightarrow>
              if sequence \<le> pending_sequence
                then s\<lparr>cs_recently_completed := take index (cs_recently_completed s) @ drop (index + 1) (cs_recently_completed s)\<rparr>
              else s\<lparr>cs_pending := pop_front key (cs_pending s)\<rparr>
          | None \<Rightarrow> s\<lparr>cs_recently_completed := take index (cs_recently_completed s) @ drop (index + 1) (cs_recently_completed s)\<rparr>)
     | None \<Rightarrow>
         (case oldest_pending s of
            Some (_, key) \<Rightarrow> s\<lparr>cs_pending := pop_front key (cs_pending s)\<rparr>
          | None \<Rightarrow> s))"

definition held :: "correlation_state \<Rightarrow> nat" where
  "held s = pending_len s + length (cs_recently_completed s)"

lemma min_opt_in: "min_opt xs = Some x \<Longrightarrow> x \<in> set xs"
  by (induction xs arbitrary: x) (auto split: option.splits if_splits)

lemma min_opt_None [simp]: "min_opt xs = None \<longleftrightarrow> xs = []"
  by (cases xs) (auto split: option.splits)

lemma pop_front_shorter:
  assumes "(key, p # queue) \<in> set m"
  shows "sum_list (map length (bt_values (pop_front key m))) < sum_list (map length (bt_values m))"
proof -
  have le: "sum_list (map length (bt_values (pop_front key m))) \<le> sum_list (map length (bt_values m))" for m
    by (induction m) (auto simp: pop_front_def bt_values_def)
  show ?thesis using assms
  proof (induction m)
    case (Cons e m)
    obtain k q where e: "e = (k, q)" by (cases e)
    show ?case
    proof (cases "e = (key, p # queue)")
      case True
      then show ?thesis using le [of m] by (auto simp: pop_front_def bt_values_def)
    next
      case False
      then show ?thesis using Cons by (auto simp: e pop_front_def bt_values_def)
    qed
  qed simp
qed

lemma evict_oldest_shrinks: "0 < held s \<Longrightarrow> held (evict_oldest s) < held s"
proof -
  assume held: "0 < held s"
  have completed: "length (take i xs @ drop (i + 1) xs) < length xs"
    if "oldest_completed s = Some (q, i)" "xs = cs_recently_completed s" for q i xs
  proof -
    have "i < length xs"
      using min_opt_in [OF that(1) [unfolded oldest_completed_def]] that(2) by (auto simp: in_set_enumerate_eq)
    then show ?thesis by simp
  qed
  have pending: "pending_len (s\<lparr>cs_pending := pop_front key (cs_pending s)\<rparr>) < pending_len s"
    if oldest: "oldest_pending s = Some (q, key)" for q key
  proof -
    obtain queue where "(key, queue) \<in> set (cs_pending s)" "queue \<noteq> []"
      using min_opt_in [OF oldest [unfolded oldest_pending_def]] by (fastforce split: list.splits)
    then show ?thesis using pop_front_shorter [of key "hd queue" "tl queue"] by (simp add: pending_len_def)
  qed
  have "oldest_completed s \<noteq> None \<or> oldest_pending s \<noteq> None"
  proof (rule ccontr)
    assume none: "\<not> ?thesis"
    then have "oldest_completed s = None" "oldest_pending s = None" by blast+
    note none = this [unfolded oldest_completed_def oldest_pending_def min_opt_None]
    from arg_cong [OF none(1), of length] have "cs_recently_completed s = []" by simp
    moreover have "queue = []" if "(key, queue) \<in> set (cs_pending s)" for key queue
      using none(2) that by (cases queue) (auto simp: present_def)
    ultimately have "held s = 0" by (auto simp: held_def pending_len_def bt_values_def)
    then show False using held by simp
  qed
  then show ?thesis using completed pending
    by (auto simp: evict_oldest_def held_def pending_len_def split: option.splits prod.splits)
qed

function enforce_capacity :: "correlation_state \<Rightarrow> correlation_state" where
  "enforce_capacity s = (if held s > MAX_PENDING_OTLP_REQUESTS then enforce_capacity (evict_oldest s) else s)"
  by pat_completeness auto
termination
  by (relation "measure held") (auto intro: evict_oldest_shrinks)

declare enforce_capacity.simps [simp del]

definition queue_of :: "(pair_key, pending_request list) btree \<Rightarrow> pair_key \<Rightarrow> pending_request list" where
  "queue_of m key = (case bt_get m key of None \<Rightarrow> [] | Some queue \<Rightarrow> queue)"

definition push_pending :: "pair_key \<Rightarrow> pending_request \<Rightarrow> correlation_state \<Rightarrow> correlation_state" where
  "push_pending key pending s = enforce_capacity
     (s\<lparr>cs_pending := bt_insert key (queue_of (cs_pending s) key @ [pending]) (cs_pending s)\<rparr>)"

definition push_completed :: "completed_retry \<Rightarrow> correlation_state \<Rightarrow> correlation_state" where
  "push_completed completed s =
     enforce_capacity (s\<lparr>cs_recently_completed := cs_recently_completed s @ [completed]\<rparr>)"

definition next_sequence :: "correlation_state \<Rightarrow> u64 \<times> correlation_state" where
  "next_sequence s = (cs_next_sequence s, case checked_add (cs_next_sequence s) 1 of
       Some next \<Rightarrow> s\<lparr>cs_next_sequence := next\<rparr>
     | None \<Rightarrow> \<lparr>cs_pending = [], cs_recently_completed = [], cs_next_sequence = 1\<rparr>)"

definition contains_official_retry :: "pair_key \<Rightarrow> string \<Rightarrow> correlation_state \<Rightarrow> bool" where
  "contains_official_retry key identity s \<longleftrightarrow>
     list_ex (\<lambda>pending. pr_official_retry_identity pending = Some identity) (queue_of (cs_pending s) key) \<or>
     list_ex (\<lambda>completed. cr_key completed = key \<and> cr_official_retry_identity completed = identity)
       (cs_recently_completed s)"

definition remember_completed_official_retry ::
  "pair_key \<Rightarrow> string option \<Rightarrow> u64 \<Rightarrow> correlation_state \<Rightarrow> correlation_state" where
  "remember_completed_official_retry key identity now s = (case identity of
       None \<Rightarrow> s
     | Some i \<Rightarrow> (case next_sequence s of (sequence, s1) \<Rightarrow>
         push_completed \<lparr>cr_key = key, cr_official_retry_identity = i,
           cr_completed_at_unix_ms = now, cr_sequence = sequence\<rparr> s1))"

definition fresh_at :: "u64 \<Rightarrow> u64 \<Rightarrow> bool" where
  "fresh_at now t \<longleftrightarrow> saturating_sub now t < OTLP_REQUEST_CORRELATION_TTL_MS"

definition expire :: "u64 \<Rightarrow> correlation_state \<Rightarrow> correlation_state" where
  "expire now s = s\<lparr>
     cs_pending := filter (\<lambda>(_, queue). queue \<noteq> [])
       (map (\<lambda>(key, queue). (key, filter (\<lambda>p. fresh_at now (pr_inserted_at_unix_ms p)) queue)) (cs_pending s)),
     cs_recently_completed := filter (\<lambda>c. fresh_at now (cr_completed_at_unix_ms c)) (cs_recently_completed s)\<rparr>"

definition finish_batch :: "correlation_state \<Rightarrow> correlation_state" where
  "finish_batch s = s\<lparr>cs_pending := filter (\<lambda>(_, queue). queue \<noteq> [])
     (map (\<lambda>(key, queue). (key, map (\<lambda>p. p\<lparr>pr_current_record_index := None\<rparr>) queue)) (cs_pending s))\<rparr>"

subsection \<open>Snapshots\<close>

record persisted_pending =
  pp_source_generation_hash :: string
  pp_conversation_hash :: string
  pp_model_hash :: string
  pp_correlation_id :: string
  pp_official_retry_identity :: "string option"
  pp_inserted_at_unix_ms :: u64
  pp_sequence :: u64

record persisted_completed =
  pc_source_generation_hash :: string
  pc_conversation_hash :: string
  pc_model_hash :: string
  pc_official_retry_identity :: string
  pc_completed_at_unix_ms :: u64
  pc_sequence :: u64

record persisted_state =
  ps_schema_version :: string
  ps_next_sequence :: u64
  ps_pending :: "persisted_pending list"
  ps_recently_completed :: "persisted_completed list"

definition is_ascii_hexdigit :: "char \<Rightarrow> bool" where
  "is_ascii_hexdigit c \<longleftrightarrow> 48 \<le> byte_of c \<and> byte_of c \<le> 57 \<or> 97 \<le> byte_of c \<and> byte_of c \<le> 102 \<or>
     65 \<le> byte_of c \<and> byte_of c \<le> 70"

definition is_private_hash :: "string \<Rightarrow> bool" where
  "is_private_hash value \<longleftrightarrow> length value = 74 \<and> starts_with value ''id:sha256:'' \<and>
     list_all is_ascii_hexdigit (drop 10 value)"

definition restore_pending :: "correlation_state \<Rightarrow> persisted_pending \<Rightarrow> adapter_error + correlation_state" where
  "restore_pending s p =
     (if \<not> is_private_hash (pp_source_generation_hash p) \<or> \<not> is_private_hash (pp_conversation_hash p) \<or>
         \<not> is_private_hash (pp_model_hash p) \<or> \<not> is_private_hash (pp_correlation_id p) \<or>
         \<not> list_all is_private_hash (present [pp_official_retry_identity p]) \<or>
         pp_sequence p \<ge> cs_next_sequence s
      then Inl InvalidSchema
      else Inr (push_pending (pp_source_generation_hash p, pp_conversation_hash p, pp_model_hash p)
        \<lparr>pr_correlation_id = pp_correlation_id p, pr_official_retry_identity = pp_official_retry_identity p,
         pr_inserted_at_unix_ms = pp_inserted_at_unix_ms p, pr_sequence = pp_sequence p,
         pr_current_record_index = None\<rparr> s))"

definition restore_completed :: "correlation_state \<Rightarrow> persisted_completed \<Rightarrow> adapter_error + correlation_state" where
  "restore_completed s c =
     (if \<not> is_private_hash (pc_source_generation_hash c) \<or> \<not> is_private_hash (pc_conversation_hash c) \<or>
         \<not> is_private_hash (pc_model_hash c) \<or> \<not> is_private_hash (pc_official_retry_identity c) \<or>
         pc_sequence c \<ge> cs_next_sequence s
      then Inl InvalidSchema
      else Inr (s\<lparr>cs_recently_completed := cs_recently_completed s @
        [\<lparr>cr_key = (pc_source_generation_hash c, pc_conversation_hash c, pc_model_hash c),
          cr_official_retry_identity = pc_official_retry_identity c,
          cr_completed_at_unix_ms = pc_completed_at_unix_ms c, cr_sequence = pc_sequence c\<rparr>]\<rparr>))"

definition REQUEST_CORRELATION_SCHEMA :: string where
  "REQUEST_CORRELATION_SCHEMA = ''codex_request_correlation.v1''"

definition from_persisted_json ::
  "(string \<Rightarrow> persisted_state option) \<Rightarrow> string \<Rightarrow> u64 \<Rightarrow> adapter_error + correlation_state" where
  "from_persisted_json decode input now =
     (if length input > MAX_PERSISTED_OTLP_CORRELATION_BYTES then Inl HandoffTooLarge
      else bind_result (ok_or (decode input) InvalidJson) (\<lambda>persisted.
      if ps_schema_version persisted \<noteq> REQUEST_CORRELATION_SCHEMA \<or>
         length (ps_pending persisted) > MAX_PENDING_OTLP_REQUESTS \<or>
         length (ps_recently_completed persisted) > MAX_RECENTLY_COMPLETED_OTLP_REQUESTS \<or>
         length (ps_pending persisted) + length (ps_recently_completed persisted) > MAX_PENDING_OTLP_REQUESTS
      then Inl InvalidSchema
      else bind_result (try_fold restore_pending
          \<lparr>cs_pending = [], cs_recently_completed = [], cs_next_sequence = ps_next_sequence persisted\<rparr>
          (ps_pending persisted)) (\<lambda>s1.
        bind_result (try_fold restore_completed s1 (ps_recently_completed persisted)) (\<lambda>s2.
        Inr (expire now s2)))))"

definition persist_pending :: "pair_key \<Rightarrow> pending_request \<Rightarrow> persisted_pending" where
  "persist_pending key request = (case key of (generation, conversation, model) \<Rightarrow>
     \<lparr>pp_source_generation_hash = generation, pp_conversation_hash = conversation, pp_model_hash = model,
      pp_correlation_id = pr_correlation_id request,
      pp_official_retry_identity = pr_official_retry_identity request,
      pp_inserted_at_unix_ms = pr_inserted_at_unix_ms request, pp_sequence = pr_sequence request\<rparr>)"

definition persist_completed :: "completed_retry \<Rightarrow> persisted_completed" where
  "persist_completed completed = (case cr_key completed of (generation, conversation, model) \<Rightarrow>
     \<lparr>pc_source_generation_hash = generation, pc_conversation_hash = conversation, pc_model_hash = model,
      pc_official_retry_identity = cr_official_retry_identity completed,
      pc_completed_at_unix_ms = cr_completed_at_unix_ms completed, pc_sequence = cr_sequence completed\<rparr>)"

definition persisted :: "correlation_state \<Rightarrow> persisted_state" where
  "persisted s = \<lparr>ps_schema_version = REQUEST_CORRELATION_SCHEMA, ps_next_sequence = cs_next_sequence s,
     ps_pending = concat (map (\<lambda>(key, queue). map (persist_pending key) queue) (cs_pending s)),
     ps_recently_completed = map persist_completed (cs_recently_completed s)\<rparr>"

definition to_persisted_json :: "(persisted_state \<Rightarrow> string option) \<Rightarrow> correlation_state \<Rightarrow> adapter_error + string" where
  "to_persisted_json print s = bind_result (ok_or (print (persisted s)) InvalidJson) (\<lambda>encoded.
     if length encoded > MAX_PERSISTED_OTLP_CORRELATION_BYTES then Inl HandoffTooLarge else Inr encoded)"

subsection \<open>Pairing the records of an export\<close>

definition otlp_request_pair_key :: "attributes \<Rightarrow> adapter_error + (string \<times> string) option" where
  "otlp_request_pair_key attributes =
     bind_result (optional_string attributes ''conversation_id'') (\<lambda>conversation_id.
     bind_result (optional_string attributes ''model'') (\<lambda>model.
     Inr (case (conversation_id, model) of (Some c, Some m) \<Rightarrow> Some (c, m) | _ \<Rightarrow> None)))"

definition set_request_id :: "nat \<Rightarrow> string option \<Rightarrow> 'surface handoff_record list \<Rightarrow> 'surface handoff_record list" where
  "set_request_id index request_id records = records[index := (records ! index)\<lparr>hr_attributes :=
     (case request_id of
        Some r \<Rightarrow> bt_insert ''request_id'' (VString r) (hr_attributes (records ! index))
      | None \<Rightarrow> bt_remove ''request_id'' (hr_attributes (records ! index)))\<rparr>]"

text \<open>A request: it gets an identifier, and is queued unless it failed or is a known retry.\<close>

definition correlate_request ::
  "digest \<Rightarrow> string \<Rightarrow> u64 \<Rightarrow> string \<times> string \<Rightarrow> pair_key \<Rightarrow> nat \<Rightarrow>
   'surface handoff_record list \<times> correlation_state \<Rightarrow>
   adapter_error + 'surface handoff_record list \<times> correlation_state" where
  "correlate_request sha source_generation now pair key index rs = (case (rs, pair) of ((records, state), (conversation_id, model)) \<Rightarrow>
     bind_result (optional_string (hr_attributes (records ! index)) ''request_id'') (\<lambda>request_id.
     let official_retry_identity = map_option (hash_opaque_identifier sha) request_id;
         correlation_id = (case official_retry_identity of
             Some i \<Rightarrow> i
           | None \<Rightarrow> stable_id sha ''id:sha256'' [''codex-local-request-v1'', source_generation,
               conversation_id, model, hr_cursor (records ! index)]);
         records1 = set_request_id index (Some correlation_id) records
     in bind_result (optional_bool (hr_attributes (records1 ! index)) ''success'') (\<lambda>success.
     if success = Some False then Inr (records1, state)
     else if (case official_retry_identity of
         None \<Rightarrow> False | Some identity \<Rightarrow> contains_official_retry key identity state) then Inr (records1, state)
     else (case next_sequence state of (sequence, s1) \<Rightarrow>
       Inr (records1, push_pending key
         \<lparr>pr_correlation_id = correlation_id, pr_official_retry_identity = official_retry_identity,
          pr_inserted_at_unix_ms = now, pr_sequence = sequence, pr_current_record_index = Some index\<rparr> s1)))))"

text \<open>A completion: it takes the oldest open request of its key, and both get one identifier.\<close>

definition correlate_completion ::
  "digest \<Rightarrow> u64 \<Rightarrow> pair_key \<Rightarrow> nat \<Rightarrow> 'surface handoff_record list \<times> correlation_state \<Rightarrow>
   adapter_error + 'surface handoff_record list \<times> correlation_state" where
  "correlate_completion sha now key index rs = (case rs of (records, state) \<Rightarrow>
     let s1 = state\<lparr>cs_pending := pop_front key (cs_pending state)\<rparr>
     in (case queue_of (cs_pending state) key of
          [] \<Rightarrow> Inr (records, s1)
        | pending # _ \<Rightarrow>
            let s2 = remember_completed_official_retry key (pr_official_retry_identity pending) now s1
            in bind_result (optional_string (hr_attributes (records ! index)) ''request_id'') (\<lambda>completed_request_id.
            let request_id = (case completed_request_id of
                Some completed \<Rightarrow>
                  if hash_opaque_identifier sha completed = pr_correlation_id pending then Some completed else None
              | None \<Rightarrow> Some (pr_correlation_id pending));
                records1 = (case pr_current_record_index pending of
                    Some api_index \<Rightarrow> set_request_id api_index request_id records
                  | None \<Rightarrow> records)
            in Inr (set_request_id index request_id records1, s2))))"

definition is_request_start :: "string \<Rightarrow> bool" where
  "is_request_start event \<longleftrightarrow> event \<in> {''codex.api_request'', ''codex.websocket_request''}"

definition is_completed :: "'surface handoff_record \<Rightarrow> adapter_error + bool" where
  "is_completed record = (if hr_event_name record = ''codex.sse_event''
     then bind_result (optional_string (hr_attributes record) ''kind'') (\<lambda>kind. Inr (kind = Some ''response.completed''))
     else Inr False)"

definition pair_key_of :: "digest \<Rightarrow> string \<Rightarrow> string \<times> string \<Rightarrow> pair_key" where
  "pair_key_of sha source_generation pair = (hash_opaque_identifier sha source_generation,
     hash_opaque_identifier sha (fst pair), hash_opaque_identifier sha (snd pair))"

definition correlate_record ::
  "digest \<Rightarrow> string \<Rightarrow> u64 \<Rightarrow> 'surface handoff_record list \<times> correlation_state \<Rightarrow> nat \<Rightarrow>
   adapter_error + 'surface handoff_record list \<times> correlation_state" where
  "correlate_record sha source_generation now rs index = (let record = fst rs ! index in
     bind_result (is_completed record) (\<lambda>completed.
     if \<not> is_request_start (hr_event_name record) \<and> \<not> completed then Inr rs
     else bind_result (otlp_request_pair_key (hr_attributes record)) (\<lambda>key_parts. case key_parts of
         None \<Rightarrow> Inr rs
       | Some pair \<Rightarrow>
           let key = pair_key_of sha source_generation pair
           in if is_request_start (hr_event_name record)
              then correlate_request sha source_generation now pair key index rs
              else correlate_completion sha now key index rs)))"

definition correlate_otlp_request_pairs ::
  "digest \<Rightarrow> string \<Rightarrow> u64 \<Rightarrow> 'surface handoff_record list \<times> correlation_state \<Rightarrow>
   adapter_error + 'surface handoff_record list \<times> correlation_state" where
  "correlate_otlp_request_pairs sha source_generation now rs = (case rs of (records, state) \<Rightarrow>
     bind_result (try_fold (correlate_record sha source_generation now) (records, expire now state) [0..<length records])
       (\<lambda>(records1, state1). Inr (records1, finish_batch state1)))"

end
