(* ===== verification/Codex_Correlation_Laws.thy ===== *)
theory Codex_Correlation_Laws
  imports Codex_Correlation
begin

section \<open>Properties of the request correlation\<close>

text \<open>
  The state stays small and tidy, a snapshot that is restored is the state again, exactly when every
  identifier in it is a hashed one, and, as long as there is room, the queues are the unbounded first
  in, first out pairing of an abstract specification.
\<close>

subsection \<open>Queues\<close>

definition tidy :: "(pair_key, pending_request list) btree \<Rightarrow> bool" where
  "tidy m \<longleftrightarrow> bt_sorted m \<and> list_all (\<lambda>(_, queue). queue \<noteq> []) m"

lemma bt_get_filter_map:
  "bt_sorted m \<Longrightarrow> bt_get (filter (\<lambda>(k, v). P k v) (map (\<lambda>(k, v). (k, f k v)) m)) k =
     (case bt_get m k of None \<Rightarrow> None | Some v \<Rightarrow> if P k (f k v) then Some (f k v) else None)"
proof (induction m)
  case (Cons e m)
  then have "k = fst e \<Longrightarrow> map_of m k = None"
    by (auto simp: bt_sorted_def map_of_eq_None_iff)
  then show ?case using Cons by (cases e) (auto simp: bt_get_def bt_sorted_def split: option.splits)
qed (simp add: bt_get_def)

lemma bt_sorted_filter_map:
  "bt_sorted m \<Longrightarrow> bt_sorted (filter P (map (\<lambda>(k, v). (k, f k v)) m))"
proof -
  assume "bt_sorted m"
  moreover have "map fst (map (\<lambda>(k, v). (k, f k v)) m) = map fst m" by (simp add: case_prod_unfold)
  ultimately have "sorted_wrt (<) (map fst (map (\<lambda>(k, v). (k, f k v)) m))"
    unfolding bt_sorted_def by (simp only:)
  then have "sorted_wrt (\<lambda>x y. fst x < fst y) (map (\<lambda>(k, v). (k, f k v)) m)" by (simp only: sorted_wrt_map)
  then show ?thesis
    unfolding bt_sorted_def sorted_wrt_map [of _ fst] by (rule sorted_wrt_filter)
qed

lemma pop_front_tidy: "tidy m \<Longrightarrow> tidy (pop_front key m)"
  unfolding tidy_def pop_front_def
  by (auto intro!: bt_sorted_filter_map simp: list_all_iff)

lemma queue_of_pop_front:
  assumes "tidy m"
  shows "queue_of (pop_front key m) = (queue_of m)(key := tl (queue_of m key))"
  using assms bt_get_filter_map [of m "\<lambda>k queue. k \<noteq> key \<or> queue \<noteq> []" "\<lambda>k queue. if k = key then tl queue else queue"]
  by (auto simp: tidy_def queue_of_def pop_front_def fun_eq_iff split: option.splits)

lemma tidy_get:
  assumes "tidy m"
  shows "bt_get m k = (if queue_of m k = [] then None else Some (queue_of m k))"
proof (cases "bt_get m k")
  case (Some queue)
  then have "(k, queue) \<in> set m" by (simp add: bt_get_def map_of_SomeD)
  then show ?thesis using assms Some by (auto simp: tidy_def list_all_iff queue_of_def)
qed (simp add: queue_of_def)

lemma tidy_eqI: "tidy m \<Longrightarrow> tidy m' \<Longrightarrow> queue_of m = queue_of m' \<Longrightarrow> m = m'"
  using tidy_get [of m] tidy_get [of m'] by (intro bt_canonical) (simp_all add: tidy_def fun_eq_iff)

lemma tidy_Nil [simp]: "tidy []" "queue_of [] = (\<lambda>_. [])"
  by (simp_all add: tidy_def bt_sorted_def queue_of_def bt_get_def fun_eq_iff)

lemma tidy_insert: "tidy m \<Longrightarrow> queue \<noteq> [] \<Longrightarrow> tidy (bt_insert key queue m)"
proof -
  have "set (bt_insert key queue m) \<subseteq> insert (key, queue) (set m)" for m
    by (induction key queue m rule: bt_insert.induct) auto
  then show "tidy m \<Longrightarrow> queue \<noteq> [] \<Longrightarrow> tidy (bt_insert key queue m)"
    using bt_sorted_insert [of m key queue] by (fastforce simp: tidy_def list_all_iff)
qed

lemma queue_of_insert: "tidy m \<Longrightarrow> queue_of (bt_insert key queue m) = (queue_of m)(key := queue)"
  by (auto simp: tidy_def queue_of_def bt_get_insert fun_eq_iff)

lemma length_insert:
  "bt_sorted m \<Longrightarrow> sum_list (map length (bt_values (bt_insert key queue m))) + length (queue_of m key) =
     sum_list (map length (bt_values m)) + length queue"
proof (induction m)
  case (Cons e m)
  obtain k q where e: "e = (k, q)" by (cases e)
  have "key < k \<Longrightarrow> queue_of (e # m) key = []"
    using Cons.prems by (auto simp: e bt_sorted_def queue_of_def bt_get_def split: option.splits dest!: map_of_SomeD)
  then show ?case using Cons by (auto simp: e bt_values_def queue_of_def bt_get_def bt_sorted_def)
qed (simp add: bt_values_def queue_of_def bt_get_def)

subsection \<open>The state stays small and tidy\<close>

definition state_ok :: "correlation_state \<Rightarrow> bool" where
  "state_ok s \<longleftrightarrow> tidy (cs_pending s) \<and> held s \<le> MAX_PENDING_OTLP_REQUESTS"

lemma evict_tidy: "tidy (cs_pending s) \<Longrightarrow> tidy (cs_pending (evict_oldest s))"
  by (auto simp: evict_oldest_def pop_front_tidy split: option.splits prod.splits)

lemma enforce_ok: "tidy (cs_pending s) \<Longrightarrow> state_ok (enforce_capacity s)"
proof (induction s rule: enforce_capacity.induct)
  case (1 s)
  then show ?case
    by (subst enforce_capacity.simps) (auto simp: state_ok_def evict_tidy)
qed

lemma enforce_within: "held s \<le> MAX_PENDING_OTLP_REQUESTS \<Longrightarrow> enforce_capacity s = s"
  by (subst enforce_capacity.simps) simp

lemma push_pending_ok: "tidy (cs_pending s) \<Longrightarrow> state_ok (push_pending key p s)"
  by (simp add: push_pending_def enforce_ok tidy_insert)

lemma push_completed_ok: "tidy (cs_pending s) \<Longrightarrow> state_ok (push_completed c s)"
  by (simp add: push_completed_def enforce_ok)

lemma next_sequence_ok: "state_ok s \<Longrightarrow> state_ok (snd (next_sequence s))"
  by (auto simp: next_sequence_def state_ok_def held_def pending_len_def bt_values_def split: option.splits)

lemma filter_map_shorter:
  assumes "\<And>q. length (f q) \<le> length q"
  shows "sum_list (map length (bt_values (filter P (map (\<lambda>(k, q). (k, f q)) m)))) \<le> sum_list (map length (bt_values m))"
proof (induction m)
  case (Cons e m)
  then show ?case using assms [of "snd e"] by (cases e) (auto simp: bt_values_def)
qed (simp add: bt_values_def)

lemma pop_front_ok: "state_ok s \<Longrightarrow> state_ok (s\<lparr>cs_pending := pop_front key (cs_pending s)\<rparr>)"
proof -
  have "sum_list (map length (bt_values (pop_front key m))) \<le> sum_list (map length (bt_values m))" for m
    by (induction m) (auto simp: pop_front_def bt_values_def)
  from this [of "cs_pending s"] show "state_ok s \<Longrightarrow> ?thesis"
    by (auto simp: state_ok_def held_def pending_len_def pop_front_tidy)
qed

lemma expire_ok: "state_ok s \<Longrightarrow> state_ok (expire now s)"
proof -
  have "sum_list (map length (bt_values (cs_pending (expire now s)))) \<le> sum_list (map length (bt_values (cs_pending s)))"
    unfolding expire_def correlation_state.simps
    by (rule order_trans [OF _ filter_map_shorter]) (auto simp: correlation_state.defs)
  moreover have "length (cs_recently_completed (expire now s)) \<le> length (cs_recently_completed s)"
    by (simp add: expire_def)
  moreover have "tidy (cs_pending s) \<Longrightarrow> tidy (cs_pending (expire now s))"
    by (auto simp: expire_def tidy_def list_all_iff intro!: bt_sorted_filter_map)
  ultimately show "state_ok s \<Longrightarrow> state_ok (expire now s)"
    by (auto simp: state_ok_def held_def pending_len_def)
qed

lemma finish_ok: "state_ok s \<Longrightarrow> state_ok (finish_batch s)"
proof -
  have "sum_list (map length (bt_values (cs_pending (finish_batch s)))) \<le> sum_list (map length (bt_values (cs_pending s)))"
    unfolding finish_batch_def correlation_state.simps
    by (rule order_trans [OF _ filter_map_shorter]) auto
  moreover have "tidy (cs_pending s) \<Longrightarrow> tidy (cs_pending (finish_batch s))"
    by (auto simp: finish_batch_def tidy_def list_all_iff intro!: bt_sorted_filter_map)
  ultimately show "state_ok s \<Longrightarrow> state_ok (finish_batch s)"
    by (auto simp: state_ok_def held_def pending_len_def finish_batch_def)
qed

lemma remember_ok: "state_ok s \<Longrightarrow> state_ok (remember_completed_official_retry key i now s)"
  using next_sequence_ok [of s]
  by (auto simp: remember_completed_official_retry_def state_ok_def [of "snd _"] push_completed_ok
    split: option.splits prod.splits)


subsection \<open>What an operation can add\<close>

definition pending_entries :: "correlation_state \<Rightarrow> (pair_key \<times> pending_request) set" where
  "pending_entries s = {(key, p). \<exists>queue. (key, queue) \<in> set (cs_pending s) \<and> p \<in> set queue}"

lemma pop_front_entries:
  "pending_entries (s\<lparr>cs_pending := pop_front key (cs_pending s)\<rparr>) \<subseteq> pending_entries s"
  by (force simp: pending_entries_def pop_front_def split: if_splits dest: list.set_sel(2) [rotated])

lemma evict_entries:
  "pending_entries (evict_oldest s) \<subseteq> pending_entries s \<and>
     set (cs_recently_completed (evict_oldest s)) \<subseteq> set (cs_recently_completed s) \<and>
     cs_next_sequence (evict_oldest s) = cs_next_sequence s"
proof -
  have "set (take i xs @ drop (i + 1) xs) \<subseteq> set xs" for i and xs :: "completed_retry list"
    using set_take_subset [of i xs] set_drop_subset [of "i + 1" xs] by simp
  moreover have "pending_entries (s\<lparr>cs_recently_completed := c\<rparr>) = pending_entries s" for c
    by (simp add: pending_entries_def)
  ultimately show ?thesis using pop_front_entries [where s = s]
    by (auto simp: evict_oldest_def split: option.splits prod.splits if_splits)
qed

lemma enforce_entries:
  "pending_entries (enforce_capacity s) \<subseteq> pending_entries s \<and>
     set (cs_recently_completed (enforce_capacity s)) \<subseteq> set (cs_recently_completed s) \<and>
     cs_next_sequence (enforce_capacity s) = cs_next_sequence s"
proof (induction s rule: enforce_capacity.induct)
  case (1 s)
  then show ?case using evict_entries [of s]
    by (subst (1 2 3) enforce_capacity.simps) auto
qed

lemma set_bt_insert: "set (bt_insert k v t) \<subseteq> insert (k, v) (set t)"
  by (induction k v t rule: bt_insert.induct) auto

lemma push_pending_entries:
  "pending_entries (push_pending key p s) \<subseteq> insert (key, p) (pending_entries s)"
proof -
  have "pending_entries (s\<lparr>cs_pending := bt_insert key (queue_of (cs_pending s) key @ [p]) (cs_pending s)\<rparr>)
      \<subseteq> insert (key, p) (pending_entries s)"
    using set_bt_insert [of key "queue_of (cs_pending s) key @ [p]" "cs_pending s"]
    by (fastforce simp: pending_entries_def queue_of_def bt_get_def dest: map_of_SomeD split: option.splits)
  then show ?thesis using enforce_entries unfolding push_pending_def by blast
qed

lemma next_sequence_entries:
  "pending_entries (snd (next_sequence s)) \<subseteq> pending_entries s"
  by (auto simp: next_sequence_def pending_entries_def split: option.splits)

lemma remember_entries:
  "pending_entries (remember_completed_official_retry key i now s) \<subseteq> pending_entries s"
proof -
  have "pending_entries (push_completed c t) \<subseteq> pending_entries t" for c t
    using enforce_entries [of "t\<lparr>cs_recently_completed := cs_recently_completed t @ [c]\<rparr>"]
    by (simp add: push_completed_def pending_entries_def)
  then show ?thesis using next_sequence_entries [of s]
    by (fastforce simp: remember_completed_official_retry_def split: option.splits prod.splits)
qed

lemma expire_entries: "pending_entries (expire now s) \<subseteq> pending_entries s"
  by (fastforce simp: pending_entries_def expire_def)

lemma finish_entries:
  "pending_entries (finish_batch s) = (\<lambda>(key, p). (key, p\<lparr>pr_current_record_index := None\<rparr>)) ` pending_entries s"
  by (force simp: pending_entries_def finish_batch_def image_iff)

text \<open>Every position that a queued request remembers is one of the first \<open>n\<close> records.\<close>

definition positions_below :: "nat \<Rightarrow> correlation_state \<Rightarrow> bool" where
  "positions_below n s \<longleftrightarrow> (\<forall>(key, p) \<in> pending_entries s. \<forall>i. pr_current_record_index p = Some i \<longrightarrow> i < n)"

lemma positions_mono: "positions_below n s \<Longrightarrow> pending_entries t \<subseteq> pending_entries s \<Longrightarrow> n \<le> m \<Longrightarrow> positions_below m t"
  by (fastforce simp: positions_below_def)

lemma positions_push:
  "positions_below n s \<Longrightarrow> n \<le> m \<Longrightarrow> pr_current_record_index p = Some i \<Longrightarrow> i < m \<Longrightarrow>
     positions_below m (push_pending key p s)"
  using push_pending_entries [of key p s] by (fastforce simp: positions_below_def)

lemma positions_finish: "positions_below 0 (finish_batch s)"
  by (auto simp: positions_below_def finish_entries)

subsection \<open>An export is correlated\<close>

definition same_but_request_id :: "'surface handoff_record \<Rightarrow> 'surface handoff_record \<Rightarrow> bool" where
  "same_but_request_id r r' \<longleftrightarrow> r' = r\<lparr>hr_attributes := hr_attributes r'\<rparr> \<and>
     (\<forall>k. k \<noteq> ''request_id'' \<longrightarrow> bt_get (hr_attributes r') k = bt_get (hr_attributes r) k) \<and>
     bt_sorted (hr_attributes r')"

lemma same_refl: "bt_sorted (hr_attributes r) \<Longrightarrow> same_but_request_id r r"
  by (simp add: same_but_request_id_def)

lemma same_trans: "same_but_request_id a b \<Longrightarrow> same_but_request_id b c \<Longrightarrow> same_but_request_id a c"
  by (cases a; cases b; cases c) (simp add: same_but_request_id_def)

lemma same_set_request_id:
  "bt_sorted (hr_attributes r) \<Longrightarrow> same_but_request_id r (r\<lparr>hr_attributes :=
     (case q of Some v \<Rightarrow> bt_insert ''request_id'' (VString v) (hr_attributes r)
      | None \<Rightarrow> bt_remove ''request_id'' (hr_attributes r))\<rparr>)"
  by (simp add: same_but_request_id_def bt_get_insert bt_sorted_insert bt_get_remove bt_sorted_remove split: option.split)

lemma length_set_request_id [simp]: "length (set_request_id i q rs) = length rs"
  by (simp add: set_request_id_def)

lemma set_request_id_other [simp]: "i \<noteq> j \<Longrightarrow> set_request_id i q rs ! j = rs ! j"
  by (simp add: set_request_id_def)

lemma set_request_id_same:
  assumes "list_all2 same_but_request_id rs0 rs"
  shows "list_all2 same_but_request_id rs0 (set_request_id i q rs)"
proof (rule list_all2_all_nthI)
  show "length rs0 = length (set_request_id i q rs)" using assms by (simp add: list_all2_lengthD)
  fix j assume j: "j < length rs0"
  have same: "same_but_request_id (rs0 ! j) (rs ! j)" using assms j by (rule list_all2_nthD)
  have sorted: "bt_sorted (hr_attributes (rs ! j))" using same by (simp add: same_but_request_id_def)
  show "same_but_request_id (rs0 ! j) (set_request_id i q rs ! j)"
  proof (cases "i = j")
    case True
    then have "set_request_id i q rs ! j = (rs ! j)\<lparr>hr_attributes :=
        (case q of Some v \<Rightarrow> bt_insert ''request_id'' (VString v) (hr_attributes (rs ! j))
         | None \<Rightarrow> bt_remove ''request_id'' (hr_attributes (rs ! j)))\<rparr>"
      using j list_all2_lengthD [OF assms] by (simp add: set_request_id_def)
    then show ?thesis using same_trans [OF same same_set_request_id [OF sorted, of q]] by simp
  qed (simp add: same)
qed

definition readable :: "attributes \<Rightarrow> bool" where
  "readable a \<longleftrightarrow> bt_sorted a \<and>
     list_all (\<lambda>k. \<exists>v. optional_string a k = Inr v) [''conversation_id'', ''model'', ''request_id'', ''kind''] \<and>
     (\<exists>b. optional_bool a ''success'' = Inr b)"

text \<open>What holds before the record at a position is correlated.\<close>

definition correlating :: "'surface handoff_record list \<Rightarrow> nat \<Rightarrow> 'surface handoff_record list \<times> correlation_state \<Rightarrow> bool" where
  "correlating records0 j rs \<longleftrightarrow> state_ok (snd rs) \<and> positions_below j (snd rs) \<and>
     list_all2 same_but_request_id records0 (fst rs) \<and>
     (\<forall>i. j \<le> i \<longrightarrow> i < length records0 \<longrightarrow> fst rs ! i = records0 ! i)"

lemma correlating_later:
  "correlating records0 j rs \<Longrightarrow> correlating records0 (Suc j) rs"
  by (auto simp: correlating_def intro: positions_mono)

lemma success_after_set:
  "bt_sorted (hr_attributes (rs ! i)) \<Longrightarrow>
     optional_bool (hr_attributes (set_request_id i q rs ! i)) ''success'' = optional_bool (hr_attributes (rs ! i)) ''success''"
proof -
  assume "bt_sorted (hr_attributes (rs ! i))"
  then have "bt_get (hr_attributes (set_request_id i q rs ! i)) ''success'' = bt_get (hr_attributes (rs ! i)) ''success''"
    by (cases "i < length rs"; cases q)
      (simp_all add: set_request_id_def bt_get_insert bt_get_remove list_update_beyond)
  then show ?thesis by (simp add: optional_bool_def)
qed

lemma correlate_request_step:
  assumes c: "correlating records0 j (rs, s)" and j: "j < length records0"
    and readable: "readable (hr_attributes (records0 ! j))"
  shows "\<exists>rs'. correlate_request sha g now pair key j (rs, s) = Inr rs' \<and> correlating records0 (Suc j) rs'"
proof -
  have cur: "rs ! j = records0 ! j" using c j by (simp add: correlating_def)
  obtain r where r: "optional_string (hr_attributes (rs ! j)) ''request_id'' = Inr r"
    using readable by (auto simp: readable_def cur)
  obtain b where b: "optional_bool (hr_attributes (rs ! j)) ''success'' = Inr b"
    using readable by (auto simp: readable_def cur)
  obtain n s1 where n: "next_sequence s = (n, s1)" by (cases "next_sequence s")
  have sorted: "bt_sorted (hr_attributes (rs ! j))" using readable by (simp add: readable_def cur)
  have set: "correlating records0 (Suc j) (set_request_id j q rs, s)" for q
    using c set_request_id_same by (auto simp: correlating_def intro: positions_mono)
  have push: "correlating records0 (Suc j) (set_request_id j q rs, push_pending key
      \<lparr>pr_correlation_id = i, pr_official_retry_identity = o1, pr_inserted_at_unix_ms = now, pr_sequence = n,
       pr_current_record_index = Some j\<rparr> s1)" for q i o1
    using set [of q] next_sequence_ok [of s] next_sequence_entries [of s] n
    by (auto simp: correlating_def state_ok_def [of s1] intro!: push_pending_ok
      intro: positions_push [where n = "Suc j" and i = j] positions_mono)
  obtain c m where p: "pair = (c, m)" by (cases pair)
  show ?thesis using set push
    by (auto simp: correlate_request_def r b p n success_after_set [OF sorted] Let_def)
qed

lemma queue_front_entry: "queue_of (cs_pending s) key = p # ps \<Longrightarrow> (key, p) \<in> pending_entries s"
  by (fastforce simp: queue_of_def bt_get_def pending_entries_def dest: map_of_SomeD split: option.splits)

lemma pop_front_head:
  "queue_of (cs_pending s) key = p # ps \<Longrightarrow>
     held (s\<lparr>cs_pending := pop_front key (cs_pending s)\<rparr>) < held s"
  using pop_front_shorter [of key p ps "cs_pending s"]
  by (fastforce simp: held_def pending_len_def queue_of_def bt_get_def dest: map_of_SomeD split: option.splits)

lemma correlate_completion_step:
  assumes c: "correlating records0 j (rs, s)" and j: "j < length records0"
    and readable: "readable (hr_attributes (records0 ! j))"
  shows "\<exists>rs'. correlate_completion sha now key j (rs, s) = Inr rs' \<and> correlating records0 (Suc j) rs'"
proof -
  let ?s1 = "s\<lparr>cs_pending := pop_front key (cs_pending s)\<rparr>"
  have cur: "rs ! j = records0 ! j" using c j by (simp add: correlating_def)
  obtain r where r: "optional_string (hr_attributes (rs ! j)) ''request_id'' = Inr r"
    using readable by (auto simp: readable_def cur)
  have pos: "positions_below (Suc j) ?s1"
    using c pop_front_entries [where s = s and key = key] by (auto simp: correlating_def intro: positions_mono)
  have ok: "state_ok ?s1" using c by (simp add: correlating_def pop_front_ok)
  show ?thesis
  proof (cases "queue_of (cs_pending s) key")
    case Nil
    then show ?thesis using c pos ok by (simp add: correlate_completion_def Let_def correlating_def)
  next
    case (Cons p ps)
    have front: "i < j" if "pr_current_record_index p = Some i" for i
      using c that queue_front_entry [OF Cons] by (fastforce simp: correlating_def positions_below_def)
    define records1 where "records1 q = (case pr_current_record_index p of
        Some i \<Rightarrow> set_request_id i q rs | None \<Rightarrow> rs)" for q
    have "list_all2 same_but_request_id records0 (set_request_id j q (records1 q))" for q
      using c set_request_id_same by (auto simp: records1_def correlating_def split: option.split)
    moreover have "set_request_id j q (records1 q) ! i = records0 ! i" if "Suc j \<le> i" "i < length records0" for i q
    proof -
      have "k < i" if "pr_current_record_index p = Some k" for k using front [OF that] \<open>Suc j \<le> i\<close> by simp
      then show ?thesis using c that by (auto simp: records1_def correlating_def split: option.split)
    qed
    ultimately have "correlating records0 (Suc j) (set_request_id j q (records1 q),
        remember_completed_official_retry key (pr_official_retry_identity p) now ?s1)" for q
      using remember_ok [OF ok] positions_mono [OF pos remember_entries order_refl]
      by (simp add: correlating_def)
    then show ?thesis by (simp add: correlate_completion_def Let_def Cons r records1_def)
  qed
qed

lemma correlate_record_step:
  assumes c: "correlating records0 j rs" and j: "j < length records0"
    and readable: "readable (hr_attributes (records0 ! j))"
  shows "\<exists>rs'. correlate_record sha g now rs j = Inr rs' \<and> correlating records0 (Suc j) rs'"
proof -
  obtain records s where rs: "rs = (records, s)" by (cases rs)
  have cur: "records ! j = records0 ! j" using c j by (simp add: correlating_def rs)
  obtain kind where kind: "optional_string (hr_attributes (records ! j)) ''kind'' = Inr kind"
    using readable by (auto simp: readable_def cur)
  obtain k where k: "is_completed (records ! j) = Inr k" using kind
    by (cases "hr_event_name (records ! j) = ''codex.sse_event''") (auto simp: is_completed_def)
  obtain c m where cm: "optional_string (hr_attributes (records ! j)) ''conversation_id'' = Inr c"
    "optional_string (hr_attributes (records ! j)) ''model'' = Inr m"
    using readable by (auto simp: readable_def cur)
  obtain p where p: "otlp_request_pair_key (hr_attributes (records ! j)) = Inr p"
    by (simp add: otlp_request_pair_key_def cm)
  show ?thesis
    using correlate_request_step [OF c [unfolded rs] j readable] correlate_completion_step [OF c [unfolded rs] j readable]
      correlating_later [OF c]
    by (auto simp: correlate_record_def rs k p Let_def split: option.split)
qed

lemma correlate_records:
  assumes "correlating records0 j rs" and "j + n \<le> length records0"
    and "\<forall>r \<in> set records0. readable (hr_attributes r)"
  shows "\<exists>rs'. try_fold (correlate_record sha g now) rs [j..<j + n] = Inr rs' \<and> correlating records0 (j + n) rs'"
  using assms
proof (induction n arbitrary: j rs)
  case (Suc n)
  obtain rs1 where rs1: "correlate_record sha g now rs j = Inr rs1" "correlating records0 (Suc j) rs1"
    using correlate_record_step [OF Suc.prems(1)] Suc.prems by fastforce
  have "[j..<j + Suc n] = j # [Suc j..<Suc j + n]" by (simp add: upt_rec)
  then show ?case using Suc.IH [OF rs1(2)] Suc.prems rs1(1) by simp
qed simp

definition batch_ok :: "correlation_state \<Rightarrow> bool" where
  "batch_ok s \<longleftrightarrow> state_ok s \<and> positions_below 0 s"

lemma correlation_total_aux:
  assumes "batch_ok s" and "\<forall>r \<in> set records. readable (hr_attributes r)"
  shows "\<exists>records' s'. correlate_otlp_request_pairs sha g now (records, s) = Inr (records', s') \<and>
    batch_ok s' \<and> list_all2 same_but_request_id records records'"
proof -
  have "correlating records 0 (records, expire now s)"
    using assms expire_ok expire_entries [of now s]
    by (auto simp: correlating_def batch_ok_def readable_def list_all2_conv_all_nth same_refl intro: positions_mono)
  from correlate_records [OF this, of "length records" sha g now] assms(2)
  obtain rs where "try_fold (correlate_record sha g now) (records, expire now s) [0..<length records] = Inr rs"
    "correlating records (length records) rs" by auto
  then show ?thesis using finish_ok positions_finish
    by (cases rs) (simp add: correlate_otlp_request_pairs_def correlating_def batch_ok_def)
qed

subsection \<open>Snapshots\<close>

definition entry_ok :: "u64 \<Rightarrow> pair_key \<times> pending_request \<Rightarrow> bool" where
  "entry_ok n e = (case e of ((generation, conversation, model), p) \<Rightarrow>
     list_all is_private_hash ([generation, conversation, model, pr_correlation_id p] @
       present [pr_official_retry_identity p]) \<and> pr_sequence p < n)"

definition completed_ok :: "u64 \<Rightarrow> completed_retry \<Rightarrow> bool" where
  "completed_ok n c = (case cr_key c of (generation, conversation, model) \<Rightarrow>
     list_all is_private_hash [generation, conversation, model, cr_official_retry_identity c] \<and> cr_sequence c < n)"

definition snapshot_ok :: "correlation_state \<Rightarrow> bool" where
  "snapshot_ok s \<longleftrightarrow> (\<forall>e \<in> pending_entries s. entry_ok (cs_next_sequence s) e) \<and>
     list_all (completed_ok (cs_next_sequence s)) (cs_recently_completed s)"

text \<open>A persisted request, as the key and the request it restores.\<close>

definition restored_key :: "persisted_pending \<Rightarrow> pair_key" where
  "restored_key p = (pp_source_generation_hash p, pp_conversation_hash p, pp_model_hash p)"

definition restored_request :: "persisted_pending \<Rightarrow> pending_request" where
  "restored_request p = \<lparr>pr_correlation_id = pp_correlation_id p,
     pr_official_retry_identity = pp_official_retry_identity p,
     pr_inserted_at_unix_ms = pp_inserted_at_unix_ms p, pr_sequence = pp_sequence p,
     pr_current_record_index = None\<rparr>"

definition restored_completed :: "persisted_completed \<Rightarrow> completed_retry" where
  "restored_completed c = \<lparr>cr_key = (pc_source_generation_hash c, pc_conversation_hash c, pc_model_hash c),
     cr_official_retry_identity = pc_official_retry_identity c,
     cr_completed_at_unix_ms = pc_completed_at_unix_ms c, cr_sequence = pc_sequence c\<rparr>"

lemma restored_persisted [simp]:
  "restored_key (persist_pending key p) = key"
  "restored_request (persist_pending key p) = p\<lparr>pr_current_record_index := None\<rparr>"
  "restored_completed (persist_completed c) = c"
  by (simp_all add: restored_key_def restored_request_def restored_completed_def persist_pending_def
    persist_completed_def split: prod.split)

lemma restore_pending_eq: "restore_pending s p =
    (if entry_ok (cs_next_sequence s) (restored_key p, restored_request p)
     then Inr (push_pending (restored_key p) (restored_request p) s) else Inl InvalidSchema)"
  by (auto simp: restore_pending_def entry_ok_def restored_key_def restored_request_def not_le)

lemma restore_completed_eq: "restore_completed s c =
    (if completed_ok (cs_next_sequence s) (restored_completed c)
     then Inr (s\<lparr>cs_recently_completed := cs_recently_completed s @ [restored_completed c]\<rparr>) else Inl InvalidSchema)"
  by (auto simp: restore_completed_def completed_ok_def restored_completed_def not_le)

lemma restore_completed_fold:
  "try_fold restore_completed s cs =
     (if list_all (completed_ok (cs_next_sequence s) \<circ> restored_completed) cs
      then Inr (s\<lparr>cs_recently_completed := cs_recently_completed s @ map restored_completed cs\<rparr>)
      else Inl InvalidSchema)"
  by (induction cs arbitrary: s) (simp_all add: restore_completed_eq)

lemma push_pending_room:
  assumes "tidy (cs_pending s)" and "held s < MAX_PENDING_OTLP_REQUESTS"
  shows "push_pending key p s = s\<lparr>cs_pending := bt_insert key (queue_of (cs_pending s) key @ [p]) (cs_pending s)\<rparr>"
    and "held (push_pending key p s) = Suc (held s)" and "tidy (cs_pending (push_pending key p s))"
    and "queue_of (cs_pending (push_pending key p s)) = (queue_of (cs_pending s))(key := queue_of (cs_pending s) key @ [p])"
proof -
  let ?t = "s\<lparr>cs_pending := bt_insert key (queue_of (cs_pending s) key @ [p]) (cs_pending s)\<rparr>"
  have held: "held ?t = Suc (held s)"
    using length_insert [of "cs_pending s" key "queue_of (cs_pending s) key @ [p]"] assms(1)
    by (simp add: held_def pending_len_def tidy_def)
  then show eq: "push_pending key p s = ?t"
    using assms(2) by (simp add: push_pending_def enforce_within)
  show "held (push_pending key p s) = Suc (held s)" by (simp add: eq held)
  show "tidy (cs_pending (push_pending key p s))" using assms(1) by (simp add: eq tidy_insert)
  show "queue_of (cs_pending (push_pending key p s)) = (queue_of (cs_pending s))(key := queue_of (cs_pending s) key @ [p])"
    using assms(1) by (simp add: eq queue_of_insert)
qed

lemma restore_pending_fold:
  assumes "tidy (cs_pending s)" and "held s + length ps \<le> MAX_PENDING_OTLP_REQUESTS"
  shows "if list_all (\<lambda>p. entry_ok (cs_next_sequence s) (restored_key p, restored_request p)) ps
    then \<exists>m. try_fold restore_pending s ps = Inr (s\<lparr>cs_pending := m\<rparr>) \<and> tidy m \<and>
      queue_of m = (\<lambda>k. queue_of (cs_pending s) k @ map restored_request (filter (\<lambda>p. restored_key p = k) ps))
    else try_fold restore_pending s ps = Inl InvalidSchema"
  using assms
proof (induction ps arbitrary: s)
  case Nil
  then show ?case by (auto intro!: exI [of _ "cs_pending s"])
next
  case (Cons p ps)
  note room = push_pending_room [of s "restored_key p" "restored_request p"]
  let ?t = "push_pending (restored_key p) (restored_request p) s"
  have t: "tidy (cs_pending ?t)" "held ?t + length ps \<le> MAX_PENDING_OTLP_REQUESTS"
    "cs_next_sequence ?t = cs_next_sequence s" "\<And>m. ?t\<lparr>cs_pending := m\<rparr> = s\<lparr>cs_pending := m\<rparr>"
    using Cons.prems room by simp_all
  have queues: "(\<lambda>k. queue_of (cs_pending ?t) k @ map restored_request (filter (\<lambda>p. restored_key p = k) ps)) =
      (\<lambda>k. queue_of (cs_pending s) k @ map restored_request (filter (\<lambda>p. restored_key p = k) (p # ps)))"
    using Cons.prems room by (auto simp: fun_eq_iff)
  show ?case
    using Cons.IH [OF t(1,2), unfolded t(3) t(4) queues]
    by (cases "entry_ok (cs_next_sequence s) (restored_key p, restored_request p)")
      (simp_all only: restore_pending_eq [of s p] list.pred_inject try_fold.simps bind_result_Inl bind_result_Inr if_True if_False simp_thms)
qed

lemma filter_keys:
  "bt_sorted m \<Longrightarrow>
     map restored_request (filter (\<lambda>p. restored_key p = k) (concat (map (\<lambda>(key, queue). map (persist_pending key) queue) m))) =
     map (\<lambda>p. p\<lparr>pr_current_record_index := None\<rparr>) (queue_of m k)"
proof (induction m)
  case (Cons e m)
  obtain key queue where e: "e = (key, queue)" by (cases e)
  have none: "map_of m key = None" using Cons.prems by (auto simp: e bt_sorted_def map_of_eq_None_iff)
  have "filter (\<lambda>p. restored_key p = k) (map (persist_pending key) queue) =
      (if key = k then map (persist_pending key) queue else [])"
    by (induction queue) simp_all
  then show ?case using Cons none by (auto simp: e queue_of_def bt_get_def bt_sorted_def)
qed (simp add: queue_of_def bt_get_def)

lemma queue_of_finish:
  "tidy (cs_pending s) \<Longrightarrow> queue_of (cs_pending (finish_batch s)) k =
     map (\<lambda>p. p\<lparr>pr_current_record_index := None\<rparr>) (queue_of (cs_pending s) k)"
  using bt_get_filter_map [of "cs_pending s" "\<lambda>_ queue. queue \<noteq> []"
      "\<lambda>_ queue. map (\<lambda>p. p\<lparr>pr_current_record_index := None\<rparr>) queue" k] tidy_get [of "cs_pending s" k]
  by (simp add: queue_of_def finish_batch_def tidy_def split: option.splits)

lemma finish_tidy: "tidy (cs_pending s) \<Longrightarrow> tidy (cs_pending (finish_batch s))"
  by (auto simp: finish_batch_def tidy_def list_all_iff intro!: bt_sorted_filter_map)

lemma length_persisted:
  "length (ps_pending (persisted s)) = pending_len s" "length (ps_recently_completed (persisted s)) = length (cs_recently_completed s)"
  by (simp_all add: persisted_def pending_len_def bt_values_def length_concat comp_def case_prod_unfold)

lemma persisted_entries_ok:
  "list_all (\<lambda>p. entry_ok n (restored_key p, restored_request p)) (ps_pending (persisted s)) \<longleftrightarrow>
     (\<forall>e \<in> pending_entries s. entry_ok n e)"
proof -
  have "entry_ok n (key, p\<lparr>pr_current_record_index := None\<rparr>) = entry_ok n (key, p)" for key p
    by (simp add: entry_ok_def)
  then show ?thesis by (fastforce simp: persisted_def pending_entries_def list_all_iff)
qed

lemma restore_persisted:
  assumes ok: "state_ok s" and decode: "decode text = Some (persisted s)"
    and len: "length text \<le> MAX_PERSISTED_OTLP_CORRELATION_BYTES"
  shows "from_persisted_json decode text now =
    (if snapshot_ok s then Inr (expire now (finish_batch s)) else Inl InvalidSchema)"
proof -
  let ?s0 = "\<lparr>cs_pending = [], cs_recently_completed = [], cs_next_sequence = cs_next_sequence s\<rparr>"
  have bounds: "pending_len s + length (cs_recently_completed s) \<le> MAX_PENDING_OTLP_REQUESTS"
    using ok by (simp add: state_ok_def held_def)
  have start: "tidy (cs_pending ?s0)" "held ?s0 + length (ps_pending (persisted s)) \<le> MAX_PENDING_OTLP_REQUESTS"
    using bounds by (simp_all add: length_persisted) (simp add: held_def pending_len_def bt_values_def)
  have fold: "if \<forall>e \<in> pending_entries s. entry_ok (cs_next_sequence s) e
    then \<exists>m. try_fold restore_pending ?s0 (ps_pending (persisted s)) = Inr (?s0\<lparr>cs_pending := m\<rparr>) \<and> tidy m \<and>
      queue_of m = (\<lambda>k. map restored_request (filter (\<lambda>p. restored_key p = k) (ps_pending (persisted s))))
    else try_fold restore_pending ?s0 (ps_pending (persisted s)) = Inl InvalidSchema"
    using restore_pending_fold [OF start(1) start(2)] by (simp add: persisted_entries_ok cong: if_cong)
  have same: "m = cs_pending (finish_batch s)" if "tidy m"
    "queue_of m = (\<lambda>k. map restored_request (filter (\<lambda>p. restored_key p = k) (ps_pending (persisted s))))" for m
    using that ok by (intro tidy_eqI finish_tidy)
      (simp_all add: state_ok_def queue_of_finish fun_eq_iff persisted_def filter_keys tidy_def)
  have completed: "list_all (completed_ok n \<circ> restored_completed) (map persist_completed cs) = list_all (completed_ok n) cs"
    "map restored_completed (map persist_completed cs) = cs" for n cs
    by (simp_all add: list_all_iff comp_def)
  have header: "ps_schema_version (persisted s) = REQUEST_CORRELATION_SCHEMA" "ps_next_sequence (persisted s) = cs_next_sequence s"
    "ps_recently_completed (persisted s) = map persist_completed (cs_recently_completed s)"
    by (simp_all add: persisted_def)
  show ?thesis
  proof (cases "\<forall>e \<in> pending_entries s. entry_ok (cs_next_sequence s) e")
    case True
    then obtain m where m: "try_fold restore_pending ?s0 (ps_pending (persisted s)) = Inr (?s0\<lparr>cs_pending := m\<rparr>)"
      "m = cs_pending (finish_batch s)" using fold same by auto
    have finish: "finish_batch s = \<lparr>cs_pending = cs_pending (finish_batch s),
        cs_recently_completed = cs_recently_completed s, cs_next_sequence = cs_next_sequence s\<rparr>"
      by (simp add: finish_batch_def)
    show ?thesis using len bounds decode True
      by (subst finish) (simp add: from_persisted_json_def length_persisted m restore_completed_fold completed header
        snapshot_ok_def MAX_RECENTLY_COMPLETED_OTLP_REQUESTS_def MAX_PENDING_OTLP_REQUESTS_def
        del: map_map)
  next
    case False
    then have "try_fold restore_pending ?s0 (ps_pending (persisted s)) = Inl InvalidSchema" using fold by presburger
    then show ?thesis using len bounds decode False
      by (simp add: from_persisted_json_def length_persisted header snapshot_ok_def
        MAX_RECENTLY_COMPLETED_OTLP_REQUESTS_def MAX_PENDING_OTLP_REQUESTS_def)
  qed
qed

text \<open>An identifier is stored as a digest unless it starts like one and is not one.\<close>

definition whole_identifier :: "string \<Rightarrow> bool" where
  "whole_identifier v \<longleftrightarrow> (starts_with v ID_PREFIX \<longrightarrow> is_private_hash v)"

lemma hex_ascii: "list_all is_ascii_hexdigit (hex bs)"
proof (induction bs)
  case (Cons b bs)
  have digit: "is_ascii_hexdigit (hex_digit n)" if "n < 16" for n
    using that by (auto simp: hex_digit_def is_ascii_hexdigit_def byte_of_def)
  have "unat b < 256" using unsigned_less [of b, where ?'a = nat] by simp
  then have "list_all is_ascii_hexdigit (hex_byte b)"
    using digit by (simp add: hex_byte_def less_mult_imp_div_less)
  then show ?case using Cons by (simp add: hex_def)
qed (simp add: hex_def)

lemma hex_private: "length bs = 32 \<Longrightarrow> is_private_hash (''id:sha256:'' @ hex bs)"
  by (simp add: is_private_hash_def length_hex hex_ascii)

lemma hash_private:
  "length (sha v) = 32 \<Longrightarrow> is_private_hash (hash_opaque_identifier sha v) \<longleftrightarrow> whole_identifier v"
  using hex_private [of "sha v"] by (simp add: hash_opaque_identifier_def whole_identifier_def ID_PREFIX_def)

lemma stable_private: "(\<And>v. length (sha v) = 32) \<Longrightarrow> is_private_hash (stable_id sha ''id:sha256'' cs)"
  using hex_private [of "sha (frame cs)"] by (simp add: stable_id_def)

definition whole_identifiers :: "attributes \<Rightarrow> bool" where
  "whole_identifiers a \<longleftrightarrow> list_all (\<lambda>k. \<forall>v. bt_get a k = Some (VString v) \<longrightarrow> whole_identifier v)
     [''conversation_id'', ''model'', ''request_id'']"

lemma whole_string:
  "whole_identifiers a \<Longrightarrow> optional_string a k = Inr (Some v) \<Longrightarrow> k \<in> {''conversation_id'', ''model'', ''request_id''} \<Longrightarrow>
     whole_identifier v"
  by (auto simp: whole_identifiers_def optional_string_def split: option.splits attribute_value.splits if_splits)

lemma ok_later: "entry_ok n e \<Longrightarrow> n \<le> m \<Longrightarrow> entry_ok m e" "completed_ok n c \<Longrightarrow> n \<le> m \<Longrightarrow> completed_ok m c"
  by (auto simp: entry_ok_def completed_ok_def split: prod.splits)

lemma snapshot_smaller:
  "snapshot_ok s \<Longrightarrow> pending_entries t \<subseteq> pending_entries s \<Longrightarrow>
     set (cs_recently_completed t) \<subseteq> set (cs_recently_completed s) \<Longrightarrow> cs_next_sequence t = cs_next_sequence s \<Longrightarrow> snapshot_ok t"
  unfolding snapshot_ok_def list_all_iff by (simp only:) blast

lemma snapshot_expire: "snapshot_ok s \<Longrightarrow> snapshot_ok (expire now s)"
  by (rule snapshot_smaller [OF _ expire_entries]) (auto simp: expire_def)

lemma snapshot_finish: "snapshot_ok s \<Longrightarrow> snapshot_ok (finish_batch s)"
proof -
  have "entry_ok n (key, p\<lparr>pr_current_record_index := None\<rparr>) = entry_ok n (key, p)" for n key p
    by (simp add: entry_ok_def)
  moreover have "cs_next_sequence (finish_batch s) = cs_next_sequence s"
    "cs_recently_completed (finish_batch s) = cs_recently_completed s" by (simp_all add: finish_batch_def)
  ultimately show "snapshot_ok s \<Longrightarrow> snapshot_ok (finish_batch s)"
    by (auto simp: snapshot_ok_def finish_entries)
qed

lemma snapshot_next:
  assumes "snapshot_ok s" and "unat (cs_next_sequence s) + 1 < 2 ^ 64"
  shows "snapshot_ok (snd (next_sequence s)) \<and> fst (next_sequence s) < cs_next_sequence (snd (next_sequence s)) \<and>
    unat (cs_next_sequence (snd (next_sequence s))) = unat (cs_next_sequence s) + 1"
proof -
  have plus: "unat (cs_next_sequence s + 1) = unat (cs_next_sequence s) + 1"
    using assms(2) by (simp add: unat_word_ariths)
  then have eq: "next_sequence s = (cs_next_sequence s, s\<lparr>cs_next_sequence := cs_next_sequence s + 1\<rparr>)"
    using assms(2) by (simp add: next_sequence_def checked_add_def)
  have less: "cs_next_sequence s < cs_next_sequence s + 1" using plus by (simp add: word_less_nat_alt)
  have "snapshot_ok (s\<lparr>cs_next_sequence := cs_next_sequence s + 1\<rparr>)"
    using assms(1) less ok_later [where n = "cs_next_sequence s" and m = "cs_next_sequence s + 1"]
    unfolding snapshot_ok_def list_all_iff pending_entries_def by auto
  then show ?thesis using plus less by (simp add: eq)
qed

lemma snapshot_push:
  assumes "snapshot_ok s" and "entry_ok (cs_next_sequence s) (key, p)"
  shows "snapshot_ok (push_pending key p s) \<and> cs_next_sequence (push_pending key p s) = cs_next_sequence s"
proof -
  have "set (cs_recently_completed (push_pending key p s)) \<subseteq> set (cs_recently_completed s)"
    "cs_next_sequence (push_pending key p s) = cs_next_sequence s"
    using enforce_entries [of "s\<lparr>cs_pending := bt_insert key (queue_of (cs_pending s) key @ [p]) (cs_pending s)\<rparr>"]
    by (simp_all add: push_pending_def)
  then show ?thesis
    using assms push_pending_entries [of key p s] unfolding snapshot_ok_def list_all_iff by (simp only:) blast
qed

lemma snapshot_completed:
  assumes "snapshot_ok s" and "completed_ok (cs_next_sequence s) c"
  shows "snapshot_ok (push_completed c s) \<and> cs_next_sequence (push_completed c s) = cs_next_sequence s"
proof -
  let ?t = "s\<lparr>cs_recently_completed := cs_recently_completed s @ [c]\<rparr>"
  have "snapshot_ok ?t" using assms by (simp add: snapshot_ok_def pending_entries_def)
  then show ?thesis
    using enforce_entries [of ?t] snapshot_smaller [of ?t "enforce_capacity ?t"] by (simp add: push_completed_def)
qed

text \<open>What is needed of the state before a record that may use one sequence number.\<close>

definition sealed :: "nat \<Rightarrow> correlation_state \<Rightarrow> bool" where
  "sealed n s \<longleftrightarrow> snapshot_ok s \<and> unat (cs_next_sequence s) + n < 2 ^ 64"

lemma sealed_less: "sealed (Suc n) s \<Longrightarrow> sealed n s"
  by (simp add: sealed_def)

lemma sealed_push:
  assumes "sealed (Suc n) s" and "list_all is_private_hash ([fst key, fst (snd key), snd (snd key), c] @ present [i])"
  shows "sealed n (push_pending key \<lparr>pr_correlation_id = c, pr_official_retry_identity = i,
    pr_inserted_at_unix_ms = now, pr_sequence = fst (next_sequence s), pr_current_record_index = j\<rparr> (snd (next_sequence s)))"
proof -
  let ?p = "\<lparr>pr_correlation_id = c, pr_official_retry_identity = i, pr_inserted_at_unix_ms = now,
    pr_sequence = fst (next_sequence s), pr_current_record_index = j\<rparr>"
  have fresh: "snapshot_ok (snd (next_sequence s))" "fst (next_sequence s) < cs_next_sequence (snd (next_sequence s))"
    "unat (cs_next_sequence (snd (next_sequence s))) = unat (cs_next_sequence s) + 1"
    using snapshot_next [of s] assms(1) by (simp_all add: sealed_def)
  then have "entry_ok (cs_next_sequence (snd (next_sequence s))) (key, ?p)"
    using assms(2) by (auto simp: entry_ok_def split: prod.split)
  from snapshot_push [OF fresh(1) this] show ?thesis using assms(1) fresh(3) by (simp add: sealed_def)
qed

lemma sealed_remember:
  assumes "sealed (Suc n) s" and "list_all is_private_hash ([fst key, fst (snd key), snd (snd key)] @ present [i])"
  shows "sealed n (remember_completed_official_retry key i now s)"
proof (cases i)
  case (Some v)
  let ?c = "\<lparr>cr_key = key, cr_official_retry_identity = v, cr_completed_at_unix_ms = now, cr_sequence = fst (next_sequence s)\<rparr>"
  have fresh: "snapshot_ok (snd (next_sequence s))" "fst (next_sequence s) < cs_next_sequence (snd (next_sequence s))"
    "unat (cs_next_sequence (snd (next_sequence s))) = unat (cs_next_sequence s) + 1"
    using snapshot_next [of s] assms(1) by (simp_all add: sealed_def)
  then have "completed_ok (cs_next_sequence (snd (next_sequence s))) ?c"
    using assms(2) Some by (auto simp: completed_ok_def present_def split: prod.split)
  from snapshot_completed [OF fresh(1) this] show ?thesis using assms(1) fresh(3) Some
    by (cases "next_sequence s") (simp add: sealed_def remember_completed_official_retry_def)
qed (use assms sealed_less in \<open>simp add: remember_completed_official_retry_def\<close>)

lemma queue_entry_ok:
  assumes "sealed n s" and "queue_of (cs_pending s) key = p # ps"
  shows "list_all is_private_hash ([fst key, fst (snd key), snd (snd key)] @ present [pr_official_retry_identity p])"
proof -
  have "entry_ok (cs_next_sequence s) (key, p)"
    using assms(1) queue_front_entry [OF assms(2)] by (simp add: sealed_def snapshot_ok_def)
  then show ?thesis by (simp add: entry_ok_def split: prod.splits)
qed

lemma sealed_pop: "sealed n s \<Longrightarrow> sealed n (s\<lparr>cs_pending := pop_front key (cs_pending s)\<rparr>)"
  using snapshot_smaller [OF _ pop_front_entries [where s = s and key = key]] by (auto simp: sealed_def)

lemma pair_key_iff:
  "otlp_request_pair_key a = Inr (Some pair) \<longleftrightarrow>
     optional_string a ''conversation_id'' = Inr (Some (fst pair)) \<and> optional_string a ''model'' = Inr (Some (snd pair))"
proof (cases "optional_string a ''conversation_id''")
  case (Inr c)
  then show ?thesis
    by (cases "optional_string a ''model''"; cases pair)
      (auto simp: otlp_request_pair_key_def split: option.splits)
qed (simp add: otlp_request_pair_key_def)

lemma correlate_record_sealed:
  assumes s: "sealed (Suc n) (snd rs)" and r: "correlate_record sha g now rs j = Inr rs'"
    and sha: "\<And>v. length (sha v) = 32" and g: "whole_identifier g"
    and whole: "whole_identifiers (hr_attributes (fst rs ! j))"
  shows "sealed n (snd rs')"
proof -
  obtain records s0 where rs: "rs = (records, s0)" by (cases rs)
  have s: "sealed (Suc n) s0" and whole: "whole_identifiers (hr_attributes (records ! j))" using s whole by (simp_all add: rs)
  show ?thesis
  proof (cases "rs' = rs")
    case False
    then obtain pair where pair: "otlp_request_pair_key (hr_attributes (records ! j)) = Inr (Some pair)"
      and step: "correlate_request sha g now pair (pair_key_of sha g pair) j rs = Inr rs' \<or>
        correlate_completion sha now (pair_key_of sha g pair) j rs = Inr rs'"
      using r by (auto simp: correlate_record_def rs Let_def bind_result_eq_Inr split: if_splits option.splits)
    have "whole_identifier (fst pair)" "whole_identifier (snd pair)"
      using pair whole_string [OF whole] by (auto simp: pair_key_iff)
    then have key: "list_all is_private_hash [fst (pair_key_of sha g pair), fst (snd (pair_key_of sha g pair)),
        snd (snd (pair_key_of sha g pair))]"
      using hash_private sha g by (simp add: pair_key_of_def)
    from step show ?thesis
    proof
      assume req: "correlate_request sha g now pair (pair_key_of sha g pair) j rs = Inr rs'"
      obtain q where q: "optional_string (hr_attributes (records ! j)) ''request_id'' = Inr q"
        using req by (auto simp: correlate_request_def rs bind_result_eq_Inr split: prod.splits)
      define i where "i = map_option (hash_opaque_identifier sha) q"
      define c where "c = (case i of Some i \<Rightarrow> i | None \<Rightarrow> stable_id sha ''id:sha256'' [''codex-local-request-v1'', g,
          fst pair, snd pair, hr_cursor (records ! j)])"
      have i: "list_all is_private_hash (present [i])"
        using whole_string [OF whole, of "''request_id''"] q hash_private [of sha] sha
        by (cases q) (simp_all add: i_def present_def)
      then have "is_private_hash c" using stable_private [of sha] sha
        by (cases i) (simp_all add: c_def present_def)
      then have "list_all is_private_hash ([fst (pair_key_of sha g pair), fst (snd (pair_key_of sha g pair)),
          snd (snd (pair_key_of sha g pair)), c] @ present [i])"
        using i key by simp
      note push = sealed_push [OF s this, of now "Some j"]
      show ?thesis
      proof (cases "snd rs' = s0")
        case False
        then have "snd rs' = push_pending (pair_key_of sha g pair) \<lparr>pr_correlation_id = c,
            pr_official_retry_identity = i, pr_inserted_at_unix_ms = now, pr_sequence = fst (next_sequence s0),
            pr_current_record_index = Some j\<rparr> (snd (next_sequence s0))"
          using req unfolding correlate_request_def rs c_def i_def Let_def
          by (cases pair; cases "next_sequence s0"; cases q) (auto simp: q bind_result_eq_Inr split: if_splits)
        then show ?thesis using push by simp
      qed (simp add: sealed_less [OF s])
    next
      assume comp: "correlate_completion sha now (pair_key_of sha g pair) j rs = Inr rs'"
      show ?thesis
      proof (cases "queue_of (cs_pending s0) (pair_key_of sha g pair)")
        case Nil
        then show ?thesis using comp sealed_pop [OF sealed_less [OF s], of "pair_key_of sha g pair"]
          by (auto simp: correlate_completion_def rs Let_def)
      next
        case (Cons p ps)
        show ?thesis
          using comp sealed_remember [OF sealed_pop [OF s, of "pair_key_of sha g pair"] queue_entry_ok [OF s Cons], of now]
          by (auto simp: correlate_completion_def rs Let_def Cons bind_result_eq_Inr)
      qed
    qed
  qed (use s sealed_less rs in simp)
qed

lemma correlate_sealed:
  assumes r: "correlate_otlp_request_pairs sha g now (records, s) = Inr (records', s')"
    and ok: "batch_ok s" and snapshot: "snapshot_ok s" and room: "unat (cs_next_sequence s) + length records < 2 ^ 64"
    and records: "\<forall>r \<in> set records. readable (hr_attributes r) \<and> whole_identifiers (hr_attributes r)"
    and sha: "\<And>v. length (sha v) = 32" and g: "whole_identifier g"
  shows "snapshot_ok s'"
proof -
  have start: "correlating records 0 (records, expire now s)"
    using ok records expire_ok expire_entries [of now s]
    by (auto simp: correlating_def batch_ok_def readable_def list_all2_conv_all_nth same_refl intro: positions_mono)
  have steps: "snapshot_ok (snd rs')"
    if "try_fold (correlate_record sha g now) rs [j..<j + n] = Inr rs'" "correlating records j rs"
      "j + n \<le> length records" "sealed n (snd rs)" for j n rs rs'
    using that
  proof (induction n arbitrary: j rs)
    case (Suc n)
    have "[j..<j + Suc n] = j # [Suc j..<Suc j + n]" by (simp add: upt_rec)
    then obtain rs1 where rs1: "correlate_record sha g now rs j = Inr rs1"
      "try_fold (correlate_record sha g now) rs1 [Suc j..<Suc j + n] = Inr rs'"
      using Suc.prems(1) by (auto simp: bind_result_eq_Inr)
    have j: "j < length records" using Suc.prems(3) by simp
    then have same: "fst rs ! j = records ! j" using Suc.prems(2) by (simp add: correlating_def)
    have "correlating records (Suc j) rs1"
      using correlate_record_step [OF Suc.prems(2) j, of sha g now] rs1(1) records j by auto
    moreover have "sealed n (snd rs1)"
      using correlate_record_sealed [OF Suc.prems(4) rs1(1) sha g] records j by (simp add: same)
    ultimately show ?case using Suc.IH [OF rs1(2)] Suc.prems(3) by simp
  qed (simp add: sealed_def)
  obtain t where t: "try_fold (correlate_record sha g now) (records, expire now s) [0..<length records] = Inr t"
    "s' = finish_batch (snd t)"
    using r by (auto simp: correlate_otlp_request_pairs_def bind_result_eq_Inr)
  have "sealed (length records) (expire now s)"
    using snapshot snapshot_expire room by (simp add: sealed_def expire_def)
  then show ?thesis using steps [of "(records, expire now s)" 0 "length records" t] t start snapshot_finish by simp
qed

lemma finish_idle:
  assumes "batch_ok s"
  shows "finish_batch s = s"
proof -
  have none: "p\<lparr>pr_current_record_index := None\<rparr> = p" if "(key, p) \<in> pending_entries s" for key p
    using assms that by (cases "pr_current_record_index p") (fastforce simp: batch_ok_def positions_below_def)+
  have "(key, map (\<lambda>p. p\<lparr>pr_current_record_index := None\<rparr>) queue) = (key, queue)"
    if "(key, queue) \<in> set (cs_pending s)" for key queue
    using that by (auto intro!: map_idI none [of key] simp: pending_entries_def)
  then have "map (\<lambda>(key, queue). (key, map (\<lambda>p. p\<lparr>pr_current_record_index := None\<rparr>) queue)) (cs_pending s) = cs_pending s"
    by (intro map_idI) auto
  moreover have "filter (\<lambda>(_, queue). queue \<noteq> []) (cs_pending s) = cs_pending s"
    using assms by (simp add: batch_ok_def state_ok_def tidy_def list_all_iff filter_id_conv)
  ultimately show ?thesis by (simp add: finish_batch_def)
qed

lemma start_ok: "batch_ok correlation_state_default" "snapshot_ok correlation_state_default"
  by (simp_all add: correlation_state_default_def batch_ok_def state_ok_def snapshot_ok_def positions_below_def
    pending_entries_def held_def pending_len_def bt_values_def)

subsection \<open>The size of a snapshot\<close>

text \<open>At least this much compact JSON is printed for a queued request: its fields with quotes and
  colons, one digit for each number, the commas and the braces.\<close>

definition text_field_size :: "string \<Rightarrow> string \<Rightarrow> nat" where
  "text_field_size name v = length name + length v + 5"

definition pending_json_size :: "persisted_pending \<Rightarrow> nat" where
  "pending_json_size p = 2 + 5 + text_field_size ''source_generation_hash'' (pp_source_generation_hash p) +
     text_field_size ''conversation_hash'' (pp_conversation_hash p) + text_field_size ''model_hash'' (pp_model_hash p) +
     text_field_size ''correlation_id'' (pp_correlation_id p) +
     (length ''inserted_at_unix_ms'' + 4) + (length ''sequence'' + 4) +
     (case pp_official_retry_identity p of
        None \<Rightarrow> 0 | Some i \<Rightarrow> 1 + text_field_size ''official_retry_identity'' i)"

lemma entry_size:
  assumes "entry_ok n (key, p)" and "pr_official_retry_identity p \<noteq> None"
  shows "pending_json_size (persist_pending key p) = 524"
  using assms by (cases key) (auto simp: entry_ok_def present_def persist_pending_def pending_json_size_def
    text_field_size_def is_private_hash_def)

lemma persisted_size:
  assumes "snapshot_ok s" and "\<forall>(key, p) \<in> pending_entries s. pr_official_retry_identity p \<noteq> None"
  shows "sum_list (map pending_json_size (ps_pending (persisted s))) = 524 * pending_len s"
proof -
  have "pending_json_size x = 524" if x_in: "x \<in> set (ps_pending (persisted s))" for x
  proof -
    obtain e where e: "e \<in> set (cs_pending s)" "x \<in> set (map (persist_pending (fst e)) (snd e))"
      using x_in unfolding persisted_def case_prod_unfold persisted_state.simps set_concat by force
    then obtain p where p: "p \<in> set (snd e)" "x = persist_pending (fst e) p" by auto
    have "(fst e, snd e) \<in> set (cs_pending s)" using e(1) by simp
    then have entry: "(fst e, p) \<in> pending_entries s" using p(1) unfolding pending_entries_def by blast
    have "entry_ok (cs_next_sequence s) (fst e, p)" using entry assms(1) unfolding snapshot_ok_def by blast
    moreover have "pr_official_retry_identity p \<noteq> None" using entry assms(2) by blast
    ultimately show ?thesis unfolding p(2) by (rule entry_size)
  qed
  then have sizes: "map pending_json_size (ps_pending (persisted s)) = map (\<lambda>_. 524) (ps_pending (persisted s))"
    by simp
  show ?thesis unfolding sizes by (simp add: length_persisted sum_list_triv)
qed

lemma snapshot_too_large_aux:
  assumes "snapshot_ok s" and "\<forall>(key, p) \<in> pending_entries s. pr_official_retry_identity p \<noteq> None"
    and "1000 < pending_len s" and "print (persisted s) = Some encoded"
    and "sum_list (map pending_json_size (ps_pending (persisted s))) \<le> length encoded"
  shows "to_persisted_json print s = Inl HandoffTooLarge"
  using persisted_size [OF assms(1,2)] assms(3-5)
  by (simp add: to_persisted_json_def MAX_PERSISTED_OTLP_CORRELATION_BYTES_def)

subsection \<open>The oldest entry goes first\<close>

definition sequences :: "correlation_state \<Rightarrow> u64 multiset" where
  "sequences s = \<Sum>\<^sub># (mset (map (\<lambda>(_, queue). mset (map pr_sequence queue)) (cs_pending s))) +
     mset (map cr_sequence (cs_recently_completed s))"

text \<open>Each queue is in the order of the sequence numbers, as pushing with fresh numbers leaves it.\<close>

definition aged :: "correlation_state \<Rightarrow> bool" where
  "aged s \<longleftrightarrow> tidy (cs_pending s) \<and> list_all (\<lambda>(_, queue). sorted (map pr_sequence queue)) (cs_pending s)"

lemma size_sequences: "size (sequences s) = held s"
proof -
  have "size (\<Sum>\<^sub># (mset (map (\<lambda>(_, queue). mset (map pr_sequence queue)) m))) = sum_list (map length (bt_values m))" for m
    by (induction m) (auto simp: bt_values_def)
  then show ?thesis by (simp add: sequences_def held_def pending_len_def)
qed

lemma min_opt_least: "min_opt xs = Some x \<Longrightarrow> y \<in> set xs \<Longrightarrow> x \<le> y"
  by (induction xs arbitrary: x) (force split: option.splits if_splits)+

lemma pop_front_sequences:
  assumes "bt_sorted m" and "(key, p # queue) \<in> set m"
  shows "\<Sum>\<^sub># (mset (map (\<lambda>(_, q). mset (map pr_sequence q)) m)) =
    add_mset (pr_sequence p) (\<Sum>\<^sub># (mset (map (\<lambda>(_, q). mset (map pr_sequence q)) (pop_front key m))))"
  using assms
proof (induction m)
  case (Cons e m)
  obtain k q where e: "e = (k, q)" by (cases e)
  have sorted: "bt_sorted m" using Cons.prems by (simp add: e bt_sorted_def)
  show ?case
  proof (cases "k = key")
    case True
    have none: "key \<notin> fst ` set m" using Cons.prems True by (fastforce simp: e bt_sorted_def)
    then have q: "q = p # queue" using Cons.prems True by (force simp: e)
    have "map (\<lambda>(k, queue). (k, if k = key then tl queue else queue)) m = m"
      using none by (intro map_idI) force
    moreover have "filter (\<lambda>(k, queue). k \<noteq> key \<or> queue \<noteq> []) m = m"
      using none by (force simp: filter_id_conv)
    ultimately show ?thesis by (simp add: pop_front_def e True q)
  next
    case False
    then show ?thesis using Cons.IH [OF sorted] Cons.prems by (simp add: pop_front_def e)
  qed
qed simp

lemma remove_nth_mset: "i < length xs \<Longrightarrow> mset xs = add_mset (xs ! i) (mset (take i xs @ drop (i + 1) xs))"
  by (metis append_take_drop_id id_take_nth_drop mset.simps(2) mset_append Suc_eq_plus1 union_mset_add_mset_right)

lemma entry_queue:
  assumes "(k, p) \<in> pending_entries s"
  shows "\<exists>a as. (k, a # as) \<in> set (cs_pending s) \<and> p \<in> set (a # as)"
proof -
  obtain queue where "(k, queue) \<in> set (cs_pending s)" "p \<in> set queue"
    using assms by (auto simp: pending_entries_def)
  then show ?thesis by (cases queue) auto
qed

lemma evict_sequences:
  assumes aged: "aged s" and held: "0 < held s"
  shows "\<exists>q. sequences s = add_mset q (sequences (evict_oldest s)) \<and> (\<forall>x \<in># sequences s. q \<le> x)"
proof -
  have completed: "sequences s = add_mset q (sequences
      (s\<lparr>cs_recently_completed := take i (cs_recently_completed s) @ drop (i + 1) (cs_recently_completed s)\<rparr>)) \<and>
      (\<forall>c \<in> set (cs_recently_completed s). q \<le> cr_sequence c)"
    if "oldest_completed s = Some (q, i)" for q i
  proof -
    note oldest = that [unfolded oldest_completed_def]
    have i: "i < length (cs_recently_completed s)" "q = cr_sequence (cs_recently_completed s ! i)"
      using min_opt_in [OF oldest] by (auto simp: in_set_enumerate_eq)
    have "q \<le> cr_sequence c" if "c \<in> set (cs_recently_completed s)" for c
    proof -
      obtain j where "j < length (cs_recently_completed s)" "c = cs_recently_completed s ! j"
        using \<open>c \<in> set _\<close> by (auto simp: in_set_conv_nth)
      then have "(cr_sequence c, j) \<in> set (map (\<lambda>(index, completed). (cr_sequence completed, index))
          (List.enumerate 0 (cs_recently_completed s)))" by (force simp: in_set_enumerate_eq)
      from min_opt_least [OF oldest this] show ?thesis by (auto simp: less_eq_prod_def)
    qed
    moreover have "sequences s = add_mset q (sequences
        (s\<lparr>cs_recently_completed := take i (cs_recently_completed s) @ drop (i + 1) (cs_recently_completed s)\<rparr>))"
      using i remove_nth_mset [of i "map cr_sequence (cs_recently_completed s)"]
      by (simp add: sequences_def take_map drop_map)
    ultimately show ?thesis by blast
  qed
  have pending: "sequences s = add_mset q (sequences (s\<lparr>cs_pending := pop_front key (cs_pending s)\<rparr>)) \<and>
      (\<forall>(k, p) \<in> pending_entries s. q \<le> pr_sequence p)"
    if "oldest_pending s = Some (q, key)" for q key
  proof -
    note oldest = that [unfolded oldest_pending_def]
    obtain p queue where p: "(key, p # queue) \<in> set (cs_pending s)" "q = pr_sequence p"
      using min_opt_in [OF oldest] by (auto simp: present_def split: list.splits)
    have "q \<le> pr_sequence p'" if "(k, p') \<in> pending_entries s" for k p'
    proof -
      obtain a as where a: "(k, a # as) \<in> set (cs_pending s)" "p' \<in> set (a # as)"
        using entry_queue [OF \<open>(k, p') \<in> pending_entries s\<close>] by blast
      have "(pr_sequence a, k) \<in> set (present (map (\<lambda>(key, queue). case queue of
          [] \<Rightarrow> None | pending # _ \<Rightarrow> Some (pr_sequence pending, key)) (cs_pending s)))"
        unfolding set_present set_map mem_Collect_eq by (rule image_eqI [OF _ a(1)]) simp
      from min_opt_least [OF oldest this] have "q \<le> pr_sequence a" by (auto simp: less_eq_prod_def)
      moreover have "sorted (map pr_sequence (a # as))" using aged a(1) by (fastforce simp: aged_def list_all_iff)
      then have "pr_sequence a \<le> pr_sequence p'" using a(2) by auto
      ultimately show ?thesis by simp
    qed
    then show ?thesis using pop_front_sequences [OF _ p(1)] aged p(2)
      by (auto simp: sequences_def aged_def tidy_def)
  qed
  have elem: "x \<in># sequences s \<longleftrightarrow> (\<exists>(k, p) \<in> pending_entries s. x = pr_sequence p) \<or>
      (\<exists>c \<in> set (cs_recently_completed s). x = cr_sequence c)" for x
    by (force simp: sequences_def pending_entries_def)
  have bound: "(\<forall>x \<in># sequences s. m \<le> x) \<longleftrightarrow> (\<forall>(k, p) \<in> pending_entries s. m \<le> pr_sequence p) \<and>
      (\<forall>c \<in> set (cs_recently_completed s). m \<le> cr_sequence c)" for m
    unfolding Ball_def elem by fast
  have no_completed: "cs_recently_completed s = []" if "oldest_completed s = None"
    using arg_cong [OF that [unfolded oldest_completed_def min_opt_None], of length] by simp
  have no_pending: "pending_entries s = {}" if "oldest_pending s = None"
  proof -
    have "queue = []" if "(key, queue) \<in> set (cs_pending s)" for key queue
      using \<open>oldest_pending s = None\<close> [unfolded oldest_pending_def min_opt_None] that
      by (cases queue) (auto simp: present_def)
    then show ?thesis by (fastforce simp: pending_entries_def)
  qed
  have some: "oldest_pending s \<noteq> None" if "oldest_completed s = None"
  proof
    assume "oldest_pending s = None"
    then have "set_mset (sequences s) = {}" using elem no_completed [OF that] no_pending by auto
    then show False using held by (simp add: size_sequences [symmetric])
  qed
  show ?thesis
  proof (cases "oldest_completed s")
    case None
    then obtain q key where p: "oldest_pending s = Some (q, key)" using some by auto
    then show ?thesis using pending [OF p] no_completed [OF None]
      unfolding bound by (intro exI [of _ q]) (simp add: evict_oldest_def None)
  next
    case (Some qi)
    obtain q i where c: "oldest_completed s = Some (q, i)" using Some by (cases qi) auto
    show ?thesis
    proof (cases "oldest_pending s")
      case None
      then show ?thesis using completed [OF c] no_pending
        unfolding bound by (intro exI [of _ q]) (simp add: evict_oldest_def c None)
    next
      case (Some rk)
      obtain r key where p: "oldest_pending s = Some (r, key)" using Some by (cases rk) auto
      show ?thesis
        using completed [OF c] pending [OF p] unfolding bound evict_oldest_def c p
        by (intro exI [of _ "if q \<le> r then q else r"]) (cases "q \<le> r"; fastforce)
    qed
  qed
qed

lemma evict_aged: "aged s \<Longrightarrow> aged (evict_oldest s)"
proof -
  have pop: "aged (s\<lparr>cs_pending := pop_front key (cs_pending s)\<rparr>)" if "aged s" for key
    using that pop_front_tidy [of "cs_pending s" key]
    by (fastforce simp: aged_def pop_front_def list_all_iff map_tl sorted_tl split: if_splits)
  then show "aged s \<Longrightarrow> aged (evict_oldest s)"
    by (auto simp: evict_oldest_def aged_def split: option.splits prod.splits)
qed

lemma enforce_keeps_youngest_aux:
  assumes "aged s"
  shows "\<exists>dropped. sequences s = dropped + sequences (enforce_capacity s) \<and>
    size dropped = held s - MAX_PENDING_OTLP_REQUESTS \<and>
    (\<forall>d \<in># dropped. \<forall>k \<in># sequences (enforce_capacity s). d \<le> k)"
  using assms
proof (induction s rule: enforce_capacity.induct)
  case (1 s)
  show ?case
  proof (cases "held s > MAX_PENDING_OTLP_REQUESTS")
    case True
    then obtain q where q: "sequences s = add_mset q (sequences (evict_oldest s))" "\<forall>x \<in># sequences s. q \<le> x"
      using evict_sequences [OF "1.prems"] by auto
    obtain dropped where d: "sequences (evict_oldest s) = dropped + sequences (enforce_capacity (evict_oldest s))"
      "size dropped = held (evict_oldest s) - MAX_PENDING_OTLP_REQUESTS"
      "\<forall>d \<in># dropped. \<forall>k \<in># sequences (enforce_capacity (evict_oldest s)). d \<le> k"
      using "1.IH" [OF True evict_aged [OF "1.prems"]] by blast
    have "held s = Suc (held (evict_oldest s))" using arg_cong [OF q(1), of size] by (simp add: size_sequences)
    then show ?thesis using True q d
      by (subst (1 2) enforce_capacity.simps) (intro exI [of _ "add_mset q dropped"], auto)
  next
    case False
    then show ?thesis by (simp add: enforce_within)
  qed
qed

lemma queue_sequence:
  assumes "p \<in> set (queue_of (cs_pending s) key)"
  shows "pr_sequence p \<in># sequences s"
proof -
  obtain queue where "(key, queue) \<in> set (cs_pending s)" "p \<in> set queue"
    using assms by (cases "bt_get (cs_pending s) key") (auto simp: queue_of_def bt_get_def dest: map_of_SomeD)
  then show ?thesis by (force simp: sequences_def)
qed

lemma aged_queue: "aged s \<Longrightarrow> sorted (map pr_sequence (queue_of (cs_pending s) key))"
  by (auto simp: aged_def list_all_iff queue_of_def bt_get_def dest: map_of_SomeD split: option.split)

lemma push_aged:
  assumes "aged s" and "\<forall>x \<in># sequences s. x < pr_sequence p"
  shows "aged (s\<lparr>cs_pending := bt_insert key (queue_of (cs_pending s) key @ [p]) (cs_pending s)\<rparr>)"
proof -
  have "sorted (map pr_sequence (queue_of (cs_pending s) key @ [p]))"
    using assms aged_queue [OF assms(1), of key] queue_sequence [of _ s key]
    by (auto simp: sorted_append intro: less_imp_le)
  then show ?thesis
    using assms(1) set_bt_insert [of key "queue_of (cs_pending s) key @ [p]" "cs_pending s"]
    by (fastforce simp: aged_def tidy_insert list_all_iff)
qed

lemma sequences_insert:
  assumes "bt_sorted (cs_pending s)"
  shows "sequences (s\<lparr>cs_pending := bt_insert key (queue_of (cs_pending s) key @ [p]) (cs_pending s)\<rparr>) =
    add_mset (pr_sequence p) (sequences s)"
proof -
  have "\<Sum>\<^sub># (mset (map (\<lambda>(_, q). mset (map pr_sequence q)) (bt_insert key (queue_of m key @ [p]) m))) =
      add_mset (pr_sequence p) (\<Sum>\<^sub># (mset (map (\<lambda>(_, q). mset (map pr_sequence q)) m)))" if "bt_sorted m" for m
    using that
  proof (induction m)
    case (Cons e m)
    obtain k q where e: "e = (k, q)" by (cases e)
    have "key < k \<Longrightarrow> queue_of (e # m) key = []"
      using Cons.prems by (auto simp: e bt_sorted_def queue_of_def bt_get_def split: option.splits dest!: map_of_SomeD)
    then show ?case using Cons by (auto simp: e queue_of_def bt_get_def bt_sorted_def)
  qed (simp add: queue_of_def bt_get_def)
  then show ?thesis using assms by (simp add: sequences_def)
qed

lemma push_evicts_oldest_aux:
  assumes aged: "aged s" and ok: "held s \<le> MAX_PENDING_OTLP_REQUESTS"
    and fresh: "\<forall>x \<in># sequences s. x < pr_sequence p"
  shows "if held s < MAX_PENDING_OTLP_REQUESTS
    then sequences (push_pending key p s) = add_mset (pr_sequence p) (sequences s)
    else \<exists>oldest. add_mset oldest (sequences (push_pending key p s)) = add_mset (pr_sequence p) (sequences s) \<and>
      (\<forall>x \<in># sequences s. oldest \<le> x)"
proof -
  let ?t = "s\<lparr>cs_pending := bt_insert key (queue_of (cs_pending s) key @ [p]) (cs_pending s)\<rparr>"
  have seq: "sequences ?t = add_mset (pr_sequence p) (sequences s)"
    using aged by (intro sequences_insert) (simp add: aged_def tidy_def)
  have held: "held ?t = Suc (held s)" using arg_cong [OF seq, of size] by (simp add: size_sequences)
  show ?thesis
  proof (cases "held s < MAX_PENDING_OTLP_REQUESTS")
    case True
    then show ?thesis using seq held by (simp add: push_pending_def enforce_within)
  next
    case False
    obtain dropped where d: "sequences ?t = dropped + sequences (push_pending key p s)"
      "size dropped = held ?t - MAX_PENDING_OTLP_REQUESTS"
      "\<forall>d \<in># dropped. \<forall>k \<in># sequences (push_pending key p s). d \<le> k"
      using enforce_keeps_youngest_aux [OF push_aged [OF aged fresh, of key]] by (auto simp: push_pending_def)
    have "size dropped = 1" using d(2) held ok False by simp
    then obtain q where q: "dropped = {#q#}" using size_1_singleton_mset by blast
    have "q \<le> x" if "x \<in># sequences s" for x
    proof -
      have "x \<in># sequences ?t" using that seq by simp
      then show ?thesis using d(1,3) q by auto
    qed
    then show ?thesis using d(1) seq q False by auto
  qed
qed

lemma get_set_request_id:
  assumes "i < length rs" and "bt_sorted (hr_attributes (rs ! i))"
  shows "bt_get (hr_attributes (set_request_id i q rs ! i)) ''request_id'' = map_option VString q"
  using assms by (cases q) (simp_all add: set_request_id_def bt_get_insert bt_get_remove)

lemma remember_keeps_queues:
  assumes "state_ok s" and "held s < MAX_PENDING_OTLP_REQUESTS" and "unat (cs_next_sequence s) + 1 < 2 ^ 64"
  shows "cs_pending (remember_completed_official_retry key i now s) = cs_pending s"
proof (cases i)
  case (Some v)
  have plus: "unat (cs_next_sequence s + 1) = unat (cs_next_sequence s) + 1"
    using assms(3) by (simp add: unat_word_ariths)
  then have "next_sequence s = (cs_next_sequence s, s\<lparr>cs_next_sequence := cs_next_sequence s + 1\<rparr>)"
    using assms(3) by (simp add: next_sequence_def checked_add_def)
  then show ?thesis using assms(2) Some
    by (simp add: remember_completed_official_retry_def push_completed_def enforce_within held_def pending_len_def)
qed (simp add: remember_completed_official_retry_def)

subsection \<open>The promises\<close>

definition flat_digest :: digest where
  "flat_digest x = replicate 32 0"

definition sample_event :: "string \<Rightarrow> string \<Rightarrow> attributes \<Rightarrow> unit handoff_record" where
  "sample_event name cursor attributes = \<lparr>hr_schema_version = '''', hr_source_generation = ''g'',
     hr_previous_cursor = None, hr_cursor = cursor, hr_surface = (), hr_received_at_unix_ms = 0,
     hr_event_name = name, hr_attributes = attributes\<rparr>"

definition sample_request :: "unit handoff_record" where
  "sample_request = sample_event ''codex.api_request'' ''1''
     [(''conversation_id'', VString ''c''), (''model'', VString ''m'')]"

definition sample_completion :: "unit handoff_record" where
  "sample_completion = sample_event ''codex.sse_event'' ''2''
     [(''conversation_id'', VString ''c''), (''kind'', VString ''response.completed''), (''model'', VString ''m'')]"

lemma sample_readable:
  "\<forall>r \<in> set [sample_request, sample_completion]. readable (hr_attributes r) \<and> whole_identifiers (hr_attributes r)"
  by (auto simp: sample_request_def sample_completion_def sample_event_def readable_def whole_identifiers_def
    optional_string_def optional_bool_def bt_get_def bt_sorted_def whole_identifier_def ID_PREFIX_def)

text \<open>C26: correlating the requests of an export never fails when its attributes are readable, keeps the
  state within 1024 entries with no empty queue, and touches nothing of a record but its request
  identifier: no record is added, dropped or reordered.  In particular no position that the state
  remembers is outside the export.
\<close>

theorem correlation_total:
  assumes "batch_ok s" and "\<forall>r \<in> set records. readable (hr_attributes r)"
  shows "\<exists>records' s'. correlate_otlp_request_pairs sha g now (records, s) = Inr (records', s') \<and>
    batch_ok s' \<and> list_all2 same_but_request_id records records'"
  using assms by (rule correlation_total_aux)

theorem correlation_total_witness:
  "\<exists>records' s'. correlate_otlp_request_pairs flat_digest ''g'' 7
      ([sample_request, sample_completion], correlation_state_default) = Inr (records', s') \<and>
    batch_ok s' \<and> list_all2 same_but_request_id [sample_request, sample_completion] records'"
  by (rule correlation_total [OF start_ok(1)]) (use sample_readable in blast)

text \<open>C27: a snapshot that is read back restores the state, less what has expired, exactly when every
  identifier in it is a digest and every sequence number is below the next one; any other snapshot
  the code has itself written is refused.
\<close>

theorem snapshot_restore:
  assumes "state_ok s" and "to_persisted_json print s = Inr text" and "decode text = Some (persisted s)"
  shows "from_persisted_json decode text now =
    (if snapshot_ok s then Inr (expire now (finish_batch s)) else Inl InvalidSchema)"
  using assms(2) by (intro restore_persisted assms) (auto simp: to_persisted_json_def bind_result_eq_Inr split: if_splits)

definition half_hashed :: correlation_state where
  "half_hashed = \<lparr>cs_pending = [((''id:sha256:short'', ''c'', ''m''),
     [\<lparr>pr_correlation_id = ''r'', pr_official_retry_identity = None, pr_inserted_at_unix_ms = 0,
       pr_sequence = 0, pr_current_record_index = None\<rparr>])], cs_recently_completed = [], cs_next_sequence = 1\<rparr>"

theorem snapshot_restore_witness:
  "from_persisted_json (\<lambda>_. Some (persisted half_hashed)) ''snapshot'' 0 = Inl InvalidSchema \<and>
   from_persisted_json (\<lambda>_. Some (persisted correlation_state_default)) ''snapshot'' 0 =
     Inr (expire 0 (finish_batch correlation_state_default))"
proof -
  have "state_ok half_hashed"
    by (simp add: half_hashed_def state_ok_def tidy_def bt_sorted_def held_def pending_len_def bt_values_def
      MAX_PENDING_OTLP_REQUESTS_def)
  moreover have "\<not> snapshot_ok half_hashed"
    by (simp add: half_hashed_def snapshot_ok_def pending_entries_def entry_ok_def is_private_hash_def)
  moreover have "to_persisted_json (\<lambda>_. Some ''snapshot'') s = Inr ''snapshot''" for s
    by (simp add: to_persisted_json_def MAX_PERSISTED_OTLP_CORRELATION_BYTES_def)
  ultimately show ?thesis
    using snapshot_restore [of half_hashed "\<lambda>_. Some ''snapshot''" "''snapshot''" "\<lambda>_. Some (persisted half_hashed)" 0]
      snapshot_restore [of correlation_state_default "\<lambda>_. Some ''snapshot''" "''snapshot''"
        "\<lambda>_. Some (persisted correlation_state_default)" 0] start_ok
    by (simp add: batch_ok_def)
qed

text \<open>C28: a restart loses no open request.  From a state that can be restored, after an export none of
  whose identifiers is a digest cut short, the snapshot of the new state restores exactly that state,
  less what has expired by then.
\<close>

theorem restart:
  assumes "batch_ok s" and "snapshot_ok s" and "unat (cs_next_sequence s) + length records < 2 ^ 64"
    and "\<forall>r \<in> set records. readable (hr_attributes r) \<and> whole_identifiers (hr_attributes r)"
    and "\<forall>v. length (sha v) = 32" and "whole_identifier g"
    and "correlate_otlp_request_pairs sha g now (records, s) = Inr (records', s')"
    and "to_persisted_json print s' = Inr text" and "decode text = Some (persisted s')"
  shows "from_persisted_json decode text later = Inr (expire later s')"
proof -
  have "snapshot_ok s'" using correlate_sealed [OF assms(7,1-4) _ assms(6)] assms(5) by blast
  moreover have "batch_ok s'" using correlation_total_aux [OF assms(1), of records sha g now] assms(4,7) by auto
  moreover have "length text \<le> MAX_PERSISTED_OTLP_CORRELATION_BYTES"
    using assms(8) by (auto simp: to_persisted_json_def bind_result_eq_Inr split: if_splits)
  ultimately show ?thesis
    using restore_persisted [of s' decode "text"] assms(9) finish_idle [of s'] by (simp add: batch_ok_def)
qed

lemma sample_pairs:
  "case correlate_otlp_request_pairs flat_digest ''g'' 7 ([sample_request], correlation_state_default) of
     Inl _ \<Rightarrow> False | Inr (_, s) \<Rightarrow> pending_len s = 1"
proof -
  have expire: "expire 7 correlation_state_default = correlation_state_default"
    by (simp add: expire_def correlation_state_default_def)
  have start: "next_sequence correlation_state_default = (0, \<lparr>cs_pending = [], cs_recently_completed = [], cs_next_sequence = 1\<rparr>)"
    by (simp add: next_sequence_def correlation_state_default_def checked_add_def)
  have push: "pending_len (finish_batch (push_pending key p \<lparr>cs_pending = [], cs_recently_completed = [], cs_next_sequence = 1\<rparr>)) = 1"
    for key p
    using push_pending_room(1) [of "\<lparr>cs_pending = [], cs_recently_completed = [], cs_next_sequence = 1\<rparr>" key p]
    by (simp add: held_def pending_len_def finish_batch_def MAX_PENDING_OTLP_REQUESTS_def bt_values_def)
  have getters: "optional_string (hr_attributes sample_request) ''conversation_id'' = Inr (Some ''c'')"
    "optional_string (hr_attributes sample_request) ''model'' = Inr (Some ''m'')"
    "optional_string (hr_attributes sample_request) ''request_id'' = Inr None"
    "hr_event_name sample_request = ''codex.api_request''"
    by (simp_all add: sample_request_def sample_event_def optional_string_def bt_get_def)
  have success: "optional_bool (hr_attributes (set_request_id 0 r [sample_request] ! 0)) ''success'' = Inr None" for r
    using success_after_set [of "[sample_request]" 0 r] sample_readable
    by (simp add: readable_def) (simp add: sample_request_def sample_event_def optional_bool_def bt_get_def)
  show ?thesis
    by (simp add: correlate_otlp_request_pairs_def expire correlate_record_def is_completed_def is_request_start_def
      otlp_request_pair_key_def getters correlate_request_def start success Let_def push)
qed

theorem restart_witness:
  "\<exists>records' s'. correlate_otlp_request_pairs flat_digest ''g'' 7 ([sample_request], correlation_state_default) =
      Inr (records', s') \<and> pending_len s' = 1 \<and>
    from_persisted_json (\<lambda>_. Some (persisted s')) ''snapshot'' 9 = Inr (expire 9 s')"
proof -
  obtain records' s' where r: "correlate_otlp_request_pairs flat_digest ''g'' 7 ([sample_request], correlation_state_default) =
      Inr (records', s')" "pending_len s' = 1"
    using sample_pairs by (auto split: sum.splits)
  have "from_persisted_json (\<lambda>_. Some (persisted s')) ''snapshot'' 9 = Inr (expire 9 s')"
    using sample_readable by (intro restart [OF start_ok _ _ _ _ r(1), of "\<lambda>_. Some ''snapshot''"])
      (simp_all add: correlation_state_default_def flat_digest_def whole_identifier_def ID_PREFIX_def
        to_persisted_json_def MAX_PERSISTED_OTLP_CORRELATION_BYTES_def)
  then show ?thesis using r by blast
qed

text \<open>When the state is full, queueing a request forgets the oldest entry and only that, whichever
  queue or list it is in; with room nothing is forgotten.
\<close>

lemma push_evicts_oldest:
  assumes "aged s" and "held s \<le> MAX_PENDING_OTLP_REQUESTS" and "\<forall>x \<in># sequences s. x < pr_sequence p"
  shows "if held s < MAX_PENDING_OTLP_REQUESTS
    then sequences (push_pending key p s) = add_mset (pr_sequence p) (sequences s)
    else \<exists>oldest. add_mset oldest (sequences (push_pending key p s)) = add_mset (pr_sequence p) (sequences s) \<and>
      (\<forall>x \<in># sequences s. oldest \<le> x)"
  using assms by (rule push_evicts_oldest_aux)

text \<open>C30: the two bounds on the state do not fit together.  A state within the 1024 entries that may be
  held, but with more than a thousand open requests that carry a request identifier of their own,
  cannot be written: its compact JSON is over the 512 KiB a snapshot may have, so every export that
  would leave such a state is refused.
\<close>

theorem snapshot_too_large:
  assumes "snapshot_ok s" and "\<forall>(key, p) \<in> pending_entries s. pr_official_retry_identity p \<noteq> None"
    and "1000 < pending_len s" and "print (persisted s) = Some encoded"
    and "sum_list (map pending_json_size (ps_pending (persisted s))) \<le> length encoded"
  shows "to_persisted_json print s = Inl HandoffTooLarge"
  using assms by (rule snapshot_too_large_aux)

definition sample_hash :: string where
  "sample_hash = hash_opaque_identifier flat_digest ''x''"

definition crowded_state :: correlation_state where
  "crowded_state = \<lparr>cs_pending = [((sample_hash, sample_hash, sample_hash), map (\<lambda>n.
       \<lparr>pr_correlation_id = sample_hash, pr_official_retry_identity = Some sample_hash, pr_inserted_at_unix_ms = 0,
        pr_sequence = word_of_nat n, pr_current_record_index = None\<rparr>) [0..<1024])],
     cs_recently_completed = [], cs_next_sequence = 1024\<rparr>"

theorem snapshot_too_large_witness:
  "state_ok crowded_state \<and>
   to_persisted_json (\<lambda>p. Some (replicate (sum_list (map pending_json_size (ps_pending p))) CHR ''x'')) crowded_state =
     Inl HandoffTooLarge"
proof -
  have hash: "is_private_hash sample_hash"
    unfolding sample_hash_def by (subst hash_private) (simp_all add: flat_digest_def whole_identifier_def ID_PREFIX_def)
  have small: "(word_of_nat n :: u64) < 1024" if "n < 1024" for n
    using that by (simp add: word_less_nat_alt unat_of_nat)
  have len: "pending_len crowded_state = 1024" by (simp add: crowded_state_def pending_len_def bt_values_def)
  have entries: "pending_entries crowded_state = (\<lambda>n. ((sample_hash, sample_hash, sample_hash),
      \<lparr>pr_correlation_id = sample_hash, pr_official_retry_identity = Some sample_hash, pr_inserted_at_unix_ms = 0,
       pr_sequence = word_of_nat n, pr_current_record_index = None\<rparr>)) ` {0..<1024}"
    by (force simp: pending_entries_def crowded_state_def)
  have "snapshot_ok crowded_state"
    unfolding snapshot_ok_def entries using hash small
    by (auto simp: entry_ok_def present_def) (simp_all add: crowded_state_def)
  moreover have "\<forall>(key, p) \<in> pending_entries crowded_state. pr_official_retry_identity p \<noteq> None"
    unfolding entries by auto
  ultimately have "to_persisted_json (\<lambda>p. Some (replicate (sum_list (map pending_json_size (ps_pending p))) CHR ''x''))
      crowded_state = Inl HandoffTooLarge"
    using len by (intro snapshot_too_large) auto
  moreover have "tidy (cs_pending crowded_state)" "cs_recently_completed crowded_state = []"
    by (simp_all add: crowded_state_def tidy_def bt_sorted_def)
  ultimately show ?thesis using len by (simp add: state_ok_def held_def MAX_PENDING_OTLP_REQUESTS_def)
qed

end
