(* ===== verification/Codex_Fifo_Laws.thy ===== *)
theory Codex_Fifo_Laws
  imports Codex_Correlation_Laws "HOL-Library.Sublist"
begin

section \<open>First in, first out\<close>

text \<open>
  The queues of the request correlation over whole runs of a collector: exports, and restarts from the
  snapshot in between (\<^verbatim>\<open>OtlpRequestCorrelationState\<close> of \<^verbatim>\<open>crates/adapter-codex/src/lib.rs\<close>).  Whatever the
  run, every queue is in the order in which its requests arrived, so a completion takes the oldest one,
  also when the request came with an earlier export.
\<close>

subsection \<open>Queues in order\<close>

text \<open>The numbers of a queue, followed by the next one to be given out, increase strictly.\<close>

definition in_order :: "correlation_state \<Rightarrow> bool" where
  "in_order s \<longleftrightarrow> (\<forall>key. sorted_wrt (<) (map pr_sequence (queue_of (cs_pending s) key) @ [cs_next_sequence s]))"

lemma in_orderD: "in_order s \<Longrightarrow> sorted_wrt (<) (map pr_sequence (queue_of (cs_pending s) key) @ [cs_next_sequence s])"
  unfolding in_order_def by blast

lemma in_orderI:
  "(\<And>key. sorted_wrt (<) (map pr_sequence (queue_of (cs_pending s) key) @ [cs_next_sequence s])) \<Longrightarrow> in_order s"
  unfolding in_order_def by blast

lemma subseq_sorted_wrt:
  "subseq xs ys \<Longrightarrow> set xs \<subseteq> set ys \<and> (sorted_wrt P ys \<longrightarrow> sorted_wrt P xs)"
  by (induction rule: list_emb.induct) auto

lemma in_order_sub:
  assumes s: "in_order s" and later: "cs_next_sequence s \<le> cs_next_sequence t"
    and sub: "\<And>key. subseq (map pr_sequence (queue_of (cs_pending t) key)) (map pr_sequence (queue_of (cs_pending s) key))"
  shows "in_order t"
proof -
  have "sorted_wrt (<) (map pr_sequence (queue_of (cs_pending t) key) @ [cs_next_sequence t])" for key
  proof -
    have "\<forall>x \<in> set (map pr_sequence (queue_of (cs_pending s) key)). x < cs_next_sequence s"
      using in_orderD [OF s, of key] by (simp add: sorted_wrt_append)
    then have "\<forall>x \<in> set (map pr_sequence (queue_of (cs_pending t) key)). x < cs_next_sequence t"
      using subseq_sorted_wrt [OF sub [of key]] later by (meson less_le_trans subset_iff)
    then show ?thesis
      using subseq_sorted_wrt [OF sub [of key], of "(<)"] in_orderD [OF s, of key]
      by (simp add: sorted_wrt_append del: set_map)
  qed
  then show ?thesis by (rule in_orderI)
qed

lemma in_order_start: "in_order correlation_state_default"
  by (simp add: in_order_def correlation_state_default_def)

lemma in_order_pop:
  assumes "tidy (cs_pending s)" and "in_order s"
  shows "in_order (s\<lparr>cs_pending := pop_front key (cs_pending s)\<rparr>)"
proof (rule in_order_sub [OF assms(2)])
  have tl: "subseq (map pr_sequence (tl q)) (map pr_sequence q)" for q by (cases q) auto
  show "subseq (map pr_sequence (queue_of (cs_pending (s\<lparr>cs_pending := pop_front key (cs_pending s)\<rparr>)) k))
      (map pr_sequence (queue_of (cs_pending s) k))" for k
    using tl [of "queue_of (cs_pending s) key"] by (simp add: queue_of_pop_front [OF assms(1)])
qed simp

lemma in_order_completed: "in_order s \<Longrightarrow> in_order (s\<lparr>cs_recently_completed := c\<rparr>)"
  by (simp add: in_order_def)

lemma in_order_enforce: "tidy (cs_pending s) \<Longrightarrow> in_order s \<Longrightarrow> in_order (enforce_capacity s)"
proof (induction s rule: enforce_capacity.induct)
  case (1 s)
  have "in_order (evict_oldest s)"
    using "1.prems" in_order_pop in_order_completed
    by (auto simp: evict_oldest_def split: option.splits prod.splits)
  then show ?case
    using "1.IH" evict_tidy "1.prems" by (subst enforce_capacity.simps) auto
qed

lemma enforce_sequence [simp]: "cs_next_sequence (enforce_capacity s) = cs_next_sequence s"
  using enforce_entries [of s] by blast

lemma next_sequence_step:
  assumes "unat (cs_next_sequence s) + 1 < 2 ^ 64"
  shows "next_sequence s = (cs_next_sequence s, s\<lparr>cs_next_sequence := cs_next_sequence s + 1\<rparr>)"
    and "unat (cs_next_sequence s + 1) = unat (cs_next_sequence s) + 1" and "cs_next_sequence s < cs_next_sequence s + 1"
proof -
  show plus: "unat (cs_next_sequence s + 1) = unat (cs_next_sequence s) + 1"
    using assms by (simp add: unat_word_ariths)
  then show "next_sequence s = (cs_next_sequence s, s\<lparr>cs_next_sequence := cs_next_sequence s + 1\<rparr>)"
    using assms by (simp add: next_sequence_def checked_add_def)
  show "cs_next_sequence s < cs_next_sequence s + 1" using plus by (simp add: word_less_nat_alt)
qed

text \<open>A request that is queued gets the next number and goes to the back of its queue.\<close>

lemma in_order_push:
  assumes tidy: "tidy (cs_pending s)" and s: "in_order s" and room: "unat (cs_next_sequence s) + 1 < 2 ^ 64"
    and seq: "pr_sequence p = cs_next_sequence s"
  shows "in_order (push_pending key p (s\<lparr>cs_next_sequence := cs_next_sequence s + 1\<rparr>))"
proof -
  let ?s = "s\<lparr>cs_next_sequence := cs_next_sequence s + 1\<rparr>"
  let ?t = "?s\<lparr>cs_pending := bt_insert key (queue_of (cs_pending ?s) key @ [p]) (cs_pending ?s)\<rparr>"
  have "sorted_wrt (<) (map pr_sequence (queue_of (cs_pending ?t) k) @ [cs_next_sequence ?t])" for k
  proof -
    have "sorted_wrt (<) (map pr_sequence (queue_of (cs_pending s) k) @ [cs_next_sequence s])"
      by (rule in_orderD [OF s])
    then show ?thesis
      using next_sequence_step(3) [OF room] seq tidy
      by (auto simp: queue_of_insert sorted_wrt_append intro: less_trans)
  qed
  then have "in_order ?t" by (rule in_orderI)
  moreover have "tidy (cs_pending ?t)" using tidy by (simp add: tidy_insert)
  ultimately show ?thesis unfolding push_pending_def by (intro in_order_enforce)
qed

lemma in_order_remember:
  assumes tidy: "tidy (cs_pending s)" and s: "in_order s" and room: "unat (cs_next_sequence s) + 1 < 2 ^ 64"
  shows "in_order (remember_completed_official_retry key i now s)"
    and "unat (cs_next_sequence (remember_completed_official_retry key i now s)) \<le> unat (cs_next_sequence s) + 1"
proof -
  let ?s = "s\<lparr>cs_next_sequence := cs_next_sequence s + 1\<rparr>"
  have "in_order ?s"
    by (rule in_order_sub [OF s]) (use next_sequence_step(3) [OF room] in simp_all)
  then have "in_order (enforce_capacity (?s\<lparr>cs_recently_completed := c\<rparr>))" for c
    using tidy in_order_completed by (intro in_order_enforce) simp_all
  then show "in_order (remember_completed_official_retry key i now s)"
    using s by (simp add: remember_completed_official_retry_def next_sequence_step(1) [OF room] push_completed_def split: option.split)
  show "unat (cs_next_sequence (remember_completed_official_retry key i now s)) \<le> unat (cs_next_sequence s) + 1"
    using next_sequence_step(2) [OF room]
    by (simp add: remember_completed_official_retry_def next_sequence_step(1) [OF room] push_completed_def split: option.split)
qed

lemma in_order_expire:
  assumes "tidy (cs_pending s)" and "in_order s"
  shows "in_order (expire now s)"
proof (rule in_order_sub [OF assms(2)])
  let ?f = "filter (\<lambda>p. fresh_at now (pr_inserted_at_unix_ms p))"
  have "queue_of (cs_pending (expire now s)) key = ?f (queue_of (cs_pending s) key)" for key
    using assms(1) bt_get_filter_map [of "cs_pending s" "\<lambda>_ queue. queue \<noteq> []" "\<lambda>_. ?f" key]
    by (auto simp: tidy_def queue_of_def expire_def split: option.splits)
  then show "subseq (map pr_sequence (queue_of (cs_pending (expire now s)) key)) (map pr_sequence (queue_of (cs_pending s) key))" for key
    by (simp add: subseq_map subseq_filter_left)
qed (simp add: expire_def)

lemma in_order_finish:
  assumes "tidy (cs_pending s)" and "in_order s"
  shows "in_order (finish_batch s)"
proof (rule in_order_sub [OF assms(2)])
  have "queue_of (cs_pending (finish_batch s)) key = map (\<lambda>p. p\<lparr>pr_current_record_index := None\<rparr>) (queue_of (cs_pending s) key)" for key
    using assms(1) bt_get_filter_map [of "cs_pending s" "\<lambda>_ queue. queue \<noteq> []"
      "\<lambda>_. map (\<lambda>p. p\<lparr>pr_current_record_index := None\<rparr>)" key]
    by (auto simp: tidy_def queue_of_def finish_batch_def split: option.splits)
  then show "subseq (map pr_sequence (queue_of (cs_pending (finish_batch s)) key)) (map pr_sequence (queue_of (cs_pending s) key))" for key
    by (simp add: comp_def)
qed (simp add: finish_batch_def)

subsection \<open>Runs of a collector\<close>

lemma correlate_record_in_order:
  assumes ok: "state_ok (snd rs)" and order: "in_order (snd rs)" and room: "unat (cs_next_sequence (snd rs)) + 1 < 2 ^ 64"
    and r: "correlate_record sha g now rs j = Inr rs'"
  shows "in_order (snd rs') \<and> unat (cs_next_sequence (snd rs')) \<le> unat (cs_next_sequence (snd rs)) + 1"
proof -
  obtain records s where rs: "rs = (records, s)" by (cases rs)
  have s: "tidy (cs_pending s)" "in_order s" "unat (cs_next_sequence s) + 1 < 2 ^ 64"
    using ok order room by (simp_all add: rs state_ok_def)
  note up = next_sequence_step [OF s(3)]
  show ?thesis
  proof (cases "rs' = rs")
    case False
    then obtain pair where "otlp_request_pair_key (hr_attributes (records ! j)) = Inr (Some pair)"
      and "correlate_request sha g now pair (pair_key_of sha g pair) j rs = Inr rs' \<or>
        correlate_completion sha now (pair_key_of sha g pair) j rs = Inr rs'"
      using r by (auto simp: correlate_record_def rs Let_def bind_result_eq_Inr split: if_splits option.splits)
    then obtain key where
      "correlate_request sha g now pair key j rs = Inr rs' \<or> correlate_completion sha now key j rs = Inr rs'" by blast
    then show ?thesis
    proof
      assume req: "correlate_request sha g now pair key j rs = Inr rs'"
      obtain q where q: "optional_string (hr_attributes (records ! j)) ''request_id'' = Inr q"
        using req by (auto simp: correlate_request_def rs bind_result_eq_Inr split: prod.splits)
      define i where "i = map_option (hash_opaque_identifier sha) q"
      define p where "p = \<lparr>pr_correlation_id = (case i of Some i \<Rightarrow> i
          | None \<Rightarrow> stable_id sha ''id:sha256'' [''codex-local-request-v1'', g, fst pair, snd pair, hr_cursor (records ! j)]),
        pr_official_retry_identity = i, pr_inserted_at_unix_ms = now, pr_sequence = cs_next_sequence s,
        pr_current_record_index = Some j\<rparr>"
      have "snd rs' = s \<or> snd rs' = push_pending key p (s\<lparr>cs_next_sequence := cs_next_sequence s + 1\<rparr>)"
        using req unfolding correlate_request_def rs p_def i_def Let_def
        by (cases pair; cases q) (auto simp: q up(1) bind_result_eq_Inr split: if_splits)
      moreover have "pr_sequence p = cs_next_sequence s" by (simp add: p_def)
      ultimately show ?thesis
        using in_order_push [OF s, of p key] s(2) up(2) by (auto simp: rs push_pending_def)
    next
      assume "correlate_completion sha now key j rs = Inr rs'"
      then have "snd rs' = s\<lparr>cs_pending := pop_front key (cs_pending s)\<rparr> \<or>
          snd rs' \<in> range (\<lambda>i. remember_completed_official_retry key i now (s\<lparr>cs_pending := pop_front key (cs_pending s)\<rparr>))"
        by (auto simp: correlate_completion_def rs Let_def bind_result_eq_Inr split: list.splits)
      then obtain i where "snd rs' = s\<lparr>cs_pending := pop_front key (cs_pending s)\<rparr> \<or>
          snd rs' = remember_completed_official_retry key i now (s\<lparr>cs_pending := pop_front key (cs_pending s)\<rparr>)"
        by blast
      then show ?thesis
        using in_order_pop [OF s(1,2), of key] pop_front_tidy [OF s(1), of key] s(3)
          in_order_remember [of "s\<lparr>cs_pending := pop_front key (cs_pending s)\<rparr>" key i now]
        by (auto simp: rs)
    qed
  qed (use s rs in simp)
qed

lemma correlate_records_in_order:
  assumes "correlating records0 j rs" and "in_order (snd rs)" and "j + n \<le> length records0"
    and "\<forall>r \<in> set records0. readable (hr_attributes r)" and "unat (cs_next_sequence (snd rs)) + n < 2 ^ 64"
    and "try_fold (correlate_record sha g now) rs [j..<j + n] = Inr rs'"
  shows "correlating records0 (j + n) rs' \<and> in_order (snd rs') \<and>
    unat (cs_next_sequence (snd rs')) \<le> unat (cs_next_sequence (snd rs)) + n"
  using assms
proof (induction n arbitrary: j rs)
  case (Suc n)
  have "[j..<j + Suc n] = j # [Suc j..<Suc j + n]" by (simp add: upt_rec)
  then obtain rs1 where rs1: "correlate_record sha g now rs j = Inr rs1"
    "try_fold (correlate_record sha g now) rs1 [Suc j..<Suc j + n] = Inr rs'"
    using Suc.prems(6) by (auto simp: bind_result_eq_Inr)
  have j: "j < length records0" using Suc.prems(3) by simp
  have later: "correlating records0 (Suc j) rs1"
    using correlate_record_step [OF Suc.prems(1) j, of sha g now] rs1(1) Suc.prems(4) j by auto
  have ok: "state_ok (snd rs)" using Suc.prems(1) by (simp add: correlating_def)
  have step: "in_order (snd rs1) \<and> unat (cs_next_sequence (snd rs1)) \<le> unat (cs_next_sequence (snd rs)) + 1"
    using correlate_record_in_order [OF ok Suc.prems(2) _ rs1(1)] Suc.prems(5) by simp
  then show ?case
    using Suc.IH [OF later _ _ Suc.prems(4) _ rs1(2)] Suc.prems(3,5) by simp
qed simp

lemma correlating_start:
  assumes "batch_ok s" and "\<forall>r \<in> set records. readable (hr_attributes r)"
  shows "correlating records 0 (records, expire now s)"
  using assms expire_ok expire_entries [of now s]
  by (auto simp: correlating_def batch_ok_def readable_def list_all2_conv_all_nth same_refl intro: positions_mono)

text \<open>What happens to the state of a collector: an export is correlated, or the collector is restarted
  from the snapshot it has written.\<close>

datatype 'surface collector_event =
    Export string u64 "'surface handoff_record list"
  | Restart u64

fun event_records :: "'surface collector_event \<Rightarrow> 'surface handoff_record list" where
  "event_records (Export g now records) = records"
| "event_records (Restart now) = []"

fun collector_step ::
  "digest \<Rightarrow> (persisted_state \<Rightarrow> string option) \<Rightarrow> (string \<Rightarrow> persisted_state option) \<Rightarrow>
   correlation_state \<Rightarrow> 'surface collector_event \<Rightarrow> adapter_error + correlation_state" where
  "collector_step sha print decode s (Export g now records) =
     bind_result (correlate_otlp_request_pairs sha g now (records, s)) (\<lambda>(_, s'). Inr s')"
| "collector_step sha print decode s (Restart now) =
     bind_result (to_persisted_json print s) (\<lambda>text. from_persisted_json decode text now)"

definition run_records :: "'surface collector_event list \<Rightarrow> 'surface handoff_record list" where
  "run_records es = concat (map event_records es)"

lemma collector_step_ok:
  assumes roundtrip: "\<forall>p text. print p = Some text \<longrightarrow> decode text = Some p"
    and s: "batch_ok s" "in_order s" and room: "unat (cs_next_sequence s) + length (event_records e) < 2 ^ 64"
    and readable: "\<forall>r \<in> set (event_records e). readable (hr_attributes r)"
    and step: "collector_step sha print decode s e = Inr s'"
  shows "batch_ok s' \<and> in_order s' \<and> unat (cs_next_sequence s') \<le> unat (cs_next_sequence s) + length (event_records e)"
proof (cases e)
  case (Export g now records)
  obtain records' where c: "correlate_otlp_request_pairs sha g now (records, s) = Inr (records', s')"
    using step by (auto simp: Export bind_result_eq_Inr)
  then obtain t where t: "try_fold (correlate_record sha g now) (records, expire now s) [0..<0 + length records] = Inr t"
    "s' = finish_batch (snd t)"
    by (auto simp: correlate_otlp_request_pairs_def bind_result_eq_Inr)
  have tidy: "tidy (cs_pending s)" using s(1) by (simp add: batch_ok_def state_ok_def)
  have "correlating records (length records) t \<and> in_order (snd t) \<and>
      unat (cs_next_sequence (snd t)) \<le> unat (cs_next_sequence s) + length records"
    using correlate_records_in_order [OF correlating_start [OF s(1)] _ _ _ _ t(1)]
      in_order_expire [OF tidy s(2), of now] readable room by (simp add: Export expire_def)
  moreover from this have "tidy (cs_pending (snd t))" by (simp add: correlating_def state_ok_def)
  ultimately have "in_order s'" "unat (cs_next_sequence s') \<le> unat (cs_next_sequence s) + length records"
    using in_order_finish t(2) by (simp_all add: finish_batch_def)
  moreover have "batch_ok s'" using correlation_total_aux [OF s(1), of records sha g now] readable c Export by auto
  ultimately show ?thesis by (simp add: Export)
next
  case (Restart now)
  obtain out where written: "to_persisted_json print s = Inr out" "from_persisted_json decode out now = Inr s'"
    using step by (auto simp: Restart bind_result_eq_Inr)
  then have "decode out = Some (persisted s)" "length out \<le> MAX_PERSISTED_OTLP_CORRELATION_BYTES"
    using roundtrip by (auto simp: to_persisted_json_def bind_result_eq_Inr split: if_splits)
  then have s': "s' = expire now s"
    using restore_persisted [of s decode out now] written(2) finish_idle [OF s(1)] s(1)
    by (auto simp: batch_ok_def split: if_splits)
  have "batch_ok s'" using s(1) expire_ok expire_entries [of now s]
    by (auto simp: s' batch_ok_def intro: positions_mono)
  then show ?thesis
    using in_order_expire s by (simp add: s' batch_ok_def state_ok_def expire_def)
qed

lemma collector_run_ok:
  assumes roundtrip: "\<forall>p text. print p = Some text \<longrightarrow> decode text = Some p"
    and "batch_ok s" and "in_order s" and "unat (cs_next_sequence s) + length (run_records es) < 2 ^ 64"
    and "\<forall>r \<in> set (run_records es). readable (hr_attributes r)"
    and "try_fold (collector_step sha print decode) s es = Inr s'"
  shows "batch_ok s' \<and> in_order s' \<and> unat (cs_next_sequence s') \<le> unat (cs_next_sequence s) + length (run_records es)"
  using assms(2-)
proof (induction es arbitrary: s)
  case (Cons e es)
  obtain s1 where s1: "collector_step sha print decode s e = Inr s1"
    "try_fold (collector_step sha print decode) s1 es = Inr s'"
    using Cons.prems(5) by (auto simp: bind_result_eq_Inr)
  have "batch_ok s1 \<and> in_order s1 \<and> unat (cs_next_sequence s1) \<le> unat (cs_next_sequence s) + length (event_records e)"
    using collector_step_ok [OF roundtrip Cons.prems(1,2) _ _ s1(1)] Cons.prems(3,4) by (simp add: run_records_def)
  then show ?case
    using Cons.IH [OF _ _ _ _ s1(2)] Cons.prems(3,4) by (simp add: run_records_def)
qed (simp add: run_records_def)

subsection \<open>The promise\<close>

definition paired_request_id :: "digest \<Rightarrow> string option \<Rightarrow> pending_request \<Rightarrow> string option" where
  "paired_request_id sha q p = (case q of
       None \<Rightarrow> Some (pr_correlation_id p)
     | Some own \<Rightarrow> if hash_opaque_identifier sha own = pr_correlation_id p then Some own else None)"

lemma correlate_completion_exact:
  assumes ok: "state_ok s" and queue: "queue_of (cs_pending s) key = p # ps"
    and q: "optional_string (hr_attributes (records ! j)) ''request_id'' = Inr q"
    and room: "unat (cs_next_sequence s) + 1 < 2 ^ 64" and j: "j < length records"
    and sorted: "\<forall>r \<in> set records. bt_sorted (hr_attributes r)"
    and front: "\<And>i. pr_current_record_index p = Some i \<Longrightarrow> i < j"
  shows "\<exists>records' s'. correlate_completion sha now key j (records, s) = Inr (records', s') \<and>
    queue_of (cs_pending s') = (queue_of (cs_pending s))(key := ps) \<and>
    (\<forall>i. i = j \<or> pr_current_record_index p = Some i \<longrightarrow>
      bt_get (hr_attributes (records' ! i)) ''request_id'' = map_option VString (paired_request_id sha q p)) \<and>
    (\<forall>i. i \<noteq> j \<longrightarrow> pr_current_record_index p \<noteq> Some i \<longrightarrow> records' ! i = records ! i)"
proof -
  let ?s1 = "s\<lparr>cs_pending := pop_front key (cs_pending s)\<rparr>" and ?q = "paired_request_id sha q p"
  define records1 where "records1 = (case pr_current_record_index p of
      Some i \<Rightarrow> set_request_id i ?q records | None \<Rightarrow> records)"
  have "held ?s1 < MAX_PENDING_OTLP_REQUESTS"
    using pop_front_head [OF queue] ok by (simp add: state_ok_def)
  then have "cs_pending (remember_completed_official_retry key (pr_official_retry_identity p) now ?s1) =
      pop_front key (cs_pending s)"
    using remember_keeps_queues [OF pop_front_ok [OF ok], of key key] room by simp
  moreover have "queue_of (pop_front key (cs_pending s)) = (queue_of (cs_pending s))(key := ps)"
    using queue_of_pop_front [of "cs_pending s" key] ok queue by (simp add: state_ok_def)
  moreover have "correlate_completion sha now key j (records, s) =
      Inr (set_request_id j ?q records1, remember_completed_official_retry key (pr_official_retry_identity p) now ?s1)"
    by (cases "pr_current_record_index p")
      (simp_all add: correlate_completion_def queue q Let_def records1_def paired_request_id_def)
  moreover have "bt_get (hr_attributes (set_request_id j ?q records1 ! i)) ''request_id'' = map_option VString ?q"
    if "i = j \<or> pr_current_record_index p = Some i" for i
  proof (cases "i = j")
    case True
    have "records1 ! j = records ! j" "length records1 = length records"
      using front by (auto simp: records1_def split: option.split)
    then show ?thesis using get_set_request_id [of j records1 ?q] j sorted True by simp
  next
    case False
    then have i: "pr_current_record_index p = Some i" "i < j" using that front by auto
    then show ?thesis using get_set_request_id [of i records ?q] j sorted by (simp add: records1_def)
  qed
  moreover have "set_request_id j ?q records1 ! i = records ! i" if "i \<noteq> j" "pr_current_record_index p \<noteq> Some i" for i
    using that by (auto simp: records1_def split: option.split)
  ultimately show ?thesis by fastforce
qed

lemma oldest_is_front:
  assumes "in_order s" and "p \<in> set (queue_of (cs_pending s) key)"
    and "\<forall>x \<in> set (queue_of (cs_pending s) key). pr_sequence p \<le> pr_sequence x"
  shows "queue_of (cs_pending s) key = p # remove1 p (queue_of (cs_pending s) key)"
proof -
  obtain x xs where queue: "queue_of (cs_pending s) key = x # xs" using assms(2) by (cases "queue_of (cs_pending s) key") auto
  have "\<forall>y \<in> set xs. pr_sequence x < pr_sequence y"
    using in_orderD [OF assms(1), of key] by (simp add: queue sorted_wrt_append)
  then have "p = x" using assms(2,3) by (auto simp: queue)
  then show ?thesis by (simp add: queue)
qed

text \<open>C29: requests are paired first in, first out, across exports and restarts.  After any run of a
  collector (exports, and restarts from its snapshot), and any number of records into the current
  export, a completion takes the oldest open request of its key, the one with the least sequence
  number, and leaves every other queue and request alone.  Its record gets the request identifier
  the two agree on: its own when the request was queued with the digest of it, none when they
  differ, and that of the request when it has none of its own.  If the request is a record of this
  export, an earlier one, that record gets the same identifier; a request of an earlier export has
  no record any more.  No other record is touched.\<close>

theorem completion_pairs:
  assumes "\<forall>p out. print p = Some out \<longrightarrow> decode out = Some p"
    and "try_fold (collector_step sha print decode) correlation_state_default es = Inr s0"
    and "try_fold (correlate_record sha g now) (records0, expire now s0) [0..<j] = Inr (records, s)"
    and "\<forall>r \<in> set (run_records es @ records0). readable (hr_attributes r)"
    and "length (run_records es @ records0) < 2 ^ 64" and "j < length records0"
    and "is_completed (records0 ! j) = Inr True"
    and "otlp_request_pair_key (hr_attributes (records0 ! j)) = Inr (Some pair)"
    and "optional_string (hr_attributes (records0 ! j)) ''request_id'' = Inr q"
    and "p \<in> set (queue_of (cs_pending s) (pair_key_of sha g pair))"
    and "\<forall>x \<in> set (queue_of (cs_pending s) (pair_key_of sha g pair)). pr_sequence p \<le> pr_sequence x"
  shows "\<exists>records' s'. correlate_record sha g now (records, s) j = Inr (records', s') \<and>
    queue_of (cs_pending s') = (queue_of (cs_pending s))(pair_key_of sha g pair :=
      remove1 p (queue_of (cs_pending s) (pair_key_of sha g pair))) \<and>
    (\<forall>i. pr_current_record_index p = Some i \<longrightarrow> i < j) \<and>
    (\<forall>i. i = j \<or> pr_current_record_index p = Some i \<longrightarrow>
      bt_get (hr_attributes (records' ! i)) ''request_id'' = map_option VString (paired_request_id sha q p)) \<and>
    (\<forall>i. i \<noteq> j \<longrightarrow> pr_current_record_index p \<noteq> Some i \<longrightarrow> records' ! i = records ! i)"
proof -
  let ?key = "pair_key_of sha g pair"
  have run: "batch_ok s0 \<and> in_order s0 \<and> unat (cs_next_sequence s0) \<le> length (run_records es)"
    using collector_run_ok [OF assms(1) start_ok(1) in_order_start _ _ assms(2)] assms(4,5)
    by (simp add: correlation_state_default_def)
  have readable: "\<forall>r \<in> set records0. readable (hr_attributes r)" using assms(4) by simp
  have start: "correlating records0 0 (records0, expire now s0)"
    using correlating_start [OF _ readable] run by blast
  have "tidy (cs_pending s0)" using run by (simp add: batch_ok_def state_ok_def)
  then have "in_order (expire now s0)" using run in_order_expire by blast
  then have "correlating records0 (0 + j) (records, s) \<and> in_order s \<and> unat (cs_next_sequence s) \<le> unat (cs_next_sequence s0) + j"
    using correlate_records_in_order [OF start _ _ readable, where n = j and sha = sha and g = g and now = now
        and rs' = "(records, s)"] run assms(3,5,6) by (simp add: expire_def)
  then have c: "correlating records0 j (records, s)" and order: "in_order s"
    and room: "unat (cs_next_sequence s) + 1 < 2 ^ 64"
    using run assms(5,6) by simp_all
  have cur: "records ! j = records0 ! j" "length records = length records0"
    using c assms(6) by (auto simp: correlating_def dest: list_all2_lengthD)
  have sorted: "\<forall>r \<in> set records. bt_sorted (hr_attributes r)"
    using c by (fastforce simp: correlating_def list_all2_conv_all_nth in_set_conv_nth same_but_request_id_def)
  note queue = oldest_is_front [OF order assms(10,11)]
  have front: "i < j" if "pr_current_record_index p = Some i" for i
    using c that queue_front_entry [OF queue] by (fastforce simp: correlating_def positions_below_def)
  have "\<not> is_request_start (hr_event_name (records0 ! j))"
    using assms(7) by (auto simp: is_completed_def is_request_start_def split: if_splits)
  then have "correlate_record sha g now (records, s) j = correlate_completion sha now ?key j (records, s)"
    using assms(7,8) by (simp add: correlate_record_def cur Let_def)
  then show ?thesis
    using correlate_completion_exact [OF _ queue _ room _ sorted front, where q = q and sha = sha and now = now] c assms(6,9) front
    by (simp add: cur correlating_def)
qed

text \<open>A request in one export, a restart, and the completion in the next one.\<close>

definition sample_pending :: pending_request where
  "sample_pending = \<lparr>pr_correlation_id = stable_id flat_digest ''id:sha256'' [''codex-local-request-v1'', ''g'', ''c'', ''m'', ''1''],
     pr_official_retry_identity = None, pr_inserted_at_unix_ms = 7, pr_sequence = 0, pr_current_record_index = None\<rparr>"

definition open_state :: correlation_state where
  "open_state = \<lparr>cs_pending = [(pair_key_of flat_digest ''g'' (''c'', ''m''), [sample_pending])],
     cs_recently_completed = [], cs_next_sequence = 1\<rparr>"

lemma sample_export:
  "\<exists>records. correlate_otlp_request_pairs flat_digest ''g'' 7 ([sample_request], correlation_state_default) = Inr (records, open_state)"
proof -
  have expire: "expire 7 correlation_state_default = correlation_state_default"
    by (simp add: expire_def correlation_state_default_def)
  have start: "next_sequence correlation_state_default = (0, \<lparr>cs_pending = [], cs_recently_completed = [], cs_next_sequence = 1\<rparr>)"
    by (simp add: next_sequence_def correlation_state_default_def checked_add_def)
  have push: "push_pending key p \<lparr>cs_pending = [], cs_recently_completed = [], cs_next_sequence = 1\<rparr> =
      \<lparr>cs_pending = [(key, [p])], cs_recently_completed = [], cs_next_sequence = 1\<rparr>" for key p
    using push_pending_room(1) [of "\<lparr>cs_pending = [], cs_recently_completed = [], cs_next_sequence = 1\<rparr>" key p]
    by (simp add: held_def pending_len_def MAX_PENDING_OTLP_REQUESTS_def bt_values_def)
  have getters: "optional_string (hr_attributes sample_request) ''conversation_id'' = Inr (Some ''c'')"
    "optional_string (hr_attributes sample_request) ''model'' = Inr (Some ''m'')"
    "optional_string (hr_attributes sample_request) ''request_id'' = Inr None"
    "hr_event_name sample_request = ''codex.api_request''" "hr_cursor sample_request = ''1''"
    by (simp_all add: sample_request_def sample_event_def optional_string_def bt_get_def)
  have success: "optional_bool (hr_attributes (set_request_id 0 r [sample_request] ! 0)) ''success'' = Inr None" for r
    using success_after_set [of "[sample_request]" 0 r] sample_readable
    by (simp add: readable_def) (simp add: sample_request_def sample_event_def optional_bool_def bt_get_def)
  show ?thesis
    by (simp add: correlate_otlp_request_pairs_def expire correlate_record_def is_completed_def is_request_start_def
      otlp_request_pair_key_def getters correlate_request_def start success Let_def push finish_batch_def open_state_def
      sample_pending_def)
qed

lemma open_state_fresh: "now < 300007 \<Longrightarrow> expire now open_state = open_state"
proof -
  assume "now < 300007"
  then have "fresh_at now 7"
    by (auto simp: fresh_at_def saturating_sub_def OTLP_REQUEST_CORRELATION_TTL_MS_def unat_sub word_less_nat_alt word_le_nat_alt)
  then show ?thesis by (simp add: expire_def open_state_def sample_pending_def)
qed

theorem completion_pairs_witness:
  "\<exists>records' s'. correlate_record flat_digest ''g'' 9 ([sample_completion], open_state) 0 = Inr (records', s') \<and>
    queue_of (cs_pending s') (pair_key_of flat_digest ''g'' (''c'', ''m'')) = [] \<and>
    bt_get (hr_attributes (records' ! 0)) ''request_id'' = Some (VString (pr_correlation_id sample_pending))"
proof -
  let ?print = "\<lambda>p. if p = persisted open_state then Some ''snapshot'' else None"
  let ?decode = "\<lambda>_ :: string. Some (persisted open_state)"
  let ?key = "pair_key_of flat_digest ''g'' (''c'', ''m'')"
  obtain r where exported: "correlate_otlp_request_pairs flat_digest ''g'' 7 ([sample_request], correlation_state_default) = Inr (r, open_state)"
    using sample_export by blast
  have "snapshot_ok open_state"
    by (rule correlate_sealed [OF exported start_ok])
      (use sample_readable in \<open>simp_all add: correlation_state_default_def flat_digest_def whole_identifier_def ID_PREFIX_def\<close>)
  moreover have ok: "batch_ok open_state"
    using sample_export correlation_total_aux [OF start_ok(1), of "[sample_request]" flat_digest "''g''" 7] sample_readable by auto
  ultimately have "from_persisted_json ?decode ''snapshot'' 8 = Inr open_state"
    using restore_persisted [of open_state ?decode "''snapshot''" 8] finish_idle [of open_state] open_state_fresh [of 8]
    by (simp add: batch_ok_def MAX_PERSISTED_OTLP_CORRELATION_BYTES_def)
  then have run: "try_fold (collector_step flat_digest ?print ?decode) correlation_state_default
      [Export ''g'' 7 [sample_request], Restart 8] = Inr open_state"
    using sample_export by (auto simp: to_persisted_json_def MAX_PERSISTED_OTLP_CORRELATION_BYTES_def)
  have prefix: "try_fold (correlate_record flat_digest ''g'' 9) ([sample_completion], expire 9 open_state) [0..<0] =
      Inr ([sample_completion], open_state)"
    using open_state_fresh [of 9] by simp
  have queue: "queue_of (cs_pending open_state) ?key = [sample_pending]"
    by (simp add: open_state_def queue_of_def bt_get_def)
  have getters: "is_completed sample_completion = Inr True" "otlp_request_pair_key (hr_attributes sample_completion) = Inr (Some (''c'', ''m''))"
    "optional_string (hr_attributes sample_completion) ''request_id'' = Inr None"
    by (simp_all add: sample_completion_def sample_event_def is_completed_def otlp_request_pair_key_def optional_string_def bt_get_def)
  have readable: "\<forall>r \<in> set (run_records [Export ''g'' 7 [sample_request], Restart 8] @ [sample_completion]). readable (hr_attributes r)"
    using sample_readable by (simp add: run_records_def)
  have roundtrip: "\<forall>p out. ?print p = Some out \<longrightarrow> ?decode out = Some p" by simp
  show ?thesis
    using completion_pairs [OF roundtrip run prefix readable, of "(''c'', ''m'')" None sample_pending] getters queue
    by (fastforce simp: run_records_def paired_request_id_def)
qed

end
