(* ===== verification/Codex_Adapter.thy ===== *)
theory Codex_Adapter
  imports Codex_Correlation
begin

section \<open>The Codex adapter: hand-off records\<close>

text \<open>
  The JSON lines part of \<^verbatim>\<open>crates/adapter-codex/src/lib.rs\<close>: a record of a telemetry log or of a notify
  call becomes an observation without content or a diagnostic.  Unlike the other adapters, a request,
  a tool call or a permission may lack its turn; it is then a child of the session.
\<close>

subsection \<open>Errors and limits\<close>

definition HANDOFF_SCHEMA_VERSION :: string where
  "HANDOFF_SCHEMA_VERSION = ''codex_handoff.v1''"

definition KNOWN_CODEX_MODELS :: "string list" where
  "KNOWN_CODEX_MODELS = [''gpt-test'', ''gpt-5.4'', ''gpt-5.5'', ''gpt-5.6-luna'', ''gpt-5.6-sol'', ''gpt-5.6-terra'']"

datatype source_surface = OtelLog | Notify

text \<open>The platform error is one of the other adapters; this crate has no text for it.\<close>

fun display_adapter_error :: "adapter_error \<Rightarrow> string option" where
  "display_adapter_error Io = Some ''Codex handoff I/O failure''"
| "display_adapter_error HandoffTooLarge = Some ''Codex handoff exceeds the byte limit''"
| "display_adapter_error TooManyRecords = Some ''Codex handoff exceeds the record limit''"
| "display_adapter_error RecordTooLarge = Some ''Codex handoff record exceeds the byte limit''"
| "display_adapter_error InvalidJson = Some ''Codex handoff contains invalid JSON''"
| "display_adapter_error InvalidSchema = Some ''Codex handoff schema is unsupported''"
| "display_adapter_error InvalidCursorSequence = Some ''Codex handoff cursor sequence is invalid''"
| "display_adapter_error UnsupportedPlatform = None"
| "display_adapter_error InsecurePermissions = Some ''Codex handoff permissions are too broad''"
| "display_adapter_error SymbolicLink = Some ''Codex handoff must not be a symbolic link''"
| "display_adapter_error InvalidFileType = Some ''Codex handoff must be a regular file''"
| "display_adapter_error InvalidIdentifier = Some ''Codex handoff contains an invalid identifier''"
| "display_adapter_error InvalidField = Some ''Codex handoff contains an invalid field value''"
| "display_adapter_error InvalidTiming = Some ''Codex handoff contains invalid timing''"

subsection \<open>Attributes\<close>

definition canonical_model :: "attributes \<Rightarrow> adapter_error + string option" where
  "canonical_model attributes = bind_result (optional_string attributes ''model'') (\<lambda>v. case v of
       None \<Rightarrow> Inr None
     | Some model \<Rightarrow> if model \<in> set KNOWN_CODEX_MODELS then Inr (Some model) else Inl InvalidField)"

definition tool_category :: "string \<Rightarrow> string" where
  "tool_category tool =
     (if tool \<in> {''shell'', ''exec_command''} then ''shell''
      else if tool = ''apply_patch'' then ''apply_patch''
      else if tool \<in> {''web'', ''web_search''} then ''web''
      else if tool \<in> {''mcp'', ''mcp_tool''} then ''mcp''
      else ''other'')"

definition canonical_tool_name :: "attributes \<Rightarrow> adapter_error + string option" where
  "canonical_tool_name attributes =
     bind_result (optional_string attributes ''tool_name'') (\<lambda>v. Inr (map_option tool_category v))"

definition canonical_decision :: "attributes \<Rightarrow> adapter_error + string" where
  "canonical_decision attributes = bind_result (optional_string attributes ''decision'') (\<lambda>v.
     if v \<in> {Some ''approved'', Some ''allowed''} then Inr ''approved''
     else if v = Some ''denied'' then Inr ''denied''
     else Inl InvalidField)"

definition validate_project_name :: "string \<Rightarrow> adapter_error + unit" where
  "validate_project_name project =
     (if project = [] \<or> length project > MAX_IDENTIFIER_BYTES then Inl InvalidIdentifier else Inr ())"

subsection \<open>Observations\<close>

fun surface_name :: "source_surface \<Rightarrow> string" where
  "surface_name OtelLog = ''otel_log''"
| "surface_name Notify = ''notify''"

definition span_and_parent :: "digest \<Rightarrow> string \<Rightarrow> string option \<Rightarrow> string \<Rightarrow> string \<times> string option" where
  "span_and_parent sha session turn leaf =
     (let session_span = stable_id sha ''codex-session'' [session]
      in (case turn of
            None \<Rightarrow>
              if leaf = ''session'' then (session_span, None)
              else (stable_id sha ''codex-span'' [session, leaf], Some session_span)
          | Some turn_id \<Rightarrow>
              if leaf = ''turn'' then (stable_id sha ''codex-turn'' [session, turn_id], Some session_span)
              else (stable_id sha ''codex-span'' [session, turn_id, leaf],
                    Some (stable_id sha ''codex-turn'' [session, turn_id]))))"

definition build_observation ::
  "digest \<Rightarrow> source_surface handoff_record \<Rightarrow> string option \<Rightarrow> string \<Rightarrow> string option \<Rightarrow> string \<Rightarrow>
   correlation_ids \<Rightarrow> observation_event \<Rightarrow> lifecycle_state \<Rightarrow> token_usage \<Rightarrow> u64 option \<Rightarrow>
   adapter_error + mapping" where
  "build_observation sha record previous session turn leaf correlation event lifecycle usage duration =
     bind_result (parse_identifier (stable_id sha ''codex-trace'' [session])) (\<lambda>trace_id.
     let (span_id, parent_span_id) = span_and_parent sha session turn leaf;
         fin = hr_received_at_unix_ms record
     in bind_result (ok_or (checked_sub fin (case duration of None \<Rightarrow> 0 | Some d \<Rightarrow> d)) InvalidTiming) (\<lambda>start.
     bind_result (case timing_new start (Some fin) of Inl _ \<Rightarrow> Inl InvalidTiming | Inr t \<Rightarrow> Inr t) (\<lambda>timing.
     let observation_id = stable_id sha ''codex-observation''
           [hr_source_generation record, hr_cursor record, surface_name (hr_surface record), hr_event_name record]
     in bind_result (parse_identifier (hr_source_generation record)) (\<lambda>generation.
     bind_result (try_option parse_identifier previous) (\<lambda>previous_cursor.
     bind_result (parse_identifier (hr_cursor record)) (\<lambda>cursor.
     bind_result (parse_identifier observation_id) (\<lambda>oid.
     bind_result (parse_identifier span_id) (\<lambda>sid.
     bind_result (try_option parse_identifier parent_span_id) (\<lambda>parent.
     Inr (MappedObservation
       \<lparr>so_source = Codex, so_source_generation = generation,
        so_previous_source_cursor = previous_cursor, so_source_cursor = cursor,
        so_observation_id = oid, so_trace_id = trace_id, so_span_id = sid, so_parent_span_id = parent,
        so_correlation = correlation, so_event = event, so_lifecycle = lifecycle,
        so_timing = timing, so_token_usage = usage\<rparr>))))))))))"

definition session_observation ::
  "digest \<Rightarrow> source_surface handoff_record \<Rightarrow> string option \<Rightarrow> adapter_error + mapping" where
  "session_observation sha record previous =
     bind_result (required_string (hr_attributes record) ''conversation_id'') (\<lambda>session.
     bind_result (parse_identifier session) (\<lambda>session_id.
     let correlation = correlation_default\<lparr>c_session_id := Some session_id\<rparr>
     in bind_result (canonical_model (hr_attributes record)) (\<lambda>model.
     build_observation sha record previous session None ''session'' correlation
       (SessionEvent model None) Running token_usage_default None)))"

definition turn_observation ::
  "digest \<Rightarrow> source_surface handoff_record \<Rightarrow> string option \<Rightarrow> adapter_error + mapping" where
  "turn_observation sha record previous =
     (let attributes = hr_attributes record in
     bind_result (required_string attributes ''thread_id'') (\<lambda>session.
     bind_result (required_string attributes ''turn_id'') (\<lambda>turn.
     bind_result (optional_string attributes ''project_name'') (\<lambda>project.
     bind_result (case project of None \<Rightarrow> Inr () | Some p \<Rightarrow> validate_project_name p) (\<lambda>_.
     bind_result (parse_identifier session) (\<lambda>session_id.
     bind_result (parse_identifier turn) (\<lambda>turn_id.
     let correlation = correlation_default\<lparr>c_session_id := Some session_id, c_turn_id := Some turn_id\<rparr>
     in build_observation sha record previous session (Some turn) ''turn'' correlation
       (case project of Some p \<Rightarrow> TurnWithProjectEvent p | None \<Rightarrow> TurnEvent) Completed
       token_usage_default None)))))))"

definition request_observation ::
  "digest \<Rightarrow> source_surface handoff_record \<Rightarrow> string option \<Rightarrow> bool \<Rightarrow> adapter_error + mapping" where
  "request_observation sha record previous includes_usage =
     (let attributes = hr_attributes record in
     bind_result (required_string attributes ''conversation_id'') (\<lambda>session.
     bind_result (optional_string attributes ''turn_id'') (\<lambda>turn.
     bind_result (required_string attributes ''request_id'') (\<lambda>request.
     bind_result (parse_identifier session) (\<lambda>session_id.
     bind_result (try_option parse_identifier turn) (\<lambda>turn_id.
     bind_result (parse_identifier request) (\<lambda>request_id.
     let correlation = correlation_default\<lparr>c_session_id := Some session_id,
           c_turn_id := turn_id, c_request_id := Some request_id\<rparr>
     in bind_result (if includes_usage then
         bind_result (optional_u64 attributes ''input_tokens'') (\<lambda>input.
         bind_result (optional_u64 attributes ''output_tokens'') (\<lambda>output.
         bind_result (optional_u64 attributes ''cached_input_tokens'') (\<lambda>cached.
         bind_result (optional_u64 attributes ''reasoning_output_tokens'') (\<lambda>reasoning.
         bind_result (optional_u64 attributes ''total_tokens'') (\<lambda>total.
         Inr (token_usage_default\<lparr>tu_input := input, tu_output := output, tu_cached_input := cached,
           tu_reasoning_output := reasoning, tu_total := total\<rparr>))))))
       else Inr token_usage_default) (\<lambda>usage.
     bind_result (optional_bool attributes ''success'') (\<lambda>success.
     bind_result (canonical_model attributes) (\<lambda>model.
     bind_result (optional_u64 attributes ''duration_ms'') (\<lambda>duration.
     build_observation sha record previous session turn
       (''request:'' @ request @ '':'' @ (if includes_usage then ''response'' else ''api'')) correlation
       (ModelRequestEvent model) (lifecycle_from_success success) usage duration)))))))))))"

definition tool_observation ::
  "digest \<Rightarrow> source_surface handoff_record \<Rightarrow> string option \<Rightarrow> adapter_error + mapping" where
  "tool_observation sha record previous =
     (let attributes = hr_attributes record in
     bind_result (required_string attributes ''conversation_id'') (\<lambda>session.
     bind_result (optional_string attributes ''turn_id'') (\<lambda>turn.
     bind_result (required_string attributes ''call_id'') (\<lambda>operation.
     bind_result (parse_identifier session) (\<lambda>session_id.
     bind_result (try_option parse_identifier turn) (\<lambda>turn_id.
     bind_result (parse_identifier operation) (\<lambda>operation_id.
     let correlation = correlation_default\<lparr>c_session_id := Some session_id,
           c_turn_id := turn_id, c_operation_id := Some operation_id\<rparr>
     in bind_result (canonical_tool_name attributes) (\<lambda>tool_name.
     bind_result (optional_bool attributes ''success'') (\<lambda>success.
     bind_result (optional_u64 attributes ''duration_ms'') (\<lambda>duration.
     build_observation sha record previous session turn (''tool:'' @ operation) correlation
       (ToolOperationEvent tool_name (Some ''result'')) (lifecycle_from_success success)
       token_usage_default duration))))))))))"

definition permission_observation ::
  "digest \<Rightarrow> source_surface handoff_record \<Rightarrow> string option \<Rightarrow> adapter_error + mapping" where
  "permission_observation sha record previous =
     (let attributes = hr_attributes record in
     bind_result (required_string attributes ''conversation_id'') (\<lambda>session.
     bind_result (optional_string attributes ''turn_id'') (\<lambda>turn.
     bind_result (required_string attributes ''call_id'') (\<lambda>permission.
     bind_result (canonical_decision attributes) (\<lambda>decision.
     bind_result (parse_identifier session) (\<lambda>session_id.
     bind_result (try_option parse_identifier turn) (\<lambda>turn_id.
     bind_result (parse_identifier permission) (\<lambda>permission_id.
     let correlation = correlation_default\<lparr>c_session_id := Some session_id,
           c_turn_id := turn_id, c_permission_id := Some permission_id\<rparr>
     in build_observation sha record previous session turn (''permission:'' @ permission) correlation
       (PermissionEvent (Some decision)) (if decision = ''denied'' then Failed else Completed)
       token_usage_default None))))))))"

definition observation_from_record ::
  "digest \<Rightarrow> source_surface handoff_record \<Rightarrow> string option \<Rightarrow> nat \<Rightarrow> adapter_error + mapping" where
  "observation_from_record sha record previous record_index = (let event = hr_event_name record in
     (case hr_surface record of
        OtelLog \<Rightarrow>
          if event = ''codex.conversation_starts'' then session_observation sha record previous
          else if event \<in> {''codex.api_request'', ''codex.websocket_request''}
            then request_observation sha record previous False
          else if event = ''codex.sse_event'' then
            bind_result (optional_string (hr_attributes record) ''kind'') (\<lambda>kind.
            if kind = Some ''response.completed'' then request_observation sha record previous True
            else Inr (MappedDiagnostic UnsupportedEventVariant))
          else if event = ''codex.tool_decision'' then permission_observation sha record previous
          else if event = ''codex.tool_result'' then tool_observation sha record previous
          else if event = ''codex.user_prompt'' then Inr (MappedDiagnostic ContentEventIgnored)
          else Inr (MappedDiagnostic UnsupportedEvent)
      | Notify \<Rightarrow>
          if event = ''agent-turn-complete'' then turn_observation sha record previous
          else Inr (MappedDiagnostic UnsupportedEvent)))"

subsection \<open>The batch\<close>

definition map_record :: "digest \<Rightarrow> source_surface handoff_record \<Rightarrow> nat \<Rightarrow> adapter_error + mapping" where
  "map_record sha record record_index = observation_from_record sha record (hr_previous_cursor record) record_index"

definition parse_handoff_jsonl ::
  "digest \<Rightarrow> (durable_record \<Rightarrow> string option) \<Rightarrow> (string \<Rightarrow> source_surface handoff_record option) \<Rightarrow>
   string \<Rightarrow> adapter_error + adapter_batch" where
  "parse_handoff_jsonl sha encode decode input =
     parse_jsonl HANDOFF_SCHEMA_VERSION Codex (map_record sha) sha encode decode input"

definition private_file_permissions :: "file_metadata \<Rightarrow> adapter_error + unit" where
  "private_file_permissions m = ensure (and (fm_mode m) 0x3F = 0) InsecurePermissions"

text \<open>The system calls are parameters: the metadata of a path and its content as text.\<close>

definition read_handoff_file ::
  "('path \<Rightarrow> file_metadata option) \<Rightarrow> ('path \<Rightarrow> string option) \<Rightarrow> (string \<Rightarrow> adapter_error + adapter_batch) \<Rightarrow>
   'path \<Rightarrow> adapter_error + adapter_batch" where
  "read_handoff_file symlink_metadata read_to_string parse path =
     bind_result (ok_or (symlink_metadata path) Io) (\<lambda>metadata.
     bind_result (ensure (fm_type metadata \<noteq> SymlinkFile) SymbolicLink) (\<lambda>_.
     bind_result (ensure (fm_type metadata = RegularFile) InvalidFileType) (\<lambda>_.
     bind_result (ensure (unat (fm_len metadata) \<le> MAX_HANDOFF_BYTES) HandoffTooLarge) (\<lambda>_.
     bind_result (private_file_permissions metadata) (\<lambda>_.
     bind_result (ok_or (read_to_string path) Io) (\<lambda>input.
     parse input))))))"

end
