(* ===== verification/Codex_Otlp.thy ===== *)
theory Codex_Otlp
  imports Codex_Adapter Dashboard_Contract
begin

section \<open>The Codex adapter: telemetry exports and notify calls\<close>

text \<open>
  The OTLP/HTTP and notify parts of \<^verbatim>\<open>crates/adapter-codex/src/lib.rs\<close>.  An export is a JSON tree of
  resources, scopes and log records; the owned attributes of each record become a hand-off record with
  the next cursor, the requests are correlated, and the records are written as JSON lines and parsed
  like a hand-off file.  The JSON decoders and printers are parameters.
\<close>

definition MAX_OTLP_LOG_RECORDS :: nat where
  "MAX_OTLP_LOG_RECORDS = 4096"

subsection \<open>JSON values\<close>

text \<open>The accessors of \<^verbatim>\<open>serde_json::Value\<close> the code uses.\<close>

fun value_get :: "attribute_value \<Rightarrow> string \<Rightarrow> attribute_value option" where
  "value_get (VObject entries) key = map_of entries key"
| "value_get _ key = None"

fun as_array :: "attribute_value \<Rightarrow> attribute_value list option" where
  "as_array (VArray vs) = Some vs"
| "as_array _ = None"

fun as_str :: "attribute_value \<Rightarrow> string option" where
  "as_str (VString s) = Some s"
| "as_str _ = None"

fun as_bool :: "attribute_value \<Rightarrow> bool option" where
  "as_bool (VBool b) = Some b"
| "as_bool _ = None"

fun number_as_f64 :: "json_number \<Rightarrow> f64" where
  "number_as_f64 (PosInt n) = f64_of_u64 n"
| "number_as_f64 (NegInt i) = f64_of_rat False (of_int i)"
| "number_as_f64 (FloatNumber f) = f"

text \<open>Whole numbers, as a number or as text; \<^verbatim>\<open>u64::from_str\<close> takes one plus sign.\<close>

definition u64_from_str :: "string \<Rightarrow> u64 option" where
  "u64_from_str text = parse_u64 (case text of
       c # rest \<Rightarrow> if c = CHR ''+'' \<and> rest \<noteq> [] then rest else text
     | [] \<Rightarrow> text)"

fun otlp_u64 :: "attribute_value \<Rightarrow> u64 option" where
  "otlp_u64 (VNumber n) = as_u64 n"
| "otlp_u64 (VString text) = u64_from_str text"
| "otlp_u64 _ = None"

definition bool_from_str :: "string \<Rightarrow> bool option" where
  "bool_from_str text = (if text = ''true'' then Some True else if text = ''false'' then Some False else None)"

fun otlp_bool :: "attribute_value \<Rightarrow> bool option" where
  "otlp_bool (VBool b) = Some b"
| "otlp_bool (VString text) = bool_from_str text"
| "otlp_bool _ = None"

definition and_then :: "'a option \<Rightarrow> ('a \<Rightarrow> 'b option) \<Rightarrow> 'b option" where
  "and_then v f = (case v of None \<Rightarrow> None | Some a \<Rightarrow> f a)"

definition number_from_f64 :: "f64 \<Rightarrow> json_number option" where
  "number_from_f64 f = (if is_finite f then Some (FloatNumber f) else None)"

definition otlp_any_value :: "attribute_value \<Rightarrow> attribute_value option" where
  "otlp_any_value value = (case and_then (value_get value ''stringValue'') as_str of
       Some s \<Rightarrow> Some (VString s)
     | None \<Rightarrow> (case and_then (value_get value ''boolValue'') as_bool of
         Some b \<Rightarrow> Some (VBool b)
       | None \<Rightarrow> (case and_then (value_get value ''intValue'') otlp_u64 of
           Some n \<Rightarrow> Some (VNumber (PosInt n))
         | None \<Rightarrow> (case value_get value ''doubleValue'' of
             Some (VNumber n) \<Rightarrow> map_option VNumber (number_from_f64 (number_as_f64 n))
           | _ \<Rightarrow> None))))"

subsection \<open>The owned attributes\<close>

definition OWNED_OTLP_ATTRIBUTES :: "string list" where
  "OWNED_OTLP_ATTRIBUTES = [''event.name'', ''conversation.id'', ''turn.id'', ''model'', ''event.kind'',
     ''tool_name'', ''call_id'', ''decision'', ''duration_ms'', ''input_token_count'', ''output_token_count'',
     ''cached_token_count'', ''reasoning_token_count'', ''tool_token_count'', ''auth.request_id'', ''success'',
     ''http.response.status_code'', ''error.message'']"

definition is_owned_otlp_attribute :: "string \<Rightarrow> bool" where
  "is_owned_otlp_attribute key \<longleftrightarrow> key \<in> set OWNED_OTLP_ATTRIBUTES"

definition otlp_attribute :: "attributes \<Rightarrow> attribute_value \<Rightarrow> adapter_error + attributes" where
  "otlp_attribute attributes attribute =
     bind_result (ok_or (and_then (value_get attribute ''key'') as_str) InvalidJson) (\<lambda>key.
     if \<not> is_owned_otlp_attribute key then Inr attributes
     else bind_result (ok_or (and_then (value_get attribute ''value'') otlp_any_value) InvalidField) (\<lambda>value.
       Inr (bt_insert key value attributes)))"

definition otlp_attributes :: "attribute_value \<Rightarrow> adapter_error + attributes" where
  "otlp_attributes record =
     bind_result (ok_or (and_then (value_get record ''attributes'') as_array) InvalidJson) (\<lambda>values.
     try_fold otlp_attribute [] values)"

definition copy_string :: "attributes \<Rightarrow> string \<Rightarrow> string \<Rightarrow> attributes \<Rightarrow> adapter_error + attributes" where
  "copy_string source source_key output_key output = (case bt_get source source_key of
       None \<Rightarrow> Inr output
     | Some value \<Rightarrow> bind_result (ok_or (as_str value) InvalidField) (\<lambda>s.
         if s = [] then Inl InvalidIdentifier else Inr (bt_insert output_key (VString s) output)))"

definition copy_u64 :: "attributes \<Rightarrow> string \<Rightarrow> string \<Rightarrow> attributes \<Rightarrow> adapter_error + attributes" where
  "copy_u64 source source_key output_key output = (case bt_get source source_key of
       None \<Rightarrow> Inr output
     | Some value \<Rightarrow> bind_result (ok_or (otlp_u64 value) InvalidField) (\<lambda>n.
         Inr (bt_insert output_key (VNumber (PosInt n)) output)))"

text \<open>The outcome of a request from up to four signals, which must agree.\<close>

definition status_success :: "attribute_value \<Rightarrow> adapter_error + bool" where
  "status_success value = bind_result (ok_or (otlp_u64 value) InvalidField) (\<lambda>status.
     if \<not> (100 \<le> status \<and> status \<le> 599) then Inl InvalidField
     else Inr (200 \<le> status \<and> status \<le> 299))"

definition success_signals :: "string \<Rightarrow> attributes \<Rightarrow> adapter_error + bool option list" where
  "success_signals event_name source =
     bind_result (try_option (\<lambda>value. ok_or (otlp_bool value) InvalidField) (bt_get source ''success'')) (\<lambda>explicit.
     bind_result (try_option status_success (bt_get source ''http.response.status_code'')) (\<lambda>status.
     let completed = (if event_name = ''codex.sse_event'' \<and>
           and_then (bt_get source ''event.kind'') as_str = Some ''response.completed'' then Some True else None);
         error = (if bt_get source ''error.message'' \<noteq> None then Some False else None)
     in Inr [explicit, status, completed, error]))"

definition canonical_success :: "string \<Rightarrow> attributes \<Rightarrow> adapter_error + bool option" where
  "canonical_success event_name source = bind_result (success_signals event_name source) (\<lambda>signals.
     case present signals of
       [] \<Rightarrow> Inr None
     | success # rest \<Rightarrow> if list_ex (\<lambda>signal. signal \<noteq> success) rest then Inl InvalidField else Inr (Some success))"

definition canonical_otlp_attributes :: "string \<Rightarrow> attributes \<Rightarrow> adapter_error + attributes" where
  "canonical_otlp_attributes event_name source =
     bind_result (copy_string source ''conversation.id'' ''conversation_id'' []) (\<lambda>o1.
     bind_result (copy_string source ''turn.id'' ''turn_id'' o1) (\<lambda>o2.
     bind_result (copy_string source ''model'' ''model'' o2) (\<lambda>o3.
     bind_result (copy_string source ''event.kind'' ''kind'' o3) (\<lambda>o4.
     bind_result (copy_string source ''tool_name'' ''tool_name'' o4) (\<lambda>o5.
     bind_result (copy_string source ''call_id'' ''call_id'' o5) (\<lambda>o6.
     bind_result (copy_string source ''decision'' ''decision'' o6) (\<lambda>o7.
     bind_result (copy_u64 source ''duration_ms'' ''duration_ms'' o7) (\<lambda>o8.
     bind_result (copy_u64 source ''input_token_count'' ''input_tokens'' o8) (\<lambda>o9.
     bind_result (copy_u64 source ''output_token_count'' ''output_tokens'' o9) (\<lambda>o10.
     bind_result (copy_u64 source ''cached_token_count'' ''cached_input_tokens'' o10) (\<lambda>o11.
     bind_result (copy_u64 source ''reasoning_token_count'' ''reasoning_output_tokens'' o11) (\<lambda>o12.
     bind_result (copy_u64 source ''tool_token_count'' ''total_tokens'' o12) (\<lambda>o13.
     bind_result (if event_name \<in> {''codex.api_request'', ''codex.sse_event''}
         then copy_string source ''auth.request_id'' ''request_id'' o13 else Inr o13) (\<lambda>o14.
     bind_result (canonical_success event_name source) (\<lambda>success.
     Inr (case success of Some s \<Rightarrow> bt_insert ''success'' (VBool s) o14 | None \<Rightarrow> o14))))))))))))))))"

subsection \<open>A log record\<close>

definition observed_time_at :: "attribute_value \<Rightarrow> string \<Rightarrow> adapter_error + u64 option" where
  "observed_time_at record key = (case value_get record key of
       None \<Rightarrow> Inr None
     | Some value \<Rightarrow> bind_result (ok_or (otlp_u64 value) InvalidTiming) (\<lambda>nanos.
         Inr (if nanos \<noteq> 0 then Some nanos else None)))"

definition otlp_observed_time_unix_nanos :: "attribute_value \<Rightarrow> adapter_error + u64 option" where
  "otlp_observed_time_unix_nanos record =
     bind_result (observed_time_at record ''timeUnixNano'') (\<lambda>first. case first of
       Some nanos \<Rightarrow> Inr (Some nanos)
     | None \<Rightarrow> observed_time_at record ''observedTimeUnixNano'')"

definition project_websocket_replay_identity ::
  "digest \<Rightarrow> string \<Rightarrow> string \<Rightarrow> u64 option \<Rightarrow> attributes \<Rightarrow> adapter_error + attributes" where
  "project_websocket_replay_identity sha event_name source_generation observed attributes =
     (if event_name \<noteq> ''codex.websocket_request'' \<or> bt_get attributes ''request_id'' \<noteq> None then Inr attributes
      else bind_result (ok_or observed InvalidTiming) (\<lambda>nanos.
      bind_result (otlp_request_pair_key attributes) (\<lambda>pair. case pair of
          None \<Rightarrow> Inr attributes
        | Some (conversation_id, model) \<Rightarrow>
            Inr (bt_insert ''request_id'' (VString (stable_id sha ''id:sha256''
              [''codex-websocket-replay-v1'', source_generation, conversation_id, model, decimal (unat nanos)])) attributes))))"

record export_state =
  es_records :: "source_surface handoff_record list"
  es_next_cursor :: u64
  es_prior :: "string option"

definition otlp_log_record ::
  "digest \<Rightarrow> string \<Rightarrow> u64 \<Rightarrow> export_state \<Rightarrow> attribute_value \<Rightarrow> adapter_error + export_state" where
  "otlp_log_record sha source_generation fallback s log_record =
     (if length (es_records s) \<ge> MAX_OTLP_LOG_RECORDS then Inl TooManyRecords
      else bind_result (otlp_attributes log_record) (\<lambda>attributes.
      case bt_get attributes ''event.name'' of
        None \<Rightarrow> Inr s
      | Some (VString event_name) \<Rightarrow>
          if event_name = [] then Inl InvalidField
          else let cursor = decimal (unat (es_next_cursor s))
          in bind_result (ok_or (checked_add (es_next_cursor s) 1) InvalidCursorSequence) (\<lambda>next_cursor.
          bind_result (otlp_observed_time_unix_nanos log_record) (\<lambda>observed.
          let received = (case observed of None \<Rightarrow> fallback | Some nanos \<Rightarrow> nanos div 1000000)
          in bind_result (canonical_otlp_attributes event_name attributes) (\<lambda>canonical0.
          bind_result (project_websocket_replay_identity sha event_name source_generation observed canonical0) (\<lambda>canonical.
          Inr (s\<lparr>es_records := es_records s @ [\<lparr>hr_schema_version = HANDOFF_SCHEMA_VERSION,
                hr_source_generation = source_generation, hr_previous_cursor = es_prior s, hr_cursor = cursor,
                hr_surface = OtelLog, hr_received_at_unix_ms = received, hr_event_name = event_name,
                hr_attributes = canonical\<rparr>],
              es_next_cursor := next_cursor, es_prior := Some cursor\<rparr>)))))
      | Some _ \<Rightarrow> Inl InvalidField))"

text \<open>The three nested arrays of an export.\<close>

definition otlp_scope ::
  "digest \<Rightarrow> string \<Rightarrow> u64 \<Rightarrow> export_state \<Rightarrow> attribute_value \<Rightarrow> adapter_error + export_state" where
  "otlp_scope sha source_generation fallback s scope =
     bind_result (ok_or (and_then (value_get scope ''logRecords'') as_array) InvalidJson)
       (try_fold (otlp_log_record sha source_generation fallback) s)"

definition otlp_resource ::
  "digest \<Rightarrow> string \<Rightarrow> u64 \<Rightarrow> export_state \<Rightarrow> attribute_value \<Rightarrow> adapter_error + export_state" where
  "otlp_resource sha source_generation fallback s resource =
     bind_result (ok_or (and_then (value_get resource ''scopeLogs'') as_array) InvalidJson)
       (try_fold (otlp_scope sha source_generation fallback) s)"

definition print_records ::
  "(source_surface handoff_record \<Rightarrow> string option) \<Rightarrow> source_surface handoff_record list \<Rightarrow> adapter_error + string" where
  "print_records print records = bind_result (try_map (\<lambda>r. ok_or (print r) InvalidJson) records)
     (\<lambda>lines. Inr (concat (map (\<lambda>l. l @ [CHR 0x0A]) lines)))"

definition export_records ::
  "digest \<Rightarrow> string \<Rightarrow> string option \<Rightarrow> u64 \<Rightarrow> u64 \<Rightarrow> attribute_value \<Rightarrow> adapter_error + export_state" where
  "export_records sha source_generation previous_cursor first_cursor fallback tree =
     bind_result (ok_or (and_then (value_get tree ''resourceLogs'') as_array) InvalidJson)
       (try_fold (otlp_resource sha source_generation fallback)
         \<lparr>es_records = [], es_next_cursor = first_cursor, es_prior = previous_cursor\<rparr>)"

text \<open>The result, and the correlation state after the call: the old one unless the call succeeds.\<close>

definition parse_otlp_http_json_with_state ::
  "digest \<Rightarrow> (durable_record \<Rightarrow> string option) \<Rightarrow> (string \<Rightarrow> attribute_value option) \<Rightarrow>
   (source_surface handoff_record \<Rightarrow> string option) \<Rightarrow> (string \<Rightarrow> source_surface handoff_record option) \<Rightarrow>
   string \<Rightarrow> string \<Rightarrow> string option \<Rightarrow> u64 \<Rightarrow> u64 \<Rightarrow> correlation_state \<Rightarrow>
   (adapter_error + adapter_batch \<times> string option) \<times> correlation_state" where
  "parse_otlp_http_json_with_state sha encode decode_value print decode input source_generation previous_cursor
       first_cursor fallback state =
     (case (if length input > MAX_HANDOFF_BYTES then Inl HandoffTooLarge
            else if source_generation = [] \<or> first_cursor = 0 then Inl InvalidCursorSequence
            else bind_result (ok_or (decode_value input) InvalidJson) (\<lambda>tree.
              bind_result (export_records sha source_generation previous_cursor first_cursor fallback tree) (\<lambda>s.
              bind_result (correlate_otlp_request_pairs sha source_generation fallback (es_records s, state)) (\<lambda>(records, next_state).
              bind_result (print_records print records) (\<lambda>jsonl.
              bind_result (parse_handoff_jsonl sha encode decode jsonl) (\<lambda>batch.
              Inr (batch, es_prior s, next_state))))))) of
        Inl e \<Rightarrow> (Inl e, state)
      | Inr (batch, prior, next_state) \<Rightarrow> (Inr (batch, prior), next_state))"

definition parse_otlp_http_json ::
  "digest \<Rightarrow> (durable_record \<Rightarrow> string option) \<Rightarrow> (string \<Rightarrow> attribute_value option) \<Rightarrow>
   (source_surface handoff_record \<Rightarrow> string option) \<Rightarrow> (string \<Rightarrow> source_surface handoff_record option) \<Rightarrow>
   string \<Rightarrow> string \<Rightarrow> string option \<Rightarrow> u64 \<Rightarrow> u64 \<Rightarrow> adapter_error + adapter_batch \<times> string option" where
  "parse_otlp_http_json sha encode decode_value print decode input source_generation previous_cursor first_cursor fallback =
     fst (parse_otlp_http_json_with_state sha encode decode_value print decode input source_generation previous_cursor
       first_cursor fallback correlation_state_default)"

end
