(* ===== verification/Codex_Laws.thy ===== *)
theory Codex_Laws
  imports Codex_Adapter
begin

section \<open>Properties of the Codex records\<close>

text \<open>
  The contract of the adapters is interpreted on the Codex mapping: its observations are linked, its
  errors are those of an attribute, and so the loop keeps the invariant of the batch.
\<close>

subsection \<open>What an observation is made of\<close>

lemma codex_observation_Inr:
  assumes "build_observation sha record previous session turn leaf correlation event lifecycle usage duration
      = Inr (MappedObservation o1)"
  shows "so_source o1 = Codex \<and> so_source_generation o1 = hr_source_generation record \<and>
    so_previous_source_cursor o1 = previous \<and> so_source_cursor o1 = hr_cursor record \<and>
    so_correlation o1 = correlation \<and> so_event o1 = event \<and> so_lifecycle o1 = lifecycle \<and>
    so_token_usage o1 = usage \<and> \<not> end_before_start (so_timing o1) \<and> so_trace_id o1 = stable_id sha ''codex-trace'' [session] \<and>
    (so_span_id o1, so_parent_span_id o1) = span_and_parent sha session turn leaf"
  using assms unfolding build_observation_def Let_def
  by (auto simp: bind_result_eq_Inr dest: timing_new_ordered split: prod.splits)

lemmas observation_defs = session_observation_def turn_observation_def request_observation_def
  tool_observation_def permission_observation_def Let_def

lemma codex_session_shape:
  "session_observation sha record previous = Inr (MappedObservation o1) \<Longrightarrow> handoff_shape sha ''codex'' o1"
  unfolding observation_defs
  by (auto simp: result_simps handoff_shape_def correlation_default_def span_and_parent_def dest!: codex_observation_Inr)

lemma codex_turn_shape:
  "turn_observation sha record previous = Inr (MappedObservation o1) \<Longrightarrow> handoff_shape sha ''codex'' o1"
  unfolding observation_defs
  by (auto simp: result_simps handoff_shape_def correlation_default_def span_and_parent_def
    dest!: codex_observation_Inr split: option.splits)

text \<open>A leaf is a child of its turn, or of the session when it has no turn.\<close>

lemma leaf_shape:
  assumes "build_observation sha record previous session turn leaf correlation event lifecycle usage duration
      = Inr (MappedObservation o1)"
    and "leaf \<notin> {''session'', ''turn''}" and "turn_child (kind_for_event event)"
    and "c_session_id correlation = Some session" and "bounded_id session" and "c_turn_id correlation = turn"
    and "list_all bounded_id (present [turn])"
  shows "handoff_shape sha ''codex'' o1"
  using codex_observation_Inr [OF assms(1)] assms(2-7)
  by (cases turn) (auto simp: handoff_shape_def span_and_parent_def present_def Let_def)

lemma leaf_names:
  "''request:'' @ r \<notin> {''session'', ''turn''}" "''tool:'' @ r \<notin> {''session'', ''turn''}"
  "''permission:'' @ r \<notin> {''session'', ''turn''}"
  by simp_all

lemma codex_request_shape:
  "request_observation sha record previous u = Inr (MappedObservation o1) \<Longrightarrow> handoff_shape sha ''codex'' o1"
  unfolding observation_defs bind_result_eq_Inr
  by (elim exE conjE, erule leaf_shape)
    (auto simp: leaf_names turn_child_def correlation_default_def present_def split: option.splits)

lemma codex_tool_shape:
  "tool_observation sha record previous = Inr (MappedObservation o1) \<Longrightarrow> handoff_shape sha ''codex'' o1"
  unfolding observation_defs bind_result_eq_Inr
  by (elim exE conjE, erule leaf_shape)
    (auto simp: leaf_names turn_child_def correlation_default_def present_def split: option.splits)

lemma codex_permission_shape:
  "permission_observation sha record previous = Inr (MappedObservation o1) \<Longrightarrow> handoff_shape sha ''codex'' o1"
  unfolding observation_defs bind_result_eq_Inr
  by (elim exE conjE, erule leaf_shape)
    (auto simp: leaf_names turn_child_def correlation_default_def present_def split: option.splits)

lemma codex_record_shape:
  assumes "observation_from_record sha record previous i = Inr (MappedObservation o1)"
  shows "handoff_shape sha ''codex'' o1"
  using assms unfolding observation_from_record_def Let_def bind_result_eq_Inr
  by (auto split: source_surface.splits if_splits simp: bind_result_eq_Inr
    dest: codex_session_shape codex_turn_shape codex_request_shape codex_tool_shape codex_permission_shape)

text \<open>The text an observation can carry beside identifiers and the project reference of a notify
  call comes from a fixed vocabulary.\<close>

fun fixed_vocabulary :: "observation_event \<Rightarrow> bool" where
  "fixed_vocabulary (SessionEvent model project) \<longleftrightarrow>
     model \<in> insert None (Some ` set KNOWN_CODEX_MODELS) \<and> project = None"
| "fixed_vocabulary TurnEvent \<longleftrightarrow> True"
| "fixed_vocabulary (TurnWithProjectEvent project) \<longleftrightarrow> project \<noteq> [] \<and> length project \<le> MAX_IDENTIFIER_BYTES"
| "fixed_vocabulary (ModelRequestEvent model) \<longleftrightarrow> model \<in> insert None (Some ` set KNOWN_CODEX_MODELS)"
| "fixed_vocabulary (ToolOperationEvent tool phase) \<longleftrightarrow>
     tool \<in> insert None (Some ` {''shell'', ''apply_patch'', ''web'', ''mcp'', ''other''}) \<and> phase = Some ''result''"
| "fixed_vocabulary (PermissionEvent decision) \<longleftrightarrow> decision \<in> {Some ''approved'', Some ''denied''}"
| "fixed_vocabulary (CompactionEvent trigger) \<longleftrightarrow> False"

lemma codex_canonical_vocabulary:
  "canonical_model a = Inr m \<Longrightarrow> m \<in> insert None (Some ` set KNOWN_CODEX_MODELS)"
  "canonical_tool_name a = Inr t \<Longrightarrow> t \<in> insert None (Some ` {''shell'', ''apply_patch'', ''web'', ''mcp'', ''other''})"
  "canonical_decision a = Inr d \<Longrightarrow> d \<in> {''approved'', ''denied''}"
  "validate_project_name p = Inr u \<Longrightarrow> p \<noteq> [] \<and> length p \<le> MAX_IDENTIFIER_BYTES"
  by (auto simp: canonical_model_def canonical_tool_name_def canonical_decision_def validate_project_name_def
    tool_category_def result_simps split: option.splits if_splits)

definition record_event :: "source_observation \<Rightarrow> string option \<Rightarrow> source_surface handoff_record \<Rightarrow> bool" where
  "record_event o1 previous record \<longleftrightarrow> so_source o1 = Codex \<and>
     so_source_generation o1 = hr_source_generation record \<and> so_previous_source_cursor o1 = previous \<and>
     so_source_cursor o1 = hr_cursor record \<and> fixed_vocabulary (so_event o1) \<and>
     \<not> end_before_start (so_timing o1)"

lemma codex_built_event:
  "build_observation sha record previous session turn leaf correlation event lifecycle usage duration
     = Inr (MappedObservation o1) \<Longrightarrow> fixed_vocabulary event \<Longrightarrow> record_event o1 previous record"
  by (drule codex_observation_Inr) (simp add: record_event_def)

lemma codex_turn_event:
  "turn_observation sha record previous = Inr (MappedObservation o1) \<Longrightarrow> record_event o1 previous record"
  unfolding turn_observation_def Let_def bind_result_eq_Inr
  by (auto elim!: codex_built_event dest: codex_canonical_vocabulary split: option.splits)

lemma codex_mapped_event:
  "session_observation sha record previous = Inr (MappedObservation o1) \<Longrightarrow> record_event o1 previous record"
  "request_observation sha record previous u = Inr (MappedObservation o1) \<Longrightarrow> record_event o1 previous record"
  "tool_observation sha record previous = Inr (MappedObservation o1) \<Longrightarrow> record_event o1 previous record"
  "permission_observation sha record previous = Inr (MappedObservation o1) \<Longrightarrow> record_event o1 previous record"
  unfolding observation_defs bind_result_eq_Inr
  by (auto elim!: codex_built_event dest: codex_canonical_vocabulary)

lemma codex_observation_event:
  assumes "observation_from_record sha record previous i = Inr (MappedObservation o1)"
  shows "record_event o1 previous record"
  using assms codex_mapped_event codex_turn_event unfolding observation_from_record_def Let_def
  by (auto split: source_surface.splits if_splits simp: bind_result_eq_Inr)

subsection \<open>The contract\<close>

lemma codex_canonical_errors:
  "canonical_model a = Inl e \<Longrightarrow> attribute_error e"
  "canonical_tool_name a = Inl e \<Longrightarrow> attribute_error e"
  "canonical_decision a = Inl e \<Longrightarrow> attribute_error e"
  "validate_project_name p = Inl e \<Longrightarrow> attribute_error e"
  unfolding canonical_model_def canonical_tool_name_def canonical_decision_def validate_project_name_def
  by (auto elim!: attribute_error_bind dest: getter_errors split: option.splits if_splits)

lemma codex_build_error:
  "build_observation sha record previous session turn leaf correlation event lifecycle usage duration = Inl e
    \<Longrightarrow> attribute_error e"
  unfolding build_observation_def Let_def
  by (auto elim!: attribute_error_bind split: prod.splits dest: getter_errors parse_error timing_error)

lemmas codex_errors = getter_errors parse_error codex_canonical_errors codex_build_error

lemma codex_mapped_errors:
  "session_observation sha record previous = Inl e \<Longrightarrow> attribute_error e"
  "turn_observation sha record previous = Inl e \<Longrightarrow> attribute_error e"
  "request_observation sha record previous u = Inl e \<Longrightarrow> attribute_error e"
  "tool_observation sha record previous = Inl e \<Longrightarrow> attribute_error e"
  "permission_observation sha record previous = Inl e \<Longrightarrow> attribute_error e"
  unfolding observation_defs
  by (auto elim!: attribute_error_bind dest: codex_errors split: option.splits if_splits)

lemma codex_observation_error: "observation_from_record sha record previous i = Inl e \<Longrightarrow> attribute_error e"
  unfolding observation_from_record_def Let_def
  by (auto split: source_surface.splits if_splits elim!: attribute_error_bind dest: codex_mapped_errors getter_errors)

definition codex_emitted :: "digest \<Rightarrow> source_observation \<Rightarrow> bool" where
  "codex_emitted sha o1 \<longleftrightarrow> handoff_shape sha ''codex'' o1 \<and> fixed_vocabulary (so_event o1) \<and>
     \<not> end_before_start (so_timing o1)"

lemma codex_map_emitted:
  assumes "map_record sha r i = Inr (MappedObservation o1)"
  shows "codex_emitted sha o1 \<and> item_checkpoint (Observation o1) = record_checkpoint Codex r"
  using codex_observation_event codex_record_shape assms
  unfolding map_record_def codex_emitted_def record_event_def record_checkpoint_def by fastforce

lemma codex_texts: "codex_emitted sha o1 \<Longrightarrow> nonempty_texts o1 \<and> \<not> end_before_start (so_timing o1)"
  by (cases "so_event o1")
    (auto simp: codex_emitted_def nonempty_texts_def handoff_shape_def stable_id_def KNOWN_CODEX_MODELS_def)

interpretation codex: jsonl_adapter sha "''codex''" "codex_emitted sha" HANDOFF_SCHEMA_VERSION Codex
    "map_record sha" "\<lambda>i. i" encode for sha encode
proof unfold_locales
  show "handoff_shape sha ''codex'' o1" if "codex_emitted sha o1" for o1
    using that by (simp add: codex_emitted_def)
  show "map_record sha r i = map_record sha r j" for r i j
    by (simp add: map_record_def observation_from_record_def)
  show "attribute_error e" if "map_record sha r i = Inl e" for r i e
    using that by (simp add: map_record_def codex_observation_error)
qed (rule codex_map_emitted codex_texts, assumption)+

subsection \<open>Where the items come from\<close>

text \<open>An item is what the mapping of its record says: the observation, its suppressed repetition or
  the diagnostic.\<close>

definition comes_from :: "adapter_error + mapping \<Rightarrow> adapter_item \<Rightarrow> bool" where
  "comes_from m item \<longleftrightarrow> (case item of
       Observation o1 \<Rightarrow> m = Inr (MappedObservation o1)
     | Disposition d \<Rightarrow>
         (case ad_disposition d of
            Suppressed \<Rightarrow> \<exists>o1. m = Inr (MappedObservation o1)
          | Diagnostic \<Rightarrow> diagnosed m = Inr (MappedDiagnostic (ad_code d))))"

lemma record_comes_from:
  assumes "parse_record schema source from_record slot sha encode s (i, r) = Inr t"
  shows "\<exists>item. ls_items t = ls_items s @ [item] \<and> comes_from (from_record r i) item"
proof -
  obtain m where m: "diagnosed (from_record r i) = Inr m"
    and t: "record_mapping slot sha encode i (record_checkpoint source r) m
      (s\<lparr>ls_cursors := bt_insert (hr_source_generation r) (hr_cursor r) (ls_cursors s)\<rparr>) = Inr t"
    by (rule parse_record_steps [OF assms])
  show ?thesis
    using m t by (cases m)
      (auto simp: record_mapping_def comes_from_def Let_def split: sum.splits option.splits)
qed

lemma records_come_from:
  assumes "try_fold (parse_record schema source from_record slot sha encode) s rs = Inr t"
  shows "\<exists>items. ls_items t = ls_items s @ items \<and> list_all2 (\<lambda>(i, r) item. comes_from (from_record r i) item) rs items"
  using assms
proof (induction rs arbitrary: s)
  case (Cons x rs)
  obtain i r where x: "x = (i, r)" by (cases x)
  then obtain u where u: "parse_record schema source from_record slot sha encode s (i, r) = Inr u"
    "try_fold (parse_record schema source from_record slot sha encode) u rs = Inr t"
    using Cons.prems by (auto simp: bind_result_eq_Inr)
  obtain item where item: "ls_items u = ls_items s @ [item]" "comes_from (from_record r i) item"
    using record_comes_from [OF u(1)] by blast
  obtain items where items: "ls_items t = ls_items u @ items" "list_all2 (\<lambda>(i, r) item. comes_from (from_record r i) item) rs items"
    using Cons.IH [OF u(2)] by blast
  then show ?case using item by (intro exI [of _ "item # items"]) (simp add: x)
qed simp

subsection \<open>What the mapping reads\<close>

fun read_attributes :: "source_surface \<Rightarrow> string list" where
  "read_attributes OtelLog = [''conversation_id'', ''turn_id'', ''request_id'', ''call_id'', ''kind'', ''model'',
     ''tool_name'', ''decision'', ''success'', ''duration_ms'', ''input_tokens'', ''output_tokens'',
     ''cached_input_tokens'', ''reasoning_output_tokens'', ''total_tokens'']"
| "read_attributes Notify = [''thread_id'', ''turn_id'', ''project_name'']"

lemma codex_build_ignores: "build_observation sha (r\<lparr>hr_attributes := b\<rparr>) = build_observation sha r"
  by (simp add: build_observation_def fun_eq_iff)

lemma otel_agree:
  assumes "agree_on (read_attributes OtelLog) a b"
  shows "canonical_model a = canonical_model b" "canonical_tool_name a = canonical_tool_name b"
    "canonical_decision a = canonical_decision b"
    "required_string a ''conversation_id'' = required_string b ''conversation_id''"
    "required_string a ''request_id'' = required_string b ''request_id''"
    "required_string a ''call_id'' = required_string b ''call_id''"
    "optional_string a ''turn_id'' = optional_string b ''turn_id''"
    "optional_string a ''kind'' = optional_string b ''kind''"
    "optional_bool a ''success'' = optional_bool b ''success''"
    "optional_u64 a ''duration_ms'' = optional_u64 b ''duration_ms''"
    "optional_u64 a ''input_tokens'' = optional_u64 b ''input_tokens''"
    "optional_u64 a ''output_tokens'' = optional_u64 b ''output_tokens''"
    "optional_u64 a ''cached_input_tokens'' = optional_u64 b ''cached_input_tokens''"
    "optional_u64 a ''reasoning_output_tokens'' = optional_u64 b ''reasoning_output_tokens''"
    "optional_u64 a ''total_tokens'' = optional_u64 b ''total_tokens''"
proof -
  have "optional_string a ''model'' = optional_string b ''model''" "optional_string a ''tool_name'' = optional_string b ''tool_name''"
    "optional_string a ''decision'' = optional_string b ''decision''"
    using key_getters [OF assms] by simp_all
  then show "canonical_model a = canonical_model b" "canonical_tool_name a = canonical_tool_name b"
    "canonical_decision a = canonical_decision b"
    by (simp_all add: canonical_model_def canonical_tool_name_def canonical_decision_def)
qed (use key_getters [OF assms] in simp_all)

lemma codex_mapping_ignores:
  assumes "agree_on (read_attributes (hr_surface r)) (hr_attributes r) b"
  shows "map_record sha (r\<lparr>hr_attributes := b\<rparr>) i = map_record sha r i"
proof -
  let ?r = "r\<lparr>hr_attributes := b\<rparr>"
  have "observation_from_record sha ?r previous i = observation_from_record sha r previous i" for previous
  proof (cases "hr_surface r")
    case OtelLog
    note agree = otel_agree [OF assms [unfolded OtelLog]]
    have "session_observation sha ?r previous = session_observation sha r previous"
      unfolding session_observation_def codex_build_ignores by (simp add: agree)
    moreover have "request_observation sha ?r previous u = request_observation sha r previous u" for u
      unfolding request_observation_def codex_build_ignores by (simp add: agree)
    moreover have "tool_observation sha ?r previous = tool_observation sha r previous"
      unfolding tool_observation_def codex_build_ignores by (simp add: agree)
    moreover have "permission_observation sha ?r previous = permission_observation sha r previous"
      unfolding permission_observation_def codex_build_ignores by (simp add: agree)
    ultimately show ?thesis by (simp add: observation_from_record_def OtelLog Let_def agree cong: if_cong)
  next
    case Notify
    have "turn_observation sha ?r previous = turn_observation sha r previous"
      unfolding turn_observation_def codex_build_ignores
      using key_getters [OF assms [unfolded Notify]] by simp
    then show ?thesis by (simp add: observation_from_record_def Notify Let_def)
  qed
  then show ?thesis by (simp add: map_record_def)
qed

text \<open>The project of a turn is exactly the \<^verbatim>\<open>project_name\<close> of its notify record.\<close>

lemma codex_project_exact:
  assumes "map_record sha r i = Inr (MappedObservation o1)" and "so_event o1 = TurnWithProjectEvent p"
  shows "hr_surface r = Notify \<and> optional_string (hr_attributes r) ''project_name'' = Inr (Some p)"
proof -
  have built: "event = TurnWithProjectEvent p"
    if "build_observation sha r previous session turn leaf correlation event lifecycle usage duration
      = Inr (MappedObservation o1)" for previous session turn leaf correlation event lifecycle usage duration
    using codex_observation_Inr [OF that] assms(2) by simp
  have "session_observation sha r previous \<noteq> Inr (MappedObservation o1)"
    "request_observation sha r previous u \<noteq> Inr (MappedObservation o1)"
    "tool_observation sha r previous \<noteq> Inr (MappedObservation o1)"
    "permission_observation sha r previous \<noteq> Inr (MappedObservation o1)" for previous u
    unfolding observation_defs by (auto simp: bind_result_eq_Inr dest!: built)
  moreover have "optional_string (hr_attributes r) ''project_name'' = Inr (Some p)"
    if "turn_observation sha r previous = Inr (MappedObservation o1)" for previous
    using that unfolding turn_observation_def Let_def
    by (auto simp: bind_result_eq_Inr dest!: built split: option.splits)
  ultimately show ?thesis
    using assms(1) unfolding map_record_def observation_from_record_def Let_def
    by (auto simp: bind_result_eq_Inr split: source_surface.splits if_splits)
qed

text \<open>What an observation owes to its record: events from the fixed vocabulary, the project from its one
  attribute, and nothing from an attribute that is not read.\<close>

definition content_free :: "digest \<Rightarrow> source_surface handoff_record \<Rightarrow> source_observation \<Rightarrow> bool" where
  "content_free sha r o1 \<longleftrightarrow> fixed_vocabulary (so_event o1) \<and>
     (\<forall>p. so_event o1 = TurnWithProjectEvent p \<longrightarrow>
        hr_surface r = Notify \<and> optional_string (hr_attributes r) ''project_name'' = Inr (Some p)) \<and>
     (\<forall>b. agree_on (read_attributes (hr_surface r)) (hr_attributes r) b \<longrightarrow>
        map_record sha (r\<lparr>hr_attributes := b\<rparr>) 0 = Inr (MappedObservation o1))"

lemma codex_content_free:
  assumes "map_record sha r 0 = Inr (MappedObservation o1)"
  shows "content_free sha r o1"
  using codex_map_emitted [OF assms] codex_project_exact [OF assms] codex_mapping_ignores [of r _ sha 0] assms
  by (simp add: content_free_def codex_emitted_def)

subsection \<open>A sample hand-off\<close>

text \<open>A session, and a tool call of it that names no turn; the line \<^verbatim>\<open>t\<close> decodes to the tool call.\<close>

definition sample_session :: "source_surface handoff_record" where
  "sample_session = \<lparr>hr_schema_version = ''codex_handoff.v1'', hr_source_generation = ''g'',
     hr_previous_cursor = None, hr_cursor = ''1'', hr_surface = OtelLog, hr_received_at_unix_ms = 7,
     hr_event_name = ''codex.conversation_starts'', hr_attributes = [(''conversation_id'', VString ''c'')]\<rparr>"

definition sample_tool :: "source_surface handoff_record" where
  "sample_tool = \<lparr>hr_schema_version = ''codex_handoff.v1'', hr_source_generation = ''g'',
     hr_previous_cursor = Some ''1'', hr_cursor = ''2'', hr_surface = OtelLog, hr_received_at_unix_ms = 8,
     hr_event_name = ''codex.tool_result'',
     hr_attributes = [(''call_id'', VString ''x''), (''conversation_id'', VString ''c''), (''duration_ms'', VNumber (PosInt 3))]\<rparr>"

definition sample_decode :: "string \<Rightarrow> source_surface handoff_record option" where
  "sample_decode l = Some (if l = ''t'' then sample_tool else sample_session)"

definition sample_input :: string where
  "sample_input = ''s'' @ [CHR 0x0A] @ ''t''"

lemma codex_sample_records: "numbered_records sample_decode 0 (lines_of sample_input) = [(1, sample_session), (2, sample_tool)]"
  and codex_sample_lines: "lines_of sample_input = [''s'', ''t'']"
proof -
  have blank: "\<not> blank_line ''s''" "\<not> blank_line ''t''" by code_simp+
  show lines: "lines_of sample_input = [''s'', ''t'']" by code_simp
  show "numbered_records sample_decode 0 (lines_of sample_input) = [(1, sample_session), (2, sample_tool)]"
    by (simp add: lines blank sample_decode_def)
qed

lemma codex_sample_mapped:
  "mapped_ok (\<lambda>o1. all_safe (observation_state o1)) (map_record sample_digest sample_session i)"
  "mapped_ok (\<lambda>o1. all_safe (observation_state o1)) (map_record sample_digest sample_tool i)"
  by (simp_all add: map_record_def observation_from_record_def session_observation_def tool_observation_def
    required_string_def optional_string_def optional_u64_def optional_bool_def canonical_model_def canonical_tool_name_def
    bt_get_def build_observation_def span_and_parent_def parse_bounded frame_def sample_bounded short_bounded
    checked_sub_def timing_new_def sample_session_def sample_tool_def mapped_ok_def all_safe_def observation_state_def
    usage_counts_def token_usage_default_def MAX_SAFE_def)

lemma codex_sample_accepted:
  assumes "\<forall>r. encode r \<noteq> None"
  shows "\<exists>items. parse_handoff_jsonl sample_digest encode sample_decode sample_input = Inr items"
proof -
  have "header_ok HANDOFF_SCHEMA_VERSION sample_session" "header_ok HANDOFF_SCHEMA_VERSION sample_tool"
    by (simp_all add: header_ok_def sample_session_def sample_tool_def HANDOFF_SCHEMA_VERSION_def short_bounded present_def)
  moreover have "chained [record_checkpoint Codex sample_session, record_checkpoint Codex sample_tool]"
    by (simp add: chained_def sample_session_def sample_tool_def)
  ultimately have "\<exists>s. try_fold (parse_record HANDOFF_SCHEMA_VERSION Codex (map_record sample_digest) (\<lambda>i. i) sample_digest encode)
      loop_start (numbered_records sample_decode 0 (lines_of sample_input)) = Inr s"
    unfolding codex.records_accepts [OF assms] codex_sample_records by (simp add: codex_sample_mapped)
  moreover have "lines_ok sample_decode (lines_of sample_input)"
    by (simp add: codex_sample_lines lines_ok_def sample_decode_def MAX_HANDOFF_LINE_BYTES_def)
  moreover have "length sample_input \<le> MAX_HANDOFF_BYTES" "length (lines_of sample_input) \<le> MAX_HANDOFF_LINES"
    by (simp_all add: codex_sample_lines MAX_HANDOFF_LINES_def) (simp add: sample_input_def MAX_HANDOFF_BYTES_def)
  ultimately show ?thesis unfolding parse_handoff_jsonl_def parse_jsonl_eq by blast
qed

subsection \<open>The promise\<close>

text \<open>C31: a batch of Codex records has one item per record, in order: the observation that the mapping
  makes of the record, its suppressed repetition or the diagnostic.  It is chained and without
  duplicates.  An observation depends on nothing of its record but the header and the listed
  attributes (no prompt, output, command, argument or directory is among them); beside the
  identifiers the only text in its event is from a fixed vocabulary or, for the
  turn of a notify call, exactly the project name of that record, of at most 512 bytes.  The states
  pass the topology validation unless the digest collides, also for the leaves that name no turn and
  hang directly under the session.
\<close>

theorem codex_batch:
  assumes "parse_handoff_jsonl sha encode decode input = Inr items"
  shows "list_all2 (\<lambda>(i, r) item. item_checkpoint item = record_checkpoint Codex r \<and>
      comes_from (map_record sha r 0) item \<and>
      (\<forall>o1. item = Observation o1 \<longrightarrow> content_free sha r o1))
      (numbered_records decode 0 (lines_of input)) items \<and>
    chained (map item_checkpoint items) \<and> distinct (map (observation_key sha encode) (observations items)) \<and>
    list_all (\<lambda>o1. fixed_vocabulary (so_event o1)) (observations items) \<and>
    (no_collision sha (observations items) \<longrightarrow>
      (\<exists>v. validate_topology (map observation_state (observations items)) = Inr v))"
proof -
  obtain s where s: "ls_items s = items" and
    run: "try_fold (parse_record HANDOFF_SCHEMA_VERSION Codex (map_record sha) (\<lambda>i. i) sha encode) loop_start
      (numbered_records decode 0 (lines_of input)) = Inr s"
    using assms unfolding parse_handoff_jsonl_def parse_jsonl_eq by blast
  note inv = codex.records_batch [OF run, unfolded s]
  have any: "map_record sha r i = map_record sha r 0" for r i
    by (simp add: map_record_def observation_from_record_def)
  have "list_all2 (\<lambda>x item. comes_from (map_record sha (snd x) (fst x)) item)
      (numbered_records decode 0 (lines_of input)) items"
    using records_come_from [OF run] s by (simp add: loop_start_def case_prod_unfold)
  then have origins: "list_all2 (\<lambda>x item. comes_from (map_record sha (snd x) 0) item)
      (numbered_records decode 0 (lines_of input)) items"
    by (rule list_all2_mono) (metis any)
  have content: "content_free sha r o1" if "comes_from (map_record sha r 0) (Observation o1)" for r o1
    using that codex_content_free by (simp add: comes_from_def)
  have check: "list_all2 (\<lambda>x item. item_checkpoint item = record_checkpoint Codex (snd x))
      (numbered_records decode 0 (lines_of input)) items"
    using inv(1) by (metis (mono_tags, lifting) list_all2_conv_all_nth length_map nth_map)
  have "list_all2 (\<lambda>x item. item_checkpoint item = record_checkpoint Codex (snd x) \<and>
      comes_from (map_record sha (snd x) 0) item \<and> (\<forall>o1. item = Observation o1 \<longrightarrow> content_free sha (snd x) o1))
      (numbered_records decode 0 (lines_of input)) items"
    using origins check content unfolding list_all2_conv_all_nth by metis
  then have "list_all2 (\<lambda>(i, r) item. item_checkpoint item = record_checkpoint Codex r \<and>
      comes_from (map_record sha r 0) item \<and> (\<forall>o1. item = Observation o1 \<longrightarrow> content_free sha r o1))
      (numbered_records decode 0 (lines_of input)) items"
    by (simp add: case_prod_unfold)
  moreover have "list_all (\<lambda>o1. fixed_vocabulary (so_event o1)) (observations items)"
    using inv(4) by (simp add: list_all_iff codex_emitted_def)
  ultimately show ?thesis using inv codex.records_linked [OF run, unfolded s] by blast
qed

theorem codex_batch_witness:
  "\<exists>items v. parse_handoff_jsonl sample_digest (\<lambda>_. Some []) sample_decode sample_input = Inr items \<and>
     length items = 2 \<and> validate_topology (map observation_state (observations items)) = Inr v"
proof -
  obtain items where items: "parse_handoff_jsonl sample_digest (\<lambda>_. Some []) sample_decode sample_input = Inr items"
    using codex_sample_accepted [of "\<lambda>_. Some []"] by auto
  note batch = codex_batch [OF items]
  have "length items = 2"
    using batch codex_sample_records by (auto dest: list_all2_lengthD)
  then show ?thesis using items batch sample_no_collision by blast
qed

end
