(* ===== verification/Codex_Otlp_Laws.thy ===== *)
theory Codex_Otlp_Laws
  imports Codex_Otlp Codex_Laws Codex_Correlation_Laws
begin

section \<open>Properties of the telemetry exports\<close>

text \<open>
  What the owned attributes of an export become is always readable, so the correlation of its requests
  cannot fail; the records carry consecutive cursors; and an export that is accepted is one item per
  record, in order, with a correlation state that is small and tidy again.
\<close>

subsection \<open>Canonical attributes\<close>

definition STRING_KEYS :: "string list" where
  "STRING_KEYS = [''conversation_id'', ''model'', ''request_id'', ''kind'']"

definition tame :: "attributes \<Rightarrow> bool" where
  "tame a \<longleftrightarrow> bt_sorted a \<and> (\<forall>k \<in> set STRING_KEYS. \<forall>v. bt_get a k = Some v \<longrightarrow> (\<exists>s. v = VString s \<and> s \<noteq> [])) \<and>
     (\<forall>v. bt_get a ''success'' = Some v \<longrightarrow> (\<exists>b. v = VBool b))"

lemma tame_readable: "tame a \<Longrightarrow> readable a"
  unfolding tame_def readable_def STRING_KEYS_def optional_string_def optional_bool_def
  by (auto split: option.split)

lemma tame_Nil: "tame []"
  by (simp add: tame_def bt_sorted_def bt_get_def)

lemma tame_string: "tame a \<Longrightarrow> s \<noteq> [] \<Longrightarrow> k \<noteq> ''success'' \<Longrightarrow> tame (bt_insert k (VString s) a)"
  by (auto simp: tame_def bt_get_insert bt_sorted_insert split: if_splits)

lemma copy_string_tame: "copy_string src k k' a = Inr b \<Longrightarrow> tame a \<Longrightarrow> k' \<noteq> ''success'' \<Longrightarrow> tame b"
  by (auto simp: copy_string_def bind_result_eq_Inr tame_string split: option.splits if_splits)

lemma copy_u64_tame:
  "copy_u64 src k k' a = Inr b \<Longrightarrow> tame a \<Longrightarrow> k' \<notin> set STRING_KEYS \<Longrightarrow> k' \<noteq> ''success'' \<Longrightarrow> tame b"
  by (auto simp: copy_u64_def bind_result_eq_Inr tame_def bt_get_insert bt_sorted_insert split: option.splits if_splits)

lemma tame_bool: "tame a \<Longrightarrow> tame (bt_insert ''success'' (VBool b) a)"
  by (auto simp: tame_def bt_get_insert bt_sorted_insert STRING_KEYS_def)

lemma canonical_tame:
  assumes "canonical_otlp_attributes event source = Inr a"
  shows "tame a"
proof -
  obtain o1 o2 o3 o4 o5 o6 o7 o8 o9 o10 o11 o12 o13 o14 b where steps:
    "copy_string source ''conversation.id'' ''conversation_id'' [] = Inr o1"
    "copy_string source ''turn.id'' ''turn_id'' o1 = Inr o2" "copy_string source ''model'' ''model'' o2 = Inr o3"
    "copy_string source ''event.kind'' ''kind'' o3 = Inr o4" "copy_string source ''tool_name'' ''tool_name'' o4 = Inr o5"
    "copy_string source ''call_id'' ''call_id'' o5 = Inr o6" "copy_string source ''decision'' ''decision'' o6 = Inr o7"
    "copy_u64 source ''duration_ms'' ''duration_ms'' o7 = Inr o8"
    "copy_u64 source ''input_token_count'' ''input_tokens'' o8 = Inr o9"
    "copy_u64 source ''output_token_count'' ''output_tokens'' o9 = Inr o10"
    "copy_u64 source ''cached_token_count'' ''cached_input_tokens'' o10 = Inr o11"
    "copy_u64 source ''reasoning_token_count'' ''reasoning_output_tokens'' o11 = Inr o12"
    "copy_u64 source ''tool_token_count'' ''total_tokens'' o12 = Inr o13"
    "(if event \<in> {''codex.api_request'', ''codex.sse_event''}
        then copy_string source ''auth.request_id'' ''request_id'' o13 else Inr o13) = Inr o14"
    "a = (case b of Some s \<Rightarrow> bt_insert ''success'' (VBool s) o14 | None \<Rightarrow> o14)"
    using assms unfolding canonical_otlp_attributes_def bind_result_eq_Inr Inr_inject by blast
  note strings = copy_string_tame [OF steps(1) tame_Nil] steps(2-7) [THEN copy_string_tame]
  have "tame o7" using strings by simp
  moreover note steps(8-13) [THEN copy_u64_tame]
  ultimately have "tame o13" by (simp add: STRING_KEYS_def)
  then have "tame o14" using steps(14) by (auto split: if_splits intro: copy_string_tame)
  then show ?thesis by (simp add: steps(15) tame_bool split: option.split)
qed

lemma websocket_tame:
  "project_websocket_replay_identity sha event g observed a = Inr b \<Longrightarrow> tame a \<Longrightarrow> tame b"
  by (auto simp: project_websocket_replay_identity_def bind_result_eq_Inr tame_string stable_id_def
    split: if_splits option.splits)

subsection \<open>The records of an export\<close>

text \<open>The first \<open>n\<close> cursors of an export, and the records that carry them.\<close>

definition cursors_from :: "u64 \<Rightarrow> nat \<Rightarrow> string list" where
  "cursors_from first n = map decimal [unat first..<unat first + n]"

definition exported :: "string \<Rightarrow> string option \<Rightarrow> u64 \<Rightarrow> export_state \<Rightarrow> bool" where
  "exported g previous first s \<longleftrightarrow>
     map hr_cursor (es_records s) = cursors_from first (length (es_records s)) \<and>
     unat (es_next_cursor s) = unat first + length (es_records s) \<and>
     map hr_previous_cursor (es_records s) @ [es_prior s] = previous # map (Some \<circ> hr_cursor) (es_records s) \<and>
     length (es_records s) \<le> MAX_OTLP_LOG_RECORDS \<and>
     list_all (\<lambda>r. hr_source_generation r = g \<and> tame (hr_attributes r)) (es_records s)"

lemma cursors_from_Suc: "cursors_from first (Suc n) = cursors_from first n @ [decimal (unat first + n)]"
  by (simp add: cursors_from_def)

lemma exported_start: "exported g previous first \<lparr>es_records = [], es_next_cursor = first, es_prior = previous\<rparr>"
  by (simp add: exported_def cursors_from_def)

lemma log_record_exported:
  assumes "otlp_log_record sha g fallback s r = Inr t" and "exported g previous first s"
  shows "exported g previous first t"
proof (cases "t = s")
  case False
  have room: "length (es_records s) < MAX_OTLP_LOG_RECORDS"
    using assms(1) by (simp add: otlp_log_record_def split: if_splits)
  obtain a where a: "otlp_attributes r = Inr a"
    using assms(1) room by (auto simp: otlp_log_record_def bind_result_eq_Inr)
  obtain v where v: "bt_get a ''event.name'' = Some v"
    using assms(1) room False by (cases "bt_get a ''event.name''") (simp_all add: otlp_log_record_def a)
  obtain event where event: "v = VString event" "event \<noteq> []"
    using assms(1) room by (cases v) (simp_all add: otlp_log_record_def a v split: if_splits)
  have "\<exists>next observed c0 c received. checked_add (es_next_cursor s) 1 = Some next \<and>
      canonical_otlp_attributes event a = Inr c0 \<and> project_websocket_replay_identity sha event g observed c0 = Inr c \<and>
      t = s\<lparr>es_records := es_records s @ [\<lparr>hr_schema_version = HANDOFF_SCHEMA_VERSION, hr_source_generation = g,
        hr_previous_cursor = es_prior s, hr_cursor = decimal (unat (es_next_cursor s)), hr_surface = OtelLog,
        hr_received_at_unix_ms = received, hr_event_name = event, hr_attributes = c\<rparr>],
        es_next_cursor := next, es_prior := Some (decimal (unat (es_next_cursor s)))\<rparr>"
    using assms(1) room by (simp add: otlp_log_record_def a v event Let_def bind_result_eq_Inr ok_or_eq_Inr) blast
  then obtain observed c0 c where run:
    "checked_add (es_next_cursor s) 1 = Some (es_next_cursor t)" "es_prior t = Some (decimal (unat (es_next_cursor s)))"
    "canonical_otlp_attributes event a = Inr c0"
    "project_websocket_replay_identity sha event g observed c0 = Inr c"
    "\<exists>received. es_records t = es_records s @ [\<lparr>hr_schema_version = HANDOFF_SCHEMA_VERSION, hr_source_generation = g,
      hr_previous_cursor = es_prior s, hr_cursor = decimal (unat (es_next_cursor s)), hr_surface = OtelLog,
      hr_received_at_unix_ms = received, hr_event_name = event, hr_attributes = c\<rparr>]"
    by auto
  have "unat (es_next_cursor t) = unat (es_next_cursor s) + 1"
    using run(1) by (auto simp: checked_add_Some)
  moreover have "tame c" using run(3,4) canonical_tame websocket_tame by blast
  ultimately show ?thesis using assms(2) run(2,5) room by (auto simp: exported_def cursors_from_Suc)
qed (use assms in simp)

lemma try_fold_keeps:
  assumes "\<And>s x t. f s x = Inr t \<Longrightarrow> P s \<Longrightarrow> P t" and "try_fold f s xs = Inr t" and "P s"
  shows "P t"
  using assms(2,3) by (induction xs arbitrary: s) (auto simp: bind_result_eq_Inr dest: assms(1))

lemma export_exported:
  assumes "export_records sha g previous first fallback tree = Inr s"
  shows "exported g previous first s"
proof -
  have scope: "exported g previous first t"
    if "otlp_scope sha g fallback s x = Inr t" "exported g previous first s" for s x t
    using that by (auto simp: otlp_scope_def bind_result_eq_Inr
      elim: try_fold_keeps [where P = "exported g previous first", rotated] intro: log_record_exported)
  have resource: "exported g previous first t"
    if "otlp_resource sha g fallback s x = Inr t" "exported g previous first s" for s x t
    using that by (auto simp: otlp_resource_def bind_result_eq_Inr
      elim: try_fold_keeps [where P = "exported g previous first", rotated] intro: scope)
  show ?thesis
    using assms by (auto simp: export_records_def bind_result_eq_Inr
      elim!: try_fold_keeps [where P = "exported g previous first", rotated] intro: resource exported_start)
qed

subsection \<open>Written as lines and read again\<close>

text \<open>The printer writes a record on one line that is not blank, and the decoder reads it back.\<close>

definition one_line :: "string \<Rightarrow> bool" where
  "one_line l \<longleftrightarrow> CHR 0x0A \<notin> set l \<and> \<not> blank_line l \<and> last l \<noteq> CHR 0x0D"

definition json_lines ::
  "('surface handoff_record \<Rightarrow> string option) \<Rightarrow> (string \<Rightarrow> 'surface handoff_record option) \<Rightarrow> bool" where
  "json_lines print decode \<longleftrightarrow> (\<forall>r l. print r = Some l \<longrightarrow> one_line l \<and> decode l = Some r)"

lemma split_line:
  "CHR 0x0A \<notin> set l \<Longrightarrow> split_inclusive cur (l @ CHR 0x0A # rest) = (rev cur @ l @ [CHR 0x0A]) # split_inclusive [] rest"
  by (induction l arbitrary: cur) auto

lemma lines_of_written:
  "list_all one_line ls \<Longrightarrow> lines_of (concat (map (\<lambda>l. l @ [CHR 0x0A]) ls)) = ls"
  by (induction ls) (auto simp: lines_of_def one_line_def split_line strip_line_def strip_suffix_def)

lemma try_map_Inr: "try_map f xs = Inr ys \<longleftrightarrow> list_all2 (\<lambda>x y. f x = Inr y) xs ys"
  by (induction xs arbitrary: ys) (auto simp: bind_result_eq_Inr list_all2_Cons1)

lemma numbered_decoded:
  "list_all2 (\<lambda>r l. \<not> blank_line l \<and> decode l = Some r) rs ls \<Longrightarrow> map snd (numbered_records decode i ls) = rs"
  by (induction rs ls arbitrary: i rule: list_all2_induct) auto

lemma printed_records:
  assumes "json_lines print decode" and "print_records print rs = Inr jsonl"
  shows "map snd (numbered_records decode 0 (lines_of jsonl)) = rs"
proof -
  obtain ls where ls: "list_all2 (\<lambda>r l. print r = Some l) rs ls" "jsonl = concat (map (\<lambda>l. l @ [CHR 0x0A]) ls)"
    using assms(2) by (auto simp: print_records_def bind_result_eq_Inr try_map_Inr)
  have lines: "list_all2 (\<lambda>r l. one_line l \<and> decode l = Some r) rs ls"
    using ls(1) assms(1) by (auto simp: json_lines_def elim: list_all2_mono)
  then have "list_all one_line ls"
    by (induction rs ls rule: list_all2_induct) auto
  then have "lines_of jsonl = ls" unfolding ls(2) by (rule lines_of_written)
  moreover have "list_all2 (\<lambda>r l. \<not> blank_line l \<and> decode l = Some r) rs ls"
    using lines by (auto simp: one_line_def elim: list_all2_mono)
  ultimately show ?thesis using numbered_decoded by blast
qed

lemma same_header: "same_but_request_id r r' \<Longrightarrow> record_checkpoint source r' = record_checkpoint source r"
  by (cases r; cases r') (simp add: same_but_request_id_def record_checkpoint_def)

lemma same_headers:
  "list_all2 same_but_request_id rs rs' \<Longrightarrow> map (record_checkpoint source) rs' = map (record_checkpoint source) rs"
  by (induction rs rs' rule: list_all2_induct) (simp_all add: same_header)

subsection \<open>The log records of an export\<close>

text \<open>The reference: the log records of the tree in order, and the event one names: the text of the last
  attribute with the key \<^verbatim>\<open>event.name\<close>.\<close>

definition array_at :: "attribute_value \<Rightarrow> string \<Rightarrow> attribute_value list" where
  "array_at v key = (case and_then (value_get v key) as_array of None \<Rightarrow> [] | Some vs \<Rightarrow> vs)"

definition export_logs :: "attribute_value \<Rightarrow> attribute_value list" where
  "export_logs tree = concat (map (\<lambda>scope. array_at scope ''logRecords'')
     (concat (map (\<lambda>resource. array_at resource ''scopeLogs'') (array_at tree ''resourceLogs''))))"

definition named_attributes :: "string \<Rightarrow> attribute_value list \<Rightarrow> attribute_value list" where
  "named_attributes key vs = filter (\<lambda>a. and_then (value_get a ''key'') as_str = Some key) vs"

definition event_name_of :: "attribute_value \<Rightarrow> string option" where
  "event_name_of entry = (case named_attributes ''event.name'' (array_at entry ''attributes'') of
       [] \<Rightarrow> None
     | as \<Rightarrow> and_then (and_then (value_get (last as) ''value'') otlp_any_value) as_str)"

text \<open>The hand-off record of a log record.\<close>

definition exported_from :: "string \<Rightarrow> u64 \<Rightarrow> attribute_value \<Rightarrow> source_surface handoff_record \<Rightarrow> bool" where
  "exported_from g fallback entry r \<longleftrightarrow> hr_surface r = OtelLog \<and> hr_source_generation r = g \<and>
     event_name_of entry = Some (hr_event_name r) \<and>
     (\<exists>observed. otlp_observed_time_unix_nanos entry = Inr observed \<and>
        hr_received_at_unix_ms r = (case observed of None \<Rightarrow> fallback | Some nanos \<Rightarrow> nanos div 1000000)) \<and>
     (\<exists>owned canonical. otlp_attributes entry = Inr owned \<and>
        canonical_otlp_attributes (hr_event_name r) owned = Inr canonical \<and>
        (\<forall>k. k \<noteq> ''request_id'' \<longrightarrow> bt_get (hr_attributes r) k = bt_get canonical k))"

lemma and_then_Some: "and_then v f = Some w \<longleftrightarrow> (\<exists>x. v = Some x \<and> f x = Some w)"
  by (auto simp: and_then_def split: option.split)

lemma attributes_event:
  assumes "try_fold otlp_attribute a0 vs = Inr a" and "is_owned_otlp_attribute key" and "bt_sorted a0"
  shows "bt_get a key = (case named_attributes key vs of
      [] \<Rightarrow> bt_get a0 key | as \<Rightarrow> and_then (value_get (last as) ''value'') otlp_any_value) \<and>
    (named_attributes key vs \<noteq> [] \<longrightarrow> bt_get a key \<noteq> None)"
  using assms(1,3)
proof (induction vs arbitrary: a0)
  case (Cons v vs)
  obtain a1 where a1: "otlp_attribute a0 v = Inr a1" "try_fold otlp_attribute a1 vs = Inr a"
    using Cons.prems by (auto simp: bind_result_eq_Inr)
  obtain k where k: "and_then (value_get v ''key'') as_str = Some k"
    using a1(1) by (auto simp: otlp_attribute_def bind_result_eq_Inr ok_or_eq_Inr)
  have step: "bt_get a1 key = (if k = key then and_then (value_get v ''value'') otlp_any_value else bt_get a0 key)"
    "k = key \<Longrightarrow> bt_get a1 key \<noteq> None" "bt_sorted a1"
    using a1(1) assms(2) Cons.prems(2)
    by (auto simp: otlp_attribute_def k bind_result_eq_Inr ok_or_eq_Inr bt_get_insert bt_sorted_insert
      and_then_Some and_then_def [of "Some x" for x] split: if_splits)
  have names: "named_attributes key (v # vs) = (if k = key then [v] else []) @ named_attributes key vs"
    by (simp add: named_attributes_def k)
  show ?case
    using Cons.IH [OF a1(2) step(3)] step(1,2) by (cases "named_attributes key vs") (auto simp: names dest: sym)
qed (simp add: named_attributes_def)

lemma otlp_attributes_event:
  assumes "otlp_attributes entry = Inr a"
  shows "and_then (bt_get a ''event.name'') as_str = event_name_of entry"
    and "bt_get a ''event.name'' = None \<Longrightarrow> event_name_of entry = None"
proof -
  obtain vs where vs: "and_then (value_get entry ''attributes'') as_array = Some vs" "try_fold otlp_attribute [] vs = Inr a"
    using assms by (auto simp: otlp_attributes_def bind_result_eq_Inr ok_or_eq_Inr)
  have "is_owned_otlp_attribute ''event.name''" by (simp add: is_owned_otlp_attribute_def OWNED_OTLP_ATTRIBUTES_def)
  note get = attributes_event [OF vs(2) this]
  have entry: "array_at entry ''attributes'' = vs" using vs(1) by (simp add: array_at_def)
  show e: "and_then (bt_get a ''event.name'') as_str = event_name_of entry"
    using get by (cases "named_attributes ''event.name'' vs")
      (simp_all add: event_name_of_def entry bt_get_def bt_sorted_def and_then_def)
  show "event_name_of entry = None" if "bt_get a ''event.name'' = None"
    using e that by (simp add: and_then_def)
qed

lemma websocket_request_id:
  "project_websocket_replay_identity sha event g observed a = Inr b \<Longrightarrow> bt_sorted a \<Longrightarrow> k \<noteq> ''request_id'' \<Longrightarrow>
     bt_get b k = bt_get a k"
  by (auto simp: project_websocket_replay_identity_def bind_result_eq_Inr bt_get_insert split: if_splits option.splits)

lemma log_record_from:
  assumes "otlp_log_record sha g fallback s entry = Inr t"
  shows "\<exists>rs. es_records t = es_records s @ rs \<and>
    list_all2 (exported_from g fallback) (filter (\<lambda>l. event_name_of l \<noteq> None) [entry]) rs"
proof -
  obtain a where a: "otlp_attributes entry = Inr a"
    using assms by (auto simp: otlp_log_record_def bind_result_eq_Inr split: if_splits)
  note event = otlp_attributes_event [OF a]
  show ?thesis
  proof (cases "bt_get a ''event.name''")
    case None
    then show ?thesis using assms event(2)
      by (auto simp: otlp_log_record_def a split: if_splits)
  next
    case (Some v)
    obtain name where v: "v = VString name" "name \<noteq> []"
      using assms by (cases v) (simp_all add: otlp_log_record_def a Some split: if_splits)
    have name: "event_name_of entry = Some name" using event(1) by (simp add: Some v and_then_def)
    obtain r observed c0 c where r: "es_records t = es_records s @ [r]" "hr_surface r = OtelLog"
      "hr_source_generation r = g" "hr_event_name r = name" "hr_attributes r = c"
      and observed: "otlp_observed_time_unix_nanos entry = Inr observed"
        "hr_received_at_unix_ms r = (case observed of None \<Rightarrow> fallback | Some nanos \<Rightarrow> nanos div 1000000)"
      and c: "canonical_otlp_attributes name a = Inr c0"
        "project_websocket_replay_identity sha name g observed c0 = Inr c"
      using assms by (auto simp: otlp_log_record_def a Some v Let_def bind_result_eq_Inr split: if_splits)
    have "exported_from g fallback entry r"
      unfolding exported_from_def r name
      using a c observed websocket_request_id [OF c(2)] canonical_tame [OF c(1)] unfolding tame_def by blast
    then show ?thesis using r(1) name by simp
  qed
qed

lemma log_records_from:
  assumes "try_fold (otlp_log_record sha g fallback) s logs = Inr t"
  shows "\<exists>rs. es_records t = es_records s @ rs \<and>
    list_all2 (exported_from g fallback) (filter (\<lambda>l. event_name_of l \<noteq> None) logs) rs"
  using assms
proof (induction logs arbitrary: s)
  case (Cons entry logs)
  obtain u where u: "otlp_log_record sha g fallback s entry = Inr u" "try_fold (otlp_log_record sha g fallback) u logs = Inr t"
    using Cons.prems by (auto simp: bind_result_eq_Inr)
  obtain rs1 where 1: "es_records u = es_records s @ rs1"
    "list_all2 (exported_from g fallback) (filter (\<lambda>l. event_name_of l \<noteq> None) [entry]) rs1"
    using log_record_from [OF u(1)] by blast
  obtain rs2 where 2: "es_records t = es_records u @ rs2"
    "list_all2 (exported_from g fallback) (filter (\<lambda>l. event_name_of l \<noteq> None) logs) rs2"
    using Cons.IH [OF u(2)] by blast
  have "filter (\<lambda>l. event_name_of l \<noteq> None) (entry # logs) =
      filter (\<lambda>l. event_name_of l \<noteq> None) [entry] @ filter (\<lambda>l. event_name_of l \<noteq> None) logs" by simp
  then show ?case
    using 1(1) 2(1) list_all2_appendI [OF 1(2) 2(2)] by (intro exI [of _ "rs1 @ rs2"]) (simp only: append_assoc simp_thms)
qed simp

text \<open>Three nested loops are one loop over all the log records.\<close>

lemma try_fold_nested:
  assumes "\<And>s x t. outer s x = Inr t \<Longrightarrow> try_fold inner s (parts x) = Inr t"
    and "try_fold outer s xs = Inr t"
  shows "try_fold inner s (concat (map parts xs)) = Inr t"
  using assms(2)
  by (induction xs arbitrary: s) (auto simp: try_fold_append bind_result_eq_Inr dest!: assms(1))

lemma export_flat:
  assumes "export_records sha g previous first fallback tree = Inr s"
  shows "try_fold (otlp_log_record sha g fallback)
    \<lparr>es_records = [], es_next_cursor = first, es_prior = previous\<rparr> (export_logs tree) = Inr s"
proof -
  have scope: "otlp_scope sha g fallback s x = Inr t \<Longrightarrow>
      try_fold (otlp_log_record sha g fallback) s (array_at x ''logRecords'') = Inr t" for s x t
    by (auto simp: otlp_scope_def bind_result_eq_Inr ok_or_eq_Inr array_at_def split: option.splits)
  have resource: "otlp_resource sha g fallback s x = Inr t \<Longrightarrow>
      try_fold (otlp_scope sha g fallback) s (array_at x ''scopeLogs'') = Inr t" for s x t
    by (auto simp: otlp_resource_def bind_result_eq_Inr ok_or_eq_Inr array_at_def split: option.splits)
  have "try_fold (otlp_resource sha g fallback) \<lparr>es_records = [], es_next_cursor = first, es_prior = previous\<rparr>
      (array_at tree ''resourceLogs'') = Inr s"
    using assms by (auto simp: export_records_def bind_result_eq_Inr ok_or_eq_Inr array_at_def split: option.splits)
  then have "try_fold (otlp_scope sha g fallback) \<lparr>es_records = [], es_next_cursor = first, es_prior = previous\<rparr>
      (concat (map (\<lambda>resource. array_at resource ''scopeLogs'') (array_at tree ''resourceLogs''))) = Inr s"
    by (rule try_fold_nested [where outer = "otlp_resource sha g fallback", rotated]) (rule resource)
  then show ?thesis
    unfolding export_logs_def by (rule try_fold_nested [where outer = "otlp_scope sha g fallback", rotated]) (rule scope)
qed

lemma export_from:
  assumes "export_records sha g previous first fallback tree = Inr s"
  shows "list_all2 (exported_from g fallback) (filter (\<lambda>l. event_name_of l \<noteq> None) (export_logs tree)) (es_records s)"
  using log_records_from [OF export_flat [OF assms]] by simp

lemma exported_from_correlated:
  "exported_from g fallback entry r \<Longrightarrow> same_but_request_id r r' \<Longrightarrow> exported_from g fallback entry r'"
  by (cases r; cases r') (auto simp: exported_from_def same_but_request_id_def)

lemma otlp_accepted:
  assumes json: "json_lines print decode" and ok: "batch_ok state"
    and run: "parse_otlp_http_json_with_state sha encode decode_value print decode input g previous first fallback state =
      (Inr (batch, prior), state')"
  obtains tree s records where "decode_value input = Some tree"
    "list_all2 (exported_from g fallback) (filter (\<lambda>l. event_name_of l \<noteq> None) (export_logs tree)) records"
    "list_all2 (\<lambda>r item. comes_from (map_record sha r 0) item) records batch"
    "exported g previous first s" "prior = es_prior s" "batch_ok state'"
    "map item_checkpoint batch = map (record_checkpoint Codex) (es_records s)"
proof -
  obtain tree s records jsonl where steps: "decode_value input = Some tree"
    "export_records sha g previous first fallback tree = Inr s"
    "correlate_otlp_request_pairs sha g fallback (es_records s, state) = Inr (records, state')"
    "print_records print records = Inr jsonl" "parse_handoff_jsonl sha encode decode jsonl = Inr batch" "prior = es_prior s"
    using run by (auto simp: parse_otlp_http_json_with_state_def bind_result_eq_Inr ok_or_eq_Inr split: sum.splits if_splits)
  have exported: "exported g previous first s" using steps(2) by (rule export_exported)
  have corr: "batch_ok state'" "list_all2 same_but_request_id (es_records s) records"
    using correlation_total_aux [OF ok, of "es_records s" sha g fallback] steps(3) exported tame_readable
    by (auto simp: exported_def list_all_iff)
  have origin: "list_all2 (exported_from g fallback) (filter (\<lambda>l. event_name_of l \<noteq> None) (export_logs tree)) records"
    by (rule list_all2_trans [OF _ export_from [OF steps(2)] corr(2)]) (rule exported_from_correlated)
  obtain t where run2: "ls_items t = batch" "try_fold (parse_record HANDOFF_SCHEMA_VERSION Codex (map_record sha) (\<lambda>i. i) sha encode)
      loop_start (numbered_records decode 0 (lines_of jsonl)) = Inr t"
    using steps(5) unfolding parse_handoff_jsonl_def parse_jsonl_eq by blast
  note printed = printed_records [OF json steps(4)]
  have any: "map_record sha r i = map_record sha r 0" for r i
    by (simp add: map_record_def observation_from_record_def)
  have "list_all2 (\<lambda>x item. comes_from (map_record sha (snd x) (fst x)) item) (numbered_records decode 0 (lines_of jsonl)) batch"
    using records_come_from [OF run2(2)] run2(1) by (simp add: loop_start_def case_prod_unfold)
  then have "list_all2 (\<lambda>x item. comes_from (map_record sha (snd x) 0) item) (numbered_records decode 0 (lines_of jsonl)) batch"
    by (rule list_all2_mono) (metis any)
  then have origins: "list_all2 (\<lambda>r item. comes_from (map_record sha r 0) item) records batch"
    unfolding printed [symmetric] by (simp add: list_all2_map1)
  have "map item_checkpoint batch = map (record_checkpoint Codex) (map snd (numbered_records decode 0 (lines_of jsonl)))"
    using codex.records_batch(1) [OF run2(2)] run2(1) by (simp add: comp_def)
  also have "\<dots> = map (record_checkpoint Codex) (es_records s)"
    unfolding printed using corr(2) by (rule same_headers)
  finally show ?thesis using that steps(1,6) origin origins exported corr(1) by blast
qed

lemma otlp_export_aux:
  assumes "json_lines print decode" and "batch_ok state"
    and "parse_otlp_http_json_with_state sha encode decode_value print decode input g previous first fallback state =
      (Inr (batch, prior), state')"
  shows "\<exists>tree records. decode_value input = Some tree \<and>
    list_all2 (exported_from g fallback) (filter (\<lambda>l. event_name_of l \<noteq> None) (export_logs tree)) records \<and>
    list_all2 (\<lambda>r item. comes_from (map_record sha r 0) item) records batch \<and>
    length batch \<le> MAX_OTLP_LOG_RECORDS \<and> unat first + length batch < 2 ^ 64 \<and>
    map (sc_source_cursor \<circ> item_checkpoint) batch = cursors_from first (length batch) \<and>
    map (sc_previous_source_cursor \<circ> item_checkpoint) batch @ [prior] =
      previous # map Some (cursors_from first (length batch)) \<and>
    list_all (\<lambda>item. sc_source_generation (item_checkpoint item) = g) batch \<and> batch_ok state'"
proof -
  obtain tree s records where r: "decode_value input = Some tree"
    "list_all2 (exported_from g fallback) (filter (\<lambda>l. event_name_of l \<noteq> None) (export_logs tree)) records"
    "list_all2 (\<lambda>r item. comes_from (map_record sha r 0) item) records batch"
    and s: "exported g previous first s" "prior = es_prior s" "batch_ok state'"
    "map item_checkpoint batch = map (record_checkpoint Codex) (es_records s)"
    by (rule otlp_accepted [OF assms]) blast
  have len: "length batch = length (es_records s)" using arg_cong [OF s(4), of length] by simp
  have cursors: "map (sc_source_cursor \<circ> item_checkpoint) batch = map hr_cursor (es_records s)"
    using arg_cong [OF s(4), of "map sc_source_cursor"] by (simp add: comp_def)
  have some: "map (Some \<circ> hr_cursor) (es_records s) = map Some (cursors_from first (length (es_records s)))"
    using s(1) unfolding exported_def map_map [symmetric] by (simp only:)
  have previous: "map (sc_previous_source_cursor \<circ> item_checkpoint) batch = map hr_previous_cursor (es_records s)"
    using arg_cong [OF s(4), of "map sc_previous_source_cursor"] by (simp add: comp_def)
  have "list_all (\<lambda>c. sc_source_generation c = g) (map item_checkpoint batch)"
    unfolding s(4) using s(1) by (auto simp: exported_def list_all_iff)
  moreover have "unat (es_next_cursor s) < 2 ^ 64" using unsigned_less [of "es_next_cursor s", where 'a = nat] by simp
  ultimately show ?thesis
    using s(1-3) r by (intro exI [of _ tree] exI [of _ records])
      (auto simp: exported_def list_all_iff len cursors previous some)
qed

subsection \<open>What of a log record is read\<close>

text \<open>The entries that can matter: all but those whose key is a text that is not owned.\<close>

definition foreign_attribute :: "attribute_value \<Rightarrow> bool" where
  "foreign_attribute a \<longleftrightarrow> (case and_then (value_get a ''key'') as_str of
       None \<Rightarrow> False | Some key \<Rightarrow> \<not> is_owned_otlp_attribute key)"

definition owned_view :: "attribute_value \<Rightarrow> attribute_value list option" where
  "owned_view record = map_option (filter (\<lambda>a. \<not> foreign_attribute a)) (and_then (value_get record ''attributes'') as_array)"

lemma otlp_attribute_foreign: "foreign_attribute a \<Longrightarrow> otlp_attribute attributes a = Inr attributes"
  by (auto simp: foreign_attribute_def otlp_attribute_def split: option.splits)

lemma otlp_attributes_owned:
  "otlp_attributes record = bind_result (ok_or (owned_view record) InvalidJson) (try_fold otlp_attribute [])"
proof -
  have "try_fold otlp_attribute s (filter (\<lambda>a. \<not> foreign_attribute a) vs) = try_fold otlp_attribute s vs" for s vs
    by (induction vs arbitrary: s) (auto simp: otlp_attribute_foreign bind_result_def split: sum.split)
  then show ?thesis
    by (cases "and_then (value_get record ''attributes'') as_array") (simp_all add: otlp_attributes_def owned_view_def)
qed

subsection \<open>A sample export\<close>

definition sample_attribute :: "string \<Rightarrow> string \<Rightarrow> attribute_value" where
  "sample_attribute key v = VObject [(''key'', VString key), (''value'', VObject [(''stringValue'', VString v)])]"

definition sample_log :: attribute_value where
  "sample_log = VObject [(''attributes'', VArray [sample_attribute ''event.name'' ''codex.conversation_starts'',
     sample_attribute ''conversation.id'' ''c''])]"

definition sample_export :: attribute_value where
  "sample_export = VObject [(''resourceLogs'', VArray [VObject [(''scopeLogs'', VArray [VObject
     [(''logRecords'', VArray [sample_log])]])]])]"

definition exported_record :: "source_surface handoff_record" where
  "exported_record = sample_session\<lparr>hr_received_at_unix_ms := 9\<rparr>"

definition sample_print :: "source_surface handoff_record \<Rightarrow> string option" where
  "sample_print r = (if r = exported_record then Some ''r'' else None)"

lemma sample_log_record:
  "otlp_log_record sample_digest ''g'' 9 \<lparr>es_records = [], es_next_cursor = 1, es_prior = None\<rparr> sample_log =
     Inr \<lparr>es_records = [exported_record], es_next_cursor = 2, es_prior = Some ''1''\<rparr>"
proof -
  have any: "otlp_any_value (VObject [(''stringValue'', VString v)]) = Some (VString v)" for v
    by (simp add: otlp_any_value_def and_then_def)
  have attributes: "otlp_attributes sample_log = Inr [(''conversation.id'', VString ''c''), (''event.name'', VString ''codex.conversation_starts'')]"
    by (simp add: otlp_attributes_def sample_log_def sample_attribute_def and_then_def otlp_attribute_def any
      is_owned_otlp_attribute_def OWNED_OTLP_ATTRIBUTES_def)
  have canonical: "canonical_otlp_attributes ''codex.conversation_starts''
      [(''conversation.id'', VString ''c''), (''event.name'', VString ''codex.conversation_starts'')] =
      Inr [(''conversation_id'', VString ''c'')]"
    by (simp add: canonical_otlp_attributes_def copy_string_def copy_u64_def bt_get_def canonical_success_def
      success_signals_def try_option_def present_def)
  have time: "otlp_observed_time_unix_nanos sample_log = Inr None"
    by (simp add: otlp_observed_time_unix_nanos_def observed_time_at_def sample_log_def)
  have decimal: "decimal (Suc 0) = ''1''" by code_simp
  have plus: "checked_add (1 :: u64) 1 = Some 2" by (simp add: checked_add_def)
  show ?thesis
    by (simp add: otlp_log_record_def attributes canonical time project_websocket_replay_identity_def bt_get_def decimal
      plus exported_record_def sample_session_def HANDOFF_SCHEMA_VERSION_def MAX_OTLP_LOG_RECORDS_def Let_def)
qed

lemma sample_json_lines: "json_lines sample_print (\<lambda>_. Some exported_record)"
proof -
  have "\<not> blank_line ''r''" by code_simp
  then show ?thesis by (auto simp: json_lines_def sample_print_def one_line_def split: if_splits)
qed

lemma sample_correlated:
  "correlate_otlp_request_pairs sample_digest ''g'' 9 ([exported_record], correlation_state_default) =
     Inr ([exported_record], correlation_state_default)"
proof -
  have "expire 9 correlation_state_default = correlation_state_default" "finish_batch correlation_state_default = correlation_state_default"
    by (simp_all add: expire_def finish_batch_def correlation_state_default_def)
  then show ?thesis
    by (simp add: correlate_otlp_request_pairs_def correlate_record_def is_completed_def is_request_start_def
      exported_record_def sample_session_def Let_def)
qed

lemma sample_export_parsed:
  "\<exists>batch. parse_handoff_jsonl sample_digest (\<lambda>_. Some []) (\<lambda>_. Some exported_record) (''r'' @ [CHR 0x0A]) = Inr batch"
proof -
  have lines: "lines_of (''r'' @ [CHR 0x0A]) = [''r'']" by code_simp
  have records: "numbered_records (\<lambda>_. Some exported_record) 0 (lines_of (''r'' @ [CHR 0x0A])) = [(1, exported_record)]"
    using sample_json_lines unfolding lines json_lines_def one_line_def by (simp add: sample_print_def)
  have "header_ok HANDOFF_SCHEMA_VERSION exported_record"
    by (simp add: header_ok_def exported_record_def sample_session_def HANDOFF_SCHEMA_VERSION_def short_bounded present_def)
  moreover have "mapped_ok (\<lambda>o1. all_safe (observation_state o1)) (map_record sample_digest exported_record i)" for i
    by (simp add: map_record_def observation_from_record_def session_observation_def required_string_def
      optional_string_def canonical_model_def bt_get_def build_observation_def span_and_parent_def parse_bounded frame_def
      sample_bounded short_bounded checked_sub_def timing_new_def exported_record_def sample_session_def mapped_ok_def
      all_safe_def observation_state_def usage_counts_def token_usage_default_def MAX_SAFE_def)
  moreover have "chained [record_checkpoint Codex exported_record]" by (simp add: chained_def)
  ultimately have "\<exists>s. try_fold (parse_record HANDOFF_SCHEMA_VERSION Codex (map_record sample_digest) (\<lambda>i. i) sample_digest (\<lambda>_. Some []))
      loop_start (numbered_records (\<lambda>_. Some exported_record) 0 (lines_of (''r'' @ [CHR 0x0A]))) = Inr s"
    unfolding records by (subst codex.records_accepts) simp_all
  moreover have "lines_ok (\<lambda>_. Some exported_record) (lines_of (''r'' @ [CHR 0x0A]))"
    unfolding lines by (simp add: lines_ok_def MAX_HANDOFF_LINE_BYTES_def)
  moreover have "length (''r'' @ [CHR 0x0A]) \<le> MAX_HANDOFF_BYTES" "length (lines_of (''r'' @ [CHR 0x0A])) \<le> MAX_HANDOFF_LINES"
    unfolding lines by (simp_all add: MAX_HANDOFF_BYTES_def MAX_HANDOFF_LINES_def)
  ultimately show ?thesis unfolding parse_handoff_jsonl_def parse_jsonl_eq by blast
qed

lemma sample_export_accepted:
  "\<exists>batch. parse_otlp_http_json_with_state sample_digest (\<lambda>_. Some []) (\<lambda>_. Some sample_export) sample_print
     (\<lambda>_. Some exported_record) ''i'' ''g'' None 1 9 correlation_state_default =
     (Inr (batch, Some ''1''), correlation_state_default)"
proof -
  have records: "export_records sample_digest ''g'' None 1 9 sample_export =
      Inr \<lparr>es_records = [exported_record], es_next_cursor = 2, es_prior = Some ''1''\<rparr>"
    using sample_log_record
    by (simp add: export_records_def sample_export_def and_then_def otlp_resource_def otlp_scope_def)
  have printed: "print_records sample_print [exported_record] = Inr (''r'' @ [CHR 0x0A])"
    by (simp add: print_records_def sample_print_def)
  obtain batch where batch: "parse_handoff_jsonl sample_digest (\<lambda>_. Some []) (\<lambda>_. Some exported_record) (''r'' @ [CHR 0x0A]) = Inr batch"
    using sample_export_parsed by blast
  show ?thesis
    unfolding parse_otlp_http_json_with_state_def
    by (simp add: records sample_correlated printed [simplified] batch [simplified] MAX_HANDOFF_BYTES_def)
qed

subsection \<open>The promises\<close>

text \<open>C32: an accepted export becomes exactly one item per log record that names an event, in the order
  of the export; a log record without an event name is skipped and no other is dropped.  Each item
  is what the mapping makes of the record's event name, time and owned attributes, up to the request
  identifier that the correlation settles.  The items have consecutive cursors from the first one,
  none of which wraps around; each names the cursor before it, the first one the previous cursor;
  the returned cursor is the last one used, or the previous cursor when there is none; and the
  correlation state is within its bounds again.
\<close>

theorem otlp_export:
  assumes "json_lines print decode" and "batch_ok state"
    and "parse_otlp_http_json_with_state sha encode decode_value print decode input g previous first fallback state =
      (Inr (batch, prior), state')"
  shows "\<exists>tree records. decode_value input = Some tree \<and>
    list_all2 (exported_from g fallback) (filter (\<lambda>l. event_name_of l \<noteq> None) (export_logs tree)) records \<and>
    list_all2 (\<lambda>r item. comes_from (map_record sha r 0) item) records batch \<and>
    length batch \<le> MAX_OTLP_LOG_RECORDS \<and> unat first + length batch < 2 ^ 64 \<and>
    map (sc_source_cursor \<circ> item_checkpoint) batch = cursors_from first (length batch) \<and>
    map (sc_previous_source_cursor \<circ> item_checkpoint) batch @ [prior] =
      previous # map Some (cursors_from first (length batch)) \<and>
    list_all (\<lambda>item. sc_source_generation (item_checkpoint item) = g) batch \<and> batch_ok state'"
  using assms by (rule otlp_export_aux)

theorem otlp_export_witness:
  "\<exists>batch. parse_otlp_http_json_with_state sample_digest (\<lambda>_. Some []) (\<lambda>_. Some sample_export) sample_print
     (\<lambda>_. Some exported_record) ''i'' ''g'' None 1 9 correlation_state_default =
     (Inr (batch, Some ''1''), correlation_state_default) \<and>
     length batch = 1 \<and> map (sc_source_cursor \<circ> item_checkpoint) batch = [''1'']"
proof -
  obtain batch where run: "parse_otlp_http_json_with_state sample_digest (\<lambda>_. Some []) (\<lambda>_. Some sample_export) sample_print
     (\<lambda>_. Some exported_record) ''i'' ''g'' None 1 9 correlation_state_default =
     (Inr (batch, Some ''1''), correlation_state_default)"
    using sample_export_accepted by blast
  have "export_logs sample_export = [sample_log]"
    by (simp add: export_logs_def sample_export_def array_at_def and_then_def)
  moreover have "event_name_of sample_log = Some ''codex.conversation_starts''"
    by (simp add: event_name_of_def sample_log_def array_at_def named_attributes_def sample_attribute_def
      and_then_def otlp_any_value_def)
  ultimately have logs: "length (filter (\<lambda>l. event_name_of l \<noteq> None) (export_logs sample_export)) = 1" by simp
  have decimal: "decimal (Suc 0) = ''1''" by code_simp
  obtain records where
    "list_all2 (exported_from ''g'' 9) (filter (\<lambda>l. event_name_of l \<noteq> None) (export_logs sample_export)) records"
    "list_all2 (\<lambda>r item. comes_from (map_record sample_digest r 0) item) records batch"
    "map (sc_source_cursor \<circ> item_checkpoint) batch = cursors_from 1 (length batch)"
    using otlp_export [OF sample_json_lines start_ok(1) run] unfolding Option.option.inject by blast
  then have "length batch = 1 \<and> map (sc_source_cursor \<circ> item_checkpoint) batch = cursors_from 1 (length batch)"
    using logs by (metis list_all2_lengthD)
  then show ?thesis using run decimal by (auto simp: cursors_from_def)
qed

text \<open>Nothing of a log record is read but its two times and its owned attributes: not its body, where
  a prompt would be, and no attribute whose key is not in the list.
\<close>

lemma otlp_content_free:
  assumes "owned_view r = owned_view r'" and "value_get r ''timeUnixNano'' = value_get r' ''timeUnixNano''"
    and "value_get r ''observedTimeUnixNano'' = value_get r' ''observedTimeUnixNano''"
  shows "otlp_log_record sha g fallback s r = otlp_log_record sha g fallback s r'"
proof -
  have "otlp_attributes r = otlp_attributes r'" by (simp only: otlp_attributes_owned assms(1))
  moreover have "otlp_observed_time_unix_nanos r = otlp_observed_time_unix_nanos r'"
    unfolding otlp_observed_time_unix_nanos_def observed_time_at_def assms(2,3) ..
  ultimately show ?thesis unfolding otlp_log_record_def by (simp only:)
qed

end
