(* ===== verification/Codex_Notify.thy ===== *)
theory Codex_Notify
  imports Codex_Otlp_Laws
begin

section \<open>The Codex adapter: notify calls\<close>

text \<open>
  The notify part of \<^verbatim>\<open>crates/adapter-codex/src/lib.rs\<close>: the raw argument of a finished turn is split
  into a projection that may be sent and a private detail that stays on the machine; the collector maps
  the projection to one observation.  The JSON decoders and printers are parameters; a decoder tells
  malformed JSON from data of the wrong shape.
\<close>

definition PROJECTED_NOTIFY_SCHEMA_VERSION :: string where
  "PROJECTED_NOTIFY_SCHEMA_VERSION = ''codex_projected_notify.v2''"

definition LEGACY_PROJECTED_NOTIFY_SCHEMA_VERSION :: string where
  "LEGACY_PROJECTED_NOTIFY_SCHEMA_VERSION = ''codex_projected_notify.v1''"

definition MAX_PROJECTED_NOTIFY_BYTES :: nat where
  "MAX_PROJECTED_NOTIFY_BYTES = MAX_IDENTIFIER_BYTES * 3 + 320"

definition MAX_PRIVATE_TURN_DETAIL_BYTES :: nat where
  "MAX_PRIVATE_TURN_DETAIL_BYTES = MAX_HANDOFF_LINE_BYTES"

definition PRIVATE_TURN_DETAIL_SCHEMA_VERSION :: string where
  "PRIVATE_TURN_DETAIL_SCHEMA_VERSION = ''agent_observability.private_turn_detail.v1''"

record raw_notify =
  rn_event_name :: string
  rn_thread_id :: string
  rn_turn_id :: string
  rn_cwd :: string
  rn_input_messages :: "string list"
  rn_last_assistant_message :: "string option"

record projected_notify =
  pn_schema_version :: string
  pn_event_name :: string
  pn_thread_id :: string
  pn_turn_id :: string
  pn_project_name :: string

record legacy_notify =
  ln_schema_version :: string
  ln_event_name :: string
  ln_thread_id :: string
  ln_turn_id :: string

record private_turn_detail =
  pd_schema_version :: string
  pd_turn_id :: string
  pd_cwd :: string
  pd_input_messages :: "string list"
  pd_last_assistant_message :: "string option"

datatype json_failure = DataFailure | OtherFailure

fun json_error :: "json_failure \<Rightarrow> adapter_error" where
  "json_error DataFailure = InvalidSchema"
| "json_error OtherFailure = InvalidJson"

definition map_err :: "('e \<Rightarrow> 'f) \<Rightarrow> 'e + 'a \<Rightarrow> 'f + 'a" where
  "map_err f r = (case r of Inl e \<Rightarrow> Inl (f e) | Inr a \<Rightarrow> Inr a)"

subsection \<open>The projection\<close>

definition projected_new :: "string \<Rightarrow> string \<Rightarrow> string \<Rightarrow> string \<Rightarrow> adapter_error + projected_notify" where
  "projected_new event_name thread_id turn_id project_name =
     (if event_name \<noteq> ''agent-turn-complete'' then Inl InvalidSchema
      else bind_result (parse_identifier thread_id) (\<lambda>_.
      bind_result (parse_identifier turn_id) (\<lambda>_.
      bind_result (validate_project_name project_name) (\<lambda>_.
      Inr \<lparr>pn_schema_version = PROJECTED_NOTIFY_SCHEMA_VERSION, pn_event_name = event_name,
        pn_thread_id = thread_id, pn_turn_id = turn_id, pn_project_name = project_name\<rparr>))))"

definition projected_validate :: "projected_notify \<Rightarrow> adapter_error + projected_notify" where
  "projected_validate p = (if pn_schema_version p \<noteq> PROJECTED_NOTIFY_SCHEMA_VERSION then Inl InvalidSchema
     else projected_new (pn_event_name p) (pn_thread_id p) (pn_turn_id p) (pn_project_name p))"

definition projected_to_json :: "(projected_notify \<Rightarrow> string option) \<Rightarrow> projected_notify \<Rightarrow> adapter_error + string" where
  "projected_to_json print p = bind_result (ok_or (print p) InvalidJson) (\<lambda>encoded.
     if length encoded > MAX_PROJECTED_NOTIFY_BYTES then Inl RecordTooLarge else Inr encoded)"

definition legacy_validate :: "legacy_notify \<Rightarrow> adapter_error + legacy_notify" where
  "legacy_validate l =
     (if ln_schema_version l \<noteq> LEGACY_PROJECTED_NOTIFY_SCHEMA_VERSION \<or> ln_event_name l \<noteq> ''agent-turn-complete''
      then Inl InvalidSchema
      else bind_result (parse_identifier (ln_thread_id l)) (\<lambda>_.
      bind_result (parse_identifier (ln_turn_id l)) (\<lambda>_. Inr l)))"

definition project_name_from_cwd :: "digest \<Rightarrow> string \<Rightarrow> adapter_error + string" where
  "project_name_from_cwd sha cwd = (if cwd = [] then Inl InvalidSchema
     else let project = hash_opaque_identifier sha cwd
          in bind_result (validate_project_name project) (\<lambda>_. Inr project))"

subsection \<open>The private detail\<close>

definition is_hashed_turn_id :: "string \<Rightarrow> bool" where
  "is_hashed_turn_id value = (case strip_prefix ''id:sha256:'' value of
       None \<Rightarrow> False
     | Some digest \<Rightarrow> length digest = 64 \<and>
         list_all (\<lambda>c. is_ascii_hexdigit c \<and> \<not> (65 \<le> byte_of c \<and> byte_of c \<le> 90)) digest)"

definition detail_validate :: "(private_turn_detail \<Rightarrow> string option) \<Rightarrow> private_turn_detail \<Rightarrow> adapter_error + unit" where
  "detail_validate print d =
     (if pd_schema_version d \<noteq> PRIVATE_TURN_DETAIL_SCHEMA_VERSION \<or> \<not> is_hashed_turn_id (pd_turn_id d) \<or> pd_cwd d = []
      then Inl InvalidSchema
      else bind_result (ok_or (print d) InvalidJson) (\<lambda>encoded.
      if length encoded > MAX_PRIVATE_TURN_DETAIL_BYTES then Inl RecordTooLarge else Inr ()))"

definition detail_new ::
  "digest \<Rightarrow> (private_turn_detail \<Rightarrow> string option) \<Rightarrow> raw_notify \<Rightarrow>
   adapter_error + projected_notify \<times> private_turn_detail" where
  "detail_new sha print payload =
     bind_result (project_name_from_cwd sha (rn_cwd payload)) (\<lambda>project_name.
     bind_result (projected_new (rn_event_name payload) (rn_thread_id payload) (rn_turn_id payload) project_name) (\<lambda>projected.
     let detail = \<lparr>pd_schema_version = PRIVATE_TURN_DETAIL_SCHEMA_VERSION,
           pd_turn_id = hash_opaque_identifier sha (rn_turn_id payload), pd_cwd = rn_cwd payload,
           pd_input_messages = rn_input_messages payload,
           pd_last_assistant_message = rn_last_assistant_message payload\<rparr>
     in bind_result (detail_validate print detail) (\<lambda>_. Inr (projected, detail))))"

definition matches_projected_turn :: "digest \<Rightarrow> private_turn_detail \<Rightarrow> projected_notify \<Rightarrow> bool" where
  "matches_projected_turn sha d p \<longleftrightarrow> pd_turn_id d = hash_opaque_identifier sha (pn_turn_id p)"

definition detail_to_json :: "(private_turn_detail \<Rightarrow> string option) \<Rightarrow> private_turn_detail \<Rightarrow> adapter_error + string" where
  "detail_to_json print d = bind_result (detail_validate print d) (\<lambda>_. ok_or (print d) InvalidJson)"

definition detail_from_json ::
  "(private_turn_detail \<Rightarrow> string option) \<Rightarrow> (string \<Rightarrow> json_failure + private_turn_detail) \<Rightarrow> string \<Rightarrow>
   adapter_error + private_turn_detail" where
  "detail_from_json print decode input =
     (if length input > MAX_PRIVATE_TURN_DETAIL_BYTES then Inl RecordTooLarge
      else bind_result (map_err json_error (decode input)) (\<lambda>detail.
      bind_result (detail_validate print detail) (\<lambda>_. Inr detail)))"

subsection \<open>The raw argument\<close>

definition parse_raw_notify :: "(string \<Rightarrow> json_failure + raw_notify) \<Rightarrow> string \<Rightarrow> adapter_error + raw_notify" where
  "parse_raw_notify decode input =
     (if length input > MAX_HANDOFF_LINE_BYTES then Inl RecordTooLarge else map_err json_error (decode input))"

definition project_notify_json ::
  "digest \<Rightarrow> (projected_notify \<Rightarrow> string option) \<Rightarrow> (string \<Rightarrow> json_failure + raw_notify) \<Rightarrow> string \<Rightarrow>
   adapter_error + projected_notify" where
  "project_notify_json sha print decode input =
     bind_result (parse_raw_notify decode input) (\<lambda>payload.
     bind_result (project_name_from_cwd sha (rn_cwd payload)) (\<lambda>project_name.
     bind_result (projected_new (rn_event_name payload) (rn_thread_id payload) (rn_turn_id payload) project_name) (\<lambda>projected.
     bind_result (projected_to_json print projected) (\<lambda>_. Inr projected))))"

definition project_notify_with_private_detail ::
  "digest \<Rightarrow> (projected_notify \<Rightarrow> string option) \<Rightarrow> (private_turn_detail \<Rightarrow> string option) \<Rightarrow>
   (string \<Rightarrow> json_failure + raw_notify) \<Rightarrow> string \<Rightarrow> adapter_error + projected_notify \<times> private_turn_detail" where
  "project_notify_with_private_detail sha print print_detail decode input =
     bind_result (parse_raw_notify decode input) (\<lambda>payload.
     bind_result (detail_new sha print_detail payload) (\<lambda>(projected, detail).
     bind_result (projected_to_json print projected) (\<lambda>_. Inr (projected, detail))))"

subsection \<open>The projection is mapped\<close>

text \<open>\<^verbatim>\<open>serde_json::from_value\<close> for a struct of texts that denies unknown fields.\<close>

definition text_fields :: "string list \<Rightarrow> attribute_value \<Rightarrow> string list option" where
  "text_fields names value = (case value of
       VObject entries \<Rightarrow>
         if list_all (\<lambda>(k, _). k \<in> set names) entries
         then (let texts = map (\<lambda>n. and_then (map_of entries n) as_str) names
               in if None \<in> set texts then None else Some (present texts))
         else None
     | _ \<Rightarrow> None)"

definition projected_from_value :: "attribute_value \<Rightarrow> projected_notify option" where
  "projected_from_value value =
     (case text_fields [''schema_version'', ''event_name'', ''thread_id'', ''turn_id'', ''project_name''] value of
        Some [version, event, thread, turn, project] \<Rightarrow> Some \<lparr>pn_schema_version = version, pn_event_name = event,
          pn_thread_id = thread, pn_turn_id = turn, pn_project_name = project\<rparr>
      | _ \<Rightarrow> None)"

definition legacy_from_value :: "attribute_value \<Rightarrow> legacy_notify option" where
  "legacy_from_value value =
     (case text_fields [''schema_version'', ''event_name'', ''thread_id'', ''turn_id''] value of
        Some [version, event, thread, turn] \<Rightarrow> Some \<lparr>ln_schema_version = version, ln_event_name = event,
          ln_thread_id = thread, ln_turn_id = turn\<rparr>
      | _ \<Rightarrow> None)"

definition notify_parts ::
  "attribute_value \<Rightarrow> adapter_error + string \<times> string \<times> string \<times> string option" where
  "notify_parts header =
     bind_result (ok_or (and_then (value_get header ''schema_version'') as_str) InvalidSchema) (\<lambda>version.
     if version = PROJECTED_NOTIFY_SCHEMA_VERSION then
       bind_result (ok_or (projected_from_value header) InvalidSchema) (\<lambda>decoded.
       bind_result (projected_validate decoded) (\<lambda>payload.
       Inr (pn_event_name payload, pn_thread_id payload, pn_turn_id payload, Some (pn_project_name payload))))
     else if version = LEGACY_PROJECTED_NOTIFY_SCHEMA_VERSION then
       bind_result (ok_or (legacy_from_value header) InvalidSchema) (\<lambda>decoded.
       bind_result (legacy_validate decoded) (\<lambda>payload.
       Inr (ln_event_name payload, ln_thread_id payload, ln_turn_id payload, None)))
     else Inl InvalidSchema)"

definition notify_record ::
  "string \<Rightarrow> string option \<Rightarrow> u64 \<Rightarrow> u64 \<Rightarrow> string \<times> string \<times> string \<times> string option \<Rightarrow>
   source_surface handoff_record" where
  "notify_record source_generation previous_cursor cursor received parts = (case parts of (event_name, thread_id, turn_id, project_name) \<Rightarrow>
     let a1 = bt_insert ''thread_id'' (VString thread_id) [];
         a2 = bt_insert ''turn_id'' (VString turn_id) a1;
         a3 = (case project_name of Some p \<Rightarrow> bt_insert ''project_name'' (VString p) a2 | None \<Rightarrow> a2)
     in \<lparr>hr_schema_version = HANDOFF_SCHEMA_VERSION, hr_source_generation = source_generation,
         hr_previous_cursor = previous_cursor, hr_cursor = decimal (unat cursor), hr_surface = Notify,
         hr_received_at_unix_ms = received, hr_event_name = event_name, hr_attributes = a3\<rparr>)"

definition parse_projected_notify_json ::
  "digest \<Rightarrow> (durable_record \<Rightarrow> string option) \<Rightarrow> (string \<Rightarrow> json_failure + attribute_value) \<Rightarrow>
   (source_surface handoff_record \<Rightarrow> string option) \<Rightarrow> (string \<Rightarrow> source_surface handoff_record option) \<Rightarrow>
   string \<Rightarrow> string \<Rightarrow> string option \<Rightarrow> u64 \<Rightarrow> u64 \<Rightarrow> adapter_error + adapter_batch" where
  "parse_projected_notify_json sha encode decode_value print decode input source_generation previous_cursor cursor received =
     (if length input > MAX_PROJECTED_NOTIFY_BYTES then Inl RecordTooLarge
      else bind_result (map_err json_error (decode_value input)) (\<lambda>header.
      bind_result (notify_parts header) (\<lambda>parts.
      bind_result (ok_or (print (notify_record source_generation previous_cursor cursor received parts)) InvalidJson) (\<lambda>json.
      parse_handoff_jsonl sha encode decode json))))"

subsection \<open>A projection\<close>

lemma projected_new_eq [simp]:
  "projected_new event_name thread turn project = Inr p \<longleftrightarrow> event_name = ''agent-turn-complete'' \<and> bounded_id thread \<and>
     bounded_id turn \<and> project \<noteq> [] \<and> length project \<le> MAX_IDENTIFIER_BYTES \<and>
     p = \<lparr>pn_schema_version = PROJECTED_NOTIFY_SCHEMA_VERSION, pn_event_name = event_name, pn_thread_id = thread,
       pn_turn_id = turn, pn_project_name = project\<rparr>"
  by (auto simp: projected_new_def bind_result_eq_Inr validate_project_name_def)

text \<open>Any bounded text is a valid project reference, also one that is not a digest.\<close>

lemma projected_validate_eq:
  "projected_validate p = Inr q \<longleftrightarrow> q = p \<and> pn_schema_version p = PROJECTED_NOTIFY_SCHEMA_VERSION \<and>
     pn_event_name p = ''agent-turn-complete'' \<and> bounded_id (pn_thread_id p) \<and> bounded_id (pn_turn_id p) \<and>
     bounded_id (pn_project_name p)"
  by (cases p) (auto simp: projected_validate_def bounded_id_def)

lemma project_name_eq [simp]:
  "project_name_from_cwd sha cwd = Inr project \<longleftrightarrow> cwd \<noteq> [] \<and> project = hash_opaque_identifier sha cwd \<and> bounded_id project"
  by (auto simp: project_name_from_cwd_def bind_result_eq_Inr validate_project_name_def Let_def bounded_id_def)

lemma projected_ok:
  assumes "project_notify_json sha print decode input = Inr p"
  shows "projected_validate p = Inr p \<and> (\<exists>payload. decode input = Inr payload \<and> rn_cwd payload \<noteq> [] \<and>
    p = \<lparr>pn_schema_version = PROJECTED_NOTIFY_SCHEMA_VERSION, pn_event_name = rn_event_name payload,
      pn_thread_id = rn_thread_id payload, pn_turn_id = rn_turn_id payload,
      pn_project_name = hash_opaque_identifier sha (rn_cwd payload)\<rparr>)"
  using assms
  by (auto simp: project_notify_json_def parse_raw_notify_def bind_result_eq_Inr projected_validate_eq map_err_def
    bounded_id_def split: sum.splits if_splits)

text \<open>The JSON object of a projection.\<close>

definition projected_value :: "projected_notify \<Rightarrow> attribute_value" where
  "projected_value p = VObject [(''schema_version'', VString (pn_schema_version p)),
     (''event_name'', VString (pn_event_name p)), (''thread_id'', VString (pn_thread_id p)),
     (''turn_id'', VString (pn_turn_id p)), (''project_name'', VString (pn_project_name p))]"

lemma notify_parts_projected:
  assumes "projected_validate p = Inr p"
  shows "notify_parts (projected_value p) = Inr (pn_event_name p, pn_thread_id p, pn_turn_id p, Some (pn_project_name p))"
proof -
  have "projected_from_value (projected_value p) = Some p"
    by (simp add: projected_from_value_def text_fields_def projected_value_def and_then_def present_def)
  moreover have "pn_schema_version p = PROJECTED_NOTIFY_SCHEMA_VERSION" using assms by (simp add: projected_validate_eq)
  ultimately show ?thesis
    using assms by (simp add: notify_parts_def) (simp add: projected_value_def and_then_def)
qed

lemma one_line_records:
  assumes "json_lines print decode" and "print r = Some l"
  shows "lines_of l = [l]" and "numbered_records decode 0 (lines_of l) = [(1, r)]"
proof -
  have l: "one_line l" "decode l = Some r" using assms by (auto simp: json_lines_def)
  have "blank_line []" by code_simp
  then have "l \<noteq> []" using l(1) by (auto simp: one_line_def)
  have split: "CHR 0x0A \<notin> set m \<Longrightarrow> split_inclusive cur m = (if cur = [] \<and> m = [] then [] else [rev cur @ m])" for cur m
    by (induction m arbitrary: cur) auto
  have "last l \<noteq> CHR 0x0A" using l(1) \<open>l \<noteq> []\<close> unfolding one_line_def by (metis last_in_set)
  then have "strip_line l = l"
    using l(1) \<open>l \<noteq> []\<close> by (simp add: one_line_def strip_line_def strip_suffix_def)
  then show "lines_of l = [l]" using l(1) \<open>l \<noteq> []\<close> split [of l "[]"] by (simp add: lines_of_def one_line_def)
  then show "numbered_records decode 0 (lines_of l) = [(1, r)]" using l by (simp add: one_line_def)
qed

lemma bounded_decimal: "bounded_id (decimal (unat (n :: u64)))"
proof -
  have "unat n < 10 ^ 20" using unsigned_less [of n, where 'a = nat] by simp
  then have "length (decimal (unat n)) \<le> 20" by (rule decimal_length) simp
  moreover have "decimal (unat n) \<noteq> []" by (simp add: decimal.simps)
  ultimately show ?thesis by (simp add: bounded_id_def MAX_IDENTIFIER_BYTES_def)
qed

lemma stable_bounded:
  "length (sha (frame cs)) = 32 \<Longrightarrow> length prefix \<le> 100 \<Longrightarrow> bounded_id (stable_id sha prefix cs)"
  by (simp add: bounded_id_def stable_id_def MAX_IDENTIFIER_BYTES_def length_hex)

lemma notify_observation:
  assumes sha: "\<And>v. length (sha v) = 32" and g: "bounded_id g" and previous: "list_all bounded_id (present [previous])"
    and thread: "bounded_id thread" and turn: "bounded_id turn" and project: "list_all bounded_id (present [project])"
  shows "\<exists>o1. map_record sha (notify_record g previous cursor received (''agent-turn-complete'', thread, turn, project)) i =
      Inr (MappedObservation o1) \<and>
    c_session_id (so_correlation o1) = Some thread \<and> c_turn_id (so_correlation o1) = Some turn \<and>
    so_lifecycle o1 = Completed \<and> so_timing o1 = \<lparr>start_unix_ms = received, end_unix_ms = Some received\<rparr> \<and>
    so_token_usage o1 = token_usage_default \<and>
    so_event o1 = (case project of Some p \<Rightarrow> TurnWithProjectEvent p | None \<Rightarrow> TurnEvent)"
proof -
  let ?r = "notify_record g previous cursor received (''agent-turn-complete'', thread, turn, project)"
  have getters: "required_string (hr_attributes ?r) ''thread_id'' = Inr thread" "required_string (hr_attributes ?r) ''turn_id'' = Inr turn"
    "optional_string (hr_attributes ?r) ''project_name'' = Inr project"
    using thread turn project
    by (auto simp: notify_record_def Let_def required_string_def optional_string_def bt_get_def bounded_id_def present_def
      split: option.split)
  have name: "(case project of None \<Rightarrow> Inr () | Some p \<Rightarrow> validate_project_name p) = Inr ()"
    using project by (cases project) (simp_all add: validate_project_name_def bounded_id_def present_def)
  have fields: "hr_surface ?r = Notify" "hr_event_name ?r = ''agent-turn-complete''" "hr_received_at_unix_ms ?r = received"
    "hr_source_generation ?r = g" "hr_cursor ?r = decimal (unat cursor)" "hr_previous_cursor ?r = previous"
    by (simp_all add: notify_record_def Let_def)
  have previous: "try_option parse_identifier previous = Inr previous"
    using previous by (simp add: present_def split: option.splits)
  show ?thesis
    unfolding map_record_def observation_from_record_def turn_observation_def Let_def fields getters
    using name by (simp add: parse_bounded thread turn build_observation_def fields span_and_parent_def Let_def
      stable_bounded sha g previous bounded_decimal checked_sub_def timing_new_def correlation_default_def)
qed

lemma single_observation:
  assumes "map_record sha r 1 = Inr (MappedObservation o1)" and header: "header_ok HANDOFF_SCHEMA_VERSION r"
    and cursor: "hr_cursor r \<noteq> []" and hash: "\<exists>h. canonical_observation_payload_hash sha encode o1 = Inr h"
    and line: "json_lines print decode" "print r = Some l" "length l \<le> MAX_HANDOFF_LINE_BYTES"
  shows "parse_handoff_jsonl sha encode decode l = Inr [Observation o1]"
proof -
  have checkpoint: "\<exists>c. checkpoint_from_record Codex r = Inr c"
    using header unfolding checkpoint_accepts header_ok_def by blast
  have raw: "validate_raw_cursor r [] = Inr ()"
    using header cursor by (auto simp: header_ok_def validate_raw_cursor_def Let_def bt_get_def)
  have "\<exists>s. parse_record HANDOFF_SCHEMA_VERSION Codex (map_record sha) (\<lambda>i. i) sha encode loop_start (1, r) = Inr s \<and>
      ls_items s = [Observation o1]"
    using checkpoint raw hash header
    by (auto simp: parse_record_def loop_start_def header_ok_def Let_def assms(1) [unfolded One_nat_def] record_mapping_def bt_get_def diagnosed_def)
  moreover have "lines_of l = [l]" "numbered_records decode 0 (lines_of l) = [(1, r)]"
    using one_line_records [OF line(1,2)] by simp_all
  ultimately show ?thesis
    using line by (auto simp: parse_handoff_jsonl_def parse_jsonl_eq lines_ok_def json_lines_def MAX_HANDOFF_BYTES_def
      MAX_HANDOFF_LINES_def MAX_HANDOFF_LINE_BYTES_def)
qed

subsection \<open>The promises\<close>

text \<open>C33: what the notify command projects, the collector maps.  The projection of a finished turn, sent
  as JSON and read back, becomes exactly one observation: the completed turn with its session, its
  turn identifier and the digest of the working directory, at the time it was received.
\<close>

theorem notify_roundtrip:
  assumes "project_notify_json sha print_notify decode_raw raw = Inr p"
    and "print_notify p = Some wire" and "decode_value wire = Inr (projected_value p)"
    and "json_lines print decode"
    and "print (notify_record g previous cursor received
          (''agent-turn-complete'', pn_thread_id p, pn_turn_id p, Some (pn_project_name p))) = Some l"
    and "length l \<le> MAX_HANDOFF_LINE_BYTES" and "\<forall>v. length (sha v) = 32" and "\<forall>r. encode r \<noteq> None"
    and "bounded_id g" and "list_all bounded_id (present [previous])" and "previous \<noteq> Some (decimal (unat cursor))"
    and "unat received \<le> MAX_SAFE"
  shows "\<exists>o1 payload. parse_projected_notify_json sha encode decode_value print decode wire g previous cursor received =
      Inr [Observation o1] \<and> decode_raw raw = Inr payload \<and>
    c_session_id (so_correlation o1) = Some (rn_thread_id payload) \<and>
    c_turn_id (so_correlation o1) = Some (rn_turn_id payload) \<and> so_lifecycle o1 = Completed \<and>
    so_event o1 = TurnWithProjectEvent (hash_opaque_identifier sha (rn_cwd payload)) \<and>
    so_timing o1 = \<lparr>start_unix_ms = received, end_unix_ms = Some received\<rparr>"
proof -
  let ?r = "notify_record g previous cursor received (''agent-turn-complete'', pn_thread_id p, pn_turn_id p, Some (pn_project_name p))"
  obtain payload where payload: "decode_raw raw = Inr payload" "pn_thread_id p = rn_thread_id payload"
    "pn_turn_id p = rn_turn_id payload" "pn_project_name p = hash_opaque_identifier sha (rn_cwd payload)"
    and valid: "projected_validate p = Inr p"
    using projected_ok [OF assms(1)] by auto
  have event: "pn_event_name p = ''agent-turn-complete''" and bounded: "bounded_id (pn_thread_id p)" "bounded_id (pn_turn_id p)"
    "bounded_id (pn_project_name p)" using valid by (simp_all add: projected_validate_eq)
  have wire: "length wire \<le> MAX_PROJECTED_NOTIFY_BYTES"
    using assms(1,2) by (auto simp: project_notify_json_def projected_to_json_def bind_result_eq_Inr split: if_splits)
  have sha: "length (sha v) = 32" for v using assms(7) by simp
  obtain o1 where o1: "map_record sha ?r 1 = Inr (MappedObservation o1)"
    "c_session_id (so_correlation o1) = Some (pn_thread_id p)" "c_turn_id (so_correlation o1) = Some (pn_turn_id p)"
    "so_lifecycle o1 = Completed" "so_timing o1 = \<lparr>start_unix_ms = received, end_unix_ms = Some received\<rparr>"
    "so_token_usage o1 = token_usage_default" "so_event o1 = TurnWithProjectEvent (pn_project_name p)"
    using notify_observation [of sha g previous "pn_thread_id p" "pn_turn_id p" "Some (pn_project_name p)" cursor received 1]
      sha assms(9,10) bounded by (auto simp: present_def)
  have header: "header_ok HANDOFF_SCHEMA_VERSION ?r" and cursor: "hr_cursor ?r \<noteq> []"
    using assms(9-11) bounded_decimal [of cursor]
    by (auto simp: notify_record_def Let_def header_ok_def bounded_id_def)
  have "all_safe (observation_state o1)"
    using assms(12) by (simp add: all_safe_def observation_state_def o1 usage_counts_def token_usage_default_def)
  moreover have "nonempty_texts o1 \<and> \<not> end_before_start (so_timing o1)"
    using codex_texts codex_map_emitted [OF o1(1)] by blast
  ultimately have "\<exists>h. canonical_observation_payload_hash sha encode o1 = Inr h"
    using payload_hash_defined [OF assms(8)] by blast
  from single_observation [OF o1(1) header cursor this assms(4-6)]
  have "parse_projected_notify_json sha encode decode_value print decode wire g previous cursor received = Inr [Observation o1]"
    using wire assms(3,5) notify_parts_projected [OF valid]
    by (simp add: parse_projected_notify_json_def map_err_def event)
  then show ?thesis using payload o1 by auto
qed

definition sample_payload :: raw_notify where
  "sample_payload = \<lparr>rn_event_name = ''agent-turn-complete'', rn_thread_id = ''t'', rn_turn_id = ''u'',
     rn_cwd = ''/w'', rn_input_messages = [''secret''], rn_last_assistant_message = None\<rparr>"

definition sample_projection :: projected_notify where
  "sample_projection = \<lparr>pn_schema_version = PROJECTED_NOTIFY_SCHEMA_VERSION, pn_event_name = ''agent-turn-complete'',
     pn_thread_id = ''t'', pn_turn_id = ''u'', pn_project_name = hash_opaque_identifier flat_digest ''/w''\<rparr>"

definition sample_notify :: "source_surface handoff_record" where
  "sample_notify = notify_record ''g'' (Some ''4'') 5 9
     (''agent-turn-complete'', ''t'', ''u'', Some (pn_project_name sample_projection))"

lemma sample_project_bounded: "bounded_id (hash_opaque_identifier flat_digest ''/w'')"
  by (simp add: hash_opaque_identifier_def flat_digest_def length_hex bounded_id_def MAX_IDENTIFIER_BYTES_def ID_PREFIX_def)

lemma sample_notify_projected:
  "project_notify_json flat_digest (\<lambda>_. Some ''w'') (\<lambda>_. Inr sample_payload) raw = Inr sample_projection"
  if "length raw \<le> MAX_HANDOFF_LINE_BYTES"
  using that sample_project_bounded
  by (simp add: project_notify_json_def parse_raw_notify_def map_err_def sample_payload_def sample_projection_def
    projected_to_json_def MAX_PROJECTED_NOTIFY_BYTES_def short_bounded bind_result_eq_Inr bounded_id_def
    MAX_IDENTIFIER_BYTES_def)

theorem notify_roundtrip_witness:
  "\<exists>o1. parse_projected_notify_json flat_digest (\<lambda>_. Some []) (\<lambda>_. Inr (projected_value sample_projection))
     (\<lambda>r. if r = sample_notify then Some ''r'' else None) (\<lambda>_. Some sample_notify) ''w'' ''g'' (Some ''4'') 5 9 =
       Inr [Observation o1] \<and> c_turn_id (so_correlation o1) = Some ''u''"
proof -
  have "\<not> blank_line ''r''" by code_simp
  then have json: "json_lines (\<lambda>r. if r = sample_notify then Some ''r'' else None) (\<lambda>_. Some sample_notify)"
    by (auto simp: json_lines_def one_line_def split: if_splits)
  have decimal: "decimal 5 = ''5''" by code_simp
  have raw: "length ([] :: string) \<le> MAX_HANDOFF_LINE_BYTES" by simp
  note run = notify_roundtrip [OF sample_notify_projected [OF raw] _ _ json, of "''w''" "\<lambda>_. Inr (projected_value sample_projection)" "''g''" "Some ''4''" 5 9
      "''r''" "\<lambda>_. Some []"]
  have fields: "pn_thread_id sample_projection = ''t''" "pn_turn_id sample_projection = ''u''"
    by (simp_all add: sample_projection_def)
  have printed: "notify_record ''g'' (Some ''4'') 5 9 (''agent-turn-complete'', pn_thread_id sample_projection,
      pn_turn_id sample_projection, Some (pn_project_name sample_projection)) = sample_notify"
    by (simp add: sample_notify_def fields)
  have "\<exists>o1 payload. parse_projected_notify_json flat_digest (\<lambda>_. Some []) (\<lambda>_. Inr (projected_value sample_projection))
      (\<lambda>r. if r = sample_notify then Some ''r'' else None) (\<lambda>_. Some sample_notify) ''w'' ''g'' (Some ''4'') 5 9 =
        Inr [Observation o1] \<and> Inr sample_payload = (Inr payload :: json_failure + raw_notify) \<and>
      c_session_id (so_correlation o1) = Some (rn_thread_id payload) \<and>
      c_turn_id (so_correlation o1) = Some (rn_turn_id payload) \<and> so_lifecycle o1 = Completed \<and>
      so_event o1 = TurnWithProjectEvent (hash_opaque_identifier flat_digest (rn_cwd payload)) \<and>
      so_timing o1 = \<lparr>start_unix_ms = 9, end_unix_ms = Some 9\<rparr>"
    by (rule run) (simp_all add: printed short_bounded present_def decimal MAX_HANDOFF_LINE_BYTES_def flat_digest_def MAX_SAFE_def)
  then show ?thesis by (auto simp: sample_payload_def)
qed

text \<open>Splitting a notify argument.  The projection is the one that \<^verbatim>\<open>project_notify_json\<close> alone gives;
  the private detail belongs to its turn, holds the content unchanged, and survives being written and
  read back.
\<close>

lemma notify_split:
  assumes "project_notify_with_private_detail sha print print_detail decode input = Inr (p, d)"
  shows "project_notify_json sha print decode input = Inr p \<and> matches_projected_turn sha d p \<and>
    (\<exists>payload. decode input = Inr payload \<and> pd_cwd d = rn_cwd payload \<and>
      pd_input_messages d = rn_input_messages payload \<and>
      pd_last_assistant_message d = rn_last_assistant_message payload) \<and>
    (\<exists>encoded. detail_to_json print_detail d = Inr encoded \<and>
      (\<forall>decode_detail. decode_detail encoded = Inr d \<longrightarrow> detail_from_json print_detail decode_detail encoded = Inr d))"
proof -
  obtain payload where payload: "parse_raw_notify decode input = Inr payload" "detail_new sha print_detail payload = Inr (p, d)"
    "\<exists>encoded. projected_to_json print p = Inr encoded"
    using assms by (auto simp: project_notify_with_private_detail_def bind_result_eq_Inr)
  have detail: "detail_validate print_detail d = Inr ()" "matches_projected_turn sha d p" "pd_cwd d = rn_cwd payload"
    "pd_input_messages d = rn_input_messages payload" "pd_last_assistant_message d = rn_last_assistant_message payload"
    using payload(2) by (auto simp: detail_new_def bind_result_eq_Inr Let_def matches_projected_turn_def)
  obtain encoded where encoded: "print_detail d = Some encoded" "length encoded \<le> MAX_PRIVATE_TURN_DETAIL_BYTES"
    using detail(1) by (auto simp: detail_validate_def bind_result_eq_Inr split: if_splits)
  have "project_notify_json sha print decode input = Inr p"
    using payload by (auto simp: project_notify_json_def detail_new_def bind_result_eq_Inr Let_def)
  moreover have "decode input = Inr payload"
    using payload(1) by (auto simp: parse_raw_notify_def map_err_def split: if_splits sum.splits)
  moreover have "detail_to_json print_detail d = Inr encoded" by (simp add: detail_to_json_def detail(1) encoded(1))
  moreover have "detail_from_json print_detail decode_detail encoded = Inr d" if "decode_detail encoded = Inr d" for decode_detail
    using that encoded(2) by (simp add: detail_from_json_def map_err_def detail(1))
  ultimately show ?thesis using detail(2-5) by blast
qed

end
