(* ===== verification/Config_Files.thy ===== *)
theory Config_Files
  imports Prelude
begin

section \<open>Codex configuration: files, faults and checked replacement\<close>

text \<open>
  The file layer of \<^verbatim>\<open>crates/codex-config/src/lib.rs\<close> (Unix variant).  An operation is a function
  from the machine to a result and the machine it leaves behind.  A machine is its file tree, the counter of
  temporary names and a schedule of faults: every system call ticks the clock and fails without effect when
  the schedule says so.  A schedule that is true from some tick on is a crash at that tick, since nothing
  written later reaches the tree.  Paths are lists of components; the tree maps whole paths to nodes, so
  symbolic links in the middle of a path are not followed.  Writers that ignore the lock are not modelled.
\<close>

unbundle bit_operations_syntax

subsection \<open>Paths\<close>

datatype path = Path (is_absolute: bool) (components: "string list")

fun parent :: "path \<Rightarrow> path option" where
  "parent (Path a cs) = (if cs = [] then None else Some (Path a (butlast cs)))"

fun path_file_name :: "path \<Rightarrow> string option" where
  "path_file_name (Path a cs) = (if cs = [] then None else Some (last cs))"

fun path_join :: "path \<Rightarrow> string \<Rightarrow> path" where
  "path_join (Path a cs) name = Path a (cs @ [name])"

fun set_file_name :: "path \<Rightarrow> string \<Rightarrow> path" where
  "set_file_name (Path a cs) name = Path a (butlast cs @ [name])"

fun separated :: "string list \<Rightarrow> string" where
  "separated [] = []"
| "separated [c] = c"
| "separated (c # cs) = c @ ''/'' @ separated cs"

definition path_identity :: "path \<Rightarrow> string" where
  "path_identity p = (if is_absolute p then ''/'' else []) @ separated (components p)"

subsection \<open>Machine\<close>

datatype io_kind = NotFound | AlreadyExists | OtherIo

datatype config_error =
    ConfigConflict
  | InsecurePermissions path
  | InvalidArgument string
  | InvalidSnapshot
  | InvalidToml
  | IoError io_kind
  | NonRegularFile path
  | TooLarge path
  | RollbackFailed
  | SymlinkRefused path
  | Panicked

datatype node =
    Regular string u32
  | Directory u32
  | Symlink
  | Special u32

type_synonym tree = "path \<Rightarrow> node option"

record machine =
  nodes :: tree
  faults :: "nat \<Rightarrow> bool"
  clock :: nat
  temp_sequence :: u64
  process_id :: nat

type_synonym 'a io = "machine \<Rightarrow> (config_error + 'a) \<times> machine"

definition io_return :: "'a \<Rightarrow> 'a io" where
  "io_return a d = (Inr a, d)"

definition io_fail :: "config_error \<Rightarrow> 'a io" where
  "io_fail e d = (Inl e, d)"

definition io_lift :: "config_error + 'a \<Rightarrow> 'a io" where
  "io_lift r d = (r, d)"

definition io_bind :: "'a io \<Rightarrow> ('a \<Rightarrow> 'b io) \<Rightarrow> 'b io" where
  "io_bind f g d = (case f d of (Inl e, d') \<Rightarrow> (Inl e, d') | (Inr a, d') \<Rightarrow> g a d')"

definition io_catch :: "'a io \<Rightarrow> (config_error \<Rightarrow> 'a io) \<Rightarrow> 'a io" where
  "io_catch f h d = (case f d of (Inl e, d') \<Rightarrow> h e d' | (Inr a, d') \<Rightarrow> (Inr a, d'))"

definition io_attempt :: "'a io \<Rightarrow> (config_error + 'a) io" where
  "io_attempt f d = (case f d of (r, d') \<Rightarrow> (Inr r, d'))"

definition syscall :: "(tree \<Rightarrow> io_kind + 'a \<times> tree) \<Rightarrow> 'a io" where
  "syscall f d =
     (let d' = d\<lparr>clock := Suc (clock d)\<rparr>
      in if faults d (clock d) then (Inl (IoError OtherIo), d')
         else case f (nodes d) of
                Inl k \<Rightarrow> (Inl (IoError k), d')
              | Inr (a, t) \<Rightarrow> (Inr a, d'\<lparr>nodes := t\<rparr>))"

subsection \<open>System calls\<close>

definition symlink_metadata :: "path \<Rightarrow> node option io" where
  "symlink_metadata p = syscall (\<lambda>t. Inr (t p, t))"

definition open_read_no_follow :: "path \<Rightarrow> node io" where
  "open_read_no_follow p = syscall (\<lambda>t. case t p of
       None \<Rightarrow> Inl NotFound
     | Some Symlink \<Rightarrow> Inl OtherIo
     | Some n \<Rightarrow> Inr (n, t))"

definition creatable :: "tree \<Rightarrow> path \<Rightarrow> io_kind + unit" where
  "creatable t p = (case parent p of
       None \<Rightarrow> Inl OtherIo
     | Some dir \<Rightarrow> (case t dir of
           None \<Rightarrow> Inl NotFound
         | Some (Directory _) \<Rightarrow> Inr ()
         | Some _ \<Rightarrow> Inl OtherIo))"

definition create_new :: "path \<Rightarrow> u32 \<Rightarrow> unit io" where
  "create_new p mode = syscall (\<lambda>t. bind_result (creatable t p) (\<lambda>_.
     if t p \<noteq> None then Inl AlreadyExists else Inr ((), t(p \<mapsto> Regular [] mode))))"

definition create_dir :: "path \<Rightarrow> u32 \<Rightarrow> unit io" where
  "create_dir p mode = syscall (\<lambda>t. if t p \<noteq> None then Inl AlreadyExists
     else bind_result (creatable t p) (\<lambda>_. Inr ((), t(p \<mapsto> Directory mode))))"

definition open_create :: "path \<Rightarrow> u32 \<Rightarrow> node io" where
  "open_create p mode = syscall (\<lambda>t. case t p of
       None \<Rightarrow> bind_result (creatable t p) (\<lambda>_. Inr (Regular [] mode, t(p \<mapsto> Regular [] mode)))
     | Some (Regular bytes m) \<Rightarrow> Inr (Regular bytes m, t)
     | Some (Special m) \<Rightarrow> Inr (Special m, t)
     | Some _ \<Rightarrow> Inl OtherIo)"

definition write_all :: "path \<Rightarrow> string \<Rightarrow> unit io" where
  "write_all p bytes = syscall (\<lambda>t. case t p of
       Some (Regular old m) \<Rightarrow> Inr ((), t(p \<mapsto> Regular bytes m))
     | _ \<Rightarrow> Inl OtherIo)"

definition set_mode :: "path \<Rightarrow> u32 \<Rightarrow> unit io" where
  "set_mode p mode = syscall (\<lambda>t. case t p of
       None \<Rightarrow> Inl NotFound
     | Some (Regular bytes m) \<Rightarrow> Inr ((), t(p \<mapsto> Regular bytes mode))
     | Some (Directory m) \<Rightarrow> Inr ((), t(p \<mapsto> Directory mode))
     | Some (Special m) \<Rightarrow> Inr ((), t(p \<mapsto> Special mode))
     | Some Symlink \<Rightarrow> Inl OtherIo)"

definition sync_all :: "unit io" where
  "sync_all = syscall (\<lambda>t. Inr ((), t))"

definition lock_file :: "unit io" where
  "lock_file = syscall (\<lambda>t. Inr ((), t))"

definition sync_dir :: "path \<Rightarrow> unit io" where
  "sync_dir p = io_bind (syscall (\<lambda>t. if t p = None then Inl NotFound else Inr ((), t))) (\<lambda>_. sync_all)"

definition rename :: "path \<Rightarrow> path \<Rightarrow> unit io" where
  "rename p q = syscall (\<lambda>t. case t p of
       None \<Rightarrow> Inl NotFound
     | Some n \<Rightarrow> (case t q of
           Some (Directory _) \<Rightarrow> Inl OtherIo
         | _ \<Rightarrow> Inr ((), (t(q \<mapsto> n))(p := None))))"

definition remove_file :: "path \<Rightarrow> unit io" where
  "remove_file p = syscall (\<lambda>t. case t p of
       None \<Rightarrow> Inl NotFound
     | Some (Directory _) \<Rightarrow> Inl OtherIo
     | Some _ \<Rightarrow> Inr ((), t(p := None)))"

definition read_to_end :: "nat \<Rightarrow> node \<Rightarrow> string io" where
  "read_to_end limit n = syscall (\<lambda>t. case n of
       Regular bytes m \<Rightarrow> Inr (take limit bytes, t)
     | _ \<Rightarrow> Inl OtherIo)"

subsection \<open>Private files\<close>

definition MAX_CONFIG_BYTES :: nat where
  "MAX_CONFIG_BYTES = 1024 * 1024"

definition MAX_SNAPSHOT_BYTES :: nat where
  "MAX_SNAPSHOT_BYTES = MAX_CONFIG_BYTES * 4 + 8192"

definition SNAPSHOT_FILE :: string where
  "SNAPSHOT_FILE = ''codex-config-ownership-v1.json''"

definition LOCK_FILE :: string where
  "LOCK_FILE = ''.codex-config-ownership.lock''"

record existing_file =
  ef_existed :: bool
  ef_bytes :: string
  ef_mode :: u32

definition existing_present :: "string \<Rightarrow> u32 \<Rightarrow> existing_file" where
  "existing_present bytes mode = \<lparr>ef_existed = True, ef_bytes = bytes, ef_mode = mode\<rparr>"

definition existing_missing :: existing_file where
  "existing_missing = \<lparr>ef_existed = False, ef_bytes = [], ef_mode = 384\<rparr>"

definition file_matches :: "existing_file \<Rightarrow> string \<Rightarrow> u32 \<Rightarrow> bool" where
  "file_matches f bytes mode \<longleftrightarrow> ef_existed f \<and> ef_bytes f = bytes \<and> ef_mode f = mode"

datatype file_expectation = Missing | Present string u32

fun expectation_matches :: "file_expectation \<Rightarrow> existing_file \<Rightarrow> bool" where
  "expectation_matches Missing f = (\<not> ef_existed f)"
| "expectation_matches (Present bytes mode) f = file_matches f bytes mode"

definition expect_present :: "existing_file \<Rightarrow> file_expectation" where
  "expect_present f = Present (ef_bytes f) (ef_mode f)"

definition expect_existing :: "existing_file \<Rightarrow> file_expectation" where
  "expect_existing f = (if ef_existed f then expect_present f else Missing)"

fun node_mode :: "node \<Rightarrow> u32" where
  "node_mode (Regular _ m) = m"
| "node_mode (Directory m) = m"
| "node_mode Symlink = 511"
| "node_mode (Special m) = m"

fun is_file :: "node \<Rightarrow> bool" where
  "is_file (Regular _ _) = True"
| "is_file _ = False"

fun is_dir :: "node \<Rightarrow> bool" where
  "is_dir (Directory _) = True"
| "is_dir _ = False"

fun node_len :: "node \<Rightarrow> nat" where
  "node_len (Regular bytes _) = length bytes"
| "node_len _ = 0"

definition unix_mode :: "node \<Rightarrow> u32" where
  "unix_mode n = node_mode n AND 511"

definition validate_private_permissions :: "path \<Rightarrow> node \<Rightarrow> config_error + unit" where
  "validate_private_permissions p n = ensure (node_mode n AND 63 = 0) (InsecurePermissions p)"

definition validate_private_file :: "path \<Rightarrow> node \<Rightarrow> config_error + unit" where
  "validate_private_file p n =
     (if \<not> is_file n then Inl (NonRegularFile p) else validate_private_permissions p n)"

definition validate_private_dir_metadata :: "path \<Rightarrow> node \<Rightarrow> config_error + unit" where
  "validate_private_dir_metadata p n =
     (if \<not> is_dir n then Inl (NonRegularFile p) else validate_private_permissions p n)"

definition checked_metadata :: "path \<Rightarrow> node option io" where
  "checked_metadata p = io_bind (symlink_metadata p) (\<lambda>n.
     if n = Some Symlink then io_fail (SymlinkRefused p) else io_return n)"

definition validate_private_dir :: "path \<Rightarrow> unit io" where
  "validate_private_dir p = io_bind (checked_metadata p) (\<lambda>n.
     io_lift (bind_result (ok_or n (IoError NotFound)) (validate_private_dir_metadata p)))"

definition byte_limit :: "path \<Rightarrow> nat" where
  "byte_limit p = (if path_file_name p = Some SNAPSHOT_FILE then MAX_SNAPSHOT_BYTES else MAX_CONFIG_BYTES)"

definition read_optional_private_file :: "path \<Rightarrow> existing_file io" where
  "read_optional_private_file p = io_bind (checked_metadata p) (\<lambda>meta. case meta of
       None \<Rightarrow> io_return existing_missing
     | Some n \<Rightarrow> io_bind (io_lift (validate_private_file p n)) (\<lambda>_.
         if node_len n > byte_limit p then io_fail (TooLarge p)
         else io_bind (open_read_no_follow p) (\<lambda>opened.
           io_bind (io_lift (validate_private_file p opened)) (\<lambda>_.
           io_bind (read_to_end (byte_limit p + 1) opened) (\<lambda>bytes.
           if length bytes > byte_limit p then io_fail (TooLarge p)
           else io_return (existing_present bytes (unix_mode opened)))))))"

definition ensure_private_directory :: "path \<Rightarrow> unit io" where
  "ensure_private_directory p =
     io_bind (io_catch
       (io_bind (create_dir p 448) (\<lambda>_. case parent p of None \<Rightarrow> io_return () | Some q \<Rightarrow> sync_dir q))
       (\<lambda>e. if e = IoError AlreadyExists then io_return () else io_fail e))
     (\<lambda>_. validate_private_dir p)"

definition mutation_lock :: "path \<Rightarrow> unit io" where
  "mutation_lock p = io_bind (open_create p 384) (\<lambda>n.
     io_bind (io_lift (validate_private_file p n)) (\<lambda>_. lock_file))"

subsection \<open>Checked replacement and removal\<close>

datatype replace_boundary = TempSynced | ExpectationChecked | Renamed

definition sibling_name :: "path \<Rightarrow> string \<Rightarrow> nat \<Rightarrow> u64 \<Rightarrow> string" where
  "sibling_name p kind pid sequence =
     ''.'' @ (case path_file_name p of None \<Rightarrow> ''config'' | Some name \<Rightarrow> name) @ ''.agentobs.'' @ kind @ ''.''
       @ decimal pid @ ''.'' @ decimal (unat sequence)"

definition unique_sibling :: "path \<Rightarrow> string \<Rightarrow> path io" where
  "unique_sibling p kind d =
     (Inr (set_file_name p (sibling_name p kind (process_id d) (temp_sequence d))),
      d\<lparr>temp_sequence := temp_sequence d + 1\<rparr>)"

definition replace_body ::
  "path \<Rightarrow> path \<Rightarrow> path \<Rightarrow> file_expectation \<Rightarrow> string \<Rightarrow> u32 \<Rightarrow> (replace_boundary \<Rightarrow> unit io) \<Rightarrow> unit io" where
  "replace_body p dir temp expected bytes mode boundary =
     io_bind (create_new temp 384) (\<lambda>_.
     io_bind (write_all temp bytes) (\<lambda>_.
     io_bind (set_mode temp mode) (\<lambda>_.
     io_bind sync_all (\<lambda>_.
     io_bind (boundary TempSynced) (\<lambda>_.
     io_bind (read_optional_private_file p) (\<lambda>current.
     if \<not> expectation_matches expected current then io_fail ConfigConflict
     else io_bind (boundary ExpectationChecked) (\<lambda>_.
     io_bind (read_optional_private_file p) (\<lambda>commit_current.
     if \<not> expectation_matches expected commit_current then io_fail ConfigConflict
     else io_bind (rename temp p) (\<lambda>_.
     io_bind (boundary Renamed) (\<lambda>_.
     io_bind (sync_dir dir) (\<lambda>_.
     io_bind (read_optional_private_file p) (\<lambda>installed.
     if \<not> file_matches installed bytes mode then io_fail ConfigConflict else io_return ()))))))))))))"

definition atomic_replace_with ::
  "path \<Rightarrow> file_expectation \<Rightarrow> string \<Rightarrow> u32 \<Rightarrow> (replace_boundary \<Rightarrow> unit io) \<Rightarrow> unit io" where
  "atomic_replace_with p expected bytes mode boundary =
     io_bind (io_lift (ok_or (parent p) (InvalidArgument ''configuration path''))) (\<lambda>dir.
     io_bind (unique_sibling p ''new'') (\<lambda>temp.
     io_catch (replace_body p dir temp expected bytes mode boundary)
       (\<lambda>e. io_bind (io_attempt (remove_file temp)) (\<lambda>_. io_fail e))))"

definition atomic_replace :: "path \<Rightarrow> file_expectation \<Rightarrow> string \<Rightarrow> u32 \<Rightarrow> unit io" where
  "atomic_replace p expected bytes mode = atomic_replace_with p expected bytes mode (\<lambda>_. io_return ())"

definition remove_checked :: "path \<Rightarrow> file_expectation \<Rightarrow> unit io" where
  "remove_checked p expected =
     io_bind (io_lift (ok_or (parent p) (InvalidArgument ''configuration path''))) (\<lambda>dir.
     io_bind (read_optional_private_file p) (\<lambda>current.
     if \<not> expectation_matches expected current then io_fail ConfigConflict
     else io_bind
       (if ef_existed current
        then io_bind (read_optional_private_file p) (\<lambda>commit_current.
          if \<not> expectation_matches expected commit_current then io_fail ConfigConflict
          else remove_file p)
        else io_return ())
       (\<lambda>_. sync_dir dir)))"

end
