(* ===== verification/Config_Files_Laws.thy ===== *)
theory Config_Files_Laws
  imports Config_Files
begin

section \<open>Codex configuration: laws of the file layer\<close>

text \<open>
  Weakest preconditions of the file operations, and the contract of checked replacement and removal: under
  every schedule of faults the file is either untouched or replaced as a whole, only when it was what the
  caller expected, and no other visible path changes; without faults an expected replacement succeeds.
\<close>

subsection \<open>Weakest preconditions\<close>

definition wp ::
  "'a io \<Rightarrow> ('a \<Rightarrow> machine \<Rightarrow> bool) \<Rightarrow> (config_error \<Rightarrow> machine \<Rightarrow> bool) \<Rightarrow> machine \<Rightarrow> bool" where
  "wp f Q E d = (case f d of (Inl e, d') \<Rightarrow> E e d' | (Inr a, d') \<Rightarrow> Q a d')"

named_theorems wp_simps \<open>weakest preconditions of the combinators and of plain system calls\<close>

lemma wp_return [wp_simps]: "wp (io_return a) Q E = Q a"
  by (rule ext) (simp add: wp_def io_return_def)

lemma wp_fail [wp_simps]: "wp (io_fail e) Q E = E e"
  by (rule ext) (simp add: wp_def io_fail_def)

lemma wp_lift [wp_simps]: "wp (io_lift r) Q E d = (case r of Inl e \<Rightarrow> E e d | Inr a \<Rightarrow> Q a d)"
  by (simp add: wp_def io_lift_def)

lemma wp_lift_simps [wp_simps]: "wp (io_lift (Inr a)) Q E = Q a" "wp (io_lift (Inl e)) Q E = E e"
  by (rule ext; simp add: wp_lift)+

lemma wp_bind [wp_simps]: "wp (io_bind f g) Q E = wp f (\<lambda>a. wp (g a) Q E) E"
  by (rule ext) (simp add: wp_def io_bind_def split: prod.splits sum.splits)

lemma io_return_bind [simp]: "io_bind (io_return a) f = f a"
  by (rule ext) (simp add: io_bind_def io_return_def)

lemma wp_catch [wp_simps]: "wp (io_catch f h) Q E = wp f Q (\<lambda>e. wp (h e) Q E)"
  by (rule ext) (simp add: wp_def io_catch_def split: prod.splits sum.splits)

lemma wp_attempt [wp_simps]: "wp (io_attempt f) Q E = wp f (\<lambda>a. Q (Inr a)) (\<lambda>e. Q (Inl e))"
  by (rule ext) (simp add: wp_def io_attempt_def split: prod.splits sum.splits)

lemma wp_if [wp_simps]: "wp (if b then f else g) Q E d = (if b then wp f Q E d else wp g Q E d)"
  by simp

lemma wp_conj: "wp f Q E d \<Longrightarrow> wp f Q' E' d \<Longrightarrow> wp f (\<lambda>a d. Q a d \<and> Q' a d) (\<lambda>e d. E e d \<and> E' e d) d"
  by (auto simp: wp_def split: prod.splits sum.splits)

lemma wp_mono:
  assumes "wp f Q E d" "\<And>a d'. Q a d' \<Longrightarrow> Q' a d'" "\<And>e d'. E e d' \<Longrightarrow> E' e d'"
  shows "wp f Q' E' d"
  using assms by (auto simp: wp_def split: prod.splits sum.splits)

lemma wp_run: "wp f Q E d \<Longrightarrow> f d = (r, d') \<Longrightarrow> (case r of Inl e \<Rightarrow> E e d' | Inr a \<Rightarrow> Q a d')"
  by (simp add: wp_def split: prod.splits sum.splits)

lemma wp_result: "(\<And>r d'. f d = (r, d') \<Longrightarrow> (case r of Inl e \<Rightarrow> E e d' | Inr a \<Rightarrow> Q a d')) \<Longrightarrow> wp f Q E d"
  by (cases "f d") (simp add: wp_def split: sum.splits)

subsection \<open>Calm machines\<close>

text \<open>Two machines agree when only the clock and the temporary counter moved between them.\<close>

definition calm :: "machine \<Rightarrow> bool" where
  "calm d \<longleftrightarrow> (\<forall>k. \<not> faults d k)"

definition later :: "machine \<Rightarrow> machine \<Rightarrow> bool" where
  "later d d' \<longleftrightarrow> faults d' = faults d \<and> process_id d' = process_id d"

definition unchanged :: "machine \<Rightarrow> machine \<Rightarrow> bool" where
  "unchanged d d' \<longleftrightarrow> later d d' \<and> nodes d' = nodes d"

lemma later_refl [simp]: "later d d"
  by (simp add: later_def)

lemma later_trans [trans]: "later d d' \<Longrightarrow> later d' d'' \<Longrightarrow> later d d''"
  by (simp add: later_def)

lemma unchanged_refl [simp]: "unchanged d d"
  by (simp add: unchanged_def)

lemma unchanged_trans [trans]: "unchanged d d' \<Longrightarrow> unchanged d' d'' \<Longrightarrow> unchanged d d''"
  by (auto simp: unchanged_def intro: later_trans)

lemma unchangedD: "unchanged d d' \<Longrightarrow> later d d'" "unchanged d d' \<Longrightarrow> nodes d' = nodes d"
  by (simp_all add: unchanged_def)

lemma calm_later: "later d d' \<Longrightarrow> calm d' = calm d"
  by (simp add: calm_def later_def)

lemma calm_unchanged: "unchanged d d' \<Longrightarrow> calm d' = calm d"
  by (simp add: calm_later unchangedD)

text \<open>The error of an injected fault is the only one that a calm machine does not show.\<close>

lemma wp_syscall_read:
  assumes "\<And>d'. unchanged d d' \<Longrightarrow> (case f (nodes d) of Inl k \<Rightarrow> E (IoError k) d' | Inr (a, t) \<Rightarrow> Q a d')"
    and "\<And>d'. unchanged d d' \<Longrightarrow> \<not> calm d \<Longrightarrow> E (IoError OtherIo) d'"
    and "\<And>a t. f (nodes d) = Inr (a, t) \<Longrightarrow> t = nodes d"
  shows "wp (syscall f) Q E d"
proof -
  let ?d = "d\<lparr>clock := Suc (clock d)\<rparr>"
  have same: "unchanged d ?d" by (simp add: unchanged_def later_def)
  show ?thesis
  proof (cases "faults d (clock d)")
    case True
    then have "\<not> calm d" by (auto simp: calm_def)
    with assms(2) [OF same] True show ?thesis by (simp add: wp_def syscall_def Let_def)
  next
    case False
    have same_tree: "?d\<lparr>nodes := nodes d\<rparr> = ?d" by simp
    show ?thesis
    proof (cases "f (nodes d)")
      case (Inl k)
      with assms(1) [OF same] False show ?thesis by (simp add: wp_def syscall_def Let_def)
    next
      case (Inr at)
      obtain a t where at: "at = (a, t)" by (cases at)
      have "t = nodes d" using assms(3) Inr at by simp
      with assms(1) [OF same] False Inr at show ?thesis by (simp add: wp_def syscall_def Let_def)
    qed
  qed
qed

subsection \<open>Reading\<close>

definition seen :: "tree \<Rightarrow> path \<Rightarrow> config_error + existing_file" where
  "seen t p = (case t p of
       None \<Rightarrow> Inr existing_missing
     | Some Symlink \<Rightarrow> Inl (SymlinkRefused p)
     | Some n \<Rightarrow> bind_result (validate_private_file p n) (\<lambda>_.
         case n of Regular bytes m \<Rightarrow>
             if length bytes > byte_limit p then Inl (TooLarge p)
             else Inr (existing_present bytes (m AND 511))
         | _ \<Rightarrow> Inl (NonRegularFile p)))"

lemma seen_cong: "t p = t' p \<Longrightarrow> seen t p = seen t' p"
  by (simp add: seen_def)

lemma seen_Regular:
  "t p = Some (Regular bytes m) \<Longrightarrow>
   seen t p = (if m AND 63 \<noteq> 0 then Inl (InsecurePermissions p)
     else if length bytes > byte_limit p then Inl (TooLarge p) else Inr (existing_present bytes (m AND 511)))"
  by (simp add: seen_def validate_private_file_def validate_private_permissions_def ensure_def)

lemma seen_None: "t p = None \<Longrightarrow> seen t p = Inr existing_missing"
  by (simp add: seen_def)

lemma seen_Inr:
  "seen t p = Inr f \<longleftrightarrow>
     (t p = None \<and> f = existing_missing) \<or>
     (\<exists>bytes m. t p = Some (Regular bytes m) \<and> m AND 63 = 0 \<and> length bytes \<le> byte_limit p \<and>
        f = existing_present bytes (m AND 511))"
  by (cases "t p") (auto simp: seen_def validate_private_file_def validate_private_permissions_def ensure_def
    split: node.splits)

lemma wp_checked_metadata:
  assumes "\<And>d'. unchanged d d' \<Longrightarrow> nodes d p \<noteq> Some Symlink \<Longrightarrow> Q (nodes d p) d'"
    and "\<And>d'. unchanged d d' \<Longrightarrow> nodes d p = Some Symlink \<Longrightarrow> E (SymlinkRefused p) d'"
    and "\<And>d'. unchanged d d' \<Longrightarrow> \<not> calm d \<Longrightarrow> E (IoError OtherIo) d'"
  shows "wp (checked_metadata p) Q E d"
  unfolding checked_metadata_def symlink_metadata_def
  by (auto simp: wp_simps intro!: wp_syscall_read assms)

lemma wp_read:
  assumes "\<And>d' f. unchanged d d' \<Longrightarrow> seen (nodes d) p = Inr f \<Longrightarrow> Q f d'"
    and "\<And>d' e. unchanged d d' \<Longrightarrow> seen (nodes d) p = Inl e \<Longrightarrow> E e d'"
    and "\<And>d'. unchanged d d' \<Longrightarrow> \<not> calm d \<Longrightarrow> E (IoError OtherIo) d'"
  shows "wp (read_optional_private_file p) Q E d"
proof (unfold read_optional_private_file_def wp_bind, rule wp_checked_metadata, goal_cases)
  case (1 d1)
  show ?case
  proof (cases "nodes d p")
    case None
    with assms(1) [OF 1(1)] show ?thesis by (simp add: wp_simps seen_None)
  next
    case (Some n)
    have tree1: "nodes d1 p = Some n" using 1 Some by (simp add: unchanged_def)
    have fault: "E (IoError OtherIo) d2" if "unchanged d1 d2" "\<not> calm d1" for d2
      using that 1(1) assms(3) [of d2] by (auto intro: unchanged_trans simp: calm_later unchanged_def later_def calm_def)
    show ?thesis
    proof (cases n)
      case (Regular bytes m)
      note tree = Some [unfolded Regular]
      show ?thesis
      proof (cases "m AND 63 = 0 \<and> length bytes \<le> byte_limit p")
        case False
        with assms(2) [OF 1(1)] show ?thesis
          by (auto simp: wp_simps tree seen_Regular [of "nodes d" p, OF tree] validate_private_file_def
            validate_private_permissions_def ensure_def)
      next
        case True
        have good: "seen (nodes d) p = Inr (existing_present bytes (m AND 511))"
          using True by (simp add: seen_Regular [of "nodes d" p, OF tree])
        show ?thesis
          using True tree1 Regular fault 1(1)
          by (auto simp: wp_simps tree validate_private_file_def validate_private_permissions_def ensure_def
            open_read_no_follow_def read_to_end_def unix_mode_def
            intro!: wp_syscall_read assms(1) [OF _ good] intro: unchanged_trans
            simp: unchanged_def later_def calm_def)
      qed
    next
      case (Directory m)
      with assms(2) [OF 1(1)] Some show ?thesis by (simp add: wp_simps seen_def validate_private_file_def)
    next
      case Symlink
      with 1 Some show ?thesis by simp
    next
      case (Special m)
      with assms(2) [OF 1(1)] Some show ?thesis by (simp add: wp_simps seen_def validate_private_file_def)
    qed
  qed
next
  case (2 d1)
  with assms(2) [OF 2(1)] show ?case by (simp add: seen_def)
next
  case (3 d1)
  then show ?case by (rule assms(3))
qed


subsection \<open>Writing\<close>

lemma wp_syscall_write:
  assumes "\<And>d' a t. later d d' \<Longrightarrow> f (nodes d) = Inr (a, t) \<Longrightarrow> nodes d' = t \<Longrightarrow> Q a d'"
    and "\<And>d' k. unchanged d d' \<Longrightarrow> (calm d \<Longrightarrow> f (nodes d) = Inl k) \<Longrightarrow> E (IoError k) d'"
  shows "wp (syscall f) Q E d"
proof -
  let ?d = "d\<lparr>clock := Suc (clock d)\<rparr>"
  have same: "unchanged d ?d" by (simp add: unchanged_def later_def)
  show ?thesis
  proof (cases "faults d (clock d)")
    case True
    then have "\<not> calm d" by (auto simp: calm_def)
    with assms(2) [OF same] True show ?thesis by (simp add: wp_def syscall_def Let_def)
  next
    case False
    have moved: "later d (?d\<lparr>nodes := t\<rparr>)" for t by (simp add: later_def)
    show ?thesis
    proof (cases "f (nodes d)")
      case (Inl k)
      with assms(2) [OF same] False show ?thesis by (simp add: wp_def syscall_def Let_def)
    next
      case (Inr at)
      obtain a t where at: "at = (a, t)" by (cases at)
      have "Q a (?d\<lparr>nodes := t\<rparr>)" using Inr at by (intro assms(1) [OF moved]) simp_all
      with False Inr at show ?thesis by (simp add: wp_def syscall_def Let_def)
    qed
  qed
qed

lemma creatable_parent:
  "creatable t p = Inr u \<Longrightarrow> \<exists>dir m. parent p = Some dir \<and> t dir = Some (Directory m)"
  by (auto simp: creatable_def split: option.splits node.splits)

definition readable_back :: "path \<Rightarrow> string \<Rightarrow> u32 \<Rightarrow> bool" where
  "readable_back p bytes mode \<longleftrightarrow> mode AND 63 = 0 \<and> mode AND 511 = mode \<and> length bytes \<le> byte_limit p"

definition expected_at :: "tree \<Rightarrow> path \<Rightarrow> file_expectation \<Rightarrow> bool" where
  "expected_at t p expected \<longleftrightarrow> (\<exists>f. seen t p = Inr f \<and> expectation_matches expected f)"

lemma seen_other [simp]: "p \<noteq> q \<Longrightarrow> seen (t(q := n)) p = seen t p"
  by (rule seen_cong) simp

lemma wp_create_new:
  assumes "\<And>d'. later d d' \<Longrightarrow> nodes d' = (nodes d)(p \<mapsto> Regular [] mode) \<Longrightarrow> nodes d p = None \<Longrightarrow>
      creatable (nodes d) p = Inr () \<Longrightarrow> Q () d'"
    and "\<And>d' e. unchanged d d' \<Longrightarrow> (calm d \<Longrightarrow> creatable (nodes d) p \<noteq> Inr () \<or> nodes d p \<noteq> None) \<Longrightarrow> E e d'"
  shows "wp (create_new p mode) Q E d"
  unfolding create_new_def
  by (rule wp_syscall_write) (auto simp: result_simps intro!: assms split: if_splits)

lemma wp_write_all:
  assumes "nodes d p = Some (Regular old m)"
    and "\<And>d'. later d d' \<Longrightarrow> nodes d' = (nodes d)(p \<mapsto> Regular bytes m) \<Longrightarrow> Q () d'"
    and "\<And>d' e. unchanged d d' \<Longrightarrow> \<not> calm d \<Longrightarrow> E e d'"
  shows "wp (write_all p bytes) Q E d"
  unfolding write_all_def by (rule wp_syscall_write) (auto simp: assms(1) intro!: assms)

lemma wp_set_mode:
  assumes "nodes d p = Some (Regular bytes m)"
    and "\<And>d'. later d d' \<Longrightarrow> nodes d' = (nodes d)(p \<mapsto> Regular bytes mode) \<Longrightarrow> Q () d'"
    and "\<And>d' e. unchanged d d' \<Longrightarrow> \<not> calm d \<Longrightarrow> E e d'"
  shows "wp (set_mode p mode) Q E d"
  unfolding set_mode_def by (rule wp_syscall_write) (auto simp: assms(1) intro!: assms)

lemma wp_idle:
  assumes "\<And>d'. unchanged d d' \<Longrightarrow> Q () d'" "\<And>d' e. unchanged d d' \<Longrightarrow> \<not> calm d \<Longrightarrow> E e d'"
  shows "wp sync_all Q E d" "wp lock_file Q E d"
  unfolding sync_all_def lock_file_def by (rule wp_syscall_write; auto simp: unchanged_def intro!: assms)+

lemma wp_sync_dir:
  assumes "\<And>d'. unchanged d d' \<Longrightarrow> Q () d'" "\<And>d' e. unchanged d d' \<Longrightarrow> (calm d \<Longrightarrow> nodes d p = None) \<Longrightarrow> E e d'"
  shows "wp (sync_dir p) Q E d"
  unfolding sync_dir_def wp_bind
proof (rule wp_syscall_write, goal_cases)
  case (1 d1 a t)
  then have d1: "unchanged d d1" by (auto simp: unchanged_def split: if_splits)
  show ?case
  proof (rule wp_idle)
    show "Q () d'" if "unchanged d1 d'" for d'
      by (rule assms(1) [OF unchanged_trans [OF d1 that]])
    show "E e d'" if "unchanged d1 d'" "\<not> calm d1" for d' e
      using that d1 by (intro assms(2)) (auto intro: unchanged_trans dest: calm_unchanged)
  qed
next
  case (2 d1 k)
  then show ?case by (intro assms(2)) (auto split: if_splits)
qed

lemma wp_rename:
  assumes "nodes d p = Some n"
    and "\<And>d'. later d d' \<Longrightarrow> nodes d' = ((nodes d)(q \<mapsto> n))(p := None) \<Longrightarrow> Q () d'"
    and "\<And>d' e. unchanged d d' \<Longrightarrow> (calm d \<Longrightarrow> \<exists>m. nodes d q = Some (Directory m)) \<Longrightarrow> E e d'"
  shows "wp (rename p q) Q E d"
  unfolding rename_def
proof (rule wp_syscall_write, goal_cases)
  case (1 d' a t)
  then show ?case by (cases a) (auto simp: assms(1) intro!: assms(2) split: option.splits node.splits)
next
  case (2 d' k)
  then show ?case by (intro assms(3)) (auto simp: assms(1) split: option.splits node.splits)
qed

lemma wp_remove_file:
  assumes "\<And>d'. later d d' \<Longrightarrow> nodes d' = (nodes d)(p := None) \<Longrightarrow> Q () d'"
    and "\<And>d' e. unchanged d d' \<Longrightarrow> (calm d \<Longrightarrow> nodes d p = None \<or> (\<exists>m. nodes d p = Some (Directory m))) \<Longrightarrow> E e d'"
  shows "wp (remove_file p) Q E d"
  unfolding remove_file_def
proof (rule wp_syscall_write, goal_cases)
  case (1 d' a t)
  then show ?case by (cases a) (auto intro!: assms(1) split: option.splits node.splits)
next
  case (2 d' k)
  then show ?case by (intro assms(2)) (auto split: option.splits node.splits)
qed

subsection \<open>The contract of replacement and removal\<close>

definition temp_of :: "machine \<Rightarrow> path \<Rightarrow> path" where
  "temp_of d p = set_file_name p (sibling_name p ''new'' (process_id d) (temp_sequence d))"

definition replaceable :: "machine \<Rightarrow> path \<Rightarrow> path \<Rightarrow> file_expectation \<Rightarrow> bool" where
  "replaceable d p temp expected \<longleftrightarrow>
     creatable (nodes d) temp = Inr () \<and> nodes d temp = None \<and> expected_at (nodes d) p expected"

lemma wp_replace_body:
  assumes neq: "temp \<noteq> p" and dir: "parent temp = Some dir"
    and installed: "\<And>d'. later d d' \<Longrightarrow> nodes d' = (nodes d)(p \<mapsto> Regular bytes mode, temp := None) \<Longrightarrow>
      expected_at (nodes d) p expected \<Longrightarrow> nodes d temp = None \<Longrightarrow> readable_back p bytes mode \<Longrightarrow> Q () d'"
    and kept: "\<And>d' e x. later d d' \<Longrightarrow> nodes d' = (nodes d)(temp := x) \<Longrightarrow>
      (calm d \<Longrightarrow> \<not> replaceable d p temp expected) \<Longrightarrow> E e d'"
    and swapped: "\<And>d' e. later d d' \<Longrightarrow> nodes d' = (nodes d)(p \<mapsto> Regular bytes mode, temp := None) \<Longrightarrow>
      expected_at (nodes d) p expected \<Longrightarrow> (calm d \<Longrightarrow> \<not> readable_back p bytes mode) \<Longrightarrow> E e d'"
  shows "wp (replace_body p dir temp expected bytes mode (\<lambda>_. io_return ())) Q E d"
proof -
  let ?new = "(nodes d)(p \<mapsto> Regular bytes mode, temp := None)"
  have fault: "E e d'" if "later d d'" "nodes d' = (nodes d)(temp := x)" "\<not> calm d" for d' e x
    using that kept by blast
  have unexpected: "E e d'" if "later d d'" "nodes d' = (nodes d)(temp := x)" "seen (nodes d) p = Inr f"
    "\<not> expectation_matches expected f" for d' e x f
    using that kept by (auto simp: replaceable_def expected_at_def)
  have after: "wp (io_bind (sync_dir dir) (\<lambda>_. io_bind (read_optional_private_file p) (\<lambda>installed.
      if \<not> file_matches installed bytes mode then io_fail ConfigConflict else io_return ()))) Q E d6"
    if d6: "later d d6" "nodes d6 = ?new" and ok: "expected_at (nodes d) p expected" "nodes d temp = None"
      "creatable (nodes d) temp = Inr ()" for d6
  proof -
    obtain m where tree: "nodes d dir = Some (Directory m)" using creatable_parent [OF ok(3)] dir by auto
    then have "dir \<noteq> temp" using ok(2) by auto
    moreover have "dir \<noteq> p" using ok(1) tree by (auto simp: expected_at_def seen_Inr)
    ultimately have present: "nodes d6 dir \<noteq> None" using d6(2) tree by simp
    have seen6: "seen ?new p = (if mode AND 63 \<noteq> 0 then Inl (InsecurePermissions p)
        else if length bytes > byte_limit p then Inl (TooLarge p) else Inr (existing_present bytes (mode AND 511)))"
      using neq by (intro seen_Regular) simp
    show ?thesis unfolding wp_bind
    proof (rule wp_sync_dir, rule wp_read, goal_cases)
      case (1 d7 d8 f)
      have later: "later d d8" using d6(1) 1 by (auto simp: unchanged_def intro: later_trans)
      have tree8: "nodes d8 = ?new" using d6(2) 1 by (simp add: unchanged_def)
      have f: "seen ?new p = Inr f" using 1 d6(2) by (simp add: unchanged_def)
      show ?case
      proof (cases "file_matches f bytes mode")
        case True
        then have "f = existing_present bytes mode"
          by (cases f) (simp add: file_matches_def existing_present_def)
        then have "readable_back p bytes mode"
          using f seen6 by (auto simp: readable_back_def existing_present_def split: if_splits)
        then show ?thesis using True installed [OF later tree8 ok(1,2)] by (simp add: wp_simps)
      next
        case False
        then have "\<not> readable_back p bytes mode"
          using f seen6 by (auto simp: readable_back_def file_matches_def existing_present_def split: if_splits)
        then show ?thesis using False swapped [OF later tree8 ok(1)] by (simp add: wp_simps)
      qed
    next
      case (2 d7 d8 e)
      have later: "later d d8" using d6(1) 2 by (auto simp: unchanged_def intro: later_trans)
      have tree8: "nodes d8 = ?new" using d6(2) 2 by (simp add: unchanged_def)
      have "seen ?new p = Inl e" using 2 d6(2) by (simp add: unchanged_def)
      then have "\<not> readable_back p bytes mode" using seen6 by (auto simp: readable_back_def split: if_splits)
      then show ?case using swapped [OF later tree8 ok(1)] by simp
    next
      case (3 d7 d8)
      have "later d d8" using d6(1) 3 by (auto simp: unchanged_def intro: later_trans)
      moreover have "nodes d8 = ?new" using d6(2) 3 by (simp add: unchanged_def)
      moreover have "\<not> calm d" using 3 d6(1) by (auto simp: calm_later calm_unchanged)
      ultimately show ?case using swapped ok(1) by blast
    next
      case (4 d7 e)
      have "later d d7" using d6(1) 4 by (auto simp: unchanged_def intro: later_trans)
      moreover have "nodes d7 = ?new" using d6(2) 4 by (simp add: unchanged_def)
      moreover have "\<not> calm d" using 4 d6(1) present by (auto simp: calm_later)
      ultimately show ?case using swapped ok(1) by blast
    qed
  qed
  have commit: "wp (io_bind (rename temp p) (\<lambda>_. io_bind (sync_dir dir) (\<lambda>_. io_bind (read_optional_private_file p) (\<lambda>installed.
      if \<not> file_matches installed bytes mode then io_fail ConfigConflict else io_return ())))) Q E d5"
    if d5: "later d d5" "nodes d5 = (nodes d)(temp \<mapsto> Regular bytes mode)"
      and ok: "expected_at (nodes d) p expected" "nodes d temp = None" "creatable (nodes d) temp = Inr ()" for d5
    unfolding wp_bind [of "rename temp p"]
  proof (rule wp_rename [where n = "Regular bytes mode"], goal_cases)
    case 1
    show ?case using d5(2) by simp
  next
    case (2 d6)
    then show ?case using d5 neq by (intro after [OF _ _ ok]) (auto intro: later_trans simp: fun_upd_twist)
  next
    case (3 d6 e)
    have "later d d6" using d5(1) 3(1) by (auto simp: unchanged_def intro: later_trans)
    moreover have "nodes d6 = (nodes d)(temp := Some (Regular bytes mode))" using d5(2) 3(1) by (simp add: unchanged_def)
    moreover have "\<not> calm d" using 3(2) d5 ok(1) neq by (auto simp: calm_later expected_at_def seen_Inr)
    ultimately show ?case by (rule fault)
  qed
  have check: "wp (io_bind (read_optional_private_file p) (\<lambda>current.
      if \<not> expectation_matches expected current then io_fail ConfigConflict else rest)) Q E d4"
    if d4: "later d d4" "nodes d4 = (nodes d)(temp \<mapsto> Regular bytes mode)"
      and next_step: "\<And>d5. later d d5 \<Longrightarrow> nodes d5 = (nodes d)(temp \<mapsto> Regular bytes mode) \<Longrightarrow>
        expected_at (nodes d) p expected \<Longrightarrow> wp rest Q E d5" for d4 rest
    unfolding wp_bind
  proof (rule wp_read, goal_cases)
    case (1 d5 f)
    have d5: "later d d5" "nodes d5 = (nodes d)(temp := Some (Regular bytes mode))"
      using d4 1(1) by (auto simp: unchanged_def intro: later_trans)
    have f: "seen (nodes d) p = Inr f" using 1(2) d4(2) neq by simp
    show ?case
    proof (cases "expectation_matches expected f")
      case True
      then show ?thesis using f next_step [OF d5] by (auto simp: expected_at_def)
    next
      case False
      then show ?thesis using unexpected [OF d5 f] by (simp add: wp_simps)
    qed
  next
    case (2 d5 e)
    have d5: "later d d5" "nodes d5 = (nodes d)(temp := Some (Regular bytes mode))"
      using d4 2(1) by (auto simp: unchanged_def intro: later_trans)
    have "\<not> expected_at (nodes d) p expected" using 2(2) d4(2) neq by (simp add: expected_at_def)
    then show ?case using kept [OF d5] by (simp add: replaceable_def)
  next
    case (3 d5)
    have d5: "later d d5" "nodes d5 = (nodes d)(temp := Some (Regular bytes mode))"
      using d4 3(1) by (auto simp: unchanged_def intro: later_trans)
    have "\<not> calm d" using 3 d4(1) by (auto simp: calm_later)
    then show ?case by (rule fault [OF d5])
  qed
  show ?thesis unfolding replace_body_def
  proof (subst wp_bind, rule wp_create_new, goal_cases)
    case (1 d1)
    note ok = 1(3,4)
    show ?case
    proof (subst wp_bind, rule wp_write_all [where old = "[]" and m = 384], goal_cases)
      case 1
      show ?case using \<open>nodes d1 = _\<close> by simp
    next
      case (2 d2)
      have d2: "later d d2" "nodes d2 = (nodes d)(temp \<mapsto> Regular bytes 384)"
        using 2 \<open>later d d1\<close> \<open>nodes d1 = _\<close> by (auto intro: later_trans)
      show ?case
      proof (subst wp_bind, rule wp_set_mode [where bytes = bytes and m = 384], goal_cases)
        case 1
        show ?case using d2(2) by simp
      next
        case (2 d3)
        have d3: "later d d3" "nodes d3 = (nodes d)(temp \<mapsto> Regular bytes mode)"
          using 2 d2 by (auto intro: later_trans)
        show ?case
        proof (subst wp_bind, rule wp_idle, goal_cases)
          case (1 d4)
          have d4: "later d d4" "nodes d4 = (nodes d)(temp \<mapsto> Regular bytes mode)"
            using 1 d3 by (auto simp: unchanged_def intro: later_trans)
          show ?case unfolding wp_bind [of "io_return ()"] wp_return
          proof (rule check [OF d4], unfold wp_bind [of "io_return ()"] wp_return, rule check)
            fix d5 d6
            assume "later d d6" "nodes d6 = (nodes d)(temp \<mapsto> Regular bytes mode)" and ok': "expected_at (nodes d) p expected"
            then show "wp (io_bind (rename temp p) (\<lambda>_. io_bind (io_return ()) (\<lambda>_. io_bind (sync_dir dir) (\<lambda>_.
                io_bind (read_optional_private_file p) (\<lambda>installed.
                if \<not> file_matches installed bytes mode then io_fail ConfigConflict else io_return ()))))) Q E d6"
              using commit [of d6] ok by simp
          qed
        next
          case (2 d4 e)
          then show ?case using d3 by (intro fault [of d4 "Some (Regular bytes mode)"])
            (auto simp: unchanged_def calm_later intro: later_trans)
        qed
      next
        case (3 d3 e)
        then show ?case using d2 by (intro fault [of d3 "Some (Regular bytes 384)"])
          (auto simp: unchanged_def calm_later intro: later_trans)
      qed
    next
      case (3 d2 e)
      then show ?case using \<open>later d d1\<close> \<open>nodes d1 = _\<close> by (intro fault [of d2 "Some (Regular [] 384)"])
        (auto simp: unchanged_def calm_later intro: later_trans)
    qed
  next
    case (2 d1 e)
    then show ?case by (intro kept [where x = "nodes d temp"]) (auto simp: unchanged_def replaceable_def)
  qed
qed

lemma wp_unique_sibling: "wp (unique_sibling p kind) Q E d =
    Q (set_file_name p (sibling_name p kind (process_id d) (temp_sequence d))) (d\<lparr>temp_sequence := temp_sequence d + 1\<rparr>)"
  by (simp add: wp_def unique_sibling_def)

lemma parent_sibling: "parent p = Some dir \<Longrightarrow> parent (set_file_name p name) = Some dir"
  by (cases p) (simp split: if_splits)

lemma wp_atomic_replace:
  assumes neq: "temp_of d p \<noteq> p" and dir: "parent p = Some dir"
    and installed: "\<And>d'. later d d' \<Longrightarrow> nodes d' = (nodes d)(p \<mapsto> Regular bytes mode, temp_of d p := None) \<Longrightarrow>
      expected_at (nodes d) p expected \<Longrightarrow> nodes d (temp_of d p) = None \<Longrightarrow> readable_back p bytes mode \<Longrightarrow> Q () d'"
    and kept: "\<And>d' e x. later d d' \<Longrightarrow> nodes d' = (nodes d)(temp_of d p := x) \<Longrightarrow>
      (calm d \<Longrightarrow> \<not> replaceable d p (temp_of d p) expected) \<Longrightarrow> E e d'"
    and swapped: "\<And>d' e. later d d' \<Longrightarrow> nodes d' = (nodes d)(p \<mapsto> Regular bytes mode, temp_of d p := None) \<Longrightarrow>
      expected_at (nodes d) p expected \<Longrightarrow> (calm d \<Longrightarrow> \<not> readable_back p bytes mode) \<Longrightarrow> E e d'"
  shows "wp (atomic_replace p expected bytes mode) Q E d"
proof -
  let ?temp = "temp_of d p"
  let ?d = "d\<lparr>temp_sequence := temp_sequence d + 1\<rparr>"
  have start: "unchanged d ?d" by (simp add: unchanged_def later_def)
  have calm: "calm ?d = calm d" by (rule calm_unchanged [OF start])
  have ready: "replaceable ?d p ?temp expected = replaceable d p ?temp expected" by (simp add: replaceable_def)
  have clean: "wp (remove_file ?temp) (\<lambda>_. E e) (\<lambda>_. E e) d1"
    if d1: "later d d1" and ok: "\<And>d2 x. later d d2 \<Longrightarrow> nodes d2 = (nodes d1)(?temp := x) \<Longrightarrow> E e d2" for d1 e
  proof (rule wp_remove_file)
    show "E e d'" if "later d1 d'" "nodes d' = (nodes d1)(?temp := None)" for d'
      using that d1 by (intro ok [of d' None]) (auto intro: later_trans)
    show "E e d'" if "unchanged d1 d'" for d'
      using that d1 by (intro ok [of d' "nodes d1 ?temp"]) (auto simp: unchanged_def intro: later_trans)
  qed
  have "wp (replace_body p dir ?temp expected bytes mode (\<lambda>_. io_return ())) Q
      (\<lambda>e. wp (io_bind (io_attempt (remove_file ?temp)) (\<lambda>_. io_fail e)) Q E) ?d"
  proof (rule wp_replace_body, goal_cases)
    case 1
    show ?case by (rule neq)
  next
    case 2
    show ?case using parent_sibling [OF dir] by (simp add: temp_of_def)
  next
    case (3 d')
    then show ?case by (intro installed) (auto simp: later_def)
  next
    case (4 d' e x)
    show ?case unfolding wp_simps
    proof (rule clean)
      show "later d d'" using 4 by (simp add: later_def)
    next
      fix d2 y
      assume "later d d2" "nodes d2 = (nodes d')(?temp := y)"
      then show "E e d2" using 4 calm ready by (intro kept [of d2 y]) auto
    qed
  next
    case (5 d' e)
    have "later d d'" using 5 by (simp add: later_def)
    moreover have none: "nodes d' ?temp = None" using 5 by simp
    ultimately show ?case unfolding wp_simps
    proof (intro wp_remove_file)
      fix d2
      assume "later d' d2" "nodes d2 = (nodes d')(?temp := None)"
      then show "E e d2" using 5 calm \<open>later d d'\<close> by (intro swapped) (auto intro: later_trans)
    next
      fix d2
      assume "unchanged d' d2"
      then show "E e d2" using 5 calm \<open>later d d'\<close> by (intro swapped) (auto simp: unchanged_def intro: later_trans)
    qed
  qed
  then show ?thesis
    by (simp add: atomic_replace_def atomic_replace_with_def wp_bind wp_lift dir wp_unique_sibling wp_catch
      temp_of_def [symmetric])
qed

lemma wp_remove_checked:
  assumes dir: "parent p = Some dir"
    and removed: "\<And>d'. later d d' \<Longrightarrow> nodes d' = (nodes d)(p := None) \<Longrightarrow> expected_at (nodes d) p expected \<Longrightarrow> Q () d'"
    and kept: "\<And>d' e. unchanged d d' \<Longrightarrow> (calm d \<Longrightarrow> \<not> (expected_at (nodes d) p expected \<and> nodes d dir \<noteq> None \<and> dir \<noteq> p)) \<Longrightarrow> E e d'"
    and swapped: "\<And>d' e. later d d' \<Longrightarrow> nodes d' = (nodes d)(p := None) \<Longrightarrow> expected_at (nodes d) p expected \<Longrightarrow>
      (calm d \<Longrightarrow> nodes d dir = None \<or> dir = p) \<Longrightarrow> E e d'"
  shows "wp (remove_checked p expected) Q E d"
proof -
  have last: "wp (sync_dir dir) Q E d2"
    if d2: "later d d2" "nodes d2 = (nodes d)(p := None)" and ok: "expected_at (nodes d) p expected" for d2
  proof (rule wp_sync_dir)
    show "Q () d'" if "unchanged d2 d'" for d'
      using that d2 ok by (intro removed) (auto simp: unchanged_def intro: later_trans)
    show "E e d'" if "unchanged d2 d'" "calm d2 \<Longrightarrow> nodes d2 dir = None" for d' e
      using that d2 ok by (intro swapped) (auto simp: unchanged_def calm_later intro: later_trans split: if_splits)
  qed
  have refused: "E e d'" if "unchanged d d'" "\<not> expected_at (nodes d) p expected \<or> \<not> calm d" for d' e
    using that kept by blast
  show ?thesis unfolding remove_checked_def wp_bind [of "io_lift _"] wp_lift dir ok_or_simps sum.case wp_bind
  proof (rule wp_read, goal_cases)
    case (1 d1 f)
    show ?case
    proof (cases "expectation_matches expected f")
      case False
      then show ?thesis using 1 refused [OF 1(1)] by (simp add: wp_simps expected_at_def)
    next
      case True
      have ok: "expected_at (nodes d) p expected" using True 1 by (auto simp: expected_at_def)
      show ?thesis
      proof (cases "ef_existed f")
        case False
        then have none: "nodes d p = None" using 1(2) by (auto simp: seen_Inr existing_present_def)
        have "later d d1" "nodes d1 = (nodes d)(p := None)" using 1(1) none by (auto simp: unchanged_def)
        from last [OF this ok] False True show ?thesis by (simp add: wp_simps)
      next
        case existed: True
        obtain bytes m where node: "nodes d p = Some (Regular bytes m)"
          using 1(2) existed by (auto simp: seen_Inr existing_missing_def)
        have "wp (read_optional_private_file p) (\<lambda>commit_current.
            wp (if \<not> expectation_matches expected commit_current then io_fail ConfigConflict else remove_file p)
              (\<lambda>_. wp (sync_dir dir) Q E) E) E d1"
        proof (rule wp_read, goal_cases)
          case (1 d2 g)
          then have g: "g = f" "unchanged d d2" using \<open>unchanged d d1\<close> \<open>seen (nodes d) p = Inr f\<close>
            by (auto simp: unchanged_def later_def)
          show ?case unfolding g(1) wp_if
          proof (simp add: True, rule wp_remove_file)
            show "wp (sync_dir dir) Q E d'" if "later d2 d'" "nodes d' = (nodes d2)(p := None)" for d'
              using that g(2) by (intro last [OF _ _ ok]) (auto simp: unchanged_def intro: later_trans)
            show "E e d'" if "unchanged d2 d'"
                "calm d2 \<Longrightarrow> nodes d2 p = None \<or> (\<exists>m. nodes d2 p = Some (Directory m))" for d' e
              using that g(2) node calm_unchanged [OF g(2)] by (intro refused unchanged_trans [OF g(2) that(1)]) (auto simp: unchanged_def)
          qed
        next
          case (2 d2 e)
          then show ?case using \<open>unchanged d d1\<close> \<open>seen (nodes d) p = Inr f\<close> by (simp add: unchanged_def)
        next
          case (3 d2)
          then show ?case using \<open>unchanged d d1\<close> by (intro refused) (auto intro: unchanged_trans dest: calm_unchanged)
        qed
        then show ?thesis using True existed by (simp add: wp_bind wp_if)
      qed
    qed
  next
    case (2 d1 e)
    then show ?case by (intro refused) (auto simp: expected_at_def)
  next
    case (3 d1)
    then show ?case by (intro refused) auto
  qed
qed

subsection \<open>The interface of the mutations\<close>

text \<open>
  The code takes its mutations as a parameter of trait \<^verbatim>\<open>FileMutations\<close>.  A hidden path is one whose name
  starts with a dot: the lock and all temporary files are hidden, the configuration and the snapshot are not.
\<close>

definition hidden :: "path \<Rightarrow> bool" where
  "hidden p \<longleftrightarrow> (case path_file_name p of Some (c # _) \<Rightarrow> c = CHR ''.'' | _ \<Rightarrow> False)"

definition only_at :: "path \<Rightarrow> machine \<Rightarrow> machine \<Rightarrow> bool" where
  "only_at p d d' \<longleftrightarrow> later d d' \<and> (\<forall>q. q \<noteq> p \<longrightarrow> \<not> hidden q \<longrightarrow> nodes d' q = nodes d q)"

definition ready :: "machine \<Rightarrow> path \<Rightarrow> bool" where
  "ready d p \<longleftrightarrow> calm d \<and> (\<exists>dir m. parent p = Some dir \<and> nodes d dir = Some (Directory m)) \<and>
     (\<forall>sequence. nodes d (set_file_name p (sibling_name p ''new'' (process_id d) sequence)) = None)"

locale file_mutations =
  fixes replace :: "path \<Rightarrow> file_expectation \<Rightarrow> string \<Rightarrow> u32 \<Rightarrow> unit io"
    and remove :: "path \<Rightarrow> file_expectation \<Rightarrow> unit io"
  assumes replace_law: "\<not> hidden p \<Longrightarrow> replace p expected bytes mode d = (r, d') \<Longrightarrow>
      only_at p d d' \<and>
      (nodes d' p = nodes d p \<and> r \<noteq> Inr () \<or>
       nodes d' p = Some (Regular bytes mode) \<and> expected_at (nodes d) p expected \<and>
         (r = Inr () \<longrightarrow> readable_back p bytes mode))"
    and remove_law: "\<not> hidden p \<Longrightarrow> remove p expected d = (r, d') \<Longrightarrow>
      only_at p d d' \<and>
      (nodes d' p = nodes d p \<and> r \<noteq> Inr () \<or> nodes d' p = None \<and> expected_at (nodes d) p expected)"

locale working_mutations = file_mutations +
  assumes replace_works: "ready d p \<Longrightarrow> \<not> hidden p \<Longrightarrow> expected_at (nodes d) p expected \<Longrightarrow> readable_back p bytes mode \<Longrightarrow>
      \<exists>d'. replace p expected bytes mode d = (Inr (), d') \<and> later d d' \<and> nodes d' = (nodes d)(p \<mapsto> Regular bytes mode)"
    and remove_works: "ready d p \<Longrightarrow> \<not> hidden p \<Longrightarrow> expected_at (nodes d) p expected \<Longrightarrow>
      \<exists>d'. remove p expected d = (Inr (), d') \<and> later d d' \<and> nodes d' = (nodes d)(p := None)"

lemma file_name_sibling: "path_file_name (set_file_name p name) = Some name"
  by (cases p) simp

lemma hidden_temp: "hidden (set_file_name p (sibling_name p kind pid s))"
  by (simp add: hidden_def file_name_sibling sibling_name_def)

lemma temp_neq: "\<not> hidden p \<Longrightarrow> temp_of d p \<noteq> p"
  using hidden_temp [of p "''new''" "process_id d" "temp_sequence d"] by (auto simp: temp_of_def)

lemma parent_neq: "parent p = Some dir \<Longrightarrow> dir \<noteq> p"
  by (cases p; cases "components p" rule: rev_cases) auto

lemma creatable_temp:
  "parent p = Some dir \<Longrightarrow> t dir = Some (Directory m) \<Longrightarrow> creatable t (set_file_name p name) = Inr ()"
  by (simp add: creatable_def parent_sibling)

lemma atomic_replace_law:
  assumes shown: "\<not> hidden p" and run: "atomic_replace p expected bytes mode d = (r, d')"
  shows "only_at p d d' \<and>
      (nodes d' p = nodes d p \<and> r \<noteq> Inr () \<or>
       nodes d' p = Some (Regular bytes mode) \<and> expected_at (nodes d) p expected \<and>
         (r = Inr () \<longrightarrow> readable_back p bytes mode))"
proof (cases "parent p")
  case None
  then have "r = Inl (InvalidArgument ''configuration path'') \<and> d' = d"
    using run by (simp add: atomic_replace_def atomic_replace_with_def io_bind_def io_lift_def)
  then show ?thesis by (simp add: only_at_def)
next
  case (Some dir)
  let ?P = "\<lambda>r d'. only_at p d d' \<and>
      (nodes d' p = nodes d p \<and> r \<noteq> Inr () \<or>
       nodes d' p = Some (Regular bytes mode) \<and> expected_at (nodes d) p expected \<and>
         (r = Inr () \<longrightarrow> readable_back p bytes mode))"
  have out: "hidden (temp_of d p)" by (simp add: temp_of_def hidden_temp)
  have "wp (atomic_replace p expected bytes mode) (\<lambda>a. ?P (Inr a)) (\<lambda>e. ?P (Inl e)) d"
  proof (rule wp_atomic_replace [OF temp_neq [OF shown] Some], goal_cases)
    case (1 d')
    then show ?case using out temp_neq [OF shown, of d] by (auto simp: only_at_def)
  next
    case (2 d' e x)
    then show ?case using out temp_neq [OF shown, of d] by (auto simp: only_at_def)
  next
    case (3 d' e)
    then show ?case using out temp_neq [OF shown, of d] by (auto simp: only_at_def)
  qed
  from wp_run [OF this run] show ?thesis by (cases r) auto
qed

lemma remove_checked_law:
  assumes run: "remove_checked p expected d = (r, d')"
  shows "only_at p d d' \<and>
      (nodes d' p = nodes d p \<and> r \<noteq> Inr () \<or> nodes d' p = None \<and> expected_at (nodes d) p expected)"
proof (cases "parent p")
  case None
  then have "r = Inl (InvalidArgument ''configuration path'') \<and> d' = d"
    using run by (simp add: remove_checked_def io_bind_def io_lift_def)
  then show ?thesis by (simp add: only_at_def)
next
  case (Some dir)
  let ?P = "\<lambda>r d'. only_at p d d' \<and>
      (nodes d' p = nodes d p \<and> r \<noteq> Inr () \<or> nodes d' p = None \<and> expected_at (nodes d) p expected)"
  have "wp (remove_checked p expected) (\<lambda>a. ?P (Inr a)) (\<lambda>e. ?P (Inl e)) d"
    by (rule wp_remove_checked [OF Some]) (auto simp: only_at_def unchanged_def)
  from wp_run [OF this run] show ?thesis by (cases r) auto
qed

lemma atomic_replace_works:
  assumes ready: "ready d p" and shown: "\<not> hidden p"
    and ok: "expected_at (nodes d) p expected" "readable_back p bytes mode"
  shows "\<exists>d'. atomic_replace p expected bytes mode d = (Inr (), d') \<and> later d d' \<and>
    nodes d' = (nodes d)(p \<mapsto> Regular bytes mode)"
proof -
  obtain dir m where dir: "parent p = Some dir" "nodes d dir = Some (Directory m)" and calm: "calm d"
    and free: "nodes d (temp_of d p) = None"
    using ready by (auto simp: ready_def temp_of_def)
  have can: "replaceable d p (temp_of d p) expected"
    using creatable_temp [of p dir "nodes d", OF dir] free ok(1) by (simp add: replaceable_def temp_of_def)
  have "wp (atomic_replace p expected bytes mode)
      (\<lambda>_ d'. later d d' \<and> nodes d' = (nodes d)(p \<mapsto> Regular bytes mode)) (\<lambda>_ _. False) d"
    by (rule wp_atomic_replace [OF temp_neq [OF shown] dir(1)])
      (use can calm ok free temp_neq [OF shown] in \<open>auto simp: fun_upd_idem_iff\<close>)
  then show ?thesis by (simp add: wp_def split: prod.splits sum.splits)
qed

lemma remove_checked_works:
  assumes ready: "ready d p" and ok: "expected_at (nodes d) p expected"
  shows "\<exists>d'. remove_checked p expected d = (Inr (), d') \<and> later d d' \<and> nodes d' = (nodes d)(p := None)"
proof -
  obtain dir m where dir: "parent p = Some dir" "nodes d dir = Some (Directory m)" and calm: "calm d"
    using ready by (auto simp: ready_def)
  have "wp (remove_checked p expected)
      (\<lambda>_ d'. later d d' \<and> nodes d' = (nodes d)(p := None)) (\<lambda>_ _. False) d"
    by (rule wp_remove_checked [OF dir(1)]) (use ok calm dir parent_neq [OF dir(1)] in auto)
  then show ?thesis by (simp add: wp_def split: prod.splits sum.splits)
qed

interpretation filesystem: file_mutations atomic_replace remove_checked
  by unfold_locales (rule atomic_replace_law remove_checked_law; assumption)+

interpretation filesystem: working_mutations atomic_replace remove_checked
  by unfold_locales (rule atomic_replace_works remove_checked_works; assumption)+

end
