(* ===== verification/Config_Toml.thy ===== *)
theory Config_Toml
  imports Config_Files Privacy
begin

section \<open>Codex configuration: the managed values of the document\<close>

text \<open>
  The edits of the TOML document in \<^verbatim>\<open>crates/codex-config/src/lib.rs\<close>.  A document is the tree of
  \<^verbatim>\<open>toml_edit\<close>: tables keep their keys in order, every value and key carries the text around it
  (empty for what the code creates), an assignment to a present key keeps its place and its text.  Parser
  and printer are parameters.  A failed \<open>expect\<close> of the code is \<open>None\<close> here.
\<close>

subsection \<open>Documents\<close>

type_synonym 'a entries = "(string \<times> string \<times> 'a) list"

datatype toml_value =
    TString string string
  | TBoolean string bool
  | TScalar string
  | TArray string "toml_value list"
  | TInline string "(string \<times> string \<times> toml_value) list"

datatype toml_item =
    NoneItem
  | ValueItem toml_value
  | TableItem string "(string \<times> string \<times> toml_item) list"
  | TablesItem string "(string \<times> string \<times> toml_item) list list"

record toml_document =
  doc_text :: string
  doc_entries :: "toml_item entries"

fun find_entry :: "string \<Rightarrow> 'a entries \<Rightarrow> 'a option" where
  "find_entry k [] = None"
| "find_entry k ((k', text, v) # es) = (if k' = k then Some v else find_entry k es)"

fun put_entry :: "string \<Rightarrow> 'a \<Rightarrow> 'a entries \<Rightarrow> 'a entries" where
  "put_entry k v [] = [(k, [], v)]"
| "put_entry k v ((k', text, w) # es) = (if k' = k then (k', text, v) # es else (k', text, w) # put_entry k v es)"

fun drop_entry :: "string \<Rightarrow> 'a entries \<Rightarrow> 'a entries" where
  "drop_entry k [] = []"
| "drop_entry k ((k', text, w) # es) = (if k' = k then drop_entry k es else (k', text, w) # drop_entry k es)"

definition present_item :: "toml_item option \<Rightarrow> toml_item option" where
  "present_item item = (if item = Some NoneItem then None else item)"

definition doc_get :: "toml_document \<Rightarrow> string \<Rightarrow> toml_item option" where
  "doc_get doc k = present_item (find_entry k (doc_entries doc))"

definition doc_set :: "toml_document \<Rightarrow> string \<Rightarrow> toml_item \<Rightarrow> toml_document" where
  "doc_set doc k item = doc\<lparr>doc_entries := put_entry k item (doc_entries doc)\<rparr>"

definition doc_remove :: "toml_document \<Rightarrow> string \<Rightarrow> toml_document" where
  "doc_remove doc k = doc\<lparr>doc_entries := drop_entry k (doc_entries doc)\<rparr>"

fun as_str :: "toml_value \<Rightarrow> string option" where
  "as_str (TString _ s) = Some s"
| "as_str _ = None"

fun item_as_str :: "toml_item \<Rightarrow> string option" where
  "item_as_str (ValueItem v) = as_str v"
| "item_as_str _ = None"

fun item_as_bool :: "toml_item \<Rightarrow> bool option" where
  "item_as_bool (ValueItem (TBoolean _ b)) = Some b"
| "item_as_bool _ = None"

fun as_array :: "toml_item \<Rightarrow> toml_value list option" where
  "as_array (ValueItem (TArray _ vs)) = Some vs"
| "as_array _ = None"

fun value_as_inline_table :: "toml_value \<Rightarrow> toml_value entries option" where
  "value_as_inline_table (TInline _ es) = Some es"
| "value_as_inline_table _ = None"

fun as_inline_table :: "toml_item \<Rightarrow> toml_value entries option" where
  "as_inline_table (ValueItem v) = value_as_inline_table v"
| "as_inline_table _ = None"

fun as_table_like :: "toml_item \<Rightarrow> toml_item entries option" where
  "as_table_like (TableItem _ es) = Some es"
| "as_table_like (ValueItem (TInline _ es)) = Some (map (\<lambda>(k, text, v). (k, text, ValueItem v)) es)"
| "as_table_like _ = None"

definition table_get :: "toml_item entries \<Rightarrow> string \<Rightarrow> toml_item option" where
  "table_get es k = present_item (find_entry k es)"

fun into_value :: "toml_item \<Rightarrow> toml_value option" where
  "into_value NoneItem = None"
| "into_value (ValueItem v) = Some v"
| "into_value (TableItem _ es) = Some (TInline []
     (concat (map (\<lambda>(k, text, i). case into_value i of None \<Rightarrow> [] | Some v \<Rightarrow> [(k, [], v)]) es)))"
| "into_value (TablesItem _ ts) = Some (TArray [] (map (\<lambda>es. TInline []
     (concat (map (\<lambda>(k, text, i). case into_value i of None \<Rightarrow> [] | Some v \<Rightarrow> [(k, [], v)]) es))) ts))"

fun like_insert :: "string \<Rightarrow> toml_item \<Rightarrow> toml_item \<Rightarrow> toml_item option" where
  "like_insert k item (TableItem text es) = Some (TableItem text (put_entry k item es))"
| "like_insert k item (ValueItem (TInline text es)) =
     map_option (\<lambda>v. ValueItem (TInline text (put_entry k v es))) (into_value item)"
| "like_insert k item _ = None"

fun like_remove :: "string \<Rightarrow> toml_item \<Rightarrow> toml_item option" where
  "like_remove k (TableItem text es) = Some (TableItem text (drop_entry k es))"
| "like_remove k (ValueItem (TInline text es)) = Some (ValueItem (TInline text (drop_entry k es)))"
| "like_remove k _ = None"

definition like_get :: "toml_item \<Rightarrow> string \<Rightarrow> toml_item option" where
  "like_get item k = Option.bind (as_table_like item) (\<lambda>es. table_get es k)"

definition like_is_empty :: "toml_item \<Rightarrow> bool" where
  "like_is_empty item = (case as_table_like item of None \<Rightarrow> True | Some es \<Rightarrow> list_all (\<lambda>(k, text, i). i = NoneItem) es)"

definition otel_get :: "toml_document \<Rightarrow> string \<Rightarrow> toml_item option" where
  "otel_get doc k = Option.bind (doc_get doc ''otel'') (\<lambda>otel. like_get otel k)"

subsection \<open>Managed values\<close>

definition AUTH_HEADER_NAME :: string where
  "AUTH_HEADER_NAME = ''x-agent-observability-token''"

definition OWNED_OTEL_KEYS :: "string list" where
  "OWNED_OTEL_KEYS = [''exporter'', ''log_user_prompt'', ''environment'']"

record exporter_security =
  es_ca_certificate :: string
  es_auth_header_value :: string

record managed_values =
  mv_binary :: string
  mv_runtime_root :: string
  mv_endpoint :: string
  mv_ca_certificate :: string
  mv_auth_header_value :: string

definition managed_path :: "path \<Rightarrow> string \<Rightarrow> config_error + string" where
  "managed_path p argument =
     (if path_identity p = [] \<or> \<not> is_absolute p then Inl (InvalidArgument argument) else Inr (path_identity p))"

definition exporter_security_new :: "path \<Rightarrow> string \<Rightarrow> config_error + exporter_security" where
  "exporter_security_new ca_certificate auth_header_value =
     (if auth_header_value = [] \<or> list_ex (\<lambda>c. \<not> (33 \<le> byte_of c \<and> byte_of c \<le> 126)) auth_header_value
      then Inl (InvalidArgument ''collector authentication header value'')
      else bind_result (managed_path ca_certificate ''CA certificate path'') (\<lambda>ca.
        Inr \<lparr>es_ca_certificate = ca, es_auth_header_value = auth_header_value\<rparr>))"

definition notify_value :: "managed_values \<Rightarrow> toml_value" where
  "notify_value m = TArray [] [TString [] (mv_binary m), TString [] ''codex-notify'', TString [] (mv_runtime_root m)]"

definition exporter_value :: "managed_values \<Rightarrow> toml_value" where
  "exporter_value m =
     (let tls = put_entry ''ca-certificate'' (TString [] (mv_ca_certificate m)) [];
          headers = put_entry AUTH_HEADER_NAME (TString [] (mv_auth_header_value m)) [];
          http = put_entry ''headers'' (TInline [] headers) (put_entry ''tls'' (TInline [] tls)
            (put_entry ''protocol'' (TString [] ''json'') (put_entry ''endpoint'' (TString [] (mv_endpoint m)) [])))
      in TInline [] (put_entry ''otlp-http'' (TInline [] http) []))"

definition fingerprint :: "digest \<Rightarrow> (toml_value \<Rightarrow> string) \<Rightarrow> managed_values \<Rightarrow> bool \<Rightarrow> string" where
  "fingerprint sha text m owns_notify =
     hex (sha ((if owns_notify then text (notify_value m) else []) @ text (exporter_value m)
       @ [CHR 0x00] @ ''false'' @ [CHR 0x00] @ ''local''))"

definition notify_matches :: "toml_item \<Rightarrow> managed_values \<Rightarrow> bool" where
  "notify_matches item m = (case as_array item of
       Some [a, b, c] \<Rightarrow> as_str a = Some (mv_binary m) \<and> as_str b = Some ''codex-notify'' \<and>
         as_str c = Some (mv_runtime_root m)
     | _ \<Rightarrow> False)"

definition valid_external_notify :: "toml_item \<Rightarrow> bool" where
  "valid_external_notify item = (case as_array item of
       None \<Rightarrow> False
     | Some vs \<Rightarrow> vs \<noteq> [] \<and> list_all (\<lambda>v. as_str v \<noteq> None) vs)"

definition get_str :: "string \<Rightarrow> toml_value entries \<Rightarrow> string option" where
  "get_str k es = Option.bind (find_entry k es) as_str"

definition get_inline :: "string \<Rightarrow> toml_value entries \<Rightarrow> toml_value entries option" where
  "get_inline k es = Option.bind (find_entry k es) value_as_inline_table"

definition exporter_matches :: "toml_item \<Rightarrow> managed_values \<Rightarrow> bool" where
  "exporter_matches item m = (case as_inline_table item of None \<Rightarrow> False | Some exporter \<Rightarrow>
     (case get_inline ''otlp-http'' exporter of None \<Rightarrow> False | Some http \<Rightarrow>
     (case get_inline ''tls'' http of None \<Rightarrow> False | Some tls \<Rightarrow>
     (case get_inline ''headers'' http of None \<Rightarrow> False | Some headers \<Rightarrow>
        length exporter = 1 \<and> length http = 4 \<and> length tls = 1 \<and> length headers = 1 \<and>
        get_str ''endpoint'' http = Some (mv_endpoint m) \<and>
        get_str ''protocol'' http = Some ''json'' \<and>
        get_str ''ca-certificate'' tls = Some (mv_ca_certificate m) \<and>
        get_str AUTH_HEADER_NAME headers = Some (mv_auth_header_value m)))))"

subsection \<open>Conflicts and edits\<close>

definition ensure_absent_or_matching :: "toml_item option \<Rightarrow> (toml_item \<Rightarrow> bool) \<Rightarrow> config_error + unit" where
  "ensure_absent_or_matching item matches = (case item of
       None \<Rightarrow> Inr ()
     | Some NoneItem \<Rightarrow> Inr ()
     | Some i \<Rightarrow> ensure (matches i) ConfigConflict)"

definition ensure_no_managed_conflict :: "toml_document \<Rightarrow> managed_values \<Rightarrow> config_error + unit" where
  "ensure_no_managed_conflict doc m =
     bind_result (case doc_get doc ''notify'' of
         Some notify \<Rightarrow> ensure (notify_matches notify m \<or> valid_external_notify notify) ConfigConflict
       | None \<Rightarrow> Inr ()) (\<lambda>_.
     case doc_get doc ''otel'' of
       None \<Rightarrow> Inr ()
     | Some otel \<Rightarrow>
         bind_result (ok_or (as_table_like otel) ConfigConflict) (\<lambda>table.
         bind_result (ensure_absent_or_matching (table_get table ''exporter'') (\<lambda>i. exporter_matches i m)) (\<lambda>_.
         bind_result (ensure_absent_or_matching (table_get table ''log_user_prompt'') (\<lambda>i. item_as_bool i = Some False)) (\<lambda>_.
         ensure_absent_or_matching (table_get table ''environment'') (\<lambda>i. item_as_str i = Some ''local'')))))"

definition managed_item :: "managed_values \<Rightarrow> string \<Rightarrow> toml_item" where
  "managed_item m k =
     (if k = ''exporter'' then ValueItem (exporter_value m)
      else if k = ''log_user_prompt'' then ValueItem (TBoolean [] False)
      else ValueItem (TString [] ''local''))"

definition edit_otel :: "(toml_item \<Rightarrow> toml_item option) \<Rightarrow> toml_document \<Rightarrow> toml_document option" where
  "edit_otel f doc = Option.bind (doc_get doc ''otel'') (\<lambda>otel.
     if as_table_like otel = None then None else map_option (doc_set doc ''otel'') (f otel))"

definition insert_absent :: "managed_values \<Rightarrow> string \<Rightarrow> toml_item \<Rightarrow> toml_item option" where
  "insert_absent m k otel = (if like_get otel k = None then like_insert k (managed_item m k) otel else Some otel)"

fun each_key :: "(string \<Rightarrow> toml_item \<Rightarrow> toml_item option) \<Rightarrow> string list \<Rightarrow> toml_item \<Rightarrow> toml_item option" where
  "each_key f [] otel = Some otel"
| "each_key f (k # ks) otel = Option.bind (f k otel) (each_key f ks)"

definition patch_managed_values :: "toml_document \<Rightarrow> managed_values \<Rightarrow> bool \<Rightarrow> toml_document option" where
  "patch_managed_values doc m owns_notify =
     (let doc = (if owns_notify \<and> doc_get doc ''notify'' = None
                 then doc_set doc ''notify'' (ValueItem (notify_value m)) else doc);
          doc = (if doc_get doc ''otel'' = None then doc_set doc ''otel'' (TableItem [] []) else doc)
      in edit_otel (each_key (insert_absent m) OWNED_OTEL_KEYS) doc)"

definition replace_managed_values :: "toml_document \<Rightarrow> managed_values \<Rightarrow> bool \<Rightarrow> toml_document option" where
  "replace_managed_values doc m owns_notify =
     edit_otel (each_key (\<lambda>k. like_insert k (managed_item m k)) OWNED_OTEL_KEYS)
       (if owns_notify then doc_set doc ''notify'' (ValueItem (notify_value m)) else doc)"

definition items_match :: "(toml_item \<Rightarrow> string) \<Rightarrow> toml_item option \<Rightarrow> toml_item option \<Rightarrow> bool" where
  "items_match text l r = (case (l, r) of
       (None, None) \<Rightarrow> True
     | (Some l, Some r) \<Rightarrow> text l = text r
     | _ \<Rightarrow> False)"

definition owned_values_match :: "(toml_item \<Rightarrow> string) \<Rightarrow> toml_document \<Rightarrow> toml_document \<Rightarrow> bool \<Rightarrow> bool" where
  "owned_values_match text current connected_doc owns_notify \<longleftrightarrow>
     (if owns_notify then items_match text (doc_get current ''notify'') (doc_get connected_doc ''notify'')
      else case doc_get current ''notify'' of None \<Rightarrow> True | Some i \<Rightarrow> valid_external_notify i) \<and>
     list_all (\<lambda>k. items_match text (otel_get current k) (otel_get connected_doc k)) OWNED_OTEL_KEYS"

definition restore_key :: "toml_document \<Rightarrow> string \<Rightarrow> toml_item \<Rightarrow> toml_item option" where
  "restore_key prior k otel = (case otel_get prior k of
       Some item \<Rightarrow> like_insert k item otel
     | None \<Rightarrow> like_remove k otel)"

definition restore_owned_values :: "toml_document \<Rightarrow> toml_document \<Rightarrow> bool \<Rightarrow> config_error + toml_document" where
  "restore_owned_values target prior owns_notify =
     (let target = (if owns_notify then case doc_get prior ''notify'' of
            Some item \<Rightarrow> doc_set target ''notify'' item
          | None \<Rightarrow> doc_remove target ''notify'' else target)
      in bind_result (ok_or (Option.bind (doc_get target ''otel'') as_table_like) ConfigConflict) (\<lambda>_.
         bind_result (ok_or (edit_otel (each_key (restore_key prior) OWNED_OTEL_KEYS) target) Panicked) (\<lambda>restored.
         case doc_get restored ''otel'' of
           Some otel \<Rightarrow> Inr (if like_is_empty otel then doc_remove restored ''otel'' else restored)
         | None \<Rightarrow> Inr (doc_remove restored ''otel''))))"

end
