(* ===== verification/Codex_Config.thy ===== *)
theory Codex_Config
  imports Config_Files_Laws Config_Toml
begin

section \<open>Codex configuration: ownership of the managed values\<close>

text \<open>
  The manager of \<^verbatim>\<open>crates/codex-config/src/lib.rs\<close>: it writes the managed values into the configuration
  of another program, remembers the bytes and permissions it replaced in a private snapshot, rotates the
  values, follows edits of values it does not own, and restores what it replaced.  The snapshot is written
  before the configuration and names the phase, so that an interrupted operation can be finished or undone.
  The TOML parser and printer, SHA-256 and the JSON encoding of the snapshot are parameters.
\<close>

subsection \<open>Bytes\<close>

definition hex_encode :: "string \<Rightarrow> string" where
  "hex_encode bytes = concat (map (\<lambda>c. [hex_digit (byte_of c div 16), hex_digit (byte_of c mod 16)]) bytes)"

definition to_digit16 :: "char \<Rightarrow> nat option" where
  "to_digit16 c =
     (if 48 \<le> byte_of c \<and> byte_of c \<le> 57 then Some (byte_of c - 48)
      else if 97 \<le> byte_of c \<and> byte_of c \<le> 102 then Some (byte_of c - 87)
      else if 65 \<le> byte_of c \<and> byte_of c \<le> 70 then Some (byte_of c - 55)
      else None)"

fun hex_pairs :: "string \<Rightarrow> string option" where
  "hex_pairs (h # l # s) =
     Option.bind (to_digit16 h) (\<lambda>high. Option.bind (to_digit16 l) (\<lambda>low.
     map_option ((#) (char_of (high * 16 + low))) (hex_pairs s)))"
| "hex_pairs _ = Some []"

definition hex_decode :: "string \<Rightarrow> string option" where
  "hex_decode s = (if length s mod 2 \<noteq> 0 then None else hex_pairs s)"

definition bytes_hash :: "digest \<Rightarrow> string \<Rightarrow> string" where
  "bytes_hash sha bytes = hex (sha bytes)"

definition continuation :: "nat \<Rightarrow> nat \<Rightarrow> char \<Rightarrow> bool" where
  "continuation low high c \<longleftrightarrow> low \<le> byte_of c \<and> byte_of c \<le> high"

fun utf8_tail :: "nat \<Rightarrow> string \<Rightarrow> nat option" where
  "utf8_tail b (c # s) =
     (if 194 \<le> b \<and> b \<le> 223 then if continuation 128 191 c then Some 1 else None
      else if 224 \<le> b \<and> b \<le> 239 then
        (case s of d # _ \<Rightarrow>
           if continuation (if b = 224 then 160 else 128) (if b = 237 then 159 else 191) c \<and> continuation 128 191 d
           then Some 2 else None
         | [] \<Rightarrow> None)
      else if 240 \<le> b \<and> b \<le> 244 then
        (case s of d # e # _ \<Rightarrow>
           if continuation (if b = 240 then 144 else 128) (if b = 244 then 143 else 191) c \<and>
              continuation 128 191 d \<and> continuation 128 191 e
           then Some 3 else None
         | _ \<Rightarrow> None)
      else None)"
| "utf8_tail b [] = None"

function utf8_valid :: "string \<Rightarrow> bool" where
  "utf8_valid [] = True"
| "utf8_valid (c # s) = (if byte_of c < 128 then utf8_valid s
     else case utf8_tail (byte_of c) s of None \<Rightarrow> False | Some n \<Rightarrow> utf8_valid (drop n s))"
  by pat_completeness auto
termination by (relation "measure length") (auto simp: less_Suc_eq_le)

subsection \<open>State\<close>

definition SNAPSHOT_VERSION :: string where
  "SNAPSHOT_VERSION = ''codex_config_ownership.v1''"

datatype connection_status = Connected | Disconnected | StatusConflict

datatype notify_ownership = AgentobsOwned | ExternalPreserved

datatype snapshot_phase = PhasePrepared | PhaseConnected | PhaseRotating | PhaseRestoring

datatype snapshot_state =
  PreparedPrior | StateConnected | RotationPrepared | RotationApplied | RestoredPrior | StateConflict

record pending_rotation =
  pr_connected_bytes_hex :: string
  pr_connected_hash :: string
  pr_connected_mode :: u32
  pr_managed_fingerprint :: string

record ownership_snapshot =
  os_schema_version :: string
  os_config_path :: string
  os_phase :: snapshot_phase
  os_prior_existed :: bool
  os_prior_bytes_hex :: string
  os_prior_hash :: string
  os_prior_mode :: u32
  os_connected_bytes_hex :: string
  os_connected_hash :: string
  os_connected_mode :: u32
  os_owns_notify :: bool
  os_managed_fingerprint :: string
  os_pending_rotation :: "pending_rotation option"

record manager =
  m_config_path :: path
  m_state_dir :: path
  m_managed :: "managed_values option"

record config_env =
  ce_sha :: digest
  ce_parse :: "string \<Rightarrow> toml_document option"
  ce_print :: "toml_document \<Rightarrow> string"
  ce_value_text :: "toml_value \<Rightarrow> string"
  ce_item_text :: "toml_item \<Rightarrow> string"
  ce_encode :: "ownership_snapshot \<Rightarrow> string option"
  ce_decode :: "string \<Rightarrow> ownership_snapshot option"

record mutations =
  mu_replace :: "path \<Rightarrow> file_expectation \<Rightarrow> string \<Rightarrow> u32 \<Rightarrow> unit io"
  mu_remove :: "path \<Rightarrow> file_expectation \<Rightarrow> unit io"

definition filesystem_mutations :: mutations where
  "filesystem_mutations = \<lparr>mu_replace = atomic_replace, mu_remove = remove_checked\<rparr>"

definition manager_new :: "path \<Rightarrow> path \<Rightarrow> path \<Rightarrow> path \<Rightarrow> u16 \<Rightarrow> exporter_security \<Rightarrow> config_error + manager" where
  "manager_new config_path state_dir agentobs_binary runtime_root port security =
     bind_result (managed_path agentobs_binary ''agentobs binary path'') (\<lambda>binary.
     bind_result (managed_path runtime_root ''runtime root path'') (\<lambda>runtime.
     if port = 0 then Inl (InvalidArgument ''OTLP port'')
     else Inr \<lparr>m_config_path = config_path, m_state_dir = state_dir, m_managed = Some
       \<lparr>mv_binary = binary, mv_runtime_root = runtime,
        mv_endpoint = ''https://127.0.0.1:'' @ decimal (unat port) @ ''/v1/logs'',
        mv_ca_certificate = es_ca_certificate security,
        mv_auth_header_value = es_auth_header_value security\<rparr>\<rparr>))"

definition from_ownership_snapshot :: "path \<Rightarrow> path \<Rightarrow> manager" where
  "from_ownership_snapshot config_path state_dir =
     \<lparr>m_config_path = config_path, m_state_dir = state_dir, m_managed = None\<rparr>"

definition empty_document :: toml_document where
  "empty_document = \<lparr>doc_text = [], doc_entries = []\<rparr>"

definition parse_document :: "config_env \<Rightarrow> string \<Rightarrow> config_error + toml_document" where
  "parse_document ce bytes =
     (if \<not> utf8_valid bytes then Inl (InvalidArgument ''Codex config encoding'')
      else if bytes = [] then Inr empty_document else ok_or (ce_parse ce bytes) InvalidToml)"

definition managed_fingerprint :: "config_env \<Rightarrow> managed_values \<Rightarrow> bool \<Rightarrow> string" where
  "managed_fingerprint ce = fingerprint (ce_sha ce) (ce_value_text ce)"

subsection \<open>Snapshots\<close>

definition decoded :: "string \<Rightarrow> config_error + string" where
  "decoded h = ok_or (hex_decode h) InvalidSnapshot"

definition validate_path_and_prior :: "config_env \<Rightarrow> manager \<Rightarrow> ownership_snapshot \<Rightarrow> config_error + unit" where
  "validate_path_and_prior ce m s =
     bind_result (decoded (os_prior_bytes_hex s)) (\<lambda>prior.
     bind_result (decoded (os_connected_bytes_hex s)) (\<lambda>connected_bytes.
     bind_result (case os_pending_rotation s of
         Some pending \<Rightarrow> bind_result (decoded (pr_connected_bytes_hex pending)) (\<lambda>pending_bytes.
           Inr (os_phase s = PhaseRotating \<and> pr_connected_hash pending = bytes_hash (ce_sha ce) pending_bytes \<and>
             pr_connected_mode pending = os_connected_mode s))
       | None \<Rightarrow> Inr (os_phase s \<noteq> PhaseRotating)) (\<lambda>pending_is_valid.
     ensure (\<not> (os_schema_version s \<noteq> SNAPSHOT_VERSION
         \<or> os_config_path s \<noteq> path_identity (m_config_path m)
         \<or> os_prior_hash s \<noteq> bytes_hash (ce_sha ce) prior
         \<or> os_connected_hash s \<noteq> bytes_hash (ce_sha ce) connected_bytes
         \<or> (\<not> os_prior_existed s \<and> prior \<noteq> [])
         \<or> os_prior_mode s AND 63 \<noteq> 0
         \<or> os_connected_mode s AND 63 \<noteq> 0
         \<or> os_connected_mode s \<noteq> os_prior_mode s
         \<or> \<not> pending_is_valid)) InvalidSnapshot)))"

definition to_bytes :: "config_env \<Rightarrow> ownership_snapshot \<Rightarrow> config_error + string" where
  "to_bytes ce s = bind_result (ok_or (ce_encode ce s) InvalidSnapshot) (\<lambda>bytes. Inr (bytes @ [CHR 0x0A]))"

definition matches_prior :: "ownership_snapshot \<Rightarrow> existing_file \<Rightarrow> config_error + bool" where
  "matches_prior s current =
     (if os_prior_existed s
      then bind_result (decoded (os_prior_bytes_hex s)) (\<lambda>prior. Inr (file_matches current prior (os_prior_mode s)))
      else Inr (\<not> ef_existed current))"

definition matches_connected :: "ownership_snapshot \<Rightarrow> existing_file \<Rightarrow> config_error + bool" where
  "matches_connected s current =
     bind_result (decoded (os_connected_bytes_hex s)) (\<lambda>bytes. Inr (file_matches current bytes (os_connected_mode s)))"

definition matches_pending :: "ownership_snapshot \<Rightarrow> existing_file \<Rightarrow> config_error + bool" where
  "matches_pending s current =
     bind_result (ok_or (os_pending_rotation s) InvalidSnapshot) (\<lambda>pending.
     bind_result (decoded (pr_connected_bytes_hex pending)) (\<lambda>bytes.
     Inr (file_matches current bytes (pr_connected_mode pending))))"

definition pending_managed_fingerprint :: "ownership_snapshot \<Rightarrow> string option" where
  "pending_managed_fingerprint s = map_option pr_managed_fingerprint (os_pending_rotation s)"

definition when_matches :: "bool \<Rightarrow> config_error + bool \<Rightarrow> 'a \<Rightarrow> config_error + 'a \<Rightarrow> config_error + 'a" where
  "when_matches guard r a rest = (if guard then bind_result r (\<lambda>b. if b then Inr a else rest) else rest)"

definition judge :: "ownership_snapshot \<Rightarrow> existing_file \<Rightarrow> config_error + snapshot_state" where
  "judge s current =
     when_matches (os_phase s = PhasePrepared) (matches_prior s current) PreparedPrior
     (when_matches (os_phase s = PhaseRestoring) (matches_prior s current) RestoredPrior
     (when_matches (os_phase s = PhaseRotating) (matches_connected s current) RotationPrepared
     (when_matches (os_phase s = PhaseRotating) (matches_pending s current) RotationApplied
     (when_matches True (matches_connected s current) StateConnected (Inr StateConflict)))))"

definition snapshot_path :: "manager \<Rightarrow> path" where
  "snapshot_path m = path_join (m_state_dir m) SNAPSHOT_FILE"

definition read_config :: "manager \<Rightarrow> existing_file io" where
  "read_config m = read_optional_private_file (m_config_path m)"

definition read_snapshot :: "config_env \<Rightarrow> manager \<Rightarrow> (ownership_snapshot \<times> existing_file) io" where
  "read_snapshot ce m =
     io_bind (read_optional_private_file (snapshot_path m)) (\<lambda>existing.
     if \<not> ef_existed existing then io_fail InvalidSnapshot
     else io_lift (bind_result (ok_or (ce_decode ce (ef_bytes existing)) InvalidSnapshot) (\<lambda>s.
       bind_result (validate_path_and_prior ce m s) (\<lambda>_. Inr (s, existing)))))"

definition snapshot_state_of :: "manager \<Rightarrow> ownership_snapshot \<Rightarrow> snapshot_state io" where
  "snapshot_state_of m s =
     io_bind (checked_metadata (m_config_path m)) (\<lambda>meta. case meta of
         None \<Rightarrow> io_lift (judge s existing_missing)
       | Some n \<Rightarrow>
           if \<not> is_file n then io_fail (NonRegularFile (m_config_path m))
           else if unix_mode n \<noteq> os_connected_mode s then io_return StateConflict
           else io_bind (read_config m) (\<lambda>current. io_lift (judge s current)))"

subsection \<open>Locking\<close>

definition managed_values_of :: "manager \<Rightarrow> config_error + managed_values" where
  "managed_values_of m = ok_or (m_managed m) (InvalidArgument ''managed Codex values'')"

definition lock_path :: "manager \<Rightarrow> config_error + path" where
  "lock_path m = bind_result (ok_or (parent (m_config_path m)) (InvalidArgument ''Codex config path''))
     (\<lambda>dir. Inr (path_join dir LOCK_FILE))"

definition manager_lock :: "manager \<Rightarrow> unit io" where
  "manager_lock m = io_bind (io_lift (lock_path m)) mutation_lock"

definition ensure_private_state_dir :: "manager \<Rightarrow> unit io" where
  "ensure_private_state_dir m =
     io_bind (io_lift (ok_or (parent (m_state_dir m)) (InvalidArgument ''ownership state path''))) (\<lambda>dir.
     io_bind (ensure_private_directory dir) (\<lambda>_. ensure_private_directory (m_state_dir m)))"

subsection \<open>Steps over a snapshot\<close>

definition write_snapshot ::
  "config_env \<Rightarrow> mutations \<Rightarrow> manager \<Rightarrow> ownership_snapshot \<Rightarrow> existing_file \<Rightarrow> existing_file io" where
  "write_snapshot ce mu m s current =
     io_bind (io_lift (to_bytes ce s)) (\<lambda>bytes.
     io_bind (mu_replace mu (snapshot_path m) (expect_present current) bytes 384) (\<lambda>_.
     io_return (existing_present bytes 384)))"

definition transition_snapshot ::
  "config_env \<Rightarrow> mutations \<Rightarrow> manager \<Rightarrow> ownership_snapshot \<Rightarrow> existing_file \<Rightarrow> snapshot_phase \<Rightarrow>
   (ownership_snapshot \<times> existing_file) io" where
  "transition_snapshot ce mu m s current phase =
     (let s = s\<lparr>os_phase := phase\<rparr>
      in io_bind (write_snapshot ce mu m s current) (\<lambda>file. io_return (s, file)))"

definition finish_rotation ::
  "config_env \<Rightarrow> mutations \<Rightarrow> manager \<Rightarrow> ownership_snapshot \<Rightarrow> existing_file \<Rightarrow> snapshot_state \<Rightarrow>
   (ownership_snapshot \<times> existing_file) io" where
  "finish_rotation ce mu m s current state =
     io_bind
       (if state = RotationPrepared
        then io_bind (io_lift (ok_or (os_pending_rotation s) InvalidSnapshot)) (\<lambda>pending.
          io_bind (io_lift (decoded (os_connected_bytes_hex s))) (\<lambda>connected_bytes.
          io_bind (io_lift (decoded (pr_connected_bytes_hex pending))) (\<lambda>pending_bytes.
          mu_replace mu (m_config_path m) (Present connected_bytes (os_connected_mode s))
            pending_bytes (pr_connected_mode pending))))
        else if state \<noteq> RotationApplied
        then io_fail (if state = StateConflict then ConfigConflict else InvalidSnapshot)
        else io_return ()) (\<lambda>_.
     io_bind (io_lift (ok_or (os_pending_rotation s) InvalidSnapshot)) (\<lambda>pending.
     let s = s\<lparr>os_phase := PhaseConnected,
           os_connected_bytes_hex := pr_connected_bytes_hex pending,
           os_connected_hash := pr_connected_hash pending,
           os_connected_mode := pr_connected_mode pending,
           os_managed_fingerprint := pr_managed_fingerprint pending,
           os_pending_rotation := None\<rparr>
     in io_bind (write_snapshot ce mu m s current) (\<lambda>file. io_return (s, file))))"

definition rotate_connected ::
  "config_env \<Rightarrow> mutations \<Rightarrow> manager \<Rightarrow> ownership_snapshot \<Rightarrow> existing_file \<Rightarrow> managed_values \<Rightarrow>
   (ownership_snapshot \<times> existing_file) io" where
  "rotate_connected ce mu m s current managed =
     io_bind (io_lift (bind_result (decoded (os_connected_bytes_hex s)) (parse_document ce))) (\<lambda>doc.
     io_bind (io_lift (ok_or (replace_managed_values doc managed (os_owns_notify s)) Panicked)) (\<lambda>doc.
     let pending_bytes = ce_print ce doc;
         s = s\<lparr>os_phase := PhaseRotating, os_pending_rotation := Some
           \<lparr>pr_connected_bytes_hex = hex_encode pending_bytes,
            pr_connected_hash = bytes_hash (ce_sha ce) pending_bytes,
            pr_connected_mode = os_connected_mode s,
            pr_managed_fingerprint = managed_fingerprint ce managed (os_owns_notify s)\<rparr>\<rparr>
     in io_bind (write_snapshot ce mu m s current) (\<lambda>rotating_file.
        finish_rotation ce mu m s rotating_file RotationPrepared)))"

definition rebased_snapshot :: "config_env \<Rightarrow> ownership_snapshot \<Rightarrow> string \<Rightarrow> existing_file \<Rightarrow> ownership_snapshot" where
  "rebased_snapshot ce s rebased_prior current = s\<lparr>os_prior_existed := True,
     os_prior_hash := bytes_hash (ce_sha ce) rebased_prior,
     os_prior_bytes_hex := hex_encode rebased_prior,
     os_prior_mode := ef_mode current,
     os_connected_hash := bytes_hash (ce_sha ce) (ef_bytes current),
     os_connected_bytes_hex := hex_encode (ef_bytes current),
     os_connected_mode := ef_mode current\<rparr>"

definition rebase_unowned_edits ::
  "config_env \<Rightarrow> mutations \<Rightarrow> manager \<Rightarrow> ownership_snapshot \<Rightarrow> existing_file \<Rightarrow>
   (ownership_snapshot \<times> existing_file) option io" where
  "rebase_unowned_edits ce mu m s snapshot_file =
     io_bind (read_config m) (\<lambda>current.
     if \<not> ef_existed current \<or> ef_mode current \<noteq> os_connected_mode s then io_return None
     else
       io_bind (io_lift (bind_result (decoded (os_connected_bytes_hex s)) (parse_document ce))) (\<lambda>connected_doc.
       io_bind (io_lift (parse_document ce (ef_bytes current))) (\<lambda>current_doc.
       if \<not> owned_values_match (ce_item_text ce) current_doc connected_doc (os_owns_notify s) then io_return None
       else
         io_bind (io_lift (bind_result (decoded (os_prior_bytes_hex s)) (parse_document ce))) (\<lambda>prior_doc.
         io_bind (io_lift (restore_owned_values current_doc prior_doc (os_owns_notify s))) (\<lambda>rebased.
         let rebased_prior = ce_print ce rebased
         in io_bind (read_config m) (\<lambda>confirmed.
           if \<not> file_matches confirmed (ef_bytes current) (ef_mode current) then io_fail ConfigConflict
           else
             io_bind (write_snapshot ce mu m (rebased_snapshot ce s rebased_prior current) snapshot_file) (\<lambda>file.
             io_return (Some (rebased_snapshot ce s rebased_prior current, file)))))))))"

definition follow_edits ::
  "config_env \<Rightarrow> mutations \<Rightarrow> manager \<Rightarrow> ownership_snapshot \<Rightarrow> existing_file \<Rightarrow> snapshot_state \<Rightarrow>
   (ownership_snapshot \<times> existing_file \<times> snapshot_state) io" where
  "follow_edits ce mu m s snapshot_file state =
     (if state = StateConflict \<and> os_phase s = PhaseConnected
      then io_bind (rebase_unowned_edits ce mu m s snapshot_file) (\<lambda>rebased. case rebased of
          Some (s', rebased_file) \<Rightarrow> io_return (s', rebased_file, StateConnected)
        | None \<Rightarrow> io_return (s, snapshot_file, state))
      else io_return (s, snapshot_file, state))"

definition connect_judged ::
  "config_env \<Rightarrow> mutations \<Rightarrow> manager \<Rightarrow> managed_values \<Rightarrow> ownership_snapshot \<Rightarrow> existing_file \<Rightarrow> snapshot_state \<Rightarrow>
   connection_status option io" where
  "connect_judged ce mu m managed s snapshot_file state =
     (let managed_print = managed_fingerprint ce managed (os_owns_notify s)
      in if os_phase s = PhaseRotating then
           (if pending_managed_fingerprint s \<noteq> Some managed_print then io_fail ConfigConflict
            else io_bind (finish_rotation ce mu m s snapshot_file state) (\<lambda>_. io_return (Some Connected)))
         else if os_managed_fingerprint s \<noteq> managed_print then
           (if state \<noteq> StateConnected then io_fail ConfigConflict
            else io_bind (rotate_connected ce mu m s snapshot_file managed) (\<lambda>_. io_return (Some Connected)))
         else case state of
             PreparedPrior \<Rightarrow> io_bind (mu_remove mu (snapshot_path m) (expect_present snapshot_file)) (\<lambda>_. io_return None)
           | RestoredPrior \<Rightarrow> io_bind (mu_remove mu (snapshot_path m) (expect_present snapshot_file)) (\<lambda>_. io_return None)
           | StateConnected \<Rightarrow>
               io_bind (if os_phase s \<noteq> PhaseConnected
                 then transition_snapshot ce mu m s snapshot_file PhaseConnected else io_return (s, snapshot_file))
                 (\<lambda>_. io_return (Some Connected))
           | RotationPrepared \<Rightarrow> io_fail InvalidSnapshot
           | RotationApplied \<Rightarrow> io_fail InvalidSnapshot
           | StateConflict \<Rightarrow> io_fail ConfigConflict)"

definition connect_existing :: "config_env \<Rightarrow> mutations \<Rightarrow> manager \<Rightarrow> connection_status option io" where
  "connect_existing ce mu m =
     io_bind (read_snapshot ce m) (\<lambda>(s, snapshot_file).
     io_bind (io_lift (managed_values_of m)) (\<lambda>managed.
     io_bind (snapshot_state_of m s) (\<lambda>state.
     io_bind (follow_edits ce mu m s snapshot_file state) (\<lambda>(s, snapshot_file, state).
     connect_judged ce mu m managed s snapshot_file state))))"

definition first_snapshot ::
  "config_env \<Rightarrow> manager \<Rightarrow> existing_file \<Rightarrow> string \<Rightarrow> bool \<Rightarrow> managed_values \<Rightarrow> ownership_snapshot" where
  "first_snapshot ce m prior updated owns_notify managed =
     \<lparr>os_schema_version = SNAPSHOT_VERSION,
      os_config_path = path_identity (m_config_path m),
      os_phase = (if file_matches prior updated (ef_mode prior) then PhaseConnected else PhasePrepared),
      os_prior_existed = ef_existed prior,
      os_prior_bytes_hex = hex_encode (ef_bytes prior),
      os_prior_hash = bytes_hash (ce_sha ce) (ef_bytes prior),
      os_prior_mode = ef_mode prior,
      os_connected_bytes_hex = hex_encode updated,
      os_connected_hash = bytes_hash (ce_sha ce) updated,
      os_connected_mode = ef_mode prior,
      os_owns_notify = owns_notify,
      os_managed_fingerprint = managed_fingerprint ce managed owns_notify,
      os_pending_rotation = None\<rparr>"

definition connect_plan :: "config_env \<Rightarrow> manager \<Rightarrow> managed_values \<Rightarrow> existing_file \<Rightarrow>
   config_error + string \<times> ownership_snapshot \<times> string" where
  "connect_plan ce m managed prior =
     bind_result (parse_document ce (ef_bytes prior)) (\<lambda>doc.
     bind_result (ensure_no_managed_conflict doc managed) (\<lambda>_.
     let owns_notify = (case doc_get doc ''notify'' of None \<Rightarrow> True | Some item \<Rightarrow> notify_matches item managed)
     in bind_result (ok_or (patch_managed_values doc managed owns_notify) Panicked) (\<lambda>doc.
        let updated = ce_print ce doc;
            s = first_snapshot ce m prior updated owns_notify managed
        in bind_result (to_bytes ce s) (\<lambda>snapshot_bytes. Inr (updated, s, snapshot_bytes)))))"

definition connect_undo ::
  "mutations \<Rightarrow> manager \<Rightarrow> ownership_snapshot \<Rightarrow> string \<Rightarrow> config_error \<Rightarrow> unit io" where
  "connect_undo mu m s snapshot_bytes e =
     io_bind (snapshot_state_of m s) (\<lambda>state. case state of
         PreparedPrior \<Rightarrow>
           io_bind (io_attempt (mu_remove mu (snapshot_path m) (Present snapshot_bytes 384))) (\<lambda>r.
             case r of Inl _ \<Rightarrow> io_fail RollbackFailed | Inr _ \<Rightarrow> io_fail e)
       | StateConnected \<Rightarrow> io_fail e
       | _ \<Rightarrow> io_fail ConfigConflict)"

definition connect_apply ::
  "config_env \<Rightarrow> mutations \<Rightarrow> manager \<Rightarrow> existing_file \<Rightarrow> string \<Rightarrow> ownership_snapshot \<Rightarrow> string \<Rightarrow> connection_status io" where
  "connect_apply ce mu m prior updated s snapshot_bytes =
     (if file_matches prior updated (ef_mode prior) then io_return Connected
      else
        io_bind (io_catch
          (mu_replace mu (m_config_path m) (expect_existing prior) updated (ef_mode prior))
          (connect_undo mu m s snapshot_bytes)) (\<lambda>_.
        io_bind (transition_snapshot ce mu m s (existing_present snapshot_bytes 384) PhaseConnected) (\<lambda>_.
        io_return Connected)))"

definition connect_fresh :: "config_env \<Rightarrow> mutations \<Rightarrow> manager \<Rightarrow> managed_values \<Rightarrow> connection_status io" where
  "connect_fresh ce mu m managed =
     io_bind (read_config m) (\<lambda>prior.
     io_bind (io_lift (connect_plan ce m managed prior)) (\<lambda>(updated, s, snapshot_bytes).
     io_bind (mu_replace mu (snapshot_path m) Missing snapshot_bytes 384) (\<lambda>_.
     connect_apply ce mu m prior updated s snapshot_bytes)))"

definition connect_with :: "config_env \<Rightarrow> mutations \<Rightarrow> manager \<Rightarrow> connection_status io" where
  "connect_with ce mu m =
     io_bind (io_lift (managed_values_of m)) (\<lambda>managed.
     io_bind (ensure_private_state_dir m) (\<lambda>_.
     io_bind (manager_lock m) (\<lambda>_.
     io_bind (checked_metadata (snapshot_path m)) (\<lambda>meta.
     io_bind (if meta = None then io_return None else connect_existing ce mu m) (\<lambda>status.
     case status of
       Some status \<Rightarrow> io_return status
     | None \<Rightarrow> connect_fresh ce mu m managed)))))"

definition config_connect :: "config_env \<Rightarrow> manager \<Rightarrow> connection_status io" where
  "config_connect ce m = connect_with ce filesystem_mutations m"

subsection \<open>Disconnecting\<close>

definition settle_rotation ::
  "config_env \<Rightarrow> mutations \<Rightarrow> manager \<Rightarrow> ownership_snapshot \<Rightarrow> existing_file \<Rightarrow> snapshot_state \<Rightarrow>
   (ownership_snapshot \<times> existing_file \<times> snapshot_state) io" where
  "settle_rotation ce mu m s snapshot_file state =
     (let managed_print = map_option (\<lambda>managed. managed_fingerprint ce managed (os_owns_notify s)) (m_managed m)
      in if os_phase s = PhaseRotating then
           (if managed_print \<noteq> None \<and> pending_managed_fingerprint s \<noteq> managed_print then io_fail ConfigConflict
            else io_bind (finish_rotation ce mu m s snapshot_file state) (\<lambda>(s, file). io_return (s, file, StateConnected)))
         else if managed_print \<noteq> None \<and> Some (os_managed_fingerprint s) \<noteq> managed_print then io_fail ConfigConflict
         else io_return (s, snapshot_file, state))"

definition restore_prior :: "mutations \<Rightarrow> manager \<Rightarrow> ownership_snapshot \<Rightarrow> string \<Rightarrow> string \<Rightarrow> unit io" where
  "restore_prior mu m s connected_bytes prior =
     (if os_prior_existed s
      then mu_replace mu (m_config_path m) (Present connected_bytes (os_connected_mode s)) prior (os_prior_mode s)
      else mu_remove mu (m_config_path m) (Present connected_bytes (os_connected_mode s)))"

definition disconnect_restoring ::
  "mutations \<Rightarrow> manager \<Rightarrow> ownership_snapshot \<Rightarrow> existing_file \<Rightarrow> connection_status io" where
  "disconnect_restoring mu m s snapshot_file =
     io_bind (io_lift (decoded (os_connected_bytes_hex s))) (\<lambda>connected_bytes.
     io_bind (io_lift (decoded (os_prior_bytes_hex s))) (\<lambda>prior.
     io_bind (io_attempt (restore_prior mu m s connected_bytes prior)) (\<lambda>r. case r of
         Inl e \<Rightarrow> io_bind (snapshot_state_of m s) (\<lambda>state. case state of
             RestoredPrior \<Rightarrow> io_bind (mu_remove mu (snapshot_path m) (expect_present snapshot_file)) (\<lambda>_. io_return Disconnected)
           | StateConnected \<Rightarrow> io_fail e
           | _ \<Rightarrow> io_fail ConfigConflict)
       | Inr _ \<Rightarrow> io_bind (mu_remove mu (snapshot_path m) (expect_present snapshot_file)) (\<lambda>_. io_return Disconnected))))"

definition disconnect_connected ::
  "config_env \<Rightarrow> mutations \<Rightarrow> manager \<Rightarrow> ownership_snapshot \<Rightarrow> existing_file \<Rightarrow> connection_status io" where
  "disconnect_connected ce mu m s snapshot_file =
     io_bind (if os_phase s \<noteq> PhaseRestoring
       then transition_snapshot ce mu m s snapshot_file PhaseRestoring else io_return (s, snapshot_file)) (\<lambda>(s, snapshot_file).
     disconnect_restoring mu m s snapshot_file)"

definition disconnect_settled ::
  "config_env \<Rightarrow> mutations \<Rightarrow> manager \<Rightarrow> ownership_snapshot \<Rightarrow> existing_file \<Rightarrow> snapshot_state \<Rightarrow> connection_status io" where
  "disconnect_settled ce mu m s snapshot_file state = (case state of
       PreparedPrior \<Rightarrow> io_bind (mu_remove mu (snapshot_path m) (expect_present snapshot_file)) (\<lambda>_. io_return Disconnected)
     | RestoredPrior \<Rightarrow> io_bind (mu_remove mu (snapshot_path m) (expect_present snapshot_file)) (\<lambda>_. io_return Disconnected)
     | StateConnected \<Rightarrow> disconnect_connected ce mu m s snapshot_file
     | RotationPrepared \<Rightarrow> io_fail InvalidSnapshot
     | RotationApplied \<Rightarrow> io_fail InvalidSnapshot
     | StateConflict \<Rightarrow> io_fail ConfigConflict)"

definition disconnect_with :: "config_env \<Rightarrow> mutations \<Rightarrow> manager \<Rightarrow> connection_status io" where
  "disconnect_with ce mu m =
     io_bind (ensure_private_state_dir m) (\<lambda>_.
     io_bind (manager_lock m) (\<lambda>_.
     io_bind (checked_metadata (snapshot_path m)) (\<lambda>meta.
     if meta = None then io_return Disconnected
     else
       io_bind (read_snapshot ce m) (\<lambda>(s, snapshot_file).
       io_bind (snapshot_state_of m s) (\<lambda>state.
       io_bind (settle_rotation ce mu m s snapshot_file state) (\<lambda>(s, snapshot_file, state).
       disconnect_settled ce mu m s snapshot_file state))))))"

definition config_disconnect :: "config_env \<Rightarrow> manager \<Rightarrow> connection_status io" where
  "config_disconnect ce m = disconnect_with ce filesystem_mutations m"

subsection \<open>Status\<close>

definition status_settled ::
  "config_env \<Rightarrow> mutations \<Rightarrow> manager \<Rightarrow> ownership_snapshot \<Rightarrow> existing_file \<Rightarrow> snapshot_state \<Rightarrow>
   connection_status option io" where
  "status_settled ce mu m s snapshot_file state = (case state of
       PreparedPrior \<Rightarrow> io_bind (mu_remove mu (snapshot_path m) (expect_present snapshot_file)) (\<lambda>_. io_return None)
     | RestoredPrior \<Rightarrow> io_bind (mu_remove mu (snapshot_path m) (expect_present snapshot_file)) (\<lambda>_. io_return None)
     | StateConnected \<Rightarrow>
         io_bind (if os_phase s \<noteq> PhaseConnected
           then transition_snapshot ce mu m s snapshot_file PhaseConnected else io_return (s, snapshot_file))
           (\<lambda>_. io_return (Some Connected))
     | RotationPrepared \<Rightarrow> io_fail InvalidSnapshot
     | RotationApplied \<Rightarrow> io_fail InvalidSnapshot
     | StateConflict \<Rightarrow> io_return (Some StatusConflict))"

definition status_of_snapshot ::
  "config_env \<Rightarrow> mutations \<Rightarrow> manager \<Rightarrow> ownership_snapshot \<Rightarrow> existing_file \<Rightarrow> snapshot_state \<Rightarrow>
   connection_status option io" where
  "status_of_snapshot ce mu m s snapshot_file state =
     (let managed_print = map_option (\<lambda>managed. managed_fingerprint ce managed (os_owns_notify s)) (m_managed m)
      in if os_phase s = PhaseRotating then
           (if managed_print \<noteq> None \<and> pending_managed_fingerprint s \<noteq> managed_print
            then io_return (Some StatusConflict)
            else if state = StateConflict then io_return (Some StatusConflict)
            else io_bind (finish_rotation ce mu m s snapshot_file state)
              (\<lambda>(s, file). status_settled ce mu m s file StateConnected))
         else if managed_print \<noteq> None \<and> Some (os_managed_fingerprint s) \<noteq> managed_print
         then io_return (Some StatusConflict)
         else status_settled ce mu m s snapshot_file state)"

definition ownership_status_locked :: "config_env \<Rightarrow> manager \<Rightarrow> connection_status option io" where
  "ownership_status_locked ce m =
     io_bind (checked_metadata (snapshot_path m)) (\<lambda>meta. case meta of
       None \<Rightarrow> io_return None
     | Some metadata \<Rightarrow>
         io_bind (io_lift (validate_private_file (snapshot_path m) metadata)) (\<lambda>_.
         io_bind (read_snapshot ce m) (\<lambda>(s, snapshot_file).
         io_bind (snapshot_state_of m s) (\<lambda>state.
         status_of_snapshot ce filesystem_mutations m s snapshot_file state))))"

definition ownership_status :: "config_env \<Rightarrow> manager \<Rightarrow> connection_status option io" where
  "ownership_status ce m =
     io_bind (checked_metadata (m_state_dir m)) (\<lambda>state_metadata. case state_metadata of
       None \<Rightarrow> io_return None
     | Some dir \<Rightarrow>
         io_bind (io_lift (validate_private_dir_metadata (m_state_dir m) dir)) (\<lambda>_.
         io_bind (checked_metadata (snapshot_path m)) (\<lambda>meta.
         if meta = None then io_return None
         else io_bind (manager_lock m) (\<lambda>_. ownership_status_locked ce m))))"

definition config_status :: "config_env \<Rightarrow> manager \<Rightarrow> connection_status io" where
  "config_status ce m = io_bind (ownership_status ce m) (\<lambda>status.
     io_return (case status of None \<Rightarrow> Disconnected | Some status \<Rightarrow> status))"

definition notify_ownership_of :: "config_env \<Rightarrow> manager \<Rightarrow> notify_ownership option io" where
  "notify_ownership_of ce m =
     io_bind (ensure_private_state_dir m) (\<lambda>_.
     io_bind (manager_lock m) (\<lambda>_.
     io_bind (checked_metadata (snapshot_path m)) (\<lambda>meta.
     if meta = None then io_return None
     else
       io_bind (read_snapshot ce m) (\<lambda>(s, _).
       io_bind (snapshot_state_of m s) (\<lambda>state. case state of
           StateConnected \<Rightarrow> io_return (Some (if os_owns_notify s then AgentobsOwned else ExternalPreserved))
         | PreparedPrior \<Rightarrow> io_return None
         | RestoredPrior \<Rightarrow> io_return None
         | RotationPrepared \<Rightarrow> io_fail InvalidSnapshot
         | RotationApplied \<Rightarrow> io_fail InvalidSnapshot
         | StateConflict \<Rightarrow> io_fail ConfigConflict)))))"

end
