(* ===== verification/Codex_Config_Laws.thy ===== *)
theory Codex_Config_Laws
  imports Codex_Config
begin

section \<open>Codex configuration: the replaced file is never lost\<close>

text \<open>
  The invariant of the ownership protocol and what follows from it.  A machine tracks a file when either no
  snapshot exists and the configuration is that file, or the snapshot records the file and the configuration
  is one of the contents that the phase of the snapshot allows.
\<close>

subsection \<open>Hexadecimal bytes\<close>

lemma byte_of_less: "byte_of c < 256"
  unfolding byte_of_def by simp

lemma char_of_byte_of [simp]: "char_of (byte_of c) = c"
  by (simp add: byte_of_def)

lemma byte_of_hex_digit: "n < 16 \<Longrightarrow> byte_of (hex_digit n) = (if n < 10 then 48 + n else 87 + n)"
  by (simp add: byte_of_def hex_digit_def)

lemma to_digit16_hex_digit: "n < 16 \<Longrightarrow> to_digit16 (hex_digit n) = Some n"
  by (simp add: to_digit16_def byte_of_hex_digit)

lemma hex_encode_simps [simp]:
  "hex_encode [] = []"
  "hex_encode (c # s) = hex_digit (byte_of c div 16) # hex_digit (byte_of c mod 16) # hex_encode s"
  by (simp_all add: hex_encode_def)

lemma length_hex_encode: "length (hex_encode s) = 2 * length s"
  by (induction s) simp_all

lemma hex_pairs_encode: "hex_pairs (hex_encode s) = Some s"
proof (induction s)
  case (Cons c s)
  have "byte_of c div 16 < 16" using byte_of_less [of c] by simp
  moreover have "byte_of c mod 16 < 16" by simp
  ultimately show ?case using Cons by (simp add: to_digit16_hex_digit)
qed simp

lemma hex_roundtrip [simp]: "hex_decode (hex_encode s) = Some s"
  by (simp add: hex_decode_def length_hex_encode hex_pairs_encode)

lemma decoded_encode [simp]: "decoded (hex_encode s) = Inr s"
  by (simp add: decoded_def)

subsection \<open>Recorded files\<close>

definition file_at :: "tree \<Rightarrow> path \<Rightarrow> existing_file \<Rightarrow> bool" where
  "file_at t p f \<longleftrightarrow>
     (if ef_existed f
      then \<exists>m. t p = Some (Regular (ef_bytes f) m) \<and> m AND 63 = 0 \<and> m AND 511 = ef_mode f
      else t p = None \<and> f = existing_missing)"

definition prior_of :: "ownership_snapshot \<Rightarrow> existing_file" where
  "prior_of s = \<lparr>ef_existed = os_prior_existed s, ef_bytes = the (hex_decode (os_prior_bytes_hex s)),
     ef_mode = os_prior_mode s\<rparr>"

definition connected_of :: "ownership_snapshot \<Rightarrow> existing_file" where
  "connected_of s = existing_present (the (hex_decode (os_connected_bytes_hex s))) (os_connected_mode s)"

definition pending_of :: "ownership_snapshot \<Rightarrow> existing_file" where
  "pending_of s = (case os_pending_rotation s of
       None \<Rightarrow> existing_missing
     | Some p \<Rightarrow> existing_present (the (hex_decode (pr_connected_bytes_hex p))) (pr_connected_mode p))"

definition coherent :: "ownership_snapshot \<Rightarrow> tree \<Rightarrow> path \<Rightarrow> bool" where
  "coherent s t p = (case os_phase s of
       PhasePrepared \<Rightarrow> file_at t p (prior_of s) \<or> file_at t p (connected_of s)
     | PhaseConnected \<Rightarrow> file_at t p (connected_of s)
     | PhaseRotating \<Rightarrow> file_at t p (connected_of s) \<or> file_at t p (pending_of s)
     | PhaseRestoring \<Rightarrow> file_at t p (prior_of s) \<or> file_at t p (connected_of s))"

definition tracked :: "config_env \<Rightarrow> manager \<Rightarrow> existing_file \<Rightarrow> tree \<Rightarrow> bool" where
  "tracked ce m prior t = (case t (snapshot_path m) of
       None \<Rightarrow> file_at t (m_config_path m) prior
     | Some n \<Rightarrow> (\<exists>bytes s. n = Regular bytes 384 \<and> ce_decode ce bytes = Some s \<and>
         validate_path_and_prior ce m s = Inr () \<and> prior_of s = prior \<and> coherent s t (m_config_path m)))"

definition codec :: "config_env \<Rightarrow> bool" where
  "codec ce \<longleftrightarrow> (\<forall>s bytes. to_bytes ce s = Inr bytes \<longrightarrow> ce_decode ce bytes = Some s)"

definition placed :: "manager \<Rightarrow> bool" where
  "placed m \<longleftrightarrow> \<not> hidden (m_config_path m) \<and> m_config_path m \<noteq> snapshot_path m \<and>
     m_config_path m \<noteq> m_state_dir m \<and> parent (m_state_dir m) \<noteq> Some (m_config_path m)"

lemma masked_modes [simp]:
  "(m AND 511) AND 63 = (0 :: u32) \<longleftrightarrow> m AND 63 = 0" "(m AND 511) AND 511 = (m AND 511 :: u32)"
proof -
  have "(m AND 511) AND 63 = m AND (511 AND 63 :: u32)" by (simp only: and.assoc)
  then show "(m AND 511) AND 63 = (0 :: u32) \<longleftrightarrow> m AND 63 = 0" by simp
  show "(m AND 511) AND 511 = (m AND 511 :: u32)" by (simp only: and.assoc) simp
qed

lemma file_at_seen: "seen t p = Inr f \<Longrightarrow> file_at t p f"
  by (auto simp: seen_Inr file_at_def existing_present_def existing_missing_def)

lemma seen_file_at: "file_at t p f \<Longrightarrow> seen t p = Inr g \<Longrightarrow> g = f"
  by (auto simp: seen_Inr file_at_def existing_present_def existing_missing_def split: if_splits)

lemma file_at_unique: "file_at t p f \<Longrightarrow> file_at t p g \<Longrightarrow> f = g"
  by (cases f; cases g) (auto simp: file_at_def existing_missing_def split: if_splits)

lemma file_at_cong: "t p = t' p \<Longrightarrow> file_at t p f = file_at t' p f"
  by (simp add: file_at_def)

lemma coherent_cong: "t p = t' p \<Longrightarrow> coherent s t p = coherent s t' p"
  unfolding coherent_def by (simp only: file_at_cong [of t p t'])

lemma tracked_cong:
  "t (snapshot_path m) = t' (snapshot_path m) \<Longrightarrow> t (m_config_path m) = t' (m_config_path m) \<Longrightarrow>
   tracked ce m prior t = tracked ce m prior t'"
  unfolding tracked_def
  by (simp only: file_at_cong [of t "m_config_path m" t'] coherent_cong [of t "m_config_path m" t'])

lemma file_at_installed:
  "mode AND 63 = 0 \<Longrightarrow> mode AND 511 = mode \<Longrightarrow> t p = Some (Regular bytes mode) \<Longrightarrow> file_at t p (existing_present bytes mode)"
  by (simp add: file_at_def existing_present_def)

lemma snapshot_path_name: "path_file_name (snapshot_path m) = Some SNAPSHOT_FILE"
  by (cases "m_state_dir m") (simp add: snapshot_path_def)

lemma snapshot_path_shown [simp]: "\<not> hidden (snapshot_path m)"
  by (simp add: hidden_def snapshot_path_name SNAPSHOT_FILE_def)

lemma snapshot_path_limit [simp]: "byte_limit (snapshot_path m) = MAX_SNAPSHOT_BYTES"
  by (simp add: byte_limit_def snapshot_path_name)

lemma snapshot_path_parent [simp]: "parent (snapshot_path m) = Some (m_state_dir m)"
  by (cases "m_state_dir m") (simp add: snapshot_path_def)

lemma snapshot_path_neq [simp]: "snapshot_path m \<noteq> m_state_dir m"
  by (cases "m_state_dir m") (simp add: snapshot_path_def)

lemma snapshot_path_above [simp]: "parent (m_state_dir m) \<noteq> Some (snapshot_path m)"
proof (cases "m_state_dir m")
  case (Path a cs)
  have "length (butlast cs) \<noteq> length (cs @ [SNAPSHOT_FILE])" by simp
  then have "butlast cs \<noteq> cs @ [SNAPSHOT_FILE]" by metis
  then show ?thesis using Path by (simp add: snapshot_path_def)
qed

subsection \<open>Frames\<close>

definition still :: "manager \<Rightarrow> machine \<Rightarrow> machine \<Rightarrow> bool" where
  "still m d d' \<longleftrightarrow> later d d' \<and> nodes d' (m_config_path m) = nodes d (m_config_path m) \<and>
     nodes d' (snapshot_path m) = nodes d (snapshot_path m)"

lemma still_refl [simp]: "still m d d"
  by (simp add: still_def)

lemma still_trans [trans]: "still m d d' \<Longrightarrow> still m d' d'' \<Longrightarrow> still m d d''"
  by (auto simp: still_def intro: later_trans)

lemma unchanged_still: "unchanged d d' \<Longrightarrow> still m d d'"
  by (simp add: unchanged_def still_def)

lemma still_unchanged: "still m d d' \<Longrightarrow> unchanged d' d'' \<Longrightarrow> still m d d''"
  by (rule still_trans [OF _ unchanged_still])

lemma still_upd:
  "later d d' \<Longrightarrow> nodes d' = (nodes d)(p := x) \<Longrightarrow> p \<noteq> m_config_path m \<Longrightarrow> p \<noteq> snapshot_path m \<Longrightarrow> still m d d'"
  by (simp add: still_def)

lemma still_tracked: "still m d d' \<Longrightarrow> tracked ce m prior (nodes d') = tracked ce m prior (nodes d)"
  by (rule tracked_cong) (simp_all add: still_def)

lemma wp_still:
  assumes "wp f (\<lambda>_. still m d) (\<lambda>_. still m d) d"
    and "\<And>a d'. still m d d' \<Longrightarrow> Q a d'" "\<And>e d'. still m d d' \<Longrightarrow> E e d'"
  shows "wp f Q E d"
  using assms by (rule wp_mono)

lemma still_create_dir:
  assumes "p \<noteq> m_config_path m" "p \<noteq> snapshot_path m"
  shows "wp (create_dir p mode) (\<lambda>_. still m d) (\<lambda>_. still m d) d"
  unfolding create_dir_def
proof (rule wp_syscall_write, goal_cases)
  case (1 d' a t)
  then have "nodes d' = (nodes d)(p \<mapsto> Directory mode)" by (auto simp: result_simps split: if_splits)
  with 1 show ?case using assms by (intro still_upd)
next
  case (2 d' k)
  then show ?case by (simp add: unchanged_still)
qed

lemma wp_validate_private_dir:
  assumes "\<And>d'. unchanged d d' \<Longrightarrow> Q () d'" "\<And>e d'. unchanged d d' \<Longrightarrow> E e d'"
  shows "wp (validate_private_dir p) Q E d"
  unfolding validate_private_dir_def wp_bind
  by (rule wp_checked_metadata) (auto simp: wp_lift intro!: assms split: sum.splits)

lemma still_ensure_private_directory:
  assumes "p \<noteq> m_config_path m" "p \<noteq> snapshot_path m"
  shows "wp (ensure_private_directory p) (\<lambda>_. still m d) (\<lambda>_. still m d) d"
proof -
  have valid: "wp (validate_private_dir p) (\<lambda>_. still m d) (\<lambda>_. still m d) d1" if "still m d d1" for d1
    by (rule wp_validate_private_dir) (use that in \<open>auto intro: still_unchanged\<close>)
  have sync: "wp (case parent p of None \<Rightarrow> io_return () | Some q \<Rightarrow> sync_dir q)
      (\<lambda>_. wp (validate_private_dir p) (\<lambda>_. still m d) (\<lambda>_. still m d))
      (\<lambda>e. wp (if e = IoError AlreadyExists then io_return () else io_fail e)
        (\<lambda>_. wp (validate_private_dir p) (\<lambda>_. still m d) (\<lambda>_. still m d)) (\<lambda>_. still m d)) d1" if d1: "still m d d1" for d1
    using d1 by (cases "parent p")
      (auto simp: wp_simps intro!: wp_sync_dir valid intro: still_unchanged)
  show ?thesis unfolding ensure_private_directory_def wp_bind wp_catch
    by (rule wp_still [OF still_create_dir [OF assms]])
      (auto simp: wp_simps valid intro: sync)
qed

lemma still_ensure_private_state_dir:
  assumes "placed m"
  shows "wp (ensure_private_state_dir m) (\<lambda>_. still m d) (\<lambda>_. still m d) d"
proof (cases "parent (m_state_dir m)")
  case None
  then show ?thesis by (simp add: ensure_private_state_dir_def wp_simps)
next
  case (Some dir)
  have dir: "dir \<noteq> m_config_path m" "dir \<noteq> snapshot_path m" using assms Some by (auto simp: placed_def)
  have state: "m_state_dir m \<noteq> m_config_path m" "m_state_dir m \<noteq> snapshot_path m"
    using assms snapshot_path_neq [of m] by (auto simp: placed_def simp del: snapshot_path_neq)
  show ?thesis unfolding ensure_private_state_dir_def wp_bind wp_lift Some ok_or_simps sum.case
    by (rule wp_still [OF still_ensure_private_directory [OF dir]])
      (auto intro: wp_still [OF still_ensure_private_directory [OF state]] still_trans)
qed

lemma hidden_lock: "lock_path m = Inr p \<Longrightarrow> hidden p"
  by (cases "the (parent (m_config_path m))")
    (auto simp: lock_path_def result_simps hidden_def LOCK_FILE_def)

lemma still_manager_lock:
  assumes "placed m"
  shows "wp (manager_lock m) (\<lambda>_. still m d) (\<lambda>_. still m d) d"
proof (cases "lock_path m")
  case (Inl e)
  then show ?thesis by (simp add: manager_lock_def wp_simps)
next
  case (Inr p)
  have neq: "p \<noteq> m_config_path m" "p \<noteq> snapshot_path m"
    using hidden_lock [OF Inr] assms by (auto simp: placed_def)
  have rest: "wp (io_bind (io_lift (validate_private_file p n)) (\<lambda>_. lock_file)) (\<lambda>_. still m d) (\<lambda>_. still m d) d1"
    if "still m d d1" for d1 n
    using that by (auto simp: wp_simps intro!: wp_idle intro: still_unchanged split: sum.splits)
  have "wp (open_create p 384)
      (\<lambda>n. wp (io_bind (io_lift (validate_private_file p n)) (\<lambda>_. lock_file)) (\<lambda>_. still m d) (\<lambda>_. still m d))
      (\<lambda>_. still m d) d"
    unfolding open_create_def
  proof (rule wp_syscall_write, goal_cases)
    case (1 d' a t)
    then have "nodes d' = nodes d \<or> nodes d' = (nodes d)(p \<mapsto> Regular [] 384)"
      by (auto simp: result_simps split: option.splits node.splits)
    then have "still m d d'" using 1 neq by (auto intro: still_upd simp: still_def)
    then show ?case by (rule rest)
  next
    case (2 d' k)
    then show ?case by (simp add: unchanged_still)
  qed
  then show ?thesis by (simp add: manager_lock_def mutation_lock_def Inr wp_bind wp_lift)
qed

lemma wp_read_snapshot:
  assumes "\<And>d' s bytes mode. unchanged d d' \<Longrightarrow> nodes d (snapshot_path m) = Some (Regular bytes mode) \<Longrightarrow>
      mode AND 63 = 0 \<Longrightarrow> length bytes \<le> MAX_SNAPSHOT_BYTES \<Longrightarrow>
      ce_decode ce bytes = Some s \<Longrightarrow> validate_path_and_prior ce m s = Inr () \<Longrightarrow>
      Q (s, existing_present bytes (mode AND 511)) d'"
    and "\<And>d' e. unchanged d d' \<Longrightarrow> E e d'"
  shows "wp (read_snapshot ce m) Q E d"
  unfolding read_snapshot_def wp_bind
proof (rule wp_read, goal_cases)
  case (1 d' f)
  show ?case
  proof (cases "ef_existed f")
    case False
    then show ?thesis using assms(2) [OF 1(1)] by (simp add: wp_simps)
  next
    case True
    then obtain bytes mode where node: "nodes d (snapshot_path m) = Some (Regular bytes mode)"
      "f = existing_present bytes (mode AND 511)" "mode AND 63 = 0" "length bytes \<le> MAX_SNAPSHOT_BYTES"
      using 1(2) by (auto simp: seen_Inr existing_missing_def)
    show ?thesis using assms(1) [OF 1(1) node(1) node(3,4)] assms(2) [OF 1(1)] node(2) True
      by (auto simp: wp_simps existing_present_def bind_result_def ok_or_def split: option.splits sum.splits)
  qed
qed (use assms(2) in auto)

text \<open>The file that a snapshot is judged against, if the look at the configuration gets that far.\<close>

definition judged :: "manager \<Rightarrow> ownership_snapshot \<Rightarrow> tree \<Rightarrow> snapshot_state \<Rightarrow> bool" where
  "judged m s t state \<longleftrightarrow>
     (\<exists>f. seen t (m_config_path m) = Inr f \<and> (ef_existed f \<longrightarrow> ef_mode f = os_connected_mode s) \<and> judge s f = Inr state) \<or>
     (\<exists>bytes mode. t (m_config_path m) = Some (Regular bytes mode) \<and> mode AND 511 \<noteq> os_connected_mode s \<and> state = StateConflict)"

lemma wp_snapshot_state_of:
  assumes "\<And>d' state. unchanged d d' \<Longrightarrow> judged m s (nodes d) state \<Longrightarrow> Q state d'"
    and "\<And>d' e. unchanged d d' \<Longrightarrow> E e d'"
  shows "wp (snapshot_state_of m s) Q E d"
  unfolding snapshot_state_of_def wp_bind
proof (rule wp_checked_metadata, goal_cases)
  case (1 d1)
  show ?case
  proof (cases "nodes d (m_config_path m)")
    case None
    then have "seen (nodes d) (m_config_path m) = Inr existing_missing" by (rule seen_None)
    then show ?thesis using assms(1) [OF 1(1)] assms(2) [OF 1(1)] None
      by (auto simp: wp_simps judged_def existing_missing_def split: sum.splits)
  next
    case (Some n)
    have mismatch: "Q StateConflict d1" if "is_file n" "unix_mode n \<noteq> os_connected_mode s"
      using that Some by (intro assms(1) [OF 1(1)]) (cases n; auto simp: judged_def unix_mode_def)
    have read: "wp (read_config m) (\<lambda>current. wp (io_lift (judge s current)) Q E) E d1"
      if ok: "is_file n" "unix_mode n = os_connected_mode s"
      unfolding read_config_def
    proof (rule wp_read, goal_cases)
      case (1 d2 f)
      have same: "unchanged d d2" using \<open>unchanged d d1\<close> 1 by (auto intro: unchanged_trans)
      have f: "seen (nodes d) (m_config_path m) = Inr f" using 1 \<open>unchanged d d1\<close> by (simp add: unchanged_def)
      then have "ef_existed f \<longrightarrow> ef_mode f = os_connected_mode s"
        using ok Some by (auto simp: seen_Inr existing_present_def unix_mode_def)
      then show ?case using assms(1) [OF same] assms(2) [OF same] f
        by (auto simp: wp_simps judged_def split: sum.splits)
    qed (use \<open>unchanged d d1\<close> assms(2) in \<open>auto intro: unchanged_trans\<close>)
    show ?thesis using Some mismatch read assms(2) [OF 1(1)] by (simp add: wp_simps)
  qed
qed (use assms(2) in auto)

subsection \<open>Verdicts\<close>

definition verdict :: "ownership_snapshot \<Rightarrow> existing_file \<Rightarrow> snapshot_state" where
  "verdict s f = (case os_phase s of
       PhasePrepared \<Rightarrow> if f = prior_of s then PreparedPrior else if f = connected_of s then StateConnected else StateConflict
     | PhaseConnected \<Rightarrow> if f = connected_of s then StateConnected else StateConflict
     | PhaseRotating \<Rightarrow> if f = connected_of s then RotationPrepared else if f = pending_of s then RotationApplied else StateConflict
     | PhaseRestoring \<Rightarrow> if f = prior_of s then RestoredPrior else if f = connected_of s then StateConnected else StateConflict)"

definition wf_file :: "existing_file \<Rightarrow> bool" where
  "wf_file f \<longleftrightarrow> ef_existed f \<or> f = existing_missing"

lemma file_at_wf: "file_at t p f \<Longrightarrow> wf_file f"
  by (simp add: file_at_def wf_file_def split: if_splits)

lemma valid_snapshot:
  "validate_path_and_prior ce m s = Inr () \<longleftrightarrow>
     (\<exists>prior connected_bytes.
        hex_decode (os_prior_bytes_hex s) = Some prior \<and> hex_decode (os_connected_bytes_hex s) = Some connected_bytes \<and>
        os_schema_version s = SNAPSHOT_VERSION \<and> os_config_path s = path_identity (m_config_path m) \<and>
        os_prior_hash s = bytes_hash (ce_sha ce) prior \<and> os_connected_hash s = bytes_hash (ce_sha ce) connected_bytes \<and>
        (os_prior_existed s \<or> prior = []) \<and> os_prior_mode s AND 63 = 0 \<and> os_connected_mode s = os_prior_mode s \<and>
        (case os_pending_rotation s of
           None \<Rightarrow> os_phase s \<noteq> PhaseRotating
         | Some p \<Rightarrow> os_phase s = PhaseRotating \<and> pr_connected_mode p = os_connected_mode s \<and>
             (\<exists>bytes. hex_decode (pr_connected_bytes_hex p) = Some bytes \<and>
               pr_connected_hash p = bytes_hash (ce_sha ce) bytes)))"
  unfolding validate_path_and_prior_def decoded_def
  by (cases "os_pending_rotation s") (auto simp: result_simps)

lemma judge_verdict:
  assumes valid: "validate_path_and_prior ce m s = Inr ()" and prior: "wf_file (prior_of s)" and f: "wf_file f"
  shows "judge s f = Inr (verdict s f)"
proof -
  obtain prior connected_bytes where hex: "hex_decode (os_prior_bytes_hex s) = Some prior"
    "hex_decode (os_connected_bytes_hex s) = Some connected_bytes"
    using valid by (auto simp: valid_snapshot)
  have p: "matches_prior s f = Inr (f = prior_of s)"
    using hex prior f by (cases f) (auto simp: matches_prior_def decoded_def file_matches_def prior_of_def wf_file_def
      existing_missing_def)
  have c: "matches_connected s f = Inr (f = connected_of s)"
    using hex by (cases f) (auto simp: matches_connected_def decoded_def file_matches_def connected_of_def existing_present_def)
  have r: "matches_pending s f = Inr (f = pending_of s)" if "os_phase s = PhaseRotating"
    using valid that by (cases f; cases "os_pending_rotation s")
      (auto simp: valid_snapshot matches_pending_def decoded_def file_matches_def pending_of_def existing_present_def)
  show ?thesis using p c r by (cases "os_phase s") (auto simp: judge_def when_matches_def verdict_def)
qed

lemma judged_verdict:
  assumes valid: "validate_path_and_prior ce m s = Inr ()" and prior: "wf_file (prior_of s)"
    and judged: "judged m s t state" and at: "file_at t (m_config_path m) f"
  shows "state = verdict s f \<or> (state = StateConflict \<and> ef_existed f \<and> ef_mode f \<noteq> os_connected_mode s)"
  using judged unfolding judged_def
proof (elim disjE exE conjE)
  fix g
  assume "seen t (m_config_path m) = Inr g" "judge s g = Inr state"
  moreover from this have "g = f" using at by (simp add: seen_file_at)
  ultimately show ?thesis using judge_verdict [OF valid prior file_at_wf [OF at]] by simp
next
  fix bytes mode
  assume "t (m_config_path m) = Some (Regular bytes mode)" "mode AND 511 \<noteq> os_connected_mode s" "state = StateConflict"
  then show ?thesis using at by (auto simp: file_at_def split: if_splits)
qed

lemma connected_of_simps [simp]:
  "ef_existed (connected_of s)" "ef_mode (connected_of s) = os_connected_mode s"
  "connected_of s \<noteq> existing_missing" "connected_of (s\<lparr>os_phase := ph\<rparr>) = connected_of s"
  by (simp_all add: connected_of_def existing_present_def existing_missing_def)

lemma prior_of_simps [simp]:
  "ef_existed (prior_of s) = os_prior_existed s" "ef_mode (prior_of s) = os_prior_mode s"
  "prior_of (s\<lparr>os_phase := ph\<rparr>) = prior_of s"
  by (simp_all add: prior_of_def)

lemma pending_of_simps [simp]:
  "os_pending_rotation s = Some p \<Longrightarrow> ef_existed (pending_of s)"
  "os_pending_rotation s = Some p \<Longrightarrow> ef_mode (pending_of s) = pr_connected_mode p"
  by (simp_all add: pending_of_def existing_present_def)

text \<open>The files that the phase allows.\<close>

definition allowed :: "ownership_snapshot \<Rightarrow> existing_file \<Rightarrow> bool" where
  "allowed s f \<longleftrightarrow> verdict s f \<noteq> StateConflict"

lemma allowed_iff:
  "allowed s f \<longleftrightarrow> (case os_phase s of
       PhasePrepared \<Rightarrow> f = prior_of s \<or> f = connected_of s
     | PhaseConnected \<Rightarrow> f = connected_of s
     | PhaseRotating \<Rightarrow> f = connected_of s \<or> f = pending_of s
     | PhaseRestoring \<Rightarrow> f = prior_of s \<or> f = connected_of s)"
  by (cases "os_phase s") (auto simp: allowed_def verdict_def)

lemma coherent_file: "coherent s t p \<Longrightarrow> \<exists>f. file_at t p f \<and> allowed s f"
  unfolding coherent_def allowed_iff by (cases "os_phase s") auto

lemma allowed_coherent: "file_at t p f \<Longrightarrow> allowed s f \<Longrightarrow> coherent s t p"
  by (cases "os_phase s") (auto simp: coherent_def allowed_def verdict_def split: if_splits)

lemma allowed_mode:
  assumes "validate_path_and_prior ce m s = Inr ()" "allowed s f" "ef_existed f"
  shows "ef_mode f = os_connected_mode s"
proof -
  have modes: "os_connected_mode s = os_prior_mode s"
    "\<And>p. os_pending_rotation s = Some p \<Longrightarrow> pr_connected_mode p = os_connected_mode s"
    using assms(1) by (auto simp: valid_snapshot)
  have "f = prior_of s \<or> f = connected_of s \<or> f = pending_of s"
    using assms(2) by (auto simp: allowed_def verdict_def split: snapshot_phase.splits if_splits)
  then show ?thesis using modes assms(3)
    by (auto simp: pending_of_def existing_present_def existing_missing_def split: option.splits)
qed

subsection \<open>Owning\<close>

definition owns ::
  "config_env \<Rightarrow> manager \<Rightarrow> existing_file \<Rightarrow> ownership_snapshot \<Rightarrow> existing_file \<Rightarrow> machine \<Rightarrow> bool" where
  "owns ce m prior s f d \<longleftrightarrow>
     nodes d (snapshot_path m) = Some (Regular (ef_bytes f) 384) \<and> f = existing_present (ef_bytes f) 384 \<and>
     ce_decode ce (ef_bytes f) = Some s \<and> validate_path_and_prior ce m s = Inr () \<and> prior_of s = prior \<and>
     wf_file prior \<and> coherent s (nodes d) (m_config_path m)"

lemma owns_tracked: "owns ce m prior s f d \<Longrightarrow> tracked ce m prior (nodes d)"
  by (auto simp: owns_def tracked_def)

lemma tracked_owns:
  "tracked ce m prior (nodes d) \<Longrightarrow> wf_file prior \<Longrightarrow> nodes d (snapshot_path m) \<noteq> None \<Longrightarrow>
   \<exists>s f. owns ce m prior s f d"
  unfolding tracked_def
proof (elim case_optionE, simp, elim exE conjE)
  fix n bytes s
  assume "nodes d (snapshot_path m) = Some n" "n = Regular bytes 384" "ce_decode ce bytes = Some s" "wf_file prior"
    "validate_path_and_prior ce m s = Inr ()" "prior_of s = prior" "coherent s (nodes d) (m_config_path m)"
  then have "owns ce m prior s (existing_present bytes 384) d" by (simp add: owns_def existing_present_def)
  then show "\<exists>s f. owns ce m prior s f d" by blast
qed

lemma tracked_free:
  "nodes d (snapshot_path m) = None \<Longrightarrow> tracked ce m prior (nodes d) = file_at (nodes d) (m_config_path m) prior"
  by (simp add: tracked_def)

lemma owns_still: "still m d d' \<Longrightarrow> owns ce m prior s f d' = owns ce m prior s f d"
  unfolding owns_def coherent_def still_def
  by (simp only: file_at_cong [of "nodes d'" "m_config_path m" "nodes d"])

lemma owns_unchanged: "owns ce m prior s f d \<Longrightarrow> unchanged d d' \<Longrightarrow> owns ce m prior s f d'"
  using owns_still unchanged_still by blast

lemma owns_judged:
  assumes owns: "owns ce m prior s f d" and judged: "judged m s (nodes d) state"
  obtains g where "file_at (nodes d) (m_config_path m) g" "allowed s g" "state = verdict s g"
proof -
  have ok: "validate_path_and_prior ce m s = Inr ()" "wf_file (prior_of s)" "coherent s (nodes d) (m_config_path m)"
    using owns by (auto simp: owns_def)
  obtain g where g: "file_at (nodes d) (m_config_path m) g" "allowed s g" using coherent_file [OF ok(3)] by blast
  have "state = verdict s g"
    using judged_verdict [OF ok(1,2) judged g(1)] allowed_mode [OF ok(1) g(2)] by auto
  then show thesis using g by (rule that [rotated 2])
qed

lemma owns_snapshot:
  assumes "owns ce m prior s f d" and "nodes d (snapshot_path m) = Some (Regular bytes mode)"
    and "ce_decode ce bytes = Some s'"
  shows "s' = s" "bytes = ef_bytes f" "mode = 384" "existing_present bytes (mode AND 511) = f"
  using assms by (auto simp: owns_def)

subsection \<open>Every step keeps the recorded file\<close>

text \<open>
  In this section the mutations are any that obey the contract, so every schedule of faults is covered.
\<close>

definition sealed :: "config_env \<Rightarrow> manager \<Rightarrow> ownership_snapshot \<Rightarrow> machine \<Rightarrow> machine \<Rightarrow> string \<Rightarrow> bool" where
  "sealed ce m s d d' bytes \<longleftrightarrow> later d d' \<and> nodes d' (m_config_path m) = nodes d (m_config_path m) \<and>
     nodes d' (snapshot_path m) = Some (Regular bytes 384) \<and> ce_decode ce bytes = Some s"

lemma sealed_owns:
  assumes "sealed ce m s d d' bytes" "validate_path_and_prior ce m s = Inr ()" "wf_file (prior_of s)"
    "coherent s (nodes d) (m_config_path m)"
  shows "owns ce m (prior_of s) s (existing_present bytes 384) d'"
  using assms coherent_cong [of "nodes d'" "m_config_path m" "nodes d" s]
  by (simp add: owns_def sealed_def existing_present_def)

context file_mutations
begin

abbreviation mu :: mutations where
  "mu \<equiv> \<lparr>mu_replace = replace, mu_remove = remove\<rparr>"

lemma wp_replace_config:
  assumes placed: "placed m"
    and swapped: "\<And>d'. later d d' \<Longrightarrow> nodes d' (snapshot_path m) = nodes d (snapshot_path m) \<Longrightarrow>
      nodes d' (m_config_path m) = Some (Regular bytes mode) \<Longrightarrow> expected_at (nodes d) (m_config_path m) expected \<Longrightarrow>
      Q () d' \<and> (\<forall>e. E e d')"
    and kept: "\<And>d' e. still m d d' \<Longrightarrow> E e d'"
  shows "wp (replace (m_config_path m) expected bytes mode) Q E d"
proof (rule wp_result)
  fix r d'
  assume run: "replace (m_config_path m) expected bytes mode d = (r, d')"
  have shown: "\<not> hidden (m_config_path m)" "snapshot_path m \<noteq> m_config_path m" using placed by (auto simp: placed_def)
  from replace_law [OF shown(1) run] show "case r of Inl e \<Rightarrow> E e d' | Inr a \<Rightarrow> Q a d'"
    using shown kept swapped by (cases r) (auto simp: only_at_def still_def)
qed

lemma wp_remove_config:
  assumes placed: "placed m"
    and removed: "\<And>d'. later d d' \<Longrightarrow> nodes d' (snapshot_path m) = nodes d (snapshot_path m) \<Longrightarrow>
      nodes d' (m_config_path m) = None \<Longrightarrow> expected_at (nodes d) (m_config_path m) expected \<Longrightarrow>
      Q () d' \<and> (\<forall>e. E e d')"
    and kept: "\<And>d' e. still m d d' \<Longrightarrow> E e d'"
  shows "wp (remove (m_config_path m) expected) Q E d"
proof (rule wp_result)
  fix r d'
  assume run: "remove (m_config_path m) expected d = (r, d')"
  have shown: "\<not> hidden (m_config_path m)" "snapshot_path m \<noteq> m_config_path m" using placed by (auto simp: placed_def)
  from remove_law [OF shown(1) run] show "case r of Inl e \<Rightarrow> E e d' | Inr a \<Rightarrow> Q a d'"
    using shown kept removed by (cases r) (auto simp: only_at_def still_def)
qed

lemma wp_remove_snapshot:
  assumes placed: "placed m"
    and removed: "\<And>d'. later d d' \<Longrightarrow> nodes d' (m_config_path m) = nodes d (m_config_path m) \<Longrightarrow>
      nodes d' (snapshot_path m) = None \<Longrightarrow> Q () d' \<and> (\<forall>e. E e d')"
    and kept: "\<And>d' e. still m d d' \<Longrightarrow> E e d'"
  shows "wp (remove (snapshot_path m) expected) Q E d"
proof (rule wp_result)
  fix r d'
  assume run: "remove (snapshot_path m) expected d = (r, d')"
  have shown: "\<not> hidden (m_config_path m)" "m_config_path m \<noteq> snapshot_path m" using placed by (auto simp: placed_def)
  from remove_law [OF snapshot_path_shown run] show "case r of Inl e \<Rightarrow> E e d' | Inr a \<Rightarrow> Q a d'"
    using shown kept removed by (cases r) (auto simp: only_at_def still_def)
qed

lemma wp_seal:
  assumes placed: "placed m" and codec: "codec ce" and bytes: "to_bytes ce s = Inr bytes"
    and sealed: "\<And>d'. sealed ce m s d d' bytes \<Longrightarrow> Q () d' \<and> (\<forall>e. E e d')"
    and kept: "\<And>d' e. still m d d' \<Longrightarrow> E e d'"
  shows "wp (replace (snapshot_path m) expected bytes 384) Q E d"
proof (rule wp_result)
  fix r d'
  assume run: "replace (snapshot_path m) expected bytes 384 d = (r, d')"
  have shown: "\<not> hidden (m_config_path m)" "m_config_path m \<noteq> snapshot_path m" using placed by (auto simp: placed_def)
  from replace_law [OF snapshot_path_shown run] show "case r of Inl e \<Rightarrow> E e d' | Inr a \<Rightarrow> Q a d'"
    using shown kept sealed codec bytes by (cases r) (auto simp: only_at_def still_def sealed_def codec_def)
qed

lemma wp_write_snapshot:
  assumes "placed m" "codec ce"
    and sealed: "\<And>d' bytes. sealed ce m s d d' bytes \<Longrightarrow> Q (existing_present bytes 384) d' \<and> (\<forall>e. E e d')"
    and kept: "\<And>d' e. still m d d' \<Longrightarrow> E e d'"
  shows "wp (write_snapshot ce mu m s current) Q E d"
proof (cases "to_bytes ce s")
  case (Inl e)
  then show ?thesis using kept [OF still_refl] by (simp add: write_snapshot_def wp_simps)
next
  case (Inr bytes)
  have "wp (replace (snapshot_path m) (expect_present current) bytes 384)
      (\<lambda>_. Q (existing_present bytes 384)) E d"
    by (rule wp_seal [OF assms(1,2) Inr]) (use sealed kept in auto)
  then show ?thesis by (simp add: write_snapshot_def wp_simps Inr)
qed

lemma wp_update_snapshot:
  assumes placed: "placed m" and codec: "codec ce" and owns: "owns ce m prior s0 f0 d"
    and s: "validate_path_and_prior ce m s = Inr ()" "prior_of s = prior" "coherent s (nodes d) (m_config_path m)"
    and sealed: "\<And>d' f. owns ce m prior s f d' \<Longrightarrow> nodes d' (m_config_path m) = nodes d (m_config_path m) \<Longrightarrow> Q f d'"
    and failed: "\<And>d' e. tracked ce m prior (nodes d') \<Longrightarrow> E e d'"
  shows "wp (write_snapshot ce mu m s current) Q E d"
proof (rule wp_write_snapshot [OF placed codec])
  fix d' bytes
  assume at: "sealed ce m s d d' bytes"
  have "wf_file (prior_of s)" using owns s(2) by (simp add: owns_def)
  then have "owns ce m prior s (existing_present bytes 384) d'" using sealed_owns [OF at s(1)] s(2,3) by simp
  then show "Q (existing_present bytes 384) d' \<and> (\<forall>e. E e d')"
    using sealed failed owns_tracked at by (auto simp: sealed_def)
next
  fix d' e
  assume "still m d d'"
  then show "E e d'" using owns_tracked [OF owns] by (intro failed) (simp add: still_tracked)
qed

end

definition settled :: "ownership_snapshot \<Rightarrow> pending_rotation \<Rightarrow> ownership_snapshot" where
  "settled s p = s\<lparr>os_phase := PhaseConnected, os_connected_bytes_hex := pr_connected_bytes_hex p,
     os_connected_hash := pr_connected_hash p, os_connected_mode := pr_connected_mode p,
     os_managed_fingerprint := pr_managed_fingerprint p, os_pending_rotation := None\<rparr>"

lemma settled_simps [simp]:
  "os_phase (settled s p) = PhaseConnected" "os_pending_rotation (settled s p) = None"
  "prior_of (settled s p) = prior_of s" "os_owns_notify (settled s p) = os_owns_notify s"
  "connected_of (settled s p) = existing_present (the (hex_decode (pr_connected_bytes_hex p))) (pr_connected_mode p)"
  "os_managed_fingerprint (settled s p) = pr_managed_fingerprint p"
  by (simp_all add: settled_def prior_of_def connected_of_def)

lemma settled_valid:
  "validate_path_and_prior ce m s = Inr () \<Longrightarrow> os_pending_rotation s = Some p \<Longrightarrow>
   validate_path_and_prior ce m (settled s p) = Inr ()"
  by (auto simp: valid_snapshot settled_def)

lemma rotating_pending:
  assumes "validate_path_and_prior ce m s = Inr ()" "os_phase s = PhaseRotating"
  obtains p where "os_pending_rotation s = Some p" "pending_of s = connected_of (settled s p)"
    "pr_connected_mode p = os_connected_mode s"
    "decoded (pr_connected_bytes_hex p) = Inr (ef_bytes (pending_of s))"
  using assms by (cases "os_pending_rotation s") (auto simp: valid_snapshot pending_of_def decoded_def existing_present_def)

lemma valid_decoded:
  assumes "validate_path_and_prior ce m s = Inr ()"
  shows "decoded (os_connected_bytes_hex s) = Inr (ef_bytes (connected_of s))"
    "decoded (os_prior_bytes_hex s) = Inr (ef_bytes (prior_of s))"
    "os_connected_mode s = os_prior_mode s"
  using assms by (auto simp: valid_snapshot decoded_def connected_of_def existing_present_def prior_of_def)

lemma file_at_mode:
  "file_at t p f \<Longrightarrow> ef_existed f \<Longrightarrow> ef_mode f AND 511 = ef_mode f \<and> ef_mode f AND 63 = 0"
  unfolding file_at_def by (metis masked_modes)

lemma expected_file_at:
  assumes "expected_at t p (Present bytes mode)" shows "file_at t p (existing_present bytes mode)"
proof -
  obtain f where f: "seen t p = Inr f" "file_matches f bytes mode" using assms by (auto simp: expected_at_def)
  then have "f = existing_present bytes mode" by (cases f) (simp add: file_matches_def existing_present_def)
  then show ?thesis using file_at_seen [OF f(1)] by simp
qed

lemma present_connected_of: "existing_present (ef_bytes (connected_of s)) (os_connected_mode s) = connected_of s"
  by (simp add: connected_of_def existing_present_def)

context file_mutations
begin

lemma wp_finish_rotation:
  assumes placed: "placed m" and codec: "codec ce" and owns: "owns ce m prior s f d"
    and rotating: "os_phase s = PhaseRotating"
    and g: "file_at (nodes d) (m_config_path m) g" "allowed s g" "state = verdict s g"
    and finished: "\<And>d' p f'. os_pending_rotation s = Some p \<Longrightarrow> owns ce m prior (settled s p) f' d' \<Longrightarrow> Q (settled s p, f') d'"
    and failed: "\<And>d' e. tracked ce m prior (nodes d') \<Longrightarrow> E e d'"
  shows "wp (finish_rotation ce mu m s f state) Q E d"
proof -
  have valid: "validate_path_and_prior ce m s = Inr ()" and prior: "prior_of s = prior" "wf_file prior"
    using owns by (auto simp: owns_def)
  obtain p where p: "os_pending_rotation s = Some p" "pending_of s = connected_of (settled s p)"
      "pr_connected_mode p = os_connected_mode s" "decoded (pr_connected_bytes_hex p) = Inr (ef_bytes (pending_of s))"
    using rotating_pending [OF valid rotating] .
  have rest: "wp (write_snapshot ce mu m (settled s p) f) (\<lambda>file. Q (settled s p, file)) E d1"
    if owns1: "owns ce m prior s f d1" and at: "file_at (nodes d1) (m_config_path m) (pending_of s)" for d1
  proof (rule wp_update_snapshot [OF placed codec owns1 settled_valid [OF valid p(1)]])
    show "prior_of (settled s p) = prior" using prior by simp
    show "coherent (settled s p) (nodes d1) (m_config_path m)" using at p(2) by (simp add: coherent_def)
    show "Q (settled s p, f') d'" if "owns ce m prior (settled s p) f' d'" for d' f'
      using that finished [OF p(1)] by simp
  qed (rule failed)
  have moved: "wp (replace (m_config_path m) (Present (ef_bytes (connected_of s)) (os_connected_mode s))
        (ef_bytes (pending_of s)) (pr_connected_mode p))
      (\<lambda>_. wp (write_snapshot ce mu m (settled s p) f) (\<lambda>file. Q (settled s p, file)) E) E d"
    if "state = RotationPrepared"
  proof (rule wp_replace_config [OF placed], goal_cases)
    case (1 d1)
    have "file_at (nodes d) (m_config_path m) (connected_of s)"
      using expected_file_at [OF 1(4)] by (simp add: present_connected_of)
    from file_at_mode [OF this]
    have "file_at (nodes d1) (m_config_path m) (existing_present (ef_bytes (pending_of s)) (os_connected_mode s))"
      using 1(3) p(3) by (intro file_at_installed) auto
    then have "file_at (nodes d1) (m_config_path m) (pending_of s)"
      using p(1,3) by (simp add: pending_of_def existing_present_def)
    moreover from this have "owns ce m prior s f d1"
      using owns 1(2) rotating by (simp add: owns_def coherent_def)
    ultimately show ?case using rest failed owns_tracked by blast
  next
    case (2 d1 e)
    then show ?case using owns_tracked [OF owns] by (intro failed) (simp add: still_tracked)
  qed
  have "state = RotationPrepared \<or> state = RotationApplied \<and> g = pending_of s"
    using g rotating by (auto simp: allowed_def verdict_def split: if_splits)
  then show ?thesis
  proof
    assume "state = RotationPrepared"
    then show ?thesis using moved valid_decoded [OF valid] p
      by (simp add: finish_rotation_def wp_simps Let_def settled_def [symmetric] cong: if_cong)
  next
    assume "state = RotationApplied \<and> g = pending_of s"
    then show ?thesis using rest [OF owns] g(1) p(1)
      by (simp add: finish_rotation_def wp_simps Let_def settled_def [symmetric])
  qed
qed

lemma wp_transition:
  assumes placed: "placed m" and codec: "codec ce" and owns: "owns ce m prior s f d"
    and phase: "os_phase s \<noteq> PhaseRotating" "phase \<noteq> PhaseRotating"
    and at: "file_at (nodes d) (m_config_path m) (connected_of s)"
    and finished: "\<And>d' f'. owns ce m prior (s\<lparr>os_phase := phase\<rparr>) f' d' \<Longrightarrow>
      nodes d' (m_config_path m) = nodes d (m_config_path m) \<Longrightarrow> Q (s\<lparr>os_phase := phase\<rparr>, f') d'"
    and failed: "\<And>d' e. tracked ce m prior (nodes d') \<Longrightarrow> E e d'"
  shows "wp (transition_snapshot ce mu m s f phase) Q E d"
proof -
  have valid: "validate_path_and_prior ce m s = Inr ()" and prior: "prior_of s = prior" using owns by (auto simp: owns_def)
  have "validate_path_and_prior ce m (s\<lparr>os_phase := phase\<rparr>) = Inr ()"
    using valid phase by (auto simp: valid_snapshot split: option.splits)
  moreover have "coherent (s\<lparr>os_phase := phase\<rparr>) (nodes d) (m_config_path m)"
    using at phase(2) by (cases phase) (simp_all add: coherent_def)
  ultimately have "wp (write_snapshot ce mu m (s\<lparr>os_phase := phase\<rparr>) f) (\<lambda>file. Q (s\<lparr>os_phase := phase\<rparr>, file)) E d"
    using prior by (intro wp_update_snapshot [OF placed codec owns]) (auto intro: finished failed)
  then show ?thesis by (simp add: transition_snapshot_def wp_simps Let_def)
qed

lemma wp_forget:
  assumes placed: "placed m" and owns: "owns ce m prior s f d"
    and at: "file_at (nodes d) (m_config_path m) prior"
    and finished: "\<And>d'. nodes d' (snapshot_path m) = None \<Longrightarrow> file_at (nodes d') (m_config_path m) prior \<Longrightarrow> Q () d'"
    and failed: "\<And>d' e. tracked ce m prior (nodes d') \<Longrightarrow> E e d'"
  shows "wp (remove (snapshot_path m) expected) Q E d"
proof (rule wp_remove_snapshot [OF placed], goal_cases)
  case (1 d')
  have "file_at (nodes d') (m_config_path m) prior" using at 1(2) file_at_cong by metis
  then show ?case using finished failed tracked_free 1(3) by blast
next
  case (2 d' e)
  then show ?case using owns_tracked [OF owns] by (intro failed) (simp add: still_tracked)
qed

end

definition rotating :: "config_env \<Rightarrow> managed_values \<Rightarrow> string \<Rightarrow> ownership_snapshot \<Rightarrow> ownership_snapshot" where
  "rotating ce managed pending_bytes s = s\<lparr>os_phase := PhaseRotating, os_pending_rotation := Some
     \<lparr>pr_connected_bytes_hex = hex_encode pending_bytes,
      pr_connected_hash = bytes_hash (ce_sha ce) pending_bytes,
      pr_connected_mode = os_connected_mode s,
      pr_managed_fingerprint = managed_fingerprint ce managed (os_owns_notify s)\<rparr>\<rparr>"

lemma rotating_simps [simp]:
  "os_phase (rotating ce managed b s) = PhaseRotating" "prior_of (rotating ce managed b s) = prior_of s"
  "connected_of (rotating ce managed b s) = connected_of s"
  by (simp_all add: rotating_def prior_of_def connected_of_def)

lemma rotating_valid:
  "validate_path_and_prior ce m s = Inr () \<Longrightarrow> validate_path_and_prior ce m (rotating ce managed b s) = Inr ()"
  by (auto simp: valid_snapshot rotating_def)

context file_mutations
begin

lemma wp_rotate_connected:
  assumes placed: "placed m" and codec: "codec ce" and owns: "owns ce m prior s f d"
    and at: "file_at (nodes d) (m_config_path m) (connected_of s)"
    and finished: "\<And>d' s' f'. owns ce m prior s' f' d' \<Longrightarrow> Q (s', f') d'"
    and failed: "\<And>d' e. tracked ce m prior (nodes d') \<Longrightarrow> E e d'"
  shows "wp (rotate_connected ce mu m s f managed) Q E d"
proof -
  have valid: "validate_path_and_prior ce m s = Inr ()" and prior: "prior_of s = prior" using owns by (auto simp: owns_def)
  have rest: "wp (io_bind (write_snapshot ce mu m (rotating ce managed b s) f)
      (\<lambda>rotating_file. finish_rotation ce mu m (rotating ce managed b s) rotating_file RotationPrepared)) Q E d" for b
    unfolding wp_bind
  proof (rule wp_update_snapshot [OF placed codec owns rotating_valid [OF valid]])
    show "prior_of (rotating ce managed b s) = prior" using prior by simp
    show "coherent (rotating ce managed b s) (nodes d) (m_config_path m)" using at by (simp add: coherent_def)
    fix d' f'
    assume owns': "owns ce m prior (rotating ce managed b s) f' d'" and same: "nodes d' (m_config_path m) = nodes d (m_config_path m)"
    have "file_at (nodes d') (m_config_path m) (connected_of s)" using at file_at_cong [of "nodes d'" "m_config_path m" "nodes d", OF same] by simp
    then show "wp (finish_rotation ce mu m (rotating ce managed b s) f' RotationPrepared) Q E d'"
      by (intro wp_finish_rotation [OF placed codec owns', where g = "connected_of s"])
        (auto simp: allowed_iff verdict_def intro: finished failed)
  qed (rule failed)
  have kept: "E e d" for e using owns_tracked [OF owns] by (rule failed)
  show ?thesis
    using rest kept unfolding rotate_connected_def
    by (auto simp: wp_bind wp_lift Let_def rotating_def [symmetric] split: sum.splits)
qed

lemma wp_settle_status:
  assumes placed: "placed m" and codec: "codec ce" and owns: "owns ce m prior s f d"
    and g: "file_at (nodes d) (m_config_path m) g" "allowed s g" "state = verdict s g"
  shows "wp (status_of_snapshot ce mu m s f state) (\<lambda>_ d'. tracked ce m prior (nodes d')) (\<lambda>_ d'. tracked ce m prior (nodes d')) d"
proof -
  let ?T = "\<lambda>_ d'. tracked ce m prior (nodes d')"
  have kept: "tracked ce m prior (nodes d)" by (rule owns_tracked [OF owns])
  have settled: "wp (status_settled ce mu m s' f' state') ?T ?T d'"
    if owns': "owns ce m prior s' f' d'" and g': "file_at (nodes d') (m_config_path m) g'" "allowed s' g'" "state' = verdict s' g'"
      and phase: "os_phase s' \<noteq> PhaseRotating" for s' f' d' g' state'
  proof -
    have prior: "prior_of s' = prior" using owns' by (simp add: owns_def)
    have kept': "tracked ce m prior (nodes d')" by (rule owns_tracked [OF owns'])
    have forget: "wp (remove (snapshot_path m) (expect_present f')) ?T ?T d'" if "g' = prior"
      by (rule wp_forget [OF placed owns']) (use that g'(1) in \<open>auto simp: tracked_free\<close>)
    have move: "wp (transition_snapshot ce mu m s' f' PhaseConnected) ?T ?T d'" if "g' = connected_of s'"
      by (rule wp_transition [OF placed codec owns' phase]) (use that g'(1) in \<open>auto intro: owns_tracked\<close>)
    show ?thesis
      using forget move kept' g'(2,3) phase prior
      by (cases "os_phase s'") (auto simp: status_settled_def wp_simps allowed_iff verdict_def split: if_splits)
  qed
  have finish: "wp (finish_rotation ce mu m s f state)
      (\<lambda>a. wp (status_settled ce mu m (fst a) (snd a) StateConnected) ?T ?T) ?T d" if rot: "os_phase s = PhaseRotating"
  proof (rule wp_finish_rotation [OF placed codec owns rot g], goal_cases)
    case (1 d' p f')
    then have at: "file_at (nodes d') (m_config_path m) (connected_of (settled s p))" by (simp add: owns_def coherent_def)
    show ?case by (simp only: fst_conv snd_conv, rule settled [OF 1(2) at]) (simp_all add: allowed_iff verdict_def)
  qed
  show ?thesis
    using settled [OF owns g] finish kept unfolding status_of_snapshot_def
    by (auto simp: wp_simps Let_def case_prod_beta split: prod.splits)
qed

end

context file_mutations
begin

lemma wp_disconnect_connected:
  assumes placed: "placed m" and codec: "codec ce" and owns: "owns ce m prior s f d"
    and at: "file_at (nodes d) (m_config_path m) (connected_of s)" and phase: "os_phase s \<noteq> PhaseRotating"
  shows "wp (disconnect_connected ce mu m s f) (\<lambda>_ d'. tracked ce m prior (nodes d')) (\<lambda>_ d'. tracked ce m prior (nodes d')) d"
proof -
  let ?T = "\<lambda>_ d'. tracked ce m prior (nodes d')"
  have restoring: "wp (disconnect_restoring mu m s' f') ?T ?T d1"
    if owns1: "owns ce m prior s' f' d1" and phase1: "os_phase s' = PhaseRestoring" for s' f' d1
  proof -
    have valid: "validate_path_and_prior ce m s' = Inr ()" and prior: "prior_of s' = prior" "wf_file prior"
      using owns1 by (auto simp: owns_def)
    have forget: "wp (remove (snapshot_path m) (expect_present f')) ?T ?T d2"
      if "owns ce m prior s' f' d2" "file_at (nodes d2) (m_config_path m) prior" for d2
      by (rule wp_forget [OF placed that]) (auto simp: tracked_free)
    have look: "wp (snapshot_state_of m s') (\<lambda>state. wp (case state of
             RestoredPrior \<Rightarrow> io_bind (remove (snapshot_path m) (expect_present f')) (\<lambda>_. io_return Disconnected)
           | StateConnected \<Rightarrow> io_fail e
           | _ \<Rightarrow> io_fail ConfigConflict) ?T ?T) ?T d2"
      if owns2: "owns ce m prior s' f' d2" for d2 e
    proof (rule wp_snapshot_state_of, goal_cases)
      case (1 d3 state)
      have owns3: "owns ce m prior s' f' d3" by (rule owns_unchanged [OF owns2 1(1)])
      obtain g where g: "file_at (nodes d2) (m_config_path m) g" "state = verdict s' g"
        using owns_judged [OF owns2 1(2)] by blast
      have "file_at (nodes d3) (m_config_path m) prior" if "state = RestoredPrior"
        using g that prior(1) unchangedD(2) [OF 1(1)] by (auto simp: verdict_def split: snapshot_phase.splits if_splits)
      then show ?case using forget [OF owns3] owns_tracked [OF owns3] by (cases state) (simp_all add: wp_simps)
    next
      case (2 d3 e)
      then show ?case using owns_tracked [OF owns_unchanged [OF owns2]] by blast
    qed
    have at_prior: "owns ce m prior s' f' d2 \<and> file_at (nodes d2) (m_config_path m) prior"
      if "later d1 d2" "nodes d2 (snapshot_path m) = nodes d1 (snapshot_path m)" "file_at (nodes d2) (m_config_path m) prior" for d2
      using owns1 that phase1 prior by (simp add: owns_def coherent_def)
    have restored: "wp (restore_prior mu m s' (ef_bytes (connected_of s')) (ef_bytes (prior_of s')))
        (\<lambda>_ d2. owns ce m prior s' f' d2 \<and> file_at (nodes d2) (m_config_path m) prior)
        (\<lambda>_ d2. owns ce m prior s' f' d2) d1"
    proof (cases "os_prior_existed s'")
      case True
      have installed: "file_at t (m_config_path m) prior"
        if "t (m_config_path m) = Some (Regular (ef_bytes (prior_of s')) (os_prior_mode s'))"
          "file_at (nodes d1) (m_config_path m) (connected_of s')" for t
      proof -
        have "file_at t (m_config_path m) (existing_present (ef_bytes (prior_of s')) (os_prior_mode s'))"
          using file_at_mode [OF that(2)] that(1) valid_decoded(3) [OF valid] by (intro file_at_installed) auto
        then show ?thesis using True prior(1) by (simp add: existing_present_def prior_of_def)
      qed
      have "wp (replace (m_config_path m) (Present (ef_bytes (connected_of s')) (os_connected_mode s'))
          (ef_bytes (prior_of s')) (os_prior_mode s'))
        (\<lambda>_ d2. owns ce m prior s' f' d2 \<and> file_at (nodes d2) (m_config_path m) prior)
        (\<lambda>_ d2. owns ce m prior s' f' d2) d1"
      proof (rule wp_replace_config [OF placed], goal_cases)
        case (1 d2)
        have "file_at (nodes d1) (m_config_path m) (connected_of s')"
          using expected_file_at [OF 1(4)] by (simp add: present_connected_of)
        then show ?case using at_prior [OF 1(1,2) installed [of "nodes d2", OF 1(3)]] by blast
      qed (use owns1 owns_still in blast)
      then show ?thesis using True by (simp add: restore_prior_def)
    next
      case False
      then have missing: "prior = existing_missing" using prior by (simp add: wf_file_def prior_of_def [symmetric]) (metis prior_of_simps(1))
      have "wp (remove (m_config_path m) (Present (ef_bytes (connected_of s')) (os_connected_mode s')))
        (\<lambda>_ d2. owns ce m prior s' f' d2 \<and> file_at (nodes d2) (m_config_path m) prior)
        (\<lambda>_ d2. owns ce m prior s' f' d2) d1"
      proof (rule wp_remove_config [OF placed], goal_cases)
        case (1 d2)
        then have "file_at (nodes d2) (m_config_path m) prior" using missing by (simp add: file_at_def existing_missing_def)
        then show ?case using at_prior [OF 1(1,2)] by blast
      qed (use owns1 owns_still in blast)
      then show ?thesis using False by (simp add: restore_prior_def)
    qed
    show ?thesis unfolding disconnect_restoring_def valid_decoded(1,2) [OF valid] wp_bind wp_lift_simps wp_attempt
      by (rule wp_mono [OF restored]) (auto simp: wp_simps intro: forget look)
  qed
  show ?thesis
  proof (cases "os_phase s = PhaseRestoring")
    case True
    then show ?thesis using restoring [OF owns] by (simp add: disconnect_connected_def)
  next
    case False
    have "wp (transition_snapshot ce mu m s f PhaseRestoring)
        (\<lambda>(s', f') d1. owns ce m prior s' f' d1 \<and> os_phase s' = PhaseRestoring) ?T d"
      by (rule wp_transition [OF placed codec owns phase _ at]) auto
    then show ?thesis unfolding disconnect_connected_def wp_bind [of "if _ then _ else _"] wp_if
      using False by (auto elim!: wp_mono split: prod.splits intro!: restoring)
  qed
qed

end

lemma first_snapshot_simps [simp]:
  "prior_of (first_snapshot ce m prior updated owns_notify managed) = prior"
  "connected_of (first_snapshot ce m prior updated owns_notify managed) = existing_present updated (ef_mode prior)"
  by (simp_all add: first_snapshot_def prior_of_def connected_of_def)

lemma first_snapshot_valid:
  "wf_file prior \<Longrightarrow> ef_mode prior AND 63 = 0 \<Longrightarrow>
   validate_path_and_prior ce m (first_snapshot ce m prior updated owns_notify managed) = Inr ()"
  by (auto simp: valid_snapshot first_snapshot_def wf_file_def existing_missing_def)

lemma first_snapshot_phase:
  "os_phase (first_snapshot ce m prior updated owns_notify managed) =
     (if prior = existing_present updated (ef_mode prior) then PhaseConnected else PhasePrepared)"
  by (cases prior) (auto simp: first_snapshot_def file_matches_def existing_present_def)

lemma file_at_private: "file_at t p f \<Longrightarrow> ef_mode f AND 63 = 0 \<and> ef_mode f AND 511 = ef_mode f"
  by (cases "ef_existed f") (use file_at_mode in \<open>auto simp: file_at_def existing_missing_def\<close>)

context file_mutations
begin

lemma wp_connect_fresh:
  assumes placed: "placed m" and codec: "codec ce" and free: "nodes d (snapshot_path m) = None"
    and at: "file_at (nodes d) (m_config_path m) prior"
  shows "wp (connect_fresh ce mu m managed) (\<lambda>_ d'. tracked ce m prior (nodes d')) (\<lambda>_ d'. tracked ce m prior (nodes d')) d"
proof -
  let ?T = "\<lambda>_ d'. tracked ce m prior (nodes d')"
  have wf: "wf_file prior" by (rule file_at_wf [OF at])
  have start: "tracked ce m prior (nodes d)" using at free by (simp add: tracked_def)
  have written: "wp (connect_apply ce mu m prior updated s bytes) ?T ?T d2"
    if s: "s = first_snapshot ce m prior updated owns_notify managed"
      and owns: "owns ce m prior s (existing_present bytes 384) d2"
      and at2: "file_at (nodes d2) (m_config_path m) prior"
    for s updated owns_notify bytes d2
  proof (cases "file_matches prior updated (ef_mode prior)")
    case True
    then show ?thesis using owns_tracked [OF owns] by (simp add: connect_apply_def wp_simps)
  next
    case False
    then have phase: "os_phase s = PhasePrepared" by (simp add: s first_snapshot_def)
    have undo: "wp (connect_undo mu m s bytes e)
        (\<lambda>_. wp (io_bind (transition_snapshot ce mu m s (existing_present bytes 384) PhaseConnected) (\<lambda>_. io_return Connected)) ?T ?T) ?T d3"
      if owns3: "owns ce m prior s (existing_present bytes 384) d3" for d3 e
      unfolding connect_undo_def wp_bind [of "snapshot_state_of _ _"]
    proof (rule wp_snapshot_state_of, goal_cases)
      case (1 d4 state)
      have owns4: "owns ce m prior s (existing_present bytes 384) d4" by (rule owns_unchanged [OF owns3 1(1)])
      obtain g where g: "file_at (nodes d3) (m_config_path m) g" "state = verdict s g"
        using owns_judged [OF owns3 1(2)] by blast
      have at4: "file_at (nodes d4) (m_config_path m) prior" if "state = PreparedPrior"
        using g that unchangedD(2) [OF 1(1)] by (auto simp: verdict_def s split: snapshot_phase.splits if_splits)
      have "wp (remove (snapshot_path m) (Present bytes 384))
          (\<lambda>_ d'. tracked ce m prior (nodes d')) (\<lambda>_ d'. tracked ce m prior (nodes d')) d4" if "state = PreparedPrior"
        by (rule wp_forget [OF placed owns4 at4 [OF that]]) (auto simp: tracked_free)
      then show ?case using owns_tracked [OF owns4] by (cases state) (simp_all add: wp_simps)
    next
      case (2 d4 e)
      then show ?case using owns_tracked [OF owns_unchanged [OF owns3]] by blast
    qed
    have "wp (replace (m_config_path m) (expect_existing prior) updated (ef_mode prior))
        (\<lambda>_. wp (io_bind (transition_snapshot ce mu m s (existing_present bytes 384) PhaseConnected) (\<lambda>_. io_return Connected)) ?T ?T)
        (\<lambda>e. wp (connect_undo mu m s bytes e)
          (\<lambda>_. wp (io_bind (transition_snapshot ce mu m s (existing_present bytes 384) PhaseConnected) (\<lambda>_. io_return Connected)) ?T ?T) ?T) d2"
    proof (rule wp_replace_config [OF placed], goal_cases)
      case (1 d3)
      have at3: "file_at (nodes d3) (m_config_path m) (connected_of s)"
        using file_at_private [OF at2] 1(3) by (simp add: s file_at_installed)
      then have owns3: "owns ce m prior s (existing_present bytes 384) d3"
        using owns 1(2) phase by (simp add: owns_def coherent_def)
      have "wp (transition_snapshot ce mu m s (existing_present bytes 384) PhaseConnected) ?T ?T d3"
        by (rule wp_transition [OF placed codec owns3 _ _ at3]) (auto simp: phase intro: owns_tracked)
      then show ?case using undo [OF owns3] by (simp add: wp_simps)
    next
      case (2 d3 e)
      then show ?case using undo owns_still [OF 2] owns by simp
    qed
    then show ?thesis using False by (simp add: connect_apply_def wp_bind wp_catch)
  qed
  show ?thesis unfolding connect_fresh_def read_config_def wp_bind [of "read_optional_private_file _"]
  proof (rule wp_read, goal_cases)
    case (1 d1 f)
    have f: "f = prior" using seen_file_at [OF at 1(2)] .
    have still: "still m d d1" by (rule unchanged_still [OF 1(1)])
    have kept: "tracked ce m prior (nodes d1)" using start still_tracked [OF still] by simp
    have at1: "file_at (nodes d1) (m_config_path m) prior" using at unchangedD(2) [OF 1(1)] by simp
    have seal: "wp (replace (snapshot_path m) Missing bytes 384)
       (\<lambda>_. wp (connect_apply ce mu m prior updated s bytes) ?T ?T) ?T d1"
      if s: "s = first_snapshot ce m prior updated owns_notify managed" and bytes: "to_bytes ce s = Inr bytes"
      for s updated owns_notify bytes
    proof (rule wp_seal [OF placed codec bytes], goal_cases)
      case (1 d2)
      have valid: "validate_path_and_prior ce m s = Inr ()"
        using first_snapshot_valid [OF wf] file_at_private [OF at] by (simp add: s)
      have same: "nodes d2 (m_config_path m) = nodes d1 (m_config_path m)" using 1 by (simp add: sealed_def)
      have "allowed s prior" by (auto simp: s allowed_iff first_snapshot_phase)
      then have "coherent s (nodes d1) (m_config_path m)" by (rule allowed_coherent [OF at1])
      from sealed_owns [OF 1 valid _ this] wf
      have owns: "owns ce m prior s (existing_present bytes 384) d2" by (simp add: s)
      have "file_at (nodes d2) (m_config_path m) prior"
        using at1 file_at_cong [of "nodes d2" "m_config_path m" "nodes d1", OF same] by simp
      then show ?case using written [OF s owns] owns_tracked [OF owns] by blast
    next
      case (2 d2 e)
      then show ?case using kept still_tracked by blast
    qed
    show ?case
    proof (cases "connect_plan ce m managed prior")
      case (Inl e)
      then show ?thesis using kept by (simp add: f wp_simps)
    next
      case (Inr plan)
      obtain updated s bytes where plan: "plan = (updated, s, bytes)" by (cases plan)
      obtain owns_notify where "s = first_snapshot ce m prior updated owns_notify managed" "to_bytes ce s = Inr bytes"
        using Inr plan by (auto simp: connect_plan_def result_simps Let_def)
      from seal [OF this] show ?thesis by (simp add: f Inr plan wp_simps)
    qed
  next
    case (2 d1 e)
    then show ?case using start still_tracked unchanged_still by blast
  next
    case (3 d1)
    then show ?case using start still_tracked unchanged_still by blast
  qed
qed

end

context file_mutations
begin

lemma wp_read_owned:
  assumes owns: "owns ce m prior s f d"
    and shown: "\<And>d'. owns ce m prior s f d' \<Longrightarrow> unchanged d d' \<Longrightarrow> Q (s, f) d'"
    and failed: "\<And>d' e. owns ce m prior s f d' \<Longrightarrow> E e d'"
  shows "wp (read_snapshot ce m) Q E d"
  by (rule wp_read_snapshot)
    (use shown failed owns_unchanged [OF owns] owns_snapshot [OF owns] in \<open>auto dest!: owns_snapshot [OF owns]\<close>)

lemma wp_look_owned:
  assumes owns: "owns ce m prior s f d"
    and shown: "\<And>d' g. owns ce m prior s f d' \<Longrightarrow> file_at (nodes d') (m_config_path m) g \<Longrightarrow> allowed s g \<Longrightarrow> Q (verdict s g) d'"
    and failed: "\<And>d' e. owns ce m prior s f d' \<Longrightarrow> E e d'"
  shows "wp (snapshot_state_of m s) Q E d"
proof (rule wp_snapshot_state_of, goal_cases)
  case (1 d' state)
  obtain g where g: "file_at (nodes d) (m_config_path m) g" "allowed s g" "state = verdict s g"
    using owns_judged [OF owns 1(2)] .
  have "file_at (nodes d') (m_config_path m) g" using g(1) unchangedD(2) [OF 1(1)] by simp
  then show ?case using shown [OF owns_unchanged [OF owns 1(1)]] g by blast
next
  case (2 d' e)
  then show ?case using failed owns_unchanged [OF owns] by blast
qed

lemma wp_connect_existing:
  assumes placed: "placed m" and codec: "codec ce" and owns: "owns ce m prior s f d"
  shows "wp (connect_existing ce mu m)
    (\<lambda>status d'. tracked ce m prior (nodes d') \<and> (status = None \<longrightarrow> nodes d' (snapshot_path m) = None))
    (\<lambda>_ d'. tracked ce m prior (nodes d')) d"
proof -
  let ?Q = "\<lambda>status d'. tracked ce m prior (nodes d') \<and> (status = None \<longrightarrow> nodes d' (snapshot_path m) = None)"
  let ?E = "\<lambda>_ d'. tracked ce m prior (nodes d')"
  have prior: "prior_of s = prior" using owns by (simp add: owns_def)
  have judged: "wp (connect_judged ce mu m managed s f state) ?Q ?E d1"
    if owns1: "owns ce m prior s f d1" and g: "file_at (nodes d1) (m_config_path m) g" "allowed s g" "state = verdict s g"
    for d1 g state managed
  proof -
    have kept: "tracked ce m prior (nodes d1)" by (rule owns_tracked [OF owns1])
    have finish: "wp (finish_rotation ce mu m s f state) (\<lambda>_ d'. tracked ce m prior (nodes d')) ?E d1"
      if "os_phase s = PhaseRotating"
      by (rule wp_finish_rotation [OF placed codec owns1 that g]) (auto intro: owns_tracked)
    have rotate: "wp (rotate_connected ce mu m s f managed) (\<lambda>_ d'. tracked ce m prior (nodes d')) ?E d1"
      if "g = connected_of s"
      by (rule wp_rotate_connected [OF placed codec owns1]) (use that g(1) in \<open>auto intro: owns_tracked\<close>)
    have forget: "wp (remove (snapshot_path m) (expect_present f))
        (\<lambda>_ d'. tracked ce m prior (nodes d') \<and> nodes d' (snapshot_path m) = None) ?E d1" if "g = prior"
      by (rule wp_forget [OF placed owns1]) (use that g(1) in \<open>auto simp: tracked_free\<close>)
    have move: "wp (transition_snapshot ce mu m s f PhaseConnected) (\<lambda>_ d'. tracked ce m prior (nodes d')) ?E d1"
      if "g = connected_of s" "os_phase s \<noteq> PhaseRotating"
      by (rule wp_transition [OF placed codec owns1 that(2)]) (use that g(1) in \<open>auto intro: owns_tracked\<close>)
    show ?thesis using finish rotate forget move kept g(2,3) prior
      by (cases "os_phase s") (auto simp: connect_judged_def wp_simps Let_def allowed_iff verdict_def split: if_splits)
  qed
  show ?thesis unfolding connect_existing_def wp_bind [of "read_snapshot _ _"]
  proof (rule wp_read_owned [OF owns])
    fix d1
    assume owns1: "owns ce m prior s f d1"
    show "wp (case (s, f) of (s, snapshot_file) \<Rightarrow>
      io_bind (io_lift (managed_values_of m)) (\<lambda>managed.
      io_bind (snapshot_state_of m s) (\<lambda>state.
      io_bind (follow_edits ce mu m s snapshot_file state) (\<lambda>(s, snapshot_file, state).
      connect_judged ce mu m managed s snapshot_file state)))) ?Q ?E d1"
    proof (cases "managed_values_of m")
      case (Inl e)
      then show ?thesis using owns_tracked [OF owns1] by (simp add: wp_simps)
    next
      case (Inr managed)
      have "wp (snapshot_state_of m s) (\<lambda>state. wp (follow_edits ce mu m s f state)
         (\<lambda>a. wp (case a of (s, f, state) \<Rightarrow> connect_judged ce mu m managed s f state) ?Q ?E) ?E) ?E d1"
      proof (rule wp_look_owned [OF owns1])
        fix d2 g
        assume owns2: "owns ce m prior s f d2" and g: "file_at (nodes d2) (m_config_path m) g" "allowed s g"
        show "wp (follow_edits ce mu m s f (verdict s g))
         (\<lambda>a. wp (case a of (s, f, state) \<Rightarrow> connect_judged ce mu m managed s f state) ?Q ?E) ?E d2"
          using g(2) judged [OF owns2 g refl] by (simp add: allowed_def follow_edits_def wp_simps)
      qed (rule owns_tracked)
      then show ?thesis by (simp add: Inr wp_simps)
    qed
  qed (rule owns_tracked)
qed

lemma wp_connect_with:
  assumes placed: "placed m" and codec: "codec ce" and wf: "wf_file prior" and start: "tracked ce m prior (nodes d)"
  shows "wp (connect_with ce mu m) (\<lambda>_ d'. tracked ce m prior (nodes d')) (\<lambda>_ d'. tracked ce m prior (nodes d')) d"
proof -
  let ?T = "\<lambda>_ d'. tracked ce m prior (nodes d')"
  have keep: "tracked ce m prior (nodes d2)" if "still m d1 d2" "tracked ce m prior (nodes d1)" for d1 d2
    using that still_tracked by blast
  have fresh: "wp (connect_fresh ce mu m managed) ?T ?T d1"
    if "tracked ce m prior (nodes d1)" "nodes d1 (snapshot_path m) = None" for d1 managed
    by (rule wp_connect_fresh [OF placed codec that(2)]) (use that in \<open>simp add: tracked_def\<close>)
  have body: "wp (io_bind (checked_metadata (snapshot_path m)) (\<lambda>meta.
     io_bind (if meta = None then io_return None else connect_existing ce mu m) (\<lambda>status.
     case status of Some status \<Rightarrow> io_return status | None \<Rightarrow> connect_fresh ce mu m managed))) ?T ?T d1"
    if d1: "tracked ce m prior (nodes d1)" for d1 managed
    unfolding wp_bind [of "checked_metadata _"]
  proof (rule wp_checked_metadata, goal_cases)
    case (1 d2)
    have d2: "tracked ce m prior (nodes d2)" using keep [OF unchanged_still [OF 1(1)] d1] .
    show ?case
    proof (cases "nodes d1 (snapshot_path m)")
      case None
      then show ?thesis using fresh [OF d2] unchangedD(2) [OF 1(1)] by (simp add: wp_simps)
    next
      case (Some n)
      then obtain s f where owns: "owns ce m prior s f d2"
        using tracked_owns [OF d2 wf] unchangedD(2) [OF 1(1)] by auto
      have "wp (connect_existing ce mu m)
          (\<lambda>status. wp (case status of Some status \<Rightarrow> io_return status | None \<Rightarrow> connect_fresh ce mu m managed) ?T ?T) ?T d2"
        by (rule wp_mono [OF wp_connect_existing [OF placed codec owns]])
          (auto simp: wp_simps intro: fresh split: option.splits)
      then show ?thesis using Some by (simp add: wp_bind)
    qed
  qed (use keep unchanged_still d1 in blast)+
  show ?thesis
  proof (cases "managed_values_of m")
    case (Inl e)
    then show ?thesis using start by (simp add: connect_with_def wp_simps)
  next
    case (Inr managed)
    have "wp (ensure_private_state_dir m) (\<lambda>_. wp (manager_lock m) (\<lambda>_. wp (io_bind (checked_metadata (snapshot_path m)) (\<lambda>meta.
       io_bind (if meta = None then io_return None else connect_existing ce mu m) (\<lambda>status.
       case status of Some status \<Rightarrow> io_return status | None \<Rightarrow> connect_fresh ce mu m managed))) ?T ?T) ?T) ?T d"
      by (rule wp_still [OF still_ensure_private_state_dir [OF placed]])
        (auto intro!: wp_still [OF still_manager_lock [OF placed]] body intro: keep [OF _ start] still_trans)
    then show ?thesis by (simp add: connect_with_def Inr wp_bind [of "io_lift _"] wp_lift_simps
      wp_bind [of "ensure_private_state_dir _"] wp_bind [of "manager_lock _"])
  qed
qed

lemma wp_disconnect_with:
  assumes placed: "placed m" and codec: "codec ce" and wf: "wf_file prior" and start: "tracked ce m prior (nodes d)"
  shows "wp (disconnect_with ce mu m) (\<lambda>_ d'. tracked ce m prior (nodes d')) (\<lambda>_ d'. tracked ce m prior (nodes d')) d"
proof -
  let ?T = "\<lambda>_ d'. tracked ce m prior (nodes d')"
  let ?tail = "\<lambda>(s, snapshot_file, state). disconnect_settled ce mu m s snapshot_file state"
  have keep: "tracked ce m prior (nodes d2)" if "still m d1 d2" "tracked ce m prior (nodes d1)" for d1 d2
    using that still_tracked by blast
  have last: "wp (?tail (s, f, verdict s g)) ?T ?T d1"
    if owns: "owns ce m prior s f d1" and g: "file_at (nodes d1) (m_config_path m) g" "allowed s g"
      and phase: "os_phase s \<noteq> PhaseRotating" for s f d1 g
  proof -
    have prior: "prior_of s = prior" using owns by (simp add: owns_def)
    have forget: "wp (remove (snapshot_path m) (expect_present f)) ?T ?T d1" if "g = prior"
      by (rule wp_forget [OF placed owns]) (use that g(1) in \<open>auto simp: tracked_free\<close>)
    have leave: "wp (disconnect_connected ce mu m s f) ?T ?T d1" if "g = connected_of s"
      by (rule wp_disconnect_connected [OF placed codec owns _ phase]) (use that g(1) in auto)
    show ?thesis using forget leave g(2) phase prior
      by (cases "os_phase s") (auto simp: disconnect_settled_def wp_simps allowed_iff verdict_def split: if_splits)
  qed
  have settle: "wp (settle_rotation ce mu m s f (verdict s g)) (\<lambda>a. wp (?tail a) ?T ?T) ?T d1"
    if owns: "owns ce m prior s f d1" and g: "file_at (nodes d1) (m_config_path m) g" "allowed s g" for s f d1 g
  proof -
    have kept: "tracked ce m prior (nodes d1)" by (rule owns_tracked [OF owns])
    have "wp (finish_rotation ce mu m s f (verdict s g)) (\<lambda>(s, file). wp (?tail (s, file, StateConnected)) ?T ?T) ?T d1"
      if rot: "os_phase s = PhaseRotating"
    proof (rule wp_finish_rotation [OF placed codec owns rot g refl], goal_cases)
      case (1 d' p f')
      then have at: "file_at (nodes d') (m_config_path m) (connected_of (settled s p))" by (simp add: owns_def coherent_def)
      have "verdict (settled s p) (connected_of (settled s p)) = StateConnected" by (simp add: verdict_def)
      then show ?case using last [OF 1(2) at] by (simp add: allowed_iff)
    qed auto
    then show ?thesis using last [OF owns g] kept
      by (auto simp: settle_rotation_def Let_def wp_simps split: prod.splits elim!: wp_mono)
  qed
  have body: "wp (io_bind (checked_metadata (snapshot_path m)) (\<lambda>meta.
     if meta = None then io_return Disconnected
     else
       io_bind (read_snapshot ce m) (\<lambda>(s, snapshot_file).
       io_bind (snapshot_state_of m s) (\<lambda>state.
       io_bind (settle_rotation ce mu m s snapshot_file state) ?tail)))) ?T ?T d1"
    if d1: "tracked ce m prior (nodes d1)" for d1
    unfolding wp_bind [of "checked_metadata _"]
  proof (rule wp_checked_metadata, goal_cases)
    case (1 d2)
    have d2: "tracked ce m prior (nodes d2)" using keep [OF unchanged_still [OF 1(1)] d1] .
    show ?case
    proof (cases "nodes d1 (snapshot_path m)")
      case None
      then show ?thesis using d2 by (simp add: wp_simps)
    next
      case (Some n)
      then obtain s f where owns: "owns ce m prior s f d2"
        using tracked_owns [OF d2 wf] unchangedD(2) [OF 1(1)] by auto
      have "wp (snapshot_state_of m s) (\<lambda>state. wp (settle_rotation ce mu m s f state) (\<lambda>a. wp (?tail a) ?T ?T) ?T) ?T d3"
        if owns3: "owns ce m prior s f d3" for d3
        by (rule wp_look_owned [OF owns3]) (auto intro: settle owns_tracked)
      then have "wp (read_snapshot ce m) (\<lambda>(s, f). wp (snapshot_state_of m s)
          (\<lambda>state. wp (settle_rotation ce mu m s f state) (\<lambda>a. wp (?tail a) ?T ?T) ?T) ?T) ?T d2"
        by (intro wp_read_owned [OF owns]) (auto intro: owns_tracked)
      then show ?thesis using Some by (auto simp: wp_bind split: prod.splits elim!: wp_mono)
    qed
  qed (use keep unchanged_still d1 in blast)+
  have "wp (ensure_private_state_dir m) (\<lambda>_. wp (manager_lock m) (\<lambda>_. wp (io_bind (checked_metadata (snapshot_path m)) (\<lambda>meta.
     if meta = None then io_return Disconnected
     else
       io_bind (read_snapshot ce m) (\<lambda>(s, snapshot_file).
       io_bind (snapshot_state_of m s) (\<lambda>state.
       io_bind (settle_rotation ce mu m s snapshot_file state) ?tail)))) ?T ?T) ?T) ?T d"
    by (rule wp_still [OF still_ensure_private_state_dir [OF placed]])
      (auto intro!: wp_still [OF still_manager_lock [OF placed]] body intro: keep [OF _ start] still_trans)
  then show ?thesis by (simp add: disconnect_with_def wp_bind [of "ensure_private_state_dir _"] wp_bind [of "manager_lock _"])
qed

end

subsection \<open>Sessions\<close>

lemma filesystem_mu: "filesystem_mutations = filesystem.mu"
  by (simp add: filesystem_mutations_def)

lemma keep_connect:
  assumes "placed m" "codec ce" "wf_file prior" "tracked ce m prior (nodes d)"
  shows "tracked ce m prior (nodes (snd (config_connect ce m d)))"
  using filesystem.wp_connect_with [OF assms]
  by (simp add: config_connect_def filesystem_mu wp_def split: prod.splits sum.splits)

lemma keep_disconnect:
  assumes "placed m" "codec ce" "wf_file prior" "tracked ce m prior (nodes d)"
  shows "tracked ce m prior (nodes (snd (config_disconnect ce m d)))"
  using filesystem.wp_disconnect_with [OF assms]
  by (simp add: config_disconnect_def filesystem_mu wp_def split: prod.splits sum.splits)

lemma wp_ownership_status:
  assumes placed: "placed m" and codec: "codec ce" and wf: "wf_file prior" and start: "tracked ce m prior (nodes d)"
  shows "wp (ownership_status ce m) (\<lambda>_ d'. tracked ce m prior (nodes d')) (\<lambda>_ d'. tracked ce m prior (nodes d')) d"
proof -
  let ?T = "\<lambda>_ d'. tracked ce m prior (nodes d')"
  have keep: "tracked ce m prior (nodes d2)" if "still m d1 d2" "tracked ce m prior (nodes d1)" for d1 d2
    using that still_tracked by blast
  have judged: "wp (io_bind (read_snapshot ce m) (\<lambda>(s, snapshot_file).
      io_bind (snapshot_state_of m s) (\<lambda>state. status_of_snapshot ce filesystem_mutations m s snapshot_file state))) ?T ?T d1"
    if d1: "tracked ce m prior (nodes d1)" "nodes d1 (snapshot_path m) \<noteq> None" for d1
  proof -
    obtain s f where owns: "owns ce m prior s f d1" using tracked_owns [OF d1(1) wf d1(2)] by blast
    have "wp (snapshot_state_of m s) (\<lambda>state. wp (status_of_snapshot ce filesystem_mutations m s f state) ?T ?T) ?T d2"
      if owns2: "owns ce m prior s f d2" for d2
      by (rule filesystem.wp_look_owned [OF owns2])
        (auto simp: filesystem_mu intro: filesystem.wp_settle_status [OF placed codec] owns_tracked)
    then have "wp (read_snapshot ce m) (\<lambda>(s, f). wp (snapshot_state_of m s)
        (\<lambda>state. wp (status_of_snapshot ce filesystem_mutations m s f state) ?T ?T) ?T) ?T d1"
      by (intro filesystem.wp_read_owned [OF owns]) (auto intro: owns_tracked)
    then show ?thesis by (auto simp: wp_bind split: prod.splits elim!: wp_mono)
  qed
  have locked: "wp (ownership_status_locked ce m) ?T ?T d1" if d1: "tracked ce m prior (nodes d1)" for d1
    unfolding ownership_status_locked_def wp_bind [of "checked_metadata _"]
  proof (rule wp_checked_metadata, goal_cases)
    case (1 d2)
    have d2: "tracked ce m prior (nodes d2)" by (rule keep [OF unchanged_still [OF 1(1)] d1])
    then show ?case using judged [OF d2] unchangedD(2) [OF 1(1)]
      by (cases "nodes d1 (snapshot_path m)") (auto simp: wp_bind [of "io_lift _"] wp_lift wp_return split: sum.splits)
  qed (use keep unchanged_still d1 in blast)+
  have outer: "wp (io_bind (checked_metadata (snapshot_path m)) (\<lambda>meta.
      if meta = None then io_return None else io_bind (manager_lock m) (\<lambda>_. ownership_status_locked ce m))) ?T ?T d1"
    if d1: "tracked ce m prior (nodes d1)" for d1
    unfolding wp_bind [of "checked_metadata _"] wp_bind [of "manager_lock _"]
  proof (rule wp_checked_metadata, goal_cases)
    case (1 d2)
    have d2: "tracked ce m prior (nodes d2)" by (rule keep [OF unchanged_still [OF 1(1)] d1])
    show ?case
    proof (cases "nodes d1 (snapshot_path m) = None")
      case True
      then show ?thesis using d2 by (simp add: wp_return)
    next
      case False
      have "wp (manager_lock m) (\<lambda>_. wp (ownership_status_locked ce m) ?T ?T) ?T d2"
        by (rule wp_still [OF still_manager_lock [OF placed]]) (use locked keep d2 in blast)+
      then show ?thesis using False d2 by (simp add: wp_bind [of "manager_lock _"] wp_return)
    qed
  qed (use keep unchanged_still d1 in blast)+
  show ?thesis unfolding ownership_status_def wp_bind [of "checked_metadata (m_state_dir m)"]
  proof (rule wp_checked_metadata, goal_cases)
    case (1 d1)
    have d1: "tracked ce m prior (nodes d1)" by (rule keep [OF unchanged_still [OF 1(1)] start])
    then show ?case using outer [OF d1]
      by (cases "nodes d (m_state_dir m)") (auto simp: wp_bind [of "io_lift _"] wp_lift wp_return split: sum.splits)
  qed (use keep unchanged_still start in blast)+
qed

lemma wp_notify_ownership:
  assumes placed: "placed m"
  shows "wp (notify_ownership_of ce m) (\<lambda>_. still m d) (\<lambda>_. still m d) d"
proof -
  have read: "wp (io_bind (read_snapshot ce m) (\<lambda>(s, _).
       io_bind (snapshot_state_of m s) (\<lambda>state. case state of
           StateConnected \<Rightarrow> io_return (Some (if os_owns_notify s then AgentobsOwned else ExternalPreserved))
         | PreparedPrior \<Rightarrow> io_return None
         | RestoredPrior \<Rightarrow> io_return None
         | RotationPrepared \<Rightarrow> io_fail InvalidSnapshot
         | RotationApplied \<Rightarrow> io_fail InvalidSnapshot
         | StateConflict \<Rightarrow> io_fail ConfigConflict))) (\<lambda>_. still m d) (\<lambda>_. still m d) d1" if d1: "still m d d1" for d1
    unfolding wp_bind [of "read_snapshot _ _"]
  proof (rule wp_read_snapshot, simp only: prod.case wp_bind, rule wp_snapshot_state_of, goal_cases)
    case (1 d2 s bytes mode d3 state)
    then have "still m d d3" using d1 by (auto intro: still_unchanged)
    then show ?case by (cases state) (simp_all add: wp_simps)
  qed (use d1 in \<open>auto intro: still_unchanged\<close>)
  have body: "wp (io_bind (checked_metadata (snapshot_path m)) (\<lambda>meta.
     if meta = None then io_return None
     else io_bind (read_snapshot ce m) (\<lambda>(s, _).
       io_bind (snapshot_state_of m s) (\<lambda>state. case state of
           StateConnected \<Rightarrow> io_return (Some (if os_owns_notify s then AgentobsOwned else ExternalPreserved))
         | PreparedPrior \<Rightarrow> io_return None
         | RestoredPrior \<Rightarrow> io_return None
         | RotationPrepared \<Rightarrow> io_fail InvalidSnapshot
         | RotationApplied \<Rightarrow> io_fail InvalidSnapshot
         | StateConflict \<Rightarrow> io_fail ConfigConflict)))) (\<lambda>_. still m d) (\<lambda>_. still m d) d1" if d1: "still m d d1" for d1
    unfolding wp_bind [of "checked_metadata _"]
    by (rule wp_checked_metadata) (use d1 read in \<open>auto simp: wp_return intro: still_unchanged\<close>)
  have "wp (ensure_private_state_dir m) (\<lambda>_. wp (manager_lock m) (\<lambda>_. wp (io_bind (checked_metadata (snapshot_path m)) (\<lambda>meta.
     if meta = None then io_return None
     else io_bind (read_snapshot ce m) (\<lambda>(s, _).
       io_bind (snapshot_state_of m s) (\<lambda>state. case state of
           StateConnected \<Rightarrow> io_return (Some (if os_owns_notify s then AgentobsOwned else ExternalPreserved))
         | PreparedPrior \<Rightarrow> io_return None
         | RestoredPrior \<Rightarrow> io_return None
         | RotationPrepared \<Rightarrow> io_fail InvalidSnapshot
         | RotationApplied \<Rightarrow> io_fail InvalidSnapshot
         | StateConflict \<Rightarrow> io_fail ConfigConflict)))) (\<lambda>_. still m d) (\<lambda>_. still m d)) (\<lambda>_. still m d)) (\<lambda>_. still m d) d"
    by (rule wp_still [OF still_ensure_private_state_dir [OF placed]])
      (auto intro!: wp_still [OF still_manager_lock [OF placed]] body intro: still_trans)
  then show ?thesis unfolding notify_ownership_of_def
    by (simp add: wp_bind [of "ensure_private_state_dir _"] wp_bind [of "manager_lock _"])
qed

text \<open>
  A session is any sequence of operations by managers of one configuration and one state directory, each with
  managed values of its own or none, where the machine may restart at any time with any schedule of faults.
\<close>

datatype operation = Connect | Disconnect | Status | NotifyOwnership

fun run_operation :: "config_env \<Rightarrow> manager \<Rightarrow> operation \<Rightarrow> machine \<Rightarrow> machine" where
  "run_operation ce m Connect d = snd (config_connect ce m d)"
| "run_operation ce m Disconnect d = snd (config_disconnect ce m d)"
| "run_operation ce m Status d = snd (config_status ce m d)"
| "run_operation ce m NotifyOwnership d = snd (notify_ownership_of ce m d)"

inductive session :: "config_env \<Rightarrow> manager \<Rightarrow> machine \<Rightarrow> machine \<Rightarrow> bool" for ce m where
  start: "session ce m d d"
| restart: "session ce m d d' \<Longrightarrow>
    session ce m d (d'\<lparr>faults := schedule, clock := ticks, temp_sequence := sequence, process_id := pid\<rparr>)"
| act: "session ce m d d' \<Longrightarrow> session ce m d (run_operation ce (m\<lparr>m_managed := managed\<rparr>) op d')"

inductive_cases session_cases: "session ce m d d'"

lemma managed_irrelevant [simp]:
  "snapshot_path (m\<lparr>m_managed := managed\<rparr>) = snapshot_path m"
  "placed (m\<lparr>m_managed := managed\<rparr>) = placed m"
  "validate_path_and_prior ce (m\<lparr>m_managed := managed\<rparr>) s = validate_path_and_prior ce m s"
  "tracked ce (m\<lparr>m_managed := managed\<rparr>) prior t = tracked ce m prior t"
  by (simp_all add: snapshot_path_def placed_def validate_path_and_prior_def tracked_def split: option.split)

lemma keep_operation:
  assumes "placed m" "codec ce" "wf_file prior" "tracked ce m prior (nodes d)"
  shows "tracked ce m prior (nodes (run_operation ce m op d))"
proof (cases op)
  case Connect
  then show ?thesis using keep_connect [OF assms] by simp
next
  case Disconnect
  then show ?thesis using keep_disconnect [OF assms] by simp
next
  case Status
  then show ?thesis using wp_ownership_status [OF assms]
    by (simp add: config_status_def io_bind_def io_return_def wp_def split: prod.splits sum.splits)
next
  case NotifyOwnership
  have "still m d (snd (notify_ownership_of ce m d))"
    using wp_notify_ownership [OF assms(1), of ce d] by (simp add: wp_def split: prod.splits sum.splits)
  then show ?thesis using NotifyOwnership assms(4) by (simp add: still_tracked)
qed

lemma session_tracked:
  assumes "session ce m d d'" "placed m" "codec ce" "wf_file prior" "tracked ce m prior (nodes d)"
  shows "tracked ce m prior (nodes d')"
  using assms
proof (induction rule: session.induct)
  case (act d d' managed op)
  then show ?case using keep_operation [of "m\<lparr>m_managed := managed\<rparr>" ce prior d' op] by simp
qed simp_all

end
