(* ===== verification/Codex_Config_Recovery.thy ===== *)
theory Codex_Config_Recovery
  imports Codex_Config_Laws
begin

section \<open>Codex configuration: an undisturbed disconnect restores the file\<close>

text \<open>
  Progress of the manager on a machine without faults whose directories are in place: whatever interrupted
  operations left behind, one disconnect puts the recorded file back and forgets the snapshot.
\<close>

subsection \<open>Undisturbed machines\<close>

definition private_dir :: "tree \<Rightarrow> path \<Rightarrow> bool" where
  "private_dir t p \<longleftrightarrow> (\<exists>mode. t p = Some (Directory mode) \<and> mode AND 63 = 0)"

definition any_dir :: "tree \<Rightarrow> path \<Rightarrow> bool" where
  "any_dir t p \<longleftrightarrow> (\<exists>mode. t p = Some (Directory mode))"

definition free_temps :: "machine \<Rightarrow> path \<Rightarrow> bool" where
  "free_temps d p \<longleftrightarrow> (\<forall>sequence. nodes d (set_file_name p (sibling_name p ''new'' (process_id d) sequence)) = None)"

definition served :: "manager \<Rightarrow> machine \<Rightarrow> bool" where
  "served m d \<longleftrightarrow> calm d \<and> free_temps d (m_config_path m) \<and> free_temps d (snapshot_path m) \<and>
     (\<exists>dir. parent (m_config_path m) = Some dir \<and> any_dir (nodes d) dir) \<and>
     private_dir (nodes d) (m_state_dir m) \<and>
     (\<exists>dir. parent (m_state_dir m) = Some dir \<and> private_dir (nodes d) dir) \<and>
     (\<exists>lock. lock_path m = Inr lock \<and>
        (nodes d lock = None \<or> (\<exists>bytes mode. nodes d lock = Some (Regular bytes mode) \<and> mode AND 63 = 0)))"

lemma served_ready: "served m d \<Longrightarrow> ready d (m_config_path m)" "served m d \<Longrightarrow> ready d (snapshot_path m)"
  by (auto simp: served_def ready_def free_temps_def private_dir_def any_dir_def)

lemma served_calm: "served m d \<Longrightarrow> calm d"
  by (simp add: served_def)

lemma served_unchanged: "served m d \<Longrightarrow> unchanged d d' \<Longrightarrow> served m d'"
  by (simp add: served_def unchanged_def later_def calm_def free_temps_def)

text \<open>A path that no directory of the manager, no temporary name and not the lock may be.\<close>

lemma served_upd:
  assumes served: "served m d" and d': "later d d'" "nodes d' = (nodes d)(p := x)"
    and shown: "\<not> hidden p" and no_dir: "\<And>mode. nodes d p \<noteq> Some (Directory mode)"
  shows "served m d'"
proof -
  have temp: "set_file_name q (sibling_name q ''new'' pid s) \<noteq> p" for q pid s
    using hidden_temp [of q "''new''" pid s] shown by auto
  have lock: "lock \<noteq> p" if "lock_path m = Inr lock" for lock using hidden_lock [OF that] shown by auto
  have dirs: "private_dir (nodes d') q" if "private_dir (nodes d) q" for q
    using that no_dir d'(2) by (auto simp: private_dir_def)
  have "calm d'" using served d'(1) by (simp add: served_def calm_later)
  moreover have "free_temps d' q" if "free_temps d q" for q
    using that temp d' by (auto simp: free_temps_def later_def)
  moreover have "any_dir (nodes d') q" if "any_dir (nodes d) q" for q
    using that no_dir d'(2) by (auto simp: any_dir_def)
  moreover have "\<exists>lock. lock_path m = Inr lock \<and>
        (nodes d' lock = None \<or> (\<exists>bytes mode. nodes d' lock = Some (Regular bytes mode) \<and> mode AND 63 = 0))"
    using served lock d'(2) unfolding served_def by fastforce
  ultimately show ?thesis using served dirs by (auto simp: served_def)
qed

lemma last_decimal: "last (decimal n) = digit (n mod 10)"
  by (subst decimal.simps) (simp add: mod_less)

lemma lock_no_temp: "LOCK_FILE \<noteq> sibling_name p kind pid s"
proof
  assume "LOCK_FILE = sibling_name p kind pid s"
  then have "last LOCK_FILE = last (sibling_name p kind pid s)" by simp
  also have "\<dots> = digit (unat s mod 10)"
    using decimal_not_empty [of "unat s"] by (simp add: sibling_name_def last_append last_decimal)
  finally have "byte_of (last LOCK_FILE) = byte_of (digit (unat s mod 10))" by simp
  moreover have "byte_of (digit (unat s mod 10)) = 48 + unat s mod 10" by (simp add: byte_of_def digit_def)
  moreover have "byte_of (last LOCK_FILE) = 107" by (simp add: LOCK_FILE_def byte_of_def)
  ultimately have "(107 :: nat) = 48 + unat s mod 10" by simp
  moreover have "unat s mod 10 < 10" by simp
  ultimately show False by linarith
qed

lemma served_lock:
  assumes served: "served m d" and lock: "lock_path m = Inr lock" and d': "later d d'"
    "nodes d' = (nodes d)(lock \<mapsto> Regular [] 384)" and none: "nodes d lock = None"
  shows "served m d'"
proof -
  obtain dir where "lock = path_join dir LOCK_FILE" using lock by (auto simp: lock_path_def result_simps)
  then have name: "path_file_name lock = Some LOCK_FILE" by (cases dir) simp
  have temp: "set_file_name q (sibling_name q ''new'' pid s) \<noteq> lock" for q pid s
  proof
    assume "set_file_name q (sibling_name q ''new'' pid s) = lock"
    then have "path_file_name lock = Some (sibling_name q ''new'' pid s)" by (metis file_name_sibling)
    then show False using name lock_no_temp by simp
  qed
  have dirs: "private_dir (nodes d') q" if "private_dir (nodes d) q" for q
    using that none d'(2) by (auto simp: private_dir_def)
  have "calm d'" using served d'(1) by (simp add: served_def calm_later)
  moreover have "free_temps d' q" if "free_temps d q" for q
    using that temp d' by (auto simp: free_temps_def later_def)
  moreover have "any_dir (nodes d') q" if "any_dir (nodes d) q" for q
    using that none d'(2) by (auto simp: any_dir_def)
  moreover have "\<exists>lock. lock_path m = Inr lock \<and>
        (nodes d' lock = None \<or> (\<exists>bytes mode. nodes d' lock = Some (Regular bytes mode) \<and> mode AND 63 = 0))"
    using lock d'(2) by auto
  ultimately show ?thesis using served dirs by (auto simp: served_def)
qed

subsection \<open>Directories and lock\<close>

lemma wp_ensure_private_directory_calm:
  assumes "calm d" "private_dir (nodes d) p" "\<And>d'. unchanged d d' \<Longrightarrow> Q () d'"
  shows "wp (ensure_private_directory p) Q E d"
proof -
  obtain mode where node: "nodes d p = Some (Directory mode)" "mode AND 63 = 0" using assms(2) by (auto simp: private_dir_def)
  have valid: "wp (validate_private_dir p) Q E d1" if d1: "unchanged d d1" for d1
    unfolding validate_private_dir_def wp_bind
    by (rule wp_checked_metadata)
      (use node unchangedD(2) [OF d1] d1 assms(1) calm_unchanged [OF d1] in \<open>auto simp: wp_lift validate_private_dir_metadata_def
        validate_private_permissions_def ensure_def intro!: assms(3) intro: unchanged_trans\<close>)
  show ?thesis unfolding ensure_private_directory_def wp_bind wp_catch create_dir_def
  proof (rule wp_syscall_write, goal_cases)
    case (1 d' a t)
    then show ?case using node(1) by simp
  next
    case (2 d' k)
    then have "k = AlreadyExists" using assms(1) node(1) by simp
    then show ?case using valid [OF 2(1)] by (simp add: wp_return)
  qed
qed

lemma wp_state_dir_calm:
  assumes "served m d" "\<And>d'. unchanged d d' \<Longrightarrow> Q () d'"
  shows "wp (ensure_private_state_dir m) Q E d"
proof -
  obtain dir where dir: "parent (m_state_dir m) = Some dir" "private_dir (nodes d) dir" "private_dir (nodes d) (m_state_dir m)"
    using assms(1) by (auto simp: served_def)
  show ?thesis unfolding ensure_private_state_dir_def dir(1) wp_bind wp_lift ok_or_simps sum.case
  proof (rule wp_ensure_private_directory_calm [OF served_calm [OF assms(1)] dir(2)])
    fix d1
    assume d1: "unchanged d d1"
    show "wp (ensure_private_directory (m_state_dir m)) Q E d1"
      by (rule wp_ensure_private_directory_calm)
        (use d1 dir(3) served_calm [OF assms(1)] calm_unchanged [OF d1] unchangedD(2) [OF d1] in \<open>auto intro: assms(2) unchanged_trans\<close>)
  qed
qed

lemma wp_lock_calm:
  assumes served: "served m d" and placed: "placed m"
    and locked: "\<And>d'. served m d' \<Longrightarrow> still m d d' \<Longrightarrow> Q () d'"
  shows "wp (manager_lock m) Q E d"
proof -
  obtain lock where lock: "lock_path m = Inr lock"
      "nodes d lock = None \<or> (\<exists>bytes mode. nodes d lock = Some (Regular bytes mode) \<and> mode AND 63 = 0)"
    using served by (auto simp: served_def)
  have neq: "lock \<noteq> m_config_path m" "lock \<noteq> snapshot_path m"
    using hidden_lock [OF lock(1)] placed by (auto simp: placed_def)
  obtain dir mode where dir: "parent (m_config_path m) = Some dir" "nodes d dir = Some (Directory mode)"
    using served by (auto simp: served_def any_dir_def)
  have "parent lock = Some dir" using lock(1) dir(1) by (cases dir) (auto simp: lock_path_def)
  then have can: "creatable (nodes d) lock = Inr ()" using dir(2) by (simp add: creatable_def)
  have rest: "wp (io_bind (io_lift (validate_private_file lock n)) (\<lambda>_. lock_file)) Q E d1"
    if "served m d1" "still m d d1" "validate_private_file lock n = Inr ()" for d1 n
    using that served_calm [OF that(1)]
    by (auto simp: wp_simps intro!: wp_idle locked intro: served_unchanged still_unchanged)
  have "wp (open_create lock 384) (\<lambda>n. wp (io_bind (io_lift (validate_private_file lock n)) (\<lambda>_. lock_file)) Q E) E d"
    unfolding open_create_def
  proof (rule wp_syscall_write, goal_cases)
    case (1 d' a t)
    show ?case
    proof (cases "nodes d lock")
      case None
      then have d': "nodes d' = (nodes d)(lock \<mapsto> Regular [] 384)" "a = Regular [] 384" using 1 can by auto
      show ?thesis
        by (rule rest [OF served_lock [OF served lock(1) 1(1) d'(1) None] still_upd [OF 1(1) d'(1) neq]])
          (simp add: d'(2) validate_private_file_def validate_private_permissions_def ensure_def)
    next
      case (Some n)
      then obtain bytes mode where n: "n = Regular bytes mode" "mode AND 63 = 0" using lock(2) by auto
      then have d': "unchanged d d'" "a = n" using 1 Some by (auto simp: unchanged_def)
      show ?thesis
        by (rule rest [OF served_unchanged [OF served d'(1)] unchanged_still [OF d'(1)]])
          (simp add: d'(2) n validate_private_file_def validate_private_permissions_def ensure_def)
    qed
  next
    case (2 d' k)
    then show ?case using lock(2) can served_calm [OF served] by (cases "nodes d lock") auto
  qed
  then show ?thesis by (simp add: manager_lock_def mutation_lock_def lock(1) wp_bind wp_lift)
qed

subsection \<open>Undisturbed steps\<close>

definition fits :: "config_env \<Rightarrow> ownership_snapshot \<Rightarrow> bool" where
  "fits ce s \<longleftrightarrow> (\<exists>bytes. to_bytes ce s = Inr bytes \<and> length bytes \<le> MAX_SNAPSHOT_BYTES)"

definition room :: "config_env \<Rightarrow> manager \<Rightarrow> ownership_snapshot \<Rightarrow> bool" where
  "room ce m s \<longleftrightarrow>
     length (ef_bytes (prior_of s)) \<le> byte_limit (m_config_path m) \<and>
     length (ef_bytes (connected_of s)) \<le> byte_limit (m_config_path m) \<and>
     length (ef_bytes (pending_of s)) \<le> byte_limit (m_config_path m) \<and>
     fits ce (s\<lparr>os_phase := PhaseRestoring\<rparr>) \<and>
     (case os_pending_rotation s of None \<Rightarrow> True
      | Some p \<Rightarrow> fits ce (settled s p) \<and> fits ce ((settled s p)\<lparr>os_phase := PhaseRestoring\<rparr>))"

definition hold ::
  "config_env \<Rightarrow> manager \<Rightarrow> existing_file \<Rightarrow> ownership_snapshot \<Rightarrow> existing_file \<Rightarrow> existing_file \<Rightarrow> machine \<Rightarrow> bool" where
  "hold ce m prior s f g d \<longleftrightarrow> owns ce m prior s f d \<and> served m d \<and> length (ef_bytes f) \<le> MAX_SNAPSHOT_BYTES \<and>
     file_at (nodes d) (m_config_path m) g \<and> length (ef_bytes g) \<le> byte_limit (m_config_path m)"

lemma seen_at:
  "file_at t p f \<Longrightarrow> length (ef_bytes f) \<le> byte_limit p \<Longrightarrow> seen t p = Inr f"
  by (cases f) (auto simp: file_at_def seen_Inr existing_present_def split: if_splits)

lemma owns_file: "owns ce m prior s f d \<Longrightarrow> ef_existed f \<and> ef_mode f = 384"
  by (cases f) (auto simp: owns_def existing_present_def)

lemma hold_facts:
  assumes "hold ce m prior s f g d"
  shows "owns ce m prior s f d" "ef_existed f" "ef_mode f = 384" "served m d" "calm d"
    "ce_decode ce (ef_bytes f) = Some s" "validate_path_and_prior ce m s = Inr ()" "prior_of s = prior" "wf_file prior"
  using assms owns_file [of ce m prior s f d] served_calm [of m d] by (simp_all add: hold_def owns_def)

lemma hold_snapshot: "hold ce m prior s f g d \<Longrightarrow> seen (nodes d) (snapshot_path m) = Inr f"
  by (auto simp: hold_def owns_def seen_Inr)

lemma hold_config: "hold ce m prior s f g d \<Longrightarrow> seen (nodes d) (m_config_path m) = Inr g"
  by (simp add: hold_def seen_at)

lemma hold_expected:
  "hold ce m prior s f g d \<Longrightarrow> expected_at (nodes d) (snapshot_path m) (expect_present f)"
  using hold_snapshot hold_facts(2) by (auto simp: expected_at_def expect_present_def file_matches_def)

lemma hold_unchanged: "hold ce m prior s f g d \<Longrightarrow> unchanged d d' \<Longrightarrow> hold ce m prior s f g d'"
  by (auto simp: hold_def unchangedD(2) intro: owns_unchanged served_unchanged)

lemma wp_read_hold:
  assumes hold: "hold ce m prior s f g d" and shown: "\<And>d'. hold ce m prior s f g d' \<Longrightarrow> Q (s, f) d'"
  shows "wp (read_snapshot ce m) Q E d"
  unfolding read_snapshot_def wp_bind
proof (rule wp_read, goal_cases)
  case (1 d' f')
  have "f' = f" using 1(2) hold_snapshot [OF hold] by simp
  then show ?case using hold_facts [OF hold] shown [OF hold_unchanged [OF hold 1(1)]] by (simp add: wp_simps)
next
  case (2 d' e)
  then show ?case using hold_snapshot [OF hold] by simp
next
  case (3 d')
  then show ?case using hold_facts(5) [OF hold] by simp
qed

lemma wp_look_hold:
  assumes hold: "hold ce m prior s f g d" and allowed: "allowed s g"
    and shown: "\<And>d'. hold ce m prior s f g d' \<Longrightarrow> Q (verdict s g) d'"
  shows "wp (snapshot_state_of m s) Q E d"
proof -
  have seen: "seen (nodes d) (m_config_path m) = Inr g" by (rule hold_config [OF hold])
  have valid: "validate_path_and_prior ce m s = Inr ()" and wf: "wf_file (prior_of s)" "wf_file g"
    using hold by (auto simp: hold_def owns_def intro: file_at_wf)
  have judge: "judge s g = Inr (verdict s g)" by (rule judge_verdict [OF valid wf])
  have calm: "calm d" by (rule hold_facts(5) [OF hold])
  show ?thesis unfolding snapshot_state_of_def wp_bind
  proof (rule wp_checked_metadata, goal_cases)
    case (1 d1)
    show ?case
    proof (cases "nodes d (m_config_path m)")
      case None
      then have "g = existing_missing" using seen by (simp add: seen_None)
      then show ?thesis using None judge shown [OF hold_unchanged [OF hold 1(1)]] by (simp add: wp_simps)
    next
      case (Some n)
      then obtain bytes mode where n: "n = Regular bytes mode" "g = existing_present bytes (mode AND 511)"
        using seen by (auto simp: seen_Inr)
      have mode: "unix_mode n = os_connected_mode s"
        using allowed_mode [OF valid allowed] n by (simp add: existing_present_def unix_mode_def)
      have hold1: "hold ce m prior s f g d1" by (rule hold_unchanged [OF hold 1(1)])
      have "wp (read_config m) (\<lambda>current. wp (io_lift (judge s current)) Q E) E d1"
        unfolding read_config_def
        by (rule wp_read) (use hold_config [OF hold1] judge shown [OF hold_unchanged [OF hold1]] hold_facts(5) [OF hold1] in
          \<open>simp_all add: wp_simps\<close>)
      then show ?thesis using Some n(1) mode by (simp add: wp_simps)
    qed
  next
    case (2 d1)
    then show ?case using seen by (simp add: seen_Inr)
  next
    case (3 d1)
    then show ?case using calm by simp
  qed
qed

context working_mutations
begin

lemma wp_replace_served:
  assumes served: "served m d" and path: "p = m_config_path m \<or> p = snapshot_path m" and placed: "placed m"
    and ok: "expected_at (nodes d) p expected" "readable_back p bytes mode"
    and installed: "\<And>d'. served m d' \<Longrightarrow> later d d' \<Longrightarrow> nodes d' = (nodes d)(p \<mapsto> Regular bytes mode) \<Longrightarrow> Q () d'"
  shows "wp (replace p expected bytes mode) Q E d"
proof -
  have shown: "\<not> hidden p" using path placed by (auto simp: placed_def)
  have "ready d p" using path served_ready [OF served] by auto
  then obtain d' where run: "replace p expected bytes mode d = (Inr (), d')" "later d d'"
      "nodes d' = (nodes d)(p \<mapsto> Regular bytes mode)"
    using replace_works [OF _ shown ok] by blast
  have "served m d'" using served run(2,3) shown
    by (rule served_upd) (use ok(1) in \<open>auto simp: expected_at_def seen_Inr\<close>)
  then show ?thesis using installed run by (simp add: wp_def)
qed

lemma wp_remove_served:
  assumes served: "served m d" and path: "p = m_config_path m \<or> p = snapshot_path m" and placed: "placed m"
    and ok: "expected_at (nodes d) p expected"
    and removed: "\<And>d'. served m d' \<Longrightarrow> later d d' \<Longrightarrow> nodes d' = (nodes d)(p := None) \<Longrightarrow> Q () d'"
  shows "wp (remove p expected) Q E d"
proof -
  have shown: "\<not> hidden p" using path placed by (auto simp: placed_def)
  have "ready d p" using path served_ready [OF served] by auto
  then obtain d' where run: "remove p expected d = (Inr (), d')" "later d d'" "nodes d' = (nodes d)(p := None)"
    using remove_works [OF _ shown ok] by blast
  have "served m d'" using served run(2,3) shown
    by (rule served_upd) (use ok(1) in \<open>auto simp: expected_at_def seen_Inr\<close>)
  then show ?thesis using removed run by (simp add: wp_def)
qed

lemma wp_write_hold:
  assumes placed: "placed m" and codec: "codec ce" and hold: "hold ce m prior s0 f0 g d"
    and s: "validate_path_and_prior ce m s = Inr ()" "prior_of s = prior" "allowed s g" "fits ce s"
    and written: "\<And>d' f. hold ce m prior s f g d' \<Longrightarrow> Q f d'"
  shows "wp (write_snapshot ce mu m s f0) Q E d"
proof -
  obtain bytes where bytes: "to_bytes ce s = Inr bytes" "length bytes \<le> MAX_SNAPSHOT_BYTES" using s(4) by (auto simp: fits_def)
  have neq: "m_config_path m \<noteq> snapshot_path m" using placed by (simp add: placed_def)
  have "wp (replace (snapshot_path m) (expect_present f0) bytes 384) (\<lambda>_. Q (existing_present bytes 384)) E d"
  proof (rule wp_replace_served [OF _ _ placed hold_expected [OF hold]])
    show "served m d" using hold by (simp add: hold_def)
    show "readable_back (snapshot_path m) bytes 384" using bytes(2) by (simp add: readable_back_def)
  next
    fix d'
    assume d': "served m d'" "later d d'" "nodes d' = (nodes d)(snapshot_path m \<mapsto> Regular bytes 384)"
    have at: "file_at (nodes d') (m_config_path m) g" using hold d'(3) neq by (simp add: hold_def file_at_def)
    have "ce_decode ce bytes = Some s" using codec bytes(1) by (simp add: codec_def)
    then have "owns ce m prior s (existing_present bytes 384) d'"
      using hold s(1,2) d'(3) allowed_coherent [OF at s(3)] by (simp add: hold_def owns_def existing_present_def)
    then show "Q (existing_present bytes 384) d'"
      using hold d'(1) at bytes(2) by (intro written) (simp add: hold_def existing_present_def)
  qed simp
  then show ?thesis by (simp add: write_snapshot_def wp_simps bytes(1))
qed

lemma wp_finish_hold:
  assumes placed: "placed m" and codec: "codec ce" and hold: "hold ce m prior s f g d"
    and rotating: "os_phase s = PhaseRotating" and g: "allowed s g" and room: "room ce m s"
    and finished: "\<And>d' p f'. os_pending_rotation s = Some p \<Longrightarrow>
      hold ce m prior (settled s p) f' (connected_of (settled s p)) d' \<Longrightarrow> Q (settled s p, f') d'"
  shows "wp (finish_rotation ce mu m s f (verdict s g)) Q E d"
proof -
  have owns: "owns ce m prior s f d" and served: "served m d" and at: "file_at (nodes d) (m_config_path m) g"
    using hold by (auto simp: hold_def)
  have valid: "validate_path_and_prior ce m s = Inr ()" and prior: "prior_of s = prior" using owns by (auto simp: owns_def)
  obtain p where p: "os_pending_rotation s = Some p" "pending_of s = connected_of (settled s p)"
      "pr_connected_mode p = os_connected_mode s" "decoded (pr_connected_bytes_hex p) = Inr (ef_bytes (pending_of s))"
    using rotating_pending [OF valid rotating] .
  have small: "length (ef_bytes (pending_of s)) \<le> byte_limit (m_config_path m)" "fits ce (settled s p)"
    using room p(1) by (auto simp: room_def)
  have rest: "wp (write_snapshot ce mu m (settled s p) f) (\<lambda>f'. Q (settled s p, f')) E d1"
    if hold1: "hold ce m prior s f (pending_of s) d1" for d1
    using hold1 p(2) prior small(2) settled_valid [OF valid p(1)]
    by (intro wp_write_hold [OF placed codec hold1]) (auto simp: allowed_iff intro: finished [OF p(1)])
  have moved: "wp (replace (m_config_path m) (Present (ef_bytes (connected_of s)) (os_connected_mode s))
        (ef_bytes (pending_of s)) (pr_connected_mode p))
      (\<lambda>_. wp (write_snapshot ce mu m (settled s p) f) (\<lambda>f'. Q (settled s p, f')) E) E d"
    if g: "g = connected_of s"
  proof (rule wp_replace_served [OF served _ placed], goal_cases)
    case 2
    show ?case using hold_config [OF hold] g
      by (auto simp: expected_at_def file_matches_def)
  next
    case 3
    show ?case using file_at_mode [OF at] g p(3) small(1) by (simp add: readable_back_def)
  next
    case (4 d')
    have "file_at (nodes d') (m_config_path m) (existing_present (ef_bytes (pending_of s)) (os_connected_mode s))"
      using file_at_mode [OF at] g 4(3) p(3) by (intro file_at_installed) auto
    then have at': "file_at (nodes d') (m_config_path m) (pending_of s)"
      using p by (simp add: pending_of_def existing_present_def)
    moreover have "owns ce m prior s f d'"
      using owns 4(3) at' rotating placed by (auto simp: owns_def coherent_def placed_def)
    ultimately have "hold ce m prior s f (pending_of s) d'"
      using hold 4(1) small(1) by (simp add: hold_def)
    then show ?case by (rule rest)
  qed simp
  have "verdict s g = RotationPrepared \<and> g = connected_of s \<or> verdict s g = RotationApplied \<and> g = pending_of s"
    using g rotating by (auto simp: allowed_def verdict_def split: if_splits)
  then show ?thesis
  proof
    assume "verdict s g = RotationPrepared \<and> g = connected_of s"
    then have v: "verdict s g = RotationPrepared" and g': "g = connected_of s" by auto
    show ?thesis unfolding v using moved [OF g'] valid_decoded [OF valid] p
      by (simp add: finish_rotation_def wp_simps Let_def settled_def [symmetric] cong: if_cong)
  next
    assume "verdict s g = RotationApplied \<and> g = pending_of s"
    then have v: "verdict s g = RotationApplied" and g': "g = pending_of s" by auto
    show ?thesis unfolding v using rest hold [unfolded g'] p(1)
      by (simp add: finish_rotation_def wp_simps Let_def settled_def [symmetric])
  qed
qed

lemma wp_forget_hold:
  assumes placed: "placed m" and hold: "hold ce m prior s f prior d"
    and forgotten: "\<And>d'. nodes d' (snapshot_path m) = None \<Longrightarrow> file_at (nodes d') (m_config_path m) prior \<Longrightarrow> Q () d'"
  shows "wp (remove (snapshot_path m) (expect_present f)) Q E d"
proof (rule wp_remove_served [OF _ _ placed hold_expected [OF hold]])
  show "served m d" using hold by (simp add: hold_def)
  fix d'
  assume "served m d'" "nodes d' = (nodes d)(snapshot_path m := None)"
  then show "Q () d'" using hold placed by (intro forgotten) (auto simp: hold_def file_at_def placed_def)
qed simp

end

lemma restoring_valid:
  "validate_path_and_prior ce m s = Inr () \<Longrightarrow> os_phase s \<noteq> PhaseRotating \<Longrightarrow>
   validate_path_and_prior ce m (s\<lparr>os_phase := PhaseRestoring\<rparr>) = Inr ()"
  by (auto simp: valid_snapshot split: option.splits)

context working_mutations
begin

lemma wp_restore_hold:
  assumes placed: "placed m" and hold: "hold ce m prior s f (connected_of s) d"
    and phase: "os_phase s = PhaseRestoring" and small: "length (ef_bytes prior) \<le> byte_limit (m_config_path m)"
    and restored: "\<And>d'. hold ce m prior s f prior d' \<Longrightarrow> Q () d'"
  shows "wp (restore_prior mu m s (ef_bytes (connected_of s)) (ef_bytes (prior_of s))) Q E d"
proof -
  have owns: "owns ce m prior s f d" and served: "served m d"
    and at: "file_at (nodes d) (m_config_path m) (connected_of s)" using hold by (auto simp: hold_def)
  have valid: "validate_path_and_prior ce m s = Inr ()" and prior: "prior_of s = prior" "wf_file prior"
    using owns by (auto simp: owns_def)
  have neq: "snapshot_path m \<noteq> m_config_path m" using placed by (auto simp: placed_def)
  have expected: "expected_at (nodes d) (m_config_path m) (Present (ef_bytes (connected_of s)) (os_connected_mode s))"
    using hold_config [OF hold] by (auto simp: expected_at_def file_matches_def)
  have "Q () d'" if "served m d'" "nodes d' (snapshot_path m) = nodes d (snapshot_path m)"
    "file_at (nodes d') (m_config_path m) prior" for d'
  proof (rule restored)
    have "owns ce m prior s f d'" using owns that phase prior by (simp add: owns_def coherent_def)
    then show "hold ce m prior s f prior d'" using that hold small by (simp add: hold_def)
  qed
  note finish = this
  show ?thesis
  proof (cases "os_prior_existed s")
    case True
    have mode: "os_prior_mode s AND 63 = 0" "os_prior_mode s AND 511 = os_prior_mode s"
      using file_at_mode [OF at] valid_decoded(3) [OF valid] by auto
    have "wp (replace (m_config_path m) (Present (ef_bytes (connected_of s)) (os_connected_mode s))
        (ef_bytes (prior_of s)) (os_prior_mode s)) Q E d"
    proof (rule wp_replace_served [OF served _ placed expected])
      show "readable_back (m_config_path m) (ef_bytes (prior_of s)) (os_prior_mode s)"
        using mode small prior by (simp add: readable_back_def)
      fix d'
      assume d': "served m d'" "later d d'" "nodes d' = (nodes d)(m_config_path m \<mapsto> Regular (ef_bytes (prior_of s)) (os_prior_mode s))"
      have "file_at (nodes d') (m_config_path m) (existing_present (ef_bytes (prior_of s)) (os_prior_mode s))"
        using mode d'(3) by (intro file_at_installed) auto
      moreover have "existing_present (ef_bytes (prior_of s)) (os_prior_mode s) = prior"
        using True prior(1) by (auto simp: existing_present_def prior_of_def)
      ultimately show "Q () d'" using d' neq by (intro finish) auto
    qed simp
    then show ?thesis using True by (simp add: restore_prior_def)
  next
    case False
    then have missing: "prior = existing_missing" using prior prior_of_simps(1) [of s] by (auto simp: wf_file_def)
    have "wp (remove (m_config_path m) (Present (ef_bytes (connected_of s)) (os_connected_mode s))) Q E d"
    proof (rule wp_remove_served [OF served _ placed expected])
      fix d'
      assume d': "served m d'" "later d d'" "nodes d' = (nodes d)(m_config_path m := None)"
      then show "Q () d'" using neq missing
        by (intro finish) (auto simp: file_at_def existing_missing_def)
    qed simp
    then show ?thesis using False by (simp add: restore_prior_def)
  qed
qed

lemma wp_disconnect_connected_hold:
  assumes placed: "placed m" and codec: "codec ce" and hold: "hold ce m prior s f (connected_of s) d"
    and phase: "os_phase s \<noteq> PhaseRotating" and small: "length (ef_bytes prior) \<le> byte_limit (m_config_path m)"
    and fits: "fits ce (s\<lparr>os_phase := PhaseRestoring\<rparr>)"
    and finished: "\<And>d'. nodes d' (snapshot_path m) = None \<Longrightarrow> file_at (nodes d') (m_config_path m) prior \<Longrightarrow> Q Disconnected d'"
  shows "wp (disconnect_connected ce mu m s f) Q E d"
proof -
  have last: "wp (disconnect_restoring mu m s' f') Q E d1"
    if hold1: "hold ce m prior s' f' (connected_of s') d1" and phase1: "os_phase s' = PhaseRestoring" for s' f' d1
  proof -
    have dec: "decoded (os_connected_bytes_hex s') = Inr (ef_bytes (connected_of s'))"
      "decoded (os_prior_bytes_hex s') = Inr (ef_bytes (prior_of s'))"
      using valid_decoded [OF hold_facts(7) [OF hold1]] by simp_all
    show ?thesis unfolding disconnect_restoring_def dec wp_bind wp_lift_simps wp_attempt
      by (rule wp_restore_hold [OF placed hold1 phase1 small])
        (simp add: wp_simps wp_forget_hold [OF placed] finished)
  qed
  show ?thesis
  proof (cases "os_phase s = PhaseRestoring")
    case True
    then show ?thesis using last [OF hold] by (simp add: disconnect_connected_def)
  next
    case False
    have ok: "validate_path_and_prior ce m (s\<lparr>os_phase := PhaseRestoring\<rparr>) = Inr ()"
      using restoring_valid hold_facts(7) [OF hold] phase by blast
    have "wp (write_snapshot ce mu m (s\<lparr>os_phase := PhaseRestoring\<rparr>) f)
        (\<lambda>f'. wp (disconnect_restoring mu m (s\<lparr>os_phase := PhaseRestoring\<rparr>) f') Q E) E d"
      by (rule wp_write_hold [OF placed codec hold ok])
        (use hold_facts(8) [OF hold] fits last [of "s\<lparr>os_phase := PhaseRestoring\<rparr>"] in \<open>simp_all add: allowed_iff\<close>)
    then show ?thesis using False
      by (simp add: disconnect_connected_def transition_snapshot_def Let_def wp_bind wp_return)
  qed
qed

end

context working_mutations
begin

lemma wp_disconnect_hold:
  assumes placed: "placed m" and codec: "codec ce" and free: "m_managed m = None"
    and hold: "hold ce m prior s f g d" and g: "allowed s g" and room: "room ce m s"
    and finished: "\<And>d'. nodes d' (snapshot_path m) = None \<Longrightarrow> file_at (nodes d') (m_config_path m) prior \<Longrightarrow> Q Disconnected d'"
  shows "wp (settle_rotation ce mu m s f (verdict s g)) (\<lambda>(s, f, state). wp (disconnect_settled ce mu m s f state) Q E) E d"
proof -
  have prior: "prior_of s = prior" by (rule hold_facts(8) [OF hold])
  have small: "length (ef_bytes prior) \<le> byte_limit (m_config_path m)" using room prior by (simp add: room_def)
  have leave: "wp (disconnect_connected ce mu m s' f') Q E d1"
    if "hold ce m prior s' f' (connected_of s') d1" "os_phase s' \<noteq> PhaseRotating" "fits ce (s'\<lparr>os_phase := PhaseRestoring\<rparr>)" for s' f' d1
    by (rule wp_disconnect_connected_hold [OF placed codec that(1,2) small that(3)]) (rule finished)
  have forget: "wp (remove (snapshot_path m) (expect_present f)) (\<lambda>_. Q Disconnected) E d" if "g = prior"
    by (rule wp_forget_hold [OF placed hold [unfolded that]]) (rule finished)
  show ?thesis
  proof (cases "os_phase s = PhaseRotating")
    case True
    have "wp (finish_rotation ce mu m s f (verdict s g)) (\<lambda>(s, f). wp (disconnect_settled ce mu m s f StateConnected) Q E) E d"
    proof (rule wp_finish_hold [OF placed codec hold True g room], goal_cases)
      case (1 d' p f')
      then show ?case using room leave [OF 1(2)] by (simp add: room_def disconnect_settled_def)
    qed
    then show ?thesis using True free
      by (auto simp: settle_rotation_def Let_def wp_simps split: prod.splits elim!: wp_mono)
  next
    case False
    have fits: "fits ce (s\<lparr>os_phase := PhaseRestoring\<rparr>)" using room by (simp add: room_def)
    have "wp (disconnect_settled ce mu m s f (verdict s g)) Q E d"
      using g False prior forget leave [of s f d] hold fits
      by (cases "os_phase s") (auto simp: disconnect_settled_def wp_simps allowed_iff verdict_def)
    then show ?thesis using False free by (simp add: settle_rotation_def Let_def wp_simps)
  qed
qed

lemma wp_disconnect_served:
  assumes placed: "placed m" and codec: "codec ce" and free: "m_managed m = None"
    and tracked: "tracked ce m prior (nodes d)" and served: "served m d" and wf: "wf_file prior"
    and room: "\<And>bytes s. nodes d (snapshot_path m) = Some (Regular bytes 384) \<Longrightarrow> ce_decode ce bytes = Some s \<Longrightarrow>
      length bytes \<le> MAX_SNAPSHOT_BYTES \<and> room ce m s"
    and finished: "\<And>d'. nodes d' (snapshot_path m) = None \<Longrightarrow> file_at (nodes d') (m_config_path m) prior \<Longrightarrow> Q Disconnected d'"
  shows "wp (disconnect_with ce mu m) Q E d"
  unfolding disconnect_with_def wp_bind [of "ensure_private_state_dir _"] wp_bind [of "manager_lock _"]
    wp_bind [of "checked_metadata _"]
proof (rule wp_state_dir_calm [OF served], rule wp_lock_calm [OF served_unchanged [OF served] placed], assumption,
    rule wp_checked_metadata, goal_cases)
  case (1 d1 d2 d3)
  have still: "still m d d3" using 1(1,3,4) by (meson still_trans unchanged_still)
  have served3: "served m d3" by (rule served_unchanged [OF 1(2,4)])
  have tree: "nodes d2 (snapshot_path m) = nodes d (snapshot_path m)" "nodes d3 (snapshot_path m) = nodes d (snapshot_path m)"
    using 1(1,3,4) by (simp_all add: still_def unchanged_def)
  have tracked3: "tracked ce m prior (nodes d3)" using tracked still_tracked [OF still] by simp
  show ?case
  proof (cases "nodes d (snapshot_path m)")
    case None
    then show ?thesis using tree tracked3 finished [of d3] tracked_free [of d3 m ce prior] by (simp add: wp_simps)
  next
    case (Some n)
    then obtain s f where owns: "owns ce m prior s f d3" using tracked_owns [OF tracked3 wf] tree by auto
    then have small: "length (ef_bytes f) \<le> MAX_SNAPSHOT_BYTES" "room ce m s"
      using room [of "ef_bytes f" s] tree(2) by (auto simp: owns_def)
    have valid: "validate_path_and_prior ce m s = Inr ()" using owns by (simp add: owns_def)
    obtain g where g: "file_at (nodes d3) (m_config_path m) g" "allowed s g"
      using coherent_file [of s "nodes d3" "m_config_path m"] owns unfolding owns_def by blast
    have "g = prior_of s \<or> g = connected_of s \<or> g = pending_of s"
      using g(2) by (auto simp: allowed_iff split: snapshot_phase.splits)
    then have "length (ef_bytes g) \<le> byte_limit (m_config_path m)" using small(2) by (auto simp: room_def)
    then have hold: "hold ce m prior s f g d3" using owns served3 small(1) g(1) by (simp add: hold_def)
    have "wp (read_snapshot ce m) (\<lambda>(s, f). wp (snapshot_state_of m s)
        (\<lambda>state. wp (settle_rotation ce mu m s f state)
          (\<lambda>(s, f, state). wp (disconnect_settled ce mu m s f state) Q E) E) E) E d3"
    proof (rule wp_read_hold [OF hold], simp only: prod.case, rule wp_look_hold [OF _ g(2)])
      show "hold ce m prior s f g d'" if "hold ce m prior s f g d'" for d' using that .
      show "wp (settle_rotation ce mu m s f (verdict s g))
          (\<lambda>(s, f, state). wp (disconnect_settled ce mu m s f state) Q E) E d'" if "hold ce m prior s f g d'" for d'
        by (rule wp_disconnect_hold [OF placed codec free that g(2) small(2)]) (rule finished)
    qed
    then show ?thesis using Some tree(1) by (auto simp: wp_bind split: prod.splits elim!: wp_mono)
  qed
next
  case (2 d1 d2 d3)
  then have "nodes d (snapshot_path m) = Some Symlink" by (simp add: still_def unchanged_def)
  then show ?case using tracked by (simp add: tracked_def)
next
  case (3 d1 d2 d3)
  then show ?case using served_calm by blast
qed

end

end
