(* ===== verification/Config_Toml_Laws.thy ===== *)
theory Config_Toml_Laws
  imports Config_Toml
begin

section \<open>Codex configuration: laws of the document edits\<close>

text \<open>
  Which settings an edit of the document touches: patching adds what is absent and nothing else, restoring
  sets the owned settings to those of another document and leaves all others alone.
\<close>

lemma find_put: "find_entry k' (put_entry k v es) = (if k' = k then Some v else find_entry k' es)"
  by (induction k v es rule: put_entry.induct) auto

lemma find_drop: "find_entry k' (drop_entry k es) = (if k' = k then None else find_entry k' es)"
  by (induction k es rule: drop_entry.induct) auto

lemma find_map: "find_entry k (map (\<lambda>(k, text, v). (k, text, ValueItem v)) es) = map_option ValueItem (find_entry k es)"
  by (induction k es rule: find_entry.induct) auto

lemma doc_get_not_none: "doc_get doc k \<noteq> Some NoneItem"
  by (simp add: doc_get_def present_item_def)

lemma doc_get_set: "doc_get (doc_set doc k item) k' = (if k' = k then present_item (Some item) else doc_get doc k')"
  by (simp add: doc_get_def doc_set_def find_put)

lemma doc_get_remove: "doc_get (doc_remove doc k) k' = (if k' = k then None else doc_get doc k')"
  by (simp add: doc_get_def doc_remove_def find_drop present_item_def)

lemma table_like_not_none: "as_table_like item = Some es \<Longrightarrow> present_item (Some item) = Some item"
  by (cases item) (auto simp: present_item_def)

lemma table_like_cases:
  assumes "as_table_like item \<noteq> None"
  obtains around es where "item = TableItem around es" | around es where "item = ValueItem (TInline around es)"
  using assms by (cases item rule: as_table_like.cases) auto

lemma like_insert_value:
  assumes "as_table_like item \<noteq> None"
  shows "\<exists>item'. like_insert k (ValueItem v) item = Some item' \<and> as_table_like item' \<noteq> None \<and>
    (\<forall>k'. like_get item' k' = (if k' = k then Some (ValueItem v) else like_get item k'))"
  using assms by (elim table_like_cases)
    (auto simp: like_get_def table_get_def present_item_def find_put find_map)

lemma like_remove_get:
  assumes "as_table_like item \<noteq> None"
  shows "\<exists>item'. like_remove k item = Some item' \<and> as_table_like item' \<noteq> None \<and>
    (\<forall>k'. like_get item' k' = (if k' = k then None else like_get item k'))"
  using assms by (elim table_like_cases)
    (auto simp: like_get_def table_get_def present_item_def find_drop find_map)

definition sets :: "(string \<Rightarrow> toml_item \<Rightarrow> toml_item option) \<Rightarrow> (string \<Rightarrow> toml_item option \<Rightarrow> toml_item option) \<Rightarrow> string \<Rightarrow> bool" where
  "sets f new k \<longleftrightarrow> (\<forall>item. as_table_like item \<noteq> None \<longrightarrow>
     (\<exists>item'. f k item = Some item' \<and> as_table_like item' \<noteq> None \<and>
        (\<forall>k'. like_get item' k' = (if k' = k then new k (like_get item k) else like_get item k'))))"

lemma each_key_sets:
  assumes "\<forall>k \<in> set ks. sets f new k" "distinct ks" "as_table_like item \<noteq> None"
  shows "\<exists>item'. each_key f ks item = Some item' \<and> as_table_like item' \<noteq> None \<and>
    (\<forall>k. like_get item' k = (if k \<in> set ks then new k (like_get item k) else like_get item k))"
  using assms
proof (induction ks arbitrary: item)
  case (Cons k ks)
  then have "sets f new k" by simp
  then obtain i where i: "f k item = Some i" "as_table_like i \<noteq> None"
      "\<forall>k'. like_get i k' = (if k' = k then new k (like_get item k) else like_get item k')"
    using Cons.prems(3) by (auto simp: sets_def)
  obtain i' where "each_key f ks i = Some i'" "as_table_like i' \<noteq> None"
      "\<forall>k'. like_get i' k' = (if k' \<in> set ks then new k' (like_get i k') else like_get i k')"
    using Cons.IH [OF _ _ i(2)] Cons.prems(1,2) by auto
  then show ?case using i Cons.prems(2) by auto
qed simp

lemma owned_keys_distinct: "distinct OWNED_OTEL_KEYS"
  by (simp add: OWNED_OTEL_KEYS_def)

lemma managed_item_value: "\<exists>v. managed_item m k = ValueItem v"
  by (simp add: managed_item_def)

lemma insert_absent_sets: "sets (insert_absent m) (\<lambda>k old. case old of None \<Rightarrow> Some (managed_item m k) | Some i \<Rightarrow> Some i) k"
  unfolding sets_def
proof (intro allI impI)
  fix item assume item: "as_table_like item \<noteq> None"
  obtain v where v: "managed_item m k = ValueItem v" using managed_item_value by blast
  show "\<exists>item'. insert_absent m k item = Some item' \<and> as_table_like item' \<noteq> None \<and>
      (\<forall>k'. like_get item' k' = (if k' = k then case like_get item k of None \<Rightarrow> Some (managed_item m k) | Some i \<Rightarrow> Some i
        else like_get item k'))"
    using like_insert_value [OF item, of k v] item
    by (cases "like_get item k") (auto simp: insert_absent_def v)
qed

lemma insert_managed_sets: "sets (\<lambda>k. like_insert k (managed_item m k)) (\<lambda>k old. Some (managed_item m k)) k"
  unfolding sets_def
proof (intro allI impI)
  fix item assume item: "as_table_like item \<noteq> None"
  obtain v where v: "managed_item m k = ValueItem v" using managed_item_value by blast
  show "\<exists>item'. like_insert k (managed_item m k) item = Some item' \<and> as_table_like item' \<noteq> None \<and>
      (\<forall>k'. like_get item' k' = (if k' = k then Some (managed_item m k) else like_get item k'))"
    using like_insert_value [OF item, of k v] by (auto simp: v)
qed

text \<open>The owned settings of a document that are plain values, as the code writes and accepts them.\<close>

definition plain_owned :: "toml_document \<Rightarrow> bool" where
  "plain_owned doc \<longleftrightarrow> (\<forall>k \<in> set OWNED_OTEL_KEYS. case otel_get doc k of None \<Rightarrow> True | Some i \<Rightarrow> (\<exists>v. i = ValueItem v))"

lemma restore_key_sets:
  assumes "case otel_get prior k of None \<Rightarrow> True | Some i \<Rightarrow> (\<exists>v. i = ValueItem v)"
  shows "sets (restore_key prior) (\<lambda>k old. otel_get prior k) k"
  unfolding sets_def
proof (intro allI impI)
  fix item assume item: "as_table_like item \<noteq> None"
  show "\<exists>item'. restore_key prior k item = Some item' \<and> as_table_like item' \<noteq> None \<and>
      (\<forall>k'. like_get item' k' = (if k' = k then otel_get prior k else like_get item k'))"
  proof (cases "otel_get prior k")
    case None
    show ?thesis unfolding restore_key_def None option.case by (rule like_remove_get [OF item])
  next
    case (Some i)
    then obtain v where "i = ValueItem v" using assms by auto
    show ?thesis unfolding restore_key_def Some option.case \<open>i = ValueItem v\<close> by (rule like_insert_value [OF item])
  qed
qed

lemma edit_otel_sets:
  assumes "doc_get doc ''otel'' = Some otel" "as_table_like otel \<noteq> None" "\<forall>k \<in> set OWNED_OTEL_KEYS. sets f new k"
  shows "\<exists>doc' otel'. edit_otel (each_key f OWNED_OTEL_KEYS) doc = Some doc' \<and>
    doc_get doc' ''otel'' = Some otel' \<and> as_table_like otel' \<noteq> None \<and>
    (\<forall>k. k \<noteq> ''otel'' \<longrightarrow> doc_get doc' k = doc_get doc k) \<and>
    (\<forall>k. like_get otel' k = (if k \<in> set OWNED_OTEL_KEYS then new k (like_get otel k) else like_get otel k))"
proof -
  obtain otel' where otel': "each_key f OWNED_OTEL_KEYS otel = Some otel'" "as_table_like otel' \<noteq> None"
      "\<forall>k. like_get otel' k = (if k \<in> set OWNED_OTEL_KEYS then new k (like_get otel k) else like_get otel k)"
    using each_key_sets [OF assms(3) owned_keys_distinct assms(2)] by blast
  have "present_item (Some otel') = Some otel'" using otel'(2) table_like_not_none by blast
  then show ?thesis using assms(1,2) otel' by (auto simp: edit_otel_def doc_get_set)
qed

text \<open>The settings of the patched and of the restored document.\<close>

definition patched :: "managed_values \<Rightarrow> bool \<Rightarrow> toml_document \<Rightarrow> toml_document \<Rightarrow> bool" where
  "patched m owns_notify doc doc' \<longleftrightarrow>
     (\<forall>k. k \<noteq> ''notify'' \<longrightarrow> k \<noteq> ''otel'' \<longrightarrow> doc_get doc' k = doc_get doc k) \<and>
     doc_get doc' ''notify'' = (if owns_notify \<and> doc_get doc ''notify'' = None then Some (ValueItem (notify_value m))
       else doc_get doc ''notify'') \<and>
     (\<forall>k. otel_get doc' k = (if k \<in> set OWNED_OTEL_KEYS \<and> otel_get doc k = None then Some (managed_item m k) else otel_get doc k))"

definition restored :: "bool \<Rightarrow> toml_document \<Rightarrow> toml_document \<Rightarrow> toml_document \<Rightarrow> bool" where
  "restored owns_notify target prior doc' \<longleftrightarrow>
     (\<forall>k. k \<noteq> ''notify'' \<longrightarrow> k \<noteq> ''otel'' \<longrightarrow> doc_get doc' k = doc_get target k) \<and>
     doc_get doc' ''notify'' = (if owns_notify then doc_get prior ''notify'' else doc_get target ''notify'') \<and>
     (\<forall>k. otel_get doc' k = (if k \<in> set OWNED_OTEL_KEYS then otel_get prior k else otel_get target k))"

lemma patch_patched:
  assumes "doc_get doc ''otel'' = None \<or> (\<exists>otel. doc_get doc ''otel'' = Some otel \<and> as_table_like otel \<noteq> None)"
  shows "\<exists>doc'. patch_managed_values doc m owns_notify = Some doc' \<and> patched m owns_notify doc doc'"
proof -
  define d1 where "d1 = (if owns_notify \<and> doc_get doc ''notify'' = None
    then doc_set doc ''notify'' (ValueItem (notify_value m)) else doc)"
  define d2 where "d2 = (if doc_get d1 ''otel'' = None then doc_set d1 ''otel'' (TableItem [] []) else d1)"
  have otel1: "doc_get d1 ''otel'' = doc_get doc ''otel''" by (simp add: d1_def doc_get_set)
  obtain otel where otel: "doc_get d2 ''otel'' = Some otel" "as_table_like otel \<noteq> None"
      "\<forall>k. like_get otel k = otel_get doc k"
    using assms by (auto simp: d2_def otel1 doc_get_set present_item_def otel_get_def like_get_def table_get_def)
  have "\<forall>k \<in> set OWNED_OTEL_KEYS. sets (insert_absent m)
      (\<lambda>k old. case old of None \<Rightarrow> Some (managed_item m k) | Some i \<Rightarrow> Some i) k"
    by (intro ballI) (rule insert_absent_sets)
  from edit_otel_sets [OF otel(1,2) this]
  obtain doc' otel' where edited: "edit_otel (each_key (insert_absent m) OWNED_OTEL_KEYS) d2 = Some doc'"
      "doc_get doc' ''otel'' = Some otel'" "\<forall>k. k \<noteq> ''otel'' \<longrightarrow> doc_get doc' k = doc_get d2 k"
      "\<forall>k. like_get otel' k = (if k \<in> set OWNED_OTEL_KEYS then case like_get otel k of None \<Rightarrow> Some (managed_item m k)
        | Some i \<Rightarrow> Some i else like_get otel k)"
    by blast
  have top: "doc_get doc' k = doc_get d1 k" if "k \<noteq> ''otel''" for k
    using edited(3) that by (simp add: d2_def doc_get_set)
  have "doc_get d1 k = doc_get doc k" if "k \<noteq> ''notify''" for k
    using that by (simp add: d1_def doc_get_set)
  then have other: "doc_get doc' k = doc_get doc k" if "k \<noteq> ''notify''" "k \<noteq> ''otel''" for k
    using top that by metis
  have "doc_get d1 ''notify'' = (if owns_notify \<and> doc_get doc ''notify'' = None then Some (ValueItem (notify_value m))
      else doc_get doc ''notify'')"
    by (simp add: d1_def doc_get_set present_item_def)
  then have notify: "doc_get doc' ''notify'' = (if owns_notify \<and> doc_get doc ''notify'' = None then Some (ValueItem (notify_value m))
      else doc_get doc ''notify'')"
    using top [of "''notify''"] by simp
  have "otel_get doc' k = (if k \<in> set OWNED_OTEL_KEYS \<and> otel_get doc k = None then Some (managed_item m k)
      else otel_get doc k)" for k
  proof -
    have new: "otel_get doc' k = like_get otel' k" by (simp add: otel_get_def edited(2))
    show ?thesis unfolding new using edited(4) otel(3) by (cases "otel_get doc k") auto
  qed
  then have "patched m owns_notify doc doc'" unfolding patched_def using other notify by blast
  then show ?thesis using edited(1) by (auto simp: patch_managed_values_def Let_def d1_def d2_def)
qed

lemma like_is_empty_get: "as_table_like item \<noteq> None \<Longrightarrow> like_is_empty item \<Longrightarrow> like_get item k = None"
proof -
  have none: "find_entry k es = None \<or> find_entry k es = Some NoneItem" if "list_all (\<lambda>(k, text, i). i = NoneItem) es" for es
    using that by (induction k es rule: find_entry.induct) auto
  assume "as_table_like item \<noteq> None" "like_is_empty item"
  then obtain es where "as_table_like item = Some es" "list_all (\<lambda>(k, text, i). i = NoneItem) es"
    by (auto simp: like_is_empty_def)
  then show ?thesis using none [of es] by (auto simp: like_get_def table_get_def present_item_def)
qed

lemma restore_restored:
  assumes plain: "plain_owned prior" and ok: "restore_owned_values target prior owns_notify = Inr doc'"
  shows "restored owns_notify target prior doc'"
proof -
  define t where "t = (if owns_notify then case doc_get prior ''notify'' of
      Some item \<Rightarrow> doc_set target ''notify'' item | None \<Rightarrow> doc_remove target ''notify'' else target)"
  have t_other: "doc_get t k = doc_get target k" if "k \<noteq> ''notify''" for k
    using that by (auto simp: t_def doc_get_set doc_get_remove split: option.splits)
  have t_notify: "doc_get t ''notify'' = (if owns_notify then doc_get prior ''notify'' else doc_get target ''notify'')"
    using doc_get_not_none [of prior] by (auto simp: t_def doc_get_set doc_get_remove present_item_def split: option.splits)
  obtain otel where otel: "doc_get t ''otel'' = Some otel" "as_table_like otel \<noteq> None"
    using ok by (auto simp: restore_owned_values_def Let_def result_simps t_def [symmetric] bind_eq_Some_conv)
  have "\<forall>k \<in> set OWNED_OTEL_KEYS. sets (restore_key prior) (\<lambda>k old. otel_get prior k) k"
    using plain by (auto simp: plain_owned_def intro: restore_key_sets)
  from edit_otel_sets [OF otel this] obtain r otel' where r: "edit_otel (each_key (restore_key prior) OWNED_OTEL_KEYS) t = Some r"
      "doc_get r ''otel'' = Some otel'" "as_table_like otel' \<noteq> None" "\<forall>k. k \<noteq> ''otel'' \<longrightarrow> doc_get r k = doc_get t k"
      "\<forall>k. like_get otel' k = (if k \<in> set OWNED_OTEL_KEYS then otel_get prior k else like_get otel k)"
    by blast
  have doc': "doc' = (if like_is_empty otel' then doc_remove r ''otel'' else r)"
    using ok r otel by (auto simp: restore_owned_values_def Let_def t_def [symmetric])
  have rest: "doc_get doc' k = doc_get t k" if "k \<noteq> ''otel''" for k
    using that r(4) by (simp add: doc' doc_get_remove)
  have "otel_get doc' k = like_get otel' k" for k
    using r(2) like_is_empty_get [OF r(3), of k] by (auto simp: doc' otel_get_def doc_get_remove)
  moreover have "like_get otel k = otel_get target k" for k
    using otel(1) t_other by (simp add: otel_get_def)
  ultimately show ?thesis using rest t_other t_notify r(5) by (simp add: restored_def)
qed

lemma conflict_free_otel:
  "ensure_no_managed_conflict doc m = Inr () \<Longrightarrow>
   doc_get doc ''otel'' = None \<or> (\<exists>otel. doc_get doc ''otel'' = Some otel \<and> as_table_like otel \<noteq> None)"
  by (auto simp: ensure_no_managed_conflict_def result_simps split: option.splits)

lemma conflict_free_plain:
  assumes "ensure_no_managed_conflict doc m = Inr ()" shows "plain_owned doc"
proof -
  have plain_value: "\<exists>v. i = ValueItem v" if "exporter_matches i m \<or> item_as_bool i = b \<and> b \<noteq> None \<or> item_as_str i = t \<and> t \<noteq> None" for i b t
    using that by (cases i) (auto simp: exporter_matches_def)
  show ?thesis
  proof (cases "doc_get doc ''otel''")
    case None
    then show ?thesis by (simp add: plain_owned_def otel_get_def)
  next
    case (Some otel)
    obtain es where es: "as_table_like otel = Some es" using conflict_free_otel [OF assms] Some by auto
    have matching: "\<exists>v. i = ValueItem v" if "ensure_absent_or_matching (table_get es k) P = Inr ()" "table_get es k = Some i"
      "\<And>i. P i \<Longrightarrow> \<exists>v. i = ValueItem v" for k P i
      using that by (cases i) (auto simp: ensure_absent_or_matching_def table_get_def present_item_def split: if_splits)
    have checks: "ensure_absent_or_matching (table_get es ''exporter'') (\<lambda>i. exporter_matches i m) = Inr ()"
        "ensure_absent_or_matching (table_get es ''log_user_prompt'') (\<lambda>i. item_as_bool i = Some False) = Inr ()"
        "ensure_absent_or_matching (table_get es ''environment'') (\<lambda>i. item_as_str i = Some ''local'') = Inr ()"
      using assms Some es by (auto simp: ensure_no_managed_conflict_def result_simps split: option.splits)
    have plain: "\<exists>v. i = ValueItem v" if "table_get es ''exporter'' = Some i" for i
      by (rule matching [OF checks(1) that]) (use plain_value in blast)
    have bool: "\<exists>v. i = ValueItem v" if "table_get es ''log_user_prompt'' = Some i" for i
      by (rule matching [OF checks(2) that]) (use plain_value in blast)
    have str: "\<exists>v. i = ValueItem v" if "table_get es ''environment'' = Some i" for i
      by (rule matching [OF checks(3) that]) (use plain_value in blast)
    have "\<exists>v. i = ValueItem v" if "k \<in> set OWNED_OTEL_KEYS" "table_get es k = Some i" for k i
      using that plain bool str by (auto simp: OWNED_OTEL_KEYS_def)
    then show ?thesis using Some es by (auto simp: plain_owned_def otel_get_def like_get_def split: option.splits)
  qed
qed

end
