(* ===== verification/Codex_Config_Properties.thy ===== *)
theory Codex_Config_Properties
  imports Codex_Config_Recovery Config_Toml_Laws
begin

section \<open>Codex configuration: properties\<close>

text \<open>
  What the manager promises: interrupted operations never lose the recorded file, an undisturbed disconnect
  restores it, an edit by somebody else is never overwritten, a connection writes exactly the planned text,
  and the one size at which none of this helps.
\<close>

subsection \<open>Edits by others\<close>

definition foreign :: "config_env \<Rightarrow> manager \<Rightarrow> ownership_snapshot \<Rightarrow> existing_file \<Rightarrow> machine \<Rightarrow> bool" where
  "foreign ce m s g d \<longleftrightarrow>
     (\<exists>bytes mode. nodes d (snapshot_path m) = Some (Regular bytes mode) \<and> ce_decode ce bytes = Some s) \<and>
     validate_path_and_prior ce m s = Inr () \<and> wf_file (prior_of s) \<and>
     file_at (nodes d) (m_config_path m) g \<and> \<not> allowed s g"

definition rebasable :: "config_env \<Rightarrow> ownership_snapshot \<Rightarrow> existing_file \<Rightarrow> bool" where
  "rebasable ce s g \<longleftrightarrow> os_phase s = PhaseConnected \<and>
     (\<exists>current_doc connected_doc. parse_document ce (ef_bytes g) = Inr current_doc \<and>
        parse_document ce (ef_bytes (connected_of s)) = Inr connected_doc \<and>
        owned_values_match (ce_item_text ce) current_doc connected_doc (os_owns_notify s))"

lemma foreign_still: "still m d d' \<Longrightarrow> foreign ce m s g d \<Longrightarrow> foreign ce m s g d'"
  unfolding foreign_def using file_at_cong [of "nodes d'" "m_config_path m" "nodes d" g] by (simp add: still_def)

lemma foreign_judged: "foreign ce m s g d \<Longrightarrow> judged m s (nodes d) state \<Longrightarrow> state = StateConflict"
  using judged_verdict [of ce m s "nodes d" state g] by (auto simp: foreign_def allowed_def)

lemma foreign_settles:
  assumes "state = StateConflict"
  shows "wp (settle_rotation ce mu m s f state) (\<lambda>(s, f, state). wp (disconnect_settled ce mu m s f state) (\<lambda>_. still m d) (\<lambda>_. still m d))
      (\<lambda>_. still m d) d' = still m d d'"
    "wp (status_of_snapshot ce mu m s f state) (\<lambda>_. still m d) (\<lambda>_. still m d) d' = still m d d'"
  using assms by (auto simp: settle_rotation_def status_of_snapshot_def status_settled_def disconnect_settled_def
    finish_rotation_def Let_def wp_simps)

lemma wp_foreign_read:
  assumes foreign: "foreign ce m s g d"
    and conflict: "\<And>d' f. unchanged d d' \<Longrightarrow> Q (s, f) d'" and failed: "\<And>d' e. unchanged d d' \<Longrightarrow> E e d'"
  shows "wp (read_snapshot ce m) Q E d"
  by (rule wp_read_snapshot) (use foreign conflict failed in \<open>auto simp: foreign_def\<close>)

lemma wp_foreign_look:
  assumes foreign: "foreign ce m s g d"
    and conflict: "\<And>d'. unchanged d d' \<Longrightarrow> Q StateConflict d'" and failed: "\<And>d' e. unchanged d d' \<Longrightarrow> E e d'"
  shows "wp (snapshot_state_of m s) Q E d"
  by (rule wp_snapshot_state_of) (use foreign_judged [OF foreign] conflict failed in auto)

lemma foreign_disconnect:
  assumes placed: "placed m" and foreign: "foreign ce m s g d"
  shows "wp (disconnect_with ce mu m) (\<lambda>_. still m d) (\<lambda>_. still m d) d"
proof -
  have body: "wp (io_bind (read_snapshot ce m) (\<lambda>(s, snapshot_file).
       io_bind (snapshot_state_of m s) (\<lambda>state.
       io_bind (settle_rotation ce mu m s snapshot_file state) (\<lambda>(s, snapshot_file, state).
       disconnect_settled ce mu m s snapshot_file state)))) (\<lambda>_. still m d) (\<lambda>_. still m d) d1"
    if d1: "still m d d1" for d1
    unfolding wp_bind
  proof (rule wp_foreign_read [OF foreign_still [OF d1 foreign]], simp only: prod.case wp_bind,
      rule wp_foreign_look [OF foreign_still [OF _ foreign]], goal_cases)
    case (1 d2 f)
    then show ?case by (rule still_unchanged [OF d1])
  next
    case (2 d2 f d3)
    have d3: "still m d d3" using still_unchanged [OF still_unchanged [OF d1 2(1)] 2(2)] .
    have eta: "(\<lambda>a. wp (case a of (s, f, state) \<Rightarrow> disconnect_settled ce mu m s f state) (\<lambda>_. still m d) (\<lambda>_. still m d)) =
        (\<lambda>(s, f, state). wp (disconnect_settled ce mu m s f state) (\<lambda>_. still m d) (\<lambda>_. still m d))"
      by (auto simp: fun_eq_iff)
    show ?case unfolding eta using foreign_settles(1) [OF refl] d3 by blast
  next
    case (3 d2 f d3 e)
    then show ?case using d1 still_unchanged by blast
  next
    case (4 d2 e)
    then show ?case using d1 still_unchanged by blast
  qed
  have "wp (io_bind (checked_metadata (snapshot_path m)) (\<lambda>meta.
     if meta = None then io_return Disconnected
     else io_bind (read_snapshot ce m) (\<lambda>(s, snapshot_file).
       io_bind (snapshot_state_of m s) (\<lambda>state.
       io_bind (settle_rotation ce mu m s snapshot_file state) (\<lambda>(s, snapshot_file, state).
       disconnect_settled ce mu m s snapshot_file state))))) (\<lambda>_. still m d) (\<lambda>_. still m d) d1" if d1: "still m d d1" for d1
    unfolding wp_bind [of "checked_metadata _"]
    by (rule wp_checked_metadata) (use d1 body in \<open>auto simp: wp_return intro: still_unchanged\<close>)
  note locked = this
  have "wp (ensure_private_state_dir m) (\<lambda>_. wp (manager_lock m) (\<lambda>_. wp (io_bind (checked_metadata (snapshot_path m)) (\<lambda>meta.
     if meta = None then io_return Disconnected
     else io_bind (read_snapshot ce m) (\<lambda>(s, snapshot_file).
       io_bind (snapshot_state_of m s) (\<lambda>state.
       io_bind (settle_rotation ce mu m s snapshot_file state) (\<lambda>(s, snapshot_file, state).
       disconnect_settled ce mu m s snapshot_file state))))) (\<lambda>_. still m d) (\<lambda>_. still m d)) (\<lambda>_. still m d)) (\<lambda>_. still m d) d"
    by (rule wp_still [OF still_ensure_private_state_dir [OF placed]])
      (auto intro!: wp_still [OF still_manager_lock [OF placed]] locked intro: still_trans)
  then show ?thesis by (simp add: disconnect_with_def wp_bind [of "ensure_private_state_dir _"] wp_bind [of "manager_lock _"])
qed

lemma foreign_status:
  assumes placed: "placed m" and foreign: "foreign ce m s g d"
  shows "wp (ownership_status ce m) (\<lambda>_. still m d) (\<lambda>_. still m d) d"
proof -
  have judged: "wp (io_bind (read_snapshot ce m) (\<lambda>(s, snapshot_file).
      io_bind (snapshot_state_of m s) (\<lambda>state. status_of_snapshot ce filesystem_mutations m s snapshot_file state)))
      (\<lambda>_. still m d) (\<lambda>_. still m d) d1" if d1: "still m d d1" for d1
    unfolding wp_bind
  proof (rule wp_foreign_read [OF foreign_still [OF d1 foreign]], simp only: prod.case wp_bind,
      rule wp_foreign_look [OF foreign_still [OF _ foreign]], goal_cases)
    case (1 d2 f)
    then show ?case by (rule still_unchanged [OF d1])
  next
    case (2 d2 f d3)
    have "still m d d3" using still_unchanged [OF still_unchanged [OF d1 2(1)] 2(2)] .
    then show ?case using foreign_settles(2) [OF refl] by blast
  next
    case (3 d2 f d3 e)
    then show ?case using d1 still_unchanged by blast
  next
    case (4 d2 e)
    then show ?case using d1 still_unchanged by blast
  qed
  have locked: "wp (ownership_status_locked ce m) (\<lambda>_. still m d) (\<lambda>_. still m d) d1" if d1: "still m d d1" for d1
    unfolding ownership_status_locked_def wp_bind [of "checked_metadata _"]
  proof (rule wp_checked_metadata, goal_cases)
    case (1 d2)
    have d2: "still m d d2" by (rule still_unchanged [OF d1 1(1)])
    then show ?case using judged [OF d2]
      by (cases "nodes d1 (snapshot_path m)") (auto simp: wp_bind [of "io_lift _"] wp_lift wp_return split: sum.splits)
  qed (use d1 still_unchanged in blast)+
  have lock: "wp (manager_lock m) (\<lambda>_. wp (ownership_status_locked ce m) (\<lambda>_. still m d) (\<lambda>_. still m d)) (\<lambda>_. still m d) d1"
    if d1: "still m d d1" for d1
    by (rule wp_still [OF still_manager_lock [OF placed]]) (use d1 locked still_trans in blast)+
  have outer: "wp (io_bind (checked_metadata (snapshot_path m)) (\<lambda>meta.
      if meta = None then io_return None else io_bind (manager_lock m) (\<lambda>_. ownership_status_locked ce m)))
      (\<lambda>_. still m d) (\<lambda>_. still m d) d1" if d1: "still m d d1" for d1
    unfolding wp_bind [of "checked_metadata _"]
    by (rule wp_checked_metadata) (use d1 lock in \<open>auto simp: wp_return wp_bind [of "manager_lock _"] intro: still_unchanged\<close>)
  show ?thesis unfolding ownership_status_def wp_bind [of "checked_metadata (m_state_dir m)"]
  proof (rule wp_checked_metadata, goal_cases)
    case (1 d1)
    have d1: "still m d d1" by (rule unchanged_still [OF 1(1)])
    then show ?case using outer [OF d1]
      by (cases "nodes d (m_state_dir m)") (auto simp: wp_bind [of "io_lift _"] wp_lift wp_return split: sum.splits)
  qed (auto intro: unchanged_still)
qed

lemma foreign_follow_edits:
  assumes foreign: "foreign ce m s g d" and stranger: "\<not> rebasable ce s g"
    and kept: "\<And>d'. unchanged d d' \<Longrightarrow> Q (s, f, StateConflict) d'" and failed: "\<And>d' e. unchanged d d' \<Longrightarrow> E e d'"
  shows "wp (follow_edits ce mu m s f StateConflict) Q E d"
proof (cases "os_phase s = PhaseConnected")
  case False
  then show ?thesis using kept by (simp add: follow_edits_def wp_simps)
next
  case True
  have connected_bytes: "decoded (os_connected_bytes_hex s) = Inr (ef_bytes (connected_of s))"
    using foreign valid_decoded(1) by (auto simp: foreign_def)
  have "wp (rebase_unowned_edits ce mu m s f) (\<lambda>r d'. r = None \<and> unchanged d d') (\<lambda>_. unchanged d) d"
    unfolding rebase_unowned_edits_def read_config_def wp_bind [of "read_optional_private_file _"]
  proof (rule wp_read, goal_cases)
    case (1 d1 f')
    have f': "f' = g" using 1(2) foreign seen_file_at by (auto simp: foreign_def)
    show ?case
    proof (cases "\<not> ef_existed g \<or> ef_mode g \<noteq> os_connected_mode s")
      case True
      then show ?thesis using 1(1) f' by (simp add: wp_simps)
    next
      case False
      then show ?thesis using 1(1) f' stranger True connected_bytes
        by (cases "parse_document ce (ef_bytes (connected_of s))"; cases "parse_document ce (ef_bytes g)")
          (simp_all add: wp_simps rebasable_def)
    qed
  qed auto
  then show ?thesis using True unfolding follow_edits_def
    by (auto simp: wp_simps elim!: wp_mono intro: kept failed)
qed

lemma foreign_connect:
  assumes placed: "placed m" and foreign: "foreign ce m s g d" and stranger: "\<not> rebasable ce s g"
  shows "wp (connect_with ce mu m) (\<lambda>_. still m d) (\<lambda>_. still m d) d"
proof -
  have conflict: "wp (connect_judged ce mu m managed s f StateConflict) (\<lambda>status d'. status \<noteq> None \<and> still m d d') (\<lambda>_. still m d) d1"
    if "still m d d1" for managed f d1
    using that by (simp add: connect_judged_def Let_def wp_simps finish_rotation_def)
  have existing: "wp (connect_existing ce mu m) (\<lambda>status d'. status \<noteq> None \<and> still m d d') (\<lambda>_. still m d) d1"
    if d1: "still m d d1" for d1
    unfolding connect_existing_def wp_bind [of "read_snapshot _ _"]
  proof (rule wp_foreign_read [OF foreign_still [OF d1 foreign]], goal_cases)
    case (1 d2 f)
    have d2: "still m d d2" by (rule still_unchanged [OF d1 1])
    show ?case
    proof (cases "managed_values_of m")
      case (Inl e)
      then show ?thesis using d2 by (simp add: wp_simps)
    next
      case (Inr managed)
      have "wp (snapshot_state_of m s) (\<lambda>state. wp (follow_edits ce mu m s f state)
          (\<lambda>a. wp (case a of (s, f, state) \<Rightarrow> connect_judged ce mu m managed s f state)
            (\<lambda>status d'. status \<noteq> None \<and> still m d d') (\<lambda>_. still m d)) (\<lambda>_. still m d)) (\<lambda>_. still m d) d2"
      proof (rule wp_foreign_look [OF foreign_still [OF d2 foreign]], goal_cases)
        case (1 d3)
        have d3: "still m d d3" by (rule still_unchanged [OF d2 1])
        show ?case
          by (rule foreign_follow_edits [OF foreign_still [OF d3 foreign] stranger])
            (use conflict d3 still_unchanged in \<open>auto simp only: prod.case\<close>)
      next
        case (2 d3 e)
        then show ?case by (rule still_unchanged [OF d2])
      qed
      then show ?thesis by (simp add: Inr wp_simps)
    qed
  next
    case (2 d2 e)
    then show ?case by (rule still_unchanged [OF d1])
  qed
  have body: "wp (io_bind (checked_metadata (snapshot_path m)) (\<lambda>meta.
     io_bind (if meta = None then io_return None else connect_existing ce mu m) (\<lambda>status.
     case status of Some status \<Rightarrow> io_return status | None \<Rightarrow> connect_fresh ce mu m managed)))
     (\<lambda>_. still m d) (\<lambda>_. still m d) d1" if d1: "still m d d1" for d1 managed
    unfolding wp_bind
  proof (rule wp_checked_metadata, goal_cases)
    case (1 d2)
    have d2: "still m d d2" by (rule still_unchanged [OF d1 1(1)])
    have there: "nodes d1 (snapshot_path m) \<noteq> None" using foreign_still [OF d1 foreign] by (auto simp: foreign_def)
    have "wp (connect_existing ce mu m) (\<lambda>status. wp (case status of Some status \<Rightarrow> io_return status
        | None \<Rightarrow> connect_fresh ce mu m managed) (\<lambda>_. still m d) (\<lambda>_. still m d)) (\<lambda>_. still m d) d2"
      by (rule wp_mono [OF existing [OF d2]]) (auto simp: wp_return)
    then show ?case using there by (simp only: if_False)
  qed (use d1 still_unchanged in blast)+
  show ?thesis
  proof (cases "managed_values_of m")
    case (Inl e)
    then show ?thesis by (simp add: connect_with_def wp_simps)
  next
    case (Inr managed)
    have "wp (ensure_private_state_dir m) (\<lambda>_. wp (manager_lock m) (\<lambda>_. wp (io_bind (checked_metadata (snapshot_path m)) (\<lambda>meta.
       io_bind (if meta = None then io_return None else connect_existing ce mu m) (\<lambda>status.
       case status of Some status \<Rightarrow> io_return status | None \<Rightarrow> connect_fresh ce mu m managed)))
       (\<lambda>_. still m d) (\<lambda>_. still m d)) (\<lambda>_. still m d)) (\<lambda>_. still m d) d"
      by (rule wp_still [OF still_ensure_private_state_dir [OF placed]])
        (auto intro!: wp_still [OF still_manager_lock [OF placed]] body intro: still_trans)
    then show ?thesis by (simp add: connect_with_def Inr wp_bind [of "io_lift _"] wp_lift_simps
      wp_bind [of "ensure_private_state_dir _"] wp_bind [of "manager_lock _"])
  qed
qed

lemma still_run: "wp f (\<lambda>_. still m d) (\<lambda>_. still m d) d \<Longrightarrow> still m d (snd (f d))"
  by (simp add: wp_def split: prod.splits sum.splits)

lemma foreign_operation:
  assumes "placed m" "foreign ce m s g d" "op = Connect \<Longrightarrow> \<not> rebasable ce s g"
  shows "still m d (run_operation ce m op d)"
proof (cases op)
  case Connect
  then show ?thesis using still_run [OF foreign_connect [OF assms(1,2) assms(3) [OF Connect]]]
    by (simp add: config_connect_def)
next
  case Disconnect
  then show ?thesis using still_run [OF foreign_disconnect [OF assms(1,2)]] by (simp add: config_disconnect_def)
next
  case Status
  then show ?thesis using still_run [OF foreign_status [OF assms(1,2)]]
    by (cases "ownership_status ce m d"; cases "fst (ownership_status ce m d)")
      (simp_all add: config_status_def io_bind_def io_return_def)
next
  case NotifyOwnership
  then show ?thesis using still_run [OF wp_notify_ownership [OF assms(1)]] by simp
qed

subsection \<open>A connection\<close>

lemma plan_facts:
  assumes "connect_plan ce m managed prior = Inr (updated, s, bytes)"
  shows "to_bytes ce s = Inr bytes" "\<exists>owns_notify. s = first_snapshot ce m prior updated owns_notify managed"
  using assms by (auto simp: connect_plan_def result_simps Let_def)

context working_mutations
begin

lemma wp_connect_apply_served:
  assumes placed: "placed m" and codec: "codec ce" and hold: "hold ce m prior s (existing_present bytes 384) prior d"
    and plan: "connect_plan ce m managed prior = Inr (updated, s, bytes)"
    and small: "length updated \<le> byte_limit (m_config_path m)" "fits ce (s\<lparr>os_phase := PhaseConnected\<rparr>)"
    and connected: "\<And>d' f. hold ce m prior (s\<lparr>os_phase := PhaseConnected\<rparr>) f (existing_present updated (ef_mode prior)) d' \<Longrightarrow>
      Q Connected d'"
  shows "wp (connect_apply ce mu m prior updated s bytes) Q E d"
proof -
  obtain owns_notify where s: "s = first_snapshot ce m prior updated owns_notify managed" using plan_facts(2) [OF plan] by blast
  have served: "served m d" and owns: "owns ce m prior s (existing_present bytes 384) d"
    and at: "file_at (nodes d) (m_config_path m) prior" using hold by (auto simp: hold_def)
  have to: "connected_of s = existing_present updated (ef_mode prior)" by (simp add: s)
  have neq: "snapshot_path m \<noteq> m_config_path m" using placed by (auto simp: placed_def)
  show ?thesis
  proof (cases "file_matches prior updated (ef_mode prior)")
    case True
    then have "prior = existing_present updated (ef_mode prior)"
      by (cases prior) (simp add: file_matches_def existing_present_def)
    moreover have "s\<lparr>os_phase := PhaseConnected\<rparr> = s" using True by (simp add: s first_snapshot_def)
    ultimately show ?thesis using True connected hold by (simp add: connect_apply_def wp_simps)
  next
    case False
    have phase: "os_phase s = PhasePrepared" using False by (simp add: s first_snapshot_def)
    have valid: "validate_path_and_prior ce m s = Inr ()" by (rule hold_facts(7) [OF hold])
    have mode: "ef_mode prior AND 63 = 0" "ef_mode prior AND 511 = ef_mode prior" using file_at_private [OF at] by auto
    have moved: "wp (replace (m_config_path m) (expect_existing prior) updated (ef_mode prior))
        (\<lambda>_. wp (transition_snapshot ce mu m s (existing_present bytes 384) PhaseConnected) (\<lambda>_. Q Connected) E)
        (\<lambda>e. wp (connect_undo mu m s bytes e)
          (\<lambda>_. wp (transition_snapshot ce mu m s (existing_present bytes 384) PhaseConnected) (\<lambda>_. Q Connected) E) E) d"
    proof (rule wp_replace_served [OF served _ placed])
      show "expected_at (nodes d) (m_config_path m) (expect_existing prior)"
        using hold_config [OF hold] by (auto simp: expected_at_def expect_existing_def expect_present_def file_matches_def)
      show "readable_back (m_config_path m) updated (ef_mode prior)"
        using mode small(1) by (simp add: readable_back_def)
      fix d'
      assume d': "served m d'" "later d d'" "nodes d' = (nodes d)(m_config_path m \<mapsto> Regular updated (ef_mode prior))"
      have at': "file_at (nodes d') (m_config_path m) (connected_of s)"
        using mode d'(3) unfolding to by (intro file_at_installed) auto
      have "owns ce m prior s (existing_present bytes 384) d'"
        using owns d'(3) at' phase neq by (simp add: owns_def coherent_def)
      then have hold': "hold ce m prior s (existing_present bytes 384) (connected_of s) d'"
        using hold d'(1) at' small(1) by (simp add: hold_def to existing_present_def)
      have "wp (write_snapshot ce mu m (s\<lparr>os_phase := PhaseConnected\<rparr>) (existing_present bytes 384)) (\<lambda>_. Q Connected) E d'"
      proof (rule wp_write_hold [OF placed codec hold'])
        show "validate_path_and_prior ce m (s\<lparr>os_phase := PhaseConnected\<rparr>) = Inr ()"
          using valid phase by (auto simp: valid_snapshot split: option.splits)
      qed (use small(2) s connected to in \<open>simp_all add: allowed_iff\<close>)
      then show "wp (transition_snapshot ce mu m s (existing_present bytes 384) PhaseConnected) (\<lambda>_. Q Connected) E d'"
        by (simp add: transition_snapshot_def Let_def wp_simps)
    qed simp
    then show ?thesis using False by (simp add: connect_apply_def wp_simps)
  qed
qed

lemma wp_connect_fresh_served:
  assumes placed: "placed m" and codec: "codec ce" and served: "served m d"
    and free: "nodes d (snapshot_path m) = None" and prior: "seen (nodes d) (m_config_path m) = Inr prior"
    and plan: "connect_plan ce m managed prior = Inr (updated, s, bytes)"
    and small: "length bytes \<le> MAX_SNAPSHOT_BYTES" "length updated \<le> byte_limit (m_config_path m)"
      "fits ce (s\<lparr>os_phase := PhaseConnected\<rparr>)"
    and connected: "\<And>d' f. hold ce m prior (s\<lparr>os_phase := PhaseConnected\<rparr>) f (existing_present updated (ef_mode prior)) d' \<Longrightarrow>
      Q Connected d'"
  shows "wp (connect_fresh ce mu m managed) Q E d"
proof -
  obtain owns_notify where s: "s = first_snapshot ce m prior updated owns_notify managed" using plan_facts(2) [OF plan] by blast
  have at: "file_at (nodes d) (m_config_path m) prior" by (rule file_at_seen [OF prior])
  have wf: "wf_file prior" by (rule file_at_wf [OF at])
  have short: "length (ef_bytes prior) \<le> byte_limit (m_config_path m)"
    using prior by (auto simp: seen_Inr existing_present_def existing_missing_def)
  have neq: "snapshot_path m \<noteq> m_config_path m" using placed by (auto simp: placed_def)
  have sealed: "wp (replace (snapshot_path m) Missing bytes 384) (\<lambda>_. wp (connect_apply ce mu m prior updated s bytes) Q E) E d1"
    if d1: "unchanged d d1" for d1
  proof (rule wp_replace_served [OF served_unchanged [OF served d1] _ placed])
    have "nodes d1 (snapshot_path m) = None" using free unchangedD(2) [OF d1] by simp
    then show "expected_at (nodes d1) (snapshot_path m) Missing" by (simp add: expected_at_def seen_None existing_missing_def)
    show "readable_back (snapshot_path m) bytes 384" using small(1) by (simp add: readable_back_def)
    fix d'
    assume d': "served m d'" "later d1 d'" "nodes d' = (nodes d1)(snapshot_path m \<mapsto> Regular bytes 384)"
    have at': "file_at (nodes d') (m_config_path m) prior"
      using at d'(3) neq unchangedD(2) [OF d1] by (simp add: file_at_def)
    have "validate_path_and_prior ce m s = Inr ()"
      using first_snapshot_valid [OF wf] file_at_private [OF at] by (simp add: s)
    moreover have "allowed s prior" by (auto simp: s allowed_iff first_snapshot_phase)
    moreover have "ce_decode ce bytes = Some s" using codec plan_facts(1) [OF plan] by (simp add: codec_def)
    ultimately have "owns ce m prior s (existing_present bytes 384) d'"
      using d'(3) wf allowed_coherent [OF at'] by (simp add: owns_def existing_present_def s)
    then have "hold ce m prior s (existing_present bytes 384) prior d'"
      using d'(1) at' small(1) short by (simp add: hold_def existing_present_def)
    then show "wp (connect_apply ce mu m prior updated s bytes) Q E d'"
      by (rule wp_connect_apply_served [OF placed codec _ plan small(2,3)]) (rule connected)
  qed simp
  show ?thesis unfolding connect_fresh_def read_config_def wp_bind [of "read_optional_private_file _"]
  proof (rule wp_read, goal_cases)
    case (1 d1 f)
    then show ?case using prior plan sealed [OF 1(1)] by (simp add: wp_simps)
  qed (use prior served_calm [OF served] in auto)
qed

lemma wp_connect_served:
  assumes placed: "placed m" and served: "served m d" and managed: "m_managed m = Some managed"
    and free: "nodes d (snapshot_path m) = None"
    and fresh: "\<And>d'. served m d' \<Longrightarrow> still m d d' \<Longrightarrow> wp (connect_fresh ce mu m managed) Q E d'"
  shows "wp (connect_with ce mu m) Q E d"
  unfolding connect_with_def managed_values_of_def managed ok_or_simps wp_bind [of "io_lift _"] wp_lift_simps
    wp_bind [of "ensure_private_state_dir _"] wp_bind [of "manager_lock _"] wp_bind [of "checked_metadata _"]
proof (rule wp_state_dir_calm [OF served], rule wp_lock_calm [OF served_unchanged [OF served] placed], assumption,
    rule wp_checked_metadata, goal_cases)
  case (1 d1 d2 d3)
  have "still m d d3" using 1(1,3,4) by (meson still_trans unchanged_still)
  moreover have "served m d3" by (rule served_unchanged [OF 1(2,4)])
  moreover have "nodes d2 (snapshot_path m) = None" using 1(1,3) free by (simp add: still_def unchanged_def)
  ultimately show ?case using fresh by (simp add: wp_simps)
next
  case (2 d1 d2 d3)
  then show ?case using free by (simp add: still_def unchanged_def)
next
  case (3 d1 d2 d3)
  then show ?case using served_calm by blast
qed

end

subsection \<open>Following edits\<close>

lemma rebased_simps [simp]:
  "prior_of (rebased_snapshot ce s b g) = existing_present b (ef_mode g)"
  "connected_of (rebased_snapshot ce s b g) = existing_present (ef_bytes g) (ef_mode g)"
  "os_phase (rebased_snapshot ce s b g) = os_phase s" "os_owns_notify (rebased_snapshot ce s b g) = os_owns_notify s"
  "os_managed_fingerprint (rebased_snapshot ce s b g) = os_managed_fingerprint s"
  by (simp_all add: rebased_snapshot_def prior_of_def connected_of_def existing_present_def)

lemma rebased_valid:
  "validate_path_and_prior ce m s = Inr () \<Longrightarrow> os_phase s = PhaseConnected \<Longrightarrow> ef_mode g AND 63 = 0 \<Longrightarrow>
   validate_path_and_prior ce m (rebased_snapshot ce s b g) = Inr ()"
  by (auto simp: valid_snapshot rebased_snapshot_def split: option.splits)

lemma wp_read_config_calm:
  assumes "calm d" "seen (nodes d) p = Inr f" "\<And>d'. unchanged d d' \<Longrightarrow> Q f d'"
  shows "wp (read_optional_private_file p) Q E d"
  by (rule wp_read) (use assms in auto)

lemma wp_read_snapshot_calm:
  assumes "calm d" "seen (nodes d) (snapshot_path m) = Inr f" "ef_existed f" "ce_decode ce (ef_bytes f) = Some s"
    "validate_path_and_prior ce m s = Inr ()" "\<And>d'. unchanged d d' \<Longrightarrow> Q (s, f) d'"
  shows "wp (read_snapshot ce m) Q E d"
  unfolding read_snapshot_def wp_bind
  by (rule wp_read_config_calm [OF assms(1,2)]) (use assms(3-6) in \<open>simp add: wp_simps\<close>)

lemma wp_snapshot_state_calm:
  assumes calm: "calm d" and g: "seen (nodes d) (m_config_path m) = Inr g" "ef_existed g" "ef_mode g = os_connected_mode s"
    and judge: "judge s g = Inr state" and shown: "\<And>d'. unchanged d d' \<Longrightarrow> Q state d'"
  shows "wp (snapshot_state_of m s) Q E d"
proof -
  obtain bytes mode where node: "nodes d (m_config_path m) = Some (Regular bytes mode)" "mode AND 511 = ef_mode g"
    using g(1,2) by (auto simp: seen_Inr existing_present_def existing_missing_def)
  show ?thesis unfolding snapshot_state_of_def wp_bind
  proof (rule wp_checked_metadata, goal_cases)
    case (1 d1)
    have "wp (read_config m) (\<lambda>current. wp (io_lift (judge s current)) Q E) E d1"
      unfolding read_config_def
      by (rule wp_read_config_calm)
        (use calm g(1) judge 1(1) calm_unchanged [OF 1(1)] unchangedD(2) [OF 1(1)] in
          \<open>auto simp: wp_simps intro: shown [OF unchanged_trans]\<close>)
    then show ?case using node g(3) by (simp add: wp_simps unix_mode_def)
  qed (use node calm in auto)
qed

context working_mutations
begin

lemma wp_connect_rebase:
  assumes placed: "placed m" and codec: "codec ce" and served: "served m d" and managed: "m_managed m = Some managed"
    and f: "seen (nodes d) (snapshot_path m) = Inr f" "ef_existed f" "ce_decode ce (ef_bytes f) = Some s"
    and s: "validate_path_and_prior ce m s = Inr ()" "wf_file (prior_of s)" "os_phase s = PhaseConnected"
      "os_managed_fingerprint s = managed_fingerprint ce managed (os_owns_notify s)"
    and g: "seen (nodes d) (m_config_path m) = Inr g" "ef_existed g" "ef_mode g = os_connected_mode s" "g \<noteq> connected_of s"
    and docs: "parse_document ce (ef_bytes g) = Inr current_doc" "parse_document ce (ef_bytes (connected_of s)) = Inr connected_doc"
      "owned_values_match (ce_item_text ce) current_doc connected_doc (os_owns_notify s)"
      "parse_document ce (ef_bytes (prior_of s)) = Inr prior_doc"
      "restore_owned_values current_doc prior_doc (os_owns_notify s) = Inr rebased"
    and fits: "fits ce (rebased_snapshot ce s (ce_print ce rebased) g)"
    and followed: "\<And>d'. later d d' \<Longrightarrow> tracked ce m (existing_present (ce_print ce rebased) (ef_mode g)) (nodes d') \<Longrightarrow>
      nodes d' (m_config_path m) = nodes d (m_config_path m) \<Longrightarrow> Q Connected d'"
  shows "wp (connect_with ce mu m) Q E d"
proof -
  let ?s = "rebased_snapshot ce s (ce_print ce rebased) g"
  have neq: "m_config_path m \<noteq> snapshot_path m" using placed by (simp add: placed_def)
  have at: "file_at (nodes d) (m_config_path m) g" by (rule file_at_seen [OF g(1)])
  have mode: "ef_mode g AND 63 = 0" "ef_mode g AND 511 = ef_mode g" using file_at_private [OF at] by auto
  have state: "judge s g = Inr StateConflict"
    using judge_verdict [OF s(1,2) file_at_wf [OF at]] s(3) g(4) by (simp add: verdict_def)
  have dec: "decoded (os_connected_bytes_hex s) = Inr (ef_bytes (connected_of s))"
      "decoded (os_prior_bytes_hex s) = Inr (ef_bytes (prior_of s))" using valid_decoded [OF s(1)] by auto
  obtain bytes where bytes: "to_bytes ce ?s = Inr bytes" "length bytes \<le> MAX_SNAPSHOT_BYTES" using fits by (auto simp: fits_def)
  have same_g: "existing_present (ef_bytes g) (ef_mode g) = g" using g(2) by (cases g) (simp add: existing_present_def)
  have judged: "wp (connect_judged ce mu m managed ?s f' StateConnected) (\<lambda>status. wp (case status of
      Some status \<Rightarrow> io_return status | None \<Rightarrow> connect_fresh ce mu m managed) Q E) E d'"
    if "later d d'" "tracked ce m (existing_present (ce_print ce rebased) (ef_mode g)) (nodes d')"
      "nodes d' (m_config_path m) = nodes d (m_config_path m)" for f' d'
    using followed [OF that] s(3,4) by (simp add: connect_judged_def Let_def wp_simps)
  have written: "wp (replace (snapshot_path m) (expect_present f) bytes 384)
      (\<lambda>_. wp (connect_judged ce mu m managed ?s (existing_present bytes 384) StateConnected) (\<lambda>status. wp (case status of
      Some status \<Rightarrow> io_return status | None \<Rightarrow> connect_fresh ce mu m managed) Q E) E) E d1" if d1: "served m d1" "still m d d1" for d1
  proof (rule wp_replace_served [OF d1(1) _ placed])
    have "seen (nodes d1) (snapshot_path m) = Inr f" using f(1) d1(2) seen_cong [of "nodes d1" "snapshot_path m" "nodes d"]
      by (simp add: still_def)
    then show "expected_at (nodes d1) (snapshot_path m) (expect_present f)"
      using f(2) by (auto simp: expected_at_def expect_present_def file_matches_def)
    show "readable_back (snapshot_path m) bytes 384" using bytes(2) by (simp add: readable_back_def)
    fix d'
    assume d': "served m d'" "later d1 d'" "nodes d' = (nodes d1)(snapshot_path m \<mapsto> Regular bytes 384)"
    have same: "nodes d' (m_config_path m) = nodes d (m_config_path m)" using d'(3) d1(2) neq by (simp add: still_def)
    have at': "file_at (nodes d') (m_config_path m) g" using at file_at_cong [of "nodes d'" "m_config_path m" "nodes d", OF same] by simp
    have "ce_decode ce bytes = Some ?s" using codec bytes(1) by (simp add: codec_def)
    moreover have "validate_path_and_prior ce m ?s = Inr ()" by (rule rebased_valid [OF s(1,3) mode(1)])
    moreover have "coherent ?s (nodes d') (m_config_path m)" using at' s(3) same_g by (simp add: coherent_def)
    ultimately have "tracked ce m (existing_present (ce_print ce rebased) (ef_mode g)) (nodes d')"
      using d'(3) by (auto simp: tracked_def)
    moreover have "later d d'" using d1(2) d'(2) by (auto simp: still_def intro: later_trans)
    ultimately show "wp (connect_judged ce mu m managed ?s (existing_present bytes 384) StateConnected) (\<lambda>status. wp (case status of
      Some status \<Rightarrow> io_return status | None \<Rightarrow> connect_fresh ce mu m managed) Q E) E d'"
      using judged same by blast
  qed simp
  have confirmed: "file_matches g (ef_bytes g) (ef_mode g)" using g(2) by (simp add: file_matches_def)
  have rebase: "wp (rebase_unowned_edits ce mu m s f)
      (\<lambda>r. wp (case r of Some (s', rebased_file) \<Rightarrow> io_return (s', rebased_file, StateConnected) | None \<Rightarrow> io_return (s, f, StateConflict))
        (\<lambda>(s, f, state). wp (connect_judged ce mu m managed s f state) (\<lambda>status. wp (case status of
      Some status \<Rightarrow> io_return status | None \<Rightarrow> connect_fresh ce mu m managed) Q E) E) E) E d1"
    if d1: "served m d1" "still m d d1" for d1
    unfolding rebase_unowned_edits_def read_config_def wp_bind [of "read_optional_private_file _"]
  proof (rule wp_read_config_calm [OF served_calm [OF d1(1)], where f = g], goal_cases)
    case 1
    show ?case using g(1) d1(2) seen_cong [of "nodes d1" "m_config_path m" "nodes d"] by (simp add: still_def)
  next
    case (2 d2)
    have d2: "served m d2" "still m d d2" using served_unchanged [OF d1(1) 2] still_unchanged [OF d1(2) 2] .
    have seen2: "seen (nodes d2) (m_config_path m) = Inr g"
      using g(1) d2(2) seen_cong [of "nodes d2" "m_config_path m" "nodes d"] by (simp add: still_def)
    have "wp (read_optional_private_file (m_config_path m)) (\<lambda>confirmed. wp (
        if \<not> file_matches confirmed (ef_bytes g) (ef_mode g) then io_fail ConfigConflict
        else io_bind (write_snapshot ce mu m ?s f) (\<lambda>file. io_return (Some (?s, file))))
      (\<lambda>r. wp (case r of Some (s', rebased_file) \<Rightarrow> io_return (s', rebased_file, StateConnected) | None \<Rightarrow> io_return (s, f, StateConflict))
        (\<lambda>(s, f, state). wp (connect_judged ce mu m managed s f state) (\<lambda>status. wp (case status of
      Some status \<Rightarrow> io_return status | None \<Rightarrow> connect_fresh ce mu m managed) Q E) E) E) E) E d2"
    proof (rule wp_read_config_calm [OF served_calm [OF d2(1)] seen2])
      fix d3
      assume d3: "unchanged d2 d3"
      show "wp (if \<not> file_matches g (ef_bytes g) (ef_mode g) then io_fail ConfigConflict
        else io_bind (write_snapshot ce mu m ?s f) (\<lambda>file. io_return (Some (?s, file))))
      (\<lambda>r. wp (case r of Some (s', rebased_file) \<Rightarrow> io_return (s', rebased_file, StateConnected) | None \<Rightarrow> io_return (s, f, StateConflict))
        (\<lambda>(s, f, state). wp (connect_judged ce mu m managed s f state) (\<lambda>status. wp (case status of
      Some status \<Rightarrow> io_return status | None \<Rightarrow> connect_fresh ce mu m managed) Q E) E) E) E d3"
        using written [OF served_unchanged [OF d2(1) d3] still_unchanged [OF d2(2) d3]] confirmed
        by (simp add: write_snapshot_def bytes(1) wp_simps)
    qed
    then show ?case using g(2,3) docs dec
      by (simp add: wp_simps Let_def)
  qed
  have existing: "wp (connect_existing ce mu m) (\<lambda>status. wp (case status of
      Some status \<Rightarrow> io_return status | None \<Rightarrow> connect_fresh ce mu m managed) Q E) E d1"
    if d1: "served m d1" "still m d d1" for d1
    unfolding connect_existing_def wp_bind [of "read_snapshot _ _"]
  proof (rule wp_read_snapshot_calm [OF served_calm [OF d1(1)] _ f(2,3) s(1)], goal_cases)
    case 1
    show ?case using f(1) d1(2) seen_cong [of "nodes d1" "snapshot_path m" "nodes d"] by (simp add: still_def)
  next
    case (2 d2)
    have d2: "served m d2" "still m d d2" using served_unchanged [OF d1(1) 2] still_unchanged [OF d1(2) 2] .
    have "wp (snapshot_state_of m s) (\<lambda>state. wp (follow_edits ce mu m s f state)
        (\<lambda>(s, f, state). wp (connect_judged ce mu m managed s f state) (\<lambda>status. wp (case status of
      Some status \<Rightarrow> io_return status | None \<Rightarrow> connect_fresh ce mu m managed) Q E) E) E) E d2"
    proof (rule wp_snapshot_state_calm [OF served_calm [OF d2(1)] _ g(2,3) state], goal_cases)
      case 1
      show ?case using g(1) d2(2) seen_cong [of "nodes d2" "m_config_path m" "nodes d"] by (simp add: still_def)
    next
      case (2 d3)
      have d3: "served m d3" "still m d d3" using served_unchanged [OF d2(1) 2] still_unchanged [OF d2(2) 2] .
      show ?case using rebase [OF d3] s(3) by (simp add: follow_edits_def wp_bind)
    qed
    then show ?case by (auto simp: managed_values_of_def managed wp_simps split: prod.splits elim!: wp_mono)
  qed
  show ?thesis
    unfolding connect_with_def managed_values_of_def managed ok_or_simps wp_bind [of "io_lift _"] wp_lift_simps
      wp_bind [of "ensure_private_state_dir _"] wp_bind [of "manager_lock _"] wp_bind [of "checked_metadata _"]
  proof (rule wp_state_dir_calm [OF served], rule wp_lock_calm [OF served_unchanged [OF served] placed], assumption,
      rule wp_checked_metadata, goal_cases)
    case (1 d1 d2 d3)
    have "still m d d3" using 1(1,3,4) by (meson still_trans unchanged_still)
    moreover have "served m d3" by (rule served_unchanged [OF 1(2,4)])
    moreover have "nodes d2 (snapshot_path m) \<noteq> None"
      using 1(1,3) f(1,2) by (auto simp: still_def unchanged_def seen_Inr existing_missing_def)
    ultimately show ?case using existing by (simp only: wp_bind if_False)
  next
    case (2 d1 d2 d3)
    then have "nodes d (snapshot_path m) = Some Symlink" by (simp add: still_def unchanged_def)
    then show ?case using f(1) by (simp add: seen_def)
  next
    case (3 d1 d2 d3)
    then show ?case using served_calm by blast
  qed
qed

end

subsection \<open>A configuration that outgrows the bound\<close>

definition outgrown :: "config_env \<Rightarrow> manager \<Rightarrow> ownership_snapshot \<Rightarrow> machine \<Rightarrow> bool" where
  "outgrown ce m s d \<longleftrightarrow>
     (\<exists>bytes mode. nodes d (snapshot_path m) = Some (Regular bytes mode) \<and> ce_decode ce bytes = Some s) \<and>
     (\<exists>bytes mode. nodes d (m_config_path m) = Some (Regular bytes mode) \<and> mode AND 63 = 0 \<and>
        mode AND 511 = os_connected_mode s \<and> byte_limit (m_config_path m) < length bytes)"

lemma outgrown_still: "still m d d' \<Longrightarrow> outgrown ce m s d \<Longrightarrow> outgrown ce m s d'"
  by (simp add: outgrown_def still_def)

lemma wp_outgrown_look:
  assumes outgrown: "outgrown ce m s d" and failed: "\<And>d' e. unchanged d d' \<Longrightarrow> E e d'"
  shows "wp (snapshot_state_of m s) Q E d"
proof -
  obtain bytes mode where node: "nodes d (m_config_path m) = Some (Regular bytes mode)" "mode AND 63 = 0"
      "mode AND 511 = os_connected_mode s" "byte_limit (m_config_path m) < length bytes"
    using outgrown by (auto simp: outgrown_def)
  show ?thesis unfolding snapshot_state_of_def wp_bind
  proof (rule wp_checked_metadata, goal_cases)
    case (1 d1)
    have "seen (nodes d1) (m_config_path m) = Inl (TooLarge (m_config_path m))"
      using node unchangedD(2) [OF 1(1)] seen_Regular [of "nodes d" "m_config_path m" bytes mode] by simp
    then have "wp (read_config m) (\<lambda>current. wp (io_lift (judge s current)) Q E) E d1"
      unfolding read_config_def by (intro wp_read) (use failed 1(1) in \<open>auto intro: unchanged_trans\<close>)
    then show ?case using node by (simp add: wp_simps unix_mode_def)
  qed (use failed in auto)
qed

lemma outgrown_disconnect:
  assumes placed: "placed m" and outgrown: "outgrown ce m s d"
  shows "wp (disconnect_with ce mu m) (\<lambda>_ _. False) (\<lambda>_. still m d) d"
proof -
  let ?body = "io_bind (checked_metadata (snapshot_path m)) (\<lambda>meta.
     if meta = None then io_return Disconnected
     else io_bind (read_snapshot ce m) (\<lambda>(s, snapshot_file).
       io_bind (snapshot_state_of m s) (\<lambda>state.
       io_bind (settle_rotation ce mu m s snapshot_file state) (\<lambda>(s, snapshot_file, state).
       disconnect_settled ce mu m s snapshot_file state))))"
  have read: "wp (read_snapshot ce m) (\<lambda>(s, f). wp (snapshot_state_of m s) (\<lambda>state. wp (settle_rotation ce mu m s f state)
      (\<lambda>(s, f, state). wp (disconnect_settled ce mu m s f state) (\<lambda>_ _. False) (\<lambda>_. still m d)) (\<lambda>_. still m d)) (\<lambda>_. still m d))
      (\<lambda>_. still m d) d1" if d1: "still m d d1" for d1
  proof (rule wp_read_snapshot, goal_cases)
    case (1 d2 s' bytes mode)
    have "s' = s" using 1(2,5) outgrown_still [OF d1 outgrown] by (auto simp: outgrown_def)
    then show ?case using wp_outgrown_look [OF outgrown_still [OF still_unchanged [OF d1 1(1)] outgrown]]
      by (simp add: still_unchanged [OF still_unchanged [OF d1 1(1)]])
  qed (use d1 still_unchanged in blast)
  have body: "wp ?body (\<lambda>_ _. False) (\<lambda>_. still m d) d1" if d1: "still m d d1" for d1
    unfolding wp_bind [of "checked_metadata _"]
  proof (rule wp_checked_metadata, goal_cases)
    case (1 d2)
    have "nodes d1 (snapshot_path m) \<noteq> None" using outgrown_still [OF d1 outgrown] by (auto simp: outgrown_def)
    then show ?case using read [OF still_unchanged [OF d1 1(1)]] by (auto simp: wp_bind split: prod.splits elim!: wp_mono)
  qed (use d1 still_unchanged in blast)+
  have "wp (ensure_private_state_dir m) (\<lambda>_. wp (manager_lock m) (\<lambda>_. wp ?body (\<lambda>_ _. False) (\<lambda>_. still m d)) (\<lambda>_. still m d)) (\<lambda>_. still m d) d"
    by (rule wp_still [OF still_ensure_private_state_dir [OF placed]])
      (auto intro!: wp_still [OF still_manager_lock [OF placed]] body intro: still_trans)
  then show ?thesis by (simp add: disconnect_with_def wp_bind [of "ensure_private_state_dir _"] wp_bind [of "manager_lock _"])
qed

lemma wp_connect_outgrown:
  assumes placed: "placed m" and codec: "codec ce" and served: "served m d"
    and free: "nodes d (snapshot_path m) = None" and prior: "seen (nodes d) (m_config_path m) = Inr prior"
    and plan: "connect_plan ce m managed prior = Inr (updated, s, bytes)"
    and size: "length bytes \<le> MAX_SNAPSHOT_BYTES" "byte_limit (m_config_path m) < length updated"
  shows "wp (connect_fresh ce filesystem_mutations m managed) (\<lambda>_ _. False)
    (\<lambda>_ d'. outgrown ce m s d' \<and> nodes d' (m_config_path m) = Some (Regular updated (ef_mode prior))) d"
proof -
  let ?E = "\<lambda>_ d'. outgrown ce m s d' \<and> nodes d' (m_config_path m) = Some (Regular updated (ef_mode prior))"
  obtain owns_notify where s: "s = first_snapshot ce m prior updated owns_notify managed" using plan_facts(2) [OF plan] by blast
  have at: "file_at (nodes d) (m_config_path m) prior" by (rule file_at_seen [OF prior])
  have mode: "ef_mode prior AND 63 = 0" "ef_mode prior AND 511 = ef_mode prior" using file_at_private [OF at] by auto
  have neq: "snapshot_path m \<noteq> m_config_path m" and shown: "\<not> hidden (m_config_path m)" using placed by (auto simp: placed_def)
  have decode: "ce_decode ce bytes = Some s" using codec plan_facts(1) [OF plan] by (simp add: codec_def)
  have "length (ef_bytes prior) \<le> byte_limit (m_config_path m)"
    using prior by (auto simp: seen_Inr existing_present_def existing_missing_def)
  then have changed: "\<not> file_matches prior updated (ef_mode prior)" using size(2) by (auto simp: file_matches_def)
  have grown: "outgrown ce m s d2 \<and> nodes d2 (m_config_path m) = Some (Regular updated (ef_mode prior))"
    if "nodes d2 (snapshot_path m) = Some (Regular bytes 384)" "nodes d2 (m_config_path m) = Some (Regular updated (ef_mode prior))" for d2
    using that decode mode size(2) by (simp add: outgrown_def s first_snapshot_def)
  have undo: "wp (connect_undo filesystem_mutations m s bytes e) Q ?E d2"
    if "nodes d2 (snapshot_path m) = Some (Regular bytes 384)" "nodes d2 (m_config_path m) = Some (Regular updated (ef_mode prior))" for d2 e Q
    unfolding connect_undo_def wp_bind [of "snapshot_state_of _ _"]
    by (rule wp_outgrown_look [OF conjunct1 [OF grown [OF that]]]) (use grown that unchangedD(2) in auto)
  have applied: "wp (connect_apply ce filesystem_mutations m prior updated s bytes) (\<lambda>_ _. False) ?E d1"
    if d1: "served m d1" "nodes d1 (snapshot_path m) = Some (Regular bytes 384)" "file_at (nodes d1) (m_config_path m) prior" for d1
  proof -
    have calm: "calm d1" and ready: "ready d1 (m_config_path m)" using d1(1) served_calm served_ready by auto
    obtain dir dir_mode where dir: "parent (m_config_path m) = Some dir" "nodes d1 dir = Some (Directory dir_mode)"
      "nodes d1 (temp_of d1 (m_config_path m)) = None" using ready by (auto simp: ready_def temp_of_def)
    have "length (ef_bytes prior) \<le> byte_limit (m_config_path m)"
      using prior by (auto simp: seen_Inr existing_present_def existing_missing_def)
    then have "seen (nodes d1) (m_config_path m) = Inr prior" using d1(3) by (rule seen_at [rotated])
    then have expected: "expected_at (nodes d1) (m_config_path m) (expect_existing prior)"
      by (auto simp: expected_at_def expect_existing_def expect_present_def file_matches_def)
    have can: "replaceable d1 (m_config_path m) (temp_of d1 (m_config_path m)) (expect_existing prior)"
      using dir expected creatable_temp [of "m_config_path m" dir "nodes d1"] by (simp add: replaceable_def temp_of_def)
    have big: "\<not> readable_back (m_config_path m) updated (ef_mode prior)" using size(2) by (simp add: readable_back_def)
    have temp: "temp_of d1 (m_config_path m) \<noteq> snapshot_path m"
      using hidden_temp [of "m_config_path m" "''new''"] snapshot_path_shown [of m] by (metis temp_of_def)
    have "wp (atomic_replace (m_config_path m) (expect_existing prior) updated (ef_mode prior))
        (\<lambda>_. wp (io_bind (transition_snapshot ce filesystem_mutations m s (existing_present bytes 384) PhaseConnected)
          (\<lambda>_. io_return Connected)) (\<lambda>_ _. False) ?E)
        (\<lambda>e. wp (connect_undo filesystem_mutations m s bytes e) (\<lambda>_. wp (io_bind (transition_snapshot ce filesystem_mutations m s
          (existing_present bytes 384) PhaseConnected) (\<lambda>_. io_return Connected)) (\<lambda>_ _. False) ?E) ?E) d1"
    proof (rule wp_atomic_replace [OF temp_neq [OF shown] dir(1)], goal_cases)
      case (1 d')
      then show ?case using big by simp
    next
      case (2 d' e x)
      then show ?case using calm can by simp
    next
      case (3 d' e)
      show ?case by (rule undo) (use 3(2) d1(2) neq temp temp_neq [OF shown, of d1] in auto)
    qed
    then show ?thesis using changed by (simp add: connect_apply_def wp_bind wp_catch filesystem_mutations_def)
  qed
  have sealed: "wp (atomic_replace (snapshot_path m) Missing bytes 384)
      (\<lambda>_. wp (connect_apply ce filesystem_mutations m prior updated s bytes) (\<lambda>_ _. False) ?E) ?E d1"
    if d1: "unchanged d d1" for d1
  proof (rule filesystem.wp_replace_served [OF served_unchanged [OF served d1] _ placed])
    show "expected_at (nodes d1) (snapshot_path m) Missing"
      using free unchangedD(2) [OF d1] by (simp add: expected_at_def seen_None existing_missing_def)
    show "readable_back (snapshot_path m) bytes 384" using size(1) by (simp add: readable_back_def)
    fix d'
    assume "served m d'" "later d1 d'" and tree: "nodes d' = (nodes d1)(snapshot_path m \<mapsto> Regular bytes 384)"
    then show "wp (connect_apply ce filesystem_mutations m prior updated s bytes) (\<lambda>_ _. False) ?E d'"
      using at neq unchangedD(2) [OF d1] by (intro applied) (auto simp: file_at_def)
  qed simp
  have "wp (read_optional_private_file (m_config_path m)) (\<lambda>f. wp (io_bind (io_lift (connect_plan ce m managed f))
      (\<lambda>(updated, s, snapshot_bytes). io_bind (mu_replace filesystem_mutations (snapshot_path m) Missing snapshot_bytes 384)
        (\<lambda>_. connect_apply ce filesystem_mutations m f updated s snapshot_bytes))) (\<lambda>_ _. False) ?E) ?E d"
    by (rule wp_read_config_calm [OF served_calm [OF served] prior])
      (use sealed in \<open>simp add: plan wp_simps filesystem_mutations_def\<close>)
  then show ?thesis by (simp add: connect_fresh_def read_config_def wp_bind)
qed

end
