(* ===== verification/Codex_Config_Theorems.thy ===== *)
theory Codex_Config_Theorems
  imports Codex_Config_Properties
begin

section \<open>Codex configuration: theorems\<close>

text \<open>
  The promises of the manager over the code's own file operations, each applied to a small machine: a
  configuration of one byte, an encoding of snapshots given by a table, and a printer of fixed text.
\<close>

subsection \<open>A small machine\<close>

definition sample_config :: path where
  "sample_config = Path True [''h'', ''c'']"

definition sample_state :: path where
  "sample_state = Path True [''h'', ''r'', ''s'']"

definition sample_managed :: managed_values where
  "sample_managed = \<lparr>mv_binary = ''/b'', mv_runtime_root = ''/r'', mv_endpoint = ''e'', mv_ca_certificate = ''/ca'',
     mv_auth_header_value = ''t''\<rparr>"

definition sample_manager :: "managed_values option \<Rightarrow> manager" where
  "sample_manager managed = \<lparr>m_config_path = sample_config, m_state_dir = sample_state, m_managed = managed\<rparr>"

definition sample_document :: toml_document where
  "sample_document = \<lparr>doc_text = [], doc_entries = [(''otel'', [], TableItem [] [])]\<rparr>"

definition sample_env :: "string \<Rightarrow> (ownership_snapshot \<times> string) list \<Rightarrow> config_env" where
  "sample_env printed table = \<lparr>ce_sha = (\<lambda>_. []), ce_parse = (\<lambda>_. Some sample_document), ce_print = (\<lambda>_. printed),
     ce_value_text = (\<lambda>_. []), ce_item_text = (\<lambda>_. []), ce_encode = map_of table,
     ce_decode = map_of (map (\<lambda>(s, bytes). (bytes @ [CHR 0x0A], s)) table)\<rparr>"

definition sample_prior :: existing_file where
  "sample_prior = existing_present ''x'' 384"

definition sample_snapshot :: "string \<Rightarrow> snapshot_phase \<Rightarrow> ownership_snapshot" where
  "sample_snapshot printed phase =
     (first_snapshot (sample_env printed []) (sample_manager None) sample_prior printed True sample_managed)\<lparr>os_phase := phase\<rparr>"

definition sample_table :: "string \<Rightarrow> (ownership_snapshot \<times> string) list" where
  "sample_table printed = [(sample_snapshot printed PhasePrepared, ''p''), (sample_snapshot printed PhaseConnected, ''c''),
     (sample_snapshot printed PhaseRestoring, ''r'')]"

definition sample_machine :: "tree \<Rightarrow> (nat \<Rightarrow> bool) \<Rightarrow> machine" where
  "sample_machine files schedule = \<lparr>nodes = [Path True [''h''] \<mapsto> Directory 448, Path True [''h'', ''r''] \<mapsto> Directory 448,
      sample_state \<mapsto> Directory 448] ++ files,
     faults = schedule, clock = 0, temp_sequence = 0, process_id = 1\<rparr>"

abbreviation sample_recorded :: "string \<Rightarrow> string \<Rightarrow> machine" where
  "sample_recorded current recorded \<equiv> sample_machine [sample_config \<mapsto> Regular current 384,
     Path True [''h'', ''r'', ''s'', SNAPSHOT_FILE] \<mapsto> Regular (recorded @ [CHR 0x0A]) 384] (\<lambda>_. False)"

lemma table_codec: "distinct (map snd table) \<Longrightarrow> codec (sample_env printed table)"
proof -
  assume distinct: "distinct (map snd table)"
  have "map fst (map (\<lambda>(s, bytes). (bytes @ [CHR 0x0A], s)) table) = map (\<lambda>bytes. bytes @ [CHR 0x0A]) (map snd table)"
    by (induction table) auto
  then have keys: "distinct (map fst (map (\<lambda>(s, bytes). (bytes @ [CHR 0x0A], s)) table))"
    using distinct by (simp add: distinct_map inj_on_def)
  have "map_of (map (\<lambda>(s, bytes). (bytes @ [CHR 0x0A], s)) table) (b @ [CHR 0x0A]) = Some s" if "map_of table s = Some b" for s b
    using map_of_SomeD [OF that] by (intro map_of_is_SomeI [OF keys]) force
  then show ?thesis by (auto simp: codec_def to_bytes_def sample_env_def result_simps)
qed

lemma sample_placed: "placed (sample_manager managed)"
  by (simp add: placed_def sample_manager_def sample_config_def sample_state_def hidden_def snapshot_path_def)

lemma sample_codec: "codec (sample_env printed (sample_table printed))"
  by (rule table_codec) (simp add: sample_table_def)

lemma sample_paths [simp]:
  "m_config_path (sample_manager managed) = sample_config"
  "snapshot_path (sample_manager managed) = Path True [''h'', ''r'', ''s'', SNAPSHOT_FILE]"
  "m_managed (sample_manager managed) = managed"
  by (simp_all add: sample_manager_def snapshot_path_def sample_state_def)

lemma sample_limit [simp]: "byte_limit sample_config = 1048576"
  by (simp add: byte_limit_def sample_config_def SNAPSHOT_FILE_def MAX_CONFIG_BYTES_def)

lemma sample_served:
  assumes "dom files \<subseteq> {sample_config, Path True [''h'', ''r'', ''s'', SNAPSHOT_FILE]}"
  shows "served (sample_manager managed) (sample_machine files (\<lambda>_. False))"
proof -
  have other: "files p = None" if "p \<noteq> sample_config" "p \<noteq> Path True [''h'', ''r'', ''s'', SNAPSHOT_FILE]" for p
    using assms that by (auto simp: dom_def)
  show ?thesis
    by (auto simp: served_def sample_machine_def calm_def free_temps_def any_dir_def private_dir_def sample_config_def
      sample_state_def lock_path_def map_add_def other sibling_name_def LOCK_FILE_def SNAPSHOT_FILE_def sample_manager_def
      snapshot_path_def result_simps split: option.splits)
qed
lemma sample_neq [simp]: "sample_config \<noteq> Path True [''h'', ''r'', ''s'', SNAPSHOT_FILE]"
  "Path True [''h'', ''r'', ''s'', SNAPSHOT_FILE] \<noteq> sample_config"
  by (simp_all add: sample_config_def)

lemma sample_snapshot_simps [simp]:
  "os_phase (sample_snapshot printed phase) = phase"
  "prior_of (sample_snapshot printed phase) = sample_prior"
  "connected_of (sample_snapshot printed phase) = existing_present printed 384"
  "os_pending_rotation (sample_snapshot printed phase) = None"
  "os_connected_mode (sample_snapshot printed phase) = 384"
  "os_owns_notify (sample_snapshot printed phase) = True"
  "(sample_snapshot printed phase)\<lparr>os_phase := phase'\<rparr> = sample_snapshot printed phase'"
  "sample_snapshot printed phase = sample_snapshot printed phase' \<longleftrightarrow> phase = phase'"
proof -
  show "sample_snapshot printed phase = sample_snapshot printed phase' \<longleftrightarrow> phase = phase'"
    by (metis ownership_snapshot.simps(3) ownership_snapshot.select_convs(3) ownership_snapshot.surjective
      ownership_snapshot.update_convs(3) sample_snapshot_def)
qed (simp_all add: sample_snapshot_def first_snapshot_def sample_prior_def existing_present_def prior_of_def connected_of_def del: hex_encode_simps)

lemma sample_valid:
  "phase \<noteq> PhaseRotating \<Longrightarrow>
   validate_path_and_prior (sample_env printed table) (sample_manager managed) (sample_snapshot printed phase) = Inr ()"
  by (simp add: valid_snapshot sample_snapshot_def first_snapshot_def sample_prior_def existing_present_def sample_env_def
    del: hex_encode_simps)

lemma sample_decode [simp]:
  "ce_decode (sample_env printed (sample_table printed)) (''p'' @ [CHR 0x0A]) = Some (sample_snapshot printed PhasePrepared)"
  "ce_decode (sample_env printed (sample_table printed)) (''c'' @ [CHR 0x0A]) = Some (sample_snapshot printed PhaseConnected)"
  "ce_decode (sample_env printed (sample_table printed)) (''r'' @ [CHR 0x0A]) = Some (sample_snapshot printed PhaseRestoring)"
  by (simp_all add: sample_env_def sample_table_def)

lemma sample_bytes [simp]:
  "to_bytes (sample_env printed (sample_table printed)) (sample_snapshot printed PhasePrepared) = Inr (''p'' @ [CHR 0x0A])"
  "to_bytes (sample_env printed (sample_table printed)) (sample_snapshot printed PhaseConnected) = Inr (''c'' @ [CHR 0x0A])"
  "to_bytes (sample_env printed (sample_table printed)) (sample_snapshot printed PhaseRestoring) = Inr (''r'' @ [CHR 0x0A])"
  by (simp_all add: to_bytes_def sample_env_def sample_table_def result_simps)

lemma sample_fits:
  "phase \<noteq> PhaseRotating \<Longrightarrow> fits (sample_env printed (sample_table printed)) (sample_snapshot printed phase)"
  by (cases phase) (simp_all add: fits_def MAX_SNAPSHOT_BYTES_def)

lemma sample_nodes [simp]:
  "nodes (sample_machine files schedule) sample_config = files sample_config"
  "nodes (sample_machine files schedule) (Path True [''h'', ''r'', ''s'', SNAPSHOT_FILE]) =
     files (Path True [''h'', ''r'', ''s'', SNAPSHOT_FILE])"
  by (simp_all add: sample_machine_def sample_config_def sample_state_def map_add_def split: option.splits)

subsection \<open>Promises\<close>

text \<open>C34: Whatever sequence of connects, disconnects and status queries runs against the configuration, with any
  managed values, under any schedule of failing system calls, with crashes and restarts anywhere, the file
  that was there before is never lost: at every moment either there is no snapshot and the configuration is
  that file, or the snapshot records it and the configuration is one of the contents the phase allows.\<close>
theorem session_keeps_prior:
  assumes "placed m" "codec ce" "session ce m d d'" "nodes d (snapshot_path m) = None"
    "file_at (nodes d) (m_config_path m) prior"
  shows "tracked ce m prior (nodes d')"
  by (rule session_tracked [OF assms(3,1,2) file_at_wf [OF assms(5)]]) (simp add: tracked_free assms(4,5))

theorem session_keeps_prior_witness:
  "tracked (sample_env ''y'' (sample_table ''y'')) (sample_manager None) sample_prior
     (nodes (run_operation (sample_env ''y'' (sample_table ''y'')) ((sample_manager None)\<lparr>m_managed := Some sample_managed\<rparr>)
       Connect (sample_machine [sample_config \<mapsto> Regular ''x'' 384] (\<lambda>tick. 25 \<le> tick))))"
  by (rule session_keeps_prior [OF sample_placed sample_codec session.act [OF session.start]])
    (simp_all add: file_at_def sample_prior_def existing_present_def)
text \<open>C35: Whatever interrupted operations left behind, one disconnect on a machine without faults and with its
  directories in place returns, puts back exactly the recorded file, its permissions or its absence, and
  forgets the snapshot.\<close>
theorem disconnect_restores:
  assumes "placed m" "codec ce" "m_managed m = None" "tracked ce m prior (nodes d)" "wf_file prior" "served m d"
    and "\<And>bytes s. nodes d (snapshot_path m) = Some (Regular bytes 384) \<Longrightarrow> ce_decode ce bytes = Some s \<Longrightarrow>
      length bytes \<le> MAX_SNAPSHOT_BYTES \<and> room ce m s"
  shows "\<exists>d'. config_disconnect ce m d = (Inr Disconnected, d') \<and> nodes d' (snapshot_path m) = None \<and>
    file_at (nodes d') (m_config_path m) prior"
proof -
  have "wp (disconnect_with ce filesystem.mu m)
      (\<lambda>status d'. status = Disconnected \<and> nodes d' (snapshot_path m) = None \<and> file_at (nodes d') (m_config_path m) prior)
      (\<lambda>_ _. False) d"
    by (rule filesystem.wp_disconnect_served [OF assms(1-4) assms(6,5,7)]) auto
  then show ?thesis
    by (auto simp: config_disconnect_def filesystem_mu wp_def split: prod.splits sum.splits)
qed

theorem disconnect_restores_witness:
  "\<exists>d'. config_disconnect (sample_env ''y'' (sample_table ''y'')) (sample_manager None)
       (sample_recorded ''y'' ''p'') = (Inr Disconnected, d') \<and>
     nodes d' (snapshot_path (sample_manager None)) = None \<and>
     file_at (nodes d') (m_config_path (sample_manager None)) sample_prior"
proof (rule disconnect_restores [OF sample_placed sample_codec])
  show "tracked (sample_env ''y'' (sample_table ''y'')) (sample_manager None) sample_prior
      (nodes (sample_recorded ''y'' ''p''))"
    using sample_decode(1) [of "''y''"]
    by (auto simp: tracked_def sample_valid coherent_def file_at_def existing_present_def simp del: sample_decode)
  show "length bytes \<le> MAX_SNAPSHOT_BYTES \<and> room (sample_env ''y'' (sample_table ''y'')) (sample_manager None) s"
    if "nodes (sample_recorded ''y'' ''p'')
         (snapshot_path (sample_manager None)) = Some (Regular bytes 384)"
      "ce_decode (sample_env ''y'' (sample_table ''y'')) bytes = Some s" for bytes s
  proof -
    have "bytes = ''p'' @ [CHR 0x0A]" using that(1) by simp
    moreover from this have "s = sample_snapshot ''y'' PhasePrepared" using that(2) sample_decode(1) [of "''y''"] by simp
    ultimately show ?thesis
      using sample_fits [of PhaseRestoring "''y''"]
      by (simp add: room_def MAX_SNAPSHOT_BYTES_def sample_prior_def existing_present_def pending_of_def existing_missing_def)
  qed
qed (auto simp: sample_prior_def existing_present_def wf_file_def intro!: sample_served split: if_splits)

text \<open>C36: An edit by somebody else is never overwritten: when the configuration is none of the contents that the
  phase of the snapshot allows, no operation changes the configuration or the snapshot, under any schedule of
  faults; a connect may only follow an edit that leaves the owned settings alone.\<close>
theorem foreign_edit_untouched:
  assumes "placed m" "foreign ce m s g d" "op = Connect \<Longrightarrow> \<not> rebasable ce s g"
  shows "nodes (run_operation ce m op d) (m_config_path m) = nodes d (m_config_path m) \<and>
    nodes (run_operation ce m op d) (snapshot_path m) = nodes d (snapshot_path m)"
  using foreign_operation [OF assms] by (simp add: still_def)

theorem foreign_edit_untouched_witness:
  "nodes (run_operation (sample_env ''y'' (sample_table ''y'')) (sample_manager (Some sample_managed)) Connect
      (sample_recorded ''z'' ''p'')) sample_config =
   Some (Regular ''z'' 384)"
proof -
  have "foreign (sample_env ''y'' (sample_table ''y'')) (sample_manager (Some sample_managed)) (sample_snapshot ''y'' PhasePrepared)
      (existing_present ''z'' 384) (sample_recorded ''z'' ''p'')"
    using sample_decode(1) [of "''y''"]
    by (auto simp: foreign_def sample_valid file_at_def allowed_iff existing_present_def wf_file_def sample_prior_def
      simp del: sample_decode)
  from foreign_edit_untouched [OF sample_placed this, of Connect] show ?thesis by (simp add: rebasable_def)
qed

lemma first_sample:
  "first_snapshot (sample_env printed table) (sample_manager managed) sample_prior printed True sample_managed =
     sample_snapshot printed (if printed = ''x'' then PhaseConnected else PhasePrepared)"
  by (simp add: first_snapshot_def sample_snapshot_def managed_fingerprint_def sample_env_def file_matches_def
    sample_prior_def existing_present_def)

lemma sample_patch: "\<exists>doc. patch_managed_values sample_document sample_managed True = Some doc"
  using patch_patched [of sample_document sample_managed True]
  by (force simp: sample_document_def doc_get_def present_item_def)

lemma sample_plan:
  assumes "printed \<noteq> ''x''"
  shows "connect_plan (sample_env printed (sample_table printed)) (sample_manager (Some sample_managed)) sample_managed sample_prior =
    Inr (printed, sample_snapshot printed PhasePrepared, ''p'' @ [CHR 0x0A])"
proof -
  have parsed: "parse_document (sample_env printed (sample_table printed)) ''x'' = Inr sample_document"
    by (simp add: parse_document_def sample_env_def byte_of_def)
  have conflict: "ensure_no_managed_conflict sample_document sample_managed = Inr ()"
    by (simp add: ensure_no_managed_conflict_def sample_document_def doc_get_def present_item_def table_get_def
      ensure_absent_or_matching_def result_simps)
  have notify: "doc_get sample_document ''notify'' = None" by (simp add: sample_document_def doc_get_def present_item_def)
  obtain doc where doc: "patch_managed_values sample_document sample_managed True = Some doc" using sample_patch by blast
  have printed: "ce_print (sample_env printed (sample_table printed)) doc = printed" by (simp add: sample_env_def)
  have bytes: "ef_bytes sample_prior = ''x''" by (simp add: sample_prior_def existing_present_def)
  show ?thesis
    using assms by (simp add: connect_plan_def bytes parsed conflict notify doc printed first_sample result_simps Let_def)
qed

text \<open>C37: What a connect is going to do is planned before anything is written, and planning never panics: the planned
  text is the printed document of the prior text with every absent owned setting added and every other setting
  as it was, the notify command only when nobody has set one, and the snapshot records the prior file and the
  planned text.\<close>
theorem connect_plan_edits:
  "case connect_plan ce m managed prior of
     Inl e \<Rightarrow> e \<noteq> Panicked
   | Inr (updated, s, bytes) \<Rightarrow> (\<exists>doc doc'.
       parse_document ce (ef_bytes prior) = Inr doc \<and> ensure_no_managed_conflict doc managed = Inr () \<and>
       patched managed (os_owns_notify s) doc doc' \<and> updated = ce_print ce doc' \<and>
       os_owns_notify s = (case doc_get doc ''notify'' of None \<Rightarrow> True | Some item \<Rightarrow> notify_matches item managed) \<and>
       prior_of s = prior \<and> connected_of s = existing_present updated (ef_mode prior) \<and> to_bytes ce s = Inr bytes)"
proof (cases "connect_plan ce m managed prior")
  case (Inr plan)
  obtain updated s bytes where plan: "plan = (updated, s, bytes)" by (cases plan)
  obtain doc doc' where parsed: "parse_document ce (ef_bytes prior) = Inr doc"
      and free: "ensure_no_managed_conflict doc managed = Inr ()"
      and doc': "patch_managed_values doc managed (os_owns_notify s) = Some doc'" "updated = ce_print ce doc'"
      and owns: "os_owns_notify s = (case doc_get doc ''notify'' of None \<Rightarrow> True | Some item \<Rightarrow> notify_matches item managed)"
    using Inr plan by (auto simp: connect_plan_def result_simps Let_def first_snapshot_def)
  have "patched managed (os_owns_notify s) doc doc'"
    using patch_patched [OF conflict_free_otel [OF free], of managed "os_owns_notify s"] doc'(1) by auto
  then show ?thesis using Inr plan parsed free doc'(2) owns plan_facts [of ce m managed prior updated s bytes]
    by fastforce
next
  case (Inl e)
  have "e \<noteq> Panicked"
  proof (cases "parse_document ce (ef_bytes prior)")
    case (Inl e')
    then show ?thesis using \<open>connect_plan _ _ _ _ = Inl e\<close>
      by (auto simp: connect_plan_def parse_document_def result_simps split: if_splits option.splits)
  next
    case (Inr doc)
    show ?thesis
    proof (cases "ensure_no_managed_conflict doc managed")
      case (Inl e')
      then show ?thesis using \<open>connect_plan _ _ _ _ = Inl e\<close> Inr
        by (auto simp: connect_plan_def ensure_no_managed_conflict_def ensure_absent_or_matching_def ensure_def ok_or_def
          bind_result_def split: if_splits option.splits toml_item.splits sum.splits)
    next
      case free: (Inr u)
      obtain doc' where "patch_managed_values doc managed
          (case doc_get doc ''notify'' of None \<Rightarrow> True | Some item \<Rightarrow> notify_matches item managed) = Some doc'"
        using patch_patched [OF conflict_free_otel] free by (metis old.unit.exhaust)
      then show ?thesis using \<open>connect_plan _ _ _ _ = Inl e\<close> Inr free
        by (auto simp: connect_plan_def to_bytes_def ok_or_def bind_result_def Let_def split: option.splits)
    qed
  qed
  then show ?thesis using Inl by simp
qed

text \<open>C38: A connect on a machine without faults whose plan fits the size bounds returns connected: the configuration
  holds exactly the planned text under the prior permissions and the snapshot on disk, in its connected phase,
  records the prior file.\<close>
theorem connect_connects:
  assumes "placed m" "codec ce" "served m d" "m_managed m = Some managed" "nodes d (snapshot_path m) = None"
    "seen (nodes d) (m_config_path m) = Inr prior" "connect_plan ce m managed prior = Inr (updated, s, bytes)"
    "length bytes \<le> MAX_SNAPSHOT_BYTES" "length updated \<le> byte_limit (m_config_path m)" "fits ce (s\<lparr>os_phase := PhaseConnected\<rparr>)"
  shows "\<exists>d' written. config_connect ce m d = (Inr Connected, d') \<and>
    file_at (nodes d') (m_config_path m) (existing_present updated (ef_mode prior)) \<and>
    nodes d' (snapshot_path m) = Some (Regular written 384) \<and>
    ce_decode ce written = Some (s\<lparr>os_phase := PhaseConnected\<rparr>) \<and> prior_of s = prior"
proof -
  let ?Q = "\<lambda>status d'. status = Connected \<and> file_at (nodes d') (m_config_path m) (existing_present updated (ef_mode prior)) \<and>
    (\<exists>written. nodes d' (snapshot_path m) = Some (Regular written 384) \<and> ce_decode ce written = Some (s\<lparr>os_phase := PhaseConnected\<rparr>))
    \<and> prior_of s = prior"
  have "wp (connect_with ce filesystem.mu m) ?Q (\<lambda>_ _. False) d"
  proof (rule filesystem.wp_connect_served [OF assms(1,3,4,5)])
    fix d'
    assume d': "served m d'" "still m d d'"
    have "nodes d' (snapshot_path m) = None" "seen (nodes d') (m_config_path m) = Inr prior"
      using d'(2) assms(5,6) seen_cong [of "nodes d'" "m_config_path m" "nodes d"] by (simp_all add: still_def)
    then show "wp (connect_fresh ce filesystem.mu m managed) ?Q (\<lambda>_ _. False) d'"
      by (rule filesystem.wp_connect_fresh_served [OF assms(1,2) d'(1) _ _ assms(7-10)]) (auto simp: hold_def owns_def)
  qed
  then show ?thesis
    by (auto simp: config_connect_def filesystem_mu wp_def split: prod.splits sum.splits)
qed

theorem connect_connects_witness:
  "\<exists>d' written. config_connect (sample_env ''y'' (sample_table ''y'')) (sample_manager (Some sample_managed))
      (sample_machine [sample_config \<mapsto> Regular ''x'' 384] (\<lambda>_. False)) = (Inr Connected, d') \<and>
    file_at (nodes d') sample_config (existing_present ''y'' 384) \<and>
    nodes d' (Path True [''h'', ''r'', ''s'', SNAPSHOT_FILE]) = Some (Regular written 384) \<and>
    ce_decode (sample_env ''y'' (sample_table ''y'')) written = Some (sample_snapshot ''y'' PhaseConnected)"
proof -
  have "seen (nodes (sample_machine [sample_config \<mapsto> Regular ''x'' 384] (\<lambda>_. False))) sample_config = Inr sample_prior"
    by (simp add: seen_Regular sample_prior_def)
  moreover have "served (sample_manager (Some sample_managed)) (sample_machine [sample_config \<mapsto> Regular ''x'' 384] (\<lambda>_. False))"
    by (rule sample_served) auto
  ultimately show ?thesis
    using connect_connects [OF sample_placed sample_codec, of "Some sample_managed"
        "sample_machine [sample_config \<mapsto> Regular ''x'' 384] (\<lambda>_. False)" sample_managed sample_prior "''y''"
        "''y''" "sample_snapshot ''y'' PhasePrepared" "''p'' @ [CHR 0x0A]"]
      sample_plan [of "''y''"] sample_fits [of PhaseConnected "''y''"]
    by (simp add: MAX_SNAPSHOT_BYTES_def) (simp add: sample_prior_def existing_present_def)
qed

text \<open>C0: A connect that cannot be planned, because the text is no document, an owned setting has another value or
  the snapshot cannot be encoded, returns that error and changes neither the configuration nor the snapshot.\<close>
theorem connect_refuses:
  assumes "placed m" "served m d" "m_managed m = Some managed" "nodes d (snapshot_path m) = None"
    "seen (nodes d) (m_config_path m) = Inr prior" "connect_plan ce m managed prior = Inl e"
  shows "\<exists>d'. config_connect ce m d = (Inl e, d') \<and> nodes d' (m_config_path m) = nodes d (m_config_path m) \<and>
    nodes d' (snapshot_path m) = None"
proof -
  let ?E = "\<lambda>e' d'. e' = e \<and> still m d d'"
  have "wp (connect_with ce filesystem.mu m) (\<lambda>_ _. False) ?E d"
  proof (rule filesystem.wp_connect_served [OF assms(1-4)])
    fix d'
    assume d': "served m d'" "still m d d'"
    have "seen (nodes d') (m_config_path m) = Inr prior"
      using d'(2) assms(5) seen_cong [of "nodes d'" "m_config_path m" "nodes d"] by (simp add: still_def)
    then show "wp (connect_fresh ce filesystem.mu m managed) (\<lambda>_ _. False) ?E d'"
      unfolding connect_fresh_def read_config_def wp_bind [of "read_optional_private_file _"]
      by (rule wp_read_config_calm [OF served_calm [OF d'(1)]])
        (use assms(6) d'(2) in \<open>auto simp: wp_simps intro: still_unchanged\<close>)
  qed
  then show ?thesis using assms(4)
    by (auto simp: config_connect_def filesystem_mu wp_def still_def split: prod.splits sum.splits)
qed

theorem connect_refuses_witness:
  "\<exists>d'. config_connect (sample_env ''y'' []) (sample_manager (Some sample_managed))
      (sample_machine [sample_config \<mapsto> Regular [CHR 0xFF] 384] (\<lambda>_. False)) =
        (Inl (InvalidArgument ''Codex config encoding''), d') \<and>
     nodes d' sample_config = Some (Regular [CHR 0xFF] 384) \<and> nodes d' (Path True [''h'', ''r'', ''s'', SNAPSHOT_FILE]) = None"
proof -
  have "seen (nodes (sample_machine [sample_config \<mapsto> Regular [CHR 0xFF] 384] (\<lambda>_. False))) sample_config =
      Inr (existing_present [CHR 0xFF] 384)"
    by (simp add: seen_Regular)
  moreover have "connect_plan (sample_env ''y'' []) (sample_manager (Some sample_managed)) sample_managed
      (existing_present [CHR 0xFF] 384) = Inl (InvalidArgument ''Codex config encoding'')"
    by (simp add: connect_plan_def parse_document_def existing_present_def byte_of_def result_simps)
  moreover have "served (sample_manager (Some sample_managed)) (sample_machine [sample_config \<mapsto> Regular [CHR 0xFF] 384] (\<lambda>_. False))"
    by (rule sample_served) auto
  ultimately show ?thesis
    using connect_refuses [OF sample_placed, of "Some sample_managed"
        "sample_machine [sample_config \<mapsto> Regular [CHR 0xFF] 384] (\<lambda>_. False)" sample_managed
        "existing_present [CHR 0xFF] 384" "sample_env ''y'' []"]
    by simp
qed

text \<open>C39: A connect follows an edit that leaves the owned settings alone: the configuration stays as edited, and the
  file that a later disconnect restores becomes the edited document with the owned settings set back to those
  of the prior document and all others kept.\<close>
theorem edits_followed:
  assumes "placed m" "codec ce" "served m d" "m_managed m = Some managed"
    "seen (nodes d) (snapshot_path m) = Inr f" "ef_existed f" "ce_decode ce (ef_bytes f) = Some s"
    "validate_path_and_prior ce m s = Inr ()" "wf_file (prior_of s)" "os_phase s = PhaseConnected"
    "os_managed_fingerprint s = managed_fingerprint ce managed (os_owns_notify s)"
    "seen (nodes d) (m_config_path m) = Inr g" "ef_existed g" "ef_mode g = os_connected_mode s" "g \<noteq> connected_of s"
    "parse_document ce (ef_bytes g) = Inr current_doc" "parse_document ce (ef_bytes (connected_of s)) = Inr connected_doc"
    "owned_values_match (ce_item_text ce) current_doc connected_doc (os_owns_notify s)"
    "parse_document ce (ef_bytes (prior_of s)) = Inr prior_doc" "plain_owned prior_doc"
    "restore_owned_values current_doc prior_doc (os_owns_notify s) = Inr rebased"
    "fits ce (rebased_snapshot ce s (ce_print ce rebased) g)"
  shows "\<exists>d'. config_connect ce m d = (Inr Connected, d') \<and>
    nodes d' (m_config_path m) = nodes d (m_config_path m) \<and>
    tracked ce m (existing_present (ce_print ce rebased) (ef_mode g)) (nodes d') \<and>
    restored (os_owns_notify s) current_doc prior_doc rebased"
proof -
  let ?Q = "\<lambda>status d'. status = Connected \<and> nodes d' (m_config_path m) = nodes d (m_config_path m) \<and>
    tracked ce m (existing_present (ce_print ce rebased) (ef_mode g)) (nodes d')"
  have "wp (connect_with ce filesystem.mu m) ?Q (\<lambda>_ _. False) d"
    by (rule filesystem.wp_connect_rebase [OF assms(1-19,21,22)]) auto
  then show ?thesis using restore_restored [OF assms(20,21)]
    by (auto simp: config_connect_def filesystem_mu wp_def split: prod.splits sum.splits)
qed

definition sample_followed :: ownership_snapshot where
  "sample_followed = rebased_snapshot (sample_env ''y'' []) (sample_snapshot ''y'' PhaseConnected) ''y'' (existing_present ''z'' 384)"

theorem edits_followed_witness:
  "\<exists>d' rebased. config_connect (sample_env ''y'' ((sample_followed, ''b'') # sample_table ''y'')) (sample_manager (Some sample_managed))
      (sample_recorded ''z'' ''c'') = (Inr Connected, d') \<and>
     nodes d' sample_config = Some (Regular ''z'' 384) \<and>
     restored True sample_document sample_document rebased"
proof -
  let ?ce = "sample_env ''y'' ((sample_followed, ''b'') # sample_table ''y'')"
  let ?m = "sample_manager (Some sample_managed)" and ?s = "sample_snapshot ''y'' PhaseConnected"
  have restore: "restore_owned_values sample_document sample_document True = Inr \<lparr>doc_text = [], doc_entries = []\<rparr>"
    by (simp add: restore_owned_values_def sample_document_def doc_get_def doc_set_def doc_remove_def present_item_def
      edit_otel_def OWNED_OTEL_KEYS_def restore_key_def otel_get_def like_get_def table_get_def like_is_empty_def result_simps)
  have codec: "codec ?ce" by (rule table_codec) (simp add: sample_table_def)
  have parsed: "parse_document ?ce bytes = Inr sample_document" if "bytes \<in> {''x'', ''y'', ''z''}" for bytes
    using that by (auto simp: parse_document_def sample_env_def byte_of_def)
  have bytes: "ef_bytes (connected_of ?s) = ''y''" "ef_bytes sample_prior = ''x''" "ef_bytes (existing_present b mode) = b"
      "ef_existed (existing_present b mode)" "ef_mode (existing_present b mode) = mode" "wf_file sample_prior"
      "existing_present ''z'' mode \<noteq> existing_present ''y'' mode" for b mode
    by (simp_all add: existing_present_def sample_prior_def wf_file_def)
  have "rebased_snapshot ?ce ?s ''y'' (existing_present ''z'' 384) = sample_followed"
    by (simp add: sample_followed_def rebased_snapshot_def sample_env_def)
  then have fits: "fits ?ce (rebased_snapshot ?ce ?s (ce_print ?ce \<lparr>doc_text = [], doc_entries = []\<rparr>) (existing_present ''z'' 384))"
    by (simp add: fits_def to_bytes_def sample_env_def result_simps MAX_SNAPSHOT_BYTES_def)
  have decode: "ce_decode ?ce (ef_bytes (existing_present (''c'' @ [CHR 0x0A]) 384)) = Some ?s"
    by (simp add: existing_present_def sample_env_def sample_table_def)
  have seen: "seen (nodes (sample_recorded ''z'' ''c'')) (snapshot_path ?m) = Inr (existing_present (''c'' @ [CHR 0x0A]) 384)"
      "seen (nodes (sample_recorded ''z'' ''c'')) (m_config_path ?m) = Inr (existing_present ''z'' 384)"
    using snapshot_path_limit [of ?m] by (simp_all add: seen_Regular MAX_SNAPSHOT_BYTES_def del: snapshot_path_limit)
  have "\<exists>d'. config_connect ?ce ?m (sample_recorded ''z'' ''c'') = (Inr Connected, d') \<and>
      nodes d' (m_config_path ?m) = nodes (sample_recorded ''z'' ''c'') (m_config_path ?m) \<and>
      tracked ?ce ?m (existing_present (ce_print ?ce \<lparr>doc_text = [], doc_entries = []\<rparr>) (ef_mode (existing_present ''z'' 384))) (nodes d') \<and>
      restored (os_owns_notify ?s) sample_document sample_document \<lparr>doc_text = [], doc_entries = []\<rparr>"
  proof (rule edits_followed [OF sample_placed codec, where managed = sample_managed and connected_doc = sample_document
      and f = "existing_present (''c'' @ [CHR 0x0A]) 384" and prior_doc = sample_document and g = "existing_present ''z'' 384"
      and s = ?s and current_doc = sample_document])
    show "served ?m (sample_recorded ''z'' ''c'')" by (rule sample_served) (auto split: if_splits)
    show "os_managed_fingerprint ?s = managed_fingerprint ?ce sample_managed (os_owns_notify ?s)"
      by (simp add: sample_snapshot_def first_snapshot_def managed_fingerprint_def sample_env_def)
    show "validate_path_and_prior ?ce ?m ?s = Inr ()" by (rule sample_valid) simp
    show "owned_values_match (ce_item_text ?ce) sample_document sample_document (os_owns_notify ?s)"
      by (simp add: owned_values_match_def items_match_def sample_document_def doc_get_def present_item_def OWNED_OTEL_KEYS_def
        otel_get_def like_get_def table_get_def)
    show "plain_owned sample_document"
      by (simp add: plain_owned_def sample_document_def otel_get_def doc_get_def present_item_def like_get_def table_get_def)
  qed (use seen decode fits parsed restore in \<open>simp_all add: bytes\<close>)
  then show ?thesis by (auto intro: exI)
qed

text \<open>C40: A planned text above the size bound is written and never taken back: the connect fails after it has
  replaced the configuration, and every later disconnect fails without restoring anything, whatever the
  schedule of faults and the managed values.\<close>
theorem outgrown_never_restored:
  assumes "placed m" "codec ce" "served m d" "m_managed m = Some managed" "nodes d (snapshot_path m) = None"
    "seen (nodes d) (m_config_path m) = Inr prior" "connect_plan ce m managed prior = Inr (updated, s, bytes)"
    "length bytes \<le> MAX_SNAPSHOT_BYTES" "byte_limit (m_config_path m) < length updated"
  shows "\<exists>e d'. config_connect ce m d = (Inl e, d') \<and>
    nodes d' (m_config_path m) = Some (Regular updated (ef_mode prior)) \<and>
    (\<forall>managed schedule. \<exists>e' d''.
       config_disconnect ce (m\<lparr>m_managed := managed\<rparr>) (d'\<lparr>faults := schedule\<rparr>) = (Inl e', d'') \<and>
       nodes d'' (m_config_path m) = Some (Regular updated (ef_mode prior)))"
proof -
  let ?E = "\<lambda>_ d'. outgrown ce m s d' \<and> nodes d' (m_config_path m) = Some (Regular updated (ef_mode prior))"
  have "wp (connect_with ce filesystem.mu m) (\<lambda>_ _. False) ?E d"
  proof (rule filesystem.wp_connect_served [OF assms(1,3,4,5)])
    fix d'
    assume d': "served m d'" "still m d d'"
    have "nodes d' (snapshot_path m) = None" "seen (nodes d') (m_config_path m) = Inr prior"
      using d'(2) assms(5,6) seen_cong [of "nodes d'" "m_config_path m" "nodes d"] by (simp_all add: still_def)
    from wp_connect_outgrown [OF assms(1,2) d'(1) this assms(7-9)]
    show "wp (connect_fresh ce filesystem.mu m managed) (\<lambda>_ _. False) ?E d'" by (simp add: filesystem_mu)
  qed
  then obtain e d' where connect: "config_connect ce m d = (Inl e, d')" and out: "outgrown ce m s d'"
      and kept: "nodes d' (m_config_path m) = Some (Regular updated (ef_mode prior))"
    by (auto simp: config_connect_def filesystem_mu wp_def split: prod.splits sum.splits)
  have stuck: "\<exists>e' d''. config_disconnect ce (m\<lparr>m_managed := x\<rparr>) (d'\<lparr>faults := schedule\<rparr>) = (Inl e', d'') \<and>
      nodes d'' (m_config_path m) = Some (Regular updated (ef_mode prior))" for x schedule
  proof -
    have "placed (m\<lparr>m_managed := x\<rparr>)" "outgrown ce (m\<lparr>m_managed := x\<rparr>) s (d'\<lparr>faults := schedule\<rparr>)"
      using assms(1) out by (simp_all add: outgrown_def)
    from outgrown_disconnect [OF this, of filesystem_mutations] show ?thesis
      using kept by (auto simp: config_disconnect_def wp_def still_def split: prod.splits sum.splits)
  qed
  show ?thesis using connect kept stuck by blast
qed

theorem outgrown_never_restored_witness:
  "\<exists>e d'. config_connect (sample_env (replicate 1048577 CHR ''a'') (sample_table (replicate 1048577 CHR ''a'')))
      (sample_manager (Some sample_managed)) (sample_machine [sample_config \<mapsto> Regular ''x'' 384] (\<lambda>_. False)) = (Inl e, d') \<and>
    nodes d' sample_config = Some (Regular (replicate 1048577 CHR ''a'') 384)"
proof -
  define big where "big = replicate 1048577 CHR ''a''"
  have size: "length big = 1048577" by (simp add: big_def)
  then have "big \<noteq> ''x''" by auto
  then have plan: "connect_plan (sample_env big (sample_table big)) (sample_manager (Some sample_managed)) sample_managed sample_prior =
      Inr (big, sample_snapshot big PhasePrepared, ''p'' @ [CHR 0x0A])" by (rule sample_plan)
  have seen: "seen (nodes (sample_machine [sample_config \<mapsto> Regular ''x'' 384] (\<lambda>_. False))) sample_config = Inr sample_prior"
    by (simp add: seen_Regular sample_prior_def)
  have served: "served (sample_manager (Some sample_managed)) (sample_machine [sample_config \<mapsto> Regular ''x'' 384] (\<lambda>_. False))"
    by (rule sample_served) auto
  have "\<exists>e d'. config_connect (sample_env big (sample_table big)) (sample_manager (Some sample_managed))
      (sample_machine [sample_config \<mapsto> Regular ''x'' 384] (\<lambda>_. False)) = (Inl e, d') \<and>
    nodes d' (m_config_path (sample_manager (Some sample_managed))) = Some (Regular big (ef_mode sample_prior))"
    using outgrown_never_restored [OF sample_placed sample_codec served _ _ _ plan] seen size
    by (simp add: MAX_SNAPSHOT_BYTES_def) blast
  then show ?thesis unfolding big_def by (simp add: sample_prior_def existing_present_def)
qed

end
