(* ===== verification/Spec2Isabelle.thy ===== *)
theory Spec2Isabelle
  imports Topology Projection_Laws Report_Laws Scheduler Ingress Storage_Budget Storage_Admission Dashboard_Summary
    Claude_Laws Cursor_Laws Codex_Fifo_Laws Codex_Notify Codex_Config_Theorems
begin

text \<open>
  \<^bold>\<open>Agent observability: a verification development.\<close>

  The program collects what coding agents do (runs, turns, model and tool calls), keeps one durable
  record per span on the local machine, and turns the records into reports.  An observation goes
  through these parts:

  \<^enum> an adapter hands raw events to the bounded ingress (\<^verbatim>\<open>crates/local-runtime/src/ingress.rs\<close>);
  \<^enum> the domain crate merges the observations of a span and checks the parent links
    (\<^verbatim>\<open>crates/domain/src/lib.rs\<close>, driven by \<^verbatim>\<open>crates/application/src/lib.rs\<close>);
  \<^enum> the contracts crate projects the state to a durable record, validates it and strips what must
    not leave the process (\<^verbatim>\<open>crates/contracts/src/lib.rs\<close>);
  \<^enum> the application crate prices the records and projects them to a report;
  \<^enum> the local runtime decides how often to work (scheduler), under which policy, and whether there
    is room to write (storage budget, admission, accounting);
  \<^enum> the configuration manager writes the settings that make Codex send its telemetry into the
    configuration of Codex, and restores what it replaced (\<^verbatim>\<open>crates/codex-config/src/lib.rs\<close>).

  \<^bold>\<open>Theories.\<close>

  \<^item> \<open>Prelude\<close>: results as sums, in-place updates that keep partial writes visible, checked and
    saturating machine arithmetic, byte strings.  \<open>Invariant\<close>: the interface of a stateful component
    (\<open>machine\<close>, and \<open>timed_machine\<close> with a clock that does not run backwards) with the invariant
    of its runs.  \<open>Ordered_Map\<close>: \<^verbatim>\<open>BTreeMap\<close> and \<^verbatim>\<open>BTreeSet\<close> as sorted lists, with grouping.
    \<open>Partial_Join\<close>: locales for partial joins and for folds over them.  \<open>F64\<close>: IEEE binary64 with
    rounding to nearest, as rationals with infinities and not-a-number.
  \<^item> \<open>Domain\<close> and \<open>Lifecycle\<close>: span states, \<^verbatim>\<open>merge_state\<close>, \<^verbatim>\<open>LifecycleReducer\<close>.  The merge of two
    states interprets the partial join, so the result of a batch does not depend on the order of
    arrival, replay is harmless, the reduced states can stand for their batch, and each is the
    least upper bound of its observations.
  \<^item> \<open>Topology\<close>: \<^verbatim>\<open>validate_topology\<close>, \<^verbatim>\<open>detect_cycle\<close>, \<^verbatim>\<open>reduce_span_state\<close>,
    \<^verbatim>\<open>reduce_observation_state\<close>.  Validation accepts exactly the well-linked span sets, the cycle
    walk ends and is exact, and a rejected observation stays in the caller's list and makes every
    later one fail.
  \<^item> \<open>Contract_Types\<close>, \<open>Privacy\<close>, \<open>Durable_Contract\<close> and their laws \<open>Privacy_Laws\<close>,
    \<open>Projection_Laws\<close>: the wire types, the redaction of secrets and paths, hashed identifiers, the
    validation and projection of records.  The laws say what the privacy boundary lets through, that
    it is idempotent, keeps links and measurements, and that projection loses no precision.
    \<open>Report_Contract\<close>: validation of report documents and the conversion of the first version.
  \<^item> \<open>Pricing\<close>, \<open>Pricing_Laws\<close>: rate tables, billable tokens, estimates, aggregates.  \<open>Report\<close>,
    \<open>Report_Laws\<close>: the report projector; totals, orders and filters are exact.
  \<^item> \<open>Dashboard_Contract\<close>: requests and responses of the local dashboard
    (\<^verbatim>\<open>crates/contracts/src/dashboard.rs\<close>); acceptance of requests is characterised, counters have
    one spelling.  \<open>Dashboard_Summary\<close>: the accumulator of the key figures
    (\<^verbatim>\<open>crates/application/src/dashboard_summary.rs\<close>); what it finishes is valid for the contract, exact,
    and agrees with the summary of the report over the same spans.
  \<^item> \<open>Handoff\<close>: what the adapters share (records, batches, stable identifiers, lines), with the locales
    \<open>handoff_links\<close> (observations that link to each other) and \<open>handoff_loop\<close> (the loop over the
    records keeps the batch in order).  \<open>Jsonl_Adapter\<close>: the getters and the loop that two of the
    adapters declare alike, and the contract \<open>jsonl_adapter\<close> of a mapping, from which acceptance, order
    and a valid topology of a batch follow.
  \<^item> \<open>Claude_Adapter\<close>, \<open>Cursor_Adapter\<close>, \<open>Codex_Adapter\<close> with their laws: the mapping of every event
    of the three agents (\<^verbatim>\<open>crates/adapter-claude-code\<close>, \<^verbatim>\<open>crates/adapter-cursor\<close>,
    \<^verbatim>\<open>crates/adapter-codex\<close>); each interprets the contract, and the laws say which attributes a
    mapping reads and which texts an observation can carry.
  \<^item> \<open>Codex_Correlation\<close> and its laws: the queues that pair a request of one telemetry export with its
    completion in another, bounded, expiring and written as snapshots.  The state stays small and tidy,
    the oldest entry is evicted first, a restart loses nothing as
    long as no identifier is a digest cut short.  \<open>Codex_Fifo_Laws\<close>: whole runs of exports and restarts, in
    which every queue stays in the order of arrival.  \<open>Codex_Otlp\<close> and its laws: a telemetry export from its
    JSON tree to the batch.  \<open>Codex_Notify\<close>: the projection of a notify call, the private detail, and
    the round trip from one to the observation of the turn.
  \<^item> \<open>Config_Files\<close> and its laws: files with permissions, system calls that fail by a schedule, checked
    replacement and removal (\<^verbatim>\<open>atomic_replace_with\<close>, \<^verbatim>\<open>remove_checked\<close>), with the locales
    \<open>file_mutations\<close> (a file is replaced as a whole or not at all, under every schedule) and
    \<open>working_mutations\<close> (without faults it is replaced), the trait \<^verbatim>\<open>FileMutations\<close> of the code, both
    interpreted on the code's own operations.  \<open>Config_Toml\<close> and its laws: the owned settings, the
    conflict checks and which settings an edit of the document touches.  \<open>Codex_Config\<close>: the ownership
    snapshot with its four phases and connect, rotate, rebase, disconnect and status.
    \<open>Codex_Config_Laws\<close>: the invariant \<open>tracked\<close> (the prior file is in place or recorded) is kept by
    every step, whatever fails.  \<open>Codex_Config_Recovery\<close>: without faults a disconnect finishes.
    \<open>Codex_Config_Properties\<close>: edits by others, connections, edits that are followed, texts that
    outgrow the bound.  \<open>Codex_Config_Theorems\<close>: the promises over the code's own file operations.
  \<^item> \<open>Policy\<close>, \<open>Scheduler\<close>, \<open>Ingress\<close>, \<open>Storage_Budget\<close>, \<open>Storage_Admission\<close>: the local runtime.
    The scheduler and the ingress interpret the machine interfaces; the storage theories relate
    machine arithmetic to sums over the naturals and the accounting walk to the tree it walks.

  \<^bold>\<open>Conventions.\<close>  A Rust function is a HOL function of the same name, a \<^verbatim>\<open>Result\<close> is a sum with the
  error on the left, \<^verbatim>\<open>&mut self\<close> is the state passed in and returned.  Fixed-width integers are
  words of their width; lengths of in-memory lists are naturals.  Strings are lists of UTF-8 bytes.
  Every loop is total: recursion over lists, a measure (parent walk, accounting walk), never fuel.

  \<^bold>\<open>Parameters.\<close>  SHA-256, the JSON decoders and printers, the TOML parser and printer and, outside
  \<open>Config_Files\<close>, the system calls are arguments of the definitions that use them; what a theorem needs of them (no collision on the two
  identifiers at hand, well-formed digests, a written snapshot that reads back as itself) is a premise
  of that theorem.

  \<^bold>\<open>Not modelled.\<close>  The store (\<^verbatim>\<open>crates/local-store\<close>) is SQL text executed by SQLite; the collector,
  the command line, the user interface server and the supervision of Codex processes
  (\<^verbatim>\<open>crates/local-collector\<close>, \<^verbatim>\<open>crates/cli\<close>, \<^verbatim>\<open>crates/local-ui\<close>, \<^verbatim>\<open>crates/codex-integration\<close>) are mostly
  file-system and process plumbing; locks, reservations and coherence evidence of the local runtime
  rest on file descriptors and identities of inodes.  Of the file system under the configuration
  manager, symbolic links in the middle of a path, writes that stop half way (a failing write leaves
  the temporary file as it was) and writers that ignore the lock are left out, as are the variants for
  systems other than Unix.  Error texts of third-party decoders are not modelled.
\<close>

section \<open>From the privacy boundary to the dashboard\<close>

lemma sample_accepted:
  assumes "name \<noteq> []"
  shows "\<exists>q. sanitize_durable_record sha (sample_record sid name) = Inr q"
proof -
  have "validate_durable_record (clean_record sha (sample_record sid name)\<lparr>dr_redaction := rd\<rparr>) = Inr ()" for rd
    unfolding clean_record_valid
    using assms
    by (auto simp: validate_durable_record_iff sample_record_def ID_PREFIX_def content_default_def
      validate_attributes_iff attribute_values_def attributes_default_def validate_metrics_def
      metric_values_def result_simps)
  then show ?thesis by (simp add: sanitize_eq)
qed

lemma prefix_only: "starts_with ''id:sha256:x'' ID_PREFIX" "\<not> projected_id ''id:sha256:x''"
  by (simp add: ID_PREFIX_def, simp add: projected_id_def lower_hex64_def)

text \<open>C22: the identifiers that pass the privacy boundary are those the dashboard can ask for, with one gap:
  the trace and span identifier of a sanitized record satisfy the dashboard's request validation
  exactly when the raw identifier did not already carry the prefix of a hashed one, or carried a
  whole digest.  An identifier that merely starts with the prefix is stored as it is and can never
  be requested.\<close>

theorem sanitized_ids_requestable:
  assumes "sanitize_durable_record sha r = Inr q"
    and "length (sha (dr_trace_id r)) = 32" and "length (sha (dr_span_id r)) = 32"
  shows "(validate_projected_id (dr_trace_id q) = Inr () \<longleftrightarrow>
      \<not> starts_with (dr_trace_id r) ID_PREFIX \<or> projected_id (dr_trace_id r)) \<and>
    (validate_projected_id (dr_span_id q) = Inr () \<longleftrightarrow>
      \<not> starts_with (dr_span_id r) ID_PREFIX \<or> projected_id (dr_span_id r))"
proof -
  have "dr_trace_id q = hash_opaque_identifier sha (dr_trace_id r)"
    "dr_span_id q = hash_opaque_identifier sha (dr_span_id r)"
    using assms(1) by (auto simp: sanitize_eq clean_record_def)
  then show ?thesis using hashed_projected assms(2,3) by simp
qed

theorem sanitized_ids_requestable_witness:
  "\<exists>q. sanitize_durable_record (\<lambda>_. replicate 32 0) (sample_record ''id:sha256:x'' ''turn'') = Inr q \<and>
     validate_projected_id (dr_trace_id q) = Inr () \<and> validate_projected_id (dr_span_id q) \<noteq> Inr ()"
proof -
  obtain q where q: "sanitize_durable_record (\<lambda>_. replicate 32 0) (sample_record ''id:sha256:x'' ''turn'') = Inr q"
    using sample_accepted by blast
  have "dr_trace_id (sample_record ''id:sha256:x'' ''turn'') = ''t''"
    "dr_span_id (sample_record ''id:sha256:x'' ''turn'') = ''id:sha256:x''" "\<not> starts_with ''t'' ID_PREFIX"
    by (simp_all add: sample_record_def ID_PREFIX_def)
  then show ?thesis
    using sanitized_ids_requestable [OF q] q prefix_only by (intro exI [of _ q]) auto
qed

end
